(* ===== verification/Prelude.thy ===== *)
theory Prelude
  imports Complex_Main "HOL-Library.Word" "HOL-Library.AList" "HOL-Library.List_Lexorder"
    "HOL-Library.Product_Lexorder" "HOL-Library.Multiset"
begin

text \<open>
  What every component of the memory plane shares: the Python values the code computes with
  (strings as lists of code points, UUIDs as 128-bit words, datetimes as microseconds, floats as
  reals, insertion-ordered dictionaries as association lists), Python's slices, stable sorts and
  first-maximum, the exceptions the code raises, and the generic lemmas and fact collections the
  component theories use.
\<close>

section \<open>Collections of facts\<close>

named_theorems dict_simps \<open>lookup and well-formedness laws of insertion-ordered dictionaries\<close>
named_theorems frame_simps \<open>fields an operation leaves unchanged\<close>
named_theorems wf_intros \<open>operations preserve well-formedness\<close>

section \<open>Exceptions and results\<close>

text \<open>Code points, strings, UUIDs and instants.\<close>

type_synonym str = "int list"
type_synonym uuid = "128 word"
type_synonym datetime = int

text \<open>The exceptions the modelled code raises, with the arguments it gives them.\<close>

datatype pyerr =
    ValueError str
  | KeyError str
  | RuntimeError str
  | TypeError str
  | AttributeError str
  | OverflowError str
  | MemoryRevisionConflictError uuid int "int option"
  | StaleRevisionError uuid int "int option"
  | DependencyFailure str

type_synonym 'a res = "pyerr + 'a"

text \<open>A stateful method: its result or exception, and the state it leaves behind.\<close>

type_synonym ('s, 'a) step = "'s \<Rightarrow> 'a res \<times> 's"

definition res_bind :: "'a res \<Rightarrow> ('a \<Rightarrow> 'b res) \<Rightarrow> 'b res" where
  "res_bind r f = (case r of Inl e \<Rightarrow> Inl e | Inr x \<Rightarrow> f x)"

lemma res_bind_simps [simp]:
  "res_bind (Inl e) f = Inl e"
  "res_bind (Inr x) f = f x"
  by (simp_all add: res_bind_def)

lemma res_bind_Inr_iff: "res_bind r f = Inr y \<longleftrightarrow> (\<exists>x. r = Inr x \<and> f x = Inr y)"
  by (cases r) auto

lemma res_bind_split:
  "P (res_bind r f) \<longleftrightarrow> (\<forall>e. r = Inl e \<longrightarrow> P (Inl e)) \<and> (\<forall>x. r = Inr x \<longrightarrow> P (f x))"
  by (cases r) auto

text \<open>A list comprehension whose body may raise stops at the first exception.\<close>

fun res_map :: "('a \<Rightarrow> 'b res) \<Rightarrow> 'a list \<Rightarrow> 'b list res" where
  "res_map f [] = Inr []"
| "res_map f (x # xs) = res_bind (f x) (\<lambda>y. res_bind (res_map f xs) (\<lambda>ys. Inr (y # ys)))"

lemma res_map_Inr: "res_map f xs = Inr ys \<longleftrightarrow> list_all2 (\<lambda>x y. f x = Inr y) xs ys"
  by (induction xs arbitrary: ys)
    (auto simp: res_bind_Inr_iff list_all2_Cons1)

lemma res_map_Inr_mem: "res_map f xs = Inr ys \<Longrightarrow> x \<in> set xs \<Longrightarrow> \<exists>y. f x = Inr y"
  by (induction xs arbitrary: ys) (auto simp: res_bind_Inr_iff)

lemma res_map_total: "(\<And>x. x \<in> set xs \<Longrightarrow> f x = Inr (g x)) \<Longrightarrow> res_map f xs = Inr (map g xs)"
  by (induction xs) auto

section \<open>Dictionaries in insertion order\<close>

text \<open>
  A Python \<open>dict\<close> iterates in insertion order and keeps the place of a key that is assigned
  again: this is \<^const>\<open>AList.update\<close>.
\<close>

type_synonym ('k, 'v) dict = "('k \<times> 'v) list"

abbreviation dict_get :: "('k, 'v) dict \<Rightarrow> 'k \<Rightarrow> 'v option" where
  "dict_get d k \<equiv> map_of d k"

abbreviation dict_set :: "'k \<Rightarrow> 'v \<Rightarrow> ('k, 'v) dict \<Rightarrow> ('k, 'v) dict" where
  "dict_set k v d \<equiv> AList.update k v d"

abbreviation dict_del :: "'k \<Rightarrow> ('k, 'v) dict \<Rightarrow> ('k, 'v) dict" where
  "dict_del k d \<equiv> AList.delete k d"

abbreviation dict_values :: "('k, 'v) dict \<Rightarrow> 'v list" where
  "dict_values d \<equiv> map snd d"

abbreviation dict_ok :: "('k, 'v) dict \<Rightarrow> bool" where
  "dict_ok d \<equiv> distinct (map fst d)"

text \<open>\<open>d[k]\<close>: a missing key raises \<open>KeyError\<close>.\<close>

definition dict_index :: "('k, 'v) dict \<Rightarrow> 'k \<Rightarrow> 'v res" where
  "dict_index d k = (case dict_get d k of None \<Rightarrow> Inl (KeyError []) | Some v \<Rightarrow> Inr v)"

text \<open>\<open>d.setdefault(k, v)\<close>.\<close>

definition dict_setdefault :: "'k \<Rightarrow> 'v \<Rightarrow> ('k, 'v) dict \<Rightarrow> ('k, 'v) dict" where
  "dict_setdefault k v d = (case dict_get d k of None \<Rightarrow> dict_set k v d | Some _ \<Rightarrow> d)"

text \<open>\<open>{**a, **b}\<close>.\<close>

definition dict_merge :: "('k, 'v) dict \<Rightarrow> ('k, 'v) dict \<Rightarrow> ('k, 'v) dict" where
  "dict_merge a b = foldl (\<lambda>d (k, v). dict_set k v d) a b"

text \<open>\<open>defaultdict(list)\<close>: \<open>d[k].append(x)\<close>.\<close>

definition dict_push :: "'k \<Rightarrow> 'v \<Rightarrow> ('k, 'v list) dict \<Rightarrow> ('k, 'v list) dict" where
  "dict_push k v d = dict_set k ((case dict_get d k of None \<Rightarrow> [] | Some vs \<Rightarrow> vs) @ [v]) d"

declare map_of_eq_Some_iff [simp del]

lemma dict_get_set [dict_simps, simp]:
  "dict_get (dict_set k v d) k' = (if k' = k then Some v else dict_get d k')"
  by (simp add: AList.update_conv')

lemma dict_ok_set [dict_simps, simp]: "dict_ok d \<Longrightarrow> dict_ok (dict_set k v d)"
  by (rule AList.distinct_update)

lemma dict_ok_del [dict_simps, simp]: "dict_ok d \<Longrightarrow> dict_ok (dict_del k d)"
  by (rule AList.distinct_delete)

lemma dict_get_del [dict_simps]: "dict_get (dict_del k d) k' = (if k' = k then None else dict_get d k')"
  by (simp add: AList.delete_conv')

lemma dict_keys_set [dict_simps]:
  "map fst (dict_set k v d) = (if k \<in> fst ` set d then map fst d else map fst d @ [k])"
  by (simp add: AList.update_keys)

lemma dict_set_new: "k \<notin> fst ` set d \<Longrightarrow> dict_set k v d = d @ [(k, v)]"
  by (induction d) auto

lemma dict_set_same: "dict_get d k = Some v \<Longrightarrow> dict_set k v d = d"
  by (rule AList.update_triv)

lemma dict_get_values: "dict_get d k = Some v \<Longrightarrow> v \<in> set (dict_values d)"
  by (force dest: map_of_SomeD)

lemma dict_values_get: "dict_ok d \<Longrightarrow> v \<in> set (dict_values d) \<Longrightarrow> \<exists>k. dict_get d k = Some v"
  by (auto simp: map_of_eq_Some_iff)

lemma dict_get_set_mem: "dict_ok d \<Longrightarrow> dict_get d k = Some v \<longleftrightarrow> (k, v) \<in> set d"
  by (simp add: map_of_eq_Some_iff)

lemma set_dict_set:
  "dict_ok d \<Longrightarrow> set (dict_set k v d) = insert (k, v) {p \<in> set d. fst p \<noteq> k}"
  by (induction d) (auto simp: image_iff)

lemma set_dict_values_set:
  "dict_ok d \<Longrightarrow>
    set (dict_values (dict_set k v d)) = insert v (snd ` {p \<in> set d. fst p \<noteq> k})"
  by (simp add: set_dict_set)

lemma set_dict_values_new:
  "dict_get d k = None \<Longrightarrow> dict_values (dict_set k v d) = dict_values d @ [v]"
  by (simp add: dict_set_new map_of_eq_None_iff)

lemma dict_setdefault_get [dict_simps, simp]:
  "dict_get (dict_setdefault k v d) k' =
    (if k' = k \<and> dict_get d k = None then Some v else dict_get d k')"
  by (auto simp: dict_setdefault_def split: option.splits)

lemma dict_setdefault_ok [dict_simps, simp]: "dict_ok d \<Longrightarrow> dict_ok (dict_setdefault k v d)"
  by (simp add: dict_setdefault_def split: option.splits)

lemma dict_index_simps [simp]:
  "dict_get d k = Some v \<Longrightarrow> dict_index d k = Inr v"
  "dict_get d k = None \<Longrightarrow> dict_index d k = Inl (KeyError [])"
  by (simp_all add: dict_index_def)

lemma dict_merge_Nil [simp]: "dict_merge a [] = a"
  by (simp add: dict_merge_def)

lemma dict_merge_Cons: "dict_merge a ((k, v) # b) = dict_merge (dict_set k v a) b"
  by (simp add: dict_merge_def)

lemma dict_merge_ok: "dict_ok a \<Longrightarrow> dict_ok (dict_merge a b)"
  by (induction b arbitrary: a) (auto simp: dict_merge_Cons)

lemma dict_merge_get:
  "dict_get (dict_merge a b) k = (case dict_get (rev b) k of Some v \<Rightarrow> Some v | None \<Rightarrow> dict_get a k)"
  by (induction b arbitrary: a) (auto simp: dict_merge_Cons map_add_def split: option.splits)

lemma dict_push_get [dict_simps]:
  "dict_get (dict_push k v d) k' =
    (if k' = k then Some ((case dict_get d k of None \<Rightarrow> [] | Some vs \<Rightarrow> vs) @ [v])
     else dict_get d k')"
  by (simp add: dict_push_def)

lemma dict_push_ok [dict_simps, simp]: "dict_ok d \<Longrightarrow> dict_ok (dict_push k v d)"
  by (simp add: dict_push_def)

text \<open>Grouping a list by a key, as the services do with \<open>defaultdict(list)\<close>.\<close>

definition group_by :: "('a \<Rightarrow> 'k) \<Rightarrow> 'a list \<Rightarrow> ('k, 'a list) dict" where
  "group_by f xs = foldl (\<lambda>d x. dict_push (f x) x d) [] xs"

lemma foldl_push_get:
  "dict_get (foldl (\<lambda>d x. dict_push (f x) x d) d xs) k =
    (case (dict_get d k, filter (\<lambda>x. f x = k) xs) of
       (None, []) \<Rightarrow> None
     | (None, ys) \<Rightarrow> Some ys
     | (Some vs, ys) \<Rightarrow> Some (vs @ ys))"
  by (induction xs arbitrary: d)
    (auto simp: dict_push_get split: option.splits list.splits)

lemma foldl_push_ok: "dict_ok d \<Longrightarrow> dict_ok (foldl (\<lambda>d x. dict_push (f x) x d) d xs)"
  by (induction xs arbitrary: d) auto

lemma group_by_get:
  "dict_get (group_by f xs) k =
    (let ys = filter (\<lambda>x. f x = k) xs in if ys = [] then None else Some ys)"
  by (auto simp: group_by_def foldl_push_get Let_def split: list.splits)

lemma group_by_ok [simp]: "dict_ok (group_by f xs)"
  by (simp add: group_by_def foldl_push_ok)

text \<open>\<open>tuple(dict.fromkeys(xs))\<close>: the first occurrence of each element.\<close>

definition uniq :: "'a list \<Rightarrow> 'a list" where
  "uniq xs = foldl (\<lambda>acc x. if x \<in> set acc then acc else acc @ [x]) [] xs"

lemma foldl_uniq:
  "set (foldl (\<lambda>acc x. if x \<in> set acc then acc else acc @ [x]) acc xs) = set acc \<union> set xs"
  "distinct acc \<Longrightarrow> distinct (foldl (\<lambda>acc x. if x \<in> set acc then acc else acc @ [x]) acc xs)"
  by (induction xs arbitrary: acc) auto

lemma set_uniq [simp]: "set (uniq xs) = set xs"
  by (simp add: uniq_def foldl_uniq)

lemma distinct_uniq [simp]: "distinct (uniq xs)"
  by (simp add: uniq_def foldl_uniq)

section \<open>Slices\<close>

text \<open>
  \<open>xs[a:b]\<close>: a negative bound counts from the end, a bound out of range is clipped, and an
  upper bound of \<open>None\<close> is the end of the list.
\<close>

definition py_bound :: "nat \<Rightarrow> int \<Rightarrow> nat" where
  "py_bound n i = (if i < 0 then nat (int n + i) else min n (nat i))"

definition py_slice :: "int \<Rightarrow> int option \<Rightarrow> 'a list \<Rightarrow> 'a list" where
  "py_slice a b xs =
    (let n = length xs; lo = py_bound n a;
         hi = (case b of None \<Rightarrow> n | Some i \<Rightarrow> py_bound n i)
     in take (hi - lo) (drop lo xs))"

definition py_take :: "int \<Rightarrow> 'a list \<Rightarrow> 'a list" where
  "py_take i xs = py_slice 0 (Some i) xs"

definition py_drop :: "int \<Rightarrow> 'a list \<Rightarrow> 'a list" where
  "py_drop i xs = py_slice i None xs"

lemma py_take_nonneg [simp]: "0 \<le> i \<Longrightarrow> py_take i xs = take (nat i) xs"
  by (auto simp: py_take_def py_slice_def py_bound_def min_def Let_def)

lemma py_drop_nonneg [simp]: "0 \<le> i \<Longrightarrow> py_drop i xs = drop (nat i) xs"
  by (auto simp: py_drop_def py_slice_def py_bound_def min_def Let_def)

lemma py_drop_neg: "0 < k \<Longrightarrow> py_drop (- k) xs = drop (length xs - nat k) xs"
  by (auto simp: py_drop_def py_slice_def py_bound_def Let_def nat_diff_distrib')

lemma py_slice_sublist: "set (py_slice a b xs) \<subseteq> set xs"
  by (auto simp: py_slice_def Let_def dest: in_set_takeD in_set_dropD split: option.splits)

lemma py_take_subset: "set (py_take i xs) \<subseteq> set xs"
  by (simp add: py_take_def py_slice_sublist)

lemma length_py_take_le: "0 \<le> i \<Longrightarrow> length (py_take i xs) \<le> nat i"
  by simp

lemma py_slice_None: "0 \<le> a \<Longrightarrow> py_slice a None xs = drop (nat a) xs"
  using py_drop_nonneg [of a xs] by (simp add: py_drop_def)

lemma py_slice_window:
  assumes "0 \<le> a" and "0 \<le> l"
  shows "py_slice a (Some (a + l)) xs = take (nat l) (drop (nat a) xs)"
proof -
  have "nat (a + l) = nat a + nat l"
    using assms by (simp add: nat_add_distrib)
  then show ?thesis
    using assms by (auto simp: py_slice_def py_bound_def Let_def min_def)
qed

lemma distinct_py_slice: "distinct xs \<Longrightarrow> distinct (py_slice a b xs)"
  by (simp add: py_slice_def Let_def)

section \<open>Sorting and maxima\<close>

text \<open>
  \<open>sorted(xs, key=f)\<close> is the stable \<^const>\<open>sort_key\<close>; with \<open>reverse=True\<close> Python
  keeps the order of equal elements too, so it is the reverse of the sort of the reverse.
\<close>

definition sort_key_desc :: "('a \<Rightarrow> 'k::linorder) \<Rightarrow> 'a list \<Rightarrow> 'a list" where
  "sort_key_desc f xs = rev (sort_key f (rev xs))"

lemma set_sort_key_desc [simp]: "set (sort_key_desc f xs) = set xs"
  by (simp add: sort_key_desc_def)

lemma length_sort_key_desc [simp]: "length (sort_key_desc f xs) = length xs"
  by (simp add: sort_key_desc_def)

lemma distinct_sort_key_desc [simp]: "distinct (sort_key_desc f xs) = distinct xs"
  by (simp add: sort_key_desc_def)

lemma mset_sort_key_desc: "mset (sort_key_desc f xs) = mset xs"
  by (simp add: sort_key_desc_def)

lemma sorted_sort_key_desc: "sorted_wrt (\<lambda>x y. f y \<le> f x) (sort_key_desc f xs)"
proof -
  have "sorted (map f (sort_key f (rev xs)))" by simp
  then show ?thesis
    by (simp add: sort_key_desc_def sorted_wrt_rev sorted_wrt_map)
qed

lemma sort_key_strict_unique:
  fixes f :: "'a \<Rightarrow> 'k::linorder"
  assumes "sorted_wrt (\<lambda>x y. f x < f y) xs" and "sorted_wrt (\<lambda>x y. f x < f y) ys"
    and "set xs = set ys"
  shows "xs = ys"
  using assms
proof (induction xs arbitrary: ys)
  case (Cons x xs)
  then obtain y ys' where ys: "ys = y # ys'" by (cases ys) auto
  have "x \<in> set ys" and "y \<in> set (x # xs)"
    using Cons.prems(3) ys by auto
  then have "x = y"
    using Cons.prems(1,2) ys by (auto dest: order.asym)
  moreover have "x \<notin> set xs" "y \<notin> set ys'"
    using Cons.prems ys by auto
  ultimately have "set xs = set ys'"
    using Cons.prems(3) ys by auto
  then show ?case
    using Cons.IH [of ys'] Cons.prems ys \<open>x = y\<close> by simp
qed simp

lemma sorted_sort_key_strict:
  fixes f :: "'a \<Rightarrow> 'k::linorder"
  assumes "distinct xs" and "inj_on f (set xs)"
  shows "sorted_wrt (\<lambda>x y. f x < f y) (sort_key f xs)"
proof -
  have "sorted (map f (sort_key f xs))" by simp
  moreover have "distinct (map f (sort_key f xs))"
    using assms by (simp add: distinct_map)
  ultimately have "sorted_wrt (<) (map f (sort_key f xs))"
    by (simp add: strict_sorted_iff)
  then show ?thesis by (simp add: sorted_wrt_map)
qed

lemma find_SomeD: "find P xs = Some x \<Longrightarrow> x \<in> set xs \<and> P x"
  by (auto simp: find_Some_iff)

text \<open>Rewriting elements without touching the sort key commutes with sorting.\<close>

lemma insort_key_map_commute:
  "(\<And>y. k (f y) = k y) \<Longrightarrow> insort_key k (f x) (map f ys) = map f (insort_key k x ys)"
  by (induction ys) auto

lemma sort_key_map_commute:
  "(\<And>y. k (f y) = k y) \<Longrightarrow> sort_key k (map f xs) = map f (sort_key k xs)"
  by (induction xs) (simp_all add: insort_key_map_commute)

text \<open>Assigning to a present key rewrites that entry in place.\<close>

lemma dict_set_in_place:
  "dict_ok d \<Longrightarrow> dict_get d k = Some v \<Longrightarrow>
    dict_set k w d = map (\<lambda>(k', v'). (k', if k' = k then w else v')) d"
proof (induction d)
  case (Cons p d)
  obtain k' v' where p: "p = (k', v')" by (cases p)
  show ?case
  proof (cases "k' = k")
    case True
    then have "map (\<lambda>(k', v'). (k', if k' = k then w else v')) d = d"
      using Cons.prems p by (intro map_idI) (auto simp: image_iff)
    with True p show ?thesis by simp
  next
    case False
    with Cons p show ?thesis by simp
  qed
qed simp

lemma filter_notin_take:
  assumes "distinct (map f xs)"
  shows "filter (\<lambda>x. f x \<notin> set (take n (map f xs))) xs = drop n xs"
proof -
  have d: "distinct (map f (take n xs) @ map f (drop n xs))"
    using assms by (simp add: map_append [symmetric] del: map_append)
  have "filter (\<lambda>x. f x \<notin> set (take n (map f xs))) (take n xs @ drop n xs) = drop n xs"
    using d unfolding filter_append take_map by (auto simp: filter_empty_conv filter_id_conv)
  then show ?thesis by simp
qed

text \<open>
  \<open>max(xs, key=f)\<close> is the first element with the largest key; \<open>None\<close> stands for the
  \<open>ValueError\<close> of an empty sequence.
\<close>

fun max_by :: "('a \<Rightarrow> 'k::linorder) \<Rightarrow> 'a list \<Rightarrow> 'a option" where
  "max_by f [] = None"
| "max_by f (x # xs) =
    Some (foldl (\<lambda>m y. if f m < f y then y else m) x xs)"

lemma foldl_max_mem: "foldl (\<lambda>m y. if f m < f y then y else m) x xs \<in> insert x (set xs)"
  by (induction xs arbitrary: x) auto

lemma foldl_max_ge:
  fixes f :: "'a \<Rightarrow> 'k::linorder"
  shows "y \<in> insert x (set xs) \<Longrightarrow>
    f y \<le> f (foldl (\<lambda>m y. if f m < f y then y else m) x xs)"
proof (induction xs arbitrary: x y)
  case (Cons z zs)
  let ?x = "if f x < f z then z else x"
  have "f y \<le> f ?x \<or> y \<in> set zs" using Cons.prems by auto
  then show ?case
    using Cons.IH [of y ?x] Cons.IH [of ?x ?x] by (auto intro: order_trans)
qed simp

lemma max_by_Some: "max_by f xs = Some m \<Longrightarrow> m \<in> set xs \<and> (\<forall>y \<in> set xs. f y \<le> f m)"
  using foldl_max_mem [of f] foldl_max_ge [of _ _ _ f] by (cases xs) fastforce+

lemma max_by_None [simp]: "max_by f xs = None \<longleftrightarrow> xs = []"
  by (cases xs) auto

lemma sort_key_permutes_nonempty [simp]: "sort_key f xs = [] \<longleftrightarrow> xs = []"
  by (metis length_0_conv length_sort)

lemma foldl_keeps: "(\<And>acc x. P acc \<Longrightarrow> P (step acc x)) \<Longrightarrow> P acc \<Longrightarrow> P (foldl step acc xs)"
  by (induction xs arbitrary: acc) simp_all

section \<open>Merging and deleting\<close>

lemma dict_get_rev: "dict_ok d \<Longrightarrow> dict_get (rev d) k = dict_get d k"
proof -
  assume d: "dict_ok d"
  then have r: "dict_ok (rev d)" unfolding rev_map [symmetric] distinct_rev .
  have "dict_get (rev d) k = Some v \<longleftrightarrow> dict_get d k = Some v" for v
    using dict_get_set_mem [OF d, of k v] dict_get_set_mem [OF r, of k v] by simp
  then show ?thesis using option.exhaust by metis
qed

lemma get_deleted: "dict_get (foldl (\<lambda>d i. dict_del i d) d ids) k = (if k \<in> set ids then None else dict_get d k)"
  by (induction ids arbitrary: d) (auto simp: dict_get_del)

lemma deleted_ok: "dict_ok d \<Longrightarrow> dict_ok (foldl (\<lambda>d i. dict_del i d) d ids)"
  by (induction ids arbitrary: d) auto

section \<open>Pieces of a fixed length\<close>

text \<open>\<open>[xs[i:i + n] for i in range(0, len(xs), n)]\<close>.\<close>

function slices :: "nat \<Rightarrow> 'a list \<Rightarrow> 'a list list" where
  "slices n xs = (if xs = [] \<or> n = 0 then [] else take n xs # slices n (drop n xs))"
  by pat_completeness auto
termination by (relation "measure (length \<circ> snd)") auto

declare slices.simps [simp del]

lemma slices_simps [simp]:
  "slices n [] = []" "0 < n \<Longrightarrow> xs \<noteq> [] \<Longrightarrow> slices n xs = take n xs # slices n (drop n xs)"
  by (subst slices.simps; simp)+

lemma length_slices: "0 < n \<Longrightarrow> length (slices n xs) = (length xs + n - 1) div n"
proof (induction n xs rule: slices.induct)
  case (1 n xs)
  show ?case
  proof (cases "xs = []")
    case False
    then have "length (slices n xs) = Suc ((length (drop n xs) + n - 1) div n)"
      using 1 by simp
    also have "\<dots> = (length xs + n - 1) div n"
    proof (cases "length xs \<le> n")
      case True
      then have "(length (drop n xs) + n - 1) div n = 0" using 1(2) by simp
      moreover have "(length xs + n - 1) div n = 1"
        using True False 1(2) by (intro div_nat_eqI) (cases xs; simp)+
      ultimately show ?thesis by simp
    next
      case far: False
      then have e: "length xs + n - 1 = (length (drop n xs) + n - 1) + n" using 1(2) by simp
      show ?thesis unfolding e using 1(2) by (simp only: div_add_self2 Suc_eq_plus1 neq0_conv)
    qed
    finally show ?thesis .
  next
    case True
    with 1(2) show ?thesis by simp
  qed
qed

lemma concat_slices: "0 < n \<Longrightarrow> concat (slices n xs) = xs"
proof (induction n xs rule: slices.induct)
  case (1 n xs)
  then show ?case by (cases "xs = []") simp_all
qed

lemma slices_bounds: "0 < n \<Longrightarrow> ys \<in> set (slices n xs) \<Longrightarrow> ys \<noteq> [] \<and> length ys \<le> n"
proof (induction n xs rule: slices.induct)
  case (1 n xs)
  then show ?case by (cases "xs = []") auto
qed

end
