(* ===== verification/Text.thy ===== *)
theory Text
  imports Prelude
begin

text \<open>
  Python's \<open>str\<close>: a list of code points. The operations are the ones the code uses
  (\<open>strip\<close>, \<open>lower\<close>, \<open>casefold\<close>, \<open>split\<close>, \<open>splitlines\<close>, \<open>join\<close>, \<open>rfind\<close>, the regular
  expression \<open>\w+\<close>, \<open>str(int)\<close> and \<open>str(uuid)\<close>). White space and line breaks are Python's full
  sets; the letter tables cover the Latin-1 and Cyrillic blocks, the two scripts the code's own
  word lists are written in, and read every other code point as an uncased non-word character.
\<close>

section \<open>Literals and characters\<close>

definition lit :: "string \<Rightarrow> str" where
  "lit s = map of_char s"

definition is_space :: "int \<Rightarrow> bool" where
  "is_space c \<longleftrightarrow> 9 \<le> c \<and> c \<le> 13 \<or> 28 \<le> c \<and> c \<le> 32 \<or> c = 133 \<or> c = 160 \<or> c = 5760
     \<or> 8192 \<le> c \<and> c \<le> 8202 \<or> c = 8232 \<or> c = 8233 \<or> c = 8239 \<or> c = 8287 \<or> c = 12288"

definition is_linebreak :: "int \<Rightarrow> bool" where
  "is_linebreak c \<longleftrightarrow> 10 \<le> c \<and> c \<le> 13 \<or> 28 \<le> c \<and> c \<le> 30 \<or> c = 133 \<or> c = 8232 \<or> c = 8233"

definition is_upper :: "int \<Rightarrow> bool" where
  "is_upper c \<longleftrightarrow> 65 \<le> c \<and> c \<le> 90 \<or> 192 \<le> c \<and> c \<le> 222 \<and> c \<noteq> 215 \<or> 1040 \<le> c \<and> c \<le> 1071"

definition lower_char :: "int \<Rightarrow> int" where
  "lower_char c = (if is_upper c then c + 32 else if 1024 \<le> c \<and> c \<le> 1039 then c + 80 else c)"

definition is_word :: "int \<Rightarrow> bool" where
  "is_word c \<longleftrightarrow> 48 \<le> c \<and> c \<le> 57 \<or> 65 \<le> c \<and> c \<le> 90 \<or> c = 95 \<or> 97 \<le> c \<and> c \<le> 122
     \<or> c \<in> {170, 178, 179, 181, 185, 186, 188, 189, 190}
     \<or> 192 \<le> c \<and> c \<le> 255 \<and> c \<noteq> 215 \<and> c \<noteq> 247
     \<or> 1024 \<le> c \<and> c \<le> 1327 \<and> \<not> (1154 \<le> c \<and> c \<le> 1161)"

definition py_lower :: "str \<Rightarrow> str" where
  "py_lower s = map lower_char s"

text \<open>\<open>casefold\<close> differs from \<open>lower\<close> on the sharp s and the micro sign.\<close>

definition casefold :: "str \<Rightarrow> str" where
  "casefold s = concat (map (\<lambda>c. if c = 223 then [115, 115] else if c = 181 then [956]
     else [lower_char c]) s)"

section \<open>Stripping\<close>

definition lstrip :: "str \<Rightarrow> str" where
  "lstrip s = dropWhile is_space s"

definition rstrip :: "str \<Rightarrow> str" where
  "rstrip s = rev (dropWhile is_space (rev s))"

definition strip :: "str \<Rightarrow> str" where
  "strip s = rstrip (lstrip s)"

text \<open>\<open>not s.strip()\<close>.\<close>

definition blank :: "str \<Rightarrow> bool" where
  "blank s \<longleftrightarrow> strip s = []"

lemma rstrip_Nil_iff: "rstrip s = [] \<longleftrightarrow> list_all is_space s"
  by (auto simp: rstrip_def list_all_iff)

lemma lstrip_Nil_iff: "lstrip s = [] \<longleftrightarrow> list_all is_space s"
  by (auto simp: lstrip_def list_all_iff)

lemma blank_iff: "blank s \<longleftrightarrow> list_all is_space s"
proof
  assume "blank s"
  then have h: "list_all is_space (lstrip s)"
    by (simp add: blank_def strip_def rstrip_Nil_iff)
  show "list_all is_space s"
  proof (cases "lstrip s")
    case Nil
    then show ?thesis by (simp add: lstrip_Nil_iff)
  next
    case (Cons c cs)
    then have "\<not> is_space c" by (simp add: lstrip_def dropWhile_eq_Cons_conv)
    with h Cons show ?thesis by simp
  qed
next
  assume "list_all is_space s"
  then show "blank s"
    by (simp add: blank_def strip_def rstrip_Nil_iff lstrip_Nil_iff [THEN iffD2])
qed

lemma rstrip_prefix: "\<exists>t. s = rstrip s @ t \<and> list_all is_space t"
proof -
  have "s = rev (dropWhile is_space (rev s)) @ rev (takeWhile is_space (rev s))"
    by (metis rev_append rev_rev_ident takeWhile_dropWhile_id)
  moreover have "list_all is_space (rev (takeWhile is_space (rev s)))"
    by (auto simp: list_all_iff dest: set_takeWhileD)
  ultimately show ?thesis unfolding rstrip_def by blast
qed

lemma lstrip_suffix: "\<exists>t. s = t @ lstrip s \<and> list_all is_space t"
proof -
  have "list_all is_space (takeWhile is_space s)"
    by (auto simp: list_all_iff dest: set_takeWhileD)
  then show ?thesis unfolding lstrip_def by (metis takeWhile_dropWhile_id)
qed

lemma length_rstrip: "length (rstrip s) \<le> length s"
  by (simp add: rstrip_def length_dropWhile_le [THEN order_trans])

lemma length_strip: "length (strip s) \<le> length s"
  using length_rstrip [of "lstrip s"] length_dropWhile_le [of is_space s]
  by (simp add: strip_def lstrip_def)

lemma rstrip_last: "rstrip s \<noteq> [] \<Longrightarrow> \<not> is_space (last (rstrip s))"
  by (simp add: rstrip_def last_rev hd_dropWhile)

lemma rstrip_id: "s \<noteq> [] \<Longrightarrow> \<not> is_space (last s) \<Longrightarrow> rstrip s = s"
  by (cases s rule: rev_cases) (auto simp: rstrip_def)

lemma strip_strip [simp]: "strip (strip s) = strip s"
proof (cases "strip s = []")
  case True
  have "strip [] = []" by (simp add: strip_def lstrip_def rstrip_def)
  with True show ?thesis by simp
next
  case False
  then have ne: "rstrip (lstrip s) \<noteq> []" by (simp add: strip_def)
  obtain t where t: "lstrip s = rstrip (lstrip s) @ t" using rstrip_prefix by blast
  from ne obtain c cs where c: "rstrip (lstrip s) = c # cs" by (cases "rstrip (lstrip s)") auto
  with t have "lstrip s = c # cs @ t" by simp
  then have "\<not> is_space c" by (simp add: lstrip_def dropWhile_eq_Cons_conv)
  with c have "lstrip (rstrip (lstrip s)) = rstrip (lstrip s)" by (simp add: lstrip_def)
  moreover have "rstrip (rstrip (lstrip s)) = rstrip (lstrip s)"
    using ne by (intro rstrip_id rstrip_last)
  ultimately show ?thesis by (simp add: strip_def)
qed

section \<open>Splitting, joining and searching\<close>

text \<open>\<open>s.split()\<close>: the maximal runs of non-space characters.\<close>

fun runs :: "(int \<Rightarrow> bool) \<Rightarrow> str \<Rightarrow> str \<Rightarrow> str list" where
  "runs P acc [] = (if acc = [] then [] else [rev acc])"
| "runs P acc (c # cs) =
    (if P c then runs P (c # acc) cs
     else if acc = [] then runs P [] cs
     else rev acc # runs P [] cs)"

definition py_split :: "str \<Rightarrow> str list" where
  "py_split s = runs (\<lambda>c. \<not> is_space c) [] s"

text \<open>\<open>re.finditer(r"\w+", s)\<close>.\<close>

definition find_words :: "str \<Rightarrow> str list" where
  "find_words s = runs is_word [] s"

lemma runs_nonempty: "w \<in> set (runs P acc s) \<Longrightarrow> w \<noteq> []"
  by (induction P acc s rule: runs.induct) (auto split: if_splits)

fun join :: "str \<Rightarrow> str list \<Rightarrow> str" where
  "join sep [] = []"
| "join sep [x] = x"
| "join sep (x # y # ys) = x @ sep @ join sep (y # ys)"

text \<open>\<open>s.splitlines()\<close>: a carriage return and the newline after it are one break.\<close>

fun splitlines_from :: "str \<Rightarrow> str \<Rightarrow> str list" where
  "splitlines_from acc [] = (if acc = [] then [] else [rev acc])"
| "splitlines_from acc (c # cs) =
    (if c = 13 \<and> (case cs of [] \<Rightarrow> False | d # _ \<Rightarrow> d = 10) then
       rev acc # splitlines_from [] (tl cs)
     else if is_linebreak c then rev acc # splitlines_from [] cs
     else splitlines_from (c # acc) cs)"

definition splitlines :: "str \<Rightarrow> str list" where
  "splitlines s = splitlines_from [] s"

text \<open>\<open>s.startswith(p)\<close> and \<open>n in s\<close>.\<close>

definition starts_with :: "str \<Rightarrow> str \<Rightarrow> bool" where
  "starts_with p s \<longleftrightarrow> take (length p) s = p"

fun contains :: "str \<Rightarrow> str \<Rightarrow> bool" where
  "contains n [] = (n = [])"
| "contains n (c # cs) = (starts_with n (c # cs) \<or> contains n cs)"

text \<open>
  \<open>s.rfind(n, lo, hi)\<close> for \<open>0 <= lo\<close> and \<open>hi <= len(s)\<close>: the last position \<open>i\<close> with
  \<open>lo <= i\<close>, \<open>i + len(n) <= hi\<close> and \<open>s[i:i+len(n)] == n\<close>, or \<open>-1\<close>.
\<close>

definition rfind :: "str \<Rightarrow> str \<Rightarrow> nat \<Rightarrow> nat \<Rightarrow> int" where
  "rfind n s lo hi =
    (case filter (\<lambda>i. i + length n \<le> hi \<and> starts_with n (drop i s)) (rev [lo..<Suc hi]) of
       [] \<Rightarrow> -1
     | i # _ \<Rightarrow> int i)"

lemma rfind_cases:
  "rfind n s lo hi = -1 \<or>
    (\<exists>i. rfind n s lo hi = int i \<and> lo \<le> i \<and> i + length n \<le> hi \<and> starts_with n (drop i s))"
proof -
  let ?fs = "filter (\<lambda>i. i + length n \<le> hi \<and> starts_with n (drop i s)) (rev [lo..<Suc hi])"
  show ?thesis
  proof (cases ?fs)
    case Nil
    then show ?thesis by (simp add: rfind_def del: upt_Suc)
  next
    case (Cons i js)
    then have "i \<in> set ?fs" by (metis list.set_intros(1))
    moreover from Cons have "rfind n s lo hi = int i" by (simp add: rfind_def del: upt_Suc)
    ultimately show ?thesis by (auto simp del: upt_Suc)
  qed
qed

section \<open>Numbers and UUIDs as text\<close>

text \<open>\<open>str(n)\<close> for an integer.\<close>

fun nat_digits :: "nat \<Rightarrow> str" where
  "nat_digits n = (if n < 10 then [48 + int n] else nat_digits (n div 10) @ [48 + int (n mod 10)])"

declare nat_digits.simps [simp del]

definition int_str :: "int \<Rightarrow> str" where
  "int_str i = (if i < 0 then 45 # nat_digits (nat (- i)) else nat_digits (nat i))"

text \<open>\<open>str(uuid)\<close>: thirty-two lower-case hexadecimal digits in groups of 8, 4, 4, 4 and 12.\<close>

definition hex_digit :: "int \<Rightarrow> int" where
  "hex_digit d = (if d < 10 then 48 + d else 87 + d)"

fun hex_digits :: "nat \<Rightarrow> int \<Rightarrow> str" where
  "hex_digits 0 x = []"
| "hex_digits (Suc n) x = hex_digit (x div 16 ^ n) # hex_digits n (x mod 16 ^ n)"

fun dash :: "nat list \<Rightarrow> str \<Rightarrow> str" where
  "dash [] s = s"
| "dash (n # ns) s = take n s @ [45] @ dash ns (drop n s)"

definition uuid_str :: "uuid \<Rightarrow> str" where
  "uuid_str u = dash [8, 4, 4, 4] (hex_digits 32 (uint u))"

lemma length_hex_digits [simp]: "length (hex_digits n x) = n"
  by (induction n arbitrary: x) auto

lemma length_dash: "length (dash ns s) = length s + length ns"
  if "sum_list ns \<le> length s"
  using that by (induction ns arbitrary: s) auto

lemma length_uuid_str [simp]: "length (uuid_str u) = 36"
  by (simp add: uuid_str_def length_dash)

lemma hex_digit_mono:
  assumes "0 \<le> a" "a < 16" "0 \<le> b" "b < 16"
  shows "hex_digit a < hex_digit b \<longleftrightarrow> a < b" and "hex_digit a = hex_digit b \<longleftrightarrow> a = b"
  using assms by (auto simp: hex_digit_def)

text \<open>The digits of equal width compare as the numbers do.\<close>

lemma hex_digits_less:
  assumes "0 \<le> x" "x < 16 ^ n" "0 \<le> y" "y < 16 ^ n"
  shows "hex_digits n x < hex_digits n y \<longleftrightarrow> x < y"
  using assms
proof (induction n arbitrary: x y)
  case (Suc n)
  let ?b = "16 ^ n :: int"
  have b: "0 < ?b" by simp
  have m: "0 \<le> z mod ?b \<and> z mod ?b < ?b" for z by simp
  have d: "0 \<le> z div ?b \<and> z div ?b < 16" if "0 \<le> z" "z < 16 ^ Suc n" for z
  proof
    show "0 \<le> z div ?b" using that b by (simp add: pos_imp_zdiv_nonneg_iff)
    have z: "z = ?b * (z div ?b) + z mod ?b" by simp
    show "z div ?b < 16"
    proof (rule ccontr)
      assume "\<not> z div ?b < 16"
      then have "?b * 16 \<le> ?b * (z div ?b)" by (intro mult_left_mono) simp_all
      moreover have "z < ?b * 16" using that by simp
      moreover have "?b * (z div ?b) \<le> z" using z m [of z] by linarith
      ultimately show False by linarith
    qed
  qed
  have "x < y \<longleftrightarrow> x div ?b < y div ?b \<or> x div ?b = y div ?b \<and> x mod ?b < y mod ?b"
  proof -
    have x: "x = ?b * (x div ?b) + x mod ?b" and y: "y = ?b * (y div ?b) + y mod ?b" by simp_all
    show ?thesis
    proof (cases "x div ?b" "y div ?b" rule: linorder_cases)
      case less
      then have "?b * (x div ?b) + ?b \<le> ?b * (y div ?b)"
        using b mult_left_mono [of "x div ?b + 1" "y div ?b" ?b] by (simp add: algebra_simps)
      then have "x < y" using x y m [of x] m [of y] by linarith
      with less show ?thesis by simp
    next
      case equal
      then have "x < y \<longleftrightarrow> x mod ?b < y mod ?b"
        using x y by (metis add_less_cancel_left)
      with equal show ?thesis by simp
    next
      case greater
      then have "?b * (y div ?b) + ?b \<le> ?b * (x div ?b)"
        using b mult_left_mono [of "y div ?b + 1" "x div ?b" ?b] by (simp add: algebra_simps)
      then have "\<not> x < y" using x y m [of x] m [of y] by linarith
      with greater show ?thesis by simp
    qed
  qed
  then show ?case
    using Suc.IH [of "x mod ?b" "y mod ?b"] m d [of x] d [of y] Suc.prems
    by (auto simp: hex_digit_mono)
qed auto

lemma append_less_append:
  fixes a b c d :: "'a::order list"
  assumes "length a = length b"
  shows "a @ c < b @ d \<longleftrightarrow> a < b \<or> a = b \<and> c < d"
  using assms by (induction a b rule: list_induct2) auto

lemma dash_less:
  assumes "length s = length t" and "sum_list ns \<le> length s"
  shows "dash ns s < dash ns t \<longleftrightarrow> s < t"
  using assms
proof (induction ns arbitrary: s t)
  case (Cons n ns)
  have "dash ns (drop n s) < dash ns (drop n t) \<longleftrightarrow> drop n s < drop n t"
    using Cons.prems by (intro Cons.IH) auto
  moreover have "s < t \<longleftrightarrow> take n s < take n t \<or> take n s = take n t \<and> drop n s < drop n t"
    using append_less_append [of "take n s" "take n t" "drop n s" "drop n t"] Cons.prems by simp
  ultimately show ?case
    using append_less_append [of "take n s" "take n t"] Cons.prems by simp
qed simp

lemma uuid_str_less: "uuid_str u < uuid_str v \<longleftrightarrow> u < v"
proof -
  have "uint w < 16 ^ 32" for w :: uuid
    using uint_lt2p [of w] by simp
  then show ?thesis
    by (simp add: uuid_str_def dash_less hex_digits_less word_less_def
      del: hex_digits.simps dash.simps)
qed

lemma uuid_str_inject: "uuid_str u = uuid_str v \<longleftrightarrow> u = v"
  using uuid_str_less [of u v] uuid_str_less [of v u] by (metis less_irrefl linorder_less_linear)

section \<open>Occurrences\<close>

lemma starts_with_iff: "starts_with n s \<longleftrightarrow> (\<exists>b. s = n @ b)"
proof
  assume "starts_with n s"
  then show "\<exists>b. s = n @ b" unfolding starts_with_def by (metis append_take_drop_id)
qed (auto simp: starts_with_def)

lemma contains_iff: "contains n s \<longleftrightarrow> (\<exists>a b. s = a @ n @ b)"
proof (induction s)
  case (Cons c cs)
  have "(\<exists>a b. c # cs = a @ n @ b) \<longleftrightarrow> (\<exists>b. c # cs = n @ b) \<or> (\<exists>a b. cs = a @ n @ b)"
  proof
    assume "\<exists>a b. c # cs = a @ n @ b"
    then obtain a b where "c # cs = a @ n @ b" by blast
    then show "(\<exists>b. c # cs = n @ b) \<or> (\<exists>a b. cs = a @ n @ b)" by (cases a) auto
  next
    assume "(\<exists>b. c # cs = n @ b) \<or> (\<exists>a b. cs = a @ n @ b)"
    then show "\<exists>a b. c # cs = a @ n @ b" by (metis append_Cons append_Nil)
  qed
  then show ?case by (simp only: contains.simps Cons.IH starts_with_iff)
qed simp

lemma contains_strip: "contains s t \<Longrightarrow> contains (strip s) t"
proof -
  obtain a where "s = a @ lstrip s" using lstrip_suffix by blast
  moreover obtain b where "lstrip s = strip s @ b" using rstrip_prefix [of "lstrip s"] by (auto simp: strip_def)
  ultimately have s: "s = a @ strip s @ b" by simp
  assume "contains s t"
  then obtain x y where "t = x @ s @ y" by (auto simp: contains_iff)
  then have "t = (x @ a) @ strip s @ (b @ y)" using s by (metis append.assoc)
  then show ?thesis unfolding contains_iff by blast
qed

end
