(* ===== verification/Domain.thy ===== *)
theory Domain
  imports Text
begin

text \<open>
  The domain objects of \<open>src/memory_plane/domain\<close>: one record per frozen dataclass, one datatype per
  enumeration, and for each \<open>__post_init__\<close> a function from the proposed field values to the
  stored object or the \<open>ValueError\<close> the constructor raises. Datetimes are aware instants in
  microseconds, so a naive timestamp has no representation here.
\<close>

section \<open>Metadata values\<close>

text \<open>The JSON-like values of \<open>dict[str, Any]\<close> metadata, payloads and checkpoint states.\<close>

datatype pyval =
    PNone
  | PBool bool
  | PInt int
  | PFloat real
  | PStr str
  | PList "pyval list"
  | PDict "(str \<times> pyval) list"

type_synonym metadata = "(str, pyval) dict"

definition unit_interval :: "real \<Rightarrow> bool" where
  "unit_interval x \<longleftrightarrow> 0 \<le> x \<and> x \<le> 1"

section \<open>Enumerations\<close>

datatype memory_layer = Working | Core | Episodic | Semantic | Procedural | Social | Reflection | Error

fun layer_value :: "memory_layer \<Rightarrow> str" where
  "layer_value Working = lit ''working''"
| "layer_value Core = lit ''core''"
| "layer_value Episodic = lit ''episodic''"
| "layer_value Semantic = lit ''semantic''"
| "layer_value Procedural = lit ''procedural''"
| "layer_value Social = lit ''social''"
| "layer_value Reflection = lit ''reflection''"
| "layer_value Error = lit ''error''"

datatype memory_scope = Private | Thread | Team | Workspace | Organization

datatype memory_status =
  Active | Stale | Deprecated | Disputed | Hypothesis | Rejected | Archived | Pinned

fun status_value :: "memory_status \<Rightarrow> str" where
  "status_value Active = lit ''active''"
| "status_value Stale = lit ''stale''"
| "status_value Deprecated = lit ''deprecated''"
| "status_value Disputed = lit ''disputed''"
| "status_value Hypothesis = lit ''hypothesis''"
| "status_value Rejected = lit ''rejected''"
| "status_value Archived = lit ''archived''"
| "status_value Pinned = lit ''pinned''"

section \<open>Memory items\<close>

record provenance =
  pv_source_kind :: str
  pv_origin_uri :: "str option"
  pv_object_key :: "str option"
  pv_checksum_sha256 :: "str option"
  pv_quote :: "str option"
  pv_extraction_version :: str

record memory_item =
  mi_id :: uuid
  mi_tenant_id :: uuid
  mi_workspace_id :: uuid
  mi_layer :: memory_layer
  mi_scope :: memory_scope
  mi_kind :: str
  mi_text :: str
  mi_provenance :: provenance
  mi_agent_id :: "uuid option"
  mi_thread_id :: "uuid option"
  mi_labels :: "str list"
  mi_metadata :: metadata
  mi_status :: memory_status
  mi_importance :: real
  mi_salience :: real
  mi_confidence :: real
  mi_observed_at :: datetime
  mi_valid_from :: "datetime option"
  mi_valid_to :: "datetime option"
  mi_created_at :: datetime
  mi_revision :: int
  mi_supersedes_id :: "uuid option"

text \<open>
  \<open>valid_to\<close> must be after \<open>valid_from\<close> when both are given. An aware \<open>datetime\<close> is always
  truthy, so \<open>self.valid_from and self.valid_to\<close> tests presence.
\<close>

definition window_ok :: "datetime option \<Rightarrow> datetime option \<Rightarrow> bool" where
  "window_ok a b = (case (a, b) of (Some f, Some t) \<Rightarrow> f < t | _ \<Rightarrow> True)"

definition memory_item_post_init :: "memory_item \<Rightarrow> memory_item res" where
  "memory_item_post_init m =
    (if blank (mi_text m) then Inl (ValueError (lit ''memory text must not be empty''))
     else if \<not> unit_interval (mi_importance m) then
       Inl (ValueError (lit ''importance must be between 0 and 1''))
     else if \<not> unit_interval (mi_salience m) then
       Inl (ValueError (lit ''salience must be between 0 and 1''))
     else if \<not> unit_interval (mi_confidence m) then
       Inl (ValueError (lit ''confidence must be between 0 and 1''))
     else if \<not> window_ok (mi_valid_from m) (mi_valid_to m) then
       Inl (ValueError (lit ''valid_to must be after valid_from''))
     else if mi_scope m = Thread \<and> mi_thread_id m = None then
       Inl (ValueError (lit ''thread-scoped memory requires thread_id''))
     else if mi_scope m = Private \<and> mi_agent_id m = None then
       Inl (ValueError (lit ''private memory requires agent_id''))
     else if mi_status m = Pinned \<and> mi_layer m \<noteq> Core then
       Inl (ValueError (lit ''pinned memory must live in the core layer''))
     else Inr m)"

text \<open>The invariant of a constructed item.\<close>

definition valid_item :: "memory_item \<Rightarrow> bool" where
  "valid_item m \<longleftrightarrow> \<not> blank (mi_text m) \<and> unit_interval (mi_importance m)
     \<and> unit_interval (mi_salience m) \<and> unit_interval (mi_confidence m)
     \<and> window_ok (mi_valid_from m) (mi_valid_to m)
     \<and> (mi_scope m = Thread \<longrightarrow> mi_thread_id m \<noteq> None)
     \<and> (mi_scope m = Private \<longrightarrow> mi_agent_id m \<noteq> None)
     \<and> (mi_status m = Pinned \<longrightarrow> mi_layer m = Core)"

lemma memory_item_post_init_Inr: "memory_item_post_init m = Inr m' \<longleftrightarrow> m' = m \<and> valid_item m"
  by (auto simp: memory_item_post_init_def valid_item_def split: if_splits)

lemma memory_item_post_init_ok: "valid_item m \<Longrightarrow> memory_item_post_init m = Inr m"
  by (simp add: memory_item_post_init_Inr)

definition is_valid_at :: "memory_item \<Rightarrow> datetime \<Rightarrow> bool" where
  "is_valid_at m moment \<longleftrightarrow>
    \<not> ((case mi_valid_from m of None \<Rightarrow> False | Some f \<Rightarrow> moment < f)
       \<or> (case mi_valid_to m of None \<Rightarrow> False | Some t \<Rightarrow> t \<le> moment))"

text \<open>
  \<open>MemoryItem.supersede\<close>: a new revision with a fresh identity; \<open>replace\<close> runs the constructor's
  checks again. The generated identity and the clock reading are arguments.
\<close>

definition supersede_item ::
  "uuid \<Rightarrow> datetime \<Rightarrow> memory_item \<Rightarrow> str \<Rightarrow> real option \<Rightarrow> memory_status option \<Rightarrow> memory_item res"
where
  "supersede_item new_id now m replacement_text confidence status =
    memory_item_post_init
      (m\<lparr>mi_id := new_id,
         mi_text := replacement_text,
         mi_confidence := (case confidence of None \<Rightarrow> mi_confidence m | Some c \<Rightarrow> c),
         mi_status := (case status of None \<Rightarrow> mi_status m | Some s \<Rightarrow> s),
         mi_created_at := now,
         mi_revision := mi_revision m + 1,
         mi_supersedes_id := Some (mi_id m)\<rparr>)"

lemma supersede_item_lineage:
  assumes "supersede_item new_id now m txt c s = Inr m'"
  shows "mi_id m' = new_id" and "mi_tenant_id m' = mi_tenant_id m"
    and "mi_workspace_id m' = mi_workspace_id m" and "mi_revision m' = mi_revision m + 1"
    and "mi_supersedes_id m' = Some (mi_id m)" and "mi_text m' = txt" and "valid_item m'"
    and "mi_layer m' = mi_layer m" and "mi_scope m' = mi_scope m"
    and "mi_agent_id m' = mi_agent_id m" and "mi_thread_id m' = mi_thread_id m"
  using assms by (auto simp: supersede_item_def memory_item_post_init_Inr)

section \<open>Observations and context packages\<close>

record observation =
  ob_id :: uuid
  ob_tenant_id :: uuid
  ob_workspace_id :: uuid
  ob_summary :: str
  ob_evidence_ids :: "uuid list"
  ob_confidence :: real
  ob_stale :: bool
  ob_created_at :: datetime

definition observation_post_init :: "observation \<Rightarrow> observation res" where
  "observation_post_init b =
    (if blank (ob_summary b) then Inl (ValueError (lit ''observation summary must not be empty''))
     else if ob_evidence_ids b = [] then
       Inl (ValueError (lit ''observation requires at least one evidence item''))
     else Inr b)"

record context_section =
  cs_name :: str
  cs_items :: "memory_item list"
  cs_estimated_tokens :: int

record context_package =
  cx_operation :: str
  cx_sections :: "context_section list"
  cx_budget_tokens :: int
  cx_used_tokens :: int
  cx_trace_ids :: "uuid list"

definition render_markdown :: "context_package \<Rightarrow> str" where
  "render_markdown p =
    join [10] (concat (map (\<lambda>sec. (lit ''## '' @ cs_name sec)
      # map (\<lambda>item. lit ''- '' @ mi_text item) (cs_items sec)) (cx_sections p)))"

section \<open>Graph edges and identities\<close>

datatype memory_edge_type =
  Supports | Contradicts | DerivedFrom | SameEntity | CausedBy | OwnedByAgent | FromThread | Supersedes

record memory_edge =
  me_id :: uuid
  me_tenant_id :: uuid
  me_workspace_id :: uuid
  me_src_id :: uuid
  me_dst_id :: uuid
  me_edge_type :: memory_edge_type
  me_weight :: real
  me_valid_from :: "datetime option"
  me_valid_to :: "datetime option"
  me_provenance_item_id :: "uuid option"
  me_created_at :: datetime

definition memory_edge_post_init :: "memory_edge \<Rightarrow> memory_edge res" where
  "memory_edge_post_init e =
    (if me_src_id e = me_dst_id e then Inl (ValueError (lit ''memory edge cannot point to itself''))
     else if \<not> unit_interval (me_weight e) then
       Inl (ValueError (lit ''edge weight must be between 0 and 1''))
     else if \<not> window_ok (me_valid_from e) (me_valid_to e) then
       Inl (ValueError (lit ''valid_to must be after valid_from''))
     else Inr e)"

record workspace_identity =
  wi_id :: uuid
  wi_tenant_id :: uuid
  wi_name :: str

record agent_identity =
  ai_id :: uuid
  ai_tenant_id :: uuid
  ai_workspace_id :: uuid
  ai_name :: str
  ai_role :: str
  ai_config :: metadata

record thread_identity =
  ti_id :: uuid
  ti_tenant_id :: uuid
  ti_workspace_id :: uuid
  ti_owner_agent_id :: "uuid option"
  ti_status :: str

section \<open>Audit events and API keys\<close>

record audit_event =
  ae_id :: uuid
  ae_tenant_id :: uuid
  ae_workspace_id :: "uuid option"
  ae_action :: str
  ae_actor :: str
  ae_actor_type :: str
  ae_resource_type :: str
  ae_resource_id :: "str option"
  ae_status :: str
  ae_metadata :: metadata
  ae_created_at :: datetime

definition audit_event_post_init :: "audit_event \<Rightarrow> audit_event res" where
  "audit_event_post_init a =
    (if blank (ae_action a) then Inl (ValueError (lit ''audit action must not be empty''))
     else if blank (ae_actor a) then Inl (ValueError (lit ''audit actor must not be empty''))
     else if blank (ae_actor_type a) then
       Inl (ValueError (lit ''audit actor_type must not be empty''))
     else if blank (ae_resource_type a) then
       Inl (ValueError (lit ''audit resource_type must not be empty''))
     else if ae_status a \<notin> {lit ''succeeded'', lit ''failed'', lit ''denied''} then
       Inl (ValueError (lit ''audit status must be succeeded, failed or denied''))
     else Inr a)"

lemma audit_event_post_init_Inr: "audit_event_post_init a = Inr b \<Longrightarrow> b = a"
  by (auto simp: audit_event_post_init_def split: if_splits)

record api_key_record =
  ak_id :: uuid
  ak_tenant_id :: uuid
  ak_name :: str
  ak_secret_fingerprint :: str
  ak_scopes :: "str list"
  ak_created_at :: datetime
  ak_last_used_at :: "datetime option"
  ak_revoked_at :: "datetime option"
  ak_revoked_reason :: str

text \<open>\<open>tuple(scope.strip().lower() for scope in self.scopes if scope.strip())\<close>.\<close>

definition normalize_scopes :: "str list \<Rightarrow> str list" where
  "normalize_scopes scopes = map (\<lambda>s. py_lower (strip s)) (filter (\<lambda>s. \<not> blank s) scopes)"

definition api_key_post_init :: "api_key_record \<Rightarrow> api_key_record res" where
  "api_key_post_init k =
    (if blank (ak_name k) then Inl (ValueError (lit ''api key name must not be empty''))
     else if blank (ak_secret_fingerprint k) then
       Inl (ValueError (lit ''api key fingerprint must not be empty''))
     else if ak_scopes k = [] then Inl (ValueError (lit ''api key scopes must not be empty''))
     else let normalized = normalize_scopes (ak_scopes k) in
       if normalized = [] then Inl (ValueError (lit ''api key scopes must not be empty''))
       else Inr (k\<lparr>ak_scopes := normalized\<rparr>))"

definition ak_revoked :: "api_key_record \<Rightarrow> bool" where
  "ak_revoked k \<longleftrightarrow> ak_revoked_at k \<noteq> None"

end
