(* ===== verification/Contracts.thy ===== *)
theory Contracts
  imports Domain
begin

text \<open>
  The remaining domain objects (conversation turns, proposals, checkpoints, conflict cases, worker
  liveness) and the transport-neutral contracts of \<open>src/memory_plane/contracts\<close>.
\<close>

section \<open>Conversation turns\<close>

definition purged_conversation_content :: str where
  "purged_conversation_content = lit ''[PURGED_AFTER_CURATION]''"

datatype conversation_retention_policy = RawOnly | CuratedOnly | RawAndCurated

record conversation_message =
  cm_role :: str
  cm_content :: str
  cm_name :: "str option"
  cm_metadata :: metadata

definition conversation_message_post_init :: "conversation_message \<Rightarrow> conversation_message res" where
  "conversation_message_post_init m =
    (if blank (cm_role m) then
       Inl (ValueError (lit ''conversation message role must not be empty''))
     else if blank (cm_content m) then
       Inl (ValueError (lit ''conversation message content must not be empty''))
     else Inr m)"

record conversation_turn =
  ct_id :: uuid
  ct_tenant_id :: uuid
  ct_workspace_id :: uuid
  ct_thread_id :: uuid
  ct_messages :: "conversation_message list"
  ct_namespace :: str
  ct_agent_id :: "uuid option"
  ct_source_kind :: str
  ct_retention_policy :: conversation_retention_policy
  ct_metadata :: metadata
  ct_created_at :: datetime
  ct_expires_at :: "datetime option"

definition conversation_turn_post_init :: "conversation_turn \<Rightarrow> conversation_turn res" where
  "conversation_turn_post_init t =
    (if blank (ct_namespace t) then
       Inl (ValueError (lit ''conversation namespace must not be empty''))
     else if blank (ct_source_kind t) then
       Inl (ValueError (lit ''conversation source_kind must not be empty''))
     else if ct_messages t = [] then
       Inl (ValueError (lit ''conversation turn requires at least one message''))
     else if (case ct_expires_at t of None \<Rightarrow> False | Some e \<Rightarrow> e \<le> ct_created_at t) then
       Inl (ValueError (lit ''conversation turn expiry must be after creation''))
     else Inr t)"

definition valid_message :: "conversation_message \<Rightarrow> bool" where
  "valid_message m \<longleftrightarrow> \<not> blank (cm_role m) \<and> \<not> blank (cm_content m)"

definition valid_turn :: "conversation_turn \<Rightarrow> bool" where
  "valid_turn t \<longleftrightarrow> \<not> blank (ct_namespace t) \<and> \<not> blank (ct_source_kind t) \<and> ct_messages t \<noteq> []
     \<and> (\<forall>e. ct_expires_at t = Some e \<longrightarrow> ct_created_at t < e)
     \<and> list_all valid_message (ct_messages t)"

lemma conversation_message_post_init_Inr:
  "conversation_message_post_init m = Inr m' \<longleftrightarrow> m' = m \<and> valid_message m"
  by (auto simp: conversation_message_post_init_def valid_message_def split: if_splits)

lemma conversation_turn_post_init_Inr:
  "conversation_turn_post_init t = Inr t' \<longleftrightarrow> t' = t \<and> \<not> blank (ct_namespace t)
     \<and> \<not> blank (ct_source_kind t) \<and> ct_messages t \<noteq> []
     \<and> (\<forall>e. ct_expires_at t = Some e \<longrightarrow> ct_created_at t < e)"
  by (auto simp: conversation_turn_post_init_def split: if_splits option.splits)

section \<open>Proposals\<close>

datatype memory_proposal_target =
  TAuto | TFact | TPreference | TDecision | TTask | TGraph | TProcedure

fun target_value :: "memory_proposal_target \<Rightarrow> str" where
  "target_value TAuto = lit ''auto''"
| "target_value TFact = lit ''fact''"
| "target_value TPreference = lit ''preference''"
| "target_value TDecision = lit ''decision''"
| "target_value TTask = lit ''task''"
| "target_value TGraph = lit ''graph''"
| "target_value TProcedure = lit ''procedure''"

datatype memory_proposal_status = POpen | PNeedsReview | PAccepted | PRejected

record memory_proposal =
  mp_id :: uuid
  mp_tenant_id :: uuid
  mp_workspace_id :: uuid
  mp_namespace :: str
  mp_requester :: str
  mp_target :: memory_proposal_target
  mp_proposal :: str
  mp_evidence :: str
  mp_agent_id :: "uuid option"
  mp_thread_id :: "uuid option"
  mp_confidence :: real
  mp_importance :: real
  mp_status :: memory_proposal_status
  mp_metadata :: metadata
  mp_created_at :: datetime
  mp_reviewed_at :: "datetime option"
  mp_reviewer :: "str option"
  mp_review_reason :: str

definition memory_proposal_post_init :: "memory_proposal \<Rightarrow> memory_proposal res" where
  "memory_proposal_post_init p =
    (if blank (mp_namespace p) then Inl (ValueError (lit ''proposal namespace must not be empty''))
     else if blank (mp_requester p) then
       Inl (ValueError (lit ''proposal requester must not be empty''))
     else if blank (mp_proposal p) then Inl (ValueError (lit ''proposal text must not be empty''))
     else if \<not> unit_interval (mp_confidence p) then
       Inl (ValueError (lit ''confidence must be between 0 and 1''))
     else if \<not> unit_interval (mp_importance p) then
       Inl (ValueError (lit ''importance must be between 0 and 1''))
     else Inr p)"

definition valid_proposal :: "memory_proposal \<Rightarrow> bool" where
  "valid_proposal p \<longleftrightarrow> \<not> blank (mp_namespace p) \<and> \<not> blank (mp_requester p)
     \<and> \<not> blank (mp_proposal p) \<and> unit_interval (mp_confidence p) \<and> unit_interval (mp_importance p)"

lemma memory_proposal_post_init_Inr:
  "memory_proposal_post_init p = Inr p' \<longleftrightarrow> p' = p \<and> valid_proposal p"
  by (auto simp: memory_proposal_post_init_def valid_proposal_def split: if_splits)

section \<open>Checkpoints\<close>

record checkpoint =
  cp_id :: uuid
  cp_tenant_id :: uuid
  cp_workspace_id :: uuid
  cp_thread_id :: uuid
  cp_revision :: int
  cp_state :: metadata
  cp_created_at :: datetime

definition checkpoint_post_init :: "checkpoint \<Rightarrow> checkpoint res" where
  "checkpoint_post_init c =
    (if cp_revision c < 1 then Inl (ValueError (lit ''checkpoint revision must be positive''))
     else Inr c)"

section \<open>Conflict cases\<close>

datatype conflict_review_status = Unresolved | Accepted | Overridden | Dismissed

record conflict_candidate =
  cc_value :: str
  cc_status :: str
  cc_evidence_ids :: "uuid list"
  cc_confidence :: real
  cc_latest_created_at :: datetime

record conflict_review_decision =
  cd_tenant_id :: uuid
  cd_workspace_id :: uuid
  cd_case_id :: uuid
  cd_status :: conflict_review_status
  cd_winner_value :: "str option"
  cd_reason :: str
  cd_applied_memory_id :: "uuid option"
  cd_updated_at :: datetime

record conflict_case =
  cf_id :: uuid
  cf_tenant_id :: uuid
  cf_workspace_id :: uuid
  cf_subject :: str
  cf_predicate :: str
  cf_candidates :: "conflict_candidate list"
  cf_suggested_winner_value :: str
  cf_suggested_reason :: str
  cf_review :: "conflict_review_decision option"

definition review_status :: "conflict_case \<Rightarrow> conflict_review_status" where
  "review_status c = (case cf_review c of None \<Rightarrow> Unresolved | Some d \<Rightarrow> cd_status d)"

section \<open>Worker liveness\<close>

record worker_heartbeat =
  wh_tenant_id :: uuid
  wh_worker_kind :: str
  wh_worker_id :: str
  wh_started_at :: datetime
  wh_last_seen_at :: datetime
  wh_status :: str

definition worker_heartbeat_post_init :: "worker_heartbeat \<Rightarrow> worker_heartbeat res" where
  "worker_heartbeat_post_init h =
    (let kind = py_lower (strip (wh_worker_kind h)); worker_id = strip (wh_worker_id h) in
     if kind = [] \<or> 64 < length kind then
       Inl (ValueError (lit ''worker_kind must contain between 1 and 64 characters''))
     else if worker_id = [] \<or> 128 < length worker_id then
       Inl (ValueError (lit ''worker_id must contain between 1 and 128 characters''))
     else if wh_status h \<notin> {lit ''running'', lit ''stopping''} then
       Inl (ValueError (lit ''worker heartbeat status must be running or stopping''))
     else Inr (h\<lparr>wh_worker_kind := kind, wh_worker_id := worker_id\<rparr>))"

record worker_kind_readiness =
  wk_worker_kind :: str
  wk_fresh_instances :: nat
  wk_stale_instances :: nat

definition wk_ready :: "worker_kind_readiness \<Rightarrow> bool" where
  "wk_ready r \<longleftrightarrow> 0 < wk_fresh_instances r"

record worker_readiness =
  wr_required :: "worker_kind_readiness list"
  wr_observed_at :: datetime

definition wr_ready :: "worker_readiness \<Rightarrow> bool" where
  "wr_ready w \<longleftrightarrow> list_all wk_ready (wr_required w)"

definition missing_kinds :: "worker_readiness \<Rightarrow> str list" where
  "missing_kinds w = map wk_worker_kind
     (filter (\<lambda>r. wk_fresh_instances r = 0 \<and> wk_stale_instances r = 0) (wr_required w))"

definition stale_kinds :: "worker_readiness \<Rightarrow> str list" where
  "stale_kinds w = map wk_worker_kind
     (filter (\<lambda>r. wk_fresh_instances r = 0 \<and> 0 < wk_stale_instances r) (wr_required w))"

section \<open>Integration events\<close>

record integration_event =
  ie_id :: uuid
  ie_name :: str
  ie_tenant_id :: uuid
  ie_workspace_id :: uuid
  ie_payload :: metadata
  ie_occurred_at :: datetime
  ie_correlation_id :: "uuid option"

text \<open>\<open>name.rsplit(".", 1)[-1]\<close>: what follows the last dot, or the whole name.\<close>

definition after_last_dot :: "str \<Rightarrow> str" where
  "after_last_dot s = rev (takeWhile (\<lambda>c. c \<noteq> 46) (rev s))"

definition integration_event_post_init :: "integration_event \<Rightarrow> integration_event res" where
  "integration_event_post_init e =
    (if \<not> starts_with (lit ''v'') (after_last_dot (ie_name e)) then
       Inl (ValueError (lit ''event name must end in a version, e.g. memory.retained.v1''))
     else Inr e)"

record claimed_event =
  ce_event :: integration_event
  ce_attempts :: int

definition claimed_event_post_init :: "claimed_event \<Rightarrow> claimed_event res" where
  "claimed_event_post_init c =
    (if ce_attempts c < 1 then Inl (ValueError (lit ''claimed event attempts must be positive''))
     else Inr c)"

datatype consumer_claim = Acquired | Completed | Busy

section \<open>Commands, queries and results\<close>

record ingest_document_command =
  id_tenant_id :: uuid
  id_workspace_id :: uuid
  id_text :: str
  id_origin_uri :: str
  id_agent_id :: "uuid option"
  id_thread_id :: "uuid option"
  id_labels :: "str list"
  id_chunk_size_chars :: int
  id_chunk_overlap_chars :: int
  id_document_checksum :: "str option"
  id_source_kind :: str
  id_extraction_version :: str

definition ingest_document_post_init ::
  "ingest_document_command \<Rightarrow> ingest_document_command res" where
  "ingest_document_post_init c =
    (if blank (id_text c) then Inl (ValueError (lit ''document text must not be empty''))
     else if id_chunk_size_chars c < 256 then
       Inl (ValueError (lit ''chunk_size_chars must be at least 256''))
     else if \<not> (0 \<le> id_chunk_overlap_chars c \<and> id_chunk_overlap_chars c < id_chunk_size_chars c) then
       Inl (ValueError (lit ''chunk overlap must be >= 0 and smaller than chunk size''))
     else Inr c)"

record ingest_result =
  ir_document_checksum :: str
  ir_memory_ids :: "uuid list"
  ir_created_count :: nat

record retain_command =
  rc_tenant_id :: uuid
  rc_workspace_id :: uuid
  rc_layer :: memory_layer
  rc_scope :: memory_scope
  rc_kind :: str
  rc_text :: str
  rc_provenance :: provenance
  rc_agent_id :: "uuid option"
  rc_thread_id :: "uuid option"
  rc_labels :: "str list"
  rc_importance :: real
  rc_confidence :: real
  rc_metadata :: metadata
  rc_status :: memory_status
  rc_idempotency_key :: "str option"

record retain_result =
  rr_item :: memory_item
  rr_created :: bool
  rr_queued_event_ids :: "uuid list"

record supersede_memory_command =
  sm_tenant_id :: uuid
  sm_item_id :: uuid
  sm_replacement_text :: str
  sm_expected_revision :: int
  sm_confidence :: "real option"
  sm_status :: "memory_status option"
  sm_idempotency_key :: "str option"

definition supersede_command_post_init ::
  "supersede_memory_command \<Rightarrow> supersede_memory_command res" where
  "supersede_command_post_init c =
    (if blank (sm_replacement_text c) then
       Inl (ValueError (lit ''replacement text must not be empty''))
     else if sm_expected_revision c < 1 then
       Inl (ValueError (lit ''expected_revision must be positive''))
     else if (case sm_confidence c of None \<Rightarrow> False | Some x \<Rightarrow> \<not> unit_interval x) then
       Inl (ValueError (lit ''confidence must be between 0 and 1''))
     else Inr c)"

record recall_query =
  rq_tenant_id :: uuid
  rq_workspace_id :: uuid
  rq_text :: str
  rq_agent_id :: "uuid option"
  rq_thread_id :: "uuid option"
  rq_layers :: "memory_layer list"
  rq_labels :: "str list"
  rq_valid_at :: "datetime option"
  rq_top_k :: int
  rq_minimum_score :: real

definition recall_query_post_init :: "recall_query \<Rightarrow> recall_query res" where
  "recall_query_post_init q =
    (if blank (rq_text q) then Inl (ValueError (lit ''recall query must not be empty''))
     else if \<not> (1 \<le> rq_top_k q \<and> rq_top_k q \<le> 1000) then
       Inl (ValueError (lit ''top_k must be between 1 and 1000''))
     else Inr q)"

record candidate =
  ca_item :: memory_item
  ca_source :: str
  ca_semantic :: real
  ca_lexical :: real
  ca_entity :: real
  ca_recency :: real
  ca_trust :: real
  ca_final_score :: real

record index_freshness =
  ix_active_memory_count :: nat
  ix_stale_memory_count :: nat
  ix_unpublished_memory_count :: nat
  ix_processing_memory_count :: nat
  ix_dead_letter_memory_count :: nat
  ix_missing_delivery_memory_count :: nat

definition ix_stale :: "index_freshness \<Rightarrow> bool" where
  "ix_stale x \<longleftrightarrow> 0 < ix_stale_memory_count x"

record retrieval_trace_step =
  ts_sequence :: int
  ts_stage :: str
  ts_name :: str
  ts_status :: str
  ts_candidate_count :: int
  ts_accepted_count :: int
  ts_selected_count :: int
  ts_error_type :: "str option"

definition trace_count_ok :: "int \<Rightarrow> bool" where
  "trace_count_ok n \<longleftrightarrow> 0 \<le> n \<and> n \<le> 1000000"

definition trace_step_post_init :: "retrieval_trace_step \<Rightarrow> retrieval_trace_step res" where
  "trace_step_post_init s =
    (if \<not> (1 \<le> ts_sequence s \<and> ts_sequence s \<le> 64) then
       Inl (ValueError (lit ''retrieval trace sequence must be between 1 and 64''))
     else if ts_stage s \<notin> {lit ''source'', lit ''fusion''} then
       Inl (ValueError (lit ''retrieval trace stage must be source or fusion''))
     else if ts_status s \<notin> {lit ''succeeded'', lit ''degraded''} then
       Inl (ValueError (lit ''retrieval trace status must be succeeded or degraded''))
     else if ts_name s = [] \<or> 64 < length (ts_name s) then
       Inl (ValueError (lit ''retrieval trace name must contain between 1 and 64 characters''))
     else if \<not> trace_count_ok (ts_candidate_count s) then
       Inl (ValueError (lit ''candidate_count must be between 0 and 1000000''))
     else if \<not> trace_count_ok (ts_accepted_count s) then
       Inl (ValueError (lit ''accepted_count must be between 0 and 1000000''))
     else if \<not> trace_count_ok (ts_selected_count s) then
       Inl (ValueError (lit ''selected_count must be between 0 and 1000000''))
     else if (case ts_error_type s of None \<Rightarrow> False | Some e \<Rightarrow> e = [] \<or> 128 < length e) then
       Inl (ValueError (lit ''retrieval trace error_type must be between 1 and 128 characters''))
     else Inr s)"

definition valid_trace_step :: "retrieval_trace_step \<Rightarrow> bool" where
  "valid_trace_step s \<longleftrightarrow> 1 \<le> ts_sequence s \<and> ts_sequence s \<le> 64
     \<and> ts_stage s \<in> {lit ''source'', lit ''fusion''} \<and> ts_status s \<in> {lit ''succeeded'', lit ''degraded''}
     \<and> ts_name s \<noteq> [] \<and> length (ts_name s) \<le> 64 \<and> trace_count_ok (ts_candidate_count s)
     \<and> trace_count_ok (ts_accepted_count s) \<and> trace_count_ok (ts_selected_count s)
     \<and> (\<forall>e. ts_error_type s = Some e \<longrightarrow> e \<noteq> [] \<and> length e \<le> 128)"

lemma trace_step_post_init_Inr:
  "trace_step_post_init s = Inr s' \<longleftrightarrow> s' = s \<and> valid_trace_step s"
  unfolding trace_step_post_init_def valid_trace_step_def
  by (auto split: if_splits option.splits)

record recall_result =
  rs_candidates :: "candidate list"
  rs_sources_used :: "str list"
  rs_index_stale :: bool
  rs_index_freshness :: "index_freshness option"
  rs_traversal :: "retrieval_trace_step list"

record context_recipe =
  cr_operation :: str
  cr_budget_tokens :: int
  cr_layer_order :: "memory_layer list"
  cr_per_layer_limit :: "(memory_layer, int) dict"
  cr_always_include :: "memory_layer list"

definition context_recipe_post_init :: "context_recipe \<Rightarrow> context_recipe res" where
  "context_recipe_post_init r =
    (if cr_budget_tokens r < 128 then
       Inl (ValueError (lit ''context budget must be at least 128 tokens''))
     else Inr r)"

end
