(* ===== verification/Samples.thy ===== *)
theory Samples
  imports Contracts
begin

text \<open>
  Small concrete objects on which the theorems are applied: items, turns, proposals, events and
  audit rows that differ in the fields a theorem looks at and take the dataclass defaults elsewhere.
\<close>

definition sample_provenance :: provenance where
  "sample_provenance = \<lparr>pv_source_kind = lit ''user'', pv_origin_uri = None, pv_object_key = None,
     pv_checksum_sha256 = None, pv_quote = None, pv_extraction_version = lit ''1''\<rparr>"

definition sample_item :: "uuid \<Rightarrow> uuid \<Rightarrow> uuid \<Rightarrow> str \<Rightarrow> memory_item" where
  "sample_item i t w txt = \<lparr>mi_id = i, mi_tenant_id = t, mi_workspace_id = w, mi_layer = Semantic,
     mi_scope = Workspace, mi_kind = lit ''fact'', mi_text = txt, mi_provenance = sample_provenance,
     mi_agent_id = None, mi_thread_id = None, mi_labels = [], mi_metadata = [], mi_status = Active,
     mi_importance = 1/2, mi_salience = 1/2, mi_confidence = 1, mi_observed_at = 0,
     mi_valid_from = None, mi_valid_to = None, mi_created_at = 0, mi_revision = 1,
     mi_supersedes_id = None\<rparr>"

definition sample_revision :: "uuid \<Rightarrow> memory_item \<Rightarrow> str \<Rightarrow> memory_item" where
  "sample_revision i p txt = p\<lparr>mi_id := i, mi_text := txt, mi_revision := mi_revision p + 1,
     mi_supersedes_id := Some (mi_id p)\<rparr>"

definition sample_event :: "uuid \<Rightarrow> uuid \<Rightarrow> uuid \<Rightarrow> integration_event" where
  "sample_event i t w = \<lparr>ie_id = i, ie_name = lit ''memory.retained.v1'', ie_tenant_id = t,
     ie_workspace_id = w, ie_payload = [], ie_occurred_at = 0, ie_correlation_id = None\<rparr>"

definition sample_audit :: "uuid \<Rightarrow> uuid \<Rightarrow> datetime \<Rightarrow> audit_event" where
  "sample_audit i t moment = \<lparr>ae_id = i, ae_tenant_id = t, ae_workspace_id = None,
     ae_action = lit ''memory.retain'', ae_actor = lit ''op'', ae_actor_type = lit ''user'',
     ae_resource_type = lit ''memory'', ae_resource_id = None, ae_status = lit ''succeeded'',
     ae_metadata = [], ae_created_at = moment\<rparr>"

definition sample_turn :: "uuid \<Rightarrow> uuid \<Rightarrow> uuid \<Rightarrow> datetime \<Rightarrow> datetime option \<Rightarrow> conversation_turn" where
  "sample_turn i t w moment expiry = \<lparr>ct_id = i, ct_tenant_id = t, ct_workspace_id = w, ct_thread_id = 9,
     ct_messages = [\<lparr>cm_role = lit ''user'', cm_content = lit ''hello'', cm_name = None, cm_metadata = []\<rparr>],
     ct_namespace = lit ''default'', ct_agent_id = None, ct_source_kind = lit ''chat'',
     ct_retention_policy = CuratedOnly, ct_metadata = [], ct_created_at = moment, ct_expires_at = expiry\<rparr>"

definition sample_proposal :: "uuid \<Rightarrow> uuid \<Rightarrow> uuid \<Rightarrow> datetime \<Rightarrow> memory_proposal" where
  "sample_proposal i t w moment = \<lparr>mp_id = i, mp_tenant_id = t, mp_workspace_id = w,
     mp_namespace = lit ''default'', mp_requester = lit ''agent'', mp_target = TFact,
     mp_proposal = lit ''likes tea'', mp_evidence = [], mp_agent_id = None, mp_thread_id = None,
     mp_confidence = 1/2, mp_importance = 1/2, mp_status = POpen, mp_metadata = [],
     mp_created_at = moment, mp_reviewed_at = None, mp_reviewer = None, mp_review_reason = []\<rparr>"

definition sample_query :: "uuid \<Rightarrow> uuid \<Rightarrow> str \<Rightarrow> recall_query" where
  "sample_query t w txt = \<lparr>rq_tenant_id = t, rq_workspace_id = w, rq_text = txt, rq_agent_id = None,
     rq_thread_id = None, rq_layers = [], rq_labels = [], rq_valid_at = None, rq_top_k = 12,
     rq_minimum_score = 0\<rparr>"

end
