(* ===== verification/Store.thy ===== *)
theory Store
  imports Contracts Samples
begin

text \<open>
  The state of \<open>InMemoryMemoryStore\<close> (\<open>src/memory_plane/adapters/in_memory.py\<close>) and what all of its
  methods share: the audit trail and the outbox they append to, the scoping of idempotency keys,
  and the interface of an idempotent append, which the item, turn and proposal tables implement.
  Every method runs under the store's re-entrant lock, so it is one atomic step
  \<open>store \<Rightarrow> result \<times> store\<close>.
\<close>

record store =
  st_items :: "(uuid, memory_item) dict"
  st_idempotency :: "(uuid \<times> str, uuid) dict"
  st_observations :: "(uuid, observation) dict"
  st_conflict_reviews :: "(uuid \<times> uuid, conflict_review_decision) dict"
  st_edges :: "(uuid, memory_edge) dict"
  st_turns :: "(uuid, conversation_turn) dict"
  st_turn_idempotency :: "(uuid \<times> str, uuid) dict"
  st_proposals :: "(uuid, memory_proposal) dict"
  st_proposal_idempotency :: "(uuid \<times> str, uuid) dict"
  st_audit_events :: "(uuid, audit_event) dict"
  st_api_keys :: "(uuid, api_key_record) dict"
  st_workspaces :: "(uuid, workspace_identity) dict"
  st_agents :: "(uuid, agent_identity) dict"
  st_threads :: "(uuid, thread_identity) dict"
  st_worker_heartbeats :: "(uuid \<times> str \<times> str, worker_heartbeat) dict"
  st_events :: "integration_event list"

definition empty_store :: store where
  "empty_store = \<lparr>st_items = [], st_idempotency = [], st_observations = [],
     st_conflict_reviews = [], st_edges = [], st_turns = [], st_turn_idempotency = [],
     st_proposals = [], st_proposal_idempotency = [], st_audit_events = [], st_api_keys = [],
     st_workspaces = [], st_agents = [], st_threads = [], st_worker_heartbeats = [],
     st_events = []\<rparr>"

section \<open>Outbox and audit trail\<close>

definition publish :: "integration_event \<Rightarrow> store \<Rightarrow> store" where
  "publish event s =
    (if list_all (\<lambda>existing. ie_id existing \<noteq> ie_id event) (st_events s)
     then s\<lparr>st_events := st_events s @ [event]\<rparr> else s)"

definition append_audit_event :: "audit_event \<Rightarrow> store \<Rightarrow> audit_event res \<times> store" where
  "append_audit_event event s =
    (let table = dict_setdefault (ae_id event) event (st_audit_events s)
     in (dict_index table (ae_id event), s\<lparr>st_audit_events := table\<rparr>))"

text \<open>\<open>if audit_event is not None: self.append_audit_event(audit_event)\<close>.\<close>

definition with_audit :: "audit_event option \<Rightarrow> store \<Rightarrow> store" where
  "with_audit audit s = (case audit of None \<Rightarrow> s | Some a \<Rightarrow> snd (append_audit_event a s))"

lemma append_audit_event_returns:
  "fst (append_audit_event a s) = Inr (case dict_get (st_audit_events s) (ae_id a) of None \<Rightarrow> a | Some b \<Rightarrow> b)"
  by (simp add: append_audit_event_def Let_def dict_index_def split: option.splits)

lemma publish_frame [frame_simps, simp]:
  "st_items (publish e s) = st_items s" "st_idempotency (publish e s) = st_idempotency s"
  "st_observations (publish e s) = st_observations s"
  "st_conflict_reviews (publish e s) = st_conflict_reviews s" "st_edges (publish e s) = st_edges s"
  "st_turns (publish e s) = st_turns s" "st_turn_idempotency (publish e s) = st_turn_idempotency s"
  "st_proposals (publish e s) = st_proposals s"
  "st_proposal_idempotency (publish e s) = st_proposal_idempotency s"
  "st_audit_events (publish e s) = st_audit_events s" "st_api_keys (publish e s) = st_api_keys s"
  "st_workspaces (publish e s) = st_workspaces s" "st_agents (publish e s) = st_agents s"
  "st_threads (publish e s) = st_threads s"
  "st_worker_heartbeats (publish e s) = st_worker_heartbeats s"
  by (simp_all add: publish_def)

lemma with_audit_frame [frame_simps, simp]:
  "st_items (with_audit a s) = st_items s" "st_idempotency (with_audit a s) = st_idempotency s"
  "st_observations (with_audit a s) = st_observations s"
  "st_conflict_reviews (with_audit a s) = st_conflict_reviews s"
  "st_edges (with_audit a s) = st_edges s"
  "st_turns (with_audit a s) = st_turns s"
  "st_turn_idempotency (with_audit a s) = st_turn_idempotency s"
  "st_proposals (with_audit a s) = st_proposals s"
  "st_proposal_idempotency (with_audit a s) = st_proposal_idempotency s"
  "st_api_keys (with_audit a s) = st_api_keys s"
  "st_workspaces (with_audit a s) = st_workspaces s" "st_agents (with_audit a s) = st_agents s"
  "st_threads (with_audit a s) = st_threads s"
  "st_worker_heartbeats (with_audit a s) = st_worker_heartbeats s"
  "st_events (with_audit a s) = st_events s"
  by (simp_all add: with_audit_def append_audit_event_def Let_def split: option.splits)

lemma with_audit_None [simp]: "with_audit None s = s"
  by (simp add: with_audit_def)

definition events_ok :: "store \<Rightarrow> bool" where
  "events_ok s \<longleftrightarrow> distinct (map ie_id (st_events s))"

lemma publish_events_ok [wf_intros]: "events_ok s \<Longrightarrow> events_ok (publish e s)"
  by (auto simp: events_ok_def publish_def list_all_iff)

lemma with_audit_events_ok [simp]: "events_ok (with_audit a s) = events_ok s"
  by (simp add: events_ok_def)

lemma publish_fresh:
  "ie_id e \<notin> ie_id ` set (st_events s) \<Longrightarrow> st_events (publish e s) = st_events s @ [e]"
  by (auto simp: publish_def list_all_iff image_iff eq_commute)

lemma publish_present: "ie_id e \<in> ie_id ` set (st_events (publish e s))"
proof (cases "list_all (\<lambda>existing. ie_id existing \<noteq> ie_id e) (st_events s)")
  case False
  then obtain x where "x \<in> set (st_events s)" "ie_id x = ie_id e" by (auto simp: list_all_iff)
  then have "ie_id e \<in> ie_id ` set (st_events s)" by (metis imageI)
  with False show ?thesis by (simp add: publish_def)
qed (simp add: publish_def)

lemma publish_set: "set (st_events s) \<subseteq> set (st_events (publish e s))"
  by (auto simp: publish_def)

section \<open>Tables keyed by identity\<close>

definition table_ok :: "('r \<Rightarrow> uuid) \<Rightarrow> (uuid, 'r) dict \<Rightarrow> bool" where
  "table_ok ident tbl \<longleftrightarrow> dict_ok tbl \<and> (\<forall>k r. dict_get tbl k = Some r \<longrightarrow> ident r = k)"

lemma table_ok_set [wf_intros]:
  "table_ok ident tbl \<Longrightarrow> table_ok ident (dict_set (ident r) r tbl)"
  by (simp add: table_ok_def)

lemma table_ok_ident: "table_ok ident tbl \<Longrightarrow> dict_get tbl k = Some r \<Longrightarrow> ident r = k"
  by (simp add: table_ok_def)

lemma table_ok_values:
  "table_ok ident tbl \<Longrightarrow> r \<in> set (dict_values tbl) \<longleftrightarrow> dict_get tbl (ident r) = Some r"
  unfolding table_ok_def by (metis dict_values_get dict_get_values)

lemma table_ok_distinct: "table_ok ident tbl \<Longrightarrow> distinct (map ident (dict_values tbl))"
proof -
  assume ok: "table_ok ident tbl"
  have "map ident (dict_values tbl) = map fst tbl"
    unfolding map_map
    by (intro map_cong refl) (use ok in \<open>auto simp: table_ok_def map_of_eq_Some_iff\<close>)
  moreover have "dict_ok tbl" using ok by (simp add: table_ok_def)
  ultimately show ?thesis by (simp only:)
qed

lemma table_ok_inj: "table_ok ident tbl \<Longrightarrow> inj_on ident (set (dict_values tbl))"
  by (drule table_ok_distinct) (simp only: distinct_map [of ident])

section \<open>Idempotency keys\<close>

definition scope_idempotency_key :: "uuid \<Rightarrow> str option \<Rightarrow> str option" where
  "scope_idempotency_key workspace_id key = map_option (\<lambda>k. uuid_str workspace_id @ lit '':'' @ k) key"

text \<open>\<open>if idempotency_key:\<close> is false for \<open>None\<close> and for the empty string.\<close>

definition given :: "str option \<Rightarrow> str option" where
  "given key = (case key of None \<Rightarrow> None | Some k \<Rightarrow> if k = [] then None else Some k)"

lemma given_scope [simp]: "given (scope_idempotency_key w key) = scope_idempotency_key w key"
  by (simp add: given_def scope_idempotency_key_def lit_def split: option.splits)

lemma scope_key_inject:
  assumes "scope_idempotency_key w1 (Some k1) = scope_idempotency_key w2 (Some k2)"
  shows "w1 = w2 \<and> k1 = k2"
  using assms append_eq_append_conv [of "uuid_str w1" "uuid_str w2"]
  by (simp add: scope_idempotency_key_def uuid_str_inject)

lemma scope_key_None [simp]: "scope_idempotency_key w key = None \<longleftrightarrow> key = None"
  by (simp add: scope_idempotency_key_def)

definition remembered :: "(uuid \<times> str, uuid) dict \<Rightarrow> uuid \<Rightarrow> str option \<Rightarrow> uuid option" where
  "remembered idem tenant key =
    (case given key of None \<Rightarrow> None | Some k \<Rightarrow> dict_get idem (tenant, k))"

lemma remembered_unkeyed [simp]: "remembered idem t (scope_idempotency_key w None) = None"
  by (simp add: remembered_def given_def scope_idempotency_key_def)

definition remember ::
  "uuid \<Rightarrow> str option \<Rightarrow> uuid \<Rightarrow> (uuid \<times> str, uuid) dict \<Rightarrow> (uuid \<times> str, uuid) dict" where
  "remember tenant key i idem =
    (case given key of None \<Rightarrow> idem | Some k \<Rightarrow> dict_set (tenant, k) i idem)"

lemma remember_None [simp]: "remember t None i idem = idem"
  by (simp add: remember_def given_def)

text \<open>Every remembered key points at a stored row of its own tenant.\<close>

definition idem_ok :: "('r \<Rightarrow> uuid) \<Rightarrow> (uuid \<times> str, uuid) dict \<Rightarrow> (uuid, 'r) dict \<Rightarrow> bool" where
  "idem_ok tenant idem tbl \<longleftrightarrow>
    (\<forall>t k i. dict_get idem (t, k) = Some i \<longrightarrow> (\<exists>r. dict_get tbl i = Some r \<and> tenant r = t))"

lemma idem_ok_get:
  "idem_ok tenant idem tbl \<Longrightarrow> remembered idem t key = Some i \<Longrightarrow>
    \<exists>r. dict_get tbl i = Some r \<and> tenant r = t"
  by (auto simp: idem_ok_def remembered_def split: option.splits)

lemma idem_ok_new [wf_intros]:
  assumes "idem_ok tenant idem tbl" and "dict_get tbl (ident r) = None"
  shows "idem_ok tenant (remember (tenant r) key (ident r) idem) (dict_set (ident r) r tbl)"
  unfolding idem_ok_def
proof (intro allI impI)
  fix t k i
  assume h: "dict_get (remember (tenant r) key (ident r) idem) (t, k) = Some i"
  show "\<exists>q. dict_get (dict_set (ident r) r tbl) i = Some q \<and> tenant q = t"
  proof (cases "given key = Some k \<and> t = tenant r")
    case True
    with h show ?thesis by (auto simp: remember_def)
  next
    case False
    with h have "dict_get idem (t, k) = Some i"
      by (auto simp: remember_def split: option.splits if_splits)
    then obtain q where "dict_get tbl i = Some q" and "tenant q = t"
      using assms(1) unfolding idem_ok_def by blast
    with assms(2) show ?thesis by (cases "i = ident r") auto
  qed
qed

lemma remembered_remember:
  "remembered (remember t key i idem) t' key' =
    (if given key' = None then None
     else if t' = t \<and> given key' = given key then Some i else remembered idem t' key')"
  by (auto simp: remembered_def remember_def split: option.splits)

text \<open>
  The shape the three append methods of the store share: look the scoped key up, return the stored
  row on a hit, otherwise write the row and the key.
\<close>

definition idempotent_insert ::
  "('r \<Rightarrow> uuid) \<Rightarrow> uuid \<Rightarrow> str option \<Rightarrow> 'r
    \<Rightarrow> (uuid, 'r) dict \<times> (uuid \<times> str, uuid) dict
    \<Rightarrow> ('r \<times> bool) res \<times> (uuid, 'r) dict \<times> (uuid \<times> str, uuid) dict"
where
  "idempotent_insert ident tenant key r db =
    (case db of (tbl, idem) \<Rightarrow>
      (case remembered idem tenant key of
         Some existing_id \<Rightarrow>
           (res_bind (dict_index tbl existing_id) (\<lambda>q. Inr (q, False)), tbl, idem)
       | None \<Rightarrow>
           (Inr (r, True), dict_set (ident r) r tbl, remember tenant key (ident r) idem)))"

section \<open>The interface of an idempotent append\<close>

text \<open>
  What the callers of \<open>append\<close>, \<open>retain\<close>, \<open>append_turn\<close> and \<open>append_proposal\<close> rely on. A call takes
  the row, the caller's key and whatever else the operation carries (\<open>'x\<close>: events, audit rows).
\<close>

locale idempotent_append =
  fixes append :: "'r \<Rightarrow> str option \<Rightarrow> 'x \<Rightarrow> 's \<Rightarrow> ('r \<times> bool) res \<times> 's"
    and ident :: "'r \<Rightarrow> uuid" and tenant :: "'r \<Rightarrow> uuid" and workspace :: "'r \<Rightarrow> uuid"
    and row :: "'s \<Rightarrow> uuid \<Rightarrow> 'r option"
    and key_of :: "'s \<Rightarrow> uuid \<Rightarrow> str option \<Rightarrow> uuid option"
    and ok :: "'s \<Rightarrow> bool"
  assumes replay: "ok s \<Longrightarrow> key_of s (tenant r) (scope_idempotency_key (workspace r) k) = Some i \<Longrightarrow>
      row s i = Some q \<Longrightarrow> append r k x s = (Inr (q, False), s)"
    and insert: "ok s \<Longrightarrow> key_of s (tenant r) (scope_idempotency_key (workspace r) k) = None \<Longrightarrow>
      fst (append r k x s) = Inr (r, True)"
    and insert_row: "ok s \<Longrightarrow> key_of s (tenant r) (scope_idempotency_key (workspace r) k) = None \<Longrightarrow>
      row (snd (append r k x s)) = (row s)(ident r \<mapsto> r)"
    and insert_key: "ok s \<Longrightarrow> key_of s (tenant r) (scope_idempotency_key (workspace r) k) = None \<Longrightarrow>
      key_of (snd (append r k x s)) t sk =
        (if sk = None then None
         else if t = tenant r \<and> sk = scope_idempotency_key (workspace r) k then Some (ident r)
         else key_of s t sk)"
    and key_row: "ok s \<Longrightarrow> key_of s t sk = Some i \<Longrightarrow> \<exists>q. row s i = Some q \<and> tenant q = t"
    and ok_append: "ok s \<Longrightarrow> row s (ident r) = None \<Longrightarrow> ok (snd (append r k x s))"
begin

lemma append_returns:
  assumes "ok s"
  obtains q c where "fst (append r k x s) = Inr (q, c)" and "tenant q = tenant r"
proof (cases "key_of s (tenant r) (scope_idempotency_key (workspace r) k)")
  case None
  then show thesis using insert [OF assms, of r k x] by (intro that [of r True]) auto
next
  case (Some i)
  then obtain q where q: "row s i = Some q" "tenant q = tenant r" using key_row [OF assms] by blast
  with replay [OF assms Some, of q x] show thesis by (intro that [of q False]) auto
qed

text \<open>A retry with the same key returns the first result and changes nothing.\<close>

lemma retry_returns_first:
  assumes ok: "ok s" and fresh: "row s (ident r) = None"
    and first: "append r (Some k) x s = (Inr (q, c), s1)"
    and same: "tenant r' = tenant r" "workspace r' = workspace r"
  shows "append r' (Some k) x' s1 = (Inr (q, False), s1)"
proof -
  let ?sk = "scope_idempotency_key (workspace r) (Some k)"
  have ok1: "ok s1" using ok_append [OF ok fresh, of "Some k" x] first by simp
  show ?thesis
  proof (cases "key_of s (tenant r) ?sk")
    case None
    then have "q = r" using insert [OF ok None, of x] first by simp
    moreover have "row s1 (ident r) = Some r"
      using insert_row [OF ok None, of x] first by simp
    moreover have "key_of s1 (tenant r) ?sk = Some (ident r)"
      using insert_key [OF ok None, of x "tenant r" ?sk] first by simp
    ultimately show ?thesis using replay [OF ok1, of r' "Some k" "ident r" q x'] same by simp
  next
    case (Some i)
    then obtain p where p: "row s i = Some p" using key_row [OF ok] by blast
    then have "s1 = s" "q = p" using replay [OF ok Some p, of x] first by simp_all
    then show ?thesis using replay [OF ok, of r' "Some k" i p x'] Some p same by simp
  qed
qed

text \<open>A key another workspace or tenant used is not a hit.\<close>

lemma other_scope_not_replayed:
  assumes ok: "ok s" and first: "append r (Some k) x s = (Inr (r, True), s1)"
    and "row s (ident r) = None"
    and unused: "key_of s (tenant r') (scope_idempotency_key (workspace r') (Some k')) = None"
    and other: "(tenant r', workspace r', k') \<noteq> (tenant r, workspace r, k)"
  shows "fst (append r' (Some k') x' s1) = Inr (r', True)"
proof -
  have ok1: "ok s1" using ok_append [OF ok assms(3), of "Some k" x] first by simp
  have none: "key_of s (tenant r) (scope_idempotency_key (workspace r) (Some k)) = None"
  proof (rule ccontr)
    assume "key_of s (tenant r) (scope_idempotency_key (workspace r) (Some k)) \<noteq> None"
    then obtain i where i: "key_of s (tenant r) (scope_idempotency_key (workspace r) (Some k)) = Some i"
      by blast
    then obtain q where "row s i = Some q" using key_row [OF ok] by blast
    then show False using replay [OF ok i, of q x] first by simp
  qed
  have "key_of s1 (tenant r') (scope_idempotency_key (workspace r') (Some k')) = None"
    using insert_key [OF ok none, of x "tenant r'" "scope_idempotency_key (workspace r') (Some k')"]
      first other unused scope_key_inject by auto
  then show ?thesis by (rule insert [OF ok1])
qed

text \<open>Rows already stored survive an append of a fresh row.\<close>

lemma append_keeps_rows:
  assumes "ok s" and "row s (ident r) = None" and "row s i = Some q"
  shows "row (snd (append r k x s)) i = Some q"
proof (cases "key_of s (tenant r) (scope_idempotency_key (workspace r) k)")
  case None
  then show ?thesis using insert_row [OF assms(1) None, of x] assms by auto
next
  case (Some j)
  then obtain p where "row s j = Some p" using key_row [OF assms(1)] by blast
  then show ?thesis using replay [OF assms(1) Some, of p x] assms by simp
qed

end

end
