(* ===== verification/StoreItems.thy ===== *)
theory StoreItems
  imports Store
begin

text \<open>
  The memory ledger of \<open>InMemoryMemoryStore\<close>: idempotent retention, compare-and-set revisions, the
  recallable heads, listing and lexical search. The ledger is append-only; its invariant says that
  rows sit under their own identity, that every remembered idempotency key points at a row of its
  tenant, and that the revisions form chains: each one continues a stored parent of the same
  tenant by one, and no parent has two children.
\<close>

section \<open>Operations\<close>

definition append_item :: "memory_item \<Rightarrow> str option \<Rightarrow> store \<Rightarrow> (memory_item \<times> bool) res \<times> store"
where
  "append_item item key s =
    (case idempotent_insert mi_id (mi_tenant_id item)
            (scope_idempotency_key (mi_workspace_id item) key) item
            (st_items s, st_idempotency s) of
       (r, items, idem) \<Rightarrow> (r, s\<lparr>st_items := items, st_idempotency := idem\<rparr>))"

definition retain ::
  "memory_item \<Rightarrow> integration_event \<Rightarrow> str option \<Rightarrow> audit_event option \<Rightarrow> store
    \<Rightarrow> (memory_item \<times> bool) res \<times> store"
where
  "retain item event key audit s =
    (case append_item item key s of
       (Inl e, s1) \<Rightarrow> (Inl e, s1)
     | (Inr (stored, created), s1) \<Rightarrow>
         (Inr (stored, created), if created then with_audit audit (publish event s1) else s1))"

definition get_item :: "uuid \<Rightarrow> uuid \<Rightarrow> store \<Rightarrow> memory_item option" where
  "get_item tenant_id item_id s =
    (case dict_get (st_items s) item_id of
       None \<Rightarrow> None
     | Some item \<Rightarrow> if mi_tenant_id item = tenant_id then Some item else None)"

text \<open>
  \<open>_latest_descendant\<close>: the \<open>while changed\<close> loop takes the first row that revises the current head
  and starts over. Every turn raises the head's revision, so the rows above it run out.
\<close>

definition revises :: "uuid \<Rightarrow> memory_item \<Rightarrow> memory_item \<Rightarrow> bool" where
  "revises tenant_id head c \<longleftrightarrow> mi_tenant_id c = tenant_id \<and> mi_supersedes_id c = Some (mi_id head)
     \<and> mi_revision head < mi_revision c"

function latest_descendant :: "memory_item list \<Rightarrow> uuid \<Rightarrow> memory_item \<Rightarrow> memory_item" where
  "latest_descendant rows tenant_id head =
    (case find (revises tenant_id head) rows of
       None \<Rightarrow> head
     | Some c \<Rightarrow> latest_descendant rows tenant_id c)"
  by auto
termination
proof (relation "measure (\<lambda>(rows, t, h). length (filter (\<lambda>c. mi_revision h < mi_revision c) rows))",
    goal_cases)
  case (2 rows t h c)
  then have c: "c \<in> set rows" "mi_revision h < mi_revision c"
    by (auto simp: find_Some_iff revises_def)
  have "filter (\<lambda>x. mi_revision c < mi_revision x) rows
      = filter (\<lambda>x. mi_revision c < mi_revision x) (filter (\<lambda>x. mi_revision h < mi_revision x) rows)"
    using c(2) by (auto intro: filter_cong)
  moreover have "length (filter (\<lambda>x. mi_revision c < mi_revision x)
      (filter (\<lambda>x. mi_revision h < mi_revision x) rows))
      < length (filter (\<lambda>x. mi_revision h < mi_revision x) rows)"
    using c by (intro length_filter_less [of c]) auto
  ultimately show ?case by simp
qed simp

declare latest_descendant.simps [simp del]

definition supersede_if_current ::
  "memory_item \<Rightarrow> integration_event \<Rightarrow> int \<Rightarrow> str option \<Rightarrow> audit_event option \<Rightarrow> store
    \<Rightarrow> (memory_item \<times> bool) res \<times> store"
where
  "supersede_if_current item event expected_revision key audit s =
    (let sk = scope_idempotency_key (mi_workspace_id item) key in
     case mi_supersedes_id item of
       None \<Rightarrow> (Inl (ValueError (lit ''replacement item must declare supersedes_id'')), s)
     | Some parent_id \<Rightarrow>
         (case remembered (st_idempotency s) (mi_tenant_id item) sk of
            Some existing_id \<Rightarrow>
              (res_bind (dict_index (st_items s) existing_id) (\<lambda>q. Inr (q, False)), s)
          | None \<Rightarrow>
              (case get_item (mi_tenant_id item) parent_id s of
                 None \<Rightarrow> (Inl (KeyError (lit ''memory item not found'')), s)
               | Some parent \<Rightarrow>
                   let child = latest_descendant (dict_values (st_items s)) (mi_tenant_id parent) parent
                   in if mi_id child \<noteq> mi_id parent \<or> mi_revision parent \<noteq> expected_revision
                      then (Inl (MemoryRevisionConflictError parent_id expected_revision
                              (Some (mi_revision child))), s)
                      else (Inr (item, True),
                        with_audit audit (publish event
                          (s\<lparr>st_items := dict_set (mi_id item) item (st_items s),
                             st_idempotency :=
                               remember (mi_tenant_id item) sk (mi_id item) (st_idempotency s)\<rparr>))))))"

definition is_recallable_head :: "uuid \<Rightarrow> uuid \<Rightarrow> store \<Rightarrow> bool" where
  "is_recallable_head tenant_id item_id s =
    (case get_item tenant_id item_id s of
       None \<Rightarrow> False
     | Some item \<Rightarrow>
         if mi_status item \<in> {Rejected, Archived} then False
         else \<not> list_ex (\<lambda>c. mi_tenant_id c = tenant_id \<and> mi_supersedes_id c = Some item_id)
                 (dict_values (st_items s)))"

definition filter_recallable_heads :: "uuid \<Rightarrow> uuid list \<Rightarrow> store \<Rightarrow> uuid set" where
  "filter_recallable_heads tenant_id item_ids s =
    set (filter (\<lambda>i. is_recallable_head tenant_id i s) item_ids)"

definition list_items ::
  "uuid \<Rightarrow> uuid \<Rightarrow> memory_layer list \<Rightarrow> memory_status option \<Rightarrow> str option \<Rightarrow> int option \<Rightarrow> int
    \<Rightarrow> store \<Rightarrow> memory_item list"
where
  "list_items tenant_id workspace_id layers status label limit offset s =
    (let rows = filter (\<lambda>item. mi_tenant_id item = tenant_id
            \<and> mi_workspace_id item = workspace_id
            \<and> (layers = [] \<or> mi_layer item \<in> set layers)
            \<and> (case status of None \<Rightarrow> True | Some st \<Rightarrow> mi_status item = st)
            \<and> (case given label of None \<Rightarrow> True | Some l \<Rightarrow> l \<in> set (mi_labels item)))
          (dict_values (st_items s));
         ordered = sort_key (\<lambda>item. (mi_created_at item, mi_id item)) rows
     in py_slice (max 0 offset) (map_option (\<lambda>l. max 0 offset + l) limit) ordered)"

definition terms :: "str \<Rightarrow> str list" where
  "terms txt = remdups (map casefold (find_words txt))"

definition lexical_overlap :: "str list \<Rightarrow> str list \<Rightarrow> real" where
  "lexical_overlap query_terms item_terms =
    real (length (filter (\<lambda>t. t \<in> set item_terms) query_terms)) / real (max 1 (length query_terms))"

definition visible_to :: "recall_query \<Rightarrow> memory_item \<Rightarrow> bool" where
  "visible_to query item \<longleftrightarrow>
     \<not> (mi_scope item = Thread \<and> mi_thread_id item \<noteq> rq_thread_id query)
   \<and> \<not> (mi_scope item = Private \<and> mi_agent_id item \<noteq> rq_agent_id query)
   \<and> \<not> (rq_labels query \<noteq> [] \<and> \<not> set (rq_labels query) \<subseteq> set (mi_labels item))"

definition lexical_candidate :: "memory_item \<Rightarrow> real \<Rightarrow> candidate" where
  "lexical_candidate item lexical =
    \<lparr>ca_item = item, ca_source = lit ''sql_lexical'', ca_semantic = 0, ca_lexical = lexical,
     ca_entity = lexical, ca_recency = 0, ca_trust = mi_confidence item, ca_final_score = 0\<rparr>"

definition search :: "recall_query \<Rightarrow> store \<Rightarrow> candidate list" where
  "search query s =
    (let query_terms = terms (rq_text query);
         all_items = list_items (rq_tenant_id query) (rq_workspace_id query) (rq_layers query)
           None None None 0 s
     in map (\<lambda>item. lexical_candidate item (lexical_overlap query_terms (terms (mi_text item))))
          (filter (\<lambda>item. is_recallable_head (rq_tenant_id query) (mi_id item) s
              \<and> visible_to query item
              \<and> (0 < lexical_overlap query_terms (terms (mi_text item))
                 \<or> mi_layer item \<in> {Core, Working}))
            all_items))"

section \<open>The ledger invariant\<close>

definition lineage_ok :: "(uuid, memory_item) dict \<Rightarrow> bool" where
  "lineage_ok tbl \<longleftrightarrow>
    (\<forall>i c p. dict_get tbl i = Some c \<longrightarrow> mi_supersedes_id c = Some p \<longrightarrow>
       (\<exists>q. dict_get tbl p = Some q \<and> mi_tenant_id q = mi_tenant_id c
          \<and> mi_revision c = mi_revision q + 1))
  \<and> (\<forall>i j c d p. dict_get tbl i = Some c \<longrightarrow> dict_get tbl j = Some d \<longrightarrow>
       mi_supersedes_id c = Some p \<longrightarrow> mi_supersedes_id d = Some p \<longrightarrow> i = j)"

definition items_ok :: "store \<Rightarrow> bool" where
  "items_ok s \<longleftrightarrow> table_ok mi_id (st_items s) \<and> idem_ok mi_tenant_id (st_idempotency s) (st_items s)"

definition ledger_ok :: "store \<Rightarrow> bool" where
  "ledger_ok s \<longleftrightarrow> items_ok s \<and> lineage_ok (st_items s)"

text \<open>What a row must satisfy to enter the ledger without forking it.\<close>

definition extends_lineage :: "(uuid, memory_item) dict \<Rightarrow> memory_item \<Rightarrow> bool" where
  "extends_lineage tbl item \<longleftrightarrow> dict_get tbl (mi_id item) = None \<and>
     (\<forall>p. mi_supersedes_id item = Some p \<longrightarrow>
        (\<exists>q. dict_get tbl p = Some q \<and> mi_tenant_id q = mi_tenant_id item
           \<and> mi_revision item = mi_revision q + 1)
        \<and> (\<forall>i c. dict_get tbl i = Some c \<longrightarrow> mi_supersedes_id c \<noteq> Some p))"

lemma lineage_ok_insert:
  assumes ok: "lineage_ok tbl" and ext: "extends_lineage tbl item"
  shows "lineage_ok (dict_set (mi_id item) item tbl)"
proof -
  let ?t = "dict_set (mi_id item) item tbl"
  have keep: "dict_get ?t p = Some q" if "dict_get tbl p = Some q" for p q
    using that ext by (auto simp: extends_lineage_def)
  have old: "dict_get tbl i = Some c" if "dict_get ?t i = Some c" "i \<noteq> mi_id item" for i c
    using that by simp
  have "\<exists>q. dict_get ?t p = Some q \<and> mi_tenant_id q = mi_tenant_id c \<and> mi_revision c = mi_revision q + 1"
    if c: "dict_get ?t i = Some c" "mi_supersedes_id c = Some p" for i c p
  proof (cases "i = mi_id item")
    case True
    with c ext keep show ?thesis unfolding extends_lineage_def by fastforce
  next
    case False
    with c ok keep old show ?thesis unfolding lineage_ok_def by blast
  qed
  moreover have "i = j"
    if c: "dict_get ?t i = Some c" "mi_supersedes_id c = Some p"
      and d: "dict_get ?t j = Some d" "mi_supersedes_id d = Some p" for i j c d p
  proof (cases "i = mi_id item \<or> j = mi_id item")
    case True
    then show ?thesis using c d ext old unfolding extends_lineage_def
      by (metis dict_get_set option.inject)
  next
    case False
    with c d ok old show ?thesis unfolding lineage_ok_def by blast
  qed
  ultimately show ?thesis unfolding lineage_ok_def by blast
qed

lemma lineage_parent:
  assumes "lineage_ok tbl" "dict_get tbl i = Some c" "mi_supersedes_id c = Some p"
  obtains q where "dict_get tbl p = Some q" and "mi_tenant_id q = mi_tenant_id c"
    and "mi_revision c = mi_revision q + 1"
  using assms unfolding lineage_ok_def by blast

lemma lineage_single_child:
  "lineage_ok tbl \<Longrightarrow> dict_get tbl i = Some c \<Longrightarrow> dict_get tbl j = Some d \<Longrightarrow>
    mi_supersedes_id c = Some p \<Longrightarrow> mi_supersedes_id d = Some p \<Longrightarrow> i = j"
  unfolding lineage_ok_def by blast

lemma items_ok_insert:
  assumes "items_ok s" and "dict_get (st_items s) (mi_id item) = None"
  shows "items_ok (s\<lparr>st_items := dict_set (mi_id item) item (st_items s),
            st_idempotency := remember (mi_tenant_id item) k (mi_id item) (st_idempotency s)\<rparr>)"
  using assms by (auto simp: items_ok_def intro: table_ok_set idem_ok_new)

lemma items_ok_cong:
  "st_items s' = st_items s \<Longrightarrow> st_idempotency s' = st_idempotency s \<Longrightarrow> items_ok s' = items_ok s"
  by (simp add: items_ok_def)

lemma ledger_ok_cong:
  "st_items s' = st_items s \<Longrightarrow> st_idempotency s' = st_idempotency s \<Longrightarrow> ledger_ok s' = ledger_ok s"
  by (simp add: ledger_ok_def items_ok_def)

lemma ledger_ok_insert:
  assumes "ledger_ok s" and "extends_lineage (st_items s) item"
  shows "ledger_ok (s\<lparr>st_items := dict_set (mi_id item) item (st_items s),
            st_idempotency := remember (mi_tenant_id item) k (mi_id item) (st_idempotency s)\<rparr>)"
proof -
  have "items_ok (s\<lparr>st_items := dict_set (mi_id item) item (st_items s),
            st_idempotency := remember (mi_tenant_id item) k (mi_id item) (st_idempotency s)\<rparr>)"
    using assms by (intro items_ok_insert) (auto simp: ledger_ok_def extends_lineage_def)
  then show ?thesis using assms lineage_ok_insert by (simp add: ledger_ok_def)
qed

section \<open>Retention\<close>

lemma append_item_replay:
  assumes "remembered (st_idempotency s) (mi_tenant_id item)
      (scope_idempotency_key (mi_workspace_id item) key) = Some i"
    and "dict_get (st_items s) i = Some q"
  shows "append_item item key s = (Inr (q, False), s)"
  using assms by (simp add: append_item_def idempotent_insert_def)

lemma append_item_new:
  assumes "remembered (st_idempotency s) (mi_tenant_id item)
      (scope_idempotency_key (mi_workspace_id item) key) = None"
  shows "append_item item key s = (Inr (item, True),
    s\<lparr>st_items := dict_set (mi_id item) item (st_items s),
      st_idempotency := remember (mi_tenant_id item) (scope_idempotency_key (mi_workspace_id item) key)
        (mi_id item) (st_idempotency s)\<rparr>)"
  using assms by (simp add: append_item_def idempotent_insert_def)

lemmas append_item_simps = append_item_replay append_item_new

lemma remembered_scoped:
  "remembered (remember t (scope_idempotency_key w k) i idem) t' sk =
    (if sk = None then None else if t' = t \<and> sk = scope_idempotency_key w k then Some i
     else remembered idem t' sk)"
proof (cases "given sk")
  case None
  then have "remembered idem t' sk = None" by (simp add: remembered_def)
  moreover have "sk = None" if "sk = scope_idempotency_key w k"
    using None that by (metis given_scope)
  ultimately show ?thesis using None by (auto simp: remembered_remember simp del: scope_key_None)
next
  case (Some x)
  then have "sk = Some x" by (auto simp: given_def split: option.splits if_splits)
  with Some show ?thesis by (auto simp: remembered_remember)
qed

interpretation items: idempotent_append
  "\<lambda>r k (e, a). retain r e k a" mi_id mi_tenant_id mi_workspace_id
  "\<lambda>s. dict_get (st_items s)" "\<lambda>s. remembered (st_idempotency s)" items_ok
proof (unfold_locales, goal_cases)
  case (1 s r k i q x)
  then show ?case by (cases x) (simp add: retain_def append_item_replay)
next
  case (2 s r k x)
  then show ?case by (cases x) (simp add: retain_def append_item_new)
next
  case (3 s r k x)
  then show ?case by (cases x) (auto simp: retain_def append_item_new)
next
  case (4 s r k x t sk)
  then show ?case by (cases x) (simp add: retain_def append_item_new remembered_scoped)
next
  case (5 s t sk i)
  then show ?case by (auto simp: items_ok_def dest: idem_ok_get)
next
  case (6 s r k x)
  obtain e a where x: "x = (e, a)" by (cases x)
  show ?case
  proof (cases "remembered (st_idempotency s) (mi_tenant_id r) (scope_idempotency_key (mi_workspace_id r) k)")
    case None
    have "items_ok (s\<lparr>st_items := dict_set (mi_id r) r (st_items s), st_idempotency :=
        remember (mi_tenant_id r) (scope_idempotency_key (mi_workspace_id r) k) (mi_id r) (st_idempotency s)\<rparr>)"
      using 6 by (rule items_ok_insert)
    with None show ?thesis by (simp add: x retain_def append_item_new items_ok_def)
  next
    case (Some i)
    then obtain q where "dict_get (st_items s) i = Some q"
      using 6 by (auto simp: items_ok_def dest: idem_ok_get)
    with Some 6 show ?thesis by (simp add: x retain_def append_item_replay)
  qed
qed

section \<open>Reading the ledger\<close>

lemma get_item_Some:
  "get_item t i s = Some c \<longleftrightarrow> dict_get (st_items s) i = Some c \<and> mi_tenant_id c = t"
  by (auto simp: get_item_def split: option.splits if_splits)

lemma items_row_iff:
  "items_ok s \<Longrightarrow> c \<in> set (dict_values (st_items s)) \<longleftrightarrow> dict_get (st_items s) (mi_id c) = Some c"
  unfolding items_ok_def by (rule table_ok_values) simp

lemma items_row_id: "items_ok s \<Longrightarrow> dict_get (st_items s) i = Some c \<Longrightarrow> mi_id c = i"
  unfolding items_ok_def by (blast intro: table_ok_ident)

lemma find_revises:
  assumes "find (revises t h) rows = Some c"
  shows "c \<in> set rows" and "revises t h c"
  using assms by (auto simp: find_Some_iff)

lemma latest_descendant_mem: "latest_descendant rows t h \<in> insert h (set rows)"
proof (induction rows t h rule: latest_descendant.induct)
  case (1 rows t h)
  then show ?case
    by (subst latest_descendant.simps) (auto split: option.splits dest: find_revises)
qed

lemma latest_descendant_revision: "mi_revision h \<le> mi_revision (latest_descendant rows t h)"
proof (induction rows t h rule: latest_descendant.induct)
  case (1 rows t h)
  then show ?case
    by (subst latest_descendant.simps)
      (fastforce split: option.splits dest: find_revises simp: revises_def)
qed

lemma latest_descendant_stop: "find (revises t (latest_descendant rows t h)) rows = None"
proof (induction rows t h rule: latest_descendant.induct)
  case (1 rows t h)
  then show ?case
    by (subst (1) latest_descendant.simps) (auto split: option.splits)
qed

lemma latest_descendant_tenant:
  "mi_tenant_id h = t \<Longrightarrow> mi_tenant_id (latest_descendant rows t h) = t"
proof (induction rows t h rule: latest_descendant.induct)
  case (1 rows t h)
  then show ?case
    using find_revises(2) [of t h rows]
    by (subst latest_descendant.simps) (auto split: option.splits simp: revises_def)
qed

text \<open>The loop leaves its start exactly when some row revises it.\<close>

lemma latest_descendant_same:
  "latest_descendant rows t h = h \<longleftrightarrow> find (revises t h) rows = None"
proof
  assume "latest_descendant rows t h = h"
  then show "find (revises t h) rows = None" using latest_descendant_stop [of t rows h] by simp
qed (simp add: latest_descendant.simps)

lemma latest_descendant_moves:
  assumes "find (revises t h) rows = Some c"
  shows "mi_revision h < mi_revision (latest_descendant rows t h)"
  using find_revises [OF assms] latest_descendant_revision [of c rows t]
  by (subst latest_descendant.simps) (simp add: assms revises_def)

text \<open>Under the invariant a row without a larger revision child has no child at all.\<close>

lemma no_reviser_no_child:
  assumes ok: "ledger_ok s" and h: "dict_get (st_items s) (mi_id h) = Some h"
    and none: "find (revises (mi_tenant_id h) h) (dict_values (st_items s)) = None"
    and c: "dict_get (st_items s) i = Some c"
  shows "mi_supersedes_id c \<noteq> Some (mi_id h)"
proof
  assume sup: "mi_supersedes_id c = Some (mi_id h)"
  from ok c sup h have "mi_tenant_id c = mi_tenant_id h" and "mi_revision c = mi_revision h + 1"
    unfolding ledger_ok_def by (auto elim: lineage_parent)
  then have "revises (mi_tenant_id h) h c" using sup by (simp add: revises_def)
  moreover have "c \<in> set (dict_values (st_items s))" using c by (rule dict_get_values)
  ultimately show False using none by (auto simp: find_None_iff)
qed

section \<open>Compare-and-set revisions\<close>

lemma supersede_if_current_cases:
  assumes "supersede_if_current item event expected key audit s = (r, s')"
  obtains
    (no_parent) "r = Inl (ValueError (lit ''replacement item must declare supersedes_id''))" "s' = s"
      "mi_supersedes_id item = None"
  | (replayed) i p where "mi_supersedes_id item = Some p" "s' = s"
      "remembered (st_idempotency s) (mi_tenant_id item)
        (scope_idempotency_key (mi_workspace_id item) key) = Some i"
      "r = res_bind (dict_index (st_items s) i) (\<lambda>q. Inr (q, False))"
  | (missing) p where "mi_supersedes_id item = Some p" "s' = s"
      "get_item (mi_tenant_id item) p s = None" "r = Inl (KeyError (lit ''memory item not found''))"
  | (conflict) p q where "mi_supersedes_id item = Some p" "s' = s"
      "get_item (mi_tenant_id item) p s = Some q"
      "r = Inl (MemoryRevisionConflictError p expected
        (Some (mi_revision (latest_descendant (dict_values (st_items s)) (mi_tenant_id q) q))))"
      "mi_id (latest_descendant (dict_values (st_items s)) (mi_tenant_id q) q) \<noteq> mi_id q
        \<or> mi_revision q \<noteq> expected"
  | (written) p q where "mi_supersedes_id item = Some p" "r = Inr (item, True)"
      "remembered (st_idempotency s) (mi_tenant_id item)
        (scope_idempotency_key (mi_workspace_id item) key) = None"
      "get_item (mi_tenant_id item) p s = Some q" "mi_revision q = expected"
      "mi_id (latest_descendant (dict_values (st_items s)) (mi_tenant_id q) q) = mi_id q"
      "s' = with_audit audit (publish event
          (s\<lparr>st_items := dict_set (mi_id item) item (st_items s),
             st_idempotency := remember (mi_tenant_id item)
               (scope_idempotency_key (mi_workspace_id item) key) (mi_id item) (st_idempotency s)\<rparr>))"
proof (cases "mi_supersedes_id item")
  case None
  with assms show thesis by (intro no_parent) (simp_all add: supersede_if_current_def)
next
  case parent: (Some p)
  show thesis
  proof (cases "remembered (st_idempotency s) (mi_tenant_id item)
      (scope_idempotency_key (mi_workspace_id item) key)")
    case (Some i)
    with parent assms show thesis
      by (intro replayed [OF parent _ Some]) (auto simp: supersede_if_current_def)
  next
    case fresh: None
    show thesis
    proof (cases "get_item (mi_tenant_id item) p s")
      case None
      with parent fresh assms show thesis by (intro missing) (simp_all add: supersede_if_current_def)
    next
      case (Some q)
      let ?d = "latest_descendant (dict_values (st_items s)) (mi_tenant_id q) q"
      show thesis
      proof (cases "mi_id ?d \<noteq> mi_id q \<or> mi_revision q \<noteq> expected")
        case True
        with parent fresh Some assms show thesis
          by (intro conflict [OF parent _ Some]) (auto simp: supersede_if_current_def Let_def)
      next
        case False
        with parent fresh Some assms show thesis
          by (intro written [OF parent _ fresh Some]) (auto simp: supersede_if_current_def Let_def)
      qed
    qed
  qed
qed

lemma head_unrevised:
  assumes ok: "items_ok s" and q: "dict_get (st_items s) p = Some q"
    and "mi_id (latest_descendant (dict_values (st_items s)) (mi_tenant_id q) q) = mi_id q"
  shows "find (revises (mi_tenant_id q) q) (dict_values (st_items s)) = None"
proof -
  let ?d = "latest_descendant (dict_values (st_items s)) (mi_tenant_id q) q"
  have "?d \<in> set (dict_values (st_items s))"
    using latest_descendant_mem [of "dict_values (st_items s)" "mi_tenant_id q" q]
      dict_get_values [OF q] by auto
  then have "?d = q"
    using assms items_row_iff [OF ok] items_row_id [OF ok q] by (metis option.inject)
  then show ?thesis by (simp add: latest_descendant_same)
qed

lemma supersede_extends_lineage:
  assumes ok: "ledger_ok s" and fresh: "dict_get (st_items s) (mi_id item) = None"
    and rev: "mi_revision item = expected + 1"
    and "mi_supersedes_id item = Some p" "get_item (mi_tenant_id item) p s = Some q"
      "mi_revision q = expected"
      "mi_id (latest_descendant (dict_values (st_items s)) (mi_tenant_id q) q) = mi_id q"
  shows "extends_lineage (st_items s) item"
proof -
  have items: "items_ok s" using ok by (simp add: ledger_ok_def)
  have q: "dict_get (st_items s) p = Some q" "mi_tenant_id q = mi_tenant_id item"
    using assms(5) by (simp_all add: get_item_Some)
  then have "mi_id q = p" using items_row_id [OF items] by blast
  then have "mi_supersedes_id c \<noteq> Some p" if "dict_get (st_items s) i = Some c" for i c
    using no_reviser_no_child [OF ok _ head_unrevised [OF items q(1) assms(7)] that] q by simp
  with fresh rev q assms(4,6) show ?thesis unfolding extends_lineage_def by auto
qed

lemma ledger_ok_retain [wf_intros]:
  assumes ok: "ledger_ok s" and "dict_get (st_items s) (mi_id item) = None"
    and "mi_supersedes_id item = None"
  shows "ledger_ok (snd (retain item event key audit s))"
proof (cases "remembered (st_idempotency s) (mi_tenant_id item)
    (scope_idempotency_key (mi_workspace_id item) key)")
  case None
  have "extends_lineage (st_items s) item" using assms by (simp add: extends_lineage_def)
  from ledger_ok_insert [OF ok this] None show ?thesis
    by (simp add: retain_def append_item_new ledger_ok_def items_ok_def)
next
  case (Some i)
  then obtain q where "dict_get (st_items s) i = Some q"
    using ok by (auto simp: ledger_ok_def items_ok_def dest: idem_ok_get)
  with Some ok show ?thesis by (simp add: retain_def append_item_replay)
qed

lemma ledger_ok_supersede [wf_intros]:
  assumes ok: "ledger_ok s" and fresh: "dict_get (st_items s) (mi_id item) = None"
    and rev: "mi_revision item = expected + 1"
  shows "ledger_ok (snd (supersede_if_current item event expected key audit s))"
proof -
  obtain r s' where e: "supersede_if_current item event expected key audit s = (r, s')" by fastforce
  then show ?thesis
  proof (cases rule: supersede_if_current_cases)
    case (written p q)
    have "extends_lineage (st_items s) item"
      using supersede_extends_lineage [OF ok fresh rev] written by blast
    from ledger_ok_insert [OF ok this] written e show ?thesis
      by (simp add: ledger_ok_def items_ok_def)
  qed (use ok e in simp_all)
qed

section \<open>Properties of the ledger\<close>

lemma dict_values_set_new:
  assumes "dict_ok d" and "dict_get d k = None" and "x \<in> set (dict_values (dict_set k v d))"
  shows "x = v \<or> (\<exists>i. dict_get d i = Some x)"
proof -
  have "x \<in> set (dict_values d @ [v])"
    using assms(3) set_dict_values_new [OF assms(2), of v] by simp
  then show ?thesis using dict_values_get [OF assms(1), of x] by auto
qed

text \<open>After a successful write the chain from the parent is the parent and its replacement.\<close>

lemma written_head:
  assumes ok: "ledger_ok s" and fresh: "dict_get (st_items s) (mi_id item) = None"
    and rev: "mi_revision item = expected + 1"
    and w: "supersede_if_current item event expected key audit s = (Inr (item, True), s1)"
  obtains p q where "mi_supersedes_id item = Some p" and "dict_get (st_items s) p = Some q"
    and "mi_tenant_id q = mi_tenant_id item" and "mi_id q = p" and "mi_revision q = expected"
    and "st_items s1 = dict_set (mi_id item) item (st_items s)"
    and "latest_descendant (dict_values (st_items s1)) (mi_tenant_id item) q = item"
    and "\<And>i c. dict_get (st_items s1) i = Some c \<Longrightarrow> mi_supersedes_id c \<noteq> Some (mi_id item)"
  using w
proof (cases rule: supersede_if_current_cases)
  case (replayed i p)
  have False using replayed(4) by (simp add: dict_index_def split: option.splits)
  then show thesis ..
next
  case (written p q)
  have items: "items_ok s" using ok by (simp add: ledger_ok_def)
  have q: "dict_get (st_items s) p = Some q" "mi_tenant_id q = mi_tenant_id item"
    using written by (simp_all add: get_item_Some)
  have idq: "mi_id q = p" using items_row_id [OF items q(1)] .
  have tbl: "st_items s1 = dict_set (mi_id item) item (st_items s)" using written by simp
  have okd: "dict_ok (st_items s)" using items by (simp add: items_ok_def table_ok_def)
  have ext: "extends_lineage (st_items s) item"
    using supersede_extends_lineage [OF ok fresh rev] written by blast
  have ok1: "lineage_ok (st_items s1)"
    unfolding tbl using ok ext by (intro lineage_ok_insert) (simp_all add: ledger_ok_def)
  have childless: "mi_supersedes_id c \<noteq> Some (mi_id item)"
    if c: "dict_get (st_items s1) i = Some c" for i c
  proof
    assume sup: "mi_supersedes_id c = Some (mi_id item)"
    show False
    proof (cases "i = mi_id item")
      case True
      with c tbl have "c = item" by simp
      with sup written(1) q(1) fresh show False by simp
    next
      case False
      with c tbl have "dict_get (st_items s) i = Some c" by simp
      with ok sup fresh show False unfolding ledger_ok_def by (metis lineage_parent option.distinct(1))
    qed
  qed
  let ?rows = "dict_values (st_items s1)" and ?t = "mi_tenant_id item"
  have mem: "item \<in> set ?rows" unfolding tbl by (rule dict_get_values [of _ "mi_id item"]) simp
  have stop: "find (revises ?t item) ?rows = None"
  proof -
    have "\<not> revises ?t item c" if "c \<in> set ?rows" for c
      using that dict_values_get [of "st_items s1" c] childless okd tbl by (auto simp: revises_def)
    then show ?thesis by (simp add: find_None_iff)
  qed
  have "revises ?t q item" using written q idq rev by (simp add: revises_def)
  then obtain c where c: "find (revises ?t q) ?rows = Some c"
    using mem by (cases "find (revises ?t q) ?rows") (auto simp: find_None_iff)
  have csup: "mi_supersedes_id c = Some p"
    using find_revises(2) [OF c] idq by (simp add: revises_def)
  have ok_d1: "dict_ok (st_items s1)" unfolding tbl using okd by (rule dict_ok_set)
  obtain i where i: "dict_get (st_items s1) i = Some c"
    using dict_values_get [OF ok_d1 find_revises(1) [OF c]] by blast
  have get: "dict_get (st_items s1) (mi_id item) = Some item" unfolding tbl by simp
  have "i = mi_id item" by (rule lineage_single_child [OF ok1 i get csup written(1)])
  with i get have "c = item" by simp
  have "latest_descendant ?rows ?t item = item" using stop by (simp add: latest_descendant_same)
  then have "latest_descendant ?rows ?t q = item"
    using c \<open>c = item\<close> by (subst latest_descendant.simps) simp
  show thesis
    by (rule that [OF written(1) q idq written(5) tbl \<open>latest_descendant ?rows ?t q = item\<close> childless])
qed simp_all

text \<open>
  C17: No lost update. Once a compare-and-set revision of a parent has been written, every other
  writer that read the same parent revision is refused with the head's revision and changes nothing.
\<close>

theorem cas_admits_one_writer:
  assumes "ledger_ok s" and "dict_get (st_items s) (mi_id item) = None"
    and "mi_revision item = expected + 1"
    and "supersede_if_current item event expected key audit s = (Inr (item, True), s1)"
    and "mi_supersedes_id item' = mi_supersedes_id item" and "mi_tenant_id item' = mi_tenant_id item"
    and "remembered (st_idempotency s1) (mi_tenant_id item')
      (scope_idempotency_key (mi_workspace_id item') key') = None"
  shows "supersede_if_current item' event' expected key' audit' s1
    = (Inl (MemoryRevisionConflictError (the (mi_supersedes_id item)) expected (Some (expected + 1))), s1)"
proof -
  from written_head [OF assms(1-4)] obtain p q where w: "mi_supersedes_id item = Some p"
    "dict_get (st_items s) p = Some q" "mi_tenant_id q = mi_tenant_id item" "mi_id q = p"
    "st_items s1 = dict_set (mi_id item) item (st_items s)"
    "latest_descendant (dict_values (st_items s1)) (mi_tenant_id item) q = item" by metis
  have ne: "p \<noteq> mi_id item" using w(2) assms(2) by auto
  then have "get_item (mi_tenant_id item') p s1 = Some q"
    using w assms(6) by (simp add: get_item_Some)
  then show ?thesis
    using w ne assms(3,5,6,7) by (simp add: supersede_if_current_def)
qed

definition cas_store :: store where
  "cas_store = snd (retain (sample_item 1 7 8 (lit ''tea'')) (sample_event 21 7 8) None None empty_store)"

lemma empty_ledger_ok: "ledger_ok empty_store"
  by (simp add: ledger_ok_def items_ok_def lineage_ok_def table_ok_def idem_ok_def empty_store_def)

lemma cas_store_ok: "ledger_ok cas_store"
  unfolding cas_store_def
  by (rule ledger_ok_retain [OF empty_ledger_ok]) (simp_all add: empty_store_def sample_item_def)

definition cas_written :: store where
  "cas_written = snd (supersede_if_current
     (sample_revision 2 (sample_item 1 7 8 (lit ''tea'')) (lit ''coffee'')) (sample_event 22 7 8) 1
     None None cas_store)"

theorem cas_admits_one_writer_witness:
  "supersede_if_current (sample_revision 3 (sample_item 1 7 8 (lit ''tea'')) (lit ''water''))
     (sample_event 23 7 8) 1 None None cas_written
   = (Inl (MemoryRevisionConflictError 1 1 (Some 2)), cas_written)"
proof -
  let ?a = "sample_revision 2 (sample_item 1 7 8 (lit ''tea'')) (lit ''coffee'')"
  let ?b = "sample_revision 3 (sample_item 1 7 8 (lit ''tea'')) (lit ''water'')"
  have "fst (supersede_if_current ?a (sample_event 22 7 8) 1 None None cas_store) = Inr (?a, True)"
    by code_simp
  then have w: "supersede_if_current ?a (sample_event 22 7 8) 1 None None cas_store
      = (Inr (?a, True), cas_written)"
    by (simp add: cas_written_def prod_eq_iff)
  have "dict_get (st_items cas_store) (mi_id ?a) = None" by code_simp
  from cas_admits_one_writer [OF cas_store_ok this _ w, of ?b None "sample_event 23 7 8" None]
  show ?thesis by (simp add: sample_revision_def sample_item_def)
qed

text \<open>
  (unlisted): A successful revision moves the recallable head: the parent stops being recallable, and the
  replacement is recallable unless its own status is a tombstone.
\<close>

theorem supersede_moves_head:
  assumes "ledger_ok s" and "dict_get (st_items s) (mi_id item) = None"
    and "mi_revision item = expected + 1"
    and "supersede_if_current item event expected key audit s = (Inr (item, True), s1)"
  shows "\<not> is_recallable_head (mi_tenant_id item) (the (mi_supersedes_id item)) s1
    \<and> is_recallable_head (mi_tenant_id item) (mi_id item) s1
        = (mi_status item \<notin> {Rejected, Archived})"
proof -
  from written_head [OF assms] obtain p q where w: "mi_supersedes_id item = Some p"
    "st_items s1 = dict_set (mi_id item) item (st_items s)"
    "\<And>i c. dict_get (st_items s1) i = Some c \<Longrightarrow> mi_supersedes_id c \<noteq> Some (mi_id item)" by metis
  have ok1: "dict_ok (st_items s1)"
    using assms(1) w(2) by (simp add: ledger_ok_def items_ok_def table_ok_def)
  have "item \<in> set (dict_values (st_items s1))"
    unfolding w(2) by (rule dict_get_values [of _ "mi_id item"]) simp
  then have "\<not> is_recallable_head (mi_tenant_id item) p s1"
    using w(1) by (auto simp: is_recallable_head_def list_ex_iff split: option.splits)
  moreover have "\<not> list_ex (\<lambda>c. mi_tenant_id c = mi_tenant_id item \<and> mi_supersedes_id c = Some (mi_id item))
      (dict_values (st_items s1))"
    using dict_values_get [OF ok1] w(3) unfolding list_ex_iff by blast
  moreover have "get_item (mi_tenant_id item) (mi_id item) s1 = Some item"
    by (simp add: get_item_Some w(2))
  ultimately show ?thesis using w(1) by (simp add: is_recallable_head_def)
qed

theorem supersede_moves_head_witness:
  "\<not> is_recallable_head 7 1 cas_written \<and> is_recallable_head 7 2 cas_written"
proof -
  let ?a = "sample_revision 2 (sample_item 1 7 8 (lit ''tea'')) (lit ''coffee'')"
  have "fst (supersede_if_current ?a (sample_event 22 7 8) 1 None None cas_store) = Inr (?a, True)"
    by code_simp
  then have w: "supersede_if_current ?a (sample_event 22 7 8) 1 None None cas_store
      = (Inr (?a, True), cas_written)"
    by (simp add: cas_written_def prod_eq_iff)
  have "dict_get (st_items cas_store) (mi_id ?a) = None" by code_simp
  from supersede_moves_head [OF cas_store_ok this _ w] show ?thesis
    by (simp add: sample_revision_def sample_item_def)
qed

text \<open>
  (unlisted): Retaining the same key again, in the same tenant and workspace, returns the row of the first
  call whatever the new row, event or audit row are, and leaves the store as it was.
\<close>

theorem retain_retry_returns_first:
  assumes "items_ok s" and "dict_get (st_items s) (mi_id item) = None"
    and "retain item event (Some k) audit s = (Inr (stored, created), s1)"
    and "mi_tenant_id item' = mi_tenant_id item" and "mi_workspace_id item' = mi_workspace_id item"
  shows "retain item' event' (Some k) audit' s1 = (Inr (stored, False), s1)"
  using items.retry_returns_first [of s item k "(event, audit)" stored created s1 item' "(event', audit')"]
    assms by simp

theorem retain_retry_returns_first_witness:
  "retain (sample_item 5 7 8 (lit ''milk'')) (sample_event 25 7 8) (Some (lit ''k'')) None
     (snd (retain (sample_item 1 7 8 (lit ''tea'')) (sample_event 21 7 8) (Some (lit ''k'')) None empty_store))
   = (Inr (sample_item 1 7 8 (lit ''tea''), False),
      snd (retain (sample_item 1 7 8 (lit ''tea'')) (sample_event 21 7 8) (Some (lit ''k'')) None empty_store))"
proof (rule retain_retry_returns_first [where s = empty_store and item = "sample_item 1 7 8 (lit ''tea'')"
      and event = "sample_event 21 7 8" and audit = None and created = True])
  have "fst (retain (sample_item 1 7 8 (lit ''tea'')) (sample_event 21 7 8) (Some (lit ''k'')) None empty_store)
      = Inr (sample_item 1 7 8 (lit ''tea''), True)" by code_simp
  then show "retain (sample_item 1 7 8 (lit ''tea'')) (sample_event 21 7 8) (Some (lit ''k'')) None empty_store
      = (Inr (sample_item 1 7 8 (lit ''tea''), True),
         snd (retain (sample_item 1 7 8 (lit ''tea'')) (sample_event 21 7 8) (Some (lit ''k'')) None empty_store))"
    by (simp add: prod_eq_iff)
qed (use empty_ledger_ok in \<open>simp_all add: ledger_ok_def empty_store_def sample_item_def\<close>)

lemma latest_descendant_chain:
  "(\<lambda>a b. b \<in> set rows \<and> revises t a b)\<^sup>*\<^sup>* h (latest_descendant rows t h)"
proof (induction rows t h rule: latest_descendant.induct)
  case (1 rows t h)
  then show ?case
    using find_revises [of t h rows]
    by (subst latest_descendant.simps)
      (auto split: option.splits intro: converse_rtranclp_into_rtranclp)
qed

text \<open>
  C4: \<open>_latest_descendant\<close> of a stored item ends at a stored row of the same tenant that is reached
  through revisions only and that no row of the ledger supersedes.
\<close>

theorem latest_descendant_is_head:
  assumes "ledger_ok s" and "get_item t i s = Some h"
    and "d = latest_descendant (dict_values (st_items s)) t h"
  shows "get_item t (mi_id d) s = Some d
    \<and> (\<lambda>a b. b \<in> set (dict_values (st_items s)) \<and> revises t a b)\<^sup>*\<^sup>* h d
    \<and> mi_revision h \<le> mi_revision d
    \<and> (\<forall>j c. dict_get (st_items s) j = Some c \<longrightarrow> mi_supersedes_id c \<noteq> Some (mi_id d))"
proof -
  have ok: "items_ok s" using assms(1) by (simp add: ledger_ok_def)
  have h: "dict_get (st_items s) i = Some h" "mi_tenant_id h = t"
    using assms(2) by (simp_all add: get_item_Some)
  have "d \<in> set (dict_values (st_items s))"
    using latest_descendant_mem [of "dict_values (st_items s)" t h] dict_get_values [OF h(1)]
    unfolding assms(3) by (metis insertE)
  then have d: "dict_get (st_items s) (mi_id d) = Some d" using items_row_iff [OF ok] by simp
  have t: "mi_tenant_id d = t" unfolding assms(3) by (rule latest_descendant_tenant [OF h(2)])
  have stop: "find (revises (mi_tenant_id d) d) (dict_values (st_items s)) = None"
    unfolding t unfolding assms(3) by (rule latest_descendant_stop)
  have "mi_supersedes_id c \<noteq> Some (mi_id d)" if "dict_get (st_items s) j = Some c" for j c
    by (rule no_reviser_no_child [OF assms(1) d stop that])
  moreover have "get_item t (mi_id d) s = Some d" using d t by (simp add: get_item_Some)
  ultimately show ?thesis
    using latest_descendant_chain [of "dict_values (st_items s)" t h]
      latest_descendant_revision [of h "dict_values (st_items s)" t] assms(3) by blast
qed

lemma cas_written_ok: "ledger_ok cas_written"
  unfolding cas_written_def
  by (rule ledger_ok_supersede [OF cas_store_ok])
    (code_simp, simp add: sample_revision_def sample_item_def)

theorem latest_descendant_is_head_witness:
  "mi_supersedes_id (sample_item 1 7 8 (lit ''tea'')) \<noteq> Some 2
   \<and> get_item 7 2 cas_written = Some (sample_revision 2 (sample_item 1 7 8 (lit ''tea'')) (lit ''coffee''))"
proof -
  let ?h = "sample_item 1 7 8 (lit ''tea'')"
  let ?d = "sample_revision 2 ?h (lit ''coffee'')"
  have h: "get_item 7 1 cas_written = Some ?h" by code_simp
  have d: "?d = latest_descendant (dict_values (st_items cas_written)) 7 ?h" by code_simp
  from latest_descendant_is_head [OF cas_written_ok h d] h show ?thesis
    unfolding get_item_Some by (auto simp: sample_revision_def)
qed

lemma lexical_overlap_unit: "unit_interval (lexical_overlap q i)"
proof -
  have "length (filter (\<lambda>t. t \<in> set i) q) \<le> length q" by simp
  then have "real (length (filter (\<lambda>t. t \<in> set i) q)) \<le> real (max 1 (length q))" by linarith
  then show ?thesis by (simp add: unit_interval_def lexical_overlap_def)
qed

lemma list_items_unpaged:
  "list_items t w layers st l None 0 s =
    sort_key (\<lambda>item. (mi_created_at item, mi_id item))
      (filter (\<lambda>item. mi_tenant_id item = t \<and> mi_workspace_id item = w
            \<and> (layers = [] \<or> mi_layer item \<in> set layers)
            \<and> (case st of None \<Rightarrow> True | Some x \<Rightarrow> mi_status item = x)
            \<and> (case given l of None \<Rightarrow> True | Some x \<Rightarrow> x \<in> set (mi_labels item)))
          (dict_values (st_items s)))"
  by (simp add: list_items_def py_slice_None)

text \<open>
  (unlisted): Lexical recall never crosses a boundary: every candidate is a stored, recallable head of the
  query's tenant and workspace, a private item only reaches its agent and a thread item its thread,
  and its lexical and entity signals lie between 0 and 1.
\<close>

theorem search_isolated:
  assumes "items_ok s" and "c \<in> set (search q s)"
  shows "mi_tenant_id (ca_item c) = rq_tenant_id q \<and> mi_workspace_id (ca_item c) = rq_workspace_id q
    \<and> is_recallable_head (rq_tenant_id q) (mi_id (ca_item c)) s
    \<and> get_item (rq_tenant_id q) (mi_id (ca_item c)) s = Some (ca_item c)
    \<and> (mi_scope (ca_item c) = Private \<longrightarrow> mi_agent_id (ca_item c) = rq_agent_id q)
    \<and> (mi_scope (ca_item c) = Thread \<longrightarrow> mi_thread_id (ca_item c) = rq_thread_id q)
    \<and> set (rq_labels q) \<subseteq> set (mi_labels (ca_item c))
    \<and> unit_interval (ca_lexical c) \<and> ca_entity c = ca_lexical c"
proof -
  from assms(2) obtain item where i: "c = lexical_candidate item (lexical_overlap (terms (rq_text q)) (terms (mi_text item)))"
    "item \<in> set (dict_values (st_items s))" "mi_tenant_id item = rq_tenant_id q"
    "mi_workspace_id item = rq_workspace_id q" "is_recallable_head (rq_tenant_id q) (mi_id item) s"
    "visible_to q item"
    by (auto simp: search_def list_items_unpaged Let_def)
  then have "get_item (rq_tenant_id q) (mi_id item) s = Some item"
    using items_row_iff [OF assms(1)] by (simp add: get_item_Some)
  with i show ?thesis
    by (auto simp: lexical_candidate_def visible_to_def lexical_overlap_unit)
qed

theorem search_isolated_witness:
  "let c = lexical_candidate (sample_revision 2 (sample_item 1 7 8 (lit ''tea'')) (lit ''coffee'')) 1
   in c \<in> set (search (sample_query 7 8 (lit ''Coffee'')) cas_written)
      \<and> is_recallable_head 7 (mi_id (ca_item c)) cas_written"
proof -
  let ?c = "lexical_candidate (sample_revision 2 (sample_item 1 7 8 (lit ''tea'')) (lit ''coffee'')) 1"
  have m: "?c \<in> set (search (sample_query 7 8 (lit ''Coffee'')) cas_written)" by code_simp
  have "items_ok cas_written" using cas_written_ok by (simp add: ledger_ok_def)
  from search_isolated [OF this m] m show ?thesis by (simp add: sample_query_def)
qed

end
