(* ===== verification/Paging.thy ===== *)
theory Paging
  imports Prelude
begin

text \<open>
  Keyset pagination. The turn, proposal and audit listings all return the newest rows first and
  take a cursor, the \<open>(created_at, id)\<close> pair of the last row the caller has seen. The interface
  says what such a listing computes; inside it, following the cursor is shown to walk through the
  full listing with no row skipped and none repeated.
\<close>

definition below :: "('r \<Rightarrow> 'k::linorder) \<Rightarrow> 'k option \<Rightarrow> 'r \<Rightarrow> bool" where
  "below key cursor r \<longleftrightarrow> (case cursor of None \<Rightarrow> True | Some c \<Rightarrow> key r < c)"

lemma strict_desc_filter:
  fixes key :: "'r \<Rightarrow> 'k::linorder"
  assumes "sorted_wrt (\<lambda>x y. key y < key x) ys" and "i < length ys"
  shows "filter (\<lambda>r. key r < key (ys ! i)) ys = drop (Suc i) ys"
  using assms
proof (induction ys arbitrary: i)
  case (Cons y ys)
  show ?case
  proof (cases i)
    case 0
    have "filter (\<lambda>r. key r < key y) ys = ys"
      using Cons.prems(1) by (intro filter_True) auto
    with 0 show ?thesis by simp
  next
    case (Suc j)
    then have "key (ys ! j) < key y" using Cons.prems by (simp add: nth_mem)
    with Suc Cons.IH [of j] Cons.prems show ?thesis by (auto dest: order.asym)
  qed
qed simp

lemma sort_key_desc_strict:
  fixes key :: "'r \<Rightarrow> 'k::linorder"
  assumes "distinct (map key rows)"
  shows "sorted_wrt (\<lambda>x y. key y < key x) (sort_key_desc key rows)"
proof -
  have "sorted_wrt (\<lambda>x y. key x < key y) (sort_key key (rev rows))"
    using assms by (intro sorted_sort_key_strict) (auto simp: distinct_map)
  then show ?thesis by (simp add: sort_key_desc_def sorted_wrt_rev)
qed

lemma filter_sort_key_desc: "filter P (sort_key_desc key rows) = sort_key_desc key (filter P rows)"
  by (simp add: sort_key_desc_def rev_filter [symmetric] filter_sort)

locale keyset_listing =
  fixes rows :: "'s \<Rightarrow> 'q \<Rightarrow> 'r list"
    and key :: "'r \<Rightarrow> 'k::linorder"
    and page :: "'s \<Rightarrow> 'q \<Rightarrow> 'k option \<Rightarrow> int \<Rightarrow> 'r list"
    and ok :: "'s \<Rightarrow> bool"
  assumes page_rows: "page s q cursor n =
      py_take n (sort_key_desc key (filter (below key cursor) (rows s q)))"
    and distinct_keys: "ok s \<Longrightarrow> distinct (map key (rows s q))"
begin

definition full :: "'s \<Rightarrow> 'q \<Rightarrow> 'r list" where
  "full s q = sort_key_desc key (rows s q)"

lemma full_strict: "ok s \<Longrightarrow> sorted_wrt (\<lambda>x y. key y < key x) (full s q)"
  by (simp add: full_def sort_key_desc_strict distinct_keys)

lemma set_full: "set (full s q) = set (rows s q)"
  by (simp add: full_def)

lemma first_page: "0 \<le> n \<Longrightarrow> page s q None n = take (nat n) (full s q)"
  by (simp add: page_rows below_def full_def)

lemma next_page:
  assumes "ok s" and "0 \<le> n" and "i < length (full s q)"
  shows "page s q (Some (key (full s q ! i))) n = take (nat n) (drop (Suc i) (full s q))"
proof -
  have "filter (below key (Some (key (full s q ! i)))) (full s q) = drop (Suc i) (full s q)"
    using strict_desc_filter [OF full_strict [OF assms(1)] assms(3)]
    by (simp add: below_def [abs_def])
  then have "sort_key_desc key (filter (below key (Some (key (full s q ! i)))) (rows s q))
      = drop (Suc i) (full s q)"
    by (simp add: full_def filter_sort_key_desc)
  then show ?thesis
    using assms(2) by (simp add: page_rows)
qed

text \<open>A full first page followed by the page after its last row is one longer page.\<close>

lemma pages_continue:
  assumes "ok s" and "0 \<le> m" and "p = page s q None n" and "0 \<le> n" and "p \<noteq> []"
  shows "p @ page s q (Some (key (last p))) m = take (length p + nat m) (full s q)"
proof -
  let ?i = "length p - 1"
  have p: "p = take (nat n) (full s q)"
    using assms by (simp add: first_page)
  then have len: "length p \<le> length (full s q)" and "0 < length p"
    using assms(5) by auto
  then have i: "?i < length (full s q)" and si: "Suc ?i = length p" by linarith+
  have "last p = full s q ! ?i"
    using p assms(5) by (metis last_conv_nth nth_take length_greater_0_conv diff_less zero_less_one
        length_take min_less_iff_conj)
  then have "page s q (Some (key (last p))) m = take (nat m) (drop (length p) (full s q))"
    using next_page [OF assms(1,2) i] si by simp
  moreover have "p = take (length p) (full s q)"
    using p by (metis length_take take_take min.idem min.commute take_all_iff nle_le)
  ultimately show ?thesis
    by (metis take_add)
qed

lemma page_no_repeat:
  assumes "ok s" and "p = page s q None n" and "0 \<le> n" and "0 \<le> m" and "p \<noteq> []"
  shows "set p \<inter> set (page s q (Some (key (last p))) m) = {}"
proof -
  have "distinct (full s q)"
    using full_strict [OF assms(1)] by (auto simp: distinct_conv_nth sorted_wrt_iff_nth_less)
      (metis less_irrefl nat_neq_iff)
  then have "distinct (p @ page s q (Some (key (last p))) m)"
    using pages_continue [OF assms(1,4,2,3,5)] by simp
  then show ?thesis by simp
qed

end

end
