(* ===== verification/StoreTurns.thy ===== *)
theory StoreTurns
  imports StoreItems Paging
begin

text \<open>
  The conversation staging table of \<open>InMemoryMemoryStore\<close>: idempotent append, the cursor listing,
  and the purge that replaces transcript text while the row, its identity and its roles stay.
\<close>

section \<open>Operations\<close>

definition append_turn ::
  "conversation_turn \<Rightarrow> str option \<Rightarrow> audit_event option \<Rightarrow> integration_event option \<Rightarrow> store
    \<Rightarrow> (conversation_turn \<times> bool) res \<times> store"
where
  "append_turn turn key audit event s =
    (case idempotent_insert ct_id (ct_tenant_id turn)
            (scope_idempotency_key (ct_workspace_id turn) key) turn
            (st_turns s, st_turn_idempotency s) of
       (Inr (q, True), turns, idem) \<Rightarrow>
         (Inr (q, True),
          (case event of None \<Rightarrow> id | Some e \<Rightarrow> publish e)
            (with_audit audit (s\<lparr>st_turns := turns, st_turn_idempotency := idem\<rparr>)))
     | (r, turns, idem) \<Rightarrow> (r, s\<lparr>st_turns := turns, st_turn_idempotency := idem\<rparr>))"

definition get_turn :: "uuid \<Rightarrow> uuid \<Rightarrow> store \<Rightarrow> conversation_turn option" where
  "get_turn tenant_id turn_id s =
    (case dict_get (st_turns s) turn_id of
       None \<Rightarrow> None
     | Some turn \<Rightarrow> if ct_tenant_id turn = tenant_id then Some turn else None)"

text \<open>
  The cursor of the turn and audit listings: strictly older rows, or rows of the same instant whose
  printed identity is smaller when the caller also sends the identity it stopped at.
\<close>

definition before_cursor :: "datetime \<Rightarrow> uuid \<Rightarrow> datetime option \<Rightarrow> uuid option \<Rightarrow> bool" where
  "before_cursor created_at ident before_created_at before_id =
    (case before_created_at of
       None \<Rightarrow> True
     | Some b \<Rightarrow> created_at < b
         \<or> (case before_id of
              None \<Rightarrow> False
            | Some i \<Rightarrow> created_at = b \<and> uuid_str ident < uuid_str i))"

definition list_turns ::
  "uuid \<Rightarrow> uuid \<Rightarrow> uuid option \<Rightarrow> str option \<Rightarrow> datetime option \<Rightarrow> uuid option \<Rightarrow> int
    \<Rightarrow> store \<Rightarrow> conversation_turn list"
where
  "list_turns tenant_id workspace_id thread_id namespace before_created_at before_turn_id limit s =
    (let rows = filter (\<lambda>turn. ct_tenant_id turn = tenant_id
            \<and> ct_workspace_id turn = workspace_id
            \<and> (case thread_id of None \<Rightarrow> True | Some t \<Rightarrow> ct_thread_id turn = t)
            \<and> (case namespace of None \<Rightarrow> True | Some n \<Rightarrow> ct_namespace turn = n)
            \<and> before_cursor (ct_created_at turn) (ct_id turn) before_created_at before_turn_id)
          (dict_values (st_turns s))
     in py_take limit (sort_key_desc (\<lambda>turn. (ct_created_at turn, ct_id turn)) rows))"

definition retention_mark :: "str \<Rightarrow> metadata \<Rightarrow> metadata" where
  "retention_mark reason d = dict_set (lit ''retention'') (PDict [(lit ''raw_content'', PStr reason)]) d"

definition purged_message :: "str \<Rightarrow> conversation_message \<Rightarrow> conversation_message" where
  "purged_message reason message =
    \<lparr>cm_role = cm_role message, cm_content = purged_conversation_content, cm_name = cm_name message,
     cm_metadata = retention_mark reason (cm_metadata message)\<rparr>"

definition purged_turn :: "str \<Rightarrow> conversation_turn \<Rightarrow> conversation_turn" where
  "purged_turn reason turn =
    turn\<lparr>ct_messages := map (purged_message reason) (ct_messages turn),
         ct_metadata := retention_mark reason (ct_metadata turn)\<rparr>"

definition purge_turn_with :: "uuid \<Rightarrow> uuid \<Rightarrow> str \<Rightarrow> store \<Rightarrow> bool res \<times> store" where
  "purge_turn_with tenant_id turn_id reason s =
    (case dict_get (st_turns s) turn_id of
       None \<Rightarrow> (Inr False, s)
     | Some turn \<Rightarrow>
         if ct_tenant_id turn \<noteq> tenant_id then (Inr False, s)
         else (case res_bind (res_map conversation_message_post_init
                        (map (purged_message reason) (ct_messages turn)))
                      (\<lambda>_. conversation_turn_post_init (purged_turn reason turn)) of
                 Inl e \<Rightarrow> (Inl e, s)
               | Inr t \<Rightarrow> (Inr True, s\<lparr>st_turns := dict_set turn_id t (st_turns s)\<rparr>)))"

definition purge_turn_content :: "uuid \<Rightarrow> uuid \<Rightarrow> store \<Rightarrow> bool res \<times> store" where
  "purge_turn_content tenant_id turn_id s =
    purge_turn_with tenant_id turn_id (lit ''purged_after_curation'') s"

definition purge_due :: "uuid \<Rightarrow> uuid \<Rightarrow> datetime \<Rightarrow> conversation_turn \<Rightarrow> bool" where
  "purge_due tenant_id workspace_id now turn \<longleftrightarrow>
     ct_tenant_id turn = tenant_id \<and> ct_workspace_id turn = workspace_id
   \<and> (case ct_expires_at turn of None \<Rightarrow> False | Some e \<Rightarrow> e \<le> now)
   \<and> list_ex (\<lambda>message. cm_content message \<noteq> purged_conversation_content) (ct_messages turn)"

definition due_turns :: "uuid \<Rightarrow> uuid \<Rightarrow> datetime \<Rightarrow> store \<Rightarrow> conversation_turn list" where
  "due_turns tenant_id workspace_id now s =
    filter (purge_due tenant_id workspace_id now)
      (sort_key (\<lambda>item. (case ct_expires_at item of None \<Rightarrow> now | Some e \<Rightarrow> e, ct_id item))
        (dict_values (st_turns s)))"

fun purge_each :: "uuid \<Rightarrow> uuid list \<Rightarrow> store \<Rightarrow> unit res \<times> store" where
  "purge_each tenant_id [] s = (Inr (), s)"
| "purge_each tenant_id (i # ids) s =
    (case purge_turn_with tenant_id i (lit ''purged_after_expiry'') s of
       (Inl e, s1) \<Rightarrow> (Inl e, s1)
     | (Inr _, s1) \<Rightarrow> purge_each tenant_id ids s1)"

definition purge_expired_turns ::
  "uuid \<Rightarrow> uuid \<Rightarrow> datetime \<Rightarrow> int \<Rightarrow> store \<Rightarrow> uuid list res \<times> store"
where
  "purge_expired_turns tenant_id workspace_id now limit s =
    (let turn_ids = py_take limit (map ct_id (due_turns tenant_id workspace_id now s)) in
     case purge_each tenant_id turn_ids s of
       (Inl e, s1) \<Rightarrow> (Inl e, s1)
     | (Inr _, s1) \<Rightarrow> (Inr turn_ids, s1))"

section \<open>The table\<close>

definition turns_ok :: "store \<Rightarrow> bool" where
  "turns_ok s \<longleftrightarrow> table_ok ct_id (st_turns s)
     \<and> idem_ok ct_tenant_id (st_turn_idempotency s) (st_turns s)
     \<and> (\<forall>i t. dict_get (st_turns s) i = Some t \<longrightarrow> valid_turn t)"

lemma turns_ok_cong:
  "st_turns s' = st_turns s \<Longrightarrow> st_turn_idempotency s' = st_turn_idempotency s \<Longrightarrow>
    turns_ok s' = turns_ok s"
  by (simp add: turns_ok_def)

lemma append_turn_replay:
  assumes "remembered (st_turn_idempotency s) (ct_tenant_id turn)
      (scope_idempotency_key (ct_workspace_id turn) key) = Some i"
    and "dict_get (st_turns s) i = Some q"
  shows "append_turn turn key audit event s = (Inr (q, False), s)"
  using assms by (simp add: append_turn_def idempotent_insert_def)

lemma append_turn_new:
  assumes "remembered (st_turn_idempotency s) (ct_tenant_id turn)
      (scope_idempotency_key (ct_workspace_id turn) key) = None"
  shows "fst (append_turn turn key audit event s) = Inr (turn, True)"
    and "st_turns (snd (append_turn turn key audit event s)) = dict_set (ct_id turn) turn (st_turns s)"
    and "st_turn_idempotency (snd (append_turn turn key audit event s))
      = remember (ct_tenant_id turn) (scope_idempotency_key (ct_workspace_id turn) key) (ct_id turn)
          (st_turn_idempotency s)"
  using assms by (simp_all add: append_turn_def idempotent_insert_def split: option.splits)

definition table_turns_ok :: "store \<Rightarrow> bool" where
  "table_turns_ok s \<longleftrightarrow> table_ok ct_id (st_turns s)
     \<and> idem_ok ct_tenant_id (st_turn_idempotency s) (st_turns s)"

interpretation turns: idempotent_append
  "\<lambda>r k x. append_turn r k (fst x) (snd x)" ct_id ct_tenant_id ct_workspace_id
  "\<lambda>s. dict_get (st_turns s)" "\<lambda>s. remembered (st_turn_idempotency s)" table_turns_ok
proof (unfold_locales, goal_cases)
  case (1 s r k i q x)
  then show ?case by (simp add: append_turn_replay)
next
  case (2 s r k x)
  then show ?case by (simp add: append_turn_new)
next
  case (3 s r k x)
  then show ?case by (auto simp: append_turn_new)
next
  case (4 s r k x t sk)
  then show ?case by (simp add: append_turn_new remembered_scoped)
next
  case (5 s t sk i)
  then show ?case by (auto simp: table_turns_ok_def dest: idem_ok_get)
next
  case (6 s r k x)
  show ?case
  proof (cases "remembered (st_turn_idempotency s) (ct_tenant_id r) (scope_idempotency_key (ct_workspace_id r) k)")
    case None
    with 6 show ?thesis
      by (auto simp: table_turns_ok_def append_turn_new
          intro: table_ok_set idem_ok_new)
  next
    case (Some i)
    then obtain q where "dict_get (st_turns s) i = Some q"
      using 6 by (auto simp: table_turns_ok_def dest: idem_ok_get)
    with Some 6 show ?thesis by (simp add: append_turn_replay)
  qed
qed

lemma turns_ok_table: "turns_ok s \<Longrightarrow> table_turns_ok s"
  by (simp add: turns_ok_def table_turns_ok_def)

lemma turns_ok_append [wf_intros]:
  assumes "turns_ok s" and "dict_get (st_turns s) (ct_id turn) = None" and "valid_turn turn"
  shows "turns_ok (snd (append_turn turn key audit event s))"
proof (cases "remembered (st_turn_idempotency s) (ct_tenant_id turn)
    (scope_idempotency_key (ct_workspace_id turn) key)")
  case None
  with assms show ?thesis
    by (auto simp: turns_ok_def append_turn_new intro: table_ok_set idem_ok_new)
next
  case (Some i)
  then obtain q where "dict_get (st_turns s) i = Some q"
    using assms by (auto simp: turns_ok_def dest: idem_ok_get)
  with Some assms show ?thesis by (simp add: append_turn_replay)
qed

section \<open>The cursor listing\<close>

lemma before_cursor_pair:
  "before_cursor c i (map_option fst cursor) (map_option snd cursor)
    = (case cursor of None \<Rightarrow> True | Some p \<Rightarrow> (c, i) < p)"
  by (cases cursor) (auto simp: before_cursor_def uuid_str_less less_prod_def)

type_synonym turn_filter = "uuid \<times> uuid \<times> uuid option \<times> str option"

definition turn_rows :: "store \<Rightarrow> turn_filter \<Rightarrow> conversation_turn list" where
  "turn_rows s q = (case q of (t, w, th, ns) \<Rightarrow>
     filter (\<lambda>turn. ct_tenant_id turn = t \<and> ct_workspace_id turn = w
            \<and> (case th of None \<Rightarrow> True | Some x \<Rightarrow> ct_thread_id turn = x)
            \<and> (case ns of None \<Rightarrow> True | Some n \<Rightarrow> ct_namespace turn = n))
       (dict_values (st_turns s)))"

definition turn_page ::
  "store \<Rightarrow> turn_filter \<Rightarrow> (datetime \<times> uuid) option \<Rightarrow> int \<Rightarrow> conversation_turn list"
where
  "turn_page s q cursor n = (case q of (t, w, th, ns) \<Rightarrow>
     list_turns t w th ns (map_option fst cursor) (map_option snd cursor) n s)"

lemma distinct_map_filter_key:
  assumes "distinct (map ident rows)"
  shows "distinct (map (\<lambda>r. (f r, ident r)) (filter P rows))"
  using assms by (induction rows) auto

interpretation turn_listing: keyset_listing turn_rows "\<lambda>turn. (ct_created_at turn, ct_id turn)"
  turn_page table_turns_ok
proof (unfold_locales, goal_cases)
  case (1 s q cursor n)
  obtain t w th ns where "q = (t, w, th, ns)" by (cases q)
  then show ?case
    by (simp add: turn_page_def turn_rows_def list_turns_def before_cursor_pair below_def
        conj_ac Let_def cong: filter_cong)
next
  case (2 s q)
  obtain t w th ns where "q = (t, w, th, ns)" by (cases q)
  with 2 show ?case unfolding turn_rows_def
    by (simp only: prod.case)
      (rule distinct_map_filter_key, auto simp only: table_turns_ok_def intro: table_ok_distinct)
qed

text \<open>
  (unlisted): Following the cursor walks through the conversation: a non-empty first page followed by the
  page before its last row is one longer prefix of the complete newest-first listing, so no turn
  is skipped and none is repeated.
\<close>

theorem turn_pages_continue:
  assumes "table_turns_ok s" and "0 \<le> n" and "0 \<le> m"
    and "p = list_turns t w th ns None None n s" and "p \<noteq> []"
  shows "p @ list_turns t w th ns (Some (ct_created_at (last p))) (Some (ct_id (last p))) m s
    = take (length p + nat m)
        (sort_key_desc (\<lambda>turn. (ct_created_at turn, ct_id turn)) (turn_rows s (t, w, th, ns)))"
  using turn_listing.pages_continue [of s m p "(t, w, th, ns)" n] assms
  by (simp add: turn_page_def turn_listing.full_def)

definition two_turns :: store where
  "two_turns = snd (append_turn (sample_turn 2 7 8 50 (Some 90)) None None None
     (snd (append_turn (sample_turn 1 7 8 40 (Some 80)) (Some (lit ''k'')) None None empty_store)))"

lemma empty_turns_ok: "turns_ok empty_store"
  by (simp add: turns_ok_def table_ok_def idem_ok_def empty_store_def)

lemma valid_sample_turn: "moment < e \<Longrightarrow> valid_turn (sample_turn i t w moment (Some e))"
  by (simp add: valid_turn_def sample_turn_def valid_message_def) code_simp

lemma two_turns_ok: "turns_ok two_turns"
  unfolding two_turns_def
  by (intro turns_ok_append empty_turns_ok valid_sample_turn) (code_simp | simp)+

theorem turn_pages_continue_witness:
  "map ct_id (list_turns 7 8 None None None None 1 two_turns
     @ list_turns 7 8 None None (Some 50) (Some 2) 1 two_turns) = [2, 1]"
proof -
  have p: "list_turns 7 8 None None None None 1 two_turns = [sample_turn 2 7 8 50 (Some 90)]"
    by code_simp
  have "map ct_id (take 2 (sort_key_desc (\<lambda>turn. (ct_created_at turn, ct_id turn))
      (turn_rows two_turns (7, 8, None, None)))) = [2, 1]" by code_simp
  with turn_pages_continue [OF turns_ok_table [OF two_turns_ok] _ _ p [symmetric], of 1] p
  show ?thesis by (simp add: sample_turn_def numeral_2_eq_2)
qed

section \<open>Purging\<close>

lemma purged_message_valid: "valid_message m \<Longrightarrow> valid_message (purged_message reason m)"
  by (simp add: valid_message_def purged_message_def) code_simp

lemma purged_turn_valid: "valid_turn t \<Longrightarrow> valid_turn (purged_turn reason t)"
  by (auto simp: valid_turn_def purged_turn_def list_all_iff purged_message_valid)

lemma purged_turn_frame [simp]:
  "ct_id (purged_turn reason t) = ct_id t" "ct_tenant_id (purged_turn reason t) = ct_tenant_id t"
  "ct_workspace_id (purged_turn reason t) = ct_workspace_id t"
  "ct_thread_id (purged_turn reason t) = ct_thread_id t"
  "ct_created_at (purged_turn reason t) = ct_created_at t"
  "ct_expires_at (purged_turn reason t) = ct_expires_at t"
  by (simp_all add: purged_turn_def)

lemma res_map_valid_messages:
  "(\<And>m. m \<in> set ms \<Longrightarrow> valid_message m) \<Longrightarrow> res_map conversation_message_post_init ms = Inr ms"
  by (induction ms) (simp_all add: conversation_message_post_init_Inr [THEN iffD2])

lemma purge_turn_with_hit:
  assumes "turns_ok s" and "dict_get (st_turns s) i = Some t" and "ct_tenant_id t = tenant"
  shows "purge_turn_with tenant i reason s
    = (Inr True, s\<lparr>st_turns := dict_set i (purged_turn reason t) (st_turns s)\<rparr>)"
proof -
  have v: "valid_turn t" using assms by (auto simp: turns_ok_def)
  have "res_map conversation_message_post_init (map (purged_message reason) (ct_messages t))
      = Inr (map (purged_message reason) (ct_messages t))"
    using v by (intro res_map_valid_messages) (auto simp: valid_turn_def list_all_iff purged_message_valid)
  moreover have "conversation_turn_post_init (purged_turn reason t) = Inr (purged_turn reason t)"
    using purged_turn_valid [OF v, of reason]
    by (simp add: conversation_turn_post_init_Inr valid_turn_def)
  ultimately show ?thesis using assms by (simp add: purge_turn_with_def)
qed

lemma turns_ok_purged:
  assumes "turns_ok s" and "dict_get (st_turns s) i = Some t"
  shows "turns_ok (s\<lparr>st_turns := dict_set i (purged_turn reason t) (st_turns s)\<rparr>)"
proof -
  have i: "ct_id t = i" using assms by (auto simp: turns_ok_def intro: table_ok_ident)
  have "table_ok ct_id (dict_set (ct_id (purged_turn reason t)) (purged_turn reason t) (st_turns s))"
    using assms by (intro table_ok_set) (simp add: turns_ok_def)
  moreover have "idem_ok ct_tenant_id (st_turn_idempotency s) (dict_set i (purged_turn reason t) (st_turns s))"
    using assms unfolding turns_ok_def idem_ok_def by (auto simp: purged_turn_def) (metis option.inject)+
  moreover have "valid_turn (purged_turn reason t)"
    using assms by (intro purged_turn_valid) (auto simp: turns_ok_def)
  ultimately show ?thesis using assms i by (auto simp: turns_ok_def)
qed

text \<open>
  (unlisted): Purging a stored turn replaces the text of every message and nothing that identifies the
  turn: identity, scope, thread, instants, roles and names stay, the reason is recorded, and every
  other turn is untouched. The constructor checks it runs again never fail.
\<close>

theorem purge_keeps_identity:
  assumes "turns_ok s" and "get_turn tenant i s = Some t"
  shows "\<exists>t'. fst (purge_turn_content tenant i s) = Inr True
    \<and> get_turn tenant i (snd (purge_turn_content tenant i s)) = Some t'
    \<and> (\<forall>m \<in> set (ct_messages t'). cm_content m = purged_conversation_content)
    \<and> map cm_role (ct_messages t') = map cm_role (ct_messages t)
    \<and> map cm_name (ct_messages t') = map cm_name (ct_messages t)
    \<and> dict_get (ct_metadata t') (lit ''retention'')
        = Some (PDict [(lit ''raw_content'', PStr (lit ''purged_after_curation''))])
    \<and> t'\<lparr>ct_messages := ct_messages t, ct_metadata := ct_metadata t\<rparr> = t
    \<and> (\<forall>j. j \<noteq> i \<longrightarrow> dict_get (st_turns (snd (purge_turn_content tenant i s))) j = dict_get (st_turns s) j)
    \<and> turns_ok (snd (purge_turn_content tenant i s))"
proof -
  have t: "dict_get (st_turns s) i = Some t" "ct_tenant_id t = tenant"
    using assms(2) by (auto simp: get_turn_def split: option.splits if_splits)
  let ?t = "purged_turn (lit ''purged_after_curation'') t"
  have step: "purge_turn_content tenant i s = (Inr True, s\<lparr>st_turns := dict_set i ?t (st_turns s)\<rparr>)"
    unfolding purge_turn_content_def using assms(1) t by (rule purge_turn_with_hit)
  show ?thesis
    using t turns_ok_purged [OF assms(1) t(1)]
    by (intro exI [of _ ?t])
      (auto simp: step get_turn_def purged_turn_def purged_message_def retention_mark_def comp_def)
qed

theorem purge_keeps_identity_witness:
  "\<exists>t'. get_turn 7 1 (snd (purge_turn_content 7 1 two_turns)) = Some t' \<and> ct_created_at t' = 40"
proof -
  have g: "get_turn 7 1 two_turns = Some (sample_turn 1 7 8 40 (Some 80))" by code_simp
  from purge_keeps_identity [OF two_turns_ok g] obtain t' where
    t: "get_turn 7 1 (snd (purge_turn_content 7 1 two_turns)) = Some t'"
    and eq: "t'\<lparr>ct_messages := ct_messages (sample_turn 1 7 8 40 (Some 80)),
       ct_metadata := ct_metadata (sample_turn 1 7 8 40 (Some 80))\<rparr> = sample_turn 1 7 8 40 (Some 80)"
    by blast
  from arg_cong [OF eq, of ct_created_at] have "ct_created_at t' = 40" by (simp add: sample_turn_def)
  with t show ?thesis by blast
qed

text \<open>What a sweep over a list of due rows does to the table.\<close>

definition sweep :: "uuid list \<Rightarrow> conversation_turn \<Rightarrow> conversation_turn" where
  "sweep ids t = (if ct_id t \<in> set ids then purged_turn (lit ''purged_after_expiry'') t else t)"

lemma turns_set_in_place:
  assumes "turns_ok s" and "dict_get (st_turns s) i = Some t"
  shows "dict_values (dict_set i (purged_turn r t) (st_turns s))
    = map (\<lambda>x. if ct_id x = i then purged_turn r x else x) (dict_values (st_turns s))"
proof -
  have ok: "dict_ok (st_turns s)" using assms by (simp add: turns_ok_def table_ok_def)
  have "(if k = i then purged_turn r t else v) = (if ct_id v = i then purged_turn r v else v)"
    if "(k, v) \<in> set (st_turns s)" for k v
  proof -
    have "dict_get (st_turns s) k = Some v" using that ok by (simp add: dict_get_set_mem)
    then show ?thesis using assms by (auto simp: turns_ok_def table_ok_def)
  qed
  then show ?thesis
    unfolding dict_set_in_place [OF ok assms(2)] by (auto simp: case_prod_unfold)
qed

lemma purge_each_sweeps:
  assumes "turns_ok s" and "distinct ids"
    and "\<And>i. i \<in> set ids \<Longrightarrow> \<exists>t. dict_get (st_turns s) i = Some t \<and> ct_tenant_id t = tenant"
  shows "\<exists>s'. purge_each tenant ids s = (Inr (), s') \<and> turns_ok s'
    \<and> dict_values (st_turns s') = map (sweep ids) (dict_values (st_turns s))
    \<and> st_items s' = st_items s \<and> st_events s' = st_events s"
  using assms
proof (induction ids arbitrary: s)
  case Nil
  then show ?case by (simp add: sweep_def)
next
  case (Cons i ids)
  let ?r = "lit ''purged_after_expiry''"
  obtain t where t: "dict_get (st_turns s) i = Some t" "ct_tenant_id t = tenant"
    using Cons.prems(3) by fastforce
  define s1 where "s1 = s\<lparr>st_turns := dict_set i (purged_turn ?r t) (st_turns s)\<rparr>"
  have step: "purge_turn_with tenant i ?r s = (Inr True, s1)"
    unfolding s1_def using Cons.prems(1) t by (rule purge_turn_with_hit)
  have ok1: "turns_ok s1" unfolding s1_def using Cons.prems(1) t(1) by (rule turns_ok_purged)
  have "\<exists>t. dict_get (st_turns s1) j = Some t \<and> ct_tenant_id t = tenant" if "j \<in> set ids" for j
    using Cons.prems(3) [of j] that t by (auto simp: s1_def)
  then obtain s' where s': "purge_each tenant ids s1 = (Inr (), s')" "turns_ok s'"
    "dict_values (st_turns s') = map (sweep ids) (dict_values (st_turns s1))"
    "st_items s' = st_items s1" "st_events s' = st_events s1"
    using Cons.IH [OF ok1] Cons.prems(2) by auto
  have "map (sweep ids) (dict_values (st_turns s1)) = map (sweep (i # ids)) (dict_values (st_turns s))"
    using turns_set_in_place [OF Cons.prems(1) t(1)] Cons.prems(2)
    by (auto simp: s1_def sweep_def)
  with s' step show ?case by (simp add: s1_def)
qed

lemma due_turns_sweep:
  assumes "dict_values (st_turns s') = map (sweep ids) (dict_values (st_turns s))"
  shows "due_turns t w now s' = filter (\<lambda>x. ct_id x \<notin> set ids) (due_turns t w now s)"
proof -
  let ?k = "\<lambda>item. (case ct_expires_at item of None \<Rightarrow> now | Some e \<Rightarrow> e, ct_id item)"
  have "?k (sweep ids x) = ?k x" for x by (simp add: sweep_def)
  then have "due_turns t w now s'
      = filter (purge_due t w now) (map (sweep ids) (sort_key ?k (dict_values (st_turns s))))"
    unfolding due_turns_def assms by (subst sort_key_map_commute) simp_all
  moreover have "purge_due t w now (sweep ids x) \<longleftrightarrow> purge_due t w now x \<and> ct_id x \<notin> set ids" for x
    by (auto simp: sweep_def purge_due_def purged_turn_def purged_message_def list_ex_iff)
  ultimately have "due_turns t w now s'
      = map (sweep ids) (filter (\<lambda>x. ct_id x \<notin> set ids) (due_turns t w now s))"
    by (simp add: filter_map comp_def due_turns_def conj_commute)
  also have "\<dots> = filter (\<lambda>x. ct_id x \<notin> set ids) (due_turns t w now s)"
    by (intro map_idI) (simp add: sweep_def)
  finally show ?thesis .
qed

text \<open>
  C3: One sweep of expired transcripts purges exactly the first \<open>limit\<close> due turns in expiry order
  and returns their identities; what is due afterwards is what the limit left out. So repeated
  sweeps finish, and one sweep whose limit covers the backlog leaves nothing due.
\<close>

theorem expiry_sweep_progress:
  assumes "turns_ok s" and "0 \<le> limit"
  shows "\<exists>s'. purge_expired_turns t w now limit s
      = (Inr (take (nat limit) (map ct_id (due_turns t w now s))), s')
    \<and> due_turns t w now s' = drop (nat limit) (due_turns t w now s)
    \<and> turns_ok s' \<and> st_items s' = st_items s \<and> st_events s' = st_events s"
proof -
  let ?due = "due_turns t w now s"
  let ?ids = "take (nat limit) (map ct_id ?due)"
  have tbl: "table_ok ct_id (st_turns s)" using assms by (simp add: turns_ok_def)
  have ids: "distinct (map ct_id (dict_values (st_turns s)))" by (rule table_ok_distinct [OF tbl])
  have "distinct (map ct_id (sort_key (\<lambda>item. (case ct_expires_at item of None \<Rightarrow> now | Some e \<Rightarrow> e, ct_id item))
      (dict_values (st_turns s))))"
    using ids unfolding distinct_map set_sort distinct_sort by simp
  then have d: "distinct (map ct_id ?due)" unfolding due_turns_def by (rule distinct_map_filter)
  have "\<exists>x. dict_get (st_turns s) i = Some x \<and> ct_tenant_id x = t" if i: "i \<in> set ?ids" for i
  proof -
    obtain x where x: "x \<in> set ?due" "ct_id x = i" using in_set_takeD [OF i] by auto
    then have "x \<in> set (dict_values (st_turns s))" "ct_tenant_id x = t"
      by (auto simp: due_turns_def purge_due_def)
    then show ?thesis using table_ok_values [OF tbl] x(2) by metis
  qed
  then obtain s' where s': "purge_each t ?ids s = (Inr (), s')" "turns_ok s'"
    "dict_values (st_turns s') = map (sweep ?ids) (dict_values (st_turns s))"
    "st_items s' = st_items s" "st_events s' = st_events s"
    using purge_each_sweeps [OF assms(1) distinct_take [OF d]] by blast
  have "due_turns t w now s' = drop (nat limit) ?due"
    using due_turns_sweep [OF s'(3)] filter_notin_take [OF d] by simp
  then show ?thesis using s' assms(2) by (simp add: purge_expired_turns_def)
qed

theorem expiry_sweep_progress_witness:
  "\<exists>s'. purge_expired_turns 7 8 100 1 two_turns = (Inr [1], s')
     \<and> map ct_id (due_turns 7 8 100 s') = [2]"
proof -
  have due: "map ct_id (due_turns 7 8 100 two_turns) = [1, 2]" by code_simp
  obtain s' where s': "purge_expired_turns 7 8 100 1 two_turns
      = (Inr (take (nat 1) (map ct_id (due_turns 7 8 100 two_turns))), s')"
    "due_turns 7 8 100 s' = drop (nat 1) (due_turns 7 8 100 two_turns)"
    using expiry_sweep_progress [OF two_turns_ok, of 1 7 8 100] by auto
  then have "map ct_id (due_turns 7 8 100 s') = drop 1 [1, 2]"
    using due by (simp add: drop_map [symmetric])
  with s' due show ?thesis by auto
qed

end
