(* ===== verification/StoreProposals.thy ===== *)
theory StoreProposals
  imports StoreTurns
begin

text \<open>
  The proposal table of \<open>InMemoryMemoryStore\<close>: idempotent append, review, the cursor listing, and
  the acceptance that turns a proposal into a memory row exactly once.
\<close>

section \<open>Operations\<close>

definition append_proposal ::
  "memory_proposal \<Rightarrow> str option \<Rightarrow> audit_event option \<Rightarrow> store
    \<Rightarrow> (memory_proposal \<times> bool) res \<times> store"
where
  "append_proposal proposal key audit s =
    (case idempotent_insert mp_id (mp_tenant_id proposal)
            (scope_idempotency_key (mp_workspace_id proposal) key) proposal
            (st_proposals s, st_proposal_idempotency s) of
       (Inr (q, True), tbl, idem) \<Rightarrow>
         (Inr (q, True),
          with_audit audit (s\<lparr>st_proposals := tbl, st_proposal_idempotency := idem\<rparr>))
     | (r, tbl, idem) \<Rightarrow> (r, s\<lparr>st_proposals := tbl, st_proposal_idempotency := idem\<rparr>))"

definition get_proposal :: "uuid \<Rightarrow> uuid \<Rightarrow> store \<Rightarrow> memory_proposal option" where
  "get_proposal tenant_id proposal_id s =
    (case dict_get (st_proposals s) proposal_id of
       None \<Rightarrow> None
     | Some p \<Rightarrow> if mp_tenant_id p = tenant_id then Some p else None)"

definition save_proposal_review ::
  "memory_proposal \<Rightarrow> audit_event option \<Rightarrow> store \<Rightarrow> memory_proposal res \<times> store"
where
  "save_proposal_review proposal audit s =
    (case get_proposal (mp_tenant_id proposal) (mp_id proposal) s of
       None \<Rightarrow> (Inl (KeyError (lit ''memory proposal not found'')), s)
     | Some _ \<Rightarrow>
         (Inr proposal,
          with_audit audit (s\<lparr>st_proposals := dict_set (mp_id proposal) proposal (st_proposals s)\<rparr>)))"

text \<open>\<open>reviewer.strip()[:120] or "operator"\<close>.\<close>

definition reviewer_name :: "str \<Rightarrow> str" where
  "reviewer_name reviewer =
    (let r = py_take 120 (strip reviewer) in if r = [] then lit ''operator'' else r)"

definition accepted_memory :: "memory_proposal \<Rightarrow> store \<Rightarrow> memory_item option" where
  "accepted_memory current s =
    (case dict_get (mp_metadata current) (lit ''accepted_memory_id'') of
       Some (PStr accepted_id) \<Rightarrow>
         map_option snd (find (\<lambda>(memory_id, memory). uuid_str memory_id = accepted_id) (st_items s))
     | _ \<Rightarrow> None)"

definition accept_proposal_with_memory ::
  "memory_proposal \<Rightarrow> memory_item \<Rightarrow> integration_event \<Rightarrow> str \<Rightarrow> str \<Rightarrow> str
    \<Rightarrow> audit_event option \<Rightarrow> datetime \<Rightarrow> store
    \<Rightarrow> (memory_proposal \<times> memory_item \<times> bool) res \<times> store"
where
  "accept_proposal_with_memory proposal item event reviewer reason key audit now s =
    (let sk = scope_idempotency_key (mi_workspace_id item) (Some key) in
     case get_proposal (mp_tenant_id proposal) (mp_id proposal) s of
       None \<Rightarrow> (Inl (KeyError (lit ''memory proposal not found'')), s)
     | Some current \<Rightarrow>
         if mp_status current = PRejected then
           (Inl (ValueError (lit ''rejected proposal cannot be accepted'')), s)
         else
           (case remembered (st_idempotency s) (mi_tenant_id item) sk of
              Some existing_id \<Rightarrow>
                (res_bind (dict_index (st_items s) existing_id) (\<lambda>m. Inr (current, m, False)), s)
            | None \<Rightarrow>
                if mp_status current = PAccepted then
                  (case accepted_memory current s of
                     Some memory \<Rightarrow> (Inr (current, memory, False), s)
                   | None \<Rightarrow>
                       (Inl (RuntimeError (lit ''accepted proposal is missing its durable memory'')), s))
                else
                  let s1 = publish event
                        (s\<lparr>st_items := dict_set (mi_id item) item (st_items s),
                           st_idempotency :=
                             remember (mi_tenant_id item) sk (mi_id item) (st_idempotency s)\<rparr>)
                  in case memory_proposal_post_init
                         (current\<lparr>mp_status := PAccepted,
                            mp_reviewed_at := Some now,
                            mp_reviewer := Some (reviewer_name reviewer),
                            mp_review_reason := py_take 1000 (strip reason),
                            mp_metadata := dict_set (lit ''accepted_memory_id'')
                              (PStr (uuid_str (mi_id item))) (mp_metadata current)\<rparr>) of
                       Inl e \<Rightarrow> (Inl e, s1)
                     | Inr reviewed \<Rightarrow>
                         (Inr (reviewed, item, True),
                          with_audit audit
                            (s1\<lparr>st_proposals := dict_set (mp_id current) reviewed (st_proposals s1)\<rparr>))))"

definition before_proposal ::
  "memory_proposal \<Rightarrow> datetime option \<Rightarrow> uuid option \<Rightarrow> bool"
where
  "before_proposal p before_created_at before_proposal_id =
    (case (before_created_at, before_proposal_id) of
       (Some b, Some i) \<Rightarrow> (mp_created_at p, mp_id p) < (b, i)
     | _ \<Rightarrow> True)"

definition list_proposals ::
  "uuid \<Rightarrow> uuid \<Rightarrow> str option \<Rightarrow> memory_proposal_status option \<Rightarrow> datetime option
    \<Rightarrow> uuid option \<Rightarrow> int \<Rightarrow> store \<Rightarrow> memory_proposal list"
where
  "list_proposals tenant_id workspace_id namespace status before_created_at before_proposal_id limit s =
    (let rows = filter (\<lambda>p. mp_tenant_id p = tenant_id
            \<and> mp_workspace_id p = workspace_id
            \<and> (case namespace of None \<Rightarrow> True | Some n \<Rightarrow> mp_namespace p = n)
            \<and> (case status of None \<Rightarrow> True | Some x \<Rightarrow> mp_status p = x)
            \<and> before_proposal p before_created_at before_proposal_id)
          (dict_values (st_proposals s))
     in py_take limit (sort_key_desc (\<lambda>p. (mp_created_at p, mp_id p)) rows))"

section \<open>The table\<close>

definition proposals_ok :: "store \<Rightarrow> bool" where
  "proposals_ok s \<longleftrightarrow> table_ok mp_id (st_proposals s)
     \<and> idem_ok mp_tenant_id (st_proposal_idempotency s) (st_proposals s)"

definition proposals_valid :: "store \<Rightarrow> bool" where
  "proposals_valid s \<longleftrightarrow> (\<forall>i p. dict_get (st_proposals s) i = Some p \<longrightarrow> valid_proposal p)"

lemma proposals_ok_cong:
  "st_proposals s' = st_proposals s \<Longrightarrow> st_proposal_idempotency s' = st_proposal_idempotency s \<Longrightarrow>
    proposals_ok s' = proposals_ok s"
  by (simp add: proposals_ok_def)

lemma get_proposal_Some:
  "get_proposal t i s = Some p \<longleftrightarrow> dict_get (st_proposals s) i = Some p \<and> mp_tenant_id p = t"
  by (auto simp: get_proposal_def split: option.splits if_splits)

lemma append_proposal_replay:
  assumes "remembered (st_proposal_idempotency s) (mp_tenant_id p)
      (scope_idempotency_key (mp_workspace_id p) key) = Some i"
    and "dict_get (st_proposals s) i = Some q"
  shows "append_proposal p key audit s = (Inr (q, False), s)"
  using assms by (simp add: append_proposal_def idempotent_insert_def)

lemma append_proposal_new:
  assumes "remembered (st_proposal_idempotency s) (mp_tenant_id p)
      (scope_idempotency_key (mp_workspace_id p) key) = None"
  shows "fst (append_proposal p key audit s) = Inr (p, True)"
    and "st_proposals (snd (append_proposal p key audit s)) = dict_set (mp_id p) p (st_proposals s)"
    and "st_proposal_idempotency (snd (append_proposal p key audit s))
      = remember (mp_tenant_id p) (scope_idempotency_key (mp_workspace_id p) key) (mp_id p)
          (st_proposal_idempotency s)"
  using assms by (simp_all add: append_proposal_def idempotent_insert_def)

interpretation proposals: idempotent_append
  "\<lambda>p k a. append_proposal p k a" mp_id mp_tenant_id mp_workspace_id
  "\<lambda>s. dict_get (st_proposals s)" "\<lambda>s. remembered (st_proposal_idempotency s)" proposals_ok
proof (unfold_locales, goal_cases)
  case (1 s r k i q x)
  then show ?case by (simp add: append_proposal_replay)
next
  case (2 s r k x)
  then show ?case by (simp add: append_proposal_new)
next
  case (3 s r k x)
  then show ?case by (auto simp: append_proposal_new)
next
  case (4 s r k x t sk)
  then show ?case by (simp add: append_proposal_new remembered_scoped)
next
  case (5 s t sk i)
  then show ?case by (auto simp: proposals_ok_def dest: idem_ok_get)
next
  case (6 s r k x)
  show ?case
  proof (cases "remembered (st_proposal_idempotency s) (mp_tenant_id r)
      (scope_idempotency_key (mp_workspace_id r) k)")
    case None
    with 6 show ?thesis
      by (auto simp: proposals_ok_def append_proposal_new intro: table_ok_set idem_ok_new)
  next
    case (Some i)
    then obtain q where "dict_get (st_proposals s) i = Some q"
      using 6 by (auto simp: proposals_ok_def dest: idem_ok_get)
    with Some 6 show ?thesis by (simp add: append_proposal_replay)
  qed
qed

type_synonym proposal_filter = "uuid \<times> uuid \<times> str option \<times> memory_proposal_status option"

definition proposal_rows :: "store \<Rightarrow> proposal_filter \<Rightarrow> memory_proposal list" where
  "proposal_rows s q = (case q of (t, w, ns, st) \<Rightarrow>
     filter (\<lambda>p. mp_tenant_id p = t \<and> mp_workspace_id p = w
            \<and> (case ns of None \<Rightarrow> True | Some n \<Rightarrow> mp_namespace p = n)
            \<and> (case st of None \<Rightarrow> True | Some x \<Rightarrow> mp_status p = x))
       (dict_values (st_proposals s)))"

definition proposal_page ::
  "store \<Rightarrow> proposal_filter \<Rightarrow> (datetime \<times> uuid) option \<Rightarrow> int \<Rightarrow> memory_proposal list"
where
  "proposal_page s q cursor n = (case q of (t, w, ns, st) \<Rightarrow>
     list_proposals t w ns st (map_option fst cursor) (map_option snd cursor) n s)"

lemma before_proposal_pair:
  "before_proposal p (map_option fst cursor) (map_option snd cursor)
    = (case cursor of None \<Rightarrow> True | Some c \<Rightarrow> (mp_created_at p, mp_id p) < c)"
  by (cases cursor) (auto simp: before_proposal_def)

interpretation proposal_listing: keyset_listing proposal_rows "\<lambda>p. (mp_created_at p, mp_id p)"
  proposal_page proposals_ok
proof (unfold_locales, goal_cases)
  case (1 s q cursor n)
  obtain t w ns st where "q = (t, w, ns, st)" by (cases q)
  then show ?case
    by (simp add: proposal_page_def proposal_rows_def list_proposals_def before_proposal_pair
        below_def conj_ac Let_def cong: filter_cong)
next
  case (2 s q)
  obtain t w ns st where "q = (t, w, ns, st)" by (cases q)
  with 2 show ?case unfolding proposal_rows_def
    by (simp only: prod.case)
      (rule distinct_map_filter_key, auto simp only: proposals_ok_def intro: table_ok_distinct)
qed

section \<open>Acceptance\<close>

lemma find_by_printed_id:
  assumes "dict_ok tbl" and "dict_get tbl i = Some m"
  shows "find (\<lambda>(j, x). uuid_str j = uuid_str i) tbl = Some (i, m)"
  using assms by (induction tbl) (auto simp: uuid_str_inject split: if_splits)

lemma accept_written:
  assumes "accept_proposal_with_memory p item event reviewer reason key audit now s
      = (Inr (p', m, True), s1)"
  obtains cur where "get_proposal (mp_tenant_id p) (mp_id p) s = Some cur"
    and "mp_status cur \<noteq> PRejected" and "mp_status cur \<noteq> PAccepted" and "m = item"
    and "remembered (st_idempotency s) (mi_tenant_id item)
      (scope_idempotency_key (mi_workspace_id item) (Some key)) = None"
    and "p' = cur\<lparr>mp_status := PAccepted, mp_reviewed_at := Some now,
        mp_reviewer := Some (reviewer_name reviewer), mp_review_reason := py_take 1000 (strip reason),
        mp_metadata := dict_set (lit ''accepted_memory_id'') (PStr (uuid_str (mi_id item)))
          (mp_metadata cur)\<rparr>"
    and "st_items s1 = dict_set (mi_id item) item (st_items s)"
    and "st_idempotency s1 = remember (mi_tenant_id item)
      (scope_idempotency_key (mi_workspace_id item) (Some key)) (mi_id item) (st_idempotency s)"
    and "st_proposals s1 = dict_set (mp_id cur) p' (st_proposals s)"
    and "st_events s1 = st_events (publish event s)"
proof (cases "get_proposal (mp_tenant_id p) (mp_id p) s")
  case None
  with assms show thesis by (simp add: accept_proposal_with_memory_def)
next
  case (Some cur)
  have "\<not> (mp_status cur = PRejected)" using assms Some
    by (auto simp: accept_proposal_with_memory_def)
  moreover have rem: "remembered (st_idempotency s) (mi_tenant_id item)
      (scope_idempotency_key (mi_workspace_id item) (Some key)) = None"
    using assms Some calculation
    by (cases "remembered (st_idempotency s) (mi_tenant_id item)
      (scope_idempotency_key (mi_workspace_id item) (Some key))")
      (auto simp: accept_proposal_with_memory_def dict_index_def split: option.splits)
  moreover have "mp_status cur \<noteq> PAccepted"
    using assms Some calculation
    by (auto simp: accept_proposal_with_memory_def split: option.splits)
  ultimately show thesis using assms Some
    by (intro that [OF Some])
      (auto simp: accept_proposal_with_memory_def memory_proposal_post_init_Inr Let_def publish_def
        split: sum.splits)
qed

text \<open>
  (unlisted): A proposal becomes a memory exactly once. After an acceptance that wrote its memory, every
  further acceptance of the same proposal, under the same key or any unused one, returns the first
  reviewed proposal and the first memory, reports that nothing was created and leaves the store as
  it was.
\<close>

theorem accept_exactly_once:
  assumes "items_ok s" and "dict_get (st_items s) (mi_id item) = None"
    and "proposals_ok s"
    and first: "accept_proposal_with_memory p item event reviewer reason key audit now s
      = (Inr (p', m, True), s1)"
    and "mp_tenant_id q = mp_tenant_id p" and "mp_id q = mp_id p"
    and "remembered (st_idempotency s1) (mi_tenant_id item')
        (scope_idempotency_key (mi_workspace_id item') (Some key')) \<in> {None, Some (mi_id item)}"
  shows "accept_proposal_with_memory q item' event' reviewer' reason' key' audit' now' s1
      = (Inr (p', item, False), s1)"
  using first
proof (cases rule: accept_written)
  case (1 cur)
  have cur: "dict_get (st_proposals s) (mp_id p) = Some cur" "mp_tenant_id cur = mp_tenant_id p"
    using 1(1) by (simp_all add: get_proposal_Some)
  have "mp_id cur = mp_id p" using assms(3) cur by (auto simp: proposals_ok_def intro: table_ok_ident)
  then have g: "get_proposal (mp_tenant_id q) (mp_id q) s1 = Some p'"
    using 1 cur assms(5,6) by (simp add: get_proposal_Some)
  have st: "mp_status p' = PAccepted" using 1 by simp
  have it: "dict_get (st_items s1) (mi_id item) = Some item" using 1 by simp
  have "dict_ok (st_items s1)" using 1(7) assms(1) by (simp add: items_ok_def table_ok_def)
  then have "accepted_memory p' s1 = Some item"
    using find_by_printed_id [OF _ it] 1(6) by (simp add: accepted_memory_def)
  then show ?thesis using g st it assms(7) by (auto simp: accept_proposal_with_memory_def)
qed

definition proposal_store :: store where
  "proposal_store = snd (append_proposal (sample_proposal 3 7 8 10) None None empty_store)"

definition accepted_store :: store where
  "accepted_store = snd (accept_proposal_with_memory (sample_proposal 3 7 8 10)
     (sample_item 1 7 8 (lit ''likes tea'')) (sample_event 21 7 8) (lit '' ann '') [] (lit ''a'') None 99
     proposal_store)"

theorem accept_exactly_once_witness:
  "\<exists>p'. accept_proposal_with_memory (sample_proposal 3 7 8 10)
     (sample_item 2 7 8 (lit ''likes tea'')) (sample_event 22 7 8) (lit ''bob'') [] (lit ''b'') None 120
     accepted_store = (Inr (p', sample_item 1 7 8 (lit ''likes tea''), False), accepted_store)
     \<and> mp_reviewer p' = Some (lit ''ann'')"
proof -
  let ?i = "sample_item 1 7 8 (lit ''likes tea'')"
  let ?first = "accept_proposal_with_memory (sample_proposal 3 7 8 10) ?i (sample_event 21 7 8)
     (lit '' ann '') [] (lit ''a'') None 99 proposal_store"
  obtain p' where fst: "?first = (Inr (p', ?i, True), accepted_store)" "mp_reviewer p' = Some (lit ''ann'')"
  proof -
    have "case fst ?first of Inl e \<Rightarrow> False
      | Inr (p', m, c) \<Rightarrow> mp_reviewer p' = Some (lit ''ann'') \<and> m = ?i \<and> c" by code_simp
    then obtain p' where "fst ?first = Inr (p', ?i, True)" "mp_reviewer p' = Some (lit ''ann'')"
      by (auto split: sum.splits)
    then show thesis by (intro that) (simp_all add: accepted_store_def prod_eq_iff)
  qed
  have items: "items_ok proposal_store"
    by (simp add: items_ok_def proposal_store_def append_proposal_def idempotent_insert_def
        empty_store_def table_ok_def idem_ok_def)
  have ok: "proposals_ok proposal_store"
    unfolding proposal_store_def
    by (rule proposals.ok_append) (simp_all add: proposals_ok_def empty_store_def table_ok_def idem_ok_def)
  have "dict_get (st_items proposal_store) (mi_id ?i) = None" by code_simp
  moreover have "remembered (st_idempotency accepted_store) 7 (scope_idempotency_key 8 (Some (lit ''b''))) = None"
    by code_simp
  ultimately have "accept_proposal_with_memory (sample_proposal 3 7 8 10)
     (sample_item 2 7 8 (lit ''likes tea'')) (sample_event 22 7 8) (lit ''bob'') [] (lit ''b'') None 120
     accepted_store = (Inr (p', ?i, False), accepted_store)"
    by (intro accept_exactly_once [OF items _ ok fst(1)]) (simp_all add: sample_item_def)
  with fst(2) show ?thesis by blast
qed

text \<open>
  (unlisted): Acceptance is all or nothing. A refused or replayed acceptance leaves the store untouched; a
  successful one stores the memory, queues its event and marks the proposal accepted with a link to
  the memory, in one step.
\<close>

theorem accept_all_or_nothing:
  assumes "proposals_valid s"
    and "accept_proposal_with_memory p item event reviewer reason key audit now s = (r, s1)"
  shows "case r of
      Inl e \<Rightarrow> s1 = s
    | Inr (p', m, created) \<Rightarrow>
        if created then m = item \<and> dict_get (st_items s1) (mi_id item) = Some item
          \<and> ie_id event \<in> ie_id ` set (st_events s1)
          \<and> (\<exists>cur. get_proposal (mp_tenant_id p) (mp_id p) s = Some cur
               \<and> dict_get (st_proposals s1) (mp_id cur) = Some p')
          \<and> mp_status p' = PAccepted
          \<and> dict_get (mp_metadata p') (lit ''accepted_memory_id'') = Some (PStr (uuid_str (mi_id item)))
        else s1 = s"
proof (cases r)
  case (Inr x)
  obtain p' m c where x: "x = (p', m, c)" by (cases x)
  show ?thesis
  proof (cases c)
    case True
    with assms Inr x have "accept_proposal_with_memory p item event reviewer reason key audit now s
        = (Inr (p', m, True), s1)" by simp
    then show ?thesis
    proof (cases rule: accept_written)
      case (1 cur)
      have "ie_id event \<in> ie_id ` set (st_events (publish event s))"
        by (rule publish_present)
      with 1 Inr x True show ?thesis by simp
    qed
  next
    case False
    with assms Inr x show ?thesis
      by (auto simp: accept_proposal_with_memory_def dict_index_def Let_def
          split: option.splits if_splits sum.splits)
  qed
next
  case (Inl e)
  show ?thesis
  proof (cases "get_proposal (mp_tenant_id p) (mp_id p) s")
    case None
    with assms Inl show ?thesis by (auto simp: accept_proposal_with_memory_def)
  next
    case (Some cur)
    then have v: "valid_proposal cur"
      using assms(1) by (auto simp: proposals_valid_def get_proposal_Some)
    have "valid_proposal (cur\<lparr>mp_status := a, mp_reviewed_at := b, mp_reviewer := c,
        mp_review_reason := d, mp_metadata := e'\<rparr>)" for a b c d e'
      using v by (simp add: valid_proposal_def)
    then show ?thesis
      using assms(2) Inl Some
      by (auto simp: accept_proposal_with_memory_def memory_proposal_post_init_Inr [THEN iffD2]
          Let_def split: option.splits if_splits)
  qed
qed

theorem accept_all_or_nothing_witness:
  "dict_get (st_items accepted_store) 1 = Some (sample_item 1 7 8 (lit ''likes tea''))
   \<and> 21 \<in> ie_id ` set (st_events accepted_store)"
proof -
  let ?i = "sample_item 1 7 8 (lit ''likes tea'')"
  let ?first = "accept_proposal_with_memory (sample_proposal 3 7 8 10) ?i (sample_event 21 7 8)
     (lit '' ann '') [] (lit ''a'') None 99 proposal_store"
  have "case fst ?first of Inl e \<Rightarrow> False | Inr (p', m, c) \<Rightarrow> c" by code_simp
  then obtain p' m where f: "fst ?first = Inr (p', m, True)" by (auto split: sum.splits)
  have "list_all (\<lambda>(i, p). valid_proposal p) (st_proposals proposal_store)"
    by (simp add: proposal_store_def append_proposal_def idempotent_insert_def empty_store_def
        remembered_def given_def scope_idempotency_key_def sample_proposal_def valid_proposal_def
        unit_interval_def) code_simp
  then have "proposals_valid proposal_store"
    by (auto simp: proposals_valid_def list_all_iff dest: map_of_SomeD)
  from accept_all_or_nothing [OF this, of "sample_proposal 3 7 8 10" ?i "sample_event 21 7 8"
      "lit '' ann ''" "[]" "lit ''a''" None 99 "fst ?first" accepted_store] f
  show ?thesis by (simp add: accepted_store_def sample_item_def sample_event_def)
qed

end
