(* ===== verification/StoreAudit.thy ===== *)
theory StoreAudit
  imports StoreTurns
begin

text \<open>
  The audit trail and the API-key registry of \<open>InMemoryMemoryStore\<close>, with the two services in front
  of them (\<open>services/audit.py\<close>, \<open>services/api_keys.py\<close>): an append-only log that only the retention
  prune shortens, and key metadata whose revocation no later operation takes back.
\<close>

section \<open>Audit log\<close>

definition get_audit_event :: "uuid \<Rightarrow> uuid \<Rightarrow> store \<Rightarrow> audit_event option" where
  "get_audit_event tenant_id event_id s =
    (case dict_get (st_audit_events s) event_id of
       None \<Rightarrow> None
     | Some e \<Rightarrow> if ae_tenant_id e = tenant_id then Some e else None)"

definition audit_matches ::
  "uuid \<Rightarrow> uuid option \<Rightarrow> str option \<Rightarrow> str option \<Rightarrow> datetime option \<Rightarrow> audit_event \<Rightarrow> bool"
where
  "audit_matches tenant_id workspace_id action resource_type created_after e \<longleftrightarrow>
     ae_tenant_id e = tenant_id
   \<and> (case workspace_id of None \<Rightarrow> True | Some w \<Rightarrow> ae_workspace_id e = Some w)
   \<and> (case action of None \<Rightarrow> True | Some a \<Rightarrow> ae_action e = a)
   \<and> (case resource_type of None \<Rightarrow> True | Some r \<Rightarrow> ae_resource_type e = r)
   \<and> (case created_after of None \<Rightarrow> True | Some a \<Rightarrow> a \<le> ae_created_at e)"

definition list_audit_events ::
  "uuid \<Rightarrow> uuid option \<Rightarrow> str option \<Rightarrow> str option \<Rightarrow> datetime option \<Rightarrow> datetime option
    \<Rightarrow> uuid option \<Rightarrow> int \<Rightarrow> store \<Rightarrow> audit_event list"
where
  "list_audit_events tenant_id workspace_id action resource_type created_after created_before
      before_event_id limit s =
    (let rows = filter (\<lambda>e. audit_matches tenant_id workspace_id action resource_type created_after e
            \<and> before_cursor (ae_created_at e) (ae_id e) created_before before_event_id)
          (dict_values (st_audit_events s))
     in py_take limit (sort_key_desc (\<lambda>e. (ae_created_at e, ae_id e)) rows))"

definition doomed_events ::
  "uuid \<Rightarrow> datetime \<Rightarrow> uuid option \<Rightarrow> store \<Rightarrow> audit_event list"
where
  "doomed_events tenant_id created_before workspace_id s =
    sort_key (\<lambda>e. (ae_created_at e, ae_id e))
      (filter (\<lambda>e. ae_tenant_id e = tenant_id \<and> ae_created_at e < created_before
          \<and> (case workspace_id of None \<Rightarrow> True | Some w \<Rightarrow> ae_workspace_id e = Some w))
        (dict_values (st_audit_events s)))"

fun pop_events ::
  "audit_event list \<Rightarrow> (uuid, audit_event) dict \<Rightarrow> nat \<times> (uuid, audit_event) dict"
where
  "pop_events [] tbl = (0, tbl)"
| "pop_events (e # es) tbl =
    (let (n, tbl') = pop_events es (dict_del (ae_id e) tbl)
     in (if dict_get tbl (ae_id e) = None then n else n + 1, tbl'))"

definition prune_audit_events ::
  "uuid \<Rightarrow> datetime \<Rightarrow> uuid option \<Rightarrow> int \<Rightarrow> store \<Rightarrow> nat \<times> store"
where
  "prune_audit_events tenant_id created_before workspace_id limit s =
    (let safe_limit = max 1 (min limit 500);
         doomed = doomed_events tenant_id created_before workspace_id s;
         (deleted, tbl) = pop_events (py_take safe_limit doomed) (st_audit_events s)
     in (deleted, s\<lparr>st_audit_events := tbl\<rparr>))"

text \<open>\<open>AuditLogService\<close>; the generated identity and clock reading are arguments.\<close>

definition audit_record ::
  "uuid \<Rightarrow> datetime \<Rightarrow> uuid \<Rightarrow> uuid option \<Rightarrow> str \<Rightarrow> str \<Rightarrow> str \<Rightarrow> str \<Rightarrow> str option \<Rightarrow> str
    \<Rightarrow> metadata option \<Rightarrow> store \<Rightarrow> audit_event res \<times> store"
where
  "audit_record new_id now tenant_id workspace_id action actor actor_type resource_type resource_id
      status metadata s =
    (case audit_event_post_init
            \<lparr>ae_id = new_id, ae_tenant_id = tenant_id, ae_workspace_id = workspace_id,
             ae_action = action, ae_actor = actor, ae_actor_type = actor_type,
             ae_resource_type = resource_type, ae_resource_id = resource_id, ae_status = status,
             ae_metadata = (case metadata of None \<Rightarrow> [] | Some d \<Rightarrow> d), ae_created_at = now\<rparr> of
       Inl e \<Rightarrow> (Inl e, s)
     | Inr event \<Rightarrow> append_audit_event event s)"

definition audit_get_event :: "uuid \<Rightarrow> uuid \<Rightarrow> store \<Rightarrow> audit_event option" where
  "audit_get_event = get_audit_event"

definition audit_list_events ::
  "uuid \<Rightarrow> uuid option \<Rightarrow> str option \<Rightarrow> str option \<Rightarrow> datetime option \<Rightarrow> datetime option
    \<Rightarrow> uuid option \<Rightarrow> int \<Rightarrow> store \<Rightarrow> audit_event list"
where
  "audit_list_events tenant_id workspace_id action resource_type created_after created_before
      before_event_id limit s =
    list_audit_events tenant_id workspace_id action resource_type created_after created_before
      before_event_id (max 1 (min limit 500)) s"

definition audit_prune_events ::
  "uuid \<Rightarrow> datetime \<Rightarrow> uuid option \<Rightarrow> int \<Rightarrow> store \<Rightarrow> nat \<times> store"
where
  "audit_prune_events tenant_id created_before workspace_id limit s =
    prune_audit_events tenant_id created_before workspace_id (max 1 (min limit 500)) s"

definition audit_ok :: "store \<Rightarrow> bool" where
  "audit_ok s \<longleftrightarrow> table_ok ae_id (st_audit_events s)"

lemma audit_ok_append [wf_intros]: "audit_ok s \<Longrightarrow> audit_ok (snd (append_audit_event e s))"
  by (auto simp: audit_ok_def append_audit_event_def Let_def dict_setdefault_def
      intro: table_ok_set split: option.splits)

lemma audit_ok_with_audit [wf_intros]: "audit_ok s \<Longrightarrow> audit_ok (with_audit a s)"
  by (auto simp: with_audit_def audit_ok_append split: option.splits)

type_synonym audit_filter = "uuid \<times> uuid option \<times> str option \<times> str option \<times> datetime option"

definition audit_rows :: "store \<Rightarrow> audit_filter \<Rightarrow> audit_event list" where
  "audit_rows s q = (case q of (t, w, a, r, after) \<Rightarrow>
     filter (audit_matches t w a r after) (dict_values (st_audit_events s)))"

definition audit_page ::
  "store \<Rightarrow> audit_filter \<Rightarrow> (datetime \<times> uuid) option \<Rightarrow> int \<Rightarrow> audit_event list"
where
  "audit_page s q cursor n = (case q of (t, w, a, r, after) \<Rightarrow>
     list_audit_events t w a r after (map_option fst cursor) (map_option snd cursor) n s)"

interpretation audit_listing: keyset_listing audit_rows "\<lambda>e. (ae_created_at e, ae_id e)"
  audit_page audit_ok
proof (unfold_locales, goal_cases)
  case (1 s q cursor n)
  obtain t w a r after where "q = (t, w, a, r, after)" by (cases q)
  then show ?case
    by (simp add: audit_page_def audit_rows_def list_audit_events_def before_cursor_pair below_def
        conj_ac Let_def cong: filter_cong)
next
  case (2 s q)
  obtain t w a r after where "q = (t, w, a, r, after)" by (cases q)
  with 2 show ?case unfolding audit_rows_def
    by (simp only: prod.case)
      (rule distinct_map_filter_key, auto simp only: audit_ok_def intro: table_ok_distinct)
qed

lemma pop_events_spec:
  assumes "table_ok ae_id tbl" and "set es \<subseteq> set (dict_values tbl)" and "distinct (map ae_id es)"
  shows "pop_events es tbl = (length es, filter (\<lambda>(i, e). i \<notin> ae_id ` set es) tbl)"
  using assms
proof (induction es arbitrary: tbl)
  case Nil
  then show ?case by (simp add: case_prod_unfold)
next
  case (Cons e es)
  let ?t = "dict_del (ae_id e) tbl"
  have ok: "dict_ok tbl" using Cons.prems by (simp add: table_ok_def)
  have get: "dict_get tbl (ae_id x) = Some x" if "x \<in> set (e # es)" for x
    using table_ok_values [OF Cons.prems(1)] Cons.prems(2) that by blast
  have t: "table_ok ae_id ?t" using Cons.prems(1) by (auto simp: table_ok_def dict_get_del split: if_splits)
  have "dict_get ?t (ae_id x) = Some x" if "x \<in> set es" for x
    using get [of x] that Cons.prems(3) by (auto simp: dict_get_del) (metis imageI)
  then have "set es \<subseteq> set (dict_values ?t)" by (blast intro: dict_get_values)
  with Cons.IH [OF t] Cons.prems(3)
  have "pop_events es ?t = (length es, filter (\<lambda>(i, e). i \<notin> ae_id ` set es) ?t)" by simp
  moreover have "filter (\<lambda>(i, e). i \<notin> ae_id ` set es) ?t = filter (\<lambda>(i, x). i \<notin> ae_id ` set (e # es)) tbl"
    by (auto simp: AList.delete_eq case_prod_unfold intro: filter_cong)
  ultimately show ?case using get [of e] by simp
qed

text \<open>
  C1: The retention prune removes the oldest matching audit rows and nothing else. It deletes as
  many rows as it reports, at most the clamped limit; what it deletes are the first rows in
  \<open>(created_at, id)\<close> order among those of the tenant and workspace before the cut-off; all other
  rows, newer or of other tenants, stay.
\<close>

theorem prune_removes_oldest:
  assumes "audit_ok s" and "victims = take (nat (max 1 (min limit 500))) (doomed_events t before w s)"
  shows "fst (prune_audit_events t before w limit s) = length victims
    \<and> st_audit_events (snd (prune_audit_events t before w limit s))
        = filter (\<lambda>(i, e). i \<notin> ae_id ` set victims) (st_audit_events s)
    \<and> length victims \<le> 500
    \<and> (\<forall>v \<in> set victims. ae_tenant_id v = t \<and> ae_created_at v < before)
    \<and> (\<forall>e \<in> set (doomed_events t before w s). e \<notin> set victims \<longrightarrow>
          (\<forall>v \<in> set victims. (ae_created_at v, ae_id v) \<le> (ae_created_at e, ae_id e)))"
proof -
  let ?d = "doomed_events t before w s" and ?k = "\<lambda>e. (ae_created_at e, ae_id e)"
  let ?n = "nat (max 1 (min limit 500))"
  have tbl: "table_ok ae_id (st_audit_events s)" using assms(1) by (simp add: audit_ok_def)
  have sub: "set ?d \<subseteq> set (dict_values (st_audit_events s))" by (auto simp: doomed_events_def)
  have "distinct (map ae_id (filter P (dict_values (st_audit_events s))))" for P
    by (rule distinct_map_filter [OF table_ok_distinct [OF tbl]])
  then have "distinct (map ae_id ?d)" unfolding doomed_events_def distinct_map set_sort distinct_sort .
  then have "distinct (take ?n (map ae_id ?d))" by (rule distinct_take)
  then have "distinct (map ae_id victims)" by (simp only: assms(2) take_map)
  moreover have "set victims \<subseteq> set (dict_values (st_audit_events s))"
    using set_take_subset [of ?n ?d] sub unfolding assms(2) by blast
  ultimately have pop: "pop_events victims (st_audit_events s)
      = (length victims, filter (\<lambda>(i, e). i \<notin> ae_id ` set victims) (st_audit_events s))"
    using pop_events_spec [OF tbl] by blast
  have sorted: "sorted (map ?k ?d)" by (simp only: doomed_events_def sorted_sort_key)
  have split: "?d = victims @ drop ?n ?d" by (simp add: assms(2))
  have "?k v \<le> ?k e" if "e \<in> set ?d" "e \<notin> set victims" "v \<in> set victims" for e v
  proof -
    have "e \<in> set (drop ?n ?d)" using that split by (metis Un_iff set_append)
    moreover have "sorted (map ?k victims @ map ?k (drop ?n ?d))"
      using sorted split by (metis map_append)
    ultimately show ?thesis using that(3) by (auto simp: sorted_append)
  qed
  moreover have "prune_audit_events t before w limit s
      = (length victims, s\<lparr>st_audit_events := filter (\<lambda>(i, e). i \<notin> ae_id ` set victims) (st_audit_events s)\<rparr>)"
    using pop by (simp add: prune_audit_events_def assms(2))
  moreover have "ae_tenant_id v = t \<and> ae_created_at v < before" if "v \<in> set victims" for v
    using in_set_takeD [OF that [unfolded assms(2)]] by (simp add: doomed_events_def)
  moreover have "length victims \<le> 500" by (simp add: assms(2))
  ultimately show ?thesis by simp
qed

definition audit_store :: store where
  "audit_store = snd (append_audit_event (sample_audit 3 7 30)
     (snd (append_audit_event (sample_audit 2 7 20) (snd (append_audit_event (sample_audit 1 7 10) empty_store)))))"

lemma audit_store_ok: "audit_ok audit_store"
  unfolding audit_store_def
  by (intro audit_ok_append) (simp add: audit_ok_def empty_store_def table_ok_def)

theorem prune_removes_oldest_witness:
  "fst (prune_audit_events 7 25 None 1 audit_store) = 1
   \<and> map fst (st_audit_events (snd (prune_audit_events 7 25 None 1 audit_store))) = [2, 3]"
proof -
  let ?v = "take (nat (max 1 (min 1 500))) (doomed_events 7 25 None audit_store)"
  have v: "map ae_id ?v = [1]" by code_simp
  have len: "length ?v = 1" using arg_cong [OF v, of length] by simp
  have ids: "ae_id ` set ?v = {1}" using arg_cong [OF v, of set] by simp
  have rest: "map fst (filter (\<lambda>(i, e). i \<notin> {1}) (st_audit_events audit_store)) = [2, 3]"
    by code_simp
  note p = prune_removes_oldest [OF audit_store_ok refl, where t = 7 and before = 25 and w = None and limit = 1]
  from conjunct1 [OF p] conjunct1 [OF conjunct2 [OF p]] show ?thesis
    unfolding len ids using rest by (simp only:)
qed

section \<open>API keys\<close>

definition save_api_key_record :: "api_key_record \<Rightarrow> store \<Rightarrow> api_key_record \<times> store" where
  "save_api_key_record r s = (r, s\<lparr>st_api_keys := dict_set (ak_id r) r (st_api_keys s)\<rparr>)"

definition get_api_key_by_fingerprint :: "uuid \<Rightarrow> str \<Rightarrow> store \<Rightarrow> api_key_record option" where
  "get_api_key_by_fingerprint tenant_id fingerprint s =
    find (\<lambda>r. ak_tenant_id r = tenant_id \<and> ak_secret_fingerprint r = fingerprint)
      (dict_values (st_api_keys s))"

definition touch_api_key ::
  "uuid \<Rightarrow> str \<Rightarrow> datetime \<Rightarrow> store \<Rightarrow> api_key_record option res \<times> store"
where
  "touch_api_key tenant_id fingerprint used_at s =
    (case get_api_key_by_fingerprint tenant_id fingerprint s of
       None \<Rightarrow> (Inr None, s)
     | Some r \<Rightarrow>
         (case api_key_post_init (r\<lparr>ak_last_used_at := Some used_at\<rparr>) of
            Inl e \<Rightarrow> (Inl e, s)
          | Inr u \<Rightarrow> (Inr (Some u), s\<lparr>st_api_keys := dict_set (ak_id r) u (st_api_keys s)\<rparr>)))"

definition list_api_keys :: "uuid \<Rightarrow> store \<Rightarrow> api_key_record list" where
  "list_api_keys tenant_id s =
    sort_key (\<lambda>r. (ak_name r, ak_created_at r, ak_id r))
      (filter (\<lambda>r. ak_tenant_id r = tenant_id) (dict_values (st_api_keys s)))"

definition revoke_api_key ::
  "uuid \<Rightarrow> uuid \<Rightarrow> datetime \<Rightarrow> str \<Rightarrow> store \<Rightarrow> api_key_record res \<times> store"
where
  "revoke_api_key tenant_id key_id revoked_at reason s =
    (case dict_get (st_api_keys s) key_id of
       None \<Rightarrow> (Inl (KeyError (lit ''api key not found'')), s)
     | Some r \<Rightarrow>
         if ak_tenant_id r \<noteq> tenant_id then (Inl (KeyError (lit ''api key not found'')), s)
         else (case api_key_post_init
                      (r\<lparr>ak_revoked_at := Some revoked_at, ak_revoked_reason := reason\<rparr>) of
                 Inl e \<Rightarrow> (Inl e, s)
               | Inr u \<Rightarrow> (Inr u, s\<lparr>st_api_keys := dict_set key_id u (st_api_keys s)\<rparr>)))"

text \<open>\<open>ApiKeyRegistryService.ensure_configured_key\<close>.\<close>

definition ensure_configured_key ::
  "uuid \<Rightarrow> datetime \<Rightarrow> uuid \<Rightarrow> str \<Rightarrow> str \<Rightarrow> str list \<Rightarrow> store \<Rightarrow> api_key_record res \<times> store"
where
  "ensure_configured_key new_id now tenant_id name fingerprint scopes s =
    (case get_api_key_by_fingerprint tenant_id fingerprint s of
       Some r \<Rightarrow>
         if ak_name r = name \<and> ak_scopes r = scopes then (Inr r, s)
         else (case api_key_post_init
                      (r\<lparr>ak_tenant_id := tenant_id, ak_name := name,
                         ak_secret_fingerprint := fingerprint, ak_scopes := scopes\<rparr>) of
                 Inl e \<Rightarrow> (Inl e, s)
               | Inr u \<Rightarrow> (Inr (fst (save_api_key_record u s)), snd (save_api_key_record u s)))
     | None \<Rightarrow>
         (case api_key_post_init
                 \<lparr>ak_id = new_id, ak_tenant_id = tenant_id, ak_name = name,
                  ak_secret_fingerprint = fingerprint, ak_scopes = scopes, ak_created_at = now,
                  ak_last_used_at = None, ak_revoked_at = None, ak_revoked_reason = []\<rparr> of
            Inl e \<Rightarrow> (Inl e, s)
          | Inr u \<Rightarrow> (Inr (fst (save_api_key_record u s)), snd (save_api_key_record u s))))"

definition api_keys_ok :: "store \<Rightarrow> bool" where
  "api_keys_ok s \<longleftrightarrow> table_ok ak_id (st_api_keys s)"

lemma api_key_post_init_keeps:
  assumes "api_key_post_init r = Inr u"
  shows "ak_id u = ak_id r" and "ak_tenant_id u = ak_tenant_id r"
    and "ak_secret_fingerprint u = ak_secret_fingerprint r" and "ak_revoked_at u = ak_revoked_at r"
    and "ak_created_at u = ak_created_at r"
  using assms by (auto simp: api_key_post_init_def Let_def split: if_splits)

text \<open>One call of the registry service. A new record gets an identity the table does not use.\<close>

inductive api_key_step :: "store \<Rightarrow> store \<Rightarrow> bool" where
  ensure: "dict_get (st_api_keys s) new_id = None \<Longrightarrow>
    ensure_configured_key new_id now t n f sc s = (r, s') \<Longrightarrow> api_key_step s s'"
| touch: "touch_api_key t f at' s = (r, s') \<Longrightarrow> api_key_step s s'"
| revoke: "revoke_api_key t k at' reason s = (r, s') \<Longrightarrow> api_key_step s s'"

lemma fingerprint_hit:
  assumes "api_keys_ok s" and "get_api_key_by_fingerprint t f s = Some r"
  shows "dict_get (st_api_keys s) (ak_id r) = Some r" and "ak_tenant_id r = t"
    and "ak_secret_fingerprint r = f"
proof -
  have r: "r \<in> set (dict_values (st_api_keys s))" "ak_tenant_id r = t" "ak_secret_fingerprint r = f"
    using find_SomeD [OF assms(2) [unfolded get_api_key_by_fingerprint_def]] by blast+
  show "dict_get (st_api_keys s) (ak_id r) = Some r"
    by (rule table_ok_values [THEN iffD1, OF assms(1) [unfolded api_keys_ok_def] r(1)])
  show "ak_tenant_id r = t" and "ak_secret_fingerprint r = f" by (fact r)+
qed

text \<open>
  Every step leaves the table alone or writes one row: a new one, for a fingerprint the tenant has no row
  for, or an update of a stored row that keeps its identity, tenant, fingerprint and creation time and
  never clears its revocation.
\<close>

definition key_row_write :: "store \<Rightarrow> store \<Rightarrow> bool" where
  "key_row_write s s' \<longleftrightarrow> s' = s \<or>
    (\<exists>u. st_api_keys s' = dict_set (ak_id u) u (st_api_keys s) \<and>
       (dict_get (st_api_keys s) (ak_id u) = None
          \<and> get_api_key_by_fingerprint (ak_tenant_id u) (ak_secret_fingerprint u) s = None \<or>
        (\<exists>r. dict_get (st_api_keys s) (ak_id u) = Some r \<and> ak_tenant_id u = ak_tenant_id r
           \<and> ak_secret_fingerprint u = ak_secret_fingerprint r \<and> ak_created_at u = ak_created_at r
           \<and> (ak_revoked r \<longrightarrow> ak_revoked u))))"

lemma api_key_step_write:
  assumes "api_keys_ok s" and "api_key_step s s'"
  shows "key_row_write s s'"
  using assms(2)
proof cases
  case (ensure new_id now t n f sc r)
  show ?thesis
  proof (cases "get_api_key_by_fingerprint t f s")
    case None
    show ?thesis
    proof (cases "s' = s")
      case False
      with ensure(2) None obtain u where u: "api_key_post_init
          \<lparr>ak_id = new_id, ak_tenant_id = t, ak_name = n, ak_secret_fingerprint = f, ak_scopes = sc,
           ak_created_at = now, ak_last_used_at = None, ak_revoked_at = None, ak_revoked_reason = []\<rparr> = Inr u"
        "s' = snd (save_api_key_record u s)"
        by (auto simp: ensure_configured_key_def split: sum.splits)
      note k = api_key_post_init_keeps [OF u(1), simplified]
      show ?thesis
        unfolding key_row_write_def
        by (rule disjI2, rule exI [of _ u]) (use u(2) k ensure(1) None in \<open>simp add: save_api_key_record_def\<close>)
    qed (simp add: key_row_write_def)
  next
    case (Some q)
    note hit = fingerprint_hit [OF assms(1) Some]
    show ?thesis
    proof (cases "s' = s")
      case False
      with ensure Some obtain u where u: "api_key_post_init (q\<lparr>ak_tenant_id := t, ak_name := n,
          ak_secret_fingerprint := f, ak_scopes := sc\<rparr>) = Inr u"
        "s' = snd (save_api_key_record u s)"
        by (auto simp: ensure_configured_key_def split: sum.splits if_splits)
      note k = api_key_post_init_keeps [OF u(1), simplified]
      show ?thesis
        unfolding key_row_write_def
        by (rule disjI2, rule exI [of _ u]) (use u(2) k hit in \<open>simp add: save_api_key_record_def ak_revoked_def\<close>)
    qed (simp add: key_row_write_def)
  qed
next
  case (touch t f at' r)
  show ?thesis
  proof (cases "s' = s")
    case False
    with touch obtain q u where u: "get_api_key_by_fingerprint t f s = Some q"
      "api_key_post_init (q\<lparr>ak_last_used_at := Some at'\<rparr>) = Inr u"
      "s' = s\<lparr>st_api_keys := dict_set (ak_id q) u (st_api_keys s)\<rparr>"
      by (auto simp: touch_api_key_def split: sum.splits option.splits)
    note k = api_key_post_init_keeps [OF u(2), simplified] and hit = fingerprint_hit [OF assms(1) u(1)]
    show ?thesis
      unfolding key_row_write_def
      by (rule disjI2, rule exI [of _ u]) (use u(3) k hit in \<open>simp add: ak_revoked_def\<close>)
  qed (simp add: key_row_write_def)
next
  case (revoke t i at' reason r)
  show ?thesis
  proof (cases "s' = s")
    case False
    with revoke obtain q where q: "dict_get (st_api_keys s) i = Some q"
      by (cases "dict_get (st_api_keys s) i") (auto simp: revoke_api_key_def)
    with False revoke obtain u where
      "api_key_post_init (q\<lparr>ak_revoked_at := Some at', ak_revoked_reason := reason\<rparr>) = Inr u"
      "s' = s\<lparr>st_api_keys := dict_set i u (st_api_keys s)\<rparr>"
      by (cases "api_key_post_init (q\<lparr>ak_revoked_at := Some at', ak_revoked_reason := reason\<rparr>)")
        (auto simp: revoke_api_key_def split: if_splits)
    note u = q this
    note k = api_key_post_init_keeps [OF u(2), simplified]
    have "ak_id q = i" using assms(1) u(1) by (auto simp: api_keys_ok_def intro: table_ok_ident)
    then show ?thesis
      unfolding key_row_write_def
      by (intro disjI2 exI [of _ u]) (use u(1,3) k in \<open>simp add: ak_revoked_def\<close>)
  qed (simp add: key_row_write_def)
qed

lemma key_row_write_ok: "api_keys_ok s \<Longrightarrow> key_row_write s s' \<Longrightarrow> api_keys_ok s'"
  by (auto simp: key_row_write_def api_keys_ok_def intro: table_ok_set)

lemma key_row_write_revoked:
  assumes "key_row_write s s'" and "dict_get (st_api_keys s) i = Some r" and "ak_revoked r"
  shows "\<exists>r'. dict_get (st_api_keys s') i = Some r' \<and> ak_revoked r' \<and> ak_tenant_id r' = ak_tenant_id r
    \<and> ak_secret_fingerprint r' = ak_secret_fingerprint r"
  using assms by (auto simp: key_row_write_def)

text \<open>
  Revocation is permanent: whatever sequence of registry calls follows (reconfiguring the key with a new
  name or scopes, use, further revocations), a revoked key stays stored, revoked, in its tenant and under
  its fingerprint.
\<close>

lemma revocation_lasts:
  assumes "api_key_step\<^sup>*\<^sup>* s s'" and "api_keys_ok s"
    and "dict_get (st_api_keys s) i = Some r" and "ak_revoked r"
  shows "\<exists>r'. dict_get (st_api_keys s') i = Some r' \<and> ak_revoked r'
    \<and> ak_tenant_id r' = ak_tenant_id r \<and> ak_secret_fingerprint r' = ak_secret_fingerprint r"
proof -
  from assms(1) have "api_keys_ok s' \<and> (\<exists>r'. dict_get (st_api_keys s') i = Some r' \<and> ak_revoked r'
    \<and> ak_tenant_id r' = ak_tenant_id r \<and> ak_secret_fingerprint r' = ak_secret_fingerprint r)"
  proof (induction rule: rtranclp_induct)
    case base
    then show ?case using assms by blast
  next
    case (step x y)
    then have w: "key_row_write x y" using api_key_step_write by blast
    with step.IH show ?case using key_row_write_ok [OF _ w] key_row_write_revoked [OF w] by metis
  qed
  then show ?thesis by blast
qed

definition key_store :: store where
  "key_store = snd (ensure_configured_key 5 10 7 (lit ''ci'') (lit ''fp'') [lit ''Read''] empty_store)"

definition revoked_store :: store where
  "revoked_store = snd (revoke_api_key 7 5 20 (lit ''leaked'') key_store)"

end
