(* ===== verification/StoreRegistry.thy ===== *)
theory StoreRegistry
  imports StoreAudit
begin

text \<open>
  Worker liveness and the identity registry of \<open>InMemoryMemoryStore\<close>, the heartbeat emitter of the
  workers (\<open>workers/heartbeat.py\<close>), the provisioning service (\<open>services/identities.py\<close>), and the
  store's counters and index freshness.
\<close>

section \<open>Worker heartbeats\<close>

definition record_worker_heartbeat :: "worker_heartbeat \<Rightarrow> store \<Rightarrow> worker_heartbeat \<times> store" where
  "record_worker_heartbeat h s =
    (h, s\<lparr>st_worker_heartbeats :=
           dict_set (wh_tenant_id h, wh_worker_kind h, wh_worker_id h) h (st_worker_heartbeats s)\<rparr>)"

definition kind_readiness :: "worker_heartbeat list \<Rightarrow> datetime \<Rightarrow> str \<Rightarrow> worker_kind_readiness" where
  "kind_readiness rows cutoff kind =
    (let matching = filter (\<lambda>r. wh_worker_kind r = kind) rows;
         fresh = length (filter (\<lambda>r. wh_status r = lit ''running'' \<and> cutoff \<le> wh_last_seen_at r) matching)
     in \<lparr>wk_worker_kind = kind, wk_fresh_instances = fresh,
         wk_stale_instances = length matching - fresh\<rparr>)"

definition read_worker_readiness ::
  "uuid \<Rightarrow> str list \<Rightarrow> int \<Rightarrow> datetime \<Rightarrow> store \<Rightarrow> worker_readiness"
where
  "read_worker_readiness tenant_id required_kinds stale_after_seconds observed_at s =
    (let cutoff = observed_at - stale_after_seconds * 1000000;
         rows = filter (\<lambda>r. wh_tenant_id r = tenant_id \<and> wh_worker_kind r \<in> set required_kinds)
           (dict_values (st_worker_heartbeats s))
     in \<lparr>wr_required = map (kind_readiness rows cutoff) required_kinds, wr_observed_at = observed_at\<rparr>)"

record heartbeat_emitter =
  he_tenant_id :: uuid
  he_worker_kind :: str
  he_worker_id :: str
  he_interval_seconds :: real
  he_started_at :: datetime
  he_next_due :: real

definition new_emitter ::
  "uuid \<Rightarrow> str \<Rightarrow> str \<Rightarrow> real \<Rightarrow> datetime \<Rightarrow> heartbeat_emitter res"
where
  "new_emitter tenant_id kind worker_id interval now =
    (if \<not> (1/2 \<le> interval \<and> interval \<le> 300) then
       Inl (ValueError (lit ''worker heartbeat interval must be between 0.5 and 300 seconds''))
     else Inr \<lparr>he_tenant_id = tenant_id, he_worker_kind = kind, he_worker_id = worker_id,
               he_interval_seconds = interval, he_started_at = now, he_next_due = 0\<rparr>)"

definition emitter_write ::
  "str \<Rightarrow> datetime \<Rightarrow> real \<Rightarrow> heartbeat_emitter \<times> store \<Rightarrow> unit res \<times> heartbeat_emitter \<times> store"
where
  "emitter_write status now monotonic es =
    (case es of (em, s) \<Rightarrow>
      (case worker_heartbeat_post_init
              \<lparr>wh_tenant_id = he_tenant_id em, wh_worker_kind = he_worker_kind em,
               wh_worker_id = he_worker_id em, wh_started_at = he_started_at em,
               wh_last_seen_at = now, wh_status = status\<rparr> of
         Inl e \<Rightarrow> (Inl e, em, s)
       | Inr h \<Rightarrow> (Inr (), em\<lparr>he_next_due := monotonic + he_interval_seconds em\<rparr>,
                    snd (record_worker_heartbeat h s))))"

definition emitter_start where "emitter_start = emitter_write (lit ''running'')"
definition emitter_stop where "emitter_stop = emitter_write (lit ''stopping'')"

definition emitter_tick ::
  "datetime \<Rightarrow> real \<Rightarrow> heartbeat_emitter \<times> store \<Rightarrow> bool res \<times> heartbeat_emitter \<times> store"
where
  "emitter_tick now monotonic es =
    (if monotonic < he_next_due (fst es) then (Inr False, es)
     else (case emitter_write (lit ''running'') now monotonic es of
             (Inl e, es') \<Rightarrow> (Inl e, es')
           | (Inr _, es') \<Rightarrow> (Inr True, es')))"

lemma kind_readiness_fresh:
  "wk_ready (kind_readiness rows cutoff kind) \<longleftrightarrow>
    (\<exists>r \<in> set rows. wh_worker_kind r = kind \<and> wh_status r = lit ''running'' \<and> cutoff \<le> wh_last_seen_at r)"
  by (auto simp: wk_ready_def kind_readiness_def Let_def filter_empty_conv)

lemma worker_heartbeat_post_init_Inr:
  "worker_heartbeat_post_init h = Inr h' \<Longrightarrow>
    h' = h\<lparr>wh_worker_kind := py_lower (strip (wh_worker_kind h)), wh_worker_id := strip (wh_worker_id h)\<rparr>"
  by (auto simp: worker_heartbeat_post_init_def Let_def split: if_splits)

text \<open>
  C1: Readiness is exactly liveness. A tenant's required workers are reported ready if and only if
  each required kind has a stored heartbeat of that tenant that says \<open>running\<close> and is no older than
  the staleness window; every kind that is not ready is listed either as missing or as stale.
\<close>

theorem readiness_is_liveness:
  "(wr_ready (read_worker_readiness t kinds stale now s) \<longleftrightarrow>
      (\<forall>kind \<in> set kinds. \<exists>h \<in> set (dict_values (st_worker_heartbeats s)).
         wh_tenant_id h = t \<and> wh_worker_kind h = kind \<and> wh_status h = lit ''running''
         \<and> now - stale * 1000000 \<le> wh_last_seen_at h))
  \<and> (wr_ready (read_worker_readiness t kinds stale now s) \<longleftrightarrow>
      missing_kinds (read_worker_readiness t kinds stale now s) = []
      \<and> stale_kinds (read_worker_readiness t kinds stale now s) = [])"
proof -
  let ?w = "read_worker_readiness t kinds stale now s"
  have "wr_required ?w = map (kind_readiness (filter (\<lambda>r. wh_tenant_id r = t \<and> wh_worker_kind r \<in> set kinds)
      (dict_values (st_worker_heartbeats s))) (now - stale * 1000000)) kinds"
    by (simp add: read_worker_readiness_def Let_def)
  then have "wr_ready ?w \<longleftrightarrow> (\<forall>kind \<in> set kinds. \<exists>h \<in> set (dict_values (st_worker_heartbeats s)).
       wh_tenant_id h = t \<and> wh_worker_kind h = kind \<and> wh_status h = lit ''running''
       \<and> now - stale * 1000000 \<le> wh_last_seen_at h)"
    by (auto simp: wr_ready_def list_all_iff kind_readiness_fresh)
  moreover have "wr_ready ?w \<longleftrightarrow> missing_kinds ?w = [] \<and> stale_kinds ?w = []"
    by (auto simp: wr_ready_def wk_ready_def missing_kinds_def stale_kinds_def list_all_iff
        filter_empty_conv) (metis not_gr0)
  ultimately show ?thesis by blast
qed

definition live_store :: store where
  "live_store = snd (record_worker_heartbeat
     \<lparr>wh_tenant_id = 7, wh_worker_kind = lit ''embedding'', wh_worker_id = lit ''w1'', wh_started_at = 5,
      wh_last_seen_at = 900, wh_status = lit ''running''\<rparr> empty_store)"

theorem readiness_is_liveness_witness:
  "wr_ready (read_worker_readiness 7 [lit ''embedding''] 60 1000 live_store)"
proof -
  have "\<exists>h \<in> set (dict_values (st_worker_heartbeats live_store)). wh_tenant_id h = 7
      \<and> wh_worker_kind h = lit ''embedding'' \<and> wh_status h = lit ''running''
      \<and> 1000 - 60 * 1000000 \<le> wh_last_seen_at h" by code_simp
  then show ?thesis
    using readiness_is_liveness [of 7 "[lit ''embedding'']" 60 1000 live_store] by simp
qed

lemma emitter_writes_heartbeat:
  assumes "emitter_write status now clock (em, s) = (Inr (), em', s')"
  shows "\<exists>h \<in> set (dict_values (st_worker_heartbeats s')). wh_tenant_id h = he_tenant_id em
    \<and> wh_worker_kind h = py_lower (strip (he_worker_kind em)) \<and> wh_status h = status
    \<and> wh_last_seen_at h = now"
proof -
  from assms obtain h where h: "worker_heartbeat_post_init
      \<lparr>wh_tenant_id = he_tenant_id em, wh_worker_kind = he_worker_kind em,
       wh_worker_id = he_worker_id em, wh_started_at = he_started_at em,
       wh_last_seen_at = now, wh_status = status\<rparr> = Inr h"
    "s' = snd (record_worker_heartbeat h s)"
    by (auto simp: emitter_write_def split: sum.splits)
  have "h \<in> set (dict_values (st_worker_heartbeats s'))"
    unfolding h(2) record_worker_heartbeat_def snd_conv
    by (rule dict_get_values [of _ "(wh_tenant_id h, wh_worker_kind h, wh_worker_id h)"]) simp
  then show ?thesis
    by (rule bexI [rotated]) (simp add: worker_heartbeat_post_init_Inr [OF h(1)])
qed

section \<open>Identities\<close>

definition provision_agent_thread ::
  "agent_identity \<Rightarrow> uuid option \<Rightarrow> str \<Rightarrow> store
    \<Rightarrow> (agent_identity \<times> thread_identity option) res \<times> store"
where
  "provision_agent_thread agent thread_id thread_status s =
    (if (case dict_get (st_agents s) (ai_id agent) of None \<Rightarrow> False
         | Some a \<Rightarrow> ai_tenant_id a \<noteq> ai_tenant_id agent \<or> ai_workspace_id a \<noteq> ai_workspace_id agent)
     then (Inl (ValueError (lit ''agent_id already belongs to another scope'')), s)
     else
       let s1 = s\<lparr>st_agents := dict_set (ai_id agent) agent (st_agents s)\<rparr> in
       case thread_id of
         None \<Rightarrow> (Inr (agent, None), s1)
       | Some tid \<Rightarrow>
           if (case dict_get (st_threads s1) tid of None \<Rightarrow> False
               | Some t \<Rightarrow> ti_tenant_id t \<noteq> ai_tenant_id agent \<or> ti_workspace_id t \<noteq> ai_workspace_id agent)
           then (Inl (ValueError (lit ''thread_id already belongs to another scope'')), s1)
           else
             let thread = \<lparr>ti_id = tid, ti_tenant_id = ai_tenant_id agent,
                   ti_workspace_id = ai_workspace_id agent, ti_owner_agent_id = Some (ai_id agent),
                   ti_status = thread_status\<rparr>
             in (Inr (agent, Some thread), s1\<lparr>st_threads := dict_set tid thread (st_threads s1)\<rparr>))"

definition provision_workspace :: "workspace_identity \<Rightarrow> store \<Rightarrow> workspace_identity res \<times> store" where
  "provision_workspace workspace s =
    (case dict_get (st_workspaces s) (wi_id workspace) of
       Some existing \<Rightarrow>
         if wi_tenant_id existing \<noteq> wi_tenant_id workspace
         then (Inl (ValueError (lit ''workspace_id already belongs to another tenant'')), s)
         else (Inr existing, s)
     | None \<Rightarrow>
         (Inr workspace, s\<lparr>st_workspaces := dict_set (wi_id workspace) workspace (st_workspaces s)\<rparr>))"

definition thread_belongs_to_agent :: "uuid \<Rightarrow> uuid \<Rightarrow> uuid \<Rightarrow> uuid \<Rightarrow> store \<Rightarrow> bool" where
  "thread_belongs_to_agent tenant_id workspace_id agent_id thread_id s =
    (case dict_get (st_threads s) thread_id of
       None \<Rightarrow> False
     | Some t \<Rightarrow> ti_tenant_id t = tenant_id \<and> ti_workspace_id t = workspace_id
         \<and> ti_owner_agent_id t = Some agent_id)"

record provision_identity_command =
  pi_tenant_id :: uuid
  pi_workspace_id :: uuid
  pi_agent_id :: uuid
  pi_agent_name :: str
  pi_agent_role :: str
  pi_agent_config :: metadata
  pi_thread_id :: "uuid option"
  pi_thread_status :: str

record provision_workspace_command =
  pw_tenant_id :: uuid
  pw_workspace_id :: uuid
  pw_workspace_name :: str

definition thread_statuses :: "str set" where
  "thread_statuses = {lit ''active'', lit ''closed'', lit ''archived''}"

definition provision_identity ::
  "provision_identity_command \<Rightarrow> store \<Rightarrow> (agent_identity \<times> thread_identity option) res \<times> store"
where
  "provision_identity c s =
    (let name = strip (pi_agent_name c); role = strip (pi_agent_role c);
         status = py_lower (strip (pi_thread_status c)) in
     if name = [] then (Inl (ValueError (lit ''agent_name must not be empty'')), s)
     else if role = [] then (Inl (ValueError (lit ''agent_role must not be empty'')), s)
     else if 160 < length name \<or> 80 < length role then
       (Inl (ValueError (lit ''agent identity metadata is too long'')), s)
     else if status \<notin> thread_statuses then
       (Inl (ValueError (lit ''thread_status must be active, closed, or archived'')), s)
     else provision_agent_thread
            \<lparr>ai_id = pi_agent_id c, ai_tenant_id = pi_tenant_id c, ai_workspace_id = pi_workspace_id c,
             ai_name = name, ai_role = role, ai_config = pi_agent_config c\<rparr>
            (pi_thread_id c) status s)"

definition provision_workspace_identity ::
  "provision_workspace_command \<Rightarrow> store \<Rightarrow> workspace_identity res \<times> store"
where
  "provision_workspace_identity c s =
    (let name = strip (pw_workspace_name c) in
     if name = [] then (Inl (ValueError (lit ''workspace_name must not be empty'')), s)
     else if 160 < length name then (Inl (ValueError (lit ''workspace_name is too long'')), s)
     else provision_workspace
            \<lparr>wi_id = pw_workspace_id c, wi_tenant_id = pw_tenant_id c, wi_name = name\<rparr> s)"

inductive provisioning :: "store \<Rightarrow> store \<Rightarrow> bool" where
  identity: "provision_identity c s = (r, s') \<Longrightarrow> provisioning s s'"
| workspace: "provision_workspace_identity c s = (r', s') \<Longrightarrow> provisioning s s'"

definition rows_keep :: "('r \<Rightarrow> 'f) \<Rightarrow> (uuid, 'r) dict \<Rightarrow> (uuid, 'r) dict \<Rightarrow> bool" where
  "rows_keep f tbl tbl' \<longleftrightarrow>
    (\<forall>i a. dict_get tbl i = Some a \<longrightarrow> (\<exists>b. dict_get tbl' i = Some b \<and> f b = f a))"

lemma rows_keep_refl [simp]: "rows_keep f tbl tbl"
  by (simp add: rows_keep_def)

lemma rows_keep_trans: "rows_keep f a b \<Longrightarrow> rows_keep f b c \<Longrightarrow> rows_keep f a c"
  unfolding rows_keep_def by metis

lemma rows_keep_set:
  "(\<And>a. dict_get tbl i = Some a \<Longrightarrow> f r = f a) \<Longrightarrow> rows_keep f tbl (dict_set i r tbl)"
  by (simp add: rows_keep_def)

definition scopes_kept :: "store \<Rightarrow> store \<Rightarrow> bool" where
  "scopes_kept s s' \<longleftrightarrow>
     rows_keep (\<lambda>a. (ai_tenant_id a, ai_workspace_id a)) (st_agents s) (st_agents s')
   \<and> rows_keep (\<lambda>t. (ti_tenant_id t, ti_workspace_id t)) (st_threads s) (st_threads s')
   \<and> rows_keep (\<lambda>w. w) (st_workspaces s) (st_workspaces s')"

lemma scopes_kept_refl [simp]: "scopes_kept s s"
  by (simp add: scopes_kept_def)

lemma scopes_kept_trans: "scopes_kept s s1 \<Longrightarrow> scopes_kept s1 s2 \<Longrightarrow> scopes_kept s s2"
  unfolding scopes_kept_def by (blast intro: rows_keep_trans)

lemma provision_agent_thread_keeps: "scopes_kept s (snd (provision_agent_thread agent tid st s))"
  unfolding provision_agent_thread_def scopes_kept_def Let_def
  by (auto intro!: rows_keep_set split: option.splits)

lemma provisioning_keeps:
  assumes "provisioning s s'"
  shows "scopes_kept s s'"
  using assms
proof cases
  case (identity c r)
  have "scopes_kept s (snd (provision_identity c s))"
    unfolding provision_identity_def Let_def
    by (simp add: scopes_kept_refl provision_agent_thread_keeps)
  with identity show ?thesis by simp
next
  case (workspace c r)
  have "scopes_kept s (snd (provision_workspace w s))" for w
    by (auto simp: provision_workspace_def scopes_kept_def intro!: rows_keep_set split: option.splits)
  then have "scopes_kept s (snd (provision_workspace_identity c s))"
    unfolding provision_workspace_identity_def Let_def by (simp add: scopes_kept_refl)
  with workspace show ?thesis by simp
qed

text \<open>
  (unlisted): No identity ever changes hands. After any sequence of provisioning requests, accepted or
  refused, every agent, thread and workspace that was registered is still registered in the same
  tenant and workspace.
\<close>

theorem provisioning_keeps_scopes:
  assumes "provisioning\<^sup>*\<^sup>* s s'"
  shows "(\<forall>i a. dict_get (st_agents s) i = Some a \<longrightarrow>
       (\<exists>b. dict_get (st_agents s') i = Some b \<and> ai_tenant_id b = ai_tenant_id a
          \<and> ai_workspace_id b = ai_workspace_id a))
  \<and> (\<forall>i a. dict_get (st_threads s) i = Some a \<longrightarrow>
       (\<exists>b. dict_get (st_threads s') i = Some b \<and> ti_tenant_id b = ti_tenant_id a
          \<and> ti_workspace_id b = ti_workspace_id a))
  \<and> (\<forall>i a. dict_get (st_workspaces s) i = Some a \<longrightarrow> dict_get (st_workspaces s') i = Some a)"
proof -
  from assms have "scopes_kept s s'"
    by (induction rule: rtranclp_induct)
      (auto intro: scopes_kept_refl scopes_kept_trans provisioning_keeps)
  then show ?thesis by (simp add: scopes_kept_def rows_keep_def)
qed

definition sample_provision :: "uuid \<Rightarrow> uuid \<Rightarrow> uuid \<Rightarrow> str \<Rightarrow> uuid option \<Rightarrow> provision_identity_command" where
  "sample_provision t w a name tid = \<lparr>pi_tenant_id = t, pi_workspace_id = w, pi_agent_id = a,
     pi_agent_name = name, pi_agent_role = lit ''coder'', pi_agent_config = [], pi_thread_id = tid,
     pi_thread_status = lit ''active''\<rparr>"

definition registry_store :: store where
  "registry_store = snd (provision_identity (sample_provision 7 8 41 (lit ''ann'') (Some 51))
     (snd (provision_identity (sample_provision 7 9 42 (lit ''bob'') None) empty_store)))"

theorem provisioning_keeps_scopes_witness:
  "\<exists>b. dict_get (st_agents (snd (provision_identity (sample_provision 7 9 41 (lit ''eve'') None) registry_store))) 41
    = Some b \<and> ai_workspace_id b = 8"
proof -
  let ?s' = "snd (provision_identity (sample_provision 7 9 41 (lit ''eve'') None) registry_store)"
  have "provisioning registry_store ?s'" by (rule provisioning.identity [OF prod.collapse [symmetric]])
  then have step: "provisioning\<^sup>*\<^sup>* registry_store ?s'" by blast
  have "case dict_get (st_agents registry_store) 41 of None \<Rightarrow> False | Some a \<Rightarrow> ai_workspace_id a = 8"
    by code_simp
  then obtain a where a: "dict_get (st_agents registry_store) 41 = Some a" "ai_workspace_id a = 8"
    by (auto split: option.splits)
  from conjunct1 [OF provisioning_keeps_scopes [OF step], rule_format, OF a(1)] a(2)
  show ?thesis by auto
qed

text \<open>
  (unlisted): A provisioning request that is refused because its thread belongs to another scope has already
  replaced the agent row: the in-memory registry reports the error and keeps half of the request.
\<close>

theorem refused_thread_still_replaces_agent:
  assumes "dict_get (st_threads s) tid = Some t"
    and "ti_tenant_id t \<noteq> ai_tenant_id agent \<or> ti_workspace_id t \<noteq> ai_workspace_id agent"
    and "\<forall>a. dict_get (st_agents s) (ai_id agent) = Some a \<longrightarrow>
      ai_tenant_id a = ai_tenant_id agent \<and> ai_workspace_id a = ai_workspace_id agent"
  shows "fst (provision_agent_thread agent (Some tid) st s)
      = Inl (ValueError (lit ''thread_id already belongs to another scope''))
    \<and> dict_get (st_agents (snd (provision_agent_thread agent (Some tid) st s))) (ai_id agent) = Some agent"
  using assms by (auto simp: provision_agent_thread_def Let_def split: option.splits)

theorem refused_thread_still_replaces_agent_witness:
  "let agent = \<lparr>ai_id = 42, ai_tenant_id = 7, ai_workspace_id = 9, ai_name = lit ''mallory'',
      ai_role = lit ''coder'', ai_config = []\<rparr>
   in fst (provision_agent_thread agent (Some 51) (lit ''active'') registry_store)
       = Inl (ValueError (lit ''thread_id already belongs to another scope''))
     \<and> map_option ai_name (dict_get (st_agents registry_store) 42) = Some (lit ''bob'')
     \<and> map_option ai_name (dict_get (st_agents
         (snd (provision_agent_thread agent (Some 51) (lit ''active'') registry_store))) 42)
       = Some (lit ''mallory'')"
proof -
  let ?agent = "\<lparr>ai_id = 42, ai_tenant_id = 7, ai_workspace_id = 9, ai_name = lit ''mallory'',
      ai_role = lit ''coder'', ai_config = []\<rparr>"
  have "case dict_get (st_threads registry_store) 51 of None \<Rightarrow> False | Some t \<Rightarrow> ti_workspace_id t = 8"
    by code_simp
  then obtain t where t: "dict_get (st_threads registry_store) 51 = Some t" "ti_workspace_id t = 8"
    by (auto split: option.splits)
  have b: "map_option ai_name (dict_get (st_agents registry_store) 42) = Some (lit ''bob'')" by code_simp
  have a: "case dict_get (st_agents registry_store) 42 of None \<Rightarrow> True
      | Some a \<Rightarrow> ai_tenant_id a = 7 \<and> ai_workspace_id a = 9" by code_simp
  have "ti_tenant_id t \<noteq> ai_tenant_id ?agent \<or> ti_workspace_id t \<noteq> ai_workspace_id ?agent"
    using t(2) by simp
  from refused_thread_still_replaces_agent [OF t(1) this, of "lit ''active''"] a b show ?thesis
    by (auto split: option.splits)
qed

section \<open>Counters and index freshness\<close>

definition owned_by :: "uuid option \<Rightarrow> uuid \<Rightarrow> bool" where
  "owned_by tenant_id t \<longleftrightarrow> (case tenant_id of None \<Rightarrow> True | Some x \<Rightarrow> t = x)"

definition count_of :: "('a \<Rightarrow> bool) \<Rightarrow> 'a list \<Rightarrow> real" where
  "count_of P xs = real (length (filter P xs))"

definition collect_metrics :: "uuid option \<Rightarrow> store \<Rightarrow> (str, real) dict" where
  "collect_metrics tenant_id s =
    [(lit ''memory_items_total'', count_of (\<lambda>i. owned_by tenant_id (mi_tenant_id i)) (dict_values (st_items s))),
     (lit ''observations_total'', count_of (\<lambda>i. owned_by tenant_id (ob_tenant_id i)) (dict_values (st_observations s))),
     (lit ''outbox_pending_total'', count_of (\<lambda>e. owned_by tenant_id (ie_tenant_id e)) (st_events s)),
     (lit ''outbox_dead_letter_total'', 0),
     (lit ''outbox_lag_seconds'', 0),
     (lit ''processed_events_inflight_total'', 0),
     (lit ''checkpoints_total'', 0),
     (lit ''audit_events_total'', count_of (\<lambda>e. owned_by tenant_id (ae_tenant_id e)) (dict_values (st_audit_events s))),
     (lit ''api_keys_total'', count_of (\<lambda>r. owned_by tenant_id (ak_tenant_id r)) (dict_values (st_api_keys s))),
     (lit ''api_keys_revoked_total'',
        count_of (\<lambda>r. owned_by tenant_id (ak_tenant_id r) \<and> ak_revoked r) (dict_values (st_api_keys s)))]"

definition workspace_embedding_stale :: "uuid \<Rightarrow> uuid \<Rightarrow> store \<Rightarrow> bool" where
  "workspace_embedding_stale tenant_id workspace_id s =
    list_ex (\<lambda>e. ie_tenant_id e = tenant_id \<and> ie_workspace_id e = workspace_id
        \<and> ie_name e = lit ''memory.retained.v1'') (st_events s)"

definition active_heads :: "uuid \<Rightarrow> uuid \<Rightarrow> store \<Rightarrow> memory_item list" where
  "active_heads tenant_id workspace_id s =
    filter (\<lambda>item. mi_tenant_id item = tenant_id \<and> mi_workspace_id item = workspace_id
        \<and> mi_status item \<notin> {Rejected, Archived}
        \<and> \<not> list_ex (\<lambda>child. mi_supersedes_id child = Some (mi_id item)) (dict_values (st_items s)))
      (dict_values (st_items s))"

definition pending_memory_ids :: "uuid \<Rightarrow> uuid \<Rightarrow> store \<Rightarrow> uuid option list" where
  "pending_memory_ids tenant_id workspace_id s =
    map ie_correlation_id (filter (\<lambda>e. ie_tenant_id e = tenant_id \<and> ie_workspace_id e = workspace_id
        \<and> ie_name e = lit ''memory.retained.v1'') (st_events s))"

definition workspace_embedding_freshness :: "uuid \<Rightarrow> uuid \<Rightarrow> store \<Rightarrow> index_freshness" where
  "workspace_embedding_freshness tenant_id workspace_id s =
    (let active = active_heads tenant_id workspace_id s;
         pending_ids = pending_memory_ids tenant_id workspace_id s;
         unpublished = length (filter (\<lambda>i. Some (mi_id i) \<in> set pending_ids) active);
         missing = length (filter (\<lambda>i. Some (mi_id i) \<notin> set pending_ids) active)
     in \<lparr>ix_active_memory_count = length active,
         ix_stale_memory_count = unpublished + missing,
         ix_unpublished_memory_count = unpublished,
         ix_processing_memory_count = 0,
         ix_dead_letter_memory_count = 0,
         ix_missing_delivery_memory_count = missing\<rparr>)"

lemma freshness_conservative:
  "ix_stale_memory_count (workspace_embedding_freshness t w s)
    = ix_active_memory_count (workspace_embedding_freshness t w s)"
  using sum_length_filter_compl
  by (simp add: workspace_embedding_freshness_def Let_def)

end
