(* ===== verification/StoreGraph.thy ===== *)
theory StoreGraph
  imports StoreTurns
begin

text \<open>
  Observations, conflict reviews and graph edges of \<open>InMemoryMemoryStore\<close>, the repository views over
  them, and the graph service (\<open>services/graph.py\<close>). The interesting operation is the atomic
  application of a conflict resolution to the ledger.
\<close>

section \<open>Observations\<close>

definition save_observation ::
  "observation \<Rightarrow> audit_event option \<Rightarrow> store \<Rightarrow> observation res \<times> store"
where
  "save_observation b audit s =
    (let tbl = dict_setdefault (ob_id b) b (st_observations s)
     in (dict_index tbl (ob_id b), with_audit audit (s\<lparr>st_observations := tbl\<rparr>)))"

definition list_observations :: "uuid \<Rightarrow> uuid \<Rightarrow> store \<Rightarrow> observation list" where
  "list_observations tenant_id workspace_id s =
    filter (\<lambda>b. ob_tenant_id b = tenant_id \<and> ob_workspace_id b = workspace_id)
      (dict_values (st_observations s))"

text \<open>\<open>InMemoryObservationRepository.list_for_workspace\<close> takes a page and ignores it.\<close>

definition list_observations_for_workspace ::
  "uuid \<Rightarrow> uuid \<Rightarrow> int option \<Rightarrow> int \<Rightarrow> store \<Rightarrow> observation list"
where
  "list_observations_for_workspace tenant_id workspace_id limit offset s =
    list_observations tenant_id workspace_id s"

section \<open>Conflict reviews\<close>

definition save_conflict_review ::
  "conflict_review_decision \<Rightarrow> audit_event option \<Rightarrow> store \<Rightarrow> conflict_review_decision \<times> store"
where
  "save_conflict_review d audit s =
    (d, with_audit audit
         (s\<lparr>st_conflict_reviews := dict_set (cd_tenant_id d, cd_case_id d) d (st_conflict_reviews s)\<rparr>))"

definition list_conflict_reviews :: "uuid \<Rightarrow> uuid \<Rightarrow> store \<Rightarrow> conflict_review_decision list" where
  "list_conflict_reviews tenant_id workspace_id s =
    filter (\<lambda>d. cd_tenant_id d = tenant_id \<and> cd_workspace_id d = workspace_id)
      (dict_values (st_conflict_reviews s))"

type_synonym resolution_write = "memory_item \<times> integration_event \<times> int"

definition check_write :: "conflict_review_decision \<Rightarrow> store \<Rightarrow> resolution_write \<Rightarrow> unit res" where
  "check_write d s wr =
    (case wr of (item, event, expected) \<Rightarrow>
      if mi_tenant_id item \<noteq> cd_tenant_id d \<or> mi_workspace_id item \<noteq> cd_workspace_id d then
        Inl (ValueError (lit ''conflict resolution write crosses decision scope''))
      else (case mi_supersedes_id item of
        None \<Rightarrow> Inl (ValueError (lit ''conflict resolution replacement must declare supersedes_id''))
      | Some parent_id \<Rightarrow>
          (case get_item (mi_tenant_id item) parent_id s of
             None \<Rightarrow> Inl (KeyError (lit ''conflict evidence memory not found''))
           | Some parent \<Rightarrow>
               let head = latest_descendant (dict_values (st_items s)) (mi_tenant_id parent) parent
               in if mi_id head \<noteq> mi_id parent \<or> mi_revision parent \<noteq> expected
                  then Inl (MemoryRevisionConflictError (mi_id parent) expected (Some (mi_revision head)))
                  else Inr ())))"

fun apply_writes :: "resolution_write list \<Rightarrow> store \<Rightarrow> store" where
  "apply_writes [] s = s"
| "apply_writes ((item, event, expected) # ws) s =
    apply_writes ws (s\<lparr>st_items := dict_set (mi_id item) item (st_items s),
                       st_events := st_events s @ [event]\<rparr>)"

definition apply_conflict_resolution ::
  "conflict_review_decision \<Rightarrow> resolution_write list \<Rightarrow> audit_event option \<Rightarrow> store
    \<Rightarrow> conflict_review_decision res \<times> store"
where
  "apply_conflict_resolution d writes audit s =
    (let key = (cd_tenant_id d, cd_case_id d);
         existing = dict_get (st_conflict_reviews s) key
     in case existing of
          Some e \<Rightarrow>
            if cd_status e = cd_status d \<and> cd_winner_value e = cd_winner_value d
               \<and> cd_applied_memory_id e \<noteq> None
            then (Inr e, s)
            else if cd_applied_memory_id e \<noteq> None
            then (Inl (ValueError (lit ''conflict resolution is already applied and immutable'')), s)
            else (case res_map (check_write d s) writes of
                    Inl x \<Rightarrow> (Inl x, s)
                  | Inr _ \<Rightarrow> (Inr d, with_audit audit ((apply_writes writes s)
                      \<lparr>st_conflict_reviews := dict_set key d (st_conflict_reviews s)\<rparr>)))
        | None \<Rightarrow>
            (case res_map (check_write d s) writes of
               Inl x \<Rightarrow> (Inl x, s)
             | Inr _ \<Rightarrow> (Inr d, with_audit audit ((apply_writes writes s)
                 \<lparr>st_conflict_reviews := dict_set key d (st_conflict_reviews s)\<rparr>))))"

section \<open>Graph edges\<close>

definition save_edge :: "memory_edge \<Rightarrow> audit_event option \<Rightarrow> store \<Rightarrow> memory_edge res \<times> store" where
  "save_edge e audit s =
    (let tbl = dict_setdefault (me_id e) e (st_edges s)
     in (dict_index tbl (me_id e), with_audit audit (s\<lparr>st_edges := tbl\<rparr>)))"

definition after_edge :: "memory_edge \<Rightarrow> datetime option \<Rightarrow> uuid option \<Rightarrow> bool" where
  "after_edge e after_created_at after_edge_id =
    (case (after_created_at, after_edge_id) of
       (Some a, Some i) \<Rightarrow> (a, i) < (me_created_at e, me_id e)
     | _ \<Rightarrow> True)"

definition list_neighbors ::
  "uuid \<Rightarrow> uuid \<Rightarrow> uuid \<Rightarrow> memory_edge_type option \<Rightarrow> datetime option \<Rightarrow> uuid option \<Rightarrow> int
    \<Rightarrow> store \<Rightarrow> memory_edge list"
where
  "list_neighbors tenant_id workspace_id item_id edge_type after_created_at after_edge_id limit s =
    (let rows = filter (\<lambda>e. me_tenant_id e = tenant_id \<and> me_workspace_id e = workspace_id
            \<and> (me_src_id e = item_id \<or> me_dst_id e = item_id)
            \<and> (case edge_type of None \<Rightarrow> True | Some k \<Rightarrow> me_edge_type e = k)
            \<and> after_edge e after_created_at after_edge_id)
          (dict_values (st_edges s));
         safe_limit = max 1 (min limit 501)
     in py_take safe_limit (sort_key (\<lambda>e. (me_created_at e, me_id e)) rows))"

definition list_edges_for_workspace :: "uuid \<Rightarrow> uuid \<Rightarrow> store \<Rightarrow> memory_edge list" where
  "list_edges_for_workspace tenant_id workspace_id s =
    sort_key (\<lambda>e. (me_created_at e, me_id e))
      (filter (\<lambda>e. me_tenant_id e = tenant_id \<and> me_workspace_id e = workspace_id)
        (dict_values (st_edges s)))"

text \<open>\<open>GraphService.link\<close>; the generated identity and creation time are arguments.\<close>

definition graph_link ::
  "uuid \<Rightarrow> datetime \<Rightarrow> uuid \<Rightarrow> uuid \<Rightarrow> uuid \<Rightarrow> uuid \<Rightarrow> memory_edge_type \<Rightarrow> real \<Rightarrow> uuid option
    \<Rightarrow> audit_event option \<Rightarrow> store \<Rightarrow> memory_edge res \<times> store"
where
  "graph_link new_id now tenant_id workspace_id src_id dst_id edge_type weight provenance_item_id audit s =
    (case (get_item tenant_id src_id s, get_item tenant_id dst_id s) of
       (Some src, Some dst) \<Rightarrow>
         if mi_workspace_id src \<noteq> workspace_id \<or> mi_workspace_id dst \<noteq> workspace_id then
           (Inl (ValueError (lit ''memory edge endpoints must share workspace'')), s)
         else (case memory_edge_post_init
                  \<lparr>me_id = new_id, me_tenant_id = tenant_id, me_workspace_id = workspace_id,
                   me_src_id = src_id, me_dst_id = dst_id, me_edge_type = edge_type,
                   me_weight = weight, me_valid_from = None, me_valid_to = None,
                   me_provenance_item_id = provenance_item_id, me_created_at = now\<rparr> of
                 Inl e \<Rightarrow> (Inl e, s)
               | Inr edge \<Rightarrow> save_edge edge audit s)
     | _ \<Rightarrow> (Inl (KeyError (lit ''memory edge endpoint not found'')), s))"

definition graph_neighbors ::
  "uuid \<Rightarrow> uuid \<Rightarrow> uuid \<Rightarrow> memory_edge_type option \<Rightarrow> datetime option \<Rightarrow> uuid option \<Rightarrow> int
    \<Rightarrow> store \<Rightarrow> memory_edge list"
where
  "graph_neighbors = list_neighbors"

section \<open>The graph stays inside the ledger\<close>

text \<open>Every edge joins two distinct stored memories of its own tenant and workspace.\<close>

definition edges_ok :: "store \<Rightarrow> bool" where
  "edges_ok s \<longleftrightarrow> table_ok me_id (st_edges s) \<and>
    (\<forall>i e. dict_get (st_edges s) i = Some e \<longrightarrow>
       me_src_id e \<noteq> me_dst_id e \<and> unit_interval (me_weight e)
       \<and> (\<forall>x \<in> {me_src_id e, me_dst_id e}. \<exists>m. get_item (me_tenant_id e) x s = Some m
            \<and> mi_workspace_id m = me_workspace_id e))"

lemma graph_link_cases:
  assumes "graph_link n now t w a b ty wt p audit s = (r, s')"
  obtains (refused) x where "r = Inl x" "s' = s"
  | (linked) e src dst where "r = dict_index (dict_setdefault (me_id e) e (st_edges s)) (me_id e)"
      "s' = with_audit audit (s\<lparr>st_edges := dict_setdefault (me_id e) e (st_edges s)\<rparr>)"
      "get_item t a s = Some src" "get_item t b s = Some dst"
      "mi_workspace_id src = w" "mi_workspace_id dst = w"
      "me_tenant_id e = t" "me_workspace_id e = w" "me_src_id e = a" "me_dst_id e = b" "me_id e = n"
      "a \<noteq> b" "unit_interval (me_weight e)"
proof (cases "get_item t a s")
  case None
  with assms show thesis by (intro refused) (auto simp: graph_link_def)
next
  case src: (Some src)
  show thesis
  proof (cases "get_item t b s")
    case None
    with assms src show thesis by (intro refused) (auto simp: graph_link_def)
  next
    case dst: (Some dst)
    let ?e = "\<lparr>me_id = n, me_tenant_id = t, me_workspace_id = w, me_src_id = a, me_dst_id = b,
       me_edge_type = ty, me_weight = wt, me_valid_from = None, me_valid_to = None,
       me_provenance_item_id = p, me_created_at = now\<rparr>"
    show thesis
    proof (cases "mi_workspace_id src = w \<and> mi_workspace_id dst = w \<and> a \<noteq> b \<and> unit_interval wt")
      case True
      then have "memory_edge_post_init ?e = Inr ?e" by (simp add: memory_edge_post_init_def window_ok_def)
      with True assms src dst show thesis
        by (intro linked [of ?e src dst]) (auto simp: graph_link_def save_edge_def Let_def)
    next
      case False
      have "\<exists>x. graph_link n now t w a b ty wt p audit s = (Inl x, s)"
      proof (cases "mi_workspace_id src = w \<and> mi_workspace_id dst = w")
        case True
        with False have "\<exists>x. memory_edge_post_init ?e = Inl x"
          by (auto simp: memory_edge_post_init_def window_ok_def)
        with True src dst show ?thesis by (auto simp: graph_link_def)
      next
        case False
        with src dst show ?thesis by (auto simp: graph_link_def)
      qed
      with assms show thesis by (auto intro: refused)
    qed
  qed
qed

text \<open>
  (unlisted): The graph stays inside the ledger: linking preserves that every edge joins two distinct stored
  memories of the edge's tenant and workspace with a weight in the unit interval, and a refused
  link leaves the store as it was.
\<close>

theorem graph_link_preserves_edges:
  assumes "edges_ok s" and "graph_link n now t w a b ty wt p audit s = (r, s')"
  shows "edges_ok s' \<and> (\<forall>x. r = Inl x \<longrightarrow> s' = s) \<and> st_items s' = st_items s"
  using assms(2)
proof (cases rule: graph_link_cases)
  case (refused x)
  then show ?thesis using assms(1) by simp
next
  case (linked e src dst)
  have items: "st_items s' = st_items s" using linked by simp
  then have get: "get_item t' i s' = get_item t' i s" for t' i by (simp add: get_item_def)
  have tbl: "table_ok me_id (st_edges s')"
    using assms(1) linked by (auto simp: edges_ok_def dict_setdefault_def intro: table_ok_set split: option.splits)
  have ends: "\<exists>m. get_item t x s = Some m \<and> mi_workspace_id m = w" if "x \<in> {a, b}" for x
    using linked that by auto
  have "me_src_id q \<noteq> me_dst_id q \<and> unit_interval (me_weight q)
       \<and> (\<forall>x \<in> {me_src_id q, me_dst_id q}. \<exists>m. get_item (me_tenant_id q) x s' = Some m
            \<and> mi_workspace_id m = me_workspace_id q)" if q: "dict_get (st_edges s') i = Some q" for i q
  proof (cases "dict_get (st_edges s) i = Some q")
    case True
    with assms(1) show ?thesis unfolding edges_ok_def get by blast
  next
    case False
    with q linked(2) have "q = e" by (auto split: if_splits)
    with linked ends show ?thesis unfolding get by simp
  qed
  moreover have "\<exists>q. r = Inr q"
    using linked(1) by (auto simp: dict_index_def split: option.splits)
  ultimately show ?thesis using tbl items by (auto simp: edges_ok_def)
qed

definition graph_store :: store where
  "graph_store = snd (retain (sample_item 2 7 8 (lit ''milk'')) (sample_event 22 7 8) None None
     (snd (retain (sample_item 1 7 8 (lit ''tea'')) (sample_event 21 7 8) None None empty_store)))"

theorem graph_link_preserves_edges_witness:
  "edges_ok (snd (graph_link 61 5 7 8 1 2 Supports 1 None None graph_store))
   \<and> map fst (st_edges (snd (graph_link 61 5 7 8 1 2 Supports 1 None None graph_store))) = [61]"
proof -
  have "st_edges graph_store = []" by code_simp
  then have "edges_ok graph_store" by (simp add: edges_ok_def table_ok_def)
  from graph_link_preserves_edges [OF this prod.collapse [symmetric]]
  have "edges_ok (snd (graph_link 61 5 7 8 1 2 Supports 1 None None graph_store))" by blast
  moreover have "map fst (st_edges (snd (graph_link 61 5 7 8 1 2 Supports 1 None None graph_store))) = [61]"
    by code_simp
  ultimately show ?thesis by blast
qed

section \<open>Conflict resolutions and the ledger\<close>

lemma apply_writes_frame [frame_simps, simp]:
  "st_idempotency (apply_writes ws s) = st_idempotency s"
  "st_conflict_reviews (apply_writes ws s) = st_conflict_reviews s"
  "st_turns (apply_writes ws s) = st_turns s" "st_proposals (apply_writes ws s) = st_proposals s"
  "st_audit_events (apply_writes ws s) = st_audit_events s"
  by (induction ws s rule: apply_writes.induct) simp_all

lemma apply_conflict_resolution_cases:
  assumes "apply_conflict_resolution d writes audit s = (r, s')"
  obtains (replay) e where "dict_get (st_conflict_reviews s) (cd_tenant_id d, cd_case_id d) = Some e"
      "cd_applied_memory_id e \<noteq> None" "s' = s"
      "r \<in> {Inr e, Inl (ValueError (lit ''conflict resolution is already applied and immutable''))}"
  | (refused) x where "res_map (check_write d s) writes = Inl x" "r = Inl x" "s' = s"
  | (applied) us where "res_map (check_write d s) writes = Inr us" "r = Inr d"
      "\<And>e. dict_get (st_conflict_reviews s) (cd_tenant_id d, cd_case_id d) = Some e \<Longrightarrow>
         cd_applied_memory_id e = None"
      "s' = with_audit audit ((apply_writes writes s)
         \<lparr>st_conflict_reviews := dict_set (cd_tenant_id d, cd_case_id d) d (st_conflict_reviews s)\<rparr>)"
proof (cases "\<exists>e. dict_get (st_conflict_reviews s) (cd_tenant_id d, cd_case_id d) = Some e
    \<and> cd_applied_memory_id e \<noteq> None")
  case True
  then obtain e where e: "dict_get (st_conflict_reviews s) (cd_tenant_id d, cd_case_id d) = Some e"
    "cd_applied_memory_id e \<noteq> None" by blast
  with assms show thesis
    by (intro replay [of e]) (auto simp: apply_conflict_resolution_def Let_def split: if_splits)
next
  case False
  then have open': "cd_applied_memory_id e = None"
    if "dict_get (st_conflict_reviews s) (cd_tenant_id d, cd_case_id d) = Some e" for e
    using that by auto
  show thesis
  proof (cases "res_map (check_write d s) writes")
    case (Inl x)
    with assms open' show thesis
      by (intro refused [OF Inl])
        (auto simp: apply_conflict_resolution_def Let_def split: option.splits)
  next
    case (Inr us)
    with assms open' show thesis
      by (intro applied [OF Inr _ open'])
        (auto simp: apply_conflict_resolution_def Let_def split: option.splits)
  qed
qed

text \<open>
  (unlisted): A conflict resolution applies once. A refused resolution writes nothing; after one that
  recorded an applied memory, any further attempt on the case returns the recorded decision or is
  refused as immutable, and never changes the store.
\<close>

theorem resolution_applies_once:
  assumes "apply_conflict_resolution d writes audit s = (r, s1)"
  shows "(\<forall>x. r = Inl x \<longrightarrow> s1 = s)
    \<and> (r = Inr d \<and> cd_applied_memory_id d \<noteq> None \<and> cd_tenant_id d' = cd_tenant_id d
         \<and> cd_case_id d' = cd_case_id d \<longrightarrow>
       apply_conflict_resolution d' writes' audit' s1
        \<in> {(Inr d, s1), (Inl (ValueError (lit ''conflict resolution is already applied and immutable'')), s1)})"
  using assms
proof (cases rule: apply_conflict_resolution_cases)
  case (replay e)
  then show ?thesis by (auto simp: apply_conflict_resolution_def Let_def)
next
  case (applied us)
  then show ?thesis by (auto simp: apply_conflict_resolution_def Let_def)
qed simp

lemma extends_lineage_insert:
  assumes a: "extends_lineage tbl a" and b: "extends_lineage tbl b"
    and ids: "mi_id a \<noteq> mi_id b" and parents: "mi_supersedes_id a \<noteq> mi_supersedes_id b"
  shows "extends_lineage (dict_set (mi_id b) b tbl) a"
  unfolding extends_lineage_def
proof (intro conjI allI impI)
  show "dict_get (dict_set (mi_id b) b tbl) (mi_id a) = None"
    using a ids by (simp add: extends_lineage_def)
next
  fix p assume p: "mi_supersedes_id a = Some p"
  then obtain q where q: "dict_get tbl p = Some q" "mi_tenant_id q = mi_tenant_id a"
    "mi_revision a = mi_revision q + 1"
    using a unfolding extends_lineage_def by blast
  have "dict_get tbl (mi_id b) = None" using b by (simp add: extends_lineage_def)
  with q(1) have "p \<noteq> mi_id b" by auto
  with q show "\<exists>q. dict_get (dict_set (mi_id b) b tbl) p = Some q \<and> mi_tenant_id q = mi_tenant_id a
      \<and> mi_revision a = mi_revision q + 1" by simp
next
  fix p i c
  assume p: "mi_supersedes_id a = Some p" and c: "dict_get (dict_set (mi_id b) b tbl) i = Some c"
  show "mi_supersedes_id c \<noteq> Some p"
  proof (cases "i = mi_id b")
    case True
    with c p parents show ?thesis by auto
  next
    case False
    with c have "dict_get tbl i = Some c" by simp
    with a p show ?thesis unfolding extends_lineage_def by blast
  qed
qed

lemma apply_writes_ledger:
  assumes "ledger_ok s" and "\<And>item e x. (item, e, x) \<in> set ws \<Longrightarrow> extends_lineage (st_items s) item"
    and "distinct (map (\<lambda>w. mi_id (fst w)) ws)" and "distinct (map (\<lambda>w. mi_supersedes_id (fst w)) ws)"
  shows "ledger_ok (apply_writes ws s)"
  using assms
proof (induction ws s rule: apply_writes.induct)
  case (2 item event expected ws s)
  let ?s = "s\<lparr>st_items := dict_set (mi_id item) item (st_items s), st_events := st_events s @ [event]\<rparr>"
  have ext: "extends_lineage (st_items s) item" using "2.prems"(2) [of item event expected] by simp
  have "ledger_ok (s\<lparr>st_items := dict_set (mi_id item) item (st_items s),
      st_idempotency := remember (mi_tenant_id item) None (mi_id item) (st_idempotency s)\<rparr>)"
    by (rule ledger_ok_insert [OF "2.prems"(1) ext])
  then have ok: "ledger_ok ?s" by (simp add: ledger_ok_def items_ok_def)
  have "extends_lineage (st_items ?s) item'" if i: "(item', e, x) \<in> set ws" for item' e x
  proof -
    have e': "extends_lineage (st_items s) item'" using "2.prems"(2) [of item' e x] i by simp
    have "mi_id item' \<noteq> mi_id item" using "2.prems"(3) i by force
    moreover have "mi_supersedes_id item' \<noteq> mi_supersedes_id item" using "2.prems"(4) i by force
    ultimately have "extends_lineage (dict_set (mi_id item) item (st_items s)) item'"
      by (rule extends_lineage_insert [OF e' ext])
    then show ?thesis by simp
  qed
  with "2.IH" [OF ok] "2.prems"(3,4) show ?case by simp
qed simp

lemma check_write_Inr:
  assumes "check_write d s (item, event, expected) = Inr ()" and ok: "ledger_ok s"
    and "dict_get (st_items s) (mi_id item) = None" and "mi_revision item = expected + 1"
  shows "extends_lineage (st_items s) item" and "mi_supersedes_id item \<noteq> None"
proof -
  obtain p q where p: "mi_supersedes_id item = Some p" "get_item (mi_tenant_id item) p s = Some q"
    "mi_id (latest_descendant (dict_values (st_items s)) (mi_tenant_id q) q) = mi_id q"
    "mi_revision q = expected"
    using assms(1) by (auto simp: check_write_def Let_def split: if_splits option.splits)
  then show "mi_supersedes_id item \<noteq> None" by simp
  show "extends_lineage (st_items s) item"
    using supersede_extends_lineage [OF ok assms(3,4) p(1,2,4,3)] .
qed

lemma apply_resolution_ledger:
  assumes "ledger_ok s"
    and "\<forall>(item, event, expected) \<in> set writes.
      dict_get (st_items s) (mi_id item) = None \<and> mi_revision item = expected + 1"
    and "distinct (map (\<lambda>w. mi_id (fst w)) writes)"
    and "distinct (map (\<lambda>w. mi_supersedes_id (fst w)) writes)"
  shows "ledger_ok (snd (apply_conflict_resolution d writes audit s))"
proof -
  obtain r s' where e: "apply_conflict_resolution d writes audit s = (r, s')" by fastforce
  then show ?thesis
  proof (cases rule: apply_conflict_resolution_cases)
    case (applied us)
    have "extends_lineage (st_items s) item" if w: "(item, ev, x) \<in> set writes" for item ev x
    proof -
      obtain u where "check_write d s (item, ev, x) = Inr u"
        using res_map_Inr_mem [OF applied(1) w] by blast
      moreover have "dict_get (st_items s) (mi_id item) = None \<and> mi_revision item = x + 1"
        using bspec [OF assms(2) w] by simp
      ultimately show ?thesis using check_write_Inr(1) [of d s item ev x] assms(1) by simp
    qed
    from apply_writes_ledger [OF assms(1) this assms(3,4)] applied e show ?thesis
      by (simp add: ledger_ok_def items_ok_def)
  qed (use assms(1) e in simp_all)
qed

text \<open>
  (unlisted): A resolution whose replacements have new identities, continue their parents by one revision
  and do not share a parent keeps every revision chain unforked.
\<close>

theorem resolution_keeps_ledger:
  assumes "ledger_ok s"
    and "\<forall>(item, event, expected) \<in> set writes.
      dict_get (st_items s) (mi_id item) = None \<and> mi_revision item = expected + 1"
    and "distinct (map (\<lambda>w. mi_id (fst w)) writes)"
    and "distinct (map (\<lambda>w. mi_supersedes_id (fst w)) writes)"
  shows "ledger_ok (snd (apply_conflict_resolution d writes audit s))"
  by (rule apply_resolution_ledger [OF assms])

definition sample_decision :: "str \<Rightarrow> uuid option \<Rightarrow> conflict_review_decision" where
  "sample_decision winner applied = \<lparr>cd_tenant_id = 7, cd_workspace_id = 8, cd_case_id = 70,
     cd_status = Accepted, cd_winner_value = Some winner, cd_reason = [],
     cd_applied_memory_id = applied, cd_updated_at = 5\<rparr>"

definition sample_write :: resolution_write where
  "sample_write = (sample_revision 4 (sample_item 1 7 8 (lit ''tea'')) (lit ''coffee''), sample_event 24 7 8, 1)"

theorem resolution_applies_once_witness:
  "apply_conflict_resolution (sample_decision (lit ''tea'') None) [] None
     (snd (apply_conflict_resolution (sample_decision (lit ''coffee'') (Some 4)) [sample_write] None graph_store))
   \<in> {(Inr (sample_decision (lit ''coffee'') (Some 4)),
       snd (apply_conflict_resolution (sample_decision (lit ''coffee'') (Some 4)) [sample_write] None graph_store)),
      (Inl (ValueError (lit ''conflict resolution is already applied and immutable'')),
       snd (apply_conflict_resolution (sample_decision (lit ''coffee'') (Some 4)) [sample_write] None graph_store))}"
proof -
  let ?d = "sample_decision (lit ''coffee'') (Some 4)"
  have "fst (apply_conflict_resolution ?d [sample_write] None graph_store) = Inr ?d" by code_simp
  then have "apply_conflict_resolution ?d [sample_write] None graph_store
      = (Inr ?d, snd (apply_conflict_resolution ?d [sample_write] None graph_store))"
    by (simp add: prod_eq_iff)
  from resolution_applies_once [OF this, of "sample_decision (lit ''tea'') None" "[]" None] show ?thesis
    by (simp add: sample_decision_def)
qed

lemma graph_store_ok: "ledger_ok graph_store"
  unfolding graph_store_def
  by (intro ledger_ok_retain empty_ledger_ok) (code_simp | simp add: sample_item_def)+

theorem resolution_keeps_ledger_witness:
  "ledger_ok (snd (apply_conflict_resolution (sample_decision (lit ''coffee'') (Some 4)) [sample_write]
     None graph_store))"
proof (rule resolution_keeps_ledger [OF graph_store_ok])
  have "dict_get (st_items graph_store) 4 = None" by code_simp
  then show "\<forall>(item, event, expected) \<in> set [sample_write].
      dict_get (st_items graph_store) (mi_id item) = None \<and> mi_revision item = expected + 1"
    by (simp add: sample_write_def sample_revision_def sample_item_def)
qed simp_all

end
