(* ===== verification/Checkpoints.thy ===== *)
theory Checkpoints
  imports Samples
begin

text \<open>
  Working-memory checkpoints: the revisioned store \<open>InMemoryCheckpointStore\<close>
  (\<open>adapters/in_memory.py\<close>) and the service in front of it (\<open>services/checkpoint.py\<close>). The service is
  written against the port \<open>CheckpointStore\<close>: its operations take the store's operations as
  arguments, the port's promises are the locale below, and the in-memory store interprets it.
\<close>

section \<open>The in-memory store\<close>

type_synonym checkpoint_state = "(uuid, checkpoint list) dict"

definition thread_revisions :: "uuid \<Rightarrow> checkpoint_state \<Rightarrow> checkpoint list" where
  "thread_revisions thread_id s = (case dict_get s thread_id of None \<Rightarrow> [] | Some revs \<Rightarrow> revs)"

definition tenant_revisions :: "uuid \<Rightarrow> uuid \<Rightarrow> checkpoint_state \<Rightarrow> checkpoint list" where
  "tenant_revisions tenant_id thread_id s =
    filter (\<lambda>r. cp_tenant_id r = tenant_id) (thread_revisions thread_id s)"

definition save_checkpoint ::
  "checkpoint \<Rightarrow> audit_event option \<Rightarrow> checkpoint_state \<Rightarrow> checkpoint \<times> checkpoint_state"
where
  "save_checkpoint c audit s = (c, dict_push (cp_thread_id c) c s)"

definition save_if_head ::
  "checkpoint \<Rightarrow> int \<Rightarrow> audit_event option \<Rightarrow> checkpoint_state \<Rightarrow> checkpoint res \<times> checkpoint_state"
where
  "save_if_head c expected audit s =
    (let revs = tenant_revisions (cp_tenant_id c) (cp_thread_id c) s;
         actual = (if revs = [] then 0 else cp_revision (last revs))
     in if actual \<noteq> expected then (Inl (StaleRevisionError (cp_thread_id c) expected (Some actual)), s)
        else (case save_checkpoint c None s of (c', s') \<Rightarrow> (Inr c', s')))"

definition get_head :: "uuid \<Rightarrow> uuid \<Rightarrow> checkpoint_state \<Rightarrow> checkpoint option" where
  "get_head tenant_id thread_id s =
    (let revs = tenant_revisions tenant_id thread_id s in if revs = [] then None else Some (last revs))"

definition get_revision :: "uuid \<Rightarrow> uuid \<Rightarrow> int \<Rightarrow> checkpoint_state \<Rightarrow> checkpoint option" where
  "get_revision tenant_id thread_id revision s =
    find (\<lambda>r. cp_tenant_id r = tenant_id \<and> cp_revision r = revision) (thread_revisions thread_id s)"

definition collect_head ::
  "uuid \<Rightarrow> uuid \<Rightarrow> (uuid, checkpoint) dict \<Rightarrow> checkpoint \<Rightarrow> (uuid, checkpoint) dict"
where
  "collect_head tenant_id workspace_id heads r =
    (if cp_tenant_id r = tenant_id \<and> cp_workspace_id r = workspace_id then
       (case dict_get heads (cp_thread_id r) of
          None \<Rightarrow> dict_set (cp_thread_id r) r heads
        | Some e \<Rightarrow> if cp_revision e < cp_revision r then dict_set (cp_thread_id r) r heads else heads)
     else heads)"

definition list_checkpoints ::
  "uuid \<Rightarrow> uuid \<Rightarrow> int option \<Rightarrow> int \<Rightarrow> checkpoint_state \<Rightarrow> checkpoint list"
where
  "list_checkpoints tenant_id workspace_id limit offset s =
    (let heads = foldl (collect_head tenant_id workspace_id) [] (concat (dict_values s));
         ordered = sort_key (\<lambda>c. (cp_created_at c, cp_id c)) (dict_values heads);
         start = max 0 offset
     in py_slice start (map_option (\<lambda>l. start + l) limit) ordered)"

definition compact_checkpoints ::
  "uuid \<Rightarrow> uuid \<Rightarrow> int \<Rightarrow> audit_event option \<Rightarrow> checkpoint_state \<Rightarrow> int \<times> checkpoint_state"
where
  "compact_checkpoints tenant_id thread_id keep_last audit s =
    (let revs = thread_revisions thread_id s;
         tenant_revs = filter (\<lambda>r. cp_tenant_id r = tenant_id) revs;
         other_revs = filter (\<lambda>r. cp_tenant_id r \<noteq> tenant_id) revs
     in if int (length tenant_revs) \<le> keep_last then (0, s)
        else (int (length tenant_revs) - keep_last,
              dict_set thread_id (other_revs @ py_drop (- keep_last) tenant_revs) s))"

section \<open>The service over the port\<close>

definition name_checkpoint :: "uuid \<Rightarrow> audit_event option \<Rightarrow> audit_event option" where
  "name_checkpoint i audit = map_option (\<lambda>a. a\<lparr>ae_resource_id := Some (uuid_str i)\<rparr>) audit"

definition service_save ::
  "(uuid \<Rightarrow> uuid \<Rightarrow> 's \<Rightarrow> checkpoint option)
    \<Rightarrow> (checkpoint \<Rightarrow> int \<Rightarrow> audit_event option \<Rightarrow> 's \<Rightarrow> checkpoint res \<times> 's)
    \<Rightarrow> uuid \<Rightarrow> datetime \<Rightarrow> uuid \<Rightarrow> uuid \<Rightarrow> uuid \<Rightarrow> metadata \<Rightarrow> audit_event option
    \<Rightarrow> 's \<Rightarrow> checkpoint res \<times> 's"
where
  "service_save head cas new_id now tenant_id workspace_id thread_id state audit s =
    (let current = (case head tenant_id thread_id s of None \<Rightarrow> 0 | Some h \<Rightarrow> cp_revision h) in
     case checkpoint_post_init
            \<lparr>cp_id = new_id, cp_tenant_id = tenant_id, cp_workspace_id = workspace_id,
             cp_thread_id = thread_id, cp_revision = current + 1, cp_state = state, cp_created_at = now\<rparr> of
       Inl e \<Rightarrow> (Inl e, s)
     | Inr c \<Rightarrow> cas c current (name_checkpoint new_id audit) s)"

definition service_update ::
  "(uuid \<Rightarrow> uuid \<Rightarrow> 's \<Rightarrow> checkpoint option)
    \<Rightarrow> (checkpoint \<Rightarrow> int \<Rightarrow> audit_event option \<Rightarrow> 's \<Rightarrow> checkpoint res \<times> 's)
    \<Rightarrow> uuid \<Rightarrow> datetime \<Rightarrow> uuid \<Rightarrow> uuid \<Rightarrow> uuid \<Rightarrow> metadata \<Rightarrow> int \<Rightarrow> audit_event option
    \<Rightarrow> 's \<Rightarrow> checkpoint res \<times> 's"
where
  "service_update head cas new_id now tenant_id workspace_id thread_id state expected audit s =
    (case head tenant_id thread_id s of
       None \<Rightarrow> (Inl (StaleRevisionError thread_id expected None), s)
     | Some h \<Rightarrow>
         (case checkpoint_post_init
                 \<lparr>cp_id = new_id, cp_tenant_id = tenant_id, cp_workspace_id = workspace_id,
                  cp_thread_id = thread_id, cp_revision = cp_revision h + 1, cp_state = state,
                  cp_created_at = now\<rparr> of
            Inl e \<Rightarrow> (Inl e, s)
          | Inr c \<Rightarrow> cas c expected (name_checkpoint new_id audit) s))"

definition service_restore :: "uuid \<Rightarrow> uuid \<Rightarrow> checkpoint_state \<Rightarrow> checkpoint option" where
  "service_restore = get_head"

definition service_restore_revision :: "uuid \<Rightarrow> uuid \<Rightarrow> int \<Rightarrow> checkpoint_state \<Rightarrow> checkpoint option" where
  "service_restore_revision = get_revision"

definition service_list ::
  "uuid \<Rightarrow> uuid \<Rightarrow> int option \<Rightarrow> int \<Rightarrow> checkpoint_state \<Rightarrow> checkpoint list" where
  "service_list = list_checkpoints"

definition service_compact ::
  "uuid \<Rightarrow> uuid \<Rightarrow> int \<Rightarrow> audit_event option \<Rightarrow> checkpoint_state \<Rightarrow> int \<times> checkpoint_state" where
  "service_compact = compact_checkpoints"

section \<open>What the port promises\<close>

definition head_revision :: "checkpoint option \<Rightarrow> int" where
  "head_revision h = (case h of None \<Rightarrow> 0 | Some c \<Rightarrow> cp_revision c)"

locale checkpoint_port =
  fixes head :: "uuid \<Rightarrow> uuid \<Rightarrow> 's \<Rightarrow> checkpoint option"
    and cas :: "checkpoint \<Rightarrow> int \<Rightarrow> audit_event option \<Rightarrow> 's \<Rightarrow> checkpoint res \<times> 's"
    and ok :: "'s \<Rightarrow> bool"
  assumes stale: "head_revision (head (cp_tenant_id c) (cp_thread_id c) s) \<noteq> expected \<Longrightarrow>
      \<exists>actual. cas c expected a s = (Inl (StaleRevisionError (cp_thread_id c) expected actual), s)"
    and fresh: "head_revision (head (cp_tenant_id c) (cp_thread_id c) s) = expected \<Longrightarrow>
      \<exists>s'. cas c expected a s = (Inr c, s') \<and> head (cp_tenant_id c) (cp_thread_id c) s' = Some c"
    and others: "(t, th) \<noteq> (cp_tenant_id c, cp_thread_id c) \<Longrightarrow>
      head t th (snd (cas c expected a s)) = head t th s"
    and positive: "ok s \<Longrightarrow> head t th s = Some h \<Longrightarrow> 1 \<le> cp_revision h"
    and ok_cas: "ok s \<Longrightarrow> 1 \<le> cp_revision c \<Longrightarrow> cp_revision c = expected + 1 \<Longrightarrow>
      ok (snd (cas c expected a s))"
begin

lemma save_succeeds:
  assumes "ok s"
  shows "\<exists>c s'. service_save head cas i now t w th st a s = (Inr c, s')
    \<and> head t th s' = Some c \<and> cp_state c = st \<and> cp_revision c = head_revision (head t th s) + 1 \<and> ok s'"
proof -
  let ?c = "\<lparr>cp_id = i, cp_tenant_id = t, cp_workspace_id = w, cp_thread_id = th,
     cp_revision = head_revision (head t th s) + 1, cp_state = st, cp_created_at = now\<rparr>"
  have pos: "1 \<le> cp_revision ?c"
    using positive [OF assms] by (cases "head t th s") (force simp: head_revision_def)+
  obtain s' where s': "cas ?c (head_revision (head t th s)) (name_checkpoint i a) s = (Inr ?c, s')"
    "head t th s' = Some ?c"
    using fresh [of ?c s "head_revision (head t th s)" "name_checkpoint i a"] by auto
  moreover have "ok s'" using ok_cas [OF assms pos, of "head_revision (head t th s)" "name_checkpoint i a"] s' by simp
  moreover have "checkpoint_post_init ?c = Inr ?c" using pos by (simp add: checkpoint_post_init_def)
  ultimately show ?thesis
    by (simp add: service_save_def head_revision_def [symmetric])
qed

text \<open>Of two updates that expect the same revision at most one is stored.\<close>

lemma update_once:
  assumes ok: "ok s" and first: "service_update head cas i now t w th st expected a s = (Inr c, s1)"
  shows "head_revision (head t th s) = expected \<and> head t th s1 = Some c
    \<and> cp_revision c = expected + 1 \<and> ok s1
    \<and> (\<exists>actual. service_update head cas i' now' t w' th st' expected a' s1
         = (Inl (StaleRevisionError th expected actual), s1))"
proof -
  from first obtain h where h: "head t th s = Some h" by (cases "head t th s") (auto simp: service_update_def)
  let ?c = "\<lparr>cp_id = i, cp_tenant_id = t, cp_workspace_id = w, cp_thread_id = th,
     cp_revision = cp_revision h + 1, cp_state = st, cp_created_at = now\<rparr>"
  have pos: "1 \<le> cp_revision h" by (rule positive [OF ok h])
  then have cas: "cas ?c expected (name_checkpoint i a) s = (Inr c, s1)"
    using first h by (simp add: service_update_def checkpoint_post_init_def)
  have hr: "head_revision (head t th s) = expected"
  proof (rule ccontr)
    assume "head_revision (head t th s) \<noteq> expected"
    then show False using stale [of ?c s expected "name_checkpoint i a"] cas by auto
  qed
  then have c: "c = ?c" "head t th s1 = Some ?c"
    using fresh [of ?c s expected "name_checkpoint i a"] cas by auto
  have rev: "cp_revision h = expected" using hr h by (simp add: head_revision_def)
  have ok1: "ok s1" using ok_cas [OF ok, of ?c expected "name_checkpoint i a"] pos rev cas by simp
  let ?d = "\<lparr>cp_id = i', cp_tenant_id = t, cp_workspace_id = w', cp_thread_id = th,
     cp_revision = expected + 1 + 1, cp_state = st', cp_created_at = now'\<rparr>"
  have "head_revision (head t th s1) \<noteq> expected" using c rev by (simp add: head_revision_def)
  then obtain actual where "cas ?d expected (name_checkpoint i' a') s1
      = (Inl (StaleRevisionError th expected actual), s1)"
    using stale [of ?d s1 expected "name_checkpoint i' a'"] by auto
  moreover have "service_update head cas i' now' t w' th st' expected a' s1
      = cas ?d expected (name_checkpoint i' a') s1"
    using c rev pos by (simp add: service_update_def checkpoint_post_init_def)
  ultimately show ?thesis using hr c rev ok1 by simp
qed

end

section \<open>The in-memory store keeps the promises\<close>

text \<open>The revisions a tenant has stored for a thread are consecutive and positive.\<close>

definition consecutive :: "int list \<Rightarrow> bool" where
  "consecutive xs \<longleftrightarrow> (\<exists>a b. 1 \<le> a \<and> xs = [a..b])"

definition history_ok :: "checkpoint_state \<Rightarrow> bool" where
  "history_ok s \<longleftrightarrow> dict_ok s
     \<and> (\<forall>th r. r \<in> set (thread_revisions th s) \<longrightarrow> cp_thread_id r = th)
     \<and> (\<forall>t th. consecutive (map cp_revision (tenant_revisions t th s)))"

lemma consecutive_Nil [simp]: "consecutive []"
  unfolding consecutive_def by (rule exI [of _ 1], rule exI [of _ 0]) simp

lemma consecutive_snoc:
  assumes "consecutive xs" and "n = (if xs = [] then 0 else last xs) + 1"
  shows "consecutive (xs @ [n])"
proof (cases "xs = []")
  case True
  have "consecutive [1]" unfolding consecutive_def by (rule exI [of _ 1], rule exI [of _ 1]) simp
  with True assms(2) show ?thesis by simp
next
  case False
  with assms(1) obtain a b where ab: "1 \<le> a" "xs = [a..b]" "a \<le> b"
    by (fastforce simp: consecutive_def)
  then have "last xs = b" by (simp add: upto_rec2)
  with assms(2) False have "n = b + 1" by simp
  then have "xs @ [n] = [a..b + 1]" using ab upto_rec2 [of a "b + 1"] by simp
  with ab show ?thesis by (auto simp: consecutive_def)
qed

lemma drop_upto: "drop n [a..b] = [a + int n..b]"
proof (induction n arbitrary: a)
  case (Suc n)
  show ?case
  proof (cases "a \<le> b")
    case True
    then show ?thesis using Suc [of "a + 1"] by (simp add: upto_rec1 algebra_simps)
  qed simp
qed simp

lemma consecutive_drop: "consecutive xs \<Longrightarrow> consecutive (drop n xs)"
proof -
  assume "consecutive xs"
  then obtain a b where "1 \<le> a" "xs = [a..b]" by (auto simp: consecutive_def)
  then have "1 \<le> a + int n \<and> drop n xs = [a + int n..b]" by (simp add: drop_upto)
  then show ?thesis unfolding consecutive_def by blast
qed

lemma consecutive_pos: "consecutive xs \<Longrightarrow> x \<in> set xs \<Longrightarrow> 1 \<le> x"
  by (auto simp: consecutive_def)

lemma get_head_None: "get_head t th s = None \<longleftrightarrow> tenant_revisions t th s = []"
  by (simp add: get_head_def Let_def)

lemma head_revision_get_head:
  "head_revision (get_head t th s)
    = (if tenant_revisions t th s = [] then 0 else cp_revision (last (tenant_revisions t th s)))"
  by (simp add: get_head_def head_revision_def Let_def)

lemma thread_revisions_push:
  "thread_revisions th (dict_push th' c s)
    = (if th = th' then thread_revisions th s @ [c] else thread_revisions th s)"
  by (auto simp: thread_revisions_def dict_push_get split: option.splits)

lemma tenant_revisions_push:
  "tenant_revisions t th (dict_push (cp_thread_id c) c s)
    = (if th = cp_thread_id c \<and> t = cp_tenant_id c then tenant_revisions t th s @ [c]
       else tenant_revisions t th s)"
  by (auto simp: tenant_revisions_def thread_revisions_push)

lemma save_if_head_simps:
  "head_revision (get_head (cp_tenant_id c) (cp_thread_id c) s) \<noteq> expected \<Longrightarrow>
    save_if_head c expected a s = (Inl (StaleRevisionError (cp_thread_id c) expected
      (Some (head_revision (get_head (cp_tenant_id c) (cp_thread_id c) s)))), s)"
  "head_revision (get_head (cp_tenant_id c) (cp_thread_id c) s) = expected \<Longrightarrow>
    save_if_head c expected a s = (Inr c, dict_push (cp_thread_id c) c s)"
  by (simp_all add: save_if_head_def head_revision_get_head save_checkpoint_def Let_def)

lemma get_head_push:
  "get_head t th (dict_push (cp_thread_id c) c s)
    = (if (t, th) = (cp_tenant_id c, cp_thread_id c) then Some c else get_head t th s)"
  by (auto simp: get_head_def tenant_revisions_push Let_def)

lemma history_ok_push:
  assumes "history_ok s"
    and "cp_revision c = head_revision (get_head (cp_tenant_id c) (cp_thread_id c) s) + 1"
  shows "history_ok (dict_push (cp_thread_id c) c s)"
proof -
  have "consecutive (map cp_revision (tenant_revisions t th (dict_push (cp_thread_id c) c s)))" for t th
  proof (cases "th = cp_thread_id c \<and> t = cp_tenant_id c")
    case True
    let ?rs = "tenant_revisions t th s"
    have "consecutive (map cp_revision ?rs @ [cp_revision c])"
      using assms True
      by (intro consecutive_snoc) (auto simp: history_ok_def head_revision_get_head last_map)
    with True show ?thesis by (simp add: tenant_revisions_push)
  next
    case False
    then show ?thesis using assms(1) by (auto simp: tenant_revisions_push history_ok_def)
  qed
  with assms(1) show ?thesis
    by (auto simp: history_ok_def thread_revisions_push split: if_splits)
qed

interpretation checkpoints: checkpoint_port get_head save_if_head history_ok
proof (unfold_locales, goal_cases)
  case (1 c s expected a)
  then show ?case by (simp add: save_if_head_simps)
next
  case (2 c s expected a)
  then show ?case by (simp add: save_if_head_simps get_head_push)
next
  case (3 t th c expected a s)
  then show ?case
    by (cases "head_revision (get_head (cp_tenant_id c) (cp_thread_id c) s) = expected")
      (auto simp: save_if_head_simps get_head_push)
next
  case (4 s t th h)
  then have "h \<in> set (tenant_revisions t th s)"
    by (auto simp: get_head_def Let_def split: if_splits)
  then have "cp_revision h \<in> set (map cp_revision (tenant_revisions t th s))" by simp
  with 4(1) show ?case unfolding history_ok_def by (metis consecutive_pos)
next
  case (5 s c expected a)
  then show ?case
    by (cases "head_revision (get_head (cp_tenant_id c) (cp_thread_id c) s) = expected")
      (simp_all add: save_if_head_simps history_ok_push)
qed

section \<open>Compaction\<close>

lemma filter_split_tenant:
  "filter (\<lambda>r. cp_tenant_id r \<noteq> u \<and> cp_tenant_id r = t) rs
    = (if t = u then [] else filter (\<lambda>r. cp_tenant_id r = t) rs)"
  by (induction rs) auto

lemma compact_revisions:
  assumes "1 \<le> keep"
  shows "tenant_revisions t' th' (snd (compact_checkpoints t th keep a s))
      = (if t' = t \<and> th' = th then drop (length (tenant_revisions t th s) - nat keep) (tenant_revisions t th s)
         else tenant_revisions t' th' s)"
    and "fst (compact_checkpoints t th keep a s) = max 0 (int (length (tenant_revisions t th s)) - keep)"
    and "set (thread_revisions th' (snd (compact_checkpoints t th keep a s))) \<subseteq> set (thread_revisions th' s)"
proof -
  let ?mine = "tenant_revisions t th s"
  let ?kept = "drop (length ?mine - nat keep) ?mine"
  have sub: "set ?kept \<subseteq> set (thread_revisions th s)"
    by (auto simp: tenant_revisions_def dest: in_set_dropD)
  have all: "filter (\<lambda>r. cp_tenant_id r = t') ?kept = (if t' = t then ?kept else [])"
    by (auto simp: filter_id_conv filter_empty_conv tenant_revisions_def dest: in_set_dropD)
  have "compact_checkpoints t th keep a s = (if int (length ?mine) \<le> keep then (0, s)
      else (int (length ?mine) - keep,
            dict_set th (filter (\<lambda>r. cp_tenant_id r \<noteq> t) (thread_revisions th s) @ ?kept) s))"
    using py_drop_neg [of keep ?mine] assms by (simp add: compact_checkpoints_def Let_def tenant_revisions_def)
  note step = this
  have "tenant_revisions t' th (dict_set th (filter (\<lambda>r. cp_tenant_id r \<noteq> t) (thread_revisions th s) @ ?kept) s)
      = (if t' = t then ?kept else tenant_revisions t' th s)"
    using all by (simp add: tenant_revisions_def [of t'] thread_revisions_def [of _ "dict_set _ _ _"]
        filter_split_tenant)
  moreover have "tenant_revisions t' th' (dict_set th rs s) = tenant_revisions t' th' s" if "th' \<noteq> th" for rs
    using that by (simp add: tenant_revisions_def thread_revisions_def)
  moreover have "int (length ?mine) \<le> keep \<Longrightarrow> ?kept = ?mine" by simp
  ultimately show "tenant_revisions t' th' (snd (compact_checkpoints t th keep a s))
      = (if t' = t \<and> th' = th then ?kept else tenant_revisions t' th' s)"
    unfolding step by (auto split: if_splits)
  show "fst (compact_checkpoints t th keep a s) = max 0 (int (length ?mine) - keep)"
    unfolding step by simp
  show "set (thread_revisions th' (snd (compact_checkpoints t th keep a s))) \<subseteq> set (thread_revisions th' s)"
    unfolding step using sub by (auto simp: thread_revisions_def)
qed

lemma get_head_compact:
  assumes "1 \<le> keep"
  shows "get_head t' th' (snd (compact_checkpoints t th keep a s)) = get_head t' th' s"
proof -
  let ?mine = "tenant_revisions t th s"
  have "0 < nat keep" using assms by simp
  then have "drop (length ?mine - nat keep) ?mine = [] \<longleftrightarrow> ?mine = []" by (cases ?mine) auto
  then show ?thesis by (auto simp: get_head_def compact_revisions [OF assms] Let_def)
qed

lemma dict_ok_compact: "dict_ok s \<Longrightarrow> dict_ok (snd (compact_checkpoints t th keep a s))"
  by (simp add: compact_checkpoints_def Let_def)

lemma history_ok_compact:
  assumes "history_ok s" and "1 \<le> keep"
  shows "history_ok (snd (compact_checkpoints t th keep a s))"
  unfolding history_ok_def
proof (intro conjI allI impI)
  show "dict_ok (snd (compact_checkpoints t th keep a s))"
    using assms(1) by (intro dict_ok_compact) (simp add: history_ok_def)
next
  fix th' r assume "r \<in> set (thread_revisions th' (snd (compact_checkpoints t th keep a s)))"
  then have "r \<in> set (thread_revisions th' s)" using compact_revisions(3) [OF assms(2)] by blast
  then show "cp_thread_id r = th'" using assms(1) by (simp add: history_ok_def)
next
  fix t' th'
  show "consecutive (map cp_revision (tenant_revisions t' th' (snd (compact_checkpoints t th keep a s))))"
    using assms(1) unfolding compact_revisions(1) [OF assms(2)] history_ok_def
    by (auto simp: drop_map [symmetric] intro: consecutive_drop)
qed

text \<open>One call of the checkpoint service; the HTTP layer accepts \<open>keep_last\<close> from one up.\<close>

inductive checkpoint_step :: "checkpoint_state \<Rightarrow> checkpoint_state \<Rightarrow> bool" where
  save: "service_save get_head save_if_head i now t w th st a s = (r, s') \<Longrightarrow> checkpoint_step s s'"
| update: "service_update get_head save_if_head i now t w th st expected a s = (r, s') \<Longrightarrow>
    checkpoint_step s s'"
| compacted: "1 \<le> keep \<Longrightarrow> service_compact t th keep a s = (n, s') \<Longrightarrow> checkpoint_step s s'"

lemma checkpoint_step_ok:
  assumes "history_ok s" and "checkpoint_step s s'"
  shows "history_ok s'"
  using assms(2)
proof cases
  case (save i now t w th st a r)
  then show ?thesis using checkpoints.save_succeeds [OF assms(1), of i now t w th st a] by auto
next
  case (update i now t w th st expected a r)
  show ?thesis
  proof (cases r)
    case (Inl e)
    then have "s' = s"
      using update
      by (auto simp: service_update_def save_if_head_def Let_def save_checkpoint_def
          split: option.splits sum.splits if_splits)
    with assms(1) show ?thesis by simp
  next
    case (Inr c)
    with checkpoints.update_once [OF assms(1)] update show ?thesis by blast
  qed
next
  case (compacted keep t th a n)
  then show ?thesis using history_ok_compact [OF assms(1), of keep t th a]
    by (simp add: service_compact_def)
qed

text \<open>
  (unlisted): Whatever saves, conditional updates and compactions a thread has seen, the revisions stored
  for each tenant and thread are consecutive positive numbers, oldest first, and every stored
  revision can be read back by its number; the head is the last of them.
\<close>

theorem checkpoint_history_consecutive:
  assumes "checkpoint_step\<^sup>*\<^sup>* [] s"
  shows "\<exists>a b. 1 \<le> a \<and> map cp_revision (tenant_revisions t th s) = [a..b]
    \<and> (\<forall>n \<in> {a..b}. \<exists>c. service_restore_revision t th n s = Some c \<and> cp_revision c = n
          \<and> cp_tenant_id c = t \<and> cp_thread_id c = th)
    \<and> (a \<le> b \<longrightarrow> map_option cp_revision (service_restore t th s) = Some b)"
proof -
  have "history_ok []" by (simp add: history_ok_def tenant_revisions_def thread_revisions_def)
  with assms have ok: "history_ok s"
    by (induction rule: rtranclp_induct) (auto intro: checkpoint_step_ok)
  then obtain a b where ab: "1 \<le> a" "map cp_revision (tenant_revisions t th s) = [a..b]"
    unfolding history_ok_def consecutive_def by meson
  have "\<exists>c. service_restore_revision t th n s = Some c \<and> cp_revision c = n \<and> cp_tenant_id c = t
      \<and> cp_thread_id c = th" if n: "n \<in> {a..b}" for n
  proof -
    have "n \<in> set (map cp_revision (tenant_revisions t th s))" using n ab by simp
    then obtain c where "c \<in> set (thread_revisions th s)" "cp_tenant_id c = t" "cp_revision c = n"
      by (auto simp: tenant_revisions_def)
    then obtain d where d: "service_restore_revision t th n s = Some d"
      by (cases "service_restore_revision t th n s")
        (auto simp: service_restore_revision_def get_revision_def find_None_iff)
    then show ?thesis
      using find_SomeD [OF d [unfolded service_restore_revision_def get_revision_def]] ok
      by (auto simp: history_ok_def)
  qed
  moreover have "map_option cp_revision (service_restore t th s) = Some b" if "a \<le> b"
  proof -
    have ne: "tenant_revisions t th s \<noteq> []" using ab(2) that by auto
    have "cp_revision (last (tenant_revisions t th s)) = last [a..b]"
      using ab(2) ne by (metis last_map)
    also have "\<dots> = b" using that by (simp add: upto_rec2)
    finally show ?thesis using ne by (simp add: service_restore_def get_head_def Let_def)
  qed
  ultimately show ?thesis using ab by blast
qed

text \<open>
  (unlisted): Compare-and-set of the service. When an update that expects a revision is stored, the head was
  at that revision and moves to the next one, and every later update that still expects the old
  revision is refused as stale and changes nothing.
\<close>

theorem checkpoint_update_once:
  assumes "history_ok s"
    and "service_update get_head save_if_head i now t w th st expected a s = (Inr c, s1)"
  shows "head_revision (get_head t th s) = expected \<and> get_head t th s1 = Some c
    \<and> cp_revision c = expected + 1
    \<and> (\<exists>actual. service_update get_head save_if_head i' now' t w' th st' expected a' s1
          = (Inl (StaleRevisionError th expected actual), s1))"
  using checkpoints.update_once [OF assms] by blast

text \<open>
  C3: Compaction with a positive \<open>keep_last\<close> removes exactly the oldest surplus revisions of that
  tenant and thread, reports how many, and changes no head and no other tenant's or thread's history.
\<close>

theorem compact_keeps_newest:
  assumes "1 \<le> keep"
  shows "service_compact t th keep a s
      = (max 0 (int (length (tenant_revisions t th s)) - keep), snd (service_compact t th keep a s))
    \<and> tenant_revisions t th (snd (service_compact t th keep a s))
      = drop (length (tenant_revisions t th s) - nat keep) (tenant_revisions t th s)
    \<and> ((t', th') \<noteq> (t, th) \<longrightarrow>
        tenant_revisions t' th' (snd (service_compact t th keep a s)) = tenant_revisions t' th' s)
    \<and> service_restore t' th' (snd (service_compact t th keep a s)) = service_restore t' th' s"
  using assms compact_revisions [OF assms] get_head_compact [OF assms]
  by (auto simp: service_compact_def service_restore_def prod_eq_iff)

text \<open>
  C4: With \<open>keep_last = 0\<close> the store deletes nothing and reports that it removed every revision.
\<close>

theorem compact_zero_removes_nothing:
  assumes "tenant_revisions t th s \<noteq> []"
  shows "fst (compact_checkpoints t th 0 a s) = int (length (tenant_revisions t th s))
    \<and> tenant_revisions t th (snd (compact_checkpoints t th 0 a s)) = tenant_revisions t th s"
  using assms
  by (simp add: compact_checkpoints_def Let_def tenant_revisions_def thread_revisions_def filter_split_tenant)

definition two_checkpoints :: checkpoint_state where
  "two_checkpoints = snd (service_update get_head save_if_head 2 20 7 8 9 [] 1 None
     (snd (service_save get_head save_if_head 1 10 7 8 9 [] None [])))"

lemma two_checkpoints_reached: "checkpoint_step\<^sup>*\<^sup>* [] two_checkpoints"
proof -
  let ?s = "snd (service_save get_head save_if_head 1 10 7 8 9 [] None [])"
  have "checkpoint_step [] ?s" by (rule checkpoint_step.save [OF prod.collapse [symmetric]])
  moreover have "checkpoint_step ?s two_checkpoints"
    unfolding two_checkpoints_def by (rule checkpoint_step.update [OF prod.collapse [symmetric]])
  ultimately show ?thesis by (meson rtranclp.rtrancl_into_rtrancl rtranclp.rtrancl_refl)
qed

theorem checkpoint_history_consecutive_witness:
  "map cp_revision (tenant_revisions 7 9 two_checkpoints) = [1, 2]
   \<and> (\<exists>a b. 1 \<le> a \<and> [1, 2] = [a..b] \<and> map_option cp_revision (service_restore 7 9 two_checkpoints) = Some b)"
proof -
  have m: "map cp_revision (tenant_revisions 7 9 two_checkpoints) = [1, 2]" by code_simp
  obtain a b where ab: "1 \<le> a" "map cp_revision (tenant_revisions 7 9 two_checkpoints) = [a..b]"
    "a \<le> b \<longrightarrow> map_option cp_revision (service_restore 7 9 two_checkpoints) = Some b"
    using checkpoint_history_consecutive [OF two_checkpoints_reached, of 7 9] by blast
  then have "a \<le> b" using m by (cases "a \<le> b") auto
  with ab m show ?thesis by metis
qed

theorem checkpoint_update_once_witness:
  "\<exists>actual. service_update get_head save_if_head 3 30 7 8 9 [] 1 None two_checkpoints
     = (Inl (StaleRevisionError 9 1 actual), two_checkpoints)"
proof -
  let ?s = "snd (service_save get_head save_if_head 1 10 7 8 9 [] None [])"
  have "history_ok []" by (simp add: history_ok_def tenant_revisions_def thread_revisions_def)
  then have ok: "history_ok ?s"
    by (rule checkpoint_step_ok [OF _ checkpoint_step.save [OF prod.collapse [symmetric]]])
  have "case fst (service_update get_head save_if_head 2 20 7 8 9 [] 1 None ?s) of Inl e \<Rightarrow> False | Inr c \<Rightarrow> True"
    by code_simp
  then obtain c where "service_update get_head save_if_head 2 20 7 8 9 [] 1 None ?s = (Inr c, two_checkpoints)"
    by (auto simp: two_checkpoints_def prod_eq_iff split: sum.splits)
  from checkpoint_update_once [OF ok this] show ?thesis by blast
qed

theorem compact_keeps_newest_witness:
  "fst (service_compact 7 9 1 None two_checkpoints) = 1
   \<and> map cp_revision (tenant_revisions 7 9 (snd (service_compact 7 9 1 None two_checkpoints))) = [2]"
proof -
  have m: "map cp_revision (tenant_revisions 7 9 two_checkpoints) = [1, 2]" by code_simp
  have len: "length (tenant_revisions 7 9 two_checkpoints) = 2" using arg_cong [OF m, of length] by simp
  have d: "map cp_revision (drop 1 (tenant_revisions 7 9 two_checkpoints)) = [2]"
    by (simp add: drop_map [symmetric] m)
  from compact_keeps_newest [of 1 7 9 None two_checkpoints 7 9] len d show ?thesis
    by (simp add: prod_eq_iff)
qed

theorem compact_zero_removes_nothing_witness:
  "fst (compact_checkpoints 7 9 0 None two_checkpoints) = 2
   \<and> map cp_revision (tenant_revisions 7 9 (snd (compact_checkpoints 7 9 0 None two_checkpoints))) = [1, 2]"
proof -
  have m: "map cp_revision (tenant_revisions 7 9 two_checkpoints) = [1, 2]" by code_simp
  have "tenant_revisions 7 9 two_checkpoints \<noteq> []" using m by auto
  moreover have "length (tenant_revisions 7 9 two_checkpoints) = 2" using arg_cong [OF m, of length] by simp
  ultimately show ?thesis
    using compact_zero_removes_nothing [of 7 9 two_checkpoints None] m by simp
qed

end
