(* ===== verification/Context.thy ===== *)
theory Context
  imports StoreItems
begin

text \<open>
  Context delivery: the compiler that packs ranked memories into an operation's token budget
  (\<open>services/context.py\<close>) and the session seed (\<open>services/session_seed.py\<close>). Both are greedy packers;
  what is proved is that the budget and the limits hold and that nothing that still fits is left out.
\<close>

definition estimate_tokens :: "str \<Rightarrow> int" where
  "estimate_tokens txt = max 1 ((int (length txt) + 3) div 4)"

lemma estimate_tokens_pos: "1 \<le> estimate_tokens txt"
  by (simp add: estimate_tokens_def)

section \<open>The compiler\<close>

text \<open>The inner loop over one layer: accepted items, tokens used, identities selected.\<close>

fun pick_items ::
  "int \<Rightarrow> int \<Rightarrow> memory_item list \<Rightarrow> memory_item list \<times> int \<times> uuid list
    \<Rightarrow> memory_item list \<times> int \<times> uuid list"
where
  "pick_items limit budget [] st = st"
| "pick_items limit budget (item # items) (accepted, used, selected) =
    (if mi_id item \<in> set selected \<or> limit \<le> int (length accepted) then
       pick_items limit budget items (accepted, used, selected)
     else if budget < used + estimate_tokens (mi_text item) then
       pick_items limit budget items (accepted, used, selected)
     else pick_items limit budget items
            (accepted @ [item], used + estimate_tokens (mi_text item), mi_id item # selected))"

definition layer_limit :: "context_recipe \<Rightarrow> memory_layer \<Rightarrow> int" where
  "layer_limit recipe layer = (case dict_get (cr_per_layer_limit recipe) layer of None \<Rightarrow> 100 | Some n \<Rightarrow> n)"

definition layer_items :: "(memory_layer, memory_item list) dict \<Rightarrow> memory_layer \<Rightarrow> memory_item list" where
  "layer_items by_layer layer = (case dict_get by_layer layer of None \<Rightarrow> [] | Some xs \<Rightarrow> xs)"

fun pack_layers ::
  "context_recipe \<Rightarrow> (memory_layer, memory_item list) dict \<Rightarrow> memory_layer list
    \<Rightarrow> context_section list \<times> int \<times> uuid list \<Rightarrow> context_section list \<times> int \<times> uuid list"
where
  "pack_layers recipe by_layer [] st = st"
| "pack_layers recipe by_layer (layer # layers) (sections, used, selected) =
    (let (accepted, used', selected') =
           pick_items (layer_limit recipe layer) (cr_budget_tokens recipe)
             (layer_items by_layer layer) ([], used, selected);
         sections' = (if accepted = [] then sections
           else sections @ [\<lparr>cs_name = layer_value layer, cs_items = accepted,
              cs_estimated_tokens = sum_list (map (\<lambda>x. estimate_tokens (mi_text x)) accepted)\<rparr>])
     in pack_layers recipe by_layer layers (sections', used', selected'))"

definition recipe_order :: "context_recipe \<Rightarrow> memory_layer list" where
  "recipe_order recipe = uniq (cr_always_include recipe @ cr_layer_order recipe)"

definition compile_context :: "recall_result \<Rightarrow> context_recipe \<Rightarrow> context_package" where
  "compile_context recall recipe =
    (let by_layer = group_by mi_layer (map ca_item (rs_candidates recall));
         (sections, used, selected) =
           pack_layers recipe by_layer (recipe_order recipe) ([], 0, [])
     in \<lparr>cx_operation = cr_operation recipe, cx_sections = sections,
         cx_budget_tokens = cr_budget_tokens recipe, cx_used_tokens = used,
         cx_trace_ids = concat (map (\<lambda>sec. map mi_id (cs_items sec)) sections)\<rparr>)"

section \<open>The packing invariant\<close>

abbreviation cost :: "memory_item \<Rightarrow> int" where "cost item \<equiv> estimate_tokens (mi_text item)"

definition total_cost :: "memory_item list \<Rightarrow> int" where
  "total_cost xs = sum_list (map cost xs)"

lemma total_cost_simps [simp]:
  "total_cost [] = 0" "total_cost (x # xs) = cost x + total_cost xs"
  "total_cost (xs @ ys) = total_cost xs + total_cost ys"
  by (simp_all add: total_cost_def)

lemma pick_items_spec:
  assumes "pick_items limit budget items (acc, used, sel) = (acc', used', sel')"
    and "used \<le> budget"
  shows "\<exists>new. acc' = acc @ new \<and> set new \<subseteq> set items \<and> used' = used + total_cost new
    \<and> set sel' = set sel \<union> mi_id ` set new \<and> distinct (map mi_id new)
    \<and> mi_id ` set new \<inter> set sel = {} \<and> used' \<le> budget \<and> used \<le> used'
    \<and> (int (length acc) \<le> max 0 limit \<longrightarrow> int (length acc') \<le> max 0 limit)
    \<and> (\<forall>x \<in> set items. mi_id x \<in> set sel' \<or> limit \<le> int (length acc') \<or> budget < used' + cost x)"
  using assms
proof (induction limit budget items "(acc, used, sel)" arbitrary: acc used sel rule: pick_items.induct)
  case (2 limit budget item items acc used sel)
  show ?case
  proof (cases "mi_id item \<in> set sel \<or> limit \<le> int (length acc)")
    case True
    with 2(1) 2(4,5) obtain new where "acc' = acc @ new \<and> set new \<subseteq> set items \<and> used' = used + total_cost new
      \<and> set sel' = set sel \<union> mi_id ` set new \<and> distinct (map mi_id new)
      \<and> mi_id ` set new \<inter> set sel = {} \<and> used' \<le> budget \<and> used \<le> used'
      \<and> (int (length acc) \<le> max 0 limit \<longrightarrow> int (length acc') \<le> max 0 limit)
      \<and> (\<forall>x \<in> set items. mi_id x \<in> set sel' \<or> limit \<le> int (length acc') \<or> budget < used' + cost x)"
      by auto
    with True show ?thesis by (intro exI [of _ new]) auto
  next
    case fits: False
    show ?thesis
    proof (cases "budget < used + cost item")
      case True
      with fits 2(2) 2(4,5) obtain new where "acc' = acc @ new \<and> set new \<subseteq> set items \<and> used' = used + total_cost new
        \<and> set sel' = set sel \<union> mi_id ` set new \<and> distinct (map mi_id new)
        \<and> mi_id ` set new \<inter> set sel = {} \<and> used' \<le> budget \<and> used \<le> used'
        \<and> (int (length acc) \<le> max 0 limit \<longrightarrow> int (length acc') \<le> max 0 limit)
        \<and> (\<forall>x \<in> set items. mi_id x \<in> set sel' \<or> limit \<le> int (length acc') \<or> budget < used' + cost x)"
        by auto
      with True show ?thesis by (intro exI [of _ new]) auto
    next
      case False
      from fits False 2(3) 2(4) obtain new where "acc' = (acc @ [item]) @ new \<and> set new \<subseteq> set items
        \<and> used' = used + cost item + total_cost new
        \<and> set sel' = set (mi_id item # sel) \<union> mi_id ` set new \<and> distinct (map mi_id new)
        \<and> mi_id ` set new \<inter> set (mi_id item # sel) = {} \<and> used' \<le> budget \<and> used + cost item \<le> used'
        \<and> (int (length (acc @ [item])) \<le> max 0 limit \<longrightarrow> int (length acc') \<le> max 0 limit)
        \<and> (\<forall>x \<in> set items. mi_id x \<in> set sel' \<or> limit \<le> int (length acc') \<or> budget < used' + cost x)"
        by auto
      with fits estimate_tokens_pos [of "mi_text item"] show ?thesis
        by (intro exI [of _ "item # new"]) auto
    qed
  qed
qed auto

lemma layer_value_inject: "layer_value a = layer_value b \<longleftrightarrow> a = b"
proof -
  let ?all = "[Working, Core, Episodic, Semantic, Procedural, Social, Reflection, Error]"
  have "list_all (\<lambda>x. list_all (\<lambda>y. (layer_value x = layer_value y) = (x = y)) ?all) ?all" by code_simp
  moreover have "x \<in> set ?all" for x by (cases x) simp_all
  ultimately show ?thesis unfolding list_all_iff by blast
qed

definition section_of :: "context_section list \<Rightarrow> memory_layer \<Rightarrow> memory_item list" where
  "section_of sections layer =
    concat (map cs_items (filter (\<lambda>sec. cs_name sec = layer_value layer) sections))"

definition packed_items :: "context_section list \<Rightarrow> memory_item list" where
  "packed_items sections = concat (map cs_items sections)"

lemma packed_items_simps [simp]:
  "packed_items [] = []" "packed_items (a # xs) = cs_items a @ packed_items xs"
  "packed_items (xs @ ys) = packed_items xs @ packed_items ys"
  by (simp_all add: packed_items_def)

definition section_ok ::
  "context_recipe \<Rightarrow> (memory_layer, memory_item list) dict \<Rightarrow> memory_layer set \<Rightarrow> context_section \<Rightarrow> bool"
where
  "section_ok recipe by_layer ls sec \<longleftrightarrow> cs_items sec \<noteq> []
     \<and> cs_estimated_tokens sec = total_cost (cs_items sec)
     \<and> (\<exists>l \<in> ls. cs_name sec = layer_value l \<and> set (cs_items sec) \<subseteq> set (layer_items by_layer l)
          \<and> int (length (cs_items sec)) \<le> max 0 (layer_limit recipe l))"

lemma section_ok_mono: "section_ok r b ls sec \<Longrightarrow> ls \<subseteq> ms \<Longrightarrow> section_ok r b ms sec"
  unfolding section_ok_def by blast

lemma section_of_other:
  assumes "\<forall>sec \<in> set secs. section_ok r b ls sec" and "l \<notin> ls"
  shows "section_of secs l = []"
proof -
  have "\<forall>sec \<in> set secs. cs_name sec \<noteq> layer_value l"
    using assms unfolding section_ok_def by (metis layer_value_inject)
  then show ?thesis by (simp add: section_of_def filter_empty_conv)
qed

lemma pack_layers_spec:
  assumes "pack_layers recipe b layers (secs, used, sel) = (secs', used', sel')"
    and "used \<le> cr_budget_tokens recipe" and "distinct layers"
  shows "\<exists>new. secs' = secs @ new \<and> (\<forall>sec \<in> set new. section_ok recipe b (set layers) sec)
    \<and> used' = used + total_cost (packed_items new) \<and> used' \<le> cr_budget_tokens recipe \<and> used \<le> used'
    \<and> set sel' = set sel \<union> mi_id ` set (packed_items new) \<and> distinct (map mi_id (packed_items new))
    \<and> mi_id ` set (packed_items new) \<inter> set sel = {}
    \<and> (\<forall>l \<in> set layers. \<forall>x \<in> set (layer_items b l). mi_id x \<in> set sel'
        \<or> layer_limit recipe l \<le> int (length (section_of new l))
        \<or> cr_budget_tokens recipe < used' + cost x)"
  using assms
proof (induction layers arbitrary: secs used sel)
  case Nil
  then show ?case by (intro exI [of _ "[]"]) simp
next
  case (Cons l layers)
  let ?lim = "layer_limit recipe l" and ?B = "cr_budget_tokens recipe"
  obtain acc u1 sel1 where pick: "pick_items ?lim ?B (layer_items b l) ([], used, sel) = (acc, u1, sel1)"
    by (metis prod_cases3)
  from pick_items_spec [OF pick Cons.prems(2)]
  have p: "set acc \<subseteq> set (layer_items b l)" "u1 = used + total_cost acc" "set sel1 = set sel \<union> mi_id ` set acc"
    "distinct (map mi_id acc)" "mi_id ` set acc \<inter> set sel = {}" "u1 \<le> ?B" "used \<le> u1"
    "int (length acc) \<le> max 0 ?lim"
    "\<forall>x \<in> set (layer_items b l). mi_id x \<in> set sel1 \<or> ?lim \<le> int (length acc) \<or> ?B < u1 + cost x"
    by auto
  let ?sec = "\<lparr>cs_name = layer_value l, cs_items = acc, cs_estimated_tokens = total_cost acc\<rparr>"
  let ?first = "if acc = [] then [] else [?sec]"
  have "pack_layers recipe b layers (secs @ ?first, u1, sel1) = (secs', used', sel')"
    using Cons.prems(1) pick by (simp add: total_cost_def split: if_splits)
  from Cons.IH [OF this p(6)] Cons.prems(3) obtain new where n: "secs' = (secs @ ?first) @ new"
    "\<forall>sec \<in> set new. section_ok recipe b (set layers) sec"
    "used' = u1 + total_cost (packed_items new)" "used' \<le> ?B" "u1 \<le> used'"
    "set sel' = set sel1 \<union> mi_id ` set (packed_items new)" "distinct (map mi_id (packed_items new))"
    "mi_id ` set (packed_items new) \<inter> set sel1 = {}"
    "\<forall>k \<in> set layers. \<forall>x \<in> set (layer_items b k). mi_id x \<in> set sel'
        \<or> layer_limit recipe k \<le> int (length (section_of new k)) \<or> ?B < used' + cost x"
    by auto
  have first: "packed_items ?first = acc" by simp
  have notin: "l \<notin> set layers" using Cons.prems(3) by simp
  have here: "section_of (?first @ new) l = acc"
    using section_of_other [OF n(2) notin] by (simp add: section_of_def)
  have there: "section_of (?first @ new) k = section_of new k" if "k \<in> set layers" for k
    using that notin by (auto simp: section_of_def layer_value_inject)
  have "\<forall>sec \<in> set (?first @ new). section_ok recipe b (set (l # layers)) sec"
    using p n(2) by (auto simp: section_ok_def)
  moreover have "\<forall>k \<in> set (l # layers). \<forall>x \<in> set (layer_items b k). mi_id x \<in> set sel'
        \<or> layer_limit recipe k \<le> int (length (section_of (?first @ new) k)) \<or> ?B < used' + cost x"
    using p(9) n(5,6,9) here there by fastforce
  moreover have "distinct (map mi_id (packed_items (?first @ new)))"
    unfolding packed_items_simps(3) first using p(3,4) n(7,8) by auto
  moreover have "mi_id ` set (packed_items (?first @ new)) \<inter> set sel = {}"
    unfolding packed_items_simps(3) first using p(3,5) n(8) by auto
  moreover have "used' = used + total_cost (packed_items (?first @ new))"
    unfolding packed_items_simps(3) first using p(2) n(3) by simp
  moreover have "set sel' = set sel \<union> mi_id ` set (packed_items (?first @ new))"
    unfolding packed_items_simps(3) first using p(3) n(6) by auto
  ultimately show ?case
    using n(1,4,5) p(7) by (intro exI [of _ "?first @ new"]) simp
qed

lemma layer_items_group: "layer_items (group_by mi_layer items) l = filter (\<lambda>x. mi_layer x = l) items"
  by (simp add: layer_items_def group_by_get Let_def)

text \<open>
  C36: A compiled package keeps its budget and its limits. The tokens it reports are the cost of the
  packed items and within the recipe's budget; each section holds recalled memories of its own layer,
  at most as many as the layer's limit, with its own cost; no memory is packed twice, and the trace
  lists exactly the packed memories.
\<close>

theorem compile_within_budget:
  assumes "0 \<le> cr_budget_tokens recipe" and "p = compile_context recall recipe"
  shows "cx_used_tokens p \<le> cr_budget_tokens recipe
    \<and> cx_used_tokens p = total_cost (packed_items (cx_sections p))
    \<and> cx_trace_ids p = map mi_id (packed_items (cx_sections p)) \<and> distinct (cx_trace_ids p)
    \<and> (\<forall>sec \<in> set (cx_sections p). cs_items sec \<noteq> [] \<and> cs_estimated_tokens sec = total_cost (cs_items sec)
        \<and> (\<exists>l \<in> set (cr_always_include recipe) \<union> set (cr_layer_order recipe). cs_name sec = layer_value l
            \<and> int (length (cs_items sec)) \<le> max 0 (layer_limit recipe l)
            \<and> (\<forall>x \<in> set (cs_items sec). mi_layer x = l \<and> x \<in> ca_item ` set (rs_candidates recall))))"
proof -
  let ?b = "group_by mi_layer (map ca_item (rs_candidates recall))"
  obtain secs used sel where pack: "pack_layers recipe ?b (recipe_order recipe) ([], 0, []) = (secs, used, sel)"
    by (metis prod_cases3)
  have p: "cx_sections p = secs" "cx_used_tokens p = used" "cx_trace_ids p = map mi_id (packed_items secs)"
    using pack assms(2) by (simp_all add: compile_context_def packed_items_def map_concat comp_def)
  have d: "distinct (recipe_order recipe)" by (simp add: recipe_order_def)
  from pack_layers_spec [OF pack assms(1) d]
  have q: "\<forall>sec \<in> set secs. section_ok recipe ?b (set (recipe_order recipe)) sec"
    "used = total_cost (packed_items secs)" "used \<le> cr_budget_tokens recipe"
    "distinct (map mi_id (packed_items secs))" by auto
  have "\<exists>l \<in> set (cr_always_include recipe) \<union> set (cr_layer_order recipe). cs_name sec = layer_value l
      \<and> int (length (cs_items sec)) \<le> max 0 (layer_limit recipe l)
      \<and> (\<forall>x \<in> set (cs_items sec). mi_layer x = l \<and> x \<in> ca_item ` set (rs_candidates recall))"
    if "sec \<in> set secs" for sec
    using q(1) that unfolding section_ok_def layer_items_group by (fastforce simp: recipe_order_def)
  with q p show ?thesis unfolding section_ok_def by auto
qed

text \<open>
  (unlisted): The packing is maximal: a recalled memory of a layer the recipe covers is either packed, or
  its layer has reached its limit, or it does not fit into what is left of the budget.
\<close>

theorem compile_leaves_nothing_that_fits:
  assumes "0 \<le> cr_budget_tokens recipe" and "p = compile_context recall recipe"
    and "c \<in> set (rs_candidates recall)"
    and "mi_layer (ca_item c) \<in> set (cr_always_include recipe) \<union> set (cr_layer_order recipe)"
  shows "mi_id (ca_item c) \<in> set (cx_trace_ids p)
    \<or> layer_limit recipe (mi_layer (ca_item c)) \<le> int (length (section_of (cx_sections p) (mi_layer (ca_item c))))
    \<or> cr_budget_tokens recipe < cx_used_tokens p + estimate_tokens (mi_text (ca_item c))"
proof -
  let ?b = "group_by mi_layer (map ca_item (rs_candidates recall))"
  obtain secs used sel where pack: "pack_layers recipe ?b (recipe_order recipe) ([], 0, []) = (secs, used, sel)"
    by (metis prod_cases3)
  have p: "cx_sections p = secs" "cx_used_tokens p = used" "cx_trace_ids p = map mi_id (packed_items secs)"
    using pack assms(2) by (simp_all add: compile_context_def packed_items_def map_concat comp_def)
  have d: "distinct (recipe_order recipe)" by (simp add: recipe_order_def)
  from pack_layers_spec [OF pack assms(1) d]
  have q: "set sel = mi_id ` set (packed_items secs)"
    "\<forall>l \<in> set (recipe_order recipe). \<forall>x \<in> set (layer_items ?b l). mi_id x \<in> set sel
        \<or> layer_limit recipe l \<le> int (length (section_of secs l)) \<or> cr_budget_tokens recipe < used + cost x"
    by (elim exE conjE, simp)+
  have "mi_layer (ca_item c) \<in> set (recipe_order recipe)"
    using assms(4) by (simp add: recipe_order_def)
  moreover have "ca_item c \<in> set (layer_items ?b (mi_layer (ca_item c)))"
    using assms(3) by (simp add: layer_items_group)
  ultimately show ?thesis using q p by auto
qed

definition sample_recipe :: context_recipe where
  "sample_recipe = \<lparr>cr_operation = lit ''chat'', cr_budget_tokens = 128, cr_layer_order = [Semantic],
     cr_per_layer_limit = [(Semantic, 1)], cr_always_include = [Core, Working]\<rparr>"

definition sample_recall :: recall_result where
  "sample_recall = \<lparr>rs_candidates = [lexical_candidate (sample_item 1 7 8 (lit ''tea'')) 1,
       lexical_candidate (sample_item 2 7 8 (lit ''milk'')) 1],
     rs_sources_used = [], rs_index_stale = False, rs_index_freshness = None, rs_traversal = []\<rparr>"

theorem compile_within_budget_witness:
  "cx_used_tokens (compile_context sample_recall sample_recipe) \<le> 128
   \<and> cx_trace_ids (compile_context sample_recall sample_recipe) = [1]"
proof -
  have "cx_trace_ids (compile_context sample_recall sample_recipe) = [1]" by code_simp
  moreover have "cr_budget_tokens sample_recipe = 128" by (simp add: sample_recipe_def)
  ultimately show ?thesis using compile_within_budget [of sample_recipe _ sample_recall, OF _ refl] by simp
qed

theorem compile_leaves_nothing_that_fits_witness:
  "1 \<le> int (length (section_of (cx_sections (compile_context sample_recall sample_recipe)) Semantic))"
proof -
  let ?c = "lexical_candidate (sample_item 2 7 8 (lit ''milk'')) 1"
  have t: "cx_trace_ids (compile_context sample_recall sample_recipe) = [1]" by code_simp
  have u: "cx_used_tokens (compile_context sample_recall sample_recipe) = 1" by code_simp
  have e: "estimate_tokens (lit ''milk'') = 1" by code_simp
  have "?c \<in> set (rs_candidates sample_recall)" by (simp add: sample_recall_def)
  from compile_leaves_nothing_that_fits [OF _ refl this, of sample_recipe] t u e
  show ?thesis
    by (auto simp: sample_recipe_def lexical_candidate_def sample_item_def layer_limit_def)
qed

section \<open>The session seed\<close>

record session_seed =
  sd_budget_tokens :: int
  sd_used_tokens :: int
  sd_trace_ids :: "uuid list"
  sd_markdown :: str

fun seed_pick :: "int \<Rightarrow> memory_item list \<Rightarrow> memory_item list \<times> int \<Rightarrow> memory_item list \<times> int" where
  "seed_pick budget [] st = st"
| "seed_pick budget (item # items) (selected, used) =
    (if budget < used + estimate_tokens (mi_text item) then seed_pick budget items (selected, used)
     else seed_pick budget items (selected @ [item], used + estimate_tokens (mi_text item)))"

definition seed_layers :: "memory_layer list" where "seed_layers = [Core, Working, Procedural]"

definition seed_candidates :: "uuid \<Rightarrow> uuid \<Rightarrow> store \<Rightarrow> memory_item list" where
  "seed_candidates tenant_id workspace_id s =
    sort_key_desc (\<lambda>i. (mi_status i = Pinned, mi_importance i, mi_created_at i))
      (filter (\<lambda>i. mi_scope i \<in> {Workspace, Team, Organization} \<and> mi_status i \<in> {Active, Pinned}
          \<and> is_recallable_head tenant_id (mi_id i) s)
        (list_items tenant_id workspace_id seed_layers None None None 0 s))"

definition build_seed :: "uuid \<Rightarrow> uuid \<Rightarrow> int \<Rightarrow> store \<Rightarrow> session_seed" where
  "build_seed tenant_id workspace_id budget_tokens s =
    (let budget = max 128 (min budget_tokens 4096);
         (selected, used) = seed_pick budget (py_take 64 (seed_candidates tenant_id workspace_id s)) ([], 0)
     in \<lparr>sd_budget_tokens = budget, sd_used_tokens = used, sd_trace_ids = map mi_id selected,
         sd_markdown = join [10] (map (\<lambda>i. lit ''- '' @ mi_text i) selected)\<rparr>)"

lemma seed_pick_spec:
  assumes "seed_pick budget items (sel, used) = (sel', used')" and "used \<le> budget"
  shows "\<exists>new. sel' = sel @ new \<and> set new \<subseteq> set items \<and> used' = used + total_cost new \<and> used' \<le> budget"
  using assms
proof (induction budget items "(sel, used)" arbitrary: sel used rule: seed_pick.induct)
  case (2 budget item items sel used)
  show ?case
  proof (cases "budget < used + cost item")
    case True
    with 2(1) 2(3,4) show ?thesis by fastforce
  next
    case False
    with 2(2) [OF False] 2(3) obtain new where "sel' = (sel @ [item]) @ new" "set new \<subseteq> set items"
      "used' = used + cost item + total_cost new" "used' \<le> budget" by auto
    then show ?thesis by (intro exI [of _ "item # new"]) auto
  qed
qed simp

text \<open>
  (unlisted): A session seed stays between 128 and 4096 tokens of budget, uses no more than its budget, and
  lists only recallable active or pinned heads of the workspace that are shared: never private or
  thread memories.
\<close>

theorem seed_is_bounded_and_shared:
  assumes "items_ok s" and "seed = build_seed t w budget s"
  shows "128 \<le> sd_budget_tokens seed \<and> sd_budget_tokens seed \<le> 4096
    \<and> sd_used_tokens seed \<le> sd_budget_tokens seed \<and> length (sd_trace_ids seed) \<le> 64
    \<and> (\<forall>i \<in> set (sd_trace_ids seed). is_recallable_head t i s
        \<and> (\<exists>m. get_item t i s = Some m \<and> mi_workspace_id m = w \<and> mi_scope m \<notin> {Private, Thread}
             \<and> mi_status m \<in> {Active, Pinned} \<and> mi_layer m \<in> set seed_layers))"
proof -
  let ?B = "max 128 (min budget 4096)" and ?c = "take 64 (seed_candidates t w s)"
  obtain sel used where pick: "seed_pick ?B ?c ([], 0) = (sel, used)" by fastforce
  have seed: "sd_budget_tokens seed = ?B" "sd_used_tokens seed = used" "sd_trace_ids seed = map mi_id sel"
    using pick assms(2) by (simp_all add: build_seed_def Let_def)
  have "0 \<le> ?B" by simp
  from seed_pick_spec [OF pick this] have sel: "set sel \<subseteq> set ?c" "used \<le> ?B"
    by (elim exE conjE, simp)+
  have len: "length (fst (seed_pick b xs st)) \<le> length (fst st) + length xs" for b xs st
    by (induction b xs st rule: seed_pick.induct) auto
  have "length sel \<le> 64" using len [of ?B ?c "([], 0)"] pick by simp
  moreover have "is_recallable_head t (mi_id m) s \<and> get_item t (mi_id m) s = Some m \<and> mi_workspace_id m = w
      \<and> mi_scope m \<notin> {Private, Thread} \<and> mi_status m \<in> {Active, Pinned} \<and> mi_layer m \<in> set seed_layers"
    if "m \<in> set sel" for m
  proof -
    have "m \<in> set (seed_candidates t w s)" using that sel(1) by (auto dest: in_set_takeD)
    then have m: "m \<in> set (dict_values (st_items s))" "mi_tenant_id m = t" "mi_workspace_id m = w"
      "mi_layer m \<in> set seed_layers" "mi_scope m \<in> {Workspace, Team, Organization}"
      "mi_status m \<in> {Active, Pinned}" "is_recallable_head t (mi_id m) s"
      by (auto simp: seed_candidates_def list_items_unpaged seed_layers_def)
    then show ?thesis using items_row_iff [OF assms(1), of m] by (auto simp: get_item_Some)
  qed
  ultimately show ?thesis using seed sel(2) by auto
qed

definition seed_store :: store where
  "seed_store = snd (retain ((sample_item 1 7 8 (lit ''tea''))\<lparr>mi_layer := Core\<rparr>) (sample_event 21 7 8) None None empty_store)"

theorem seed_is_bounded_and_shared_witness:
  "sd_trace_ids (build_seed 7 8 10 seed_store) = [1] \<and> is_recallable_head 7 1 seed_store"
proof -
  have t: "sd_trace_ids (build_seed 7 8 10 seed_store) = [1]" by code_simp
  have "items_ok seed_store"
    unfolding seed_store_def
    using ledger_ok_retain [OF empty_ledger_ok, of "(sample_item 1 7 8 (lit ''tea''))\<lparr>mi_layer := Core\<rparr>"]
    by (simp add: ledger_ok_def empty_store_def sample_item_def)
  from seed_is_bounded_and_shared [OF this refl, of 7 8 10] t show ?thesis by simp
qed

end
