(* ===== verification/Regex.thy ===== *)
theory Regex
  imports Text
begin

text \<open>
  The part of Python's \<open>re\<close> the code uses: a backtracking matcher for character classes, sequence,
  ordered alternation, greedy and lazy counted repetition and word boundaries. A pattern yields the
  end positions of its matches in the order the backtracking search tries them, so the first one is
  what \<open>match\<close> returns. A repetition only goes on while its body consumes a character, which bounds
  its depth by the length of the text.
\<close>

datatype rx =
    REps
  | RChar "int \<Rightarrow> bool"
  | RSeq rx rx
  | RAlt rx rx
  | RRep rx nat "nat option" bool
  | RBound

fun repeat ::
  "(nat \<Rightarrow> nat list) \<Rightarrow> nat \<Rightarrow> nat \<Rightarrow> nat option \<Rightarrow> bool \<Rightarrow> nat \<Rightarrow> nat list"
where
  "repeat f 0 lo hi greedy i = (if lo = 0 then [i] else [])"
| "repeat f (Suc k) lo hi greedy i =
    (let more = (if hi = Some 0 then []
           else concat (map (repeat f k (lo - 1) (map_option (\<lambda>h. h - 1) hi) greedy)
                  (filter (\<lambda>j. i < j) (f i))))
     in if 0 < lo then more else if greedy then more @ [i] else i # more)"

definition at_boundary :: "str \<Rightarrow> nat \<Rightarrow> bool" where
  "at_boundary s i \<longleftrightarrow>
    (0 < i \<and> i \<le> length s \<and> is_word (s ! (i - 1))) \<noteq> (i < length s \<and> is_word (s ! i))"

fun match_ends :: "str \<Rightarrow> rx \<Rightarrow> nat \<Rightarrow> nat list" where
  "match_ends s REps i = [i]"
| "match_ends s (RChar p) i = (if i < length s \<and> p (s ! i) then [i + 1] else [])"
| "match_ends s (RSeq a b) i = concat (map (match_ends s b) (match_ends s a i))"
| "match_ends s (RAlt a b) i = match_ends s a i @ match_ends s b i"
| "match_ends s (RRep r lo hi greedy) i =
    repeat (match_ends s r) (Suc (length s) - i) lo hi greedy i"
| "match_ends s RBound i = (if at_boundary s i then [i] else [])"

text \<open>\<open>pattern.match(s, i)\<close>, \<open>pattern.search(s)\<close> and \<open>pattern.finditer(s)\<close> as spans.\<close>

definition match_at :: "rx \<Rightarrow> str \<Rightarrow> nat \<Rightarrow> nat option" where
  "match_at r s i = (case match_ends s r i of [] \<Rightarrow> None | e # _ \<Rightarrow> Some e)"

definition search_from :: "rx \<Rightarrow> str \<Rightarrow> nat \<Rightarrow> (nat \<times> nat) option" where
  "search_from r s i =
    (case filter (\<lambda>j. match_at r s j \<noteq> None) [i..<Suc (length s)] of
       [] \<Rightarrow> None
     | j # _ \<Rightarrow> Some (j, the (match_at r s j)))"

definition rx_search :: "rx \<Rightarrow> str \<Rightarrow> (nat \<times> nat) option" where
  "rx_search r s = search_from r s 0"

text \<open>After an empty match the scan moves on by one position; the fuel counts positions.\<close>

fun find_spans :: "nat \<Rightarrow> rx \<Rightarrow> str \<Rightarrow> nat \<Rightarrow> (nat \<times> nat) list" where
  "find_spans 0 r s i = []"
| "find_spans (Suc k) r s i =
    (case search_from r s i of
       None \<Rightarrow> []
     | Some (a, e) \<Rightarrow> (a, e) # find_spans k r s (if a < e then e else Suc e))"

definition finditer :: "rx \<Rightarrow> str \<Rightarrow> (nat \<times> nat) list" where
  "finditer r s = find_spans (Suc (length s)) r s 0"

definition span_text :: "str \<Rightarrow> nat \<times> nat \<Rightarrow> str" where
  "span_text s p = take (snd p - fst p) (drop (fst p) s)"

section \<open>Pattern notation\<close>

fun rx_seq :: "rx list \<Rightarrow> rx" where
  "rx_seq [] = REps"
| "rx_seq [r] = r"
| "rx_seq (r # q # rs) = RSeq r (rx_seq (q # rs))"

fun rx_alt :: "rx list \<Rightarrow> rx" where
  "rx_alt [] = RChar (\<lambda>_. False)"
| "rx_alt [r] = r"
| "rx_alt (r # q # rs) = RAlt r (rx_alt (q # rs))"

definition rx_lit :: "string \<Rightarrow> rx" where
  "rx_lit w = rx_seq (map (\<lambda>c. RChar (\<lambda>d. d = c)) (lit w))"

definition rx_ilit :: "string \<Rightarrow> rx" where
  "rx_ilit w = rx_seq (map (\<lambda>c. RChar (\<lambda>d. lower_char d = lower_char c)) (lit w))"

definition rx_ustr :: "str \<Rightarrow> rx" where
  "rx_ustr w = rx_seq (map (\<lambda>c. RChar (\<lambda>d. lower_char d = lower_char c)) w)"

definition is_digit :: "int \<Rightarrow> bool" where "is_digit c \<longleftrightarrow> 48 \<le> c \<and> c \<le> 57"
definition is_ascii_upper :: "int \<Rightarrow> bool" where "is_ascii_upper c \<longleftrightarrow> 65 \<le> c \<and> c \<le> 90"
definition is_ascii_alnum :: "int \<Rightarrow> bool" where
  "is_ascii_alnum c \<longleftrightarrow> is_digit c \<or> is_ascii_upper c \<or> 97 \<le> c \<and> c \<le> 122"

abbreviation rx_star :: "rx \<Rightarrow> rx" where "rx_star r \<equiv> RRep r 0 None True"
abbreviation rx_plus :: "rx \<Rightarrow> rx" where "rx_plus r \<equiv> RRep r 1 None True"
abbreviation rx_opt :: "rx \<Rightarrow> rx" where "rx_opt r \<equiv> RRep r 0 (Some 1) True"
abbreviation rx_times :: "nat \<Rightarrow> rx \<Rightarrow> rx" where "rx_times n r \<equiv> RRep r n (Some n) True"
abbreviation rx_atleast :: "nat \<Rightarrow> rx \<Rightarrow> rx" where "rx_atleast n r \<equiv> RRep r n None True"

section \<open>Spans lie in the text, in order\<close>

lemma repeat_range:
  assumes "\<forall>i j. j \<in> set (f i) \<longrightarrow> i \<le> n \<longrightarrow> i \<le> j \<and> j \<le> n"
    and "j \<in> set (repeat f k lo hi g i)" and "i \<le> n"
  shows "i \<le> j \<and> j \<le> n"
  using assms
proof (induction f k lo hi g i arbitrary: j rule: repeat.induct)
  case (2 f k lo hi greedy i)
  let ?next = "repeat f k (lo - 1) (map_option (\<lambda>h. h - 1) hi) greedy"
  have step: "i \<le> j \<and> j \<le> n" if m: "j \<in> set (?next m)" "m \<in> set (f i)" "i < m" "hi \<noteq> Some 0" for m
  proof -
    have "m \<le> n" using 2(2,4) m(2) by blast
    moreover have "m \<in> set (filter (\<lambda>j. i < j) (f i))" using m by simp
    ultimately have "m \<le> j \<and> j \<le> n" using 2(1) [OF m(4) _ 2(2) m(1)] by blast
    with m(3) show ?thesis by simp
  qed
  from 2(3) consider "j = i" | m where "j \<in> set (?next m)" "m \<in> set (f i)" "i < m" "hi \<noteq> Some 0"
    by (auto simp: Let_def split: if_splits)
  then show ?case using step 2(4) by cases auto
qed (auto split: if_splits)

lemma match_ends_range: "j \<in> set (match_ends s r i) \<Longrightarrow> i \<le> length s \<Longrightarrow> i \<le> j \<and> j \<le> length s"
proof (induction r arbitrary: i j)
  case (RRep r lo hi g)
  have "\<forall>i j. j \<in> set (match_ends s r i) \<longrightarrow> i \<le> length s \<longrightarrow> i \<le> j \<and> j \<le> length s"
    using RRep.IH by blast
  from repeat_range [OF this _ RRep.prems(2)] RRep.prems(1) show ?case by simp
next
  case (RSeq a b)
  from RSeq.prems obtain m where m: "m \<in> set (match_ends s a i)" "j \<in> set (match_ends s b m)" by auto
  have "i \<le> m \<and> m \<le> length s" by (rule RSeq.IH(1) [OF m(1) RSeq.prems(2)])
  moreover have "m \<le> j \<and> j \<le> length s" using calculation by (intro RSeq.IH(2) [OF m(2)]) simp
  ultimately show ?case by simp
qed (auto split: if_splits)

lemma match_at_range:
  assumes "match_at r s i = Some e" and "i \<le> length s"
  shows "i \<le> e \<and> e \<le> length s"
  using assms by (intro match_ends_range [of e s r i]) (auto simp: match_at_def split: list.splits)

lemma search_from_SomeD:
  assumes "search_from r s i = Some (a, e)"
  shows "i \<le> a" and "a \<le> length s" and "match_at r s a = Some e" and "a \<le> e" and "e \<le> length s"
proof -
  from assms obtain js where f: "filter (\<lambda>j. match_at r s j \<noteq> None) [i..<Suc (length s)] = a # js"
    and e: "e = the (match_at r s a)"
    by (auto simp: search_from_def split: list.splits)
  then have "a \<in> set (filter (\<lambda>j. match_at r s j \<noteq> None) [i..<Suc (length s)])" by simp
  then show "i \<le> a" and al: "a \<le> length s" and m: "match_at r s a = Some e"
    using e by auto
  show "a \<le> e" and "e \<le> length s" using match_at_range [OF m al] by simp_all
qed

lemma find_spans_range:
  "(a, e) \<in> set (find_spans k r s i) \<Longrightarrow> i \<le> a \<and> a \<le> e \<and> e \<le> length s \<and> match_at r s a = Some e"
proof (induction k r s i rule: find_spans.induct)
  case (2 k r s i)
  show ?case
  proof (cases "search_from r s i")
    case None
    with 2(2) show ?thesis by simp
  next
    case (Some p)
    obtain b f where p: "p = (b, f)" by (cases p)
    note b = search_from_SomeD [OF Some [unfolded p]]
    show ?thesis
    proof (cases "(a, e) = (b, f)")
      case True
      with b show ?thesis by simp
    next
      case False
      with 2(2) Some p have "(a, e) \<in> set (find_spans k r s (if b < f then f else Suc f))" by auto
      from 2(1) [OF Some p [symmetric] this] b show ?thesis by (auto split: if_splits)
    qed
  qed
qed simp

lemma finditer_range:
  "(a, e) \<in> set (finditer r s) \<Longrightarrow> a \<le> e \<and> e \<le> length s \<and> match_at r s a = Some e"
  using find_spans_range [of a e "Suc (length s)" r s 0] by (simp add: finditer_def)

text \<open>The least number of characters a match consumes.\<close>

fun min_len :: "rx \<Rightarrow> nat" where
  "min_len REps = 0"
| "min_len (RChar p) = 1"
| "min_len (RSeq a b) = min_len a + min_len b"
| "min_len (RAlt a b) = min (min_len a) (min_len b)"
| "min_len (RRep r lo hi greedy) = lo * min_len r"
| "min_len RBound = 0"

lemma repeat_min_len:
  assumes "\<forall>i j. j \<in> set (f i) \<longrightarrow> i + m \<le> j" and "j \<in> set (repeat f k lo hi g i)"
  shows "i + lo * m \<le> j"
  using assms
proof (induction f k lo hi g i arbitrary: j rule: repeat.induct)
  case (2 f k lo hi greedy i)
  let ?next = "repeat f k (lo - 1) (map_option (\<lambda>h. h - 1) hi) greedy"
  have step: "i + lo * m \<le> j" if n: "j \<in> set (?next n)" "n \<in> set (f i)" "i < n" "hi \<noteq> Some 0" for n
  proof -
    have "i + m \<le> n" using 2(2) n(2) by blast
    moreover have "n \<in> set (filter (\<lambda>j. i < j) (f i))" using n by simp
    then have "n + (lo - 1) * m \<le> j" using 2(1) [OF n(4) _ 2(2) n(1)] by blast
    ultimately show ?thesis by (cases lo) auto
  qed
  from 2(3) consider "j = i \<and> lo = 0"
    | n where "j \<in> set (?next n)" "n \<in> set (f i)" "i < n" "hi \<noteq> Some 0"
    by (auto simp: Let_def split: if_splits)
  then show ?case using step by cases auto
qed (auto split: if_splits)

lemma match_ends_min_len: "j \<in> set (match_ends s r i) \<Longrightarrow> i + min_len r \<le> j"
proof (induction r arbitrary: i j)
  case (RRep r lo hi g)
  have "\<forall>i j. j \<in> set (match_ends s r i) \<longrightarrow> i + min_len r \<le> j" using RRep.IH by blast
  from repeat_min_len [OF this] RRep.prems show ?case by simp
next
  case (RSeq a b)
  then show ?case by fastforce
next
  case (RAlt a b)
  then show ?case by (auto simp: min.coboundedI1 min.coboundedI2 dest!: RAlt.IH)
qed (auto split: if_splits)

lemma finditer_min_len: "(a, e) \<in> set (finditer r s) \<Longrightarrow> a + min_len r \<le> e"
  using finditer_range [of a e r s] match_ends_min_len [of e s r a]
  by (auto simp: match_at_def split: list.splits)

end
