(* ===== verification/Privacy.thy ===== *)
theory Privacy
  imports Regex Contracts
begin

text \<open>
  The pre-ingest privacy guard (\<open>services/privacy.py\<close>): the detectors as patterns of the matcher, the
  selection of non-overlapping findings, redaction, and the Luhn check of card numbers. Lengths,
  selection and redaction are proved for every text, whatever the detectors find.
\<close>

section \<open>Detectors\<close>

datatype privacy_action = Allow | Redact | Reject | MetadataOnly

fun action_value :: "privacy_action \<Rightarrow> str" where
  "action_value Allow = lit ''allow''"
| "action_value Redact = lit ''redact''"
| "action_value Reject = lit ''reject''"
| "action_value MetadataOnly = lit ''metadata_only''"

definition parse_action :: "str \<Rightarrow> privacy_action res" where
  "parse_action v =
    (case find (\<lambda>a. action_value a = v) [Allow, Redact, Reject, MetadataOnly] of
       Some a \<Rightarrow> Inr a
     | None \<Rightarrow> Inl (ValueError (v @ lit '' is not a valid PrivacyAction'')))"

record privacy_finding =
  pf_kind :: str
  pf_start :: nat
  pf_end :: nat

record privacy_decision =
  pd_text :: str
  pd_findings :: "privacy_finding list"
  pd_action :: privacy_action
  pd_metadata :: metadata

record detector =
  dt_kind :: str
  dt_pattern :: rx
  dt_luhn :: bool

definition token_char :: "int \<Rightarrow> bool" where
  "token_char c \<longleftrightarrow> is_ascii_alnum c \<or> c \<in> set (lit ''._~+/=-'')"

definition rx_private_key :: rx where
  "rx_private_key = rx_seq [rx_lit ''-----BEGIN '', rx_star (RChar (\<lambda>c. is_ascii_upper c \<or> c = 32)),
     rx_lit ''PRIVATE KEY-----'', RRep (RChar (\<lambda>_. True)) 1 None False, rx_lit ''-----END '',
     rx_star (RChar (\<lambda>c. is_ascii_upper c \<or> c = 32)), rx_lit ''PRIVATE KEY-----'']"

definition rx_openai_key :: rx where
  "rx_openai_key = rx_seq [RBound, rx_lit ''sk-'',
     rx_atleast 20 (RChar (\<lambda>c. is_ascii_alnum c \<or> c = 95 \<or> c = 45)), RBound]"

definition rx_aws_key :: rx where
  "rx_aws_key = rx_seq [RBound, rx_lit ''AKIA'',
     rx_times 16 (RChar (\<lambda>c. is_digit c \<or> is_ascii_upper c)), RBound]"

definition rx_bearer :: rx where
  "rx_bearer = rx_seq [RBound, rx_ilit ''bearer'', rx_plus (RChar is_space),
     rx_atleast 16 (RChar token_char)]"

definition rx_quote :: rx where
  "rx_quote = rx_opt (RChar (\<lambda>c. c = 39 \<or> c = 34))"

definition rx_assign :: rx where
  "rx_assign = rx_seq [rx_star (RChar is_space), RChar (\<lambda>c. c = 58 \<or> c = 61),
     rx_star (RChar is_space), rx_quote]"

definition rx_password :: rx where
  "rx_password = rx_seq [RBound, rx_ilit ''password'', rx_assign,
     rx_atleast 8 (RChar (\<lambda>c. c \<noteq> 39 \<and> c \<noteq> 34 \<and> \<not> is_space c))]"

definition rx_api_key :: rx where
  "rx_api_key = rx_seq [RBound,
     rx_alt [rx_seq [rx_ilit ''api'', rx_opt (RChar (\<lambda>c. c = 95 \<or> c = 45)), rx_ilit ''key''],
             rx_ilit ''token''],
     rx_assign, rx_atleast 16 (RChar token_char)]"

definition rx_ssn :: rx where
  "rx_ssn = rx_seq [RBound, rx_times 3 (RChar is_digit), rx_lit ''-'', rx_times 2 (RChar is_digit),
     rx_lit ''-'', rx_times 4 (RChar is_digit), RBound]"

definition rx_card :: rx where
  "rx_card = rx_seq [RBound,
     RRep (RSeq (RChar is_digit) (RRep (RChar (\<lambda>c. c = 32 \<or> c = 45)) 0 None False)) 13 (Some 19) True,
     RBound]"

definition detectors :: "detector list" where
  "detectors =
    [\<lparr>dt_kind = lit ''private_key'', dt_pattern = rx_private_key, dt_luhn = False\<rparr>,
     \<lparr>dt_kind = lit ''openai_api_key'', dt_pattern = rx_openai_key, dt_luhn = False\<rparr>,
     \<lparr>dt_kind = lit ''aws_access_key'', dt_pattern = rx_aws_key, dt_luhn = False\<rparr>,
     \<lparr>dt_kind = lit ''bearer_token'', dt_pattern = rx_bearer, dt_luhn = False\<rparr>,
     \<lparr>dt_kind = lit ''password_assignment'', dt_pattern = rx_password, dt_luhn = False\<rparr>,
     \<lparr>dt_kind = lit ''api_key_assignment'', dt_pattern = rx_api_key, dt_luhn = False\<rparr>,
     \<lparr>dt_kind = lit ''ssn'', dt_pattern = rx_ssn, dt_luhn = False\<rparr>,
     \<lparr>dt_kind = lit ''payment_card'', dt_pattern = rx_card, dt_luhn = True\<rparr>]"

section \<open>Luhn check\<close>

definition luhn_digit :: "nat \<Rightarrow> nat \<Rightarrow> int \<Rightarrow> int" where
  "luhn_digit parity index d =
    (if index mod 2 = parity then (let x = d * 2 in if 9 < x then x - 9 else x) else d)"

definition luhn_sum :: "nat \<Rightarrow> int list \<Rightarrow> int" where
  "luhn_sum parity ds = sum_list (map (\<lambda>(i, d). luhn_digit parity i d) (enumerate 0 ds))"

definition luhn_valid :: "str \<Rightarrow> bool" where
  "luhn_valid raw =
    (let digits = map (\<lambda>c. c - 48) (filter is_digit raw);
         n = length digits
     in if \<not> (13 \<le> n \<and> n \<le> 19) then False
        else luhn_sum (n mod 2) digits mod 10 = 0)"

section \<open>Scan, redact, apply\<close>

definition detector_hits :: "str \<Rightarrow> detector \<Rightarrow> privacy_finding list" where
  "detector_hits txt d =
    map (\<lambda>(a, e). \<lparr>pf_kind = dt_kind d, pf_start = a, pf_end = e\<rparr>)
      (filter (\<lambda>p. \<not> (dt_luhn d \<and> \<not> luhn_valid (span_text txt p))) (finditer (dt_pattern d) txt))"

fun select_findings :: "int \<Rightarrow> privacy_finding list \<Rightarrow> privacy_finding list" where
  "select_findings covered_until [] = []"
| "select_findings covered_until (f # fs) =
    (if int (pf_start f) < covered_until then select_findings covered_until fs
     else f # select_findings (int (pf_end f)) fs)"

definition scan :: "str \<Rightarrow> privacy_finding list" where
  "scan txt =
    (let findings = concat (map (detector_hits txt) detectors)
     in select_findings (-1)
          (sort_key (\<lambda>r. (int (pf_start r), - (int (pf_end r) - int (pf_start r)))) findings))"

definition redaction_mark :: "str \<Rightarrow> str" where
  "redaction_mark kind = lit ''[REDACTED:'' @ kind @ lit '']''"

definition redact :: "str \<Rightarrow> privacy_finding list \<Rightarrow> str" where
  "redact txt findings =
    foldl (\<lambda>sanitized f. take (pf_start f) sanitized @ redaction_mark (pf_kind f) @ drop (pf_end f) sanitized)
      txt (sort_key_desc pf_start findings)"

definition kind_counts :: "privacy_finding list \<Rightarrow> (str, int) dict" where
  "kind_counts findings =
    foldl (\<lambda>d f. dict_set (pf_kind f) ((case dict_get d (pf_kind f) of None \<Rightarrow> 0 | Some n \<Rightarrow> n) + 1) d)
      [] findings"

definition privacy_metadata :: "privacy_finding list \<Rightarrow> privacy_action \<Rightarrow> metadata" where
  "privacy_metadata findings action =
    [(lit ''privacy'', PDict
       [(lit ''action'', PStr (action_value action)),
        (lit ''finding_count'', PInt (int (length findings))),
        (lit ''finding_kinds'', PList (map PStr (sort (map fst (kind_counts findings))))),
        (lit ''counts'', PDict (map (\<lambda>(k, n). (k, PInt n)) (kind_counts findings)))])]"

record privacy_guard =
  pg_enabled :: bool
  pg_action :: privacy_action

definition privacy_from_env :: "str option \<Rightarrow> str option \<Rightarrow> privacy_guard res" where
  "privacy_from_env env_enabled env_action =
    res_bind (parse_action (py_lower (case env_action of None \<Rightarrow> lit ''redact'' | Some v \<Rightarrow> v)))
      (\<lambda>a. Inr \<lparr>pg_enabled = py_lower (case env_enabled of None \<Rightarrow> lit ''true'' | Some v \<Rightarrow> v)
                  \<in> {lit ''1'', lit ''true'', lit ''yes'', lit ''on''},
               pg_action = a\<rparr>)"

definition withheld :: str where
  "withheld = lit ''[content withheld by privacy guard]''"

definition privacy_apply :: "privacy_guard \<Rightarrow> str \<Rightarrow> privacy_decision res" where
  "privacy_apply g txt =
    (if \<not> pg_enabled g then
       Inr \<lparr>pd_text = txt, pd_findings = [], pd_action = Allow, pd_metadata = []\<rparr>
     else let findings = scan txt in
       if findings = [] then
         Inr \<lparr>pd_text = txt, pd_findings = [], pd_action = Allow, pd_metadata = []\<rparr>
       else if pg_action g = Reject then
         Inl (ValueError (lit ''privacy guard rejected sensitive content: ''
           @ join (lit '', '') (sort (remdups (map pf_kind findings)))))
       else Inr \<lparr>pd_text = (case pg_action g of MetadataOnly \<Rightarrow> withheld
                             | Redact \<Rightarrow> redact txt findings | _ \<Rightarrow> txt),
                 pd_findings = findings, pd_action = pg_action g,
                 pd_metadata = privacy_metadata findings (pg_action g)\<rparr>)"

section \<open>Findings\<close>

definition finding_ok :: "str \<Rightarrow> privacy_finding \<Rightarrow> bool" where
  "finding_ok txt f \<longleftrightarrow> pf_start f < pf_end f \<and> pf_end f \<le> length txt"

lemma detectors_consume: "list_all (\<lambda>d. 0 < min_len (dt_pattern d)) detectors"
  by code_simp

lemma detector_hits_ok:
  assumes "d \<in> set detectors" and "f \<in> set (detector_hits txt d)"
  shows "finding_ok txt f"
proof -
  from assms(2) have "(pf_start f, pf_end f) \<in> set (finditer (dt_pattern d) txt)"
    by (auto simp: detector_hits_def)
  then have "pf_start f + min_len (dt_pattern d) \<le> pf_end f" "pf_end f \<le> length txt"
    using finditer_min_len finditer_range by blast+
  moreover have "0 < min_len (dt_pattern d)" using detectors_consume assms(1) by (simp add: list_all_iff)
  ultimately show ?thesis by (simp add: finding_ok_def)
qed

lemma select_findings_subset: "set (select_findings c fs) \<subseteq> set fs"
  by (induction c fs rule: select_findings.induct) auto

lemma select_findings_disjoint:
  assumes "\<forall>f \<in> set fs. pf_start f < pf_end f"
  shows "sorted_wrt (\<lambda>f g. pf_end f \<le> pf_start g) (select_findings c fs)
    \<and> (\<forall>f \<in> set (select_findings c fs). c \<le> int (pf_start f))"
  using assms
proof (induction c fs rule: select_findings.induct)
  case (2 c f fs)
  show ?case
  proof (cases "int (pf_start f) < c")
    case True
    with 2 show ?thesis by simp
  next
    case False
    with 2 have "sorted_wrt (\<lambda>f g. pf_end f \<le> pf_start g) (select_findings (int (pf_end f)) fs)"
      and "\<forall>g \<in> set (select_findings (int (pf_end f)) fs). int (pf_end f) \<le> int (pf_start g)"
      by simp_all
    moreover have "pf_start f < pf_end f" using 2(3) by simp
    ultimately show ?thesis using False by force
  qed
qed simp

lemma select_findings_cover:
  assumes "sorted (map pf_start fs)" and "\<forall>f \<in> set fs. pf_start f < pf_end f" and "h \<in> set fs"
  shows "int (pf_start h) < c
    \<or> (\<exists>f \<in> set (select_findings c fs). pf_start f \<le> pf_start h \<and> pf_start h < pf_end f)"
  using assms
proof (induction c fs rule: select_findings.induct)
  case (2 c f fs)
  have sorted: "sorted (map pf_start fs)" and le: "\<And>g. g \<in> set fs \<Longrightarrow> pf_start f \<le> pf_start g"
    and lt: "\<forall>g \<in> set fs. pf_start g < pf_end g" "pf_start f < pf_end f"
    using 2(3,4) by auto
  show ?case
  proof (cases "h = f")
    case True
    with lt show ?thesis by auto
  next
    case False
    with 2(5) have h: "h \<in> set fs" by simp
    show ?thesis
    proof (cases "int (pf_start f) < c")
      case True
      from 2(1) [OF True sorted lt(1) h] True show ?thesis by simp
    next
      case False
      from 2(2) [OF False sorted lt(1) h] le [OF h] False show ?thesis by auto
    qed
  qed
qed simp

lemma sorted_scan_order:
  "sorted (map pf_start (sort_key (\<lambda>r. (int (pf_start r), - (int (pf_end r) - int (pf_start r)))) fs))"
proof -
  let ?k = "\<lambda>r. (int (pf_start r), - (int (pf_end r) - int (pf_start r)))"
  have "sorted (map ?k (sort_key ?k fs))" by simp
  then have "sorted_wrt (\<lambda>a b. ?k a \<le> ?k b) (sort_key ?k fs)" by (simp only: sorted_map)
  then show ?thesis
    unfolding sorted_map by (rule sorted_wrt_mono_rel [rotated]) (auto simp: less_eq_prod_def)
qed

lemma scan_spans:
  "sorted_wrt (\<lambda>f g. pf_end f \<le> pf_start g) (scan txt)" "\<forall>f \<in> set (scan txt). finding_ok txt f"
proof -
  let ?k = "\<lambda>r. (int (pf_start r), - (int (pf_end r) - int (pf_start r)))"
  let ?fs = "sort_key ?k (concat (map (detector_hits txt) detectors))"
  have scan: "scan txt = select_findings (-1) ?fs" by (simp add: scan_def)
  have ok: "finding_ok txt f" if "f \<in> set ?fs" for f
    using that detector_hits_ok by auto
  then have lt: "\<forall>f \<in> set ?fs. pf_start f < pf_end f" by (auto simp: finding_ok_def)
  show "sorted_wrt (\<lambda>f g. pf_end f \<le> pf_start g) (scan txt)"
    using select_findings_disjoint [OF lt, of "-1"] by (simp add: scan)
  show "\<forall>f \<in> set (scan txt). finding_ok txt f"
    using ok select_findings_subset [of "-1" ?fs] unfolding scan by blast
qed

text \<open>
  C20: A scan reports disjoint, non-empty spans of the text in ascending order, and misses no hit:
  every hit of every detector starts inside a reported span.
\<close>

theorem scan_disjoint_and_complete:
  "sorted_wrt (\<lambda>f g. pf_end f \<le> pf_start g) (scan txt)
   \<and> (\<forall>f \<in> set (scan txt). pf_start f < pf_end f \<and> pf_end f \<le> length txt)
   \<and> (\<forall>d \<in> set detectors. \<forall>h \<in> set (detector_hits txt d).
        \<exists>f \<in> set (scan txt). pf_start f \<le> pf_start h \<and> pf_start h < pf_end f)"
proof -
  let ?k = "\<lambda>r. (int (pf_start r), - (int (pf_end r) - int (pf_start r)))"
  let ?fs = "sort_key ?k (concat (map (detector_hits txt) detectors))"
  have scan: "scan txt = select_findings (-1) ?fs" by (simp add: scan_def)
  have lt: "\<forall>f \<in> set ?fs. pf_start f < pf_end f"
    using detector_hits_ok [of _ _ "txt"] by (auto simp: finding_ok_def)
  have "\<exists>f \<in> set (scan txt). pf_start f \<le> pf_start h \<and> pf_start h < pf_end f"
    if "d \<in> set detectors" "h \<in> set (detector_hits txt d)" for d h
  proof -
    have "h \<in> set ?fs" using that by auto
    from select_findings_cover [OF sorted_scan_order lt this, of "-1"] show ?thesis
      unfolding scan by simp
  qed
  with scan_spans [of "txt"] show ?thesis by (simp add: finding_ok_def)
qed

theorem scan_disjoint_and_complete_witness:
  "\<exists>f \<in> set (scan (lit ''my password: hunter22'')). pf_start f \<le> 3 \<and> 3 < pf_end f"
proof -
  let ?t = "lit ''my password: hunter22''" and ?d = "detectors ! 4"
  have d: "?d \<in> set detectors" by (simp add: detectors_def)
  have "map pf_start (detector_hits ?t ?d) = [3]" by code_simp
  then obtain h where h: "h \<in> set (detector_hits ?t ?d)" "pf_start h = 3" by auto
  from scan_disjoint_and_complete [of ?t] d h show ?thesis by metis
qed

text \<open>Redaction from the right is the left-to-right assembly of the untouched pieces and the marks.\<close>

fun assemble :: "str \<Rightarrow> nat \<Rightarrow> privacy_finding list \<Rightarrow> str" where
  "assemble txt pos [] = drop pos txt"
| "assemble txt pos (f # fs) =
    take (pf_start f - pos) (drop pos txt) @ redaction_mark (pf_kind f) @ assemble txt (pf_end f) fs"

lemma foldr_assemble:
  assumes "sorted_wrt (\<lambda>f g. pf_end f \<le> pf_start g) fs" and "\<forall>f \<in> set fs. finding_ok txt f"
    and "\<forall>f \<in> set fs. pos \<le> pf_start f" and "pos \<le> length txt"
  shows "foldr (\<lambda>f t. take (pf_start f) t @ redaction_mark (pf_kind f) @ drop (pf_end f) t) fs txt
    = take pos txt @ assemble txt pos fs"
  using assms
proof (induction fs arbitrary: pos)
  case (Cons f fs)
  have f: "pf_start f < pf_end f" "pf_end f \<le> length txt" "pos \<le> pf_start f"
    using Cons.prems by (auto simp: finding_ok_def)
  have "foldr (\<lambda>f t. take (pf_start f) t @ redaction_mark (pf_kind f) @ drop (pf_end f) t) fs txt
      = take (pf_end f) txt @ assemble txt (pf_end f) fs"
    using Cons.prems f by (intro Cons.IH) auto
  moreover have "take pos txt @ take (pf_start f - pos) (drop pos txt) = take (pf_start f) txt"
    using f take_add [of pos "pf_start f - pos" "txt"] by simp
  ultimately show ?case using f by (simp add: min_def)
qed simp

lemma sort_key_desc_disjoint:
  assumes "sorted_wrt (\<lambda>f g. pf_end f \<le> pf_start g) fs" and "\<forall>f \<in> set fs. pf_start f < pf_end f"
  shows "sort_key_desc pf_start fs = rev fs"
proof -
  have s: "sorted_wrt (\<lambda>f g. pf_start f < pf_start g) fs"
    using assms by (induction fs) (auto dest: less_le_trans)
  then have "sorted_wrt (<) (map pf_start fs)" by (simp add: sorted_wrt_map)
  then have "distinct (map pf_start fs)" by (simp add: strict_sorted_iff)
  then have "sorted_wrt (\<lambda>x y. pf_start x < pf_start y) (sort_key pf_start (rev fs))"
    by (intro sorted_sort_key_strict) (auto simp: distinct_map)
  from sort_key_strict_unique [OF this s] show ?thesis by (simp add: sort_key_desc_def)
qed

text \<open>
  C18: What the guard lets through. A guard that is off, and any guard on a text without findings, returns
  the text unchanged. On a text with findings the action decides: redact keeps the text between the
  findings and replaces each finding, whole, by its mark (the right-to-left splicing of the code computes
  the left-to-right assembly); metadata-only returns a fixed notice instead of the text; reject returns
  no text; and allow returns the text as it is. Every answer about a text with
  findings lists them and records their number and the action in its metadata.
\<close>

theorem guard_redacts_every_finding:
  "case privacy_apply g txt of
      Inl e \<Rightarrow> pg_enabled g \<and> pg_action g = Reject \<and> scan txt \<noteq> []
    | Inr d \<Rightarrow>
        (if pg_enabled g \<and> scan txt \<noteq> []
         then pd_findings d = scan txt \<and> pd_action d = pg_action g
           \<and> (\<exists>block. pd_metadata d = [(lit ''privacy'', PDict block)]
              \<and> dict_get block (lit ''action'') = Some (PStr (action_value (pg_action g)))
              \<and> dict_get block (lit ''finding_count'') = Some (PInt (int (length (scan txt)))))
           \<and> (case pg_action g of
                Redact \<Rightarrow> pd_text d = assemble txt 0 (scan txt)
              | MetadataOnly \<Rightarrow> pd_text d = lit ''[content withheld by privacy guard]''
              | Allow \<Rightarrow> pd_text d = txt
              | Reject \<Rightarrow> False)
         else pd_text d = txt \<and> pd_action d = Allow \<and> pd_findings d = [] \<and> pd_metadata d = [])"
proof -
  have d: "sorted_wrt (\<lambda>f g. pf_end f \<le> pf_start g) (scan txt)"
    and ok: "\<forall>f \<in> set (scan txt). finding_ok txt f"
    by (rule scan_spans)+
  have "sort_key_desc pf_start (scan txt) = rev (scan txt)"
    using d ok by (intro sort_key_desc_disjoint) (auto simp: finding_ok_def)
  then have "redact txt (scan txt) = assemble txt 0 (scan txt)"
    using foldr_assemble [OF d ok, of 0] by (simp add: redact_def foldl_conv_foldr)
  moreover have "lit ''action'' \<noteq> lit ''finding_count''" by (simp add: lit_def)
  ultimately show ?thesis
    by (cases "pg_enabled g \<and> scan txt \<noteq> []"; cases "pg_action g")
      (auto simp: privacy_apply_def withheld_def privacy_metadata_def Let_def)
qed

theorem guard_redacts_every_finding_witness:
  "case privacy_apply \<lparr>pg_enabled = True, pg_action = Redact\<rparr> (lit ''my password: hunter22'') of
     Inl e \<Rightarrow> False | Inr d \<Rightarrow> pd_text d = lit ''my [REDACTED:password_assignment]''"
proof -
  let ?g = "\<lparr>pg_enabled = True, pg_action = Redact\<rparr>" and ?t = "lit ''my password: hunter22''"
  have e: "assemble ?t 0 (scan ?t) = lit ''my [REDACTED:password_assignment]''" by code_simp
  have n: "scan ?t \<noteq> []" by code_simp
  show ?thesis
    using guard_redacts_every_finding [of ?g ?t] e n by (auto split: sum.splits)
qed

section \<open>Card numbers\<close>

lemma luhn_digit_eq:
  "luhn_digit p i d = (if i mod 2 = p then if 5 \<le> d then 2 * d - 9 else 2 * d else d)"
  by (auto simp: luhn_digit_def Let_def)

lemma luhn_digit_inj:
  assumes "0 \<le> d" "d \<le> 9" "0 \<le> e" "e \<le> 9" "d \<noteq> e"
  shows "luhn_digit p i d mod 10 \<noteq> luhn_digit p i e mod 10"
proof -
  have range: "0 \<le> luhn_digit p i x \<and> luhn_digit p i x < 10" if "0 \<le> x" "x \<le> 9" for x
    using that by (simp add: luhn_digit_eq)
  have "luhn_digit p i d \<noteq> luhn_digit p i e"
  proof (cases "i mod 2 = p")
    case True
    have "2 * d - 9 \<noteq> 2 * e" "2 * e - 9 \<noteq> 2 * d" by presburger+
    with True assms(5) show ?thesis by (simp add: luhn_digit_eq)
  next
    case False
    then show ?thesis using assms(5) by (simp add: luhn_digit_eq)
  qed
  then show ?thesis using range [OF assms(1,2)] range [OF assms(3,4)] by simp
qed

lemma same_residue:
  fixes x y r :: int
  assumes "(x + r) mod 10 = 0" and "(y + r) mod 10 = 0"
  shows "x mod 10 = y mod 10"
proof -
  have "(x + r) mod 10 = (y + r) mod 10" using assms by simp
  then have "10 dvd (x + r) - (y + r)" by (simp only: mod_eq_dvd_iff)
  then show ?thesis by (simp add: mod_eq_dvd_iff)
qed

lemma luhn_sum_split:
  "luhn_sum p (xs @ d # ys)
    = luhn_sum p xs + luhn_digit p (length xs) d
      + sum_list (map (\<lambda>(i, d). luhn_digit p i d) (enumerate (Suc (length xs)) ys))"
  by (simp add: luhn_sum_def enumerate_append_eq)

text \<open>
  (unlisted): The Luhn check detects every single wrong digit: a string that passes no longer passes when
  one of its digits is replaced by another.
\<close>

theorem luhn_detects_single_digit_error:
  assumes "luhn_valid (a @ [c] @ b)" and "is_digit c" and "is_digit c'" and "c' \<noteq> c"
  shows "\<not> luhn_valid (a @ [c'] @ b)"
proof
  assume bad: "luhn_valid (a @ [c'] @ b)"
  let ?ds = "map (\<lambda>c. c - 48) (filter is_digit a)" and ?es = "map (\<lambda>c. c - 48) (filter is_digit b)"
  let ?p = "(length ?ds + Suc (length ?es)) mod 2"
  let ?rest = "luhn_sum ?p ?ds
    + sum_list (map (\<lambda>(i, d). luhn_digit ?p i d) (enumerate (Suc (length ?ds)) ?es))"
  have s: "(luhn_digit ?p (length ?ds) (x - 48) + ?rest) mod 10 = 0"
    if "luhn_valid (a @ [x] @ b)" "is_digit x" for x
  proof -
    have "luhn_sum ?p (?ds @ (x - 48) # ?es) mod 10 = 0"
      using that by (simp add: luhn_valid_def Let_def split: if_splits)
    then show ?thesis unfolding luhn_sum_split by (simp add: algebra_simps)
  qed
  have "luhn_digit ?p (length ?ds) (c - 48) mod 10 = luhn_digit ?p (length ?ds) (c' - 48) mod 10"
    by (rule same_residue [OF s [OF assms(1,2)] s [OF bad assms(3)]])
  moreover have "luhn_digit ?p (length ?ds) (c - 48) mod 10 \<noteq> luhn_digit ?p (length ?ds) (c' - 48) mod 10"
    using assms(2-4) by (intro luhn_digit_inj) (auto simp: is_digit_def)
  ultimately show False by simp
qed

theorem luhn_detects_single_digit_error_witness:
  "luhn_valid (lit ''4111 1111 1111 1111'') \<and> \<not> luhn_valid (lit ''4111 1711 1111 1111'')"
proof -
  have v: "luhn_valid (lit ''4111 1111 1111 1111'')" by code_simp
  have e: "lit ''4111 1111 1111 1111'' = lit ''4111 1'' @ [49] @ lit ''11 1111 1111''"
    "lit ''4111 1711 1111 1111'' = lit ''4111 1'' @ [55] @ lit ''11 1111 1111''" by code_simp+
  have "luhn_valid (lit ''4111 1'' @ [49] @ lit ''11 1111 1111'')" using v e(1) by simp
  from luhn_detects_single_digit_error [OF this, of 55] v show ?thesis
    unfolding e(2) by (simp add: is_digit_def)
qed

end
