(* ===== verification/Retention.thy ===== *)
theory Retention
  imports StoreItems Privacy
begin

text \<open>
  The synchronous write path (\<open>services/retention.py\<close>): a command passes the privacy guard, becomes a
  canonical item and one \<open>memory.retained.v1\<close> event, and both enter the store in one step. What the
  code generates on the way (identities, clock readings) is the record \<open>fresh\<close>.
\<close>

record fresh =
  fr_item_id :: uuid
  fr_event_id :: uuid
  fr_observed_at :: datetime
  fr_created_at :: datetime
  fr_occurred_at :: datetime

definition retained_v1 :: str where
  "retained_v1 = lit ''memory.retained.v1''"

definition embed_reflect_jobs :: pyval where
  "embed_reflect_jobs = PList [PStr (lit ''embed''), PStr (lit ''reflect'')]"

definition prepare ::
  "privacy_guard \<Rightarrow> fresh \<Rightarrow> retain_command \<Rightarrow> (memory_item \<times> integration_event) res"
where
  "prepare g fr c =
    res_bind (privacy_apply g (rc_text c)) (\<lambda>decision.
    res_bind (memory_item_post_init
      \<lparr>mi_id = fr_item_id fr, mi_tenant_id = rc_tenant_id c, mi_workspace_id = rc_workspace_id c,
       mi_layer = rc_layer c, mi_scope = rc_scope c, mi_kind = rc_kind c, mi_text = pd_text decision,
       mi_provenance = rc_provenance c, mi_agent_id = rc_agent_id c, mi_thread_id = rc_thread_id c,
       mi_labels = rc_labels c, mi_metadata = dict_merge (rc_metadata c) (pd_metadata decision),
       mi_status = rc_status c, mi_importance = rc_importance c, mi_salience = 1/2,
       mi_confidence = rc_confidence c, mi_observed_at = fr_observed_at fr, mi_valid_from = None,
       mi_valid_to = None, mi_created_at = fr_created_at fr, mi_revision = 1,
       mi_supersedes_id = None\<rparr>) (\<lambda>item.
    res_bind (integration_event_post_init
      \<lparr>ie_id = fr_event_id fr, ie_name = retained_v1, ie_tenant_id = mi_tenant_id item,
       ie_workspace_id = mi_workspace_id item,
       ie_payload = [(lit ''memory_id'', PStr (uuid_str (mi_id item))),
         (lit ''layer'', PStr (layer_value (mi_layer item))), (lit ''jobs'', embed_reflect_jobs)],
       ie_occurred_at = fr_occurred_at fr, ie_correlation_id = Some (mi_id item)\<rparr>) (\<lambda>event.
    Inr (item, event))))"

definition retain_service ::
  "privacy_guard \<Rightarrow> fresh \<Rightarrow> retain_command \<Rightarrow> audit_event option \<Rightarrow> store
    \<Rightarrow> retain_result res \<times> store"
where
  "retain_service g fr c audit s =
    (case prepare g fr c of
       Inl e \<Rightarrow> (Inl e, s)
     | Inr (item, event) \<Rightarrow>
         let audit' = map_option (\<lambda>a. a\<lparr>ae_resource_id := Some (uuid_str (mi_id item))\<rparr>) audit in
         (case retain item event (rc_idempotency_key c) audit' s of
            (Inl e, s1) \<Rightarrow> (Inl e, s1)
          | (Inr (stored, created), s1) \<Rightarrow>
              (Inr \<lparr>rr_item = stored, rr_created = created,
                    rr_queued_event_ids = (if created then [ie_id event] else [])\<rparr>, s1)))"

definition supersede_service ::
  "privacy_guard \<Rightarrow> fresh \<Rightarrow> supersede_memory_command \<Rightarrow> audit_event option \<Rightarrow> store
    \<Rightarrow> retain_result res \<times> store"
where
  "supersede_service g fr c audit s =
    (case get_item (sm_tenant_id c) (sm_item_id c) s of
       None \<Rightarrow> (Inl (KeyError (lit ''memory item not found'')), s)
     | Some current \<Rightarrow>
         (case res_bind (privacy_apply g (sm_replacement_text c)) (\<lambda>decision.
               res_bind (supersede_item (fr_item_id fr) (fr_created_at fr) current (pd_text decision)
                           (sm_confidence c) (sm_status c)) (\<lambda>r.
               res_bind (memory_item_post_init
                           (r\<lparr>mi_metadata := dict_merge (mi_metadata r) (pd_metadata decision)\<rparr>)) (\<lambda>replacement.
               res_bind (integration_event_post_init
                 \<lparr>ie_id = fr_event_id fr, ie_name = retained_v1,
                  ie_tenant_id = mi_tenant_id replacement, ie_workspace_id = mi_workspace_id replacement,
                  ie_payload = [(lit ''memory_id'', PStr (uuid_str (mi_id replacement))),
                    (lit ''supersedes_id'', PStr (uuid_str (mi_id current))),
                    (lit ''revision'', PInt (mi_revision replacement)),
                    (lit ''layer'', PStr (layer_value (mi_layer replacement))),
                    (lit ''jobs'', embed_reflect_jobs)],
                  ie_occurred_at = fr_occurred_at fr, ie_correlation_id = Some (mi_id replacement)\<rparr>) (\<lambda>event.
               Inr (replacement, event))))) of
            Inl e \<Rightarrow> (Inl e, s)
          | Inr (replacement, event) \<Rightarrow>
              let audit' = map_option (\<lambda>a. a\<lparr>ae_workspace_id := Some (mi_workspace_id replacement),
                    ae_resource_id := Some (uuid_str (mi_id replacement))\<rparr>) audit in
              (case supersede_if_current replacement event (sm_expected_revision c)
                      (sm_idempotency_key c) audit' s of
                 (Inl e, s1) \<Rightarrow> (Inl e, s1)
               | (Inr (stored, created), s1) \<Rightarrow>
                   (Inr \<lparr>rr_item = stored, rr_created = created,
                         rr_queued_event_ids = (if created then [ie_id event] else [])\<rparr>, s1))))"

section \<open>What the write path prepares\<close>

lemma integration_event_post_init_Inr: "integration_event_post_init e = Inr e' \<Longrightarrow> e' = e"
  by (simp add: integration_event_post_init_def split: if_splits)

lemma prepare_Inr:
  assumes "prepare g fr c = Inr (item, event)"
  obtains d where "privacy_apply g (rc_text c) = Inr d" and "mi_text item = pd_text d"
    and "valid_item item" and "mi_id item = fr_item_id fr" and "mi_supersedes_id item = None"
    and "mi_revision item = 1" and "mi_tenant_id item = rc_tenant_id c"
    and "mi_workspace_id item = rc_workspace_id c" and "mi_layer item = rc_layer c"
    and "mi_scope item = rc_scope c" and "mi_agent_id item = rc_agent_id c"
    and "mi_thread_id item = rc_thread_id c"
    and "mi_metadata item = dict_merge (rc_metadata c) (pd_metadata d)"
    and "ie_id event = fr_event_id fr" and "ie_name event = retained_v1"
    and "ie_correlation_id event = Some (fr_item_id fr)" and "ie_tenant_id event = rc_tenant_id c"
    and "ie_workspace_id event = rc_workspace_id c"
proof -
  from assms obtain d where d: "privacy_apply g (rc_text c) = Inr d"
    by (auto simp: prepare_def res_bind_Inr_iff)
  with assms show thesis
    by (intro that [OF d])
      (auto simp: prepare_def res_bind_Inr_iff memory_item_post_init_Inr
        dest!: integration_event_post_init_Inr)
qed

lemma prepare_rest:
  assumes "prepare g fr c = Inr (item, event)"
  shows "mi_kind item = rc_kind c \<and> mi_labels item = rc_labels c \<and> mi_importance item = rc_importance c
    \<and> mi_confidence item = rc_confidence c \<and> mi_status item = rc_status c
    \<and> mi_provenance item = rc_provenance c"
  using assms by (auto simp: prepare_def res_bind_Inr_iff memory_item_post_init_Inr)

lemma retain_result_cases:
  assumes "items_ok s" and "retain item event key audit s = (r, s1)"
  obtains (created) "r = Inr (item, True)" "st_items s1 = dict_set (mi_id item) item (st_items s)"
      "st_events s1 = st_events (publish event s)"
      "remembered (st_idempotency s) (mi_tenant_id item) (scope_idempotency_key (mi_workspace_id item) key) = None"
      "s1 = with_audit audit (publish event (s\<lparr>st_items := dict_set (mi_id item) item (st_items s),
         st_idempotency := remember (mi_tenant_id item)
           (scope_idempotency_key (mi_workspace_id item) key) (mi_id item) (st_idempotency s)\<rparr>))"
  | (replayed) q i where "r = Inr (q, False)" "s1 = s" "dict_get (st_items s) i = Some q"
      "mi_tenant_id q = mi_tenant_id item"
      "remembered (st_idempotency s) (mi_tenant_id item)
        (scope_idempotency_key (mi_workspace_id item) key) = Some i"
proof (cases "remembered (st_idempotency s) (mi_tenant_id item)
    (scope_idempotency_key (mi_workspace_id item) key)")
  case None
  with assms(2) show thesis
    by (intro created) (auto simp: retain_def append_item_new publish_def)
next
  case (Some i)
  then obtain q where q: "dict_get (st_items s) i = Some q" "mi_tenant_id q = mi_tenant_id item"
    using assms(1) by (auto simp: items_ok_def dest: idem_ok_get)
  with assms(2) Some show thesis
    by (intro replayed [of q i]) (auto simp: retain_def append_item_replay)
qed

lemma retain_service_cases:
  assumes "items_ok s" and "retain_service g fr c audit s = (r, s1)"
  obtains (refused) e where "prepare g fr c = Inl e" "r = Inl e" "s1 = s"
  | (created) item event where "prepare g fr c = Inr (item, event)"
      "r = Inr \<lparr>rr_item = item, rr_created = True, rr_queued_event_ids = [ie_id event]\<rparr>"
      "st_items s1 = dict_set (mi_id item) item (st_items s)"
      "st_events s1 = st_events (publish event s)"
      "remembered (st_idempotency s) (rc_tenant_id c)
        (scope_idempotency_key (rc_workspace_id c) (rc_idempotency_key c)) = None"
      "st_idempotency s1 = remember (rc_tenant_id c)
        (scope_idempotency_key (rc_workspace_id c) (rc_idempotency_key c)) (mi_id item) (st_idempotency s)"
  | (replayed) item event q i where "prepare g fr c = Inr (item, event)" "s1 = s"
      "r = Inr \<lparr>rr_item = q, rr_created = False, rr_queued_event_ids = []\<rparr>"
      "dict_get (st_items s) i = Some q" "mi_tenant_id q = rc_tenant_id c"
      "remembered (st_idempotency s) (rc_tenant_id c)
        (scope_idempotency_key (rc_workspace_id c) (rc_idempotency_key c)) = Some i"
proof (cases "prepare g fr c")
  case (Inl e)
  with assms(2) show thesis by (intro refused) (auto simp: retain_service_def)
next
  case (Inr p)
  obtain item event where p: "p = (item, event)" by (cases p)
  let ?a = "map_option (\<lambda>a. a\<lparr>ae_resource_id := Some (uuid_str (mi_id item))\<rparr>) audit"
  obtain x y where e: "retain item event (rc_idempotency_key c) ?a s = (x, y)" by fastforce
  have t: "mi_tenant_id item = rc_tenant_id c" "mi_workspace_id item = rc_workspace_id c"
    using prepare_Inr [OF Inr [unfolded p]] by metis+
  from assms(1) e show thesis
  proof (cases rule: retain_result_cases)
    case created
    have "st_idempotency s1 = remember (rc_tenant_id c)
        (scope_idempotency_key (rc_workspace_id c) (rc_idempotency_key c)) (mi_id item) (st_idempotency s)"
      using created(1,5) Inr p e t assms(2) by (auto simp: retain_service_def)
    with Inr p e t created assms(2) show thesis
      by (intro that(2) [of item event]) (auto simp: retain_service_def)
  next
    case (replayed q i)
    with Inr p e t assms(2) show thesis
      by (intro that(3) [of item event q i]) (auto simp: retain_service_def)
  qed
qed

text \<open>
  C4: Retention is atomic and sanitized. A refused command changes nothing. A command whose idempotency
  key is remembered changes nothing and answers with the stored item the key names. Every other command
  adds exactly the item it describes: with the command's tenant, workspace, layer, kind, scope, agent,
  thread, labels, status, importance, confidence and provenance, with the text the privacy guard let
  through and the guard's metadata added to the command's, at revision one of a new chain, satisfying
  the item invariant; its event is queued with the item as correlation id, a key given is remembered
  for it, and with an unused identity the ledger stays well formed.
\<close>

theorem retain_service_atomic:
  assumes "items_ok s" and "retain_service g fr c audit s = (r, s1)"
  shows "case r of
      Inl e \<Rightarrow> s1 = s
    | Inr res \<Rightarrow>
        (case remembered (st_idempotency s) (rc_tenant_id c)
            (scope_idempotency_key (rc_workspace_id c) (rc_idempotency_key c)) of
          Some i \<Rightarrow> s1 = s \<and> \<not> rr_created res \<and> dict_get (st_items s) i = Some (rr_item res)
            \<and> mi_id (rr_item res) = i \<and> mi_tenant_id (rr_item res) = rc_tenant_id c \<and> rr_queued_event_ids res = []
        | None \<Rightarrow> rr_created res
          \<and> (\<exists>d. privacy_apply g (rc_text c) = Inr d \<and> mi_text (rr_item res) = pd_text d
              \<and> mi_metadata (rr_item res) = dict_merge (rc_metadata c) (pd_metadata d))
          \<and> valid_item (rr_item res) \<and> mi_id (rr_item res) = fr_item_id fr \<and> mi_revision (rr_item res) = 1
          \<and> mi_supersedes_id (rr_item res) = None
          \<and> mi_tenant_id (rr_item res) = rc_tenant_id c \<and> mi_workspace_id (rr_item res) = rc_workspace_id c
          \<and> mi_layer (rr_item res) = rc_layer c \<and> mi_kind (rr_item res) = rc_kind c
          \<and> mi_scope (rr_item res) = rc_scope c \<and> mi_agent_id (rr_item res) = rc_agent_id c
          \<and> mi_thread_id (rr_item res) = rc_thread_id c \<and> mi_labels (rr_item res) = rc_labels c
          \<and> mi_status (rr_item res) = rc_status c \<and> mi_importance (rr_item res) = rc_importance c
          \<and> mi_confidence (rr_item res) = rc_confidence c \<and> mi_provenance (rr_item res) = rc_provenance c
          \<and> st_items s1 = dict_set (fr_item_id fr) (rr_item res) (st_items s)
          \<and> st_idempotency s1 = remember (rc_tenant_id c)
              (scope_idempotency_key (rc_workspace_id c) (rc_idempotency_key c)) (fr_item_id fr) (st_idempotency s)
          \<and> rr_queued_event_ids res = [fr_event_id fr]
          \<and> (fr_event_id fr \<notin> ie_id ` set (st_events s) \<longrightarrow>
              (\<exists>ev. st_events s1 = st_events s @ [ev] \<and> ie_id ev = fr_event_id fr
                 \<and> ie_name ev = retained_v1 \<and> ie_correlation_id ev = Some (fr_item_id fr)))
          \<and> (ledger_ok s \<and> dict_get (st_items s) (fr_item_id fr) = None \<longrightarrow> ledger_ok s1))"
  using assms
proof (cases rule: retain_service_cases)
  case (refused e)
  then show ?thesis by simp
next
  case (created item event)
  from created(1) show ?thesis
  proof (cases rule: prepare_Inr)
    case (1 d)
    have "fr_event_id fr \<notin> ie_id ` set (st_events s) \<Longrightarrow> st_events s1 = st_events s @ [event]"
      unfolding created(4) using 1 by (intro publish_fresh) simp
    moreover have "ledger_ok s1" if "ledger_ok s" "dict_get (st_items s) (mi_id item) = None"
    proof -
      have "extends_lineage (st_items s) item" using that(2) 1(5) by (simp add: extends_lineage_def)
      from ledger_ok_insert [OF that(1) this] show ?thesis
        using created(3,6) 1(7) by (simp add: ledger_ok_def items_ok_def)
    qed
    ultimately show ?thesis using 1 created(2-) prepare_rest [OF created(1)] by auto
  qed
next
  case (replayed item event q i)
  moreover from this assms(1) have "mi_id q = i" by (auto simp: items_ok_def intro: table_ok_ident)
  ultimately show ?thesis by simp
qed

definition sample_command :: "uuid \<Rightarrow> uuid \<Rightarrow> str \<Rightarrow> str option \<Rightarrow> retain_command" where
  "sample_command t w txt key = \<lparr>rc_tenant_id = t, rc_workspace_id = w, rc_layer = Semantic,
     rc_scope = Workspace, rc_kind = lit ''fact'', rc_text = txt, rc_provenance = sample_provenance,
     rc_agent_id = None, rc_thread_id = None, rc_labels = [], rc_importance = 1/2,
     rc_confidence = 1, rc_metadata = [], rc_status = Active, rc_idempotency_key = key\<rparr>"

definition sample_fresh :: "uuid \<Rightarrow> uuid \<Rightarrow> fresh" where
  "sample_fresh i e = \<lparr>fr_item_id = i, fr_event_id = e, fr_observed_at = 5, fr_created_at = 5, fr_occurred_at = 5\<rparr>"

definition open_guard :: privacy_guard where
  "open_guard = \<lparr>pg_enabled = True, pg_action = Redact\<rparr>"

theorem retain_service_atomic_witness:
  "\<exists>res s1 ev. retain_service open_guard (sample_fresh 1 21) (sample_command 7 8 (lit ''tea'') None) None empty_store
     = (Inr res, s1) \<and> st_events s1 = [ev] \<and> ie_correlation_id ev = Some 1"
proof -
  let ?call = "retain_service open_guard (sample_fresh 1 21) (sample_command 7 8 (lit ''tea'') None) None empty_store"
  have "case fst ?call of Inl e \<Rightarrow> False | Inr res \<Rightarrow> rr_created res" by code_simp
  then obtain res where res: "fst ?call = Inr res" "rr_created res" by (auto split: sum.splits)
  have "items_ok empty_store" using empty_ledger_ok by (simp add: ledger_ok_def)
  note atomic = retain_service_atomic [OF this prod.collapse [symmetric], of open_guard "sample_fresh 1 21"
      "sample_command 7 8 (lit ''tea'') None" None]
  have "remembered (st_idempotency empty_store) t sk = None" for t sk
    by (simp add: remembered_def empty_store_def split: option.split)
  note atomic [unfolded res(1) sum.case this option.case]
  moreover have "fr_event_id (sample_fresh 1 21) \<notin> ie_id ` set (st_events empty_store)" "st_events empty_store = []"
    "fr_item_id (sample_fresh 1 21) = 1" by (simp_all add: empty_store_def sample_fresh_def)
  ultimately obtain ev where "st_events (snd ?call) = [ev]" "ie_correlation_id ev = Some 1" by auto
  then show ?thesis using res(1) by (intro exI [of _ res] exI [of _ "snd ?call"] exI [of _ ev])
    (simp add: prod_eq_iff)
qed

section \<open>Revisions through the service\<close>

lemma supersede_service_cases:
  assumes "supersede_service g fr c audit s = (r, s1)"
  obtains (refused) e where "r = Inl e" "s1 = s"
  | (attempt) cur d item event audit' where
      "get_item (sm_tenant_id c) (sm_item_id c) s = Some cur"
      "privacy_apply g (sm_replacement_text c) = Inr d" "mi_text item = pd_text d" "valid_item item"
      "mi_id item = fr_item_id fr" "mi_supersedes_id item = Some (mi_id cur)"
      "mi_revision item = mi_revision cur + 1" "mi_tenant_id item = mi_tenant_id cur"
      "mi_workspace_id item = mi_workspace_id cur" "mi_layer item = mi_layer cur"
      "mi_scope item = mi_scope cur" "mi_agent_id item = mi_agent_id cur"
      "mi_thread_id item = mi_thread_id cur" "ie_correlation_id event = Some (fr_item_id fr)"
      "ie_id event = fr_event_id fr"
      "r = (case fst (supersede_if_current item event (sm_expected_revision c) (sm_idempotency_key c) audit' s) of
          Inl e \<Rightarrow> Inl e
        | Inr (stored, created) \<Rightarrow> Inr \<lparr>rr_item = stored, rr_created = created,
            rr_queued_event_ids = (if created then [ie_id event] else [])\<rparr>)"
      "s1 = snd (supersede_if_current item event (sm_expected_revision c) (sm_idempotency_key c) audit' s)"
proof (cases "get_item (sm_tenant_id c) (sm_item_id c) s")
  case None
  with assms show thesis by (intro refused) (auto simp: supersede_service_def)
next
  case cur: (Some cur)
  define prep where "prep = res_bind (privacy_apply g (sm_replacement_text c)) (\<lambda>decision.
      res_bind (supersede_item (fr_item_id fr) (fr_created_at fr) cur (pd_text decision)
                           (sm_confidence c) (sm_status c)) (\<lambda>r.
      res_bind (memory_item_post_init
                           (r\<lparr>mi_metadata := dict_merge (mi_metadata r) (pd_metadata decision)\<rparr>)) (\<lambda>replacement.
      res_bind (integration_event_post_init
                 \<lparr>ie_id = fr_event_id fr, ie_name = retained_v1,
                  ie_tenant_id = mi_tenant_id replacement, ie_workspace_id = mi_workspace_id replacement,
                  ie_payload = [(lit ''memory_id'', PStr (uuid_str (mi_id replacement))),
                    (lit ''supersedes_id'', PStr (uuid_str (mi_id cur))),
                    (lit ''revision'', PInt (mi_revision replacement)),
                    (lit ''layer'', PStr (layer_value (mi_layer replacement))),
                    (lit ''jobs'', embed_reflect_jobs)],
                  ie_occurred_at = fr_occurred_at fr, ie_correlation_id = Some (mi_id replacement)\<rparr>) (\<lambda>event.
      Inr (replacement, event)))))"
  show thesis
  proof (cases prep)
    case (Inl e)
    with assms cur show thesis
      by (intro refused [of e]) (simp_all add: supersede_service_def prep_def [symmetric])
  next
    case (Inr p)
    obtain item event where p: "p = (item, event)" by (cases p)
    let ?a = "map_option (\<lambda>a. a\<lparr>ae_workspace_id := Some (mi_workspace_id item),
                    ae_resource_id := Some (uuid_str (mi_id item))\<rparr>) audit"
    let ?cas = "supersede_if_current item event (sm_expected_revision c) (sm_idempotency_key c) ?a s"
    from Inr [unfolded prep_def p res_bind_Inr_iff] obtain d q ev where
      d: "privacy_apply g (sm_replacement_text c) = Inr d"
      and q: "supersede_item (fr_item_id fr) (fr_created_at fr) cur (pd_text d) (sm_confidence c)
          (sm_status c) = Inr q"
      and item: "item = q\<lparr>mi_metadata := dict_merge (mi_metadata q) (pd_metadata d)\<rparr>" "valid_item item"
      and ev: "ie_id event = fr_event_id fr" "ie_correlation_id event = Some (mi_id item)"
      by (auto simp: memory_item_post_init_Inr dest!: integration_event_post_init_Inr)
    have eq: "supersede_service g fr c audit s = (case ?cas of
        (Inl e, s1) \<Rightarrow> (Inl e, s1)
      | (Inr (stored, created), s1) \<Rightarrow>
          (Inr \<lparr>rr_item = stored, rr_created = created,
             rr_queued_event_ids = (if created then [ie_id event] else [])\<rparr>, s1))"
      using cur Inr p by (simp add: supersede_service_def prep_def [symmetric] Let_def)
    note l = supersede_item_lineage [OF q]
    show thesis
      by (rule attempt [OF cur d, of item event ?a])
        (use l item ev eq assms in \<open>auto split: prod.splits sum.splits\<close>)
  qed
qed

text \<open>
  C7: A revision through the service continues one chain. A refused or replayed command changes
  nothing; a created revision follows the named item, which was the head at the expected revision,
  carries the guarded text, inherits scope and ownership, and leaves the ledger unforked.
\<close>

theorem supersede_service_continues_chain:
  assumes ok: "ledger_ok s" and fresh: "dict_get (st_items s) (fr_item_id fr) = None"
    and call: "supersede_service g fr c audit s = (r, s1)"
  shows "ledger_ok s1 \<and> (case r of
      Inl e \<Rightarrow> s1 = s
    | Inr res \<Rightarrow> if rr_created res then
        (\<exists>cur d. get_item (sm_tenant_id c) (sm_item_id c) s = Some cur
          \<and> mi_revision cur = sm_expected_revision c
          \<and> (\<forall>i x. dict_get (st_items s) i = Some x \<longrightarrow> mi_supersedes_id x \<noteq> Some (mi_id cur))
          \<and> privacy_apply g (sm_replacement_text c) = Inr d \<and> mi_text (rr_item res) = pd_text d
          \<and> valid_item (rr_item res) \<and> mi_supersedes_id (rr_item res) = Some (mi_id cur)
          \<and> mi_revision (rr_item res) = mi_revision cur + 1
          \<and> mi_tenant_id (rr_item res) = mi_tenant_id cur
          \<and> mi_workspace_id (rr_item res) = mi_workspace_id cur
          \<and> mi_scope (rr_item res) = mi_scope cur \<and> mi_agent_id (rr_item res) = mi_agent_id cur
          \<and> mi_thread_id (rr_item res) = mi_thread_id cur)
        \<and> st_items s1 = dict_set (fr_item_id fr) (rr_item res) (st_items s)
      else s1 = s)"
  using call
proof (cases rule: supersede_service_cases)
  case (refused e)
  then show ?thesis using ok by simp
next
  case (attempt cur d item event a)
  have items: "items_ok s" using ok by (simp add: ledger_ok_def)
  let ?k = "sm_idempotency_key c" and ?e = "sm_expected_revision c"
  obtain x y where cas: "supersede_if_current item event ?e ?k a s = (x, y)" by fastforce
  have cur: "dict_get (st_items s) (mi_id cur) = Some cur" "mi_tenant_id cur = sm_tenant_id c"
    using attempt(1) items_row_id [OF items] by (auto simp: get_item_Some)
  from cas show ?thesis
  proof (cases rule: supersede_if_current_cases)
    case (replayed i p)
    then obtain q where "dict_get (st_items s) i = Some q"
      using items by (auto simp: items_ok_def dest: idem_ok_get)
    then show ?thesis using attempt replayed cas ok by simp
  next
    case (written p q)
    have q: "q = cur" using written(1,4) attempt(6,8) cur by (auto simp: get_item_Some)
    have rev: "mi_revision item = ?e + 1" using attempt(7) written(5) q by simp
    have none: "find (revises (mi_tenant_id cur) cur) (dict_values (st_items s)) = None"
      using head_unrevised [OF items cur(1)] written(6) q by simp
    have "mi_supersedes_id z \<noteq> Some (mi_id cur)" if "dict_get (st_items s) i = Some z" for i z
      by (rule no_reviser_no_child [OF ok cur(1) none that])
    moreover have "ledger_ok y"
      using ledger_ok_supersede [OF ok _ rev, of event ?k a] fresh attempt(5) cas by simp
    moreover have "st_items y = dict_set (fr_item_id fr) item (st_items s)"
      using written(7) attempt(5) by simp
    ultimately show ?thesis using attempt written q cas by auto
  qed (use attempt cas ok in simp_all)
qed

definition sample_supersede :: "uuid \<Rightarrow> uuid \<Rightarrow> str \<Rightarrow> int \<Rightarrow> supersede_memory_command" where
  "sample_supersede t i txt n = \<lparr>sm_tenant_id = t, sm_item_id = i, sm_replacement_text = txt,
     sm_expected_revision = n, sm_confidence = None, sm_status = None, sm_idempotency_key = None\<rparr>"

theorem supersede_service_continues_chain_witness:
  "let call = supersede_service open_guard (sample_fresh 2 22) (sample_supersede 7 1 (lit ''mint'') 1) None cas_store
   in ledger_ok (snd call) \<and> map (\<lambda>i. (mi_id i, mi_revision i)) (dict_values (st_items (snd call))) = [(1, 1), (2, 2)]"
proof -
  let ?call = "supersede_service open_guard (sample_fresh 2 22) (sample_supersede 7 1 (lit ''mint'') 1) None cas_store"
  have f: "dict_get (st_items cas_store) (fr_item_id (sample_fresh 2 22)) = None" by code_simp
  have "ledger_ok (snd ?call)"
    using supersede_service_continues_chain [OF cas_store_ok f prod.collapse [symmetric]] by blast
  moreover have "map (\<lambda>i. (mi_id i, mi_revision i)) (dict_values (st_items (snd ?call))) = [(1, 1), (2, 2)]"
    by code_simp
  ultimately show ?thesis unfolding Let_def by blast
qed

end
