(* ===== verification/Ingestion.thy ===== *)
theory Ingestion
  imports Retention
begin

text \<open>
  Deterministic ingestion (\<open>services/ingestion.py\<close>): the paragraph-aware chunker and the service that
  retains one provenance-linked memory per chunk. The hash is a parameter; chunk size and overlap are
  natural numbers, which the validation of \<open>IngestDocumentCommand\<close> makes them.
\<close>

section \<open>The chunker\<close>

definition normalize_text :: "str \<Rightarrow> str" where
  "normalize_text txt = join [10] (map rstrip (splitlines (strip txt)))"

definition chunk_end :: "str \<Rightarrow> nat \<Rightarrow> nat \<Rightarrow> nat" where
  "chunk_end n sz start =
    (let hard_end = min (length n) (start + sz) in
     if hard_end < length n then
       let paragraph = rfind [10, 10] n (start + sz div 2) hard_end;
           sentence = rfind (lit ''. '') n (start + sz div 2) hard_end;
           boundary = max (if 0 \<le> paragraph then paragraph + 2 else -1) (sentence + 2)
       in if int start < boundary then nat boundary else hard_end
     else hard_end)"

function chunk_loop :: "str \<Rightarrow> nat \<Rightarrow> nat \<Rightarrow> nat \<Rightarrow> (nat \<times> nat \<times> str) list" where
  "chunk_loop n sz overlap start =
    (if start < length n then
       let e = chunk_end n sz start;
           chunk = strip (take (e - start) (drop start n));
           rest = (if length n \<le> e then []
             else chunk_loop n sz overlap (max (start + 1) (e - overlap)))
       in if chunk = [] then rest else (start, e, chunk) # rest
     else [])"
  by auto
termination by (relation "measure (\<lambda>(n, sz, overlap, start). length n - start)") auto

declare chunk_loop.simps [simp del]

definition split_text :: "str \<Rightarrow> nat \<Rightarrow> nat \<Rightarrow> (nat \<times> nat \<times> str) list" where
  "split_text txt sz overlap = chunk_loop (normalize_text txt) sz overlap 0"

lemma chunk_end_range:
  assumes "start < length n" and "0 < sz"
  shows "start < chunk_end n sz start" and "chunk_end n sz start \<le> length n"
    and "chunk_end n sz start \<le> start + sz"
proof -
  let ?h = "min (length n) (start + sz)" and ?lo = "start + sz div 2"
  have found: "rfind w n ?lo ?h + 2 \<le> int ?h \<or> rfind w n ?lo ?h = -1" if "length w = 2" for w
    using rfind_cases [of w n ?lo ?h] that by force
  have h: "start < ?h" "0 < ?h" using assms by auto
  have "start < chunk_end n sz start \<and> chunk_end n sz start \<le> ?h"
    using found [of "[10, 10]"] found [of "lit ''. ''"] h
    by (auto simp: chunk_end_def Let_def lit_def max_def)
  then show "start < chunk_end n sz start" and "chunk_end n sz start \<le> length n"
    and "chunk_end n sz start \<le> start + sz" by auto
qed

definition windows_ok :: "str \<Rightarrow> nat \<Rightarrow> nat \<Rightarrow> (nat \<times> nat \<times> str) list \<Rightarrow> bool" where
  "windows_ok n sz start ws \<longleftrightarrow>
     (\<forall>(a, e, c) \<in> set ws. start \<le> a \<and> a < e \<and> e \<le> length n \<and> e \<le> a + sz
        \<and> c = strip (take (e - a) (drop a n)) \<and> c \<noteq> [])
   \<and> sorted_wrt (\<lambda>x y. fst x < fst y) ws
   \<and> (\<forall>i < length n. start \<le> i \<and> \<not> is_space (n ! i) \<longrightarrow> (\<exists>(a, e, c) \<in> set ws. a \<le> i \<and> i < e))"

lemma window_not_blank:
  assumes "start \<le> i" and "i < e" and "i < length n" and "\<not> is_space (n ! i)"
  shows "strip (take (e - start) (drop start n)) \<noteq> []"
proof -
  have "n ! i \<in> set (take (e - start) (drop start n))"
    using assms by (auto simp: in_set_conv_nth intro!: exI [of _ "i - start"])
  with assms(4) show ?thesis using blank_iff unfolding blank_def by (metis list_all_iff)
qed

lemma chunk_loop_windows: "0 < sz \<Longrightarrow> windows_ok n sz start (chunk_loop n sz overlap start)"
proof (induction n sz overlap start rule: chunk_loop.induct)
  case (1 n sz overlap start)
  show ?case
  proof (cases "start < length n")
    case False
    then show ?thesis by (simp add: chunk_loop.simps windows_ok_def)
  next
    case True
    define e where "e = chunk_end n sz start"
    define chunk where "chunk = strip (take (e - start) (drop start n))"
    define nxt where "nxt = max (start + 1) (e - overlap)"
    define rest where "rest = (if length n \<le> e then [] else chunk_loop n sz overlap nxt)"
    have e: "start < e" "e \<le> length n" "e \<le> start + sz"
      using chunk_end_range [OF True "1.prems"] by (simp_all add: e_def)
    have nxt: "start < nxt" "nxt \<le> e" using e(1) by (auto simp: nxt_def)
    have eq: "chunk_loop n sz overlap start = (if chunk = [] then rest else (start, e, chunk) # rest)"
      using True by (subst chunk_loop.simps) (simp add: Let_def e_def chunk_def rest_def nxt_def)
    have rest: "(\<forall>(a, f, c) \<in> set rest. nxt \<le> a \<and> a < f \<and> f \<le> length n \<and> f \<le> a + sz
          \<and> c = strip (take (f - a) (drop a n)) \<and> c \<noteq> [])"
      "sorted_wrt (\<lambda>x y. fst x < fst y) rest"
      "\<forall>i < length n. e \<le> i \<and> \<not> is_space (n ! i) \<longrightarrow> (\<exists>(a, f, c) \<in> set rest. a \<le> i \<and> i < f)"
    proof -
      have "windows_ok n sz nxt (chunk_loop n sz overlap nxt)" if "\<not> length n \<le> e"
        using "1.IH" [OF True e_def chunk_def that [folded e_def]] "1.prems" by (simp add: nxt_def e_def)
      then show "(\<forall>(a, f, c) \<in> set rest. nxt \<le> a \<and> a < f \<and> f \<le> length n \<and> f \<le> a + sz
          \<and> c = strip (take (f - a) (drop a n)) \<and> c \<noteq> [])"
        "sorted_wrt (\<lambda>x y. fst x < fst y) rest"
        "\<forall>i < length n. e \<le> i \<and> \<not> is_space (n ! i) \<longrightarrow> (\<exists>(a, f, c) \<in> set rest. a \<le> i \<and> i < f)"
        using nxt by (auto simp: rest_def windows_ok_def)
    qed
    have covered: "\<exists>(a, f, c) \<in> set (chunk_loop n sz overlap start). a \<le> i \<and> i < f"
      if i: "i < length n" "start \<le> i" "\<not> is_space (n ! i)" for i
    proof (cases "i < e")
      case True
      then have "chunk \<noteq> []" using window_not_blank [OF i(2) True i(1,3)] by (simp add: chunk_def)
      with True i show ?thesis by (auto simp: eq)
    next
      case False
      with rest(3) i show ?thesis unfolding eq by fastforce
    qed
    have here: "\<forall>(a, f, c) \<in> set (chunk_loop n sz overlap start). start \<le> a \<and> a < f \<and> f \<le> length n
        \<and> f \<le> a + sz \<and> c = strip (take (f - a) (drop a n)) \<and> c \<noteq> []"
      using rest(1) e nxt unfolding eq by (fastforce simp: chunk_def split: if_splits)
    have "sorted_wrt (\<lambda>x y. fst x < fst y) (chunk_loop n sz overlap start)"
      using rest(1,2) nxt unfolding eq by fastforce
    with here covered show ?thesis unfolding windows_ok_def by blast
  qed
qed

text \<open>
  C1: The chunker loses nothing and stays in bounds. Every chunk is the stripped, non-empty text of
  its window, windows lie in the normalized text, are at most \<open>sz\<close> long and start in strictly
  ascending order, and every character of the text that is not white space lies in some window.
\<close>

theorem chunks_cover_text:
  assumes "0 < sz"
  shows "(\<forall>(a, e, c) \<in> set (split_text txt sz overlap). a < e \<and> e \<le> length (normalize_text txt)
        \<and> e \<le> a + sz \<and> c = strip (take (e - a) (drop a (normalize_text txt))) \<and> c \<noteq> [])
    \<and> sorted_wrt (\<lambda>x y. fst x < fst y) (split_text txt sz overlap)
    \<and> (\<forall>i < length (normalize_text txt). \<not> is_space (normalize_text txt ! i) \<longrightarrow>
        (\<exists>(a, e, c) \<in> set (split_text txt sz overlap). a \<le> i \<and> i < e))"
  using chunk_loop_windows [OF assms, of "normalize_text txt" 0 overlap]
  by (simp add: windows_ok_def split_text_def)

theorem chunks_cover_text_witness:
  "let n = normalize_text (lit ''ab cd. ef''); ws = split_text (lit ''ab cd. ef'') 8 2
   in \<forall>i < length n. \<not> is_space (n ! i) \<longrightarrow> (\<exists>(a, e, c) \<in> set ws. a \<le> i \<and> i < e)"
  using chunks_cover_text [of 8 "lit ''ab cd. ef''" 2] unfolding Let_def by simp

text \<open>
  C2: When the first window has neither a paragraph nor a sentence break in its second half, its end
  is one: the missing sentence (\<open>rfind\<close> gives minus one) still counts as a boundary, and the
  document's first chunk is its first character alone.
\<close>

theorem first_chunk_is_one_character:
  assumes "0 < sz" and "sz < length (normalize_text txt)" and "\<not> is_space (normalize_text txt ! 0)"
    and "rfind [10, 10] (normalize_text txt) (sz div 2) sz = -1"
    and "rfind (lit ''. '') (normalize_text txt) (sz div 2) sz = -1"
  shows "split_text txt sz overlap
    = (0, 1, [normalize_text txt ! 0]) # chunk_loop (normalize_text txt) sz overlap 1"
proof -
  let ?n = "normalize_text txt"
  have len: "0 < length ?n" by (rule le_less_trans [OF _ assms(2)]) simp
  have e: "chunk_end ?n sz 0 = 1"
    using assms by (simp add: chunk_end_def Let_def min_def)
  have "take 1 ?n = [?n ! 0]" using len by (cases ?n) auto
  moreover have "strip [?n ! 0] = [?n ! 0]" using assms(3) by (simp add: strip_def lstrip_def rstrip_def)
  moreover have "1 < length ?n" using assms(1,2) by simp
  ultimately show ?thesis
    using len e unfolding split_text_def by (subst chunk_loop.simps) (simp add: Let_def)
qed

theorem first_chunk_is_one_character_witness:
  "map (\<lambda>(a, e, c). (a, e)) (split_text (lit ''abcdefghijkl'') 8 2) = [(0, 1), (1, 9), (7, 12)]"
proof -
  let ?t = "lit ''abcdefghijkl''"
  have n: "normalize_text ?t = ?t" "length ?t = 12" "?t ! 0 = 97" by code_simp+
  have "rfind [10, 10] ?t 4 8 = -1" "rfind (lit ''. '') ?t 4 8 = -1" by code_simp+
  then have "split_text ?t 8 2 = (0, 1, [97]) # chunk_loop ?t 8 2 1"
    using first_chunk_is_one_character [of 8 ?t 2] by (simp add: n is_space_def)
  moreover have "map (\<lambda>(a, e, c). (a, e)) (chunk_loop ?t 8 2 1) = [(1, 9), (7, 12)]" by code_simp
  ultimately show ?thesis by simp
qed

section \<open>The ingestion service\<close>

definition chunk_key :: "str \<Rightarrow> str \<Rightarrow> nat \<Rightarrow> nat \<Rightarrow> nat \<Rightarrow> str" where
  "chunk_key digest origin_digest index a e =
    lit ''doc:'' @ digest @ lit '':origin:'' @ origin_digest @ lit '':chunk:'' @ int_str (int index)
      @ lit '':'' @ int_str (int a) @ lit '':'' @ int_str (int e)"

definition chunk_command ::
  "ingest_document_command \<Rightarrow> str \<Rightarrow> str \<Rightarrow> nat \<Rightarrow> nat \<times> nat \<times> str \<Rightarrow> retain_command"
where
  "chunk_command c digest origin_digest index chunk =
    (case chunk of (a, e, txt) \<Rightarrow>
      \<lparr>rc_tenant_id = id_tenant_id c, rc_workspace_id = id_workspace_id c, rc_layer = Episodic,
       rc_scope = (if id_thread_id c \<noteq> None then Thread else Workspace),
       rc_kind = lit ''document_chunk'', rc_text = txt,
       rc_provenance = \<lparr>pv_source_kind = id_source_kind c, pv_origin_uri = Some (id_origin_uri c),
         pv_object_key = None, pv_checksum_sha256 = Some digest, pv_quote = Some txt,
         pv_extraction_version = id_extraction_version c\<rparr>,
       rc_agent_id = id_agent_id c, rc_thread_id = id_thread_id c, rc_labels = id_labels c,
       rc_importance = 1/2, rc_confidence = 7/10, rc_metadata = [], rc_status = Active,
       rc_idempotency_key = Some (chunk_key digest origin_digest index a e)\<rparr>)"

fun ingest_chunks ::
  "privacy_guard \<Rightarrow> (nat \<Rightarrow> fresh) \<Rightarrow> (nat \<Rightarrow> nat \<times> nat \<times> str \<Rightarrow> retain_command) \<Rightarrow> nat
    \<Rightarrow> (nat \<times> nat \<times> str) list \<Rightarrow> store \<Rightarrow> (uuid list \<times> nat) res \<times> store"
where
  "ingest_chunks g fr cmd index [] s = (Inr ([], 0), s)"
| "ingest_chunks g fr cmd index (chunk # chunks) s =
    (case retain_service g (fr index) (cmd index chunk) None s of
       (Inl e, s1) \<Rightarrow> (Inl e, s1)
     | (Inr res, s1) \<Rightarrow>
         (case ingest_chunks g fr cmd (Suc index) chunks s1 of
            (Inl e, s2) \<Rightarrow> (Inl e, s2)
          | (Inr (ids, created), s2) \<Rightarrow>
              (Inr (mi_id (rr_item res) # ids, (if rr_created res then 1 else 0) + created), s2)))"

definition ingest_text ::
  "(str \<Rightarrow> str) \<Rightarrow> privacy_guard \<Rightarrow> (nat \<Rightarrow> fresh) \<Rightarrow> ingest_document_command \<Rightarrow> store
    \<Rightarrow> ingest_result res \<times> store"
where
  "ingest_text sha256 g fr c s =
    (let digest = (case given (id_document_checksum c) of None \<Rightarrow> sha256 (id_text c) | Some d \<Rightarrow> d);
         origin_digest = take 16 (sha256 (id_origin_uri c));
         chunks = split_text (id_text c) (nat (id_chunk_size_chars c)) (nat (id_chunk_overlap_chars c))
     in case ingest_chunks g fr (chunk_command c digest origin_digest) 0 chunks s of
          (Inl e, s1) \<Rightarrow> (Inl e, s1)
        | (Inr (ids, created), s1) \<Rightarrow>
            (Inr \<lparr>ir_document_checksum = digest, ir_memory_ids = ids, ir_created_count = created\<rparr>, s1))"

section \<open>Ingesting again\<close>

text \<open>A key is kept when it points at a stored row with that identity.\<close>

definition kept :: "store \<Rightarrow> uuid \<Rightarrow> uuid \<Rightarrow> str \<Rightarrow> uuid \<Rightarrow> bool" where
  "kept s t w k i \<longleftrightarrow> remembered (st_idempotency s) t (scope_idempotency_key w (Some k)) = Some i
     \<and> (\<exists>q. dict_get (st_items s) i = Some q \<and> mi_id q = i)"

lemma retain_service_store:
  assumes "items_ok s" and "retain_service g fr c a s = (r, s1)"
  obtains (same) "s1 = s" "\<And>res. r = Inr res \<Longrightarrow> \<not> rr_created res"
      "\<And>res. r = Inr res \<Longrightarrow> \<exists>i. dict_get (st_items s) i = Some (rr_item res)
        \<and> remembered (st_idempotency s) (rc_tenant_id c)
            (scope_idempotency_key (rc_workspace_id c) (rc_idempotency_key c)) = Some i"
  | (wrote) item event where "prepare g fr c = Inr (item, event)"
      "r = Inr \<lparr>rr_item = item, rr_created = True, rr_queued_event_ids = [ie_id event]\<rparr>"
      "st_items s1 = dict_set (fr_item_id fr) item (st_items s)" "mi_id item = fr_item_id fr"
      "st_idempotency s1 = remember (rc_tenant_id c)
        (scope_idempotency_key (rc_workspace_id c) (rc_idempotency_key c)) (fr_item_id fr) (st_idempotency s)"
      "remembered (st_idempotency s) (rc_tenant_id c)
        (scope_idempotency_key (rc_workspace_id c) (rc_idempotency_key c)) = None"
proof (cases "prepare g fr c")
  case (Inl e)
  with assms(2) show thesis by (intro same) (auto simp: retain_service_def)
next
  case (Inr p)
  obtain item event where p: "p = (item, event)" by (cases p)
  from Inr [unfolded p] have i: "mi_id item = fr_item_id fr" "mi_tenant_id item = rc_tenant_id c"
    "mi_workspace_id item = rc_workspace_id c" by (elim prepare_Inr, simp)+
  let ?sk = "scope_idempotency_key (rc_workspace_id c) (rc_idempotency_key c)"
  show thesis
  proof (cases "remembered (st_idempotency s) (rc_tenant_id c) ?sk")
    case None
    with Inr p i assms(2) show thesis
      by (intro wrote [of item event]) (auto simp: retain_service_def retain_def append_item_new)
  next
    case (Some j)
    then obtain q where "dict_get (st_items s) j = Some q"
      using assms(1) by (auto simp: items_ok_def dest: idem_ok_get)
    with Some Inr p i assms(2) show thesis
      by (intro same) (auto simp: retain_service_def retain_def append_item_replay)
  qed
qed

lemma kept_step:
  assumes "items_ok s" and "dict_get (st_items s) (fr_item_id fr) = None"
    and "retain_service g fr c a s = (r, s1)" and "kept s t w k i"
  shows "kept s1 t w k i"
  using assms(1,3)
proof (cases rule: retain_service_store)
  case same
  then show ?thesis using assms(4) by simp
next
  case (wrote item event)
  have "i \<noteq> fr_item_id fr" using assms(2,4) by (auto simp: kept_def)
  moreover have "remembered (st_idempotency s1) t (scope_idempotency_key w (Some k)) = Some i"
    using wrote(5,6) assms(4) by (auto simp: kept_def remembered_scoped)
  ultimately show ?thesis using wrote(3) assms(4) by (simp add: kept_def)
qed

lemma kept_result:
  assumes "items_ok s" and "retain_service g fr c a s = (Inr res, s1)"
    and "rc_idempotency_key c = Some k"
  shows "kept s1 (rc_tenant_id c) (rc_workspace_id c) k (mi_id (rr_item res))"
  using assms(1,2)
proof (cases rule: retain_service_store)
  case same
  then obtain i where "dict_get (st_items s) i = Some (rr_item res)"
    "remembered (st_idempotency s) (rc_tenant_id c)
      (scope_idempotency_key (rc_workspace_id c) (Some k)) = Some i"
    using assms(3) by auto
  moreover have "mi_id (rr_item res) = i" using calculation(1) by (rule items_row_id [OF assms(1)])
  ultimately show ?thesis using same(1) by (simp add: kept_def)
next
  case (wrote item event)
  then show ?thesis using assms(3) by (simp add: kept_def remembered_scoped)
qed

lemma prepare_any_fresh:
  assumes "prepare g fr c = Inr p"
  shows "\<exists>p'. prepare g fr' c = Inr p'"
  using assms
  by (auto simp: prepare_def res_bind_Inr_iff memory_item_post_init_Inr integration_event_post_init_def
      valid_item_def split: if_splits)

lemma kept_replay:
  assumes "kept s (rc_tenant_id c) (rc_workspace_id c) k i" and "rc_idempotency_key c = Some k"
    and "prepare g fr0 c = Inr p"
  shows "\<exists>q. retain_service g fr c a s
      = (Inr \<lparr>rr_item = q, rr_created = False, rr_queued_event_ids = []\<rparr>, s) \<and> mi_id q = i"
proof -
  obtain item event where p: "prepare g fr c = Inr (item, event)"
    using prepare_any_fresh [OF assms(3), of fr] by auto
  then have "mi_tenant_id item = rc_tenant_id c" "mi_workspace_id item = rc_workspace_id c"
    by (elim prepare_Inr, simp)+
  with p assms(1,2) show ?thesis
    by (auto simp: retain_service_def retain_def append_item_replay kept_def)
qed

lemma items_ok_retain_service:
  assumes "items_ok s" and "dict_get (st_items s) (fr_item_id fr) = None"
    and "retain_service g fr c a s = (r, s1)"
  shows "items_ok s1"
  using assms(1,3)
proof (cases rule: retain_service_store)
  case (wrote item event)
  have "mi_tenant_id item = rc_tenant_id c" using wrote(1) by (elim prepare_Inr)
  moreover have "items_ok (s\<lparr>st_items := dict_set (mi_id item) item (st_items s),
      st_idempotency := remember (mi_tenant_id item)
        (scope_idempotency_key (rc_workspace_id c) (rc_idempotency_key c)) (mi_id item) (st_idempotency s)\<rparr>)"
    using assms wrote(4) by (intro items_ok_insert) simp_all
  ultimately show ?thesis using wrote by (simp add: items_ok_def)
qed (use assms in simp)

fun all_kept ::
  "store \<Rightarrow> privacy_guard \<Rightarrow> (nat \<Rightarrow> nat \<times> nat \<times> str \<Rightarrow> retain_command) \<Rightarrow> nat
    \<Rightarrow> (nat \<times> nat \<times> str) list \<Rightarrow> uuid list \<Rightarrow> bool"
where
  "all_kept s g cmd index [] ids = (ids = [])"
| "all_kept s g cmd index (ch # chs) ids =
    (case ids of [] \<Rightarrow> False
     | i # is \<Rightarrow> (\<exists>k. rc_idempotency_key (cmd index ch) = Some k
           \<and> kept s (rc_tenant_id (cmd index ch)) (rc_workspace_id (cmd index ch)) k i)
         \<and> (\<exists>fr p. prepare g fr (cmd index ch) = Inr p)
         \<and> all_kept s g cmd (Suc index) chs is)"

lemma ingest_all_kept:
  assumes "items_ok s"
    and "\<And>j. index \<le> j \<Longrightarrow> j < index + length chunks \<Longrightarrow> dict_get (st_items s) (fr_item_id (fr j)) = None"
    and "inj_on (\<lambda>j. fr_item_id (fr j)) {index..<index + length chunks}" and "\<And>i ch. rc_idempotency_key (cmd i ch) \<noteq> None"
    and "ingest_chunks g fr cmd index chunks s = (Inr (ids, n), s')"
  shows "items_ok s' \<and> all_kept s' g cmd index chunks ids \<and> (\<forall>t w k i. kept s t w k i \<longrightarrow> kept s' t w k i)"
  using assms
proof (induction chunks arbitrary: index s ids n)
  case Nil
  then show ?case by simp
next
  case (Cons ch chs)
  let ?c = "cmd index ch"
  have fresh: "dict_get (st_items s) (fr_item_id (fr index)) = None" using Cons.prems(2) by simp
  from Cons.prems(5) obtain res s1 where r: "retain_service g (fr index) ?c None s = (Inr res, s1)"
    by (auto split: prod.splits sum.splits)
  with Cons.prems(5) obtain ids' n' where rest: "ingest_chunks g fr cmd (Suc index) chs s1 = (Inr (ids', n'), s')"
    "ids = mi_id (rr_item res) # ids'"
    by (auto split: prod.splits sum.splits)
  have ok1: "items_ok s1" by (rule items_ok_retain_service [OF Cons.prems(1) fresh r])
  have fresh1: "dict_get (st_items s1) (fr_item_id (fr j)) = None"
    if "Suc index \<le> j" "j < Suc index + length chs" for j
    using Cons.prems(1) r
  proof (cases rule: retain_service_store)
    case same
    then show ?thesis using Cons.prems(2) [of j] that by simp
  next
    case (wrote item event)
    have "fr_item_id (fr j) \<noteq> fr_item_id (fr index)"
      using Cons.prems(3) that by (auto dest: inj_onD)
    then show ?thesis using wrote(3) Cons.prems(2) [of j] that by simp
  qed
  have "inj_on (\<lambda>j. fr_item_id (fr j)) {Suc index..<Suc index + length chs}"
    using Cons.prems(3) by (rule inj_on_subset) auto
  note ih = Cons.IH [OF ok1 fresh1 this Cons.prems(4) rest(1)]
  obtain k where k: "rc_idempotency_key ?c = Some k" using Cons.prems(4) [of index ch] by auto
  have "kept s1 (rc_tenant_id ?c) (rc_workspace_id ?c) k (mi_id (rr_item res))"
    by (rule kept_result [OF Cons.prems(1) r k])
  moreover have "\<exists>p. prepare g (fr index) ?c = Inr p"
    using r by (auto simp: retain_service_def split: sum.splits)
  moreover have "kept s1 t w k i" if "kept s t w k i" for t w k i
    by (rule kept_step [OF Cons.prems(1) fresh r that])
  ultimately show ?case using ih rest(2) k by auto
qed

lemma ingest_replay:
  assumes "all_kept s g cmd index chunks ids"
  shows "ingest_chunks g fr cmd index chunks s = (Inr (ids, 0), s)"
  using assms
proof (induction chunks arbitrary: index ids)
  case (Cons ch chs)
  then obtain i rest k f0 p where ids: "ids = i # rest" and k: "rc_idempotency_key (cmd index ch) = Some k"
    and kp: "kept s (rc_tenant_id (cmd index ch)) (rc_workspace_id (cmd index ch)) k i"
    and pr: "prepare g f0 (cmd index ch) = Inr p" and more: "all_kept s g cmd (Suc index) chs rest"
    by (auto split: list.splits)
  obtain q where "retain_service g (fr index) (cmd index ch) None s
      = (Inr \<lparr>rr_item = q, rr_created = False, rr_queued_event_ids = []\<rparr>, s)" "mi_id q = i"
    using kept_replay [OF kp k pr] by blast
  with Cons.IH [OF more] ids show ?case by simp
qed simp

text \<open>
  (unlisted): Ingestion is idempotent. When a document has been ingested, ingesting it again, with whatever
  identities and clock readings, returns the same checksum and the same memories in the same order,
  creates nothing and leaves the store as it was.
\<close>

theorem ingest_twice:
  assumes "items_ok s"
    and "n = length (split_text (id_text c) (nat (id_chunk_size_chars c)) (nat (id_chunk_overlap_chars c)))"
    and "\<forall>j < n. dict_get (st_items s) (fr_item_id (fr j)) = None"
    and "inj_on (\<lambda>j. fr_item_id (fr j)) {..<n}"
    and "ingest_text sha256 g fr c s = (Inr res, s1)"
  shows "ingest_text sha256 g fr' c s1
    = (Inr \<lparr>ir_document_checksum = ir_document_checksum res, ir_memory_ids = ir_memory_ids res,
            ir_created_count = 0\<rparr>, s1)"
proof -
  let ?digest = "case given (id_document_checksum c) of None \<Rightarrow> sha256 (id_text c) | Some d \<Rightarrow> d"
  let ?cmd = "chunk_command c ?digest (take 16 (sha256 (id_origin_uri c)))"
  let ?chunks = "split_text (id_text c) (nat (id_chunk_size_chars c)) (nat (id_chunk_overlap_chars c))"
  obtain ids m where first: "ingest_chunks g fr ?cmd 0 ?chunks s = (Inr (ids, m), s1)"
    and res: "res = \<lparr>ir_document_checksum = ?digest, ir_memory_ids = ids, ir_created_count = m\<rparr>"
    using assms(5) by (auto simp: ingest_text_def Let_def split: prod.splits sum.splits)
  have "rc_idempotency_key (?cmd i ch) \<noteq> None" for i ch
    by (cases ch) (simp add: chunk_command_def)
  then have "all_kept s1 g ?cmd 0 ?chunks ids"
    using ingest_all_kept [OF assms(1) _ _ _ first] assms(2-4) by (simp add: lessThan_atLeast0)
  from ingest_replay [OF this, of fr'] res show ?thesis by (simp add: ingest_text_def Let_def)
qed

definition sample_document :: ingest_document_command where
  "sample_document = \<lparr>id_tenant_id = 7, id_workspace_id = 8, id_text = lit ''one. two'',
     id_origin_uri = lit ''file:a'', id_agent_id = None, id_thread_id = None, id_labels = [],
     id_chunk_size_chars = 256, id_chunk_overlap_chars = 16, id_document_checksum = Some (lit ''c0''),
     id_source_kind = lit ''document'', id_extraction_version = lit ''1''\<rparr>"

definition ingested_store :: store where
  "ingested_store = snd (ingest_text (\<lambda>s. s) open_guard (\<lambda>j. sample_fresh (of_nat j) 21) sample_document empty_store)"

theorem ingest_twice_witness:
  "ingest_text (\<lambda>s. s) open_guard (\<lambda>j. sample_fresh (of_nat j + 50) 22) sample_document ingested_store
   = (Inr \<lparr>ir_document_checksum = lit ''c0'', ir_memory_ids = [0], ir_created_count = 0\<rparr>, ingested_store)"
proof -
  let ?once = "ingest_text (\<lambda>s. s) open_guard (\<lambda>j. sample_fresh (of_nat j) 21) sample_document empty_store"
  have "fst ?once = Inr \<lparr>ir_document_checksum = lit ''c0'', ir_memory_ids = [0], ir_created_count = 1\<rparr>"
    by code_simp
  then have once: "?once = (Inr \<lparr>ir_document_checksum = lit ''c0'', ir_memory_ids = [0], ir_created_count = 1\<rparr>, ingested_store)"
    by (simp add: ingested_store_def prod_eq_iff)
  have n: "1 = length (split_text (id_text sample_document) (nat (id_chunk_size_chars sample_document))
      (nat (id_chunk_overlap_chars sample_document)))" by code_simp
  have "items_ok empty_store" using empty_ledger_ok by (simp add: ledger_ok_def)
  from ingest_twice [OF this n _ _ once] show ?thesis
    by (simp add: empty_store_def inj_on_def)
qed

end
