(* ===== verification/PyValues.thy ===== *)
theory PyValues
  imports Domain Regex
begin

text \<open>
  The conversions of Python that the services apply to values of unknown shape (metadata sent by a
  client, JSON returned by a language model): truth, \<open>str\<close>, \<open>float\<close>, \<open>int\<close>, \<open>dict\<close> and unpacking,
  with the exceptions they raise. The text of a float, list or dict and \<open>dict\<close> of a non-empty list
  or string are left to the record \<open>runtime\<close>; every other case is written out.
\<close>

record runtime =
  rt_repr :: "pyval \<Rightarrow> str"
  rt_dict :: "pyval \<Rightarrow> metadata res"

text \<open>\<open>type(error).__name__\<close>: an exception that is not the program's own is known by its class name.\<close>

fun type_name :: "pyerr \<Rightarrow> str" where
  "type_name (ValueError _) = lit ''ValueError''"
| "type_name (KeyError _) = lit ''KeyError''"
| "type_name (RuntimeError _) = lit ''RuntimeError''"
| "type_name (TypeError _) = lit ''TypeError''"
| "type_name (AttributeError _) = lit ''AttributeError''"
| "type_name (OverflowError _) = lit ''OverflowError''"
| "type_name (MemoryRevisionConflictError _ _ _) = lit ''MemoryRevisionConflictError''"
| "type_name (StaleRevisionError _ _ _) = lit ''StaleRevisionError''"
| "type_name (DependencyFailure name) = name"

fun truthy :: "pyval \<Rightarrow> bool" where
  "truthy PNone = False"
| "truthy (PBool b) = b"
| "truthy (PInt i) = (i \<noteq> 0)"
| "truthy (PFloat x) = (x \<noteq> 0)"
| "truthy (PStr s) = (s \<noteq> [])"
| "truthy (PList xs) = (xs \<noteq> [])"
| "truthy (PDict d) = (d \<noteq> [])"

fun py_str :: "runtime \<Rightarrow> pyval \<Rightarrow> str" where
  "py_str rt PNone = lit ''None''"
| "py_str rt (PBool b) = (if b then lit ''True'' else lit ''False'')"
| "py_str rt (PInt i) = int_str i"
| "py_str rt (PStr s) = s"
| "py_str rt v = rt_repr rt v"

text \<open>\<open>d.get(key)\<close> and \<open>str(value or "")\<close>.\<close>

definition py_get :: "metadata \<Rightarrow> str \<Rightarrow> pyval" where
  "py_get d k = (case dict_get d k of None \<Rightarrow> PNone | Some v \<Rightarrow> v)"

definition str_or_empty :: "runtime \<Rightarrow> pyval \<Rightarrow> str" where
  "str_or_empty rt v = (if truthy v then py_str rt v else [])"

definition py_or :: "pyval \<Rightarrow> pyval \<Rightarrow> pyval" where
  "py_or a b = (if truthy a then a else b)"

section \<open>Numbers\<close>

text \<open>Decimal digits with single underscores between them.\<close>

fun digit_group :: "str \<Rightarrow> int list option" where
  "digit_group [] = None"
| "digit_group [c] = (if is_digit c then Some [c - 48] else None)"
| "digit_group (c # d # cs) =
    (if \<not> is_digit c then None
     else map_option (\<lambda>ds. (c - 48) # ds) (if d = 95 then digit_group cs else digit_group (d # cs)))"

definition digits_value :: "int list \<Rightarrow> int" where
  "digits_value ds = foldl (\<lambda>n d. 10 * n + d) 0 ds"

definition split_sign :: "str \<Rightarrow> bool \<times> str" where
  "split_sign s = (case s of [] \<Rightarrow> (False, [])
     | c # cs \<Rightarrow> if c = 45 then (True, cs) else if c = 43 then (False, cs) else (False, s))"

definition int_literal :: "str \<Rightarrow> int option" where
  "int_literal s = (case split_sign s of (neg, body) \<Rightarrow>
     map_option (\<lambda>ds. if neg then - digits_value ds else digits_value ds) (digit_group body))"

datatype pyfloat = Fin real | Inf bool | NaN

text \<open>\<open>digits [. [digits]] | . digits\<close>: the digits and how many of them follow the point.\<close>

definition mantissa :: "str \<Rightarrow> (int \<times> nat) option" where
  "mantissa s =
    (let ip = takeWhile (\<lambda>c. c \<noteq> 46) s; rest = dropWhile (\<lambda>c. c \<noteq> 46) s; fp = drop 1 rest;
         part = (\<lambda>p. if p = [] then Some [] else digit_group p)
     in if ip = [] \<and> fp = [] then None
        else case (part ip, part fp) of
          (Some a, Some b) \<Rightarrow> Some (digits_value (a @ b), length b)
        | _ \<Rightarrow> None)"

definition scale :: "int \<Rightarrow> int \<Rightarrow> real" where
  "scale m e = (if 0 \<le> e then real_of_int m * 10 ^ nat e else real_of_int m / 10 ^ nat (- e))"

definition float_literal :: "str \<Rightarrow> pyfloat option" where
  "float_literal s =
    (case split_sign (strip s) of (neg, body) \<Rightarrow>
      if py_lower body \<in> {lit ''inf'', lit ''infinity''} then Some (Inf neg)
      else if py_lower body = lit ''nan'' then Some NaN
      else let m = takeWhile (\<lambda>c. c \<noteq> 101 \<and> c \<noteq> 69) body; r = dropWhile (\<lambda>c. c \<noteq> 101 \<and> c \<noteq> 69) body
      in case (mantissa m, if r = [] then Some 0 else int_literal (drop 1 r)) of
           (Some (n, k), Some e) \<Rightarrow> Some (Fin (scale (if neg then - n else n) (e - int k)))
         | _ \<Rightarrow> None)"

text \<open>The integers a double can hold after rounding; beyond them \<open>float\<close> raises.\<close>

definition float_range :: "int \<Rightarrow> bool" where
  "float_range i \<longleftrightarrow> \<bar>i\<bar> < 2 ^ 1024 - 2 ^ 970"

fun py_float :: "pyval \<Rightarrow> pyfloat res" where
  "py_float (PBool b) = Inr (Fin (if b then 1 else 0))"
| "py_float (PInt i) = (if float_range i then Inr (Fin (real_of_int i))
     else Inl (OverflowError (lit ''int too large to convert to float'')))"
| "py_float (PFloat x) = Inr (Fin x)"
| "py_float (PStr s) = (case float_literal s of
     None \<Rightarrow> Inl (ValueError (lit ''could not convert string to float'')) | Some x \<Rightarrow> Inr x)"
| "py_float _ = Inl (TypeError (lit ''float() argument must be a string or a real number''))"

text \<open>\<open>max(0.0, min(1.0, x))\<close>: a NaN is not smaller than one, so it becomes one.\<close>

fun clamp_unit :: "pyfloat \<Rightarrow> real" where
  "clamp_unit (Fin x) = max 0 (min 1 x)"
| "clamp_unit (Inf neg) = (if neg then 0 else 1)"
| "clamp_unit NaN = 1"

lemma clamp_unit_interval [simp]: "unit_interval (clamp_unit x)"
  by (cases x) (auto simp: unit_interval_def)

lemma clamp_unit_id: "unit_interval x \<Longrightarrow> clamp_unit (Fin x) = x"
  by (simp add: unit_interval_def)

fun py_int :: "pyval \<Rightarrow> int res" where
  "py_int (PBool b) = Inr (if b then 1 else 0)"
| "py_int (PInt i) = Inr i"
| "py_int (PFloat x) = Inr (if 0 \<le> x then \<lfloor>x\<rfloor> else \<lceil>x\<rceil>)"
| "py_int (PStr s) = (case int_literal (strip s) of
     None \<Rightarrow> Inl (ValueError (lit ''invalid literal for int() with base 10'')) | Some i \<Rightarrow> Inr i)"
| "py_int _ = Inl (TypeError (lit ''int() argument must be a string, a bytes-like object or a real number''))"

section \<open>Collections\<close>

text \<open>\<open>dict(value)\<close> and \<open>[*value]\<close>.\<close>

definition py_dict :: "runtime \<Rightarrow> pyval \<Rightarrow> metadata res" where
  "py_dict rt v = (case v of
       PDict d \<Rightarrow> Inr d
     | PList [] \<Rightarrow> Inr [] | PStr [] \<Rightarrow> Inr []
     | PList _ \<Rightarrow> rt_dict rt v | PStr _ \<Rightarrow> rt_dict rt v
     | _ \<Rightarrow> Inl (TypeError (lit ''object is not iterable'')))"

fun py_iter :: "pyval \<Rightarrow> pyval list res" where
  "py_iter (PList xs) = Inr xs"
| "py_iter (PStr s) = Inr (map (\<lambda>c. PStr [c]) s)"
| "py_iter (PDict d) = Inr (map (\<lambda>p. PStr (fst p)) d)"
| "py_iter _ = Inl (TypeError (lit ''Value after * must be an iterable''))"

fun is_str :: "pyval \<Rightarrow> bool" where
  "is_str (PStr _) = True"
| "is_str _ = False"

fun the_str :: "pyval \<Rightarrow> str" where
  "the_str (PStr s) = s"
| "the_str _ = []"

text \<open>\<open>str(text or "").strip()\<close> cut to a limit, with a mark where something was cut.\<close>

definition trim_text :: "str \<Rightarrow> nat \<Rightarrow> str" where
  "trim_text txt limit = (let v = strip txt in
     if length v \<le> limit then v else rstrip (take limit v) @ [10] @ lit ''...'')"

lemma length_trim_text: "length (trim_text txt n) \<le> n + 4"
  using length_rstrip [of "take n (strip txt)"]
  by (auto simp: trim_text_def Let_def lit_def intro: order_trans)

lemma trim_text_id: "length (strip txt) \<le> n \<Longrightarrow> trim_text txt n = strip txt"
  by (simp add: trim_text_def)

lemma trim_text_Nil_iff: "0 < n \<Longrightarrow> trim_text txt n = [] \<longleftrightarrow> blank txt"
  by (auto simp: trim_text_def Let_def blank_def)

lemma number_examples:
  "float_literal (lit '' -1_0.5e-1 '') = Some (Fin (-105/100))" "float_literal (lit ''1__0'') = None"
  "float_literal (lit ''.'') = None" "float_literal (lit ''+.5'') = Some (Fin (1/2))"
  "int_literal (lit ''-12_3'') = Some (-123)" "float_literal (lit ''1e'') = None"
  by code_simp+

end
