(* ===== verification/Retrieval.thy ===== *)
theory Retrieval
  imports Samples PyValues
begin

text \<open>
  Recall (\<open>services/retrieval.py\<close>): fan-out over the candidate sources, the tenant and scope filter,
  fusion of the evidence per item, ranking, the bounded trace and the health of the sources. A
  source is any function from a query to candidates or an exception, so what is proved holds
  whatever a vector index or another adapter returns. One reading of the clock stands for the
  readings of one recall.
\<close>

section \<open>Sources, weights and the service state\<close>

record candidate_source =
  src_name :: str
  src_search :: "recall_query \<Rightarrow> candidate list res"

definition trace_name :: "str \<Rightarrow> str" where
  "trace_name value = (let n = take 64 (strip value) in if n = [] then lit ''unknown-source'' else n)"

definition trace_error_type :: "pyerr \<Rightarrow> str" where
  "trace_error_type e =
    (let n = take 128 (strip (type_name e)) in if n = [] then lit ''DependencyError'' else n)"

definition default_weights :: "(str, real) dict" where
  "default_weights = [(lit ''semantic'', 35/100), (lit ''lexical'', 20/100), (lit ''entity'', 15/100),
     (lit ''recency'', 10/100), (lit ''importance'', 10/100), (lit ''trust'', 10/100)]"

record source_state =
  sh_status :: str
  sh_failures :: nat
  sh_error_type :: "str option"

type_synonym source_health = "(str, source_state) dict"

definition unknown_state :: source_state where
  "unknown_state = \<lparr>sh_status = lit ''unknown'', sh_failures = 0, sh_error_type = None\<rparr>"

text \<open>The staleness callable answers with a flag or with the detail.\<close>

datatype staleness = Flag bool | Detail index_freshness

record retrieval_service =
  rt_sources :: "candidate_source list"
  rt_weights :: "(str, real) dict"
  rt_required :: "str list"
  rt_staleness_check :: "(recall_query \<Rightarrow> staleness res) option"
  rt_health :: source_health

definition new_retrieval ::
  "candidate_source list \<Rightarrow> (str, real) dict option \<Rightarrow> str list option
    \<Rightarrow> (recall_query \<Rightarrow> staleness res) option \<Rightarrow> retrieval_service res"
where
  "new_retrieval sources weights required staleness_check =
    (case sources of
       [] \<Rightarrow> Inl (ValueError (lit ''at least one candidate source is required''))
     | first # _ \<Rightarrow>
        (let ws = (case weights of None \<Rightarrow> default_weights | Some [] \<Rightarrow> default_weights | Some w \<Rightarrow> w);
             req = (case required of None \<Rightarrow> [src_name first] | Some [] \<Rightarrow> [src_name first] | Some r \<Rightarrow> r)
         in if 1 / 10 ^ 9 < \<bar>sum_list (dict_values ws) - 1\<bar> then
              Inl (ValueError (lit ''retrieval weights must sum to 1.0''))
            else Inr \<lparr>rt_sources = sources, rt_weights = ws, rt_required = req,
                      rt_staleness_check = staleness_check,
                      rt_health = foldl (\<lambda>h src. dict_set (src_name src) unknown_state h) [] sources\<rparr>))"

section \<open>Source health\<close>

definition health_of :: "str \<Rightarrow> source_health \<Rightarrow> source_state" where
  "health_of name health = (case dict_get health name of None \<Rightarrow> unknown_state | Some st \<Rightarrow> st)"

definition record_success :: "str \<Rightarrow> source_health \<Rightarrow> source_health" where
  "record_success name health =
    dict_set name ((health_of name health)\<lparr>sh_status := lit ''healthy'', sh_error_type := None\<rparr>) health"

definition record_failure :: "str list \<Rightarrow> str \<Rightarrow> pyerr \<Rightarrow> source_health \<Rightarrow> source_health" where
  "record_failure required name e health =
    (let st = health_of name health in
     dict_set name \<lparr>sh_status = (if name \<in> set required then lit ''failed'' else lit ''degraded''),
       sh_failures = sh_failures st + 1, sh_error_type = Some (type_name e)\<rparr> health)"

definition retrieval_metrics :: "source_health \<Rightarrow> (str, nat) dict" where
  "retrieval_metrics health =
    [(lit ''retrieval_source_failures_total'', sum_list (map sh_failures (dict_values health))),
     (lit ''retrieval_degraded_sources'',
      length (filter (\<lambda>st. sh_status st \<in> {lit ''degraded'', lit ''failed''}) (dict_values health)))]"

section \<open>Fusion\<close>

definition recency :: "datetime \<Rightarrow> datetime \<Rightarrow> real" where
  "recency now created_at =
    (let age_days = max 0 (real_of_int (now - created_at) / 1000000 / 86400)
     in (1/2) powr (age_days / 30))"

definition status_multiplier :: "memory_status \<Rightarrow> real" where
  "status_multiplier st =
    (if st = Pinned then 115/100
     else if st \<in> {Disputed, Hypothesis} then 55/100
     else if st \<in> {Stale, Deprecated} then 35/100
     else 1)"

fun strongest :: "('a \<Rightarrow> real) \<Rightarrow> 'a list \<Rightarrow> real" where
  "strongest f [] = 0"
| "strongest f (x # xs) = foldl (\<lambda>m y. max m (f y)) (f x) xs"

definition fused_candidate ::
  "real \<Rightarrow> real \<Rightarrow> real \<Rightarrow> real \<Rightarrow> real \<Rightarrow> real \<Rightarrow> datetime \<Rightarrow> candidate \<Rightarrow> candidate list \<Rightarrow> candidate"
where
  "fused_candidate ws wl we wr wi wt now first candidates =
    (let item = ca_item first;
         semantic = strongest ca_semantic candidates;
         lexical = strongest ca_lexical candidates;
         entity = strongest ca_entity candidates;
         recent = strongest (\<lambda>row. max (ca_recency row) (recency now (mi_created_at item))) candidates;
         trust = strongest (\<lambda>row. max (ca_trust row) (mi_confidence item)) candidates;
         score = (ws * semantic + wl * lexical + we * entity + wr * recent + wi * mi_importance item
                  + wt * trust) * status_multiplier (mi_status item)
     in first\<lparr>ca_source := join (lit ''+'') (sort (remdups (map ca_source candidates))),
          ca_semantic := semantic, ca_lexical := lexical, ca_entity := entity, ca_recency := recent,
          ca_trust := trust, ca_final_score := min 1 score\<rparr>)"

definition fuse :: "(str, real) dict \<Rightarrow> datetime \<Rightarrow> candidate list \<Rightarrow> candidate res" where
  "fuse weights now candidates =
    (case candidates of
       [] \<Rightarrow> Inl (DependencyFailure (lit ''IndexError''))
     | first # _ \<Rightarrow>
         res_bind (dict_index weights (lit ''semantic'')) (\<lambda>ws.
         res_bind (dict_index weights (lit ''lexical'')) (\<lambda>wl.
         res_bind (dict_index weights (lit ''entity'')) (\<lambda>we.
         res_bind (dict_index weights (lit ''recency'')) (\<lambda>wr.
         res_bind (dict_index weights (lit ''importance'')) (\<lambda>wi.
         res_bind (dict_index weights (lit ''trust'')) (\<lambda>wt.
           Inr (fused_candidate ws wl we wr wi wt now first candidates))))))))"

section \<open>Recall\<close>

definition admits :: "recall_query \<Rightarrow> memory_item \<Rightarrow> bool" where
  "admits q item \<longleftrightarrow>
     mi_tenant_id item = rq_tenant_id q \<and> mi_workspace_id item = rq_workspace_id q
   \<and> (case rq_valid_at q of None \<Rightarrow> True | Some moment \<Rightarrow> is_valid_at item moment)
   \<and> mi_status item \<notin> {Rejected, Archived}
   \<and> \<not> (mi_scope item = Private \<and> mi_agent_id item \<noteq> rq_agent_id q)
   \<and> \<not> (mi_scope item = Thread \<and> mi_thread_id item \<noteq> rq_thread_id q)"

record gathered =
  ga_grouped :: "(uuid, candidate list) dict"
  ga_used :: "str list"
  ga_traversal :: "retrieval_trace_step list"
  ga_health :: source_health

definition append_trace ::
  "retrieval_trace_step \<Rightarrow> retrieval_trace_step list \<Rightarrow> retrieval_trace_step list res" where
  "append_trace st traversal =
    res_bind (trace_step_post_init st) (\<lambda>st. Inr (traversal @ [st]))"

definition source_trace ::
  "retrieval_trace_step \<Rightarrow> retrieval_trace_step list \<Rightarrow> retrieval_trace_step list res" where
  "source_trace st traversal =
    (if length traversal < 63 then append_trace st traversal else Inr traversal)"

definition degraded_step :: "str \<Rightarrow> pyerr \<Rightarrow> nat \<Rightarrow> retrieval_trace_step" where
  "degraded_step name e n = \<lparr>ts_sequence = int n + 1, ts_stage = lit ''source'',
     ts_name = trace_name name, ts_status = lit ''degraded'', ts_candidate_count = 0,
     ts_accepted_count = 0, ts_selected_count = 0, ts_error_type = Some (trace_error_type e)\<rparr>"

definition succeeded_step :: "str \<Rightarrow> nat \<Rightarrow> nat \<Rightarrow> nat \<Rightarrow> retrieval_trace_step" where
  "succeeded_step name n found accepted = \<lparr>ts_sequence = int n + 1, ts_stage = lit ''source'',
     ts_name = trace_name name, ts_status = lit ''succeeded'', ts_candidate_count = int found,
     ts_accepted_count = int accepted, ts_selected_count = 0, ts_error_type = None\<rparr>"

definition fusion_step :: "nat \<Rightarrow> nat \<Rightarrow> nat \<Rightarrow> nat \<Rightarrow> retrieval_trace_step" where
  "fusion_step n grouped ranked selected = \<lparr>ts_sequence = int n + 1, ts_stage = lit ''fusion'',
     ts_name = lit ''weighted-fusion'', ts_status = lit ''succeeded'', ts_candidate_count = int grouped,
     ts_accepted_count = int ranked, ts_selected_count = int selected, ts_error_type = None\<rparr>"

definition visit_source ::
  "str list \<Rightarrow> recall_query \<Rightarrow> candidate_source \<Rightarrow> gathered \<Rightarrow> unit res \<times> gathered"
where
  "visit_source required q src g =
    (case src_search src q of
       Inl e \<Rightarrow>
        (let g1 = g\<lparr>ga_health := record_failure required (src_name src) e (ga_health g)\<rparr> in
         case source_trace (degraded_step (src_name src) e (length (ga_traversal g))) (ga_traversal g) of
           Inl e' \<Rightarrow> (Inl e', g1)
         | Inr tr \<Rightarrow>
            (let g2 = g1\<lparr>ga_traversal := tr\<rparr> in
             if src_name src \<in> set required then (Inl e, g2) else (Inr (), g2)))
     | Inr candidates \<Rightarrow>
        (let accepted = filter (\<lambda>c. admits q (ca_item c)) candidates;
             g1 = g\<lparr>ga_health := record_success (src_name src) (ga_health g),
                    ga_used := ga_used g @ [src_name src],
                    ga_grouped := foldl (\<lambda>d c. dict_push (mi_id (ca_item c)) c d) (ga_grouped g) accepted\<rparr>
         in case source_trace (succeeded_step (src_name src) (length (ga_traversal g))
                (length candidates) (length accepted)) (ga_traversal g) of
              Inl e' \<Rightarrow> (Inl e', g1)
            | Inr tr \<Rightarrow> (Inr (), g1\<lparr>ga_traversal := tr\<rparr>)))"

fun visit_sources ::
  "str list \<Rightarrow> recall_query \<Rightarrow> candidate_source list \<Rightarrow> gathered \<Rightarrow> unit res \<times> gathered"
where
  "visit_sources required q [] g = (Inr (), g)"
| "visit_sources required q (src # srcs) g =
    (case visit_source required q src g of
       (Inl e, g') \<Rightarrow> (Inl e, g')
     | (Inr _, g') \<Rightarrow> visit_sources required q srcs g')"

definition rank_candidates ::
  "(str, real) dict \<Rightarrow> datetime \<Rightarrow> recall_query \<Rightarrow> (uuid, candidate list) dict \<Rightarrow> candidate list res"
where
  "rank_candidates weights now q grouped =
    res_bind (res_map (fuse weights now) (dict_values grouped)) (\<lambda>ranked.
      Inr (sort_key_desc (\<lambda>row. (ca_final_score row, mi_created_at (ca_item row)))
            (filter (\<lambda>row. rq_minimum_score q \<le> ca_final_score row) ranked)))"

definition freshness_default :: index_freshness where
  "freshness_default = \<lparr>ix_active_memory_count = 0, ix_stale_memory_count = 0,
     ix_unpublished_memory_count = 0, ix_processing_memory_count = 0, ix_dead_letter_memory_count = 0,
     ix_missing_delivery_memory_count = 0\<rparr>"

definition read_freshness ::
  "(recall_query \<Rightarrow> staleness res) option \<Rightarrow> recall_query \<Rightarrow> index_freshness option" where
  "read_freshness check q =
    map_option (\<lambda>f. case f q of
        Inr (Detail d) \<Rightarrow> d
      | Inr (Flag b) \<Rightarrow> freshness_default\<lparr>ix_stale_memory_count := (if b then 1 else 0)\<rparr>
      | Inl _ \<Rightarrow> freshness_default\<lparr>ix_stale_memory_count := 1, ix_missing_delivery_memory_count := 1\<rparr>)
      check"

definition recall ::
  "datetime \<Rightarrow> recall_query \<Rightarrow> retrieval_service \<Rightarrow> recall_result res \<times> retrieval_service"
where
  "recall now q r =
    (case visit_sources (rt_required r) q (rt_sources r)
            \<lparr>ga_grouped = [], ga_used = [], ga_traversal = [], ga_health = rt_health r\<rparr> of
       (Inl e, g) \<Rightarrow> (Inl e, r\<lparr>rt_health := ga_health g\<rparr>)
     | (Inr _, g) \<Rightarrow>
         (res_bind (rank_candidates (rt_weights r) now q (ga_grouped g)) (\<lambda>ranked.
            (let selected = py_take (rq_top_k q) ranked;
                 freshness = read_freshness (rt_staleness_check r) q
             in res_bind (append_trace (fusion_step (length (ga_traversal g)) (length (ga_grouped g))
                     (length ranked) (length selected)) (ga_traversal g)) (\<lambda>tr.
                Inr \<lparr>rs_candidates = selected, rs_sources_used = ga_used g,
                     rs_index_stale = (case freshness of None \<Rightarrow> False | Some f \<Rightarrow> ix_stale f),
                     rs_index_freshness = freshness, rs_traversal = tr\<rparr>))),
          r\<lparr>rt_health := ga_health g\<rparr>))"

section \<open>What the fan-out keeps\<close>

definition groups_ok :: "recall_query \<Rightarrow> (uuid, candidate list) dict \<Rightarrow> bool" where
  "groups_ok q d \<longleftrightarrow> dict_ok d \<and> (\<forall>i cs. dict_get d i = Some cs \<longrightarrow> cs \<noteq> [] \<and>
     (\<forall>c \<in> set cs. mi_id (ca_item c) = i \<and> admits q (ca_item c)))"

definition trace_ok :: "retrieval_trace_step list \<Rightarrow> bool" where
  "trace_ok tr \<longleftrightarrow> map ts_sequence tr = map int [1..<Suc (length tr)]
     \<and> (\<forall>st \<in> set tr. valid_trace_step st)"

lemma groups_ok_push:
  "groups_ok q d \<Longrightarrow> admits q (ca_item c) \<Longrightarrow> groups_ok q (dict_push (mi_id (ca_item c)) c d)"
  by (cases "dict_get d (mi_id (ca_item c))") (simp_all add: groups_ok_def dict_push_get ball_Un)

lemma groups_ok_foldl:
  "groups_ok q d \<Longrightarrow> \<forall>c \<in> set cs. admits q (ca_item c) \<Longrightarrow>
   groups_ok q (foldl (\<lambda>d c. dict_push (mi_id (ca_item c)) c d) d cs)"
  by (induction cs arbitrary: d) (auto intro: groups_ok_push)

lemma length_push: "length (dict_push k v d) \<le> Suc (length d)"
proof -
  have "length (dict_set k' (x :: 'b list) d') \<le> Suc (length d')" for k' x and d' :: "('a, 'b list) dict"
    by (induction d') auto
  then show ?thesis by (simp add: dict_push_def)
qed

lemma length_foldl_push:
  "length (foldl (\<lambda>d c. dict_push (f c) c d) d cs) \<le> length d + length cs"
proof (induction cs arbitrary: d)
  case (Cons c cs)
  show ?case using Cons.IH [of "dict_push (f c) c d"] length_push [of "f c" c d] by simp
qed simp

lemma append_trace_Inr:
  assumes "append_trace st tr = Inr tr'"
  shows "tr' = tr @ [st] \<and> valid_trace_step st"
  using assms by (auto simp: append_trace_def res_bind_Inr_iff trace_step_post_init_Inr)

lemma source_trace_ok:
  assumes "trace_ok tr" and "ts_sequence st = int (length tr) + 1" and "source_trace st tr = Inr tr'"
  shows "trace_ok tr'"
proof (cases "length tr < 63")
  case True
  with assms(3) have "tr' = tr @ [st]" "valid_trace_step st"
    by (auto simp: source_trace_def dest: append_trace_Inr)
  with assms(1,2) show ?thesis by (simp add: trace_ok_def)
qed (use assms in \<open>simp add: source_trace_def\<close>)

lemma visit_source_ok:
  assumes "groups_ok q (ga_grouped g)" and "trace_ok (ga_traversal g)"
    and "visit_source required q src g = (u, g')"
  shows "groups_ok q (ga_grouped g') \<and> trace_ok (ga_traversal g')"
  using assms
  by (auto simp: visit_source_def Let_def degraded_step_def succeeded_step_def
      intro!: groups_ok_foldl elim!: source_trace_ok [rotated 2]
      split: sum.splits if_splits)

lemma visit_sources_ok:
  assumes "groups_ok q (ga_grouped g)" and "trace_ok (ga_traversal g)"
    and "visit_sources required q srcs g = (u, g')"
  shows "groups_ok q (ga_grouped g') \<and> trace_ok (ga_traversal g')"
  using assms
proof (induction srcs arbitrary: g)
  case (Cons src srcs)
  obtain v g1 where v: "visit_source required q src g = (v, g1)" by fastforce
  from visit_source_ok [OF Cons.prems(1,2) v] Cons.IH [of g1] Cons.prems(3) v show ?case
    by (cases v) auto
qed simp

lemma fuse_Inr:
  assumes "fuse weights now cs = Inr c"
  shows "cs \<noteq> [] \<and> ca_item c = ca_item (hd cs) \<and> ca_final_score c \<le> 1"
  using assms by (auto simp: fuse_def fused_candidate_def Let_def res_bind_Inr_iff split: list.splits)

lemma fused_ids:
  assumes "list_all2 (\<lambda>cs c. fuse weights now cs = Inr c) (dict_values d) rows"
    and "\<forall>p \<in> set d. mi_id (ca_item (hd (snd p))) = fst p"
  shows "map (\<lambda>c. mi_id (ca_item c)) rows = map fst d"
  using assms
proof (induction d arbitrary: rows)
  case (Cons p d)
  from Cons.prems(1) obtain z zs where "rows = z # zs" "fuse weights now (snd p) = Inr z"
    "list_all2 (\<lambda>cs c. fuse weights now cs = Inr c) (dict_values d) zs"
    by (auto simp: list_all2_Cons1)
  with Cons.IH [of zs] Cons.prems(2) fuse_Inr [of weights now "snd p" z] show ?case by simp
qed simp

lemma rank_candidates_Inr:
  assumes ok: "groups_ok q d" and rank: "rank_candidates weights now q d = Inr ranked"
  shows "distinct (map (\<lambda>c. mi_id (ca_item c)) ranked)
    \<and> (\<forall>c \<in> set ranked. admits q (ca_item c) \<and> rq_minimum_score q \<le> ca_final_score c \<and> ca_final_score c \<le> 1)
    \<and> sorted_wrt (\<lambda>x y. (ca_final_score y, mi_created_at (ca_item y)) \<le> (ca_final_score x, mi_created_at (ca_item x))) ranked
    \<and> length ranked \<le> length d"
proof -
  obtain rows where rows: "res_map (fuse weights now) (dict_values d) = Inr rows"
    and ranked: "ranked = sort_key_desc (\<lambda>row. (ca_final_score row, mi_created_at (ca_item row)))
      (filter (\<lambda>row. rq_minimum_score q \<le> ca_final_score row) rows)"
    using rank by (auto simp: rank_candidates_def res_bind_Inr_iff)
  have all: "list_all2 (\<lambda>cs c. fuse weights now cs = Inr c) (dict_values d) rows"
    using rows by (simp add: res_map_Inr)
  have key: "mi_id (ca_item (hd cs)) = i \<and> admits q (ca_item (hd cs))" if "(i, cs) \<in> set d" for i cs
  proof -
    have "dict_get d i = Some cs" using that ok by (simp add: groups_ok_def dict_get_set_mem)
    with ok have "cs \<noteq> []" "\<forall>c \<in> set cs. mi_id (ca_item c) = i \<and> admits q (ca_item c)"
      by (auto simp: groups_ok_def)
    then show ?thesis by simp
  qed
  have ids: "map (\<lambda>c. mi_id (ca_item c)) rows = map fst d"
    by (rule fused_ids [OF all]) (use key in auto)
  have "distinct (map (\<lambda>c. mi_id (ca_item c)) rows)"
    using ok unfolding ids by (simp add: groups_ok_def)
  then have "distinct (map (\<lambda>c. mi_id (ca_item c)) ranked)"
    by (auto simp: ranked distinct_map inj_on_def)
  moreover have "admits q (ca_item c) \<and> ca_final_score c \<le> 1" if "c \<in> set rows" for c
  proof -
    obtain k where k: "k < length rows" "rows ! k = c"
      using \<open>c \<in> set rows\<close> by (auto simp: in_set_conv_nth)
    have len: "length (dict_values d) = length rows" using all by (rule list_all2_lengthD)
    then have "dict_values d ! k \<in> set (dict_values d)" using k(1) by (intro nth_mem) simp
    moreover have "fuse weights now (dict_values d ! k) = Inr c"
      using list_all2_nthD [OF all, of k] k len by simp
    ultimately obtain cs where cs: "cs \<in> set (dict_values d)" "fuse weights now cs = Inr c" by blast
    then obtain i where "(i, cs) \<in> set d" by auto
    from key [OF this] fuse_Inr [OF cs(2)] show ?thesis by simp
  qed
  moreover have "length rows = length d" using ids by (metis length_map)
  then have "length ranked \<le> length d" by (simp add: ranked) (metis length_filter_le)
  ultimately show ?thesis
    using sorted_sort_key_desc [of "\<lambda>row. (ca_final_score row, mi_created_at (ca_item row))"
        "filter (\<lambda>row. rq_minimum_score q \<le> ca_final_score row) rows"]
    by (auto simp: ranked)
qed

text \<open>
  C99: Recall is isolated, bounded and ranked whatever the sources return. Every selected item is of
  the query's tenant and workspace, valid at the requested moment, neither rejected nor archived,
  and private or thread memory only goes to its agent or thread; no item is selected twice, at most
  \<open>top_k\<close> are, their scores lie between the requested minimum and 1, and they come highest score
  first, newest first among equals. The trace is numbered from 1 without gaps and every step is
  within its bounds.
\<close>

theorem recall_isolated_and_ranked:
  assumes "recall now q r = (Inr res, r')" and "0 \<le> rq_top_k q"
  shows "(\<forall>c \<in> set (rs_candidates res). mi_tenant_id (ca_item c) = rq_tenant_id q
       \<and> mi_workspace_id (ca_item c) = rq_workspace_id q
       \<and> (\<forall>moment. rq_valid_at q = Some moment \<longrightarrow> is_valid_at (ca_item c) moment)
       \<and> mi_status (ca_item c) \<noteq> Rejected \<and> mi_status (ca_item c) \<noteq> Archived
       \<and> (mi_scope (ca_item c) = Private \<longrightarrow> mi_agent_id (ca_item c) = rq_agent_id q)
       \<and> (mi_scope (ca_item c) = Thread \<longrightarrow> mi_thread_id (ca_item c) = rq_thread_id q)
       \<and> rq_minimum_score q \<le> ca_final_score c \<and> ca_final_score c \<le> 1)
    \<and> distinct (map (\<lambda>c. mi_id (ca_item c)) (rs_candidates res))
    \<and> int (length (rs_candidates res)) \<le> rq_top_k q
    \<and> sorted_wrt (\<lambda>x y. (ca_final_score y, mi_created_at (ca_item y))
         \<le> (ca_final_score x, mi_created_at (ca_item x))) (rs_candidates res)
    \<and> trace_ok (rs_traversal res)"
proof -
  obtain g ranked tr where
    g: "visit_sources (rt_required r) q (rt_sources r)
          \<lparr>ga_grouped = [], ga_used = [], ga_traversal = [], ga_health = rt_health r\<rparr> = (Inr (), g)"
    and ranked: "rank_candidates (rt_weights r) now q (ga_grouped g) = Inr ranked"
    and tr: "append_trace (fusion_step (length (ga_traversal g)) (length (ga_grouped g)) (length ranked)
        (length (py_take (rq_top_k q) ranked))) (ga_traversal g) = Inr tr"
    and res: "rs_candidates res = take (nat (rq_top_k q)) ranked" "rs_traversal res = tr"
    using assms by (auto simp: recall_def res_bind_Inr_iff Let_def split: prod.splits sum.splits)
  have "groups_ok q (ga_grouped g) \<and> trace_ok (ga_traversal g)"
    by (rule visit_sources_ok [OF _ _ g]) (simp_all add: groups_ok_def trace_ok_def)
  then have ok: "groups_ok q (ga_grouped g)" and t: "trace_ok (ga_traversal g)" by auto
  have "trace_ok tr"
    using append_trace_Inr [OF tr] t by (simp add: trace_ok_def fusion_step_def)
  moreover have "\<forall>c \<in> set (rs_candidates res). admits q (ca_item c)"
    using rank_candidates_Inr [OF ok ranked] by (auto simp: res dest: in_set_takeD)
  ultimately show ?thesis
    using rank_candidates_Inr [OF ok ranked] assms(2)
    by (auto simp: res take_map [symmetric] sorted_wrt_take admits_def dest: in_set_takeD)
qed

section \<open>Failing sources\<close>

definition fails :: "recall_query \<Rightarrow> candidate_source \<Rightarrow> bool" where
  "fails q src \<longleftrightarrow> (case src_search src q of Inl _ \<Rightarrow> True | Inr _ \<Rightarrow> False)"

definition blocks :: "str list \<Rightarrow> recall_query \<Rightarrow> candidate_source \<Rightarrow> bool" where
  "blocks required q src \<longleftrightarrow> fails q src \<and> src_name src \<in> set required"

definition volume :: "recall_query \<Rightarrow> candidate_source list \<Rightarrow> nat" where
  "volume q srcs = sum_list (map (\<lambda>src. case src_search src q of Inl _ \<Rightarrow> 0 | Inr cs \<Rightarrow> length cs) srcs)"

definition expected_status :: "str list \<Rightarrow> recall_query \<Rightarrow> candidate_source \<Rightarrow> str" where
  "expected_status required q src =
    (if blocks required q src then lit ''failed''
     else if fails q src then lit ''degraded'' else lit ''healthy'')"

lemma trace_name_ok: "trace_name n \<noteq> [] \<and> length (trace_name n) \<le> 64"
  by (simp add: trace_name_def Let_def lit_def)

lemma trace_error_type_ok: "trace_error_type e \<noteq> [] \<and> length (trace_error_type e) \<le> 128"
  by (simp add: trace_error_type_def Let_def lit_def)

lemma source_steps_valid:
  "n < 63 \<Longrightarrow> valid_trace_step (degraded_step name e n)"
  "n < 63 \<Longrightarrow> a \<le> f \<Longrightarrow> f \<le> 1000000 \<Longrightarrow> valid_trace_step (succeeded_step name n f a)"
  using trace_name_ok [of name] trace_error_type_ok [of e]
  by (simp_all add: degraded_step_def succeeded_step_def valid_trace_step_def trace_count_ok_def)

lemma source_trace_total:
  assumes "length tr < 63 \<Longrightarrow> valid_trace_step st"
  shows "source_trace st tr = Inr (if length tr < 63 then tr @ [st] else tr)"
  using assms by (simp add: source_trace_def append_trace_def res_bind_Inr_iff trace_step_post_init_Inr)

lemma health_of_set: "health_of n (dict_set m st h) = (if n = m then st else health_of n h)"
  by (simp add: health_of_def)

lemma visit_source_spec:
  assumes "volume q [src] \<le> 1000000" and "length (ga_traversal g) \<le> 63"
    and "g' = snd (visit_source required q src g)"
  shows "fst (visit_source required q src g) = (case src_search src q of
        Inl e \<Rightarrow> if src_name src \<in> set required then Inl e else Inr () | Inr _ \<Rightarrow> Inr ())
    \<and> ga_used g' = ga_used g @ (if fails q src then [] else [src_name src])
    \<and> length (ga_traversal g') \<le> 63
    \<and> length (ga_grouped g') \<le> length (ga_grouped g) + volume q [src]
    \<and> sh_status (health_of (src_name src) (ga_health g')) = expected_status required q src
    \<and> (\<forall>n. n \<noteq> src_name src \<longrightarrow> health_of n (ga_health g') = health_of n (ga_health g))"
proof (cases "src_search src q")
  case (Inl e)
  then show ?thesis
    using assms(2) source_steps_valid(1)
    by (simp add: assms(3) visit_source_def Let_def source_trace_total fails_def blocks_def volume_def
        expected_status_def record_failure_def health_of_set)
next
  case (Inr cs)
  let ?acc = "filter (\<lambda>c. admits q (ca_item c)) cs"
  have v: "valid_trace_step (succeeded_step (src_name src) (length (ga_traversal g)) (length cs) (length ?acc))"
    if "length (ga_traversal g) < 63"
    using that assms(1) Inr by (intro source_steps_valid) (simp_all add: volume_def)
  have "length (foldl (\<lambda>d c. dict_push (mi_id (ca_item c)) c d) (ga_grouped g) ?acc)
      \<le> length (ga_grouped g) + length cs"
    using length_foldl_push [of "\<lambda>c. mi_id (ca_item c)" "ga_grouped g" ?acc] length_filter_le [of _ cs]
    by (meson add_left_mono le_trans)
  with Inr show ?thesis
    using assms(2)
    by (simp add: assms(3) visit_source_def Let_def source_trace_total [OF v] fails_def blocks_def
        volume_def expected_status_def record_success_def health_of_set)
qed

lemma visit_sources_spec:
  assumes "volume q srcs \<le> 1000000" and "length (ga_traversal g) \<le> 63"
    and "g' = snd (visit_sources required q srcs g)"
  shows "(case find (blocks required q) srcs of
      Some src \<Rightarrow> fst (visit_sources required q srcs g) = map_sum id (\<lambda>_. ()) (src_search src q)
    | None \<Rightarrow> fst (visit_sources required q srcs g) = Inr ()
        \<and> ga_used g' = ga_used g @ map src_name (filter (\<lambda>src. \<not> fails q src) srcs)
        \<and> length (ga_traversal g') \<le> 63
        \<and> length (ga_grouped g') \<le> length (ga_grouped g) + volume q srcs)
    \<and> (distinct (map src_name srcs) \<longrightarrow> find (blocks required q) srcs = None \<longrightarrow>
        (\<forall>src \<in> set srcs. sh_status (health_of (src_name src) (ga_health g')) = expected_status required q src))
    \<and> (\<forall>n. n \<notin> src_name ` set srcs \<longrightarrow> health_of n (ga_health g') = health_of n (ga_health g))"
  using assms
proof (induction srcs arbitrary: g g')
  case (Cons src srcs)
  have v: "volume q [src] \<le> 1000000" "volume q srcs \<le> 1000000"
    "volume q (src # srcs) = volume q [src] + volume q srcs"
    using Cons.prems(1) by (simp_all add: volume_def)
  let ?g1 = "snd (visit_source required q src g)"
  note one = visit_source_spec [OF v(1) Cons.prems(2) refl, of required]
  note rest = Cons.IH [OF v(2), of ?g1, OF _ refl]
  show ?case
  proof (cases "blocks required q src")
    case True
    then obtain e where "src_search src q = Inl e" "src_name src \<in> set required"
      by (auto simp: blocks_def fails_def split: sum.splits)
    with one True Cons.prems(3) show ?thesis
      by (auto simp: prod_eq_iff split: prod.splits sum.splits)
  next
    case False
    with one have u: "visit_source required q src g = (Inr (), ?g1)"
      by (auto simp: blocks_def fails_def prod_eq_iff split: sum.splits if_splits)
    then have step: "visit_sources required q (src # srcs) g = visit_sources required q srcs ?g1"
      by (metis (mono_tags) old.prod.case sum.case(2) visit_sources.simps(2))
    with one rest Cons.prems(3) v(3) False show ?thesis
      by (auto simp: volume_def split: option.splits)
  qed
qed (simp add: volume_def)

definition full_weights :: "(str, real) dict \<Rightarrow> bool" where
  "full_weights weights \<longleftrightarrow> set (map fst default_weights) \<subseteq> set (map fst weights)"

lemma full_weights_index:
  assumes "full_weights weights" and "k \<in> set (map fst default_weights)"
  obtains w where "dict_get weights k = Some w"
proof -
  have "k \<in> fst ` set weights" using assms by (auto simp: full_weights_def)
  then have "dict_get weights k \<noteq> None" by (simp add: map_of_eq_None_iff)
  then show ?thesis using that by blast
qed

lemma fuse_Inr_iff:
  assumes "full_weights weights"
  obtains ws wl we wr wi wt where
    "dict_get weights (lit ''semantic'') = Some ws" "dict_get weights (lit ''lexical'') = Some wl"
    "dict_get weights (lit ''entity'') = Some we" "dict_get weights (lit ''recency'') = Some wr"
    "dict_get weights (lit ''importance'') = Some wi" "dict_get weights (lit ''trust'') = Some wt"
proof -
  have ks: "set (map fst default_weights) = {lit ''semantic'', lit ''lexical'', lit ''entity'',
      lit ''recency'', lit ''importance'', lit ''trust''}"
    by (simp add: default_weights_def)
  show ?thesis
    using full_weights_index [OF assms, unfolded ks] that by (metis insertI1 insertI2)
qed

lemma fuse_total:
  assumes "full_weights weights" and "cs \<noteq> []"
  shows "\<exists>c. fuse weights now cs = Inr c"
  by (rule fuse_Inr_iff [OF assms(1)]) (use assms(2) in \<open>cases cs; simp add: fuse_def Let_def\<close>)

lemma rank_candidates_total:
  assumes "full_weights weights" and "groups_ok q d"
  shows "\<exists>ranked. rank_candidates weights now q d = Inr ranked"
proof -
  have "\<exists>c. fuse weights now cs = Inr c" if "cs \<in> set (dict_values d)" for cs
    using that assms dict_values_get [of d cs] by (intro fuse_total) (auto simp: groups_ok_def)
  then have "res_map (fuse weights now) (dict_values d)
      = Inr (map (\<lambda>cs. SOME c. fuse weights now cs = Inr c) (dict_values d))"
    by (intro res_map_total) (rule someI_ex)
  then show ?thesis by (simp add: rank_candidates_def)
qed

lemma recall_returns:
  assumes "full_weights (rt_weights r)" and "volume q (rt_sources r) \<le> 1000000"
    and "find (blocks (rt_required r) q) (rt_sources r) = None" and "recall now q r = (u, r')"
  shows "\<exists>res. u = Inr res
      \<and> rs_sources_used res = map src_name (filter (\<lambda>src. \<not> fails q src) (rt_sources r))
      \<and> (distinct (map src_name (rt_sources r)) \<longrightarrow>
          (\<forall>src \<in> set (rt_sources r). sh_status (health_of (src_name src) (rt_health r'))
             = (if fails q src then lit ''degraded'' else lit ''healthy'')))"
proof -
  let ?g0 = "\<lparr>ga_grouped = [], ga_used = [], ga_traversal = [], ga_health = rt_health r\<rparr>"
  obtain v g where visit: "visit_sources (rt_required r) q (rt_sources r) ?g0 = (v, g)" by fastforce
  have spec: "length (ga_traversal ?g0) \<le> 63" "g = snd (visit_sources (rt_required r) q (rt_sources r) ?g0)"
    using visit by simp_all
  note s = visit_sources_spec [OF assms(2) spec]
  from assms(3) s visit have g: "visit_sources (rt_required r) q (rt_sources r) ?g0 = (Inr (), g)"
    "ga_used g = map src_name (filter (\<lambda>src. \<not> fails q src) (rt_sources r))"
    "length (ga_traversal g) \<le> 63" "length (ga_grouped g) \<le> 1000000"
    using assms(2) by auto
  have ok: "groups_ok q (ga_grouped g)"
    using visit_sources_ok [OF _ _ g(1)] by (simp add: groups_ok_def trace_ok_def)
  obtain ranked where ranked: "rank_candidates (rt_weights r) now q (ga_grouped g) = Inr ranked"
    using rank_candidates_total [OF assms(1) ok] by blast
  have "length ranked \<le> length (ga_grouped g)" using rank_candidates_Inr [OF ok ranked] by blast
  moreover have "length (py_take (rq_top_k q) ranked) \<le> length ranked"
    by (simp add: py_take_def py_slice_def Let_def min.coboundedI1)
  ultimately have "valid_trace_step (fusion_step (length (ga_traversal g)) (length (ga_grouped g))
      (length ranked) (length (py_take (rq_top_k q) ranked)))"
    using g(3,4) by (simp add: fusion_step_def valid_trace_step_def trace_count_ok_def lit_def)
  then have u: "\<exists>res. u = Inr res \<and> rs_sources_used res = ga_used g" "rt_health r' = ga_health g"
    using assms(4) g(1) ranked
    by (auto simp: recall_def Let_def append_trace_def trace_step_post_init_Inr [THEN iffD2])
  have "expected_status (rt_required r) q src = (if fails q src then lit ''degraded'' else lit ''healthy'')"
    if "src \<in> set (rt_sources r)" for src
    using assms(3) that by (auto simp: expected_status_def find_None_iff)
  with s u g(2) assms(3) show ?thesis by auto
qed

lemma recall_blocked:
  assumes "volume q (rt_sources r) \<le> 1000000"
    and "find (blocks (rt_required r) q) (rt_sources r) = Some src" and "recall now q r = (u, r')"
  shows "\<exists>e. src_search src q = Inl e \<and> u = Inl e"
proof -
  let ?g0 = "\<lparr>ga_grouped = [], ga_used = [], ga_traversal = [], ga_health = rt_health r\<rparr>"
  obtain v g where visit: "visit_sources (rt_required r) q (rt_sources r) ?g0 = (v, g)" by fastforce
  have spec: "length (ga_traversal ?g0) \<le> 63" "g = snd (visit_sources (rt_required r) q (rt_sources r) ?g0)"
    using visit by simp_all
  note s = visit_sources_spec [OF assms(1) spec]
  obtain e where "src_search src q = Inl e"
    using find_SomeD [OF assms(2)] by (auto simp: blocks_def fails_def split: sum.splits)
  with s assms(2,3) visit show ?thesis by (auto simp: recall_def)
qed

text \<open>
  C13: A recall fails only because of a required source. When every fusion weight is configured and
  the sources return at most a million candidates together, the first required source that raises
  makes the recall raise that exception; if there is none, the recall returns, names exactly the
  sources that answered, in order, and every source (of distinct names) is recorded as healthy,
  or as degraded when it failed without being required.
\<close>

theorem recall_degrades_or_raises:
  assumes "full_weights (rt_weights r)" and "volume q (rt_sources r) \<le> 1000000"
    and "recall now q r = (u, r')"
  shows "case find (blocks (rt_required r) q) (rt_sources r) of
      Some src \<Rightarrow> (\<exists>e. src_search src q = Inl e \<and> u = Inl e)
    | None \<Rightarrow> (\<exists>res. u = Inr res
        \<and> rs_sources_used res = map src_name (filter (\<lambda>src. \<not> fails q src) (rt_sources r))
        \<and> (distinct (map src_name (rt_sources r)) \<longrightarrow>
            (\<forall>src \<in> set (rt_sources r). sh_status (health_of (src_name src) (rt_health r'))
               = (if fails q src then lit ''degraded'' else lit ''healthy''))))"
  using recall_returns [OF assms(1,2) _ assms(3)] recall_blocked [OF assms(2) _ assms(3)]
  by (auto split: option.splits)

section \<open>Evidence\<close>

lemma foldl_max_append: "foldl (\<lambda>m y. max m (f y)) a (xs @ [x]) = max (foldl (\<lambda>m y. max m (f y)) a xs) (f x)"
  for f :: "'a \<Rightarrow> real"
  by simp

lemma strongest_append: "xs \<noteq> [] \<Longrightarrow> strongest f (xs @ [x]) = max (strongest f xs) (f x)"
  by (cases xs) simp_all

lemma strongest_ge: "x \<in> set xs \<Longrightarrow> f x \<le> strongest f xs"
proof (induction xs rule: rev_induct)
  case (snoc y ys)
  then show ?case by (cases "ys = []") (auto simp: strongest_append max.coboundedI1)
qed simp

lemma strongest_mono: "xs \<noteq> [] \<Longrightarrow> strongest f xs \<le> strongest f (xs @ [x])"
  by (simp add: strongest_append)

lemma fused_score:
  "ca_final_score (fused_candidate ws wl we wr wi wt now first cs) =
    min 1 ((ws * strongest ca_semantic cs + wl * strongest ca_lexical cs + we * strongest ca_entity cs
      + wr * strongest (\<lambda>row. max (ca_recency row) (recency now (mi_created_at (ca_item first)))) cs
      + wi * mi_importance (ca_item first)
      + wt * strongest (\<lambda>row. max (ca_trust row) (mi_confidence (ca_item first))) cs)
      * status_multiplier (mi_status (ca_item first)))"
  by (simp add: fused_candidate_def Let_def)

lemma status_multiplier_pos: "0 < status_multiplier st"
  by (simp add: status_multiplier_def)

text \<open>
  (unlisted): Evidence never hurts. With non-negative weights, a further candidate for the same item can only
  raise its fused score, and the item's own confidence and recency always count, whatever the
  sources report.
\<close>

theorem evidence_never_hurts:
  assumes "\<forall>w \<in> set (dict_values weights). 0 \<le> w"
    and "fuse weights now cs = Inr a" and "fuse weights now (cs @ [c]) = Inr b"
  shows "ca_final_score a \<le> ca_final_score b \<and> ca_item b = ca_item a
    \<and> mi_confidence (ca_item a) \<le> ca_trust a
    \<and> recency now (mi_created_at (ca_item a)) \<le> ca_recency a"
proof -
  obtain d ds where cs: "cs = d # ds" using fuse_Inr [OF assms(2)] by (cases cs) auto
  let ?i = "ca_item d" and ?r = "\<lambda>row. max (ca_recency row) (recency now (mi_created_at (ca_item d)))"
    and ?t = "\<lambda>row. max (ca_trust row) (mi_confidence (ca_item d))"
  obtain ws wl we wr wi wt where idx: "dict_index weights (lit ''semantic'') = Inr ws"
      "dict_index weights (lit ''lexical'') = Inr wl" "dict_index weights (lit ''entity'') = Inr we"
      "dict_index weights (lit ''recency'') = Inr wr" "dict_index weights (lit ''importance'') = Inr wi"
      "dict_index weights (lit ''trust'') = Inr wt"
    and a': "a = fused_candidate ws wl we wr wi wt now d cs"
    using assms(2) by (auto simp: fuse_def res_bind_Inr_iff cs)
  have b': "b = fused_candidate ws wl we wr wi wt now d (cs @ [c])"
    using assms(3) by (simp add: fuse_def cs idx)
  have at: "ca_item a = ?i" "ca_recency a = strongest ?r cs" "ca_trust a = strongest ?t cs" "ca_item b = ?i"
    by (simp_all add: a' b' fused_candidate_def Let_def)
  have "0 \<le> w" if "dict_index weights k = Inr w" for k w
    using assms(1) that dict_get_values [of weights k w] by (auto simp: dict_index_def split: option.splits)
  note nn = this [OF idx(1)] this [OF idx(2)] this [OF idx(3)] this [OF idx(4)] this [OF idx(6)]
  have "cs \<noteq> []" using cs by simp
  then have "ca_final_score a \<le> ca_final_score b"
    unfolding a' b' fused_score
    by (intro min.mono order_refl mult_right_mono add_mono mult_left_mono strongest_mono nn
        less_imp_le [OF status_multiplier_pos])
  moreover have "?t d \<le> strongest ?t cs" "?r d \<le> strongest ?r cs"
    by (rule strongest_ge; simp add: cs)+
  ultimately show ?thesis using at by simp
qed

section \<open>Examples\<close>

definition source_of :: "str \<Rightarrow> candidate list \<Rightarrow> candidate_source" where
  "source_of name cs = \<lparr>src_name = name, src_search = (\<lambda>_. Inr cs)\<rparr>"

definition broken_source :: "str \<Rightarrow> candidate_source" where
  "broken_source name = \<lparr>src_name = name, src_search = (\<lambda>_. Inl (DependencyFailure (lit ''ConnectError'')))\<rparr>"

definition sample_retrieval :: "candidate_source list \<Rightarrow> retrieval_service" where
  "sample_retrieval sources = \<lparr>rt_sources = sources, rt_weights = default_weights,
     rt_required = [lit ''sql''], rt_staleness_check = None, rt_health = []\<rparr>"

definition mixed_candidates :: "candidate list" where
  "mixed_candidates = map (\<lambda>i. \<lparr>ca_item = i, ca_source = lit ''sql'', ca_semantic = 0, ca_lexical = 1,
      ca_entity = 0, ca_recency = 0, ca_trust = 0, ca_final_score = 0\<rparr>)
    [sample_item 1 7 8 (lit ''tea''), sample_item 2 6 8 (lit ''tea''),
     (sample_item 3 7 8 (lit ''tea''))\<lparr>mi_status := Rejected\<rparr>]"

lemma default_full [simp]: "full_weights default_weights"
  by (simp add: full_weights_def)

theorem recall_isolated_and_ranked_witness:
  "\<exists>res r'. recall 0 (sample_query 7 8 (lit ''tea''))
      (sample_retrieval [source_of (lit ''sql'') mixed_candidates]) = (Inr res, r')
    \<and> (\<forall>c \<in> set (rs_candidates res). mi_tenant_id (ca_item c) = 7) \<and> length (rs_candidates res) \<le> 12"
proof -
  let ?q = "sample_query 7 8 (lit ''tea'')" and ?r = "sample_retrieval [source_of (lit ''sql'') mixed_candidates]"
  obtain u r' where call: "recall 0 ?q ?r = (u, r')" by fastforce
  moreover obtain res where u: "u = Inr res"
    using recall_returns [OF _ _ _ call] 
    by (auto simp: sample_retrieval_def source_of_def volume_def mixed_candidates_def blocks_def fails_def)
  ultimately have c: "recall 0 ?q ?r = (Inr res, r')" by simp
  show ?thesis
    using recall_isolated_and_ranked [OF c] c by (auto simp: sample_query_def admits_def)
qed

theorem recall_degrades_or_raises_witness:
  "fst (recall 0 (sample_query 7 8 (lit ''tea'')) (sample_retrieval [broken_source (lit ''sql'')]))
      = Inl (DependencyFailure (lit ''ConnectError''))
    \<and> (\<exists>res. fst (recall 0 (sample_query 7 8 (lit ''tea''))
          (sample_retrieval [broken_source (lit ''graph''), source_of (lit ''sql'') mixed_candidates])) = Inr res
        \<and> rs_sources_used res = [lit ''sql''])"
proof -
  let ?q = "sample_query 7 8 (lit ''tea'')" and ?a = "sample_retrieval [broken_source (lit ''sql'')]"
    and ?b = "sample_retrieval [broken_source (lit ''graph''), source_of (lit ''sql'') mixed_candidates]"
  have ne: "lit ''graph'' \<noteq> lit ''sql''" by code_simp
  have "fst (recall 0 ?q ?a) = Inl (DependencyFailure (lit ''ConnectError''))"
    using recall_degrades_or_raises [of ?a ?q 0, OF _ _ prod.collapse [symmetric]]
    by (auto simp: sample_retrieval_def broken_source_def volume_def blocks_def fails_def)
  moreover have "\<exists>res. fst (recall 0 ?q ?b) = Inr res \<and> rs_sources_used res = [lit ''sql'']"
    using recall_degrades_or_raises [of ?b ?q 0, OF _ _ prod.collapse [symmetric]] ne
    by (auto simp: sample_retrieval_def broken_source_def source_of_def volume_def mixed_candidates_def
        blocks_def fails_def)
  ultimately show ?thesis by blast
qed

theorem evidence_never_hurts_witness:
  "\<exists>a b. fuse default_weights 0 [hd mixed_candidates] = Inr a
    \<and> fuse default_weights 0 ([hd mixed_candidates] @ [hd mixed_candidates]) = Inr b
    \<and> ca_final_score a \<le> ca_final_score b"
proof -
  obtain a b where "fuse default_weights 0 [hd mixed_candidates] = Inr a"
    "fuse default_weights 0 ([hd mixed_candidates] @ [hd mixed_candidates]) = Inr b"
    using fuse_total [OF default_full] by blast
  with evidence_never_hurts [OF _ this] show ?thesis by (auto simp: default_weights_def)
qed

end
