(* ===== verification/Outbox.thy ===== *)
theory Outbox
  imports Samples
begin

text \<open>
  The transactional outbox: the statements of \<open>adapters/postgres.py\<close> that lease, acknowledge and
  release outbox rows, and the relay that moves them to the transport (\<open>services/outbox.py\<close>). A
  statement is one atomic step on the table, row level security is the filter on the tenant,
  \<open>clock_timestamp()\<close> is an argument, and pgcrypto encrypts and decrypts the payload transparently.
  The relay is written against the port \<open>OutboxRepository\<close>, whose promises are a locale that the
  table interprets. What a sink raises is its class name and message.
\<close>

section \<open>The outbox table\<close>

record outbox_row =
  ob_event :: integration_event
  ob_available_at :: datetime
  ob_lease_owner :: "str option"
  ob_lease_until :: "datetime option"
  ob_attempts :: int
  ob_last_error :: "str option"
  ob_published_at :: "datetime option"
  ob_dead_lettered_at :: "datetime option"

type_synonym outbox = "outbox_row list"

abbreviation row_id :: "outbox_row \<Rightarrow> uuid" where "row_id r \<equiv> ie_id (ob_event r)"

abbreviation row_tenant :: "outbox_row \<Rightarrow> uuid" where "row_tenant r \<equiv> ie_tenant_id (ob_event r)"

abbreviation seconds :: "int \<Rightarrow> int" where "seconds n \<equiv> n * 1000000"

definition insert_event :: "datetime \<Rightarrow> integration_event \<Rightarrow> outbox \<Rightarrow> outbox" where
  "insert_event now e tbl = tbl @ [\<lparr>ob_event = e, ob_available_at = now, ob_lease_owner = None,
     ob_lease_until = None, ob_attempts = 0, ob_last_error = None, ob_published_at = None,
     ob_dead_lettered_at = None\<rparr>]"

definition due :: "datetime \<Rightarrow> outbox_row \<Rightarrow> bool" where
  "due now r \<longleftrightarrow> ob_published_at r = None \<and> ob_dead_lettered_at r = None \<and> ob_available_at r \<le> now
     \<and> (case ob_lease_until r of None \<Rightarrow> True | Some l \<Rightarrow> l < now)"

definition due_rows :: "datetime \<Rightarrow> uuid \<Rightarrow> int \<Rightarrow> outbox \<Rightarrow> outbox_row list" where
  "due_rows now tenant_id limit tbl =
    take (nat limit) (sort_key (\<lambda>r. (ie_occurred_at (ob_event r), row_id r))
      (filter (\<lambda>r. row_tenant r = tenant_id \<and> due now r) tbl))"

definition lease_row :: "datetime \<Rightarrow> str \<Rightarrow> int \<Rightarrow> outbox_row \<Rightarrow> outbox_row" where
  "lease_row now worker_id lease_seconds r = r\<lparr>ob_lease_owner := Some worker_id,
     ob_lease_until := Some (now + seconds lease_seconds), ob_attempts := ob_attempts r + 1,
     ob_last_error := None\<rparr>"

definition claimed_row :: "outbox_row \<Rightarrow> claimed_event res" where
  "claimed_row r = res_bind (integration_event_post_init (ob_event r))
     (\<lambda>e. claimed_event_post_init \<lparr>ce_event = e, ce_attempts = ob_attempts r\<rparr>)"

definition claim_outbox ::
  "datetime \<Rightarrow> uuid \<Rightarrow> str \<Rightarrow> int \<Rightarrow> int \<Rightarrow> outbox \<Rightarrow> claimed_event list res \<times> outbox"
where
  "claim_outbox now tenant_id worker_id limit lease_seconds tbl =
    (let ids = map row_id (due_rows now tenant_id limit tbl);
         lease = lease_row now worker_id lease_seconds
     in (res_map (\<lambda>r. claimed_row (lease r)) (due_rows now tenant_id limit tbl),
         map (\<lambda>r. if row_id r \<in> set ids then lease r else r) tbl))"

definition held_row :: "uuid \<Rightarrow> uuid \<Rightarrow> str \<Rightarrow> outbox_row \<Rightarrow> bool" where
  "held_row tenant_id event_id worker_id r \<longleftrightarrow>
     row_tenant r = tenant_id \<and> row_id r = event_id \<and> ob_lease_owner r = Some worker_id \<and> ob_published_at r = None"

definition update_held ::
  "uuid \<Rightarrow> uuid \<Rightarrow> str \<Rightarrow> (outbox_row \<Rightarrow> outbox_row) \<Rightarrow> outbox \<Rightarrow> bool \<times> outbox"
where
  "update_held tenant_id event_id worker_id f tbl =
    (list_ex (held_row tenant_id event_id worker_id) tbl,
     map (\<lambda>r. if held_row tenant_id event_id worker_id r then f r else r) tbl)"

definition mark_outbox_published :: "datetime \<Rightarrow> uuid \<Rightarrow> uuid \<Rightarrow> str \<Rightarrow> outbox \<Rightarrow> bool \<times> outbox" where
  "mark_outbox_published now tenant_id event_id worker_id =
    update_held tenant_id event_id worker_id (\<lambda>r. r\<lparr>ob_lease_owner := None, ob_lease_until := None,
      ob_last_error := None, ob_published_at := Some now\<rparr>)"

definition release_row :: "datetime \<Rightarrow> str \<Rightarrow> int \<Rightarrow> int \<Rightarrow> outbox_row \<Rightarrow> outbox_row" where
  "release_row now error max_attempts retry_delay r = r\<lparr>ob_lease_owner := None, ob_lease_until := None,
     ob_last_error := Some error,
     ob_available_at := (if max_attempts \<le> ob_attempts r then now else now + seconds retry_delay),
     ob_dead_lettered_at := (if max_attempts \<le> ob_attempts r then Some now else ob_dead_lettered_at r)\<rparr>"

definition release_outbox ::
  "datetime \<Rightarrow> uuid \<Rightarrow> uuid \<Rightarrow> str \<Rightarrow> str \<Rightarrow> int \<Rightarrow> int \<Rightarrow> outbox \<Rightarrow> bool \<times> outbox"
where
  "release_outbox now tenant_id event_id worker_id error max_attempts retry_delay =
    update_held tenant_id event_id worker_id (release_row now error max_attempts retry_delay)"

section \<open>The relay\<close>

record relay =
  rl_tenant_id :: uuid
  rl_worker_id :: str
  rl_batch_size :: int
  rl_lease_seconds :: int
  rl_max_attempts :: int
  rl_retry_base_seconds :: int
  rl_retry_max_seconds :: int

definition new_relay :: "relay \<Rightarrow> relay res" where
  "new_relay r =
    (if blank (rl_worker_id r) then Inl (ValueError (lit ''worker_id must not be empty''))
     else if \<not> (1 \<le> rl_batch_size r \<and> rl_batch_size r \<le> 1000) then
       Inl (ValueError (lit ''batch_size must be between 1 and 1000''))
     else if rl_lease_seconds r < 1 then Inl (ValueError (lit ''lease_seconds must be positive''))
     else if rl_max_attempts r < 1 then Inl (ValueError (lit ''max_attempts must be positive''))
     else if rl_retry_base_seconds r < 1 then
       Inl (ValueError (lit ''retry_base_seconds must be positive''))
     else if rl_retry_max_seconds r < rl_retry_base_seconds r then
       Inl (ValueError (lit ''retry_max_seconds must be >= retry_base_seconds''))
     else Inr r)"

text \<open>Attempts are positive in a claimed event, so the exponent is a natural number.\<close>

definition retry_delay :: "relay \<Rightarrow> int \<Rightarrow> int" where
  "retry_delay r attempts =
    min (rl_retry_max_seconds r) (rl_retry_base_seconds r * 2 ^ nat (attempts - 1))"

type_synonym failure = "str \<times> str"

definition failure_text :: "failure \<Rightarrow> str" where
  "failure_text f = take 2000 (fst f @ lit '': '' @ snd f)"

record relay_result =
  ry_claimed :: nat
  ry_published :: nat
  ry_failed :: nat

text \<open>
  The batch loop. A cycle sends each event of its batch once, so the sink is the outcome it gives
  each event; \<open>clock k\<close> is the database clock at the \<open>k\<close>-th statement of the cycle.
\<close>

fun relay_rows ::
  "(datetime \<Rightarrow> uuid \<Rightarrow> uuid \<Rightarrow> str \<Rightarrow> 's \<Rightarrow> bool \<times> 's)
    \<Rightarrow> (datetime \<Rightarrow> uuid \<Rightarrow> uuid \<Rightarrow> str \<Rightarrow> str \<Rightarrow> int \<Rightarrow> int \<Rightarrow> 's \<Rightarrow> bool \<times> 's)
    \<Rightarrow> relay \<Rightarrow> (integration_event \<Rightarrow> failure + unit) \<Rightarrow> (nat \<Rightarrow> datetime) \<Rightarrow> nat
    \<Rightarrow> claimed_event list \<Rightarrow> nat \<times> nat \<times> 's \<Rightarrow> nat \<times> nat \<times> 's"
where
  "relay_rows mark release r send clock k [] acc = acc"
| "relay_rows mark release r send clock k (row # rows) (published, failed, s) =
    (case send (ce_event row) of
       Inl f \<Rightarrow> relay_rows mark release r send clock (k + 1) rows
          (published, failed + 1,
           snd (release (clock k) (rl_tenant_id r) (ie_id (ce_event row)) (rl_worker_id r) (failure_text f)
                  (rl_max_attempts r) (retry_delay r (ce_attempts row)) s))
     | Inr _ \<Rightarrow>
         (case mark (clock k) (rl_tenant_id r) (ie_id (ce_event row)) (rl_worker_id r) s of
            (acknowledged, s') \<Rightarrow> relay_rows mark release r send clock (k + 1) rows
               (published + of_bool acknowledged, failed, s')))"

definition relay_once ::
  "(datetime \<Rightarrow> uuid \<Rightarrow> str \<Rightarrow> int \<Rightarrow> int \<Rightarrow> 's \<Rightarrow> claimed_event list res \<times> 's)
    \<Rightarrow> (datetime \<Rightarrow> uuid \<Rightarrow> uuid \<Rightarrow> str \<Rightarrow> 's \<Rightarrow> bool \<times> 's)
    \<Rightarrow> (datetime \<Rightarrow> uuid \<Rightarrow> uuid \<Rightarrow> str \<Rightarrow> str \<Rightarrow> int \<Rightarrow> int \<Rightarrow> 's \<Rightarrow> bool \<times> 's)
    \<Rightarrow> relay \<Rightarrow> (integration_event \<Rightarrow> failure + unit) \<Rightarrow> (nat \<Rightarrow> datetime) \<Rightarrow> 's \<Rightarrow> relay_result res \<times> 's"
where
  "relay_once claim mark release r send clock s =
    (case claim (clock 0) (rl_tenant_id r) (rl_worker_id r) (rl_batch_size r) (rl_lease_seconds r) s of
       (Inl e, s1) \<Rightarrow> (Inl e, s1)
     | (Inr claimed, s1) \<Rightarrow>
         (case relay_rows mark release r send clock 1 claimed (0, 0, s1) of
            (published, failed, s2) \<Rightarrow>
              (Inr \<lparr>ry_claimed = length claimed, ry_published = published, ry_failed = failed\<rparr>, s2)))"

section \<open>What the port promises\<close>

locale outbox_port =
  fixes claim :: "datetime \<Rightarrow> uuid \<Rightarrow> str \<Rightarrow> int \<Rightarrow> int \<Rightarrow> 's \<Rightarrow> claimed_event list res \<times> 's"
    and mark :: "datetime \<Rightarrow> uuid \<Rightarrow> uuid \<Rightarrow> str \<Rightarrow> 's \<Rightarrow> bool \<times> 's"
    and release :: "datetime \<Rightarrow> uuid \<Rightarrow> uuid \<Rightarrow> str \<Rightarrow> str \<Rightarrow> int \<Rightarrow> int \<Rightarrow> 's \<Rightarrow> bool \<times> 's"
    and holds :: "uuid \<Rightarrow> str \<Rightarrow> 's \<Rightarrow> uuid \<Rightarrow> bool"
    and published :: "'s \<Rightarrow> uuid \<Rightarrow> bool"
    and ok :: "'s \<Rightarrow> bool"
  assumes claim_holds: "ok s \<Longrightarrow> claim now t w n l s = (Inr cs, s') \<Longrightarrow>
      ok s' \<and> distinct (map (\<lambda>c. ie_id (ce_event c)) cs) \<and> int (length cs) \<le> max 0 n
      \<and> (\<forall>c \<in> set cs. holds t w s' (ie_id (ce_event c)) \<and> \<not> published s (ie_id (ce_event c)))
      \<and> published s' = published s"
    and mark_held: "ok s \<Longrightarrow> holds t w s i \<Longrightarrow> mark now t i w s = (b, s') \<Longrightarrow>
      b \<and> ok s' \<and> published s' = (published s)(i := True) \<and> (\<forall>j. j \<noteq> i \<longrightarrow> holds t w s' j = holds t w s j)"
    and release_held: "ok s \<Longrightarrow> holds t w s i \<Longrightarrow> release now t i w err m d s = (b, s') \<Longrightarrow>
      b \<and> ok s' \<and> published s' = published s \<and> (\<forall>j. j \<noteq> i \<longrightarrow> holds t w s' j = holds t w s j)"
begin

abbreviation event_id :: "claimed_event \<Rightarrow> uuid" where "event_id c \<equiv> ie_id (ce_event c)"

definition sent :: "(integration_event \<Rightarrow> failure + unit) \<Rightarrow> claimed_event \<Rightarrow> bool" where
  "sent send c \<longleftrightarrow> (case send (ce_event c) of Inl _ \<Rightarrow> False | Inr _ \<Rightarrow> True)"

lemma relay_rows_outcome:
  assumes "ok s" and "distinct (map event_id rows)"
    and "\<forall>c \<in> set rows. holds (rl_tenant_id r) (rl_worker_id r) s (event_id c)"
    and "relay_rows mark release r send clock k rows (p, f, s) = (p', f', s')"
  shows "ok s' \<and> p' = p + length (filter (sent send) rows)
    \<and> f' = f + length (filter (\<lambda>c. \<not> sent send c) rows)
    \<and> published s' = (\<lambda>i. published s i \<or> (\<exists>c \<in> set rows. sent send c \<and> event_id c = i))"
  using assms
proof (induction rows arbitrary: k p f s)
  case (Cons c rows)
  have h: "holds (rl_tenant_id r) (rl_worker_id r) s (event_id c)" using Cons.prems(3) by simp
  have ne: "event_id c' \<noteq> event_id c" if "c' \<in> set rows" for c'
    using Cons.prems(2) that by (auto simp: image_iff)
  show ?case
  proof (cases "send (ce_event c)")
    case (Inl e)
    obtain b s1 where rel: "release (clock k) (rl_tenant_id r) (event_id c) (rl_worker_id r) (failure_text e)
        (rl_max_attempts r) (retry_delay r (ce_attempts c)) s = (b, s1)" by fastforce
    note fx = release_held [OF Cons.prems(1) h rel]
    have "relay_rows mark release r send clock (k + 1) rows (p, f + 1, s1) = (p', f', s')"
      using Cons.prems(4) Inl rel by simp
    moreover have "\<forall>c' \<in> set rows. holds (rl_tenant_id r) (rl_worker_id r) s1 (event_id c')"
      using fx ne Cons.prems(3) by simp
    moreover have "\<not> sent send c" by (simp add: sent_def Inl)
    ultimately show ?thesis
      using Cons.IH [of s1 "k + 1" p "f + 1"] fx Cons.prems(2) by simp
  next
    case (Inr u)
    obtain b s1 where mk: "mark (clock k) (rl_tenant_id r) (event_id c) (rl_worker_id r) s = (b, s1)"
      by fastforce
    note fx = mark_held [OF Cons.prems(1) h mk]
    have "relay_rows mark release r send clock (k + 1) rows (p + 1, f, s1) = (p', f', s')"
      using Cons.prems(4) Inr mk fx by simp
    moreover have "\<forall>c' \<in> set rows. holds (rl_tenant_id r) (rl_worker_id r) s1 (event_id c')"
      using fx ne Cons.prems(3) by simp
    moreover have "sent send c" by (simp add: sent_def Inr)
    ultimately show ?thesis
      using Cons.IH [of s1 "k + 1" "p + 1" f] fx Cons.prems(2) by (auto simp: fun_eq_iff)
  qed
qed (simp add: fun_eq_iff)

lemma relay_once_outcome:
  assumes "ok s" and "relay_once claim mark release r send clock s = (Inr res, s')"
  shows "\<exists>batch s1. claim (clock 0) (rl_tenant_id r) (rl_worker_id r) (rl_batch_size r) (rl_lease_seconds r) s
        = (Inr batch, s1) \<and> int (length batch) \<le> max 0 (rl_batch_size r)
    \<and> ry_claimed res = length batch
    \<and> ry_published res = length (filter (sent send) batch)
    \<and> ry_published res + ry_failed res = ry_claimed res
    \<and> (\<forall>i. published s' i \<longleftrightarrow> published s i \<or> (\<exists>c \<in> set batch. sent send c \<and> event_id c = i))
    \<and> (\<forall>c \<in> set batch. \<not> published s (event_id c) \<and> (published s' (event_id c) \<longleftrightarrow> sent send c))"
proof -
  obtain batch s1 p f where c: "claim (clock 0) (rl_tenant_id r) (rl_worker_id r) (rl_batch_size r)
        (rl_lease_seconds r) s = (Inr batch, s1)"
    and rows: "relay_rows mark release r send clock 1 batch (0, 0, s1) = (p, f, s')"
    and res: "res = \<lparr>ry_claimed = length batch, ry_published = p, ry_failed = f\<rparr>"
    using assms(2) by (auto simp: relay_once_def split: prod.splits sum.splits)
  note claimed = claim_holds [OF assms(1) c]
  have out: "p = length (filter (sent send) batch)" "f = length (filter (\<lambda>c. \<not> sent send c) batch)"
    "published s' = (\<lambda>i. published s1 i \<or> (\<exists>c \<in> set batch. sent send c \<and> event_id c = i))"
    using relay_rows_outcome [OF _ _ _ rows] claimed by simp_all
  have "p + f = length batch" using sum_length_filter_compl [of "sent send" batch] out(1,2) by simp
  moreover have same: "sent send c'" if "c \<in> set batch" "c' \<in> set batch" "event_id c' = event_id c" "sent send c" for c c'
  proof -
    have "inj_on event_id (set batch)" using claimed by (simp add: distinct_map)
    with that have "c' = c" by (simp add: inj_on_def)
    with that show ?thesis by simp
  qed
  moreover have "published s' (event_id c) \<longleftrightarrow> sent send c" if "c \<in> set batch" for c
    using that claimed out(3) same [of _ c] by auto
  ultimately show ?thesis using c claimed res out by simp
qed

end

section \<open>The table keeps the promises\<close>

definition outbox_ok :: "outbox \<Rightarrow> bool" where
  "outbox_ok tbl \<longleftrightarrow> distinct (map row_id tbl)"

definition row_held :: "uuid \<Rightarrow> str \<Rightarrow> outbox \<Rightarrow> uuid \<Rightarrow> bool" where
  "row_held t w tbl i \<longleftrightarrow> list_ex (held_row t i w) tbl"

definition row_published :: "outbox \<Rightarrow> uuid \<Rightarrow> bool" where
  "row_published tbl i \<longleftrightarrow> list_ex (\<lambda>r. row_id r = i \<and> ob_published_at r \<noteq> None) tbl"

lemma outbox_ok_same: "outbox_ok tbl \<Longrightarrow> r \<in> set tbl \<Longrightarrow> r' \<in> set tbl \<Longrightarrow> row_id r = row_id r' \<Longrightarrow> r = r'"
  by (auto simp: outbox_ok_def distinct_map dest: inj_onD)

lemma lease_row_keeps [simp]:
  "ob_event (lease_row now w l r) = ob_event r"
  "ob_published_at (lease_row now w l r) = ob_published_at r"
  "ob_dead_lettered_at (lease_row now w l r) = ob_dead_lettered_at r"
  "ob_lease_owner (lease_row now w l r) = Some w"
  "ob_lease_until (lease_row now w l r) = Some (now + seconds l)"
  by (simp_all add: lease_row_def)

lemma release_row_keeps [simp]:
  "ob_event (release_row now e m d r) = ob_event r"
  "ob_published_at (release_row now e m d r) = ob_published_at r"
  "ob_lease_owner (release_row now e m d r) = None"
  by (simp_all add: release_row_def)

lemma due_rows_mem: "r \<in> set (due_rows now t n tbl) \<Longrightarrow> r \<in> set tbl \<and> row_tenant r = t \<and> due now r"
  by (auto simp: due_rows_def dest: in_set_takeD)

lemma due_rows_distinct: "outbox_ok tbl \<Longrightarrow> distinct (map row_id (due_rows now t n tbl))"
  by (simp add: outbox_ok_def due_rows_def take_map [symmetric] distinct_take distinct_map inj_on_def)

lemma claimed_row_Inr: "claimed_row r = Inr c \<Longrightarrow> ce_event c = ob_event r \<and> ce_attempts c = ob_attempts r \<and> 1 \<le> ob_attempts r"
  by (auto simp: claimed_row_def res_bind_Inr_iff integration_event_post_init_def claimed_event_post_init_def
      split: if_splits)

lemma claimed_rows:
  assumes "claim_outbox now t w n l tbl = (Inr cs, tbl')"
  shows "list_all2 (\<lambda>r c. ce_event c = ob_event r \<and> ce_attempts c = ob_attempts r + 1) (due_rows now t n tbl) cs"
proof -
  have "list_all2 (\<lambda>r c. claimed_row (lease_row now w l r) = Inr c) (due_rows now t n tbl) cs"
    using assms by (simp add: claim_outbox_def Let_def res_map_Inr)
  then show ?thesis
    by (rule list_all2_mono) (auto dest!: claimed_row_Inr simp: lease_row_def)
qed

lemma claimed_batch:
  assumes "claim_outbox now t w n l tbl = (Inr cs, tbl')"
  shows "map ce_event cs = map ob_event (due_rows now t n tbl)
    \<and> tbl' = map (\<lambda>r. if row_id r \<in> set (map row_id (due_rows now t n tbl)) then lease_row now w l r else r) tbl"
proof -
  have "map ce_event cs = map ob_event (due_rows now t n tbl)"
    using claimed_rows [OF assms] by (simp add: list_all2_conv_all_nth list_eq_iff_nth_eq)
  then show ?thesis using assms by (simp add: claim_outbox_def Let_def)
qed

lemma snd_claim_outbox:
  "snd (claim_outbox now t w n l tbl)
    = map (\<lambda>r. if row_id r \<in> row_id ` set (due_rows now t n tbl) then lease_row now w l r else r) tbl"
  by (simp add: claim_outbox_def Let_def)

lemma row_ids_kept [simp]:
  "map row_id (snd (claim_outbox now t w n l tbl)) = map row_id tbl"
  "map row_id (snd (mark_outbox_published now t i w tbl)) = map row_id tbl"
  "map row_id (snd (release_outbox now t i w e m d tbl)) = map row_id tbl"
  by (auto simp: claim_outbox_def Let_def mark_outbox_published_def release_outbox_def update_held_def)

lemma row_published_map:
  assumes "\<And>r. ob_event (f r) = ob_event r" and "\<And>r. ob_published_at (f r) = ob_published_at r"
  shows "row_published (map f tbl) = row_published tbl"
  using assms by (simp add: row_published_def fun_eq_iff list_ex_iff)

lemma claim_outbox_holds:
  assumes ok: "outbox_ok tbl" and call: "claim_outbox now t w n l tbl = (Inr cs, tbl')"
  shows "outbox_ok tbl' \<and> distinct (map (\<lambda>c. ie_id (ce_event c)) cs) \<and> int (length cs) \<le> max 0 n
    \<and> (\<forall>c \<in> set cs. row_held t w tbl' (ie_id (ce_event c)) \<and> \<not> row_published tbl (ie_id (ce_event c)))
    \<and> row_published tbl' = row_published tbl"
proof -
  note batch = claimed_batch [OF call]
  have ids: "map (\<lambda>c. ie_id (ce_event c)) cs = map row_id (due_rows now t n tbl)"
    using arg_cong [OF conjunct1 [OF batch], of "map ie_id"] by (simp add: comp_def)
  have "length cs = length (due_rows now t n tbl)" using arg_cong [OF ids, of length] by simp
  then have len: "int (length cs) \<le> max 0 n" by (simp add: due_rows_def)
  have "row_held t w tbl' (ie_id (ce_event c)) \<and> \<not> row_published tbl (ie_id (ce_event c))" if "c \<in> set cs" for c
  proof -
    have "ie_id (ce_event c) \<in> set (map row_id (due_rows now t n tbl))"
      using that unfolding ids [symmetric] by simp
    then obtain r where r: "r \<in> set (due_rows now t n tbl)" "row_id r = ie_id (ce_event c)" by auto
    note d = due_rows_mem [OF r(1)]
    have "lease_row now w l r \<in> set tbl'" using batch r(1) d by auto
    then have "row_held t w tbl' (row_id r)"
      using d unfolding row_held_def held_row_def list_ex_iff due_def
      by (intro bexI [of _ "lease_row now w l r"]) simp_all
    moreover have "\<not> row_published tbl (row_id r)"
      using d outbox_ok_same [OF ok] by (auto simp: row_published_def list_ex_iff due_def)
    ultimately show ?thesis using r(2) by simp
  qed
  moreover have "row_published tbl' = row_published tbl"
    using batch by (simp add: row_published_map)
  moreover have "outbox_ok tbl'"
    using ok arg_cong [OF call, of snd] row_ids_kept(1) [of now t w n l tbl] by (simp add: outbox_ok_def)
  ultimately show ?thesis using ids len due_rows_distinct [OF ok] by simp
qed

lemma list_ex_map: "list_ex P (map g xs) = list_ex (\<lambda>x. P (g x)) xs"
  by (induction xs) simp_all

lemma update_held_row_held:
  assumes "\<And>r. ob_event (f r) = ob_event r" and "j \<noteq> i"
  shows "row_held t w (snd (update_held t i w f tbl)) j = row_held t w tbl j"
proof -
  have "held_row t j w (if held_row t i w r then f r else r) = held_row t j w r" for r
    using assms by (simp add: held_row_def)
  then show ?thesis by (simp add: row_held_def update_held_def list_ex_map)
qed

lemma held_row_unique:
  "outbox_ok tbl \<Longrightarrow> r \<in> set tbl \<Longrightarrow> held_row t i w r \<Longrightarrow> r' \<in> set tbl \<Longrightarrow> row_id r' = i \<Longrightarrow> r' = r"
  using outbox_ok_same by (auto simp: held_row_def)

lemma mark_outbox_held:
  assumes ok: "outbox_ok tbl" and held: "row_held t w tbl i"
    and call: "mark_outbox_published now t i w tbl = (b, tbl')"
  shows "b \<and> outbox_ok tbl' \<and> row_published tbl' = (row_published tbl)(i := True)
    \<and> (\<forall>j. j \<noteq> i \<longrightarrow> row_held t w tbl' j = row_held t w tbl j)"
proof -
  have u: "tbl' = snd (mark_outbox_published now t i w tbl)" using call by simp
  have "row_held t w tbl' j = row_held t w tbl j" if "j \<noteq> i" for j
    unfolding u mark_outbox_published_def by (rule update_held_row_held) (use that in simp_all)
  moreover obtain r where r: "r \<in> set tbl" "held_row t i w r"
    using held by (auto simp: row_held_def list_ex_iff)
  have "row_published tbl' j \<longleftrightarrow> (\<exists>r \<in> set tbl. row_id r = j \<and> (ob_published_at r \<noteq> None \<or> held_row t i w r))" for j
    unfolding u mark_outbox_published_def update_held_def row_published_def snd_conv list_ex_map
    unfolding list_ex_iff by (intro bex_cong refl) simp
  then have "row_published tbl' j = ((row_published tbl)(i := True)) j" for j
    using r by (auto simp: row_published_def list_ex_iff held_row_def)
  moreover have "outbox_ok tbl'" using ok by (simp add: u outbox_ok_def)
  moreover have b using call held by (simp add: mark_outbox_published_def update_held_def row_held_def)
  ultimately show ?thesis by blast
qed

lemma release_outbox_held:
  assumes ok: "outbox_ok tbl" and held: "row_held t w tbl i"
    and call: "release_outbox now t i w e m d tbl = (b, tbl')"
  shows "b \<and> outbox_ok tbl' \<and> row_published tbl' = row_published tbl
    \<and> (\<forall>j. j \<noteq> i \<longrightarrow> row_held t w tbl' j = row_held t w tbl j)"
proof -
  have u: "tbl' = snd (release_outbox now t i w e m d tbl)" using call by simp
  have "row_held t w tbl' j = row_held t w tbl j" if "j \<noteq> i" for j
    unfolding u release_outbox_def by (rule update_held_row_held) (use that in simp_all)
  moreover have "row_published tbl' = row_published tbl"
    by (simp add: u release_outbox_def update_held_def row_published_map)
  moreover have "outbox_ok tbl'" using ok by (simp add: u outbox_ok_def)
  moreover have b using call held by (simp add: release_outbox_def update_held_def row_held_def)
  ultimately show ?thesis by blast
qed

interpretation outbox: outbox_port claim_outbox mark_outbox_published release_outbox row_held row_published outbox_ok
  by unfold_locales (rule claim_outbox_holds mark_outbox_held release_outbox_held; assumption)+

section \<open>Interleaved workers\<close>

text \<open>
  What one worker, or a writer that queues a new event, does to the table at a later moment. Workers
  interleave freely; only the order of the clock readings is fixed.
\<close>

inductive worker_step :: "str \<Rightarrow> datetime \<times> outbox \<Rightarrow> datetime \<times> outbox \<Rightarrow> bool" for w where
  claim: "t0 \<le> now \<Longrightarrow> worker_step w (t0, tbl) (now, snd (claim_outbox now t w n l tbl))"
| mark: "t0 \<le> now \<Longrightarrow> worker_step w (t0, tbl) (now, snd (mark_outbox_published now t i w tbl))"
| release: "t0 \<le> now \<Longrightarrow> worker_step w (t0, tbl) (now, snd (release_outbox now t i w e m d tbl))"
| insert: "t0 \<le> now \<Longrightarrow> ie_id ev \<notin> row_id ` set tbl \<Longrightarrow>
    worker_step w (t0, tbl) (now, insert_event now ev tbl)"

inductive_cases worker_stepE: "worker_step w (t0, tbl) (t1, tbl')"

lemma worker_step_cases:
  assumes "worker_step w (t0, tbl) (t1, tbl')"
  obtains (claim) t n l where "t0 \<le> t1" "tbl' = snd (claim_outbox t1 t w n l tbl)"
  | (mark) t i where "t0 \<le> t1" "tbl' = snd (mark_outbox_published t1 t i w tbl)"
  | (release) t i e m d where "t0 \<le> t1" "tbl' = snd (release_outbox t1 t i w e m d tbl)"
  | (insert) ev where "t0 \<le> t1" "ie_id ev \<notin> row_id ` set tbl" "tbl' = insert_event t1 ev tbl"
  by (rule worker_stepE [OF assms]) (use that in blast)+

definition rows_ok :: "outbox \<Rightarrow> bool" where
  "rows_ok tbl \<longleftrightarrow> outbox_ok tbl
     \<and> (\<forall>r \<in> set tbl. ob_dead_lettered_at r \<noteq> None \<longrightarrow> ob_lease_owner r = None)"

definition settled :: "outbox_row \<Rightarrow> bool" where
  "settled r \<longleftrightarrow> ob_published_at r \<noteq> None \<or> ob_dead_lettered_at r \<noteq> None"

lemma outbox_ok_insert:
  "outbox_ok tbl \<Longrightarrow> ie_id e \<notin> row_id ` set tbl \<Longrightarrow> outbox_ok (insert_event now e tbl)"
  by (simp add: outbox_ok_def insert_event_def)

lemma untouched_claim:
  assumes "outbox_ok tbl" and "r \<in> set tbl" and "\<not> due now r"
  shows "r \<in> set (snd (claim_outbox now t w n l tbl))"
proof -
  have "row_id r \<notin> row_id ` set (due_rows now t n tbl)"
  proof
    assume "row_id r \<in> row_id ` set (due_rows now t n tbl)"
    then obtain d where d: "d \<in> set (due_rows now t n tbl)" "row_id d = row_id r" by auto
    then have "d = r" using outbox_ok_same [OF assms(1) _ assms(2)] due_rows_mem by blast
    then show False using due_rows_mem [OF d(1)] assms(3) by simp
  qed
  with assms(2) show ?thesis unfolding snd_claim_outbox set_map by (intro rev_image_eqI) auto
qed

lemma untouched_update:
  assumes "r \<in> set tbl" and "\<not> held_row t i w r"
  shows "r \<in> set (snd (update_held t i w f tbl))"
  using assms unfolding update_held_def snd_conv set_map by (intro rev_image_eqI) auto

lemma worker_step_keeps_row:
  assumes "worker_step w (t0, tbl) (t1, tbl')" and "outbox_ok tbl" and "r \<in> set tbl"
    and "\<not> due t1 r" and "\<And>t i. \<not> held_row t i w r"
  shows "r \<in> set tbl'"
  using assms(1)
proof (cases rule: worker_step_cases)
  case (claim t n l)
  then show ?thesis using untouched_claim assms(2-4) by blast
next
  case (mark t i)
  then show ?thesis using untouched_update [OF assms(3,5)] by (simp add: mark_outbox_published_def)
next
  case (release t i e m d)
  then show ?thesis using untouched_update [OF assms(3,5)] by (simp add: release_outbox_def)
next
  case (insert ev)
  then show ?thesis using assms(3) by (simp add: insert_event_def)
qed

lemma worker_step_ok:
  assumes "worker_step w (t0, tbl) (t1, tbl')"
  shows "t0 \<le> t1 \<and> (outbox_ok tbl \<longrightarrow> outbox_ok tbl')"
  using assms by (cases rule: worker_step_cases) (auto simp: outbox_ok_def insert_event_def)

lemma worker_step_rows_ok:
  assumes step: "worker_step w (t0, tbl) (t1, tbl')" and ok: "rows_ok tbl"
  shows "rows_ok tbl'"
proof -
  have "ob_lease_owner r = None" if "r \<in> set tbl'" "ob_dead_lettered_at r \<noteq> None" for r
    using step
  proof (cases rule: worker_step_cases)
    case (claim t n l)
    have "ob_dead_lettered_at q = None" if q: "q \<in> set tbl" "row_id q \<in> row_id ` set (due_rows t1 t n tbl)" for q
    proof -
      obtain d where "d \<in> set (due_rows t1 t n tbl)" "row_id q = row_id d" using q(2) by blast
      then show ?thesis
        using ok outbox_ok_same [of tbl q d] q(1) by (auto simp: rows_ok_def due_def dest!: due_rows_mem)
    qed
    with claim that ok show ?thesis by (auto simp: snd_claim_outbox rows_ok_def split: if_splits)
  next
    case (mark t i)
    with that ok show ?thesis
      by (auto simp: mark_outbox_published_def update_held_def rows_ok_def split: if_splits)
  next
    case (release t i e m d)
    with that ok show ?thesis
      by (auto simp: release_outbox_def update_held_def rows_ok_def split: if_splits)
  next
    case (insert ev)
    with that ok show ?thesis by (auto simp: insert_event_def rows_ok_def)
  qed
  then show ?thesis using ok worker_step_ok [OF step] by (auto simp: rows_ok_def)
qed

definition leased :: "uuid \<Rightarrow> uuid \<Rightarrow> str \<Rightarrow> datetime \<Rightarrow> outbox \<Rightarrow> bool" where
  "leased t i w until tbl \<longleftrightarrow> (\<exists>r \<in> set tbl. held_row t i w r \<and> ob_lease_until r = Some until)"

lemma others_keep_lease:
  assumes "(\<lambda>a b. \<exists>w'. w' \<noteq> w \<and> worker_step w' a b)\<^sup>*\<^sup>* (t0, tbl) (t1, tbl')"
    and "outbox_ok tbl" and "leased t i w until tbl" and "t1 \<le> until"
  shows "outbox_ok tbl' \<and> leased t i w until tbl'"
  using assms(1,4)
proof (induction "(t1, tbl')" arbitrary: t1 tbl' rule: rtranclp_induct)
  case base
  then show ?case using assms(2,3) by simp
next
  case (step y)
  obtain tm tb where y: "y = (tm, tb)" by fastforce
  obtain w' where w': "w' \<noteq> w" "worker_step w' (tm, tb) (t1, tbl')" using step.hyps(2) y by blast
  note sk = worker_step_ok [OF w'(2)]
  have "outbox_ok tb \<and> leased t i w until tb"
    using step.hyps(3) [OF y] sk step.prems by simp
  then obtain r where r: "r \<in> set tb" "held_row t i w r" "ob_lease_until r = Some until" and ok: "outbox_ok tb"
    by (auto simp: leased_def)
  have "r \<in> set tbl'"
    by (rule worker_step_keeps_row [OF w'(2) ok r(1)])
      (use r w'(1) step.prems in \<open>auto simp: due_def held_row_def\<close>)
  with r ok sk show ?case by (auto simp: leased_def)
qed

lemma leased_not_claimed:
  assumes "leased t i w until tbl" and "outbox_ok tbl" and "now \<le> until"
    and "claim_outbox now t' w' n l tbl = (Inr cs, tbl')"
  shows "i \<notin> (\<lambda>c. ie_id (ce_event c)) ` set cs"
proof
  assume "i \<in> (\<lambda>c. ie_id (ce_event c)) ` set cs"
  then have "i \<in> row_id ` set (due_rows now t' n tbl)"
    using arg_cong [OF conjunct1 [OF claimed_batch [OF assms(4)]], of "\<lambda>es. ie_id ` set es"]
    by (simp add: image_image)
  then obtain d where d: "d \<in> set (due_rows now t' n tbl)" "row_id d = i" by blast
  obtain r where r: "r \<in> set tbl" "held_row t i w r" "ob_lease_until r = Some until"
    using assms(1) by (auto simp: leased_def)
  have "d = r" using due_rows_mem [OF d(1)] d(2) r outbox_ok_same [OF assms(2)] by (auto simp: held_row_def)
  with d(1) r assms(3) show False by (auto simp: due_def dest!: due_rows_mem)
qed

lemma claim_leases:
  assumes "outbox_ok tbl" and "claim_outbox now t w n l tbl = (Inr cs, tbl')" and "c \<in> set cs"
  shows "leased t (ie_id (ce_event c)) w (now + seconds l) tbl'"
proof -
  note batch = claimed_batch [OF assms(2)]
  have "ce_event c \<in> set (map ob_event (due_rows now t n tbl))"
    using assms(3) batch by (metis image_eqI list.set_map)
  then obtain r where r: "r \<in> set (due_rows now t n tbl)" "ob_event r = ce_event c" by auto
  note d = due_rows_mem [OF r(1)]
  have "lease_row now w l r \<in> set tbl'" using batch r(1) d by auto
  then show ?thesis
    using d r(2) unfolding leased_def held_row_def due_def
    by (intro bexI [of _ "lease_row now w l r"]) simp_all
qed

text \<open>
  C21: A lease is exclusive. After a worker has claimed an event, and however the other workers claim,
  acknowledge, release and queue events meanwhile, until the lease runs out no claim by anyone
  returns that event, and the worker's acknowledgement is still accepted.
\<close>

theorem outbox_lease_exclusive:
  assumes "outbox_ok tbl" and "claim_outbox now t w n l tbl = (Inr cs, tbl1)" and "c \<in> set cs"
    and "(\<lambda>a b. \<exists>w'. w' \<noteq> w \<and> worker_step w' a b)\<^sup>*\<^sup>* (now, tbl1) (later, tbl2)"
    and "later \<le> now + seconds l"
  shows "fst (mark_outbox_published later t (ie_id (ce_event c)) w tbl2)
    \<and> (\<forall>t' w' n' l' cs' tbl3. claim_outbox later t' w' n' l' tbl2 = (Inr cs', tbl3) \<longrightarrow>
        ie_id (ce_event c) \<notin> (\<lambda>c. ie_id (ce_event c)) ` set cs')"
proof -
  have "outbox_ok tbl1" using claim_outbox_holds [OF assms(1,2)] by simp
  from others_keep_lease [OF assms(4) this claim_leases [OF assms(1-3)] assms(5)]
  have ok: "outbox_ok tbl2" and lease: "leased t (ie_id (ce_event c)) w (now + seconds l) tbl2" by auto
  have "fst (mark_outbox_published later t (ie_id (ce_event c)) w tbl2)"
    using lease by (auto simp: leased_def mark_outbox_published_def update_held_def list_ex_iff)
  then show ?thesis using leased_not_claimed [OF lease ok assms(5)] by blast
qed

text \<open>
  C23: Delivery is settled once. A row that is published or dead-lettered is never changed again by any
  interleaving of workers, and no later claim returns its event.
\<close>

theorem settled_rows_never_change:
  assumes "rows_ok tbl" and "r \<in> set tbl" and "settled r"
    and "(\<lambda>a b. \<exists>w. worker_step w a b)\<^sup>*\<^sup>* (t0, tbl) (t1, tbl1)"
  shows "r \<in> set tbl1 \<and> (\<forall>now t w n l cs tbl2. claim_outbox now t w n l tbl1 = (Inr cs, tbl2) \<longrightarrow>
      row_id r \<notin> (\<lambda>c. ie_id (ce_event c)) ` set cs)"
proof -
  have "rows_ok tbl1 \<and> r \<in> set tbl1"
    using assms(4)
  proof (induction "(t1, tbl1)" arbitrary: t1 tbl1 rule: rtranclp_induct)
    case base
    then show ?case using assms(1,2) by simp
  next
    case (step y)
    obtain tm tb where y: "y = (tm, tb)" by fastforce
    obtain w where w: "worker_step w (tm, tb) (t1, tbl1)" using step.hyps(2) y by blast
    have ok: "rows_ok tb" and r: "r \<in> set tb" using step.hyps(3) [OF y] by auto
    have "\<not> held_row t i w r" for t i
      using assms(3) ok r by (auto simp: settled_def held_row_def rows_ok_def)
    then have "r \<in> set tbl1"
      using worker_step_keeps_row [OF w _ r] ok assms(3) by (auto simp: rows_ok_def settled_def due_def)
    then show ?case using worker_step_rows_ok [OF w ok] by simp
  qed
  then have ok: "outbox_ok tbl1" and r: "r \<in> set tbl1" by (auto simp: rows_ok_def)
  have "row_id r \<notin> (\<lambda>c. ie_id (ce_event c)) ` set cs"
    if "claim_outbox now t w n l tbl1 = (Inr cs, tbl2)" for now t w n l cs tbl2
  proof
    assume "row_id r \<in> (\<lambda>c. ie_id (ce_event c)) ` set cs"
    then have "row_id r \<in> row_id ` set (due_rows now t n tbl1)"
      using arg_cong [OF conjunct1 [OF claimed_batch [OF that]], of "\<lambda>es. ie_id ` set es"]
      by (simp add: image_image)
    then obtain d where "d \<in> set (due_rows now t n tbl1)" "row_id d = row_id r" by auto
    then have "d = r" "due now d" using outbox_ok_same [OF ok _ r] due_rows_mem by blast+
    with assms(3) show False by (auto simp: settled_def due_def)
  qed
  with r show ?thesis by blast
qed

section \<open>A cycle among other workers\<close>










lemma retry_delay_bounds:
  assumes "new_relay r = Inr r"
  shows "rl_retry_base_seconds r \<le> retry_delay r a \<and> retry_delay r a \<le> rl_retry_max_seconds r
    \<and> (a \<le> a' \<longrightarrow> retry_delay r a \<le> retry_delay r a')"
proof -
  have b: "1 \<le> rl_retry_base_seconds r" "rl_retry_base_seconds r \<le> rl_retry_max_seconds r"
    using assms by (auto simp: new_relay_def split: if_splits)
  have "rl_retry_base_seconds r * 1 \<le> rl_retry_base_seconds r * 2 ^ nat (a - 1)"
    using b by (intro mult_left_mono) simp_all
  moreover have "rl_retry_base_seconds r * 2 ^ nat (a - 1) \<le> rl_retry_base_seconds r * 2 ^ nat (a' - 1)" if "a \<le> a'"
    using b that by (intro mult_left_mono power_increasing) simp_all
  ultimately show ?thesis using b(2) by (auto simp: retry_delay_def)
qed

text \<open>
  C29: A failed delivery is retried with back-off or buried. Releasing an event its worker holds keeps
  it unpublished; while attempts remain it becomes due again exactly after the delay, which lies
  between the configured base and maximum and never shrinks with the number of attempts; once they
  are used up it is dead-lettered and never due again.
\<close>

theorem failed_delivery_retried_or_buried:
  assumes "rows_ok tbl" and "r \<in> set tbl" and "held_row t i w r" and "new_relay rl = Inr rl"
    and "release_outbox now t i w e (rl_max_attempts rl) (retry_delay rl (ob_attempts r)) tbl = (b, tbl')"
  shows "b \<and> (\<exists>r' \<in> set tbl'. row_id r' = i \<and> ob_published_at r' = None \<and> ob_last_error r' = Some e
      \<and> (\<forall>later. due later r' \<longleftrightarrow> ob_attempts r < rl_max_attempts rl
            \<and> now + seconds (retry_delay rl (ob_attempts r)) \<le> later)
      \<and> (settled r' \<longleftrightarrow> rl_max_attempts rl \<le> ob_attempts r))
    \<and> rl_retry_base_seconds rl \<le> retry_delay rl (ob_attempts r)
    \<and> retry_delay rl (ob_attempts r) \<le> min (rl_retry_max_seconds rl) (retry_delay rl (ob_attempts r + 1))"
proof -
  let ?r = "release_row now e (rl_max_attempts rl) (retry_delay rl (ob_attempts r)) r"
  have alive: "ob_dead_lettered_at r = None" "ob_published_at r = None" "row_id r = i"
    using assms(1-3) by (auto simp: rows_ok_def held_row_def)
  have u: "b \<longleftrightarrow> list_ex (held_row t i w) tbl" "tbl' = map (\<lambda>q. if held_row t i w q
      then release_row now e (rl_max_attempts rl) (retry_delay rl (ob_attempts r)) q else q) tbl"
    using assms(5) by (auto simp: release_outbox_def update_held_def)
  have "?r \<in> set tbl'" unfolding u(2) set_map using assms(2,3) by (intro rev_image_eqI) auto
  moreover have "b" using u(1) assms(2,3) by (auto simp: list_ex_iff)
  moreover have "ob_last_error ?r = Some e" "due later ?r \<longleftrightarrow> ob_attempts r < rl_max_attempts rl
            \<and> now + seconds (retry_delay rl (ob_attempts r)) \<le> later"
      "settled ?r \<longleftrightarrow> rl_max_attempts rl \<le> ob_attempts r" for later
    using alive by (auto simp: release_row_def due_def settled_def)
  ultimately show ?thesis
    using alive retry_delay_bounds [OF assms(4), of "ob_attempts r" "ob_attempts r + 1"]
    by (auto intro!: bexI [of _ ?r])
qed

section \<open>Examples\<close>

definition sample_relay :: relay where
  "sample_relay = \<lparr>rl_tenant_id = 7, rl_worker_id = lit ''w1'', rl_batch_size = 50, rl_lease_seconds = 30,
     rl_max_attempts = 2, rl_retry_base_seconds = 5, rl_retry_max_seconds = 300\<rparr>"

definition sample_outbox :: outbox where
  "sample_outbox = insert_event 0 (sample_event 2 7 8) (insert_event 0 (sample_event 1 7 8) [])"

definition leased_outbox :: outbox where
  "leased_outbox = snd (claim_outbox 10 7 (lit ''w1'') 1 30 sample_outbox)"


lemma sample_relay_ok [simp]: "new_relay sample_relay = Inr sample_relay"
  by code_simp

lemma sample_outbox_ok [simp]: "outbox_ok sample_outbox" "rows_ok sample_outbox"
  by (simp_all add: outbox_ok_def rows_ok_def sample_outbox_def insert_event_def sample_event_def)

lemma first_claim:
  "\<exists>c. claim_outbox 10 7 (lit ''w1'') 1 30 sample_outbox = (Inr [c], leased_outbox) \<and> ie_id (ce_event c) = 1"
proof -
  have "map_sum (\<lambda>_. ()) (map (\<lambda>c. ie_id (ce_event c))) (fst (claim_outbox 10 7 (lit ''w1'') 1 30 sample_outbox)) = Inr [1]"
    by code_simp
  moreover obtain v tbl where "claim_outbox 10 7 (lit ''w1'') 1 30 sample_outbox = (v, tbl)" by fastforce
  ultimately show ?thesis by (cases v) (auto simp: leased_outbox_def)
qed

theorem outbox_lease_exclusive_witness:
  "fst (mark_outbox_published 20 7 1 (lit ''w1'') (snd (claim_outbox 20 7 (lit ''w2'') 5 30 leased_outbox)))"
proof -
  obtain c where c: "claim_outbox 10 7 (lit ''w1'') 1 30 sample_outbox = (Inr [c], leased_outbox)"
    "ie_id (ce_event c) = 1" using first_claim by blast
  have "lit ''w2'' \<noteq> lit ''w1''" by code_simp
  moreover have "worker_step (lit ''w2'') (10, leased_outbox) (20, snd (claim_outbox 20 7 (lit ''w2'') 5 30 leased_outbox))"
    by (rule worker_step.claim) simp
  ultimately have "(\<lambda>a b. \<exists>w'. w' \<noteq> lit ''w1'' \<and> worker_step w' a b)\<^sup>*\<^sup>* (10, leased_outbox)
      (20, snd (claim_outbox 20 7 (lit ''w2'') 5 30 leased_outbox))" by blast
  from outbox_lease_exclusive [OF sample_outbox_ok(1) c(1) _ this] c(2) show ?thesis by simp
qed

theorem settled_rows_never_change_witness:
  "\<exists>r \<in> set (snd (claim_outbox 99 7 (lit ''w2'') 5 30
      (snd (mark_outbox_published 11 7 1 (lit ''w1'') leased_outbox)))). row_id r = 1 \<and> ob_published_at r = Some 11"
proof -
  let ?t = "snd (mark_outbox_published 11 7 1 (lit ''w1'') leased_outbox)"
  have "list_all (\<lambda>r. ob_dead_lettered_at r \<noteq> None \<longrightarrow> ob_lease_owner r = None) ?t" by code_simp
  moreover have "outbox_ok ?t" using sample_outbox_ok(1) by (simp add: outbox_ok_def leased_outbox_def)
  ultimately have ok: "rows_ok ?t" by (simp add: rows_ok_def list_all_iff)
  have "list_ex (\<lambda>r. row_id r = 1 \<and> ob_published_at r = Some 11) ?t" by code_simp
  then obtain r where r: "r \<in> set ?t" "row_id r = 1" "ob_published_at r = Some 11"
    by (auto simp: list_ex_iff)
  have "worker_step (lit ''w2'') (11, ?t) (99, snd (claim_outbox 99 7 (lit ''w2'') 5 30 ?t))"
    by (rule worker_step.claim) simp
  then have step: "(\<lambda>a b. \<exists>w. worker_step w a b)\<^sup>*\<^sup>* (11, ?t) (99, snd (claim_outbox 99 7 (lit ''w2'') 5 30 ?t))"
    by blast
  show ?thesis
    using settled_rows_never_change [OF ok r(1) _ step] r by (auto simp: settled_def)
qed



theorem failed_delivery_retried_or_buried_witness:
  "\<exists>r' \<in> set (snd (release_outbox 12 7 1 (lit ''w1'') (lit ''ConnectionError: refused'') 2 5 leased_outbox)).
     row_id r' = 1 \<and> \<not> due (12 + 4999999) r' \<and> due (12 + 5000000) r'"
proof -
  have "list_all (\<lambda>r. ob_dead_lettered_at r = None) leased_outbox" by code_simp
  then have ok: "rows_ok leased_outbox"
    using sample_outbox_ok(1) by (simp add: rows_ok_def list_all_iff outbox_ok_def leased_outbox_def)
  have "list_ex (\<lambda>r. held_row 7 1 (lit ''w1'') r \<and> ob_attempts r = 1) leased_outbox" by code_simp
  then obtain r where r: "r \<in> set leased_outbox" "held_row 7 1 (lit ''w1'') r" "ob_attempts r = 1"
    by (auto simp: list_ex_iff)
  have d: "retry_delay sample_relay 1 = 5" "rl_max_attempts sample_relay = 2"
    by (simp_all add: retry_delay_def sample_relay_def)
  show ?thesis
    using failed_delivery_retried_or_buried [OF ok r(1,2) sample_relay_ok prod.collapse [symmetric], of 12 "lit ''ConnectionError: refused''"]
    unfolding r(3) d by auto
qed

end
