(* ===== verification/Consumer.thy ===== *)
theory Consumer
  imports Outbox
begin

text \<open>
  Consumption of delivered events: the processing leases of the Postgres adapter
  (\<open>claim_event_processing\<close>, \<open>complete_event_processing\<close>, \<open>release_event_processing\<close>), the idempotent
  consumer in front of a handler (\<open>services/consumer.py\<close>), and the JetStream pull worker that acks,
  naks, terminates and dead-letters messages (\<open>workers/nats_consumer.py\<close>).
\<close>

section \<open>Processing leases\<close>

record processed_row =
  pe_lease_owner :: "str option"
  pe_lease_until :: "datetime option"
  pe_attempts :: int
  pe_processed_at :: "datetime option"
  pe_last_error :: "str option"

type_synonym processed_key = "uuid \<times> uuid \<times> str"

type_synonym processed = "(processed_key, processed_row) dict"

definition claim_event_processing ::
  "datetime \<Rightarrow> uuid \<Rightarrow> uuid \<Rightarrow> str \<Rightarrow> str \<Rightarrow> int \<Rightarrow> processed \<Rightarrow> consumer_claim \<times> processed"
where
  "claim_event_processing now tenant_id event_id consumer worker_id lease_seconds tbl =
    (let key = (tenant_id, event_id, consumer); until = now + seconds lease_seconds in
     case dict_get tbl key of
       None \<Rightarrow> (Acquired, dict_set key \<lparr>pe_lease_owner = Some worker_id, pe_lease_until = Some until,
                  pe_attempts = 1, pe_processed_at = None, pe_last_error = None\<rparr> tbl)
     | Some row \<Rightarrow>
         if pe_processed_at row \<noteq> None then (Completed, tbl)
         else if (case pe_lease_until row of None \<Rightarrow> True | Some l \<Rightarrow> l < now) then
           (Acquired, dict_set key (row\<lparr>pe_lease_owner := Some worker_id, pe_lease_until := Some until,
              pe_attempts := pe_attempts row + 1, pe_last_error := None\<rparr>) tbl)
         else (Busy, tbl))"

definition update_processing ::
  "processed_key \<Rightarrow> str \<Rightarrow> (processed_row \<Rightarrow> processed_row) \<Rightarrow> processed \<Rightarrow> bool \<times> processed"
where
  "update_processing key worker_id f tbl =
    (case dict_get tbl key of
       None \<Rightarrow> (False, tbl)
     | Some row \<Rightarrow>
         if pe_lease_owner row = Some worker_id \<and> pe_processed_at row = None
         then (True, dict_set key (f row) tbl) else (False, tbl))"

definition complete_event_processing ::
  "datetime \<Rightarrow> uuid \<Rightarrow> uuid \<Rightarrow> str \<Rightarrow> str \<Rightarrow> processed \<Rightarrow> bool \<times> processed"
where
  "complete_event_processing now tenant_id event_id consumer worker_id =
    update_processing (tenant_id, event_id, consumer) worker_id
      (\<lambda>row. row\<lparr>pe_processed_at := Some now, pe_lease_owner := None, pe_lease_until := None,
         pe_last_error := None\<rparr>)"

definition release_event_processing ::
  "uuid \<Rightarrow> uuid \<Rightarrow> str \<Rightarrow> str \<Rightarrow> str \<Rightarrow> processed \<Rightarrow> bool \<times> processed"
where
  "release_event_processing tenant_id event_id consumer worker_id error =
    update_processing (tenant_id, event_id, consumer) worker_id
      (\<lambda>row. row\<lparr>pe_lease_owner := None, pe_lease_until := None, pe_last_error := Some error\<rparr>)"

section \<open>The idempotent consumer\<close>

record consumer_config =
  cn_consumer :: str
  cn_worker_id :: str
  cn_lease_seconds :: int

definition new_consumer :: "consumer_config \<Rightarrow> consumer_config res" where
  "new_consumer c =
    (if blank (cn_consumer c) \<or> blank (cn_worker_id c) then
       Inl (ValueError (lit ''consumer and worker_id must not be empty''))
     else if cn_lease_seconds c < 1 then Inl (ValueError (lit ''lease_seconds must be positive''))
     else Inr c)"

record consumer_result =
  cu_processed :: bool
  cu_duplicate :: bool
  cu_busy :: bool

text \<open>
  A handler acts on a state of its own and may raise. The clock is read at the claim and at the
  completion; between the two the table is nobody else's here, interleavings are the steps below.
\<close>

definition handle_event ::
  "consumer_config \<Rightarrow> (integration_event \<Rightarrow> 'h \<Rightarrow> (failure + unit) \<times> 'h) \<Rightarrow> datetime \<Rightarrow> datetime
    \<Rightarrow> integration_event \<Rightarrow> processed \<times> 'h \<Rightarrow> (failure + consumer_result) \<times> processed \<times> 'h"
where
  "handle_event c handler now finished e st =
    (case st of (tbl, h) \<Rightarrow>
      (case claim_event_processing now (ie_tenant_id e) (ie_id e) (cn_consumer c) (cn_worker_id c)
              (cn_lease_seconds c) tbl of
         (Completed, tbl1) \<Rightarrow> (Inr \<lparr>cu_processed = False, cu_duplicate = True, cu_busy = False\<rparr>, tbl1, h)
       | (Busy, tbl1) \<Rightarrow> (Inr \<lparr>cu_processed = False, cu_duplicate = False, cu_busy = True\<rparr>, tbl1, h)
       | (Acquired, tbl1) \<Rightarrow>
           (case handler e h of
              (Inl f, h1) \<Rightarrow>
                (Inl f, snd (release_event_processing (ie_tenant_id e) (ie_id e) (cn_consumer c)
                               (cn_worker_id c) (failure_text f) tbl1), h1)
            | (Inr _, h1) \<Rightarrow>
                (case complete_event_processing finished (ie_tenant_id e) (ie_id e) (cn_consumer c)
                        (cn_worker_id c) tbl1 of
                   (completed, tbl2) \<Rightarrow>
                     (Inr \<lparr>cu_processed = completed, cu_duplicate = False, cu_busy = False\<rparr>, tbl2, h1)))))"

section \<open>The pull worker\<close>

text \<open>
  A message carries its body, decoded or not (\<open>decode\<close> raises on a body it cannot read), and how often
  it was delivered, when the client says so. What the worker tells JetStream is the list of its
  signals; the outcome of the acknowledgement and of the dead-letter publication are JetStream's.
\<close>

record nats_message =
  nm_body :: "failure + integration_event"
  nm_num_delivered :: "int option"

datatype nats_signal = Ack | Nak int | Term | DeadLetter int str

record pull_worker =
  pw_max_deliveries :: int
  pw_retry_base_seconds :: int
  pw_retry_max_seconds :: int

definition new_pull_worker :: "pull_worker \<Rightarrow> pull_worker res" where
  "new_pull_worker w =
    (if pw_max_deliveries w < 1 then Inl (ValueError (lit ''max_deliveries must be positive''))
     else if pw_retry_base_seconds w < 1 \<or> pw_retry_max_seconds w < pw_retry_base_seconds w then
       Inl (ValueError (lit ''invalid retry delay bounds''))
     else Inr w)"

definition delivery_attempts :: "nats_message \<Rightarrow> int" where
  "delivery_attempts msg = max 1 (case nm_num_delivered msg of None \<Rightarrow> 1 | Some n \<Rightarrow> n)"

definition retry_or_dead_letter ::
  "pull_worker \<Rightarrow> (nats_message \<Rightarrow> bool) \<Rightarrow> nats_message \<Rightarrow> str \<Rightarrow> nats_signal list"
where
  "retry_or_dead_letter w dlq_accepts msg error =
    (let attempts = delivery_attempts msg in
     if pw_max_deliveries w \<le> attempts then
       (if dlq_accepts msg then [DeadLetter attempts (take 2000 error), Term]
        else [Nak (pw_retry_max_seconds w)])
     else [Nak (min (pw_retry_max_seconds w) (pw_retry_base_seconds w * 2 ^ nat (attempts - 1)))])"

definition full_failure_text :: "failure \<Rightarrow> str" where
  "full_failure_text f = fst f @ lit '': '' @ snd f"

definition process_message ::
  "pull_worker \<Rightarrow> (nats_message \<Rightarrow> bool) \<Rightarrow> (nats_message \<Rightarrow> failure + unit)
    \<Rightarrow> (integration_event \<Rightarrow> 's \<Rightarrow> (failure + consumer_result) \<times> 's) \<Rightarrow> nats_message \<Rightarrow> 's
    \<Rightarrow> nats_signal list \<times> 's"
where
  "process_message w dlq_accepts ack_sync consume msg s =
    (case nm_body msg of
       Inl f \<Rightarrow> (retry_or_dead_letter w dlq_accepts msg (full_failure_text f), s)
     | Inr e \<Rightarrow>
         (case consume e s of
            (Inl f, s1) \<Rightarrow> (retry_or_dead_letter w dlq_accepts msg (full_failure_text f), s1)
          | (Inr r, s1) \<Rightarrow>
              if cu_busy r \<or> (\<not> cu_processed r \<and> \<not> cu_duplicate r) then
                (retry_or_dead_letter w dlq_accepts msg (lit ''consumer_busy''), s1)
              else
                (case ack_sync msg of
                   Inl f \<Rightarrow> (retry_or_dead_letter w dlq_accepts msg (full_failure_text f), s1)
                 | Inr _ \<Rightarrow> ([Ack], s1))))"

fun run_messages ::
  "pull_worker \<Rightarrow> (nats_message \<Rightarrow> bool) \<Rightarrow> (nats_message \<Rightarrow> failure + unit)
    \<Rightarrow> (nat \<Rightarrow> integration_event \<Rightarrow> 's \<Rightarrow> (failure + consumer_result) \<times> 's) \<Rightarrow> nat \<Rightarrow> nats_message list
    \<Rightarrow> 's \<Rightarrow> int \<times> nats_signal list list \<times> 's"
where
  "run_messages w dlq_accepts ack_sync consume k [] s = (0, [], s)"
| "run_messages w dlq_accepts ack_sync consume k (msg # msgs) s =
    (case process_message w dlq_accepts ack_sync (consume k) msg s of
       (signals, s1) \<Rightarrow>
         (case run_messages w dlq_accepts ack_sync consume (k + 1) msgs s1 of
            (n, rest, s2) \<Rightarrow> (of_bool (signals = [Ack]) + n, signals # rest, s2)))"

section \<open>Interleaved workers\<close>

inductive consumer_step :: "str \<Rightarrow> datetime \<times> processed \<Rightarrow> datetime \<times> processed \<Rightarrow> bool" for w where
  claim: "t0 \<le> now \<Longrightarrow> consumer_step w (t0, tbl) (now, snd (claim_event_processing now t i c w l tbl))"
| complete: "t0 \<le> now \<Longrightarrow> consumer_step w (t0, tbl) (now, snd (complete_event_processing now t i c w tbl))"
| release: "t0 \<le> now \<Longrightarrow> consumer_step w (t0, tbl) (now, snd (release_event_processing t i c w e tbl))"

inductive_cases consumer_stepE: "consumer_step w (t0, tbl) (t1, tbl')"

definition lease_row_held :: "str \<Rightarrow> datetime \<Rightarrow> processed_row \<Rightarrow> bool" where
  "lease_row_held w until row \<longleftrightarrow> pe_lease_owner row = Some w \<and> pe_lease_until row = Some until
     \<and> pe_processed_at row = None"

lemma update_processing_get:
  "dict_get (snd (update_processing k w f tbl)) k' =
    (case dict_get tbl k of
       None \<Rightarrow> dict_get tbl k'
     | Some row \<Rightarrow> if k' = k \<and> pe_lease_owner row = Some w \<and> pe_processed_at row = None then Some (f row)
                   else dict_get tbl k')"
  by (auto simp: update_processing_def split: option.splits)

lemma claim_get:
  "dict_get (snd (claim_event_processing now t i c w l tbl)) k' =
    (if k' = (t, i, c) \<and> fst (claim_event_processing now t i c w l tbl) = Acquired then
       Some \<lparr>pe_lease_owner = Some w, pe_lease_until = Some (now + seconds l),
         pe_attempts = (case dict_get tbl (t, i, c) of None \<Rightarrow> 1 | Some row \<Rightarrow> pe_attempts row + 1),
         pe_processed_at = None, pe_last_error = None\<rparr>
     else dict_get tbl k')"
  by (auto simp: claim_event_processing_def Let_def split: option.splits)

lemma claim_result:
  "fst (claim_event_processing now t i c w l tbl) =
    (case dict_get tbl (t, i, c) of
       None \<Rightarrow> Acquired
     | Some row \<Rightarrow> if pe_processed_at row \<noteq> None then Completed
         else if (case pe_lease_until row of None \<Rightarrow> True | Some u \<Rightarrow> u < now) then Acquired else Busy)"
  by (auto simp: claim_event_processing_def Let_def split: option.splits)

lemma consumer_step_keeps:
  assumes "consumer_step w (t0, tbl) (t1, tbl')" and "dict_get tbl k = Some row"
    and "pe_processed_at row \<noteq> None \<or> pe_lease_owner row \<noteq> Some w \<and> (\<exists>u. pe_lease_until row = Some u \<and> t1 \<le> u)"
  shows "dict_get tbl' k = Some row \<and> t0 \<le> t1"
  using assms(1)
proof (rule consumer_stepE)
  fix t i c l assume s: "tbl' = snd (claim_event_processing t1 t i c w l tbl)" "t0 \<le> t1"
  have "\<not> (k = (t, i, c) \<and> fst (claim_event_processing t1 t i c w l tbl) = Acquired)"
    using assms(2,3) by (auto simp: claim_result split: if_splits)
  with s assms(2) show ?thesis by (auto simp: claim_get)
next
  fix t i c assume s: "tbl' = snd (complete_event_processing t1 t i c w tbl)" "t0 \<le> t1"
  with assms(2,3) show ?thesis
    by (auto simp: complete_event_processing_def update_processing_get split: option.splits)
next
  fix t i c e assume s: "tbl' = snd (release_event_processing t i c w e tbl)" "t0 \<le> t1"
  with assms(2,3) show ?thesis
    by (auto simp: release_event_processing_def update_processing_get split: option.splits)
qed

lemma consumer_steps_keep:
  assumes "(\<lambda>a b. \<exists>w'. P w' \<and> consumer_step w' a b)\<^sup>*\<^sup>* (t0, tbl) (t1, tbl')" and "dict_get tbl k = Some row"
    and "pe_processed_at row \<noteq> None
      \<or> (\<forall>w'. P w' \<longrightarrow> pe_lease_owner row \<noteq> Some w') \<and> (\<exists>u. pe_lease_until row = Some u \<and> t1 \<le> u)"
  shows "dict_get tbl' k = Some row"
  using assms(1,3)
proof (induction "(t1, tbl')" arbitrary: t1 tbl' rule: rtranclp_induct)
  case base
  then show ?case using assms(2) by simp
next
  case (step y)
  obtain tm tb where y: "y = (tm, tb)" by fastforce
  obtain w' where w': "P w'" "consumer_step w' (tm, tb) (t1, tbl')" using step.hyps(2) y by blast
  have le: "tm \<le> t1" using w'(2) by (rule consumer_stepE) auto
  have "dict_get tb k = Some row"
    by (rule step.hyps(3) [OF y]) (use step.prems le in auto)
  then show ?case
    using consumer_step_keeps [OF w'(2)] w'(1) step.prems by blast
qed

text \<open>
  C26: An event is processed by one worker at a time and completed once. After a worker has acquired an
  event for a consumer, and however other workers claim, complete and release meanwhile, until the
  lease runs out every claim of the event is refused as busy and the worker's completion is
  accepted; once it is completed, no interleaving of any workers changes its record and every
  later claim answers that it is completed.
\<close>

theorem event_processed_once:
  assumes "claim_event_processing now t i c w l tbl = (Acquired, tbl1)"
    and "(\<lambda>a b. \<exists>w'. w' \<noteq> w \<and> consumer_step w' a b)\<^sup>*\<^sup>* (now, tbl1) (later, tbl2)"
    and "later \<le> now + seconds l"
    and "complete_event_processing later t i c w tbl2 = (b, tbl3)"
    and "(\<lambda>a b. \<exists>w'. True \<and> consumer_step w' a b)\<^sup>*\<^sup>* (later, tbl3) (after, tbl4)"
  shows "fst (claim_event_processing later t i c w' l' tbl2) = Busy \<and> b
    \<and> fst (claim_event_processing at' t i c w'' l'' tbl4) = Completed
    \<and> dict_get tbl4 (t, i, c) = dict_get tbl3 (t, i, c)"
proof -
  obtain row where row: "dict_get tbl1 (t, i, c) = Some row" "lease_row_held w (now + seconds l) row"
    using claim_get [of now t i c w l tbl "(t, i, c)"] assms(1) by (simp add: lease_row_held_def)
  then have two: "dict_get tbl2 (t, i, c) = Some row"
    using consumer_steps_keep [OF assms(2), of "(t, i, c)" row] assms(3) by (auto simp: lease_row_held_def)
  have "fst (claim_event_processing later t i c w' l' tbl2) = Busy"
    using two row(2) assms(3) by (simp add: claim_result lease_row_held_def)
  moreover have b: b "dict_get tbl3 (t, i, c) = Some (row\<lparr>pe_processed_at := Some later, pe_lease_owner := None,
      pe_lease_until := None, pe_last_error := None\<rparr>)"
    using assms(4) two row(2) by (auto simp: complete_event_processing_def update_processing_def lease_row_held_def)
  moreover have "dict_get tbl4 (t, i, c) = dict_get tbl3 (t, i, c)"
    using consumer_steps_keep [OF assms(5) b(2)] b(2) by simp
  ultimately show ?thesis by (simp add: claim_result)
qed

section \<open>Idempotent handling\<close>

definition completed_event :: "consumer_config \<Rightarrow> integration_event \<Rightarrow> processed \<Rightarrow> bool" where
  "completed_event c e tbl \<longleftrightarrow>
    (\<exists>row. dict_get tbl (ie_tenant_id e, ie_id e, cn_consumer c) = Some row \<and> pe_processed_at row \<noteq> None)"

lemma handle_event_cases:
  assumes "handle_event c handler now finished e (tbl, h) = (u, tbl', h')"
  obtains (completed) "completed_event c e tbl" "tbl' = tbl" "h' = h"
      "u = Inr \<lparr>cu_processed = False, cu_duplicate = True, cu_busy = False\<rparr>"
  | (busy) "\<not> completed_event c e tbl" "tbl' = tbl" "h' = h"
      "u = Inr \<lparr>cu_processed = False, cu_duplicate = False, cu_busy = True\<rparr>"
  | (failed) f where "\<not> completed_event c e tbl" "handler e h = (Inl f, h')" "u = Inl f" "\<not> completed_event c e tbl'"
      "\<And>w l now'. fst (claim_event_processing now' (ie_tenant_id e) (ie_id e) (cn_consumer c) w l tbl') = Acquired"
  | (processed) "\<not> completed_event c e tbl" "handler e h = (Inr (), h')" "completed_event c e tbl'"
      "u = Inr \<lparr>cu_processed = True, cu_duplicate = False, cu_busy = False\<rparr>"
proof -
  let ?k = "(ie_tenant_id e, ie_id e, cn_consumer c)"
  obtain cl tbl1 where cl: "claim_event_processing now (ie_tenant_id e) (ie_id e) (cn_consumer c)
      (cn_worker_id c) (cn_lease_seconds c) tbl = (cl, tbl1)" by fastforce
  have res: "cl = (case dict_get tbl ?k of None \<Rightarrow> Acquired | Some row \<Rightarrow> if pe_processed_at row \<noteq> None then Completed
         else if (case pe_lease_until row of None \<Rightarrow> True | Some u \<Rightarrow> u < now) then Acquired else Busy)"
    using claim_result [of now "ie_tenant_id e" "ie_id e" "cn_consumer c" "cn_worker_id c" "cn_lease_seconds c" tbl] cl
    by simp
  have same: "cl \<noteq> Acquired \<Longrightarrow> tbl1 = tbl"
    using cl by (auto simp: claim_event_processing_def Let_def split: option.splits if_splits)
  show ?thesis
  proof (cases cl)
    case Completed
    have "completed_event c e tbl"
      using res Completed by (auto simp: completed_event_def split: option.splits if_splits)
    moreover have "tbl' = tbl" "h' = h" "u = Inr \<lparr>cu_processed = False, cu_duplicate = True, cu_busy = False\<rparr>"
      using assms same by (simp_all add: handle_event_def cl Completed)
    ultimately show ?thesis by (rule completed)
  next
    case Busy
    have "\<not> completed_event c e tbl"
      using res Busy by (auto simp: completed_event_def split: option.splits if_splits)
    moreover have "tbl' = tbl" "h' = h" "u = Inr \<lparr>cu_processed = False, cu_duplicate = False, cu_busy = True\<rparr>"
      using assms same by (simp_all add: handle_event_def cl Busy)
    ultimately show ?thesis by (rule busy)
  next
    case Acquired
    then have n: "\<not> completed_event c e tbl"
      using res by (auto simp: completed_event_def split: option.splits if_splits)
    obtain row where row: "dict_get tbl1 ?k = Some row" "pe_lease_owner row = Some (cn_worker_id c)"
        "pe_processed_at row = None"
      using claim_get [of now "ie_tenant_id e" "ie_id e" "cn_consumer c" "cn_worker_id c" "cn_lease_seconds c" tbl ?k]
        cl Acquired by simp
    obtain v h1 where v: "handler e h = (v, h1)" by fastforce
    show ?thesis
    proof (cases v)
      case (Inl f)
      then have u: "u = Inl f" "h' = h1" "tbl' = snd (release_event_processing (ie_tenant_id e) (ie_id e)
          (cn_consumer c) (cn_worker_id c) (failure_text f) tbl1)"
        using assms by (simp_all add: handle_event_def cl Acquired v Inl)
      then have "dict_get tbl' ?k = Some (row\<lparr>pe_lease_owner := None, pe_lease_until := None,
          pe_last_error := Some (failure_text f)\<rparr>)"
        using row by (simp add: release_event_processing_def update_processing_get)
      with row u v Inl n show ?thesis
        by (intro failed [of f]) (auto simp: completed_event_def claim_result)
    next
      case (Inr x)
      then have "complete_event_processing finished (ie_tenant_id e) (ie_id e) (cn_consumer c)
          (cn_worker_id c) tbl1 = (cu_processed (projr u), tbl')" "h' = h1"
          "u = Inr \<lparr>cu_processed = cu_processed (projr u), cu_duplicate = False, cu_busy = False\<rparr>"
        using assms by (auto simp: handle_event_def cl Acquired v Inr split: prod.splits)
      with row have "completed_event c e tbl'" "u = Inr \<lparr>cu_processed = True, cu_duplicate = False, cu_busy = False\<rparr>"
        by (auto simp: complete_event_processing_def update_processing_def completed_event_def)
      with v Inr n \<open>h' = h1\<close> show ?thesis by (intro processed) simp_all
    qed
  qed
qed

text \<open>
  (unlisted): Handling is idempotent. When a handling returns, the handler ran to its end exactly if the result
  says processed, and the event is then completed; handled again, by whatever worker of the
  consumer and at whatever time, it is a duplicate that changes neither the table nor what the
  handler changed. When the handler raises, its exception is passed on and the event can be
  acquired again at once.
\<close>

theorem handle_event_idempotent:
  assumes "handle_event c handler now finished e (tbl, h) = (u, tbl1, h1)"
    and "cn_consumer c' = cn_consumer c"
  shows "case u of
      Inl f \<Rightarrow> handler e h = (Inl f, h1)
        \<and> fst (claim_event_processing now' (ie_tenant_id e) (ie_id e) (cn_consumer c') w l tbl1) = Acquired
    | Inr r \<Rightarrow> (if cu_processed r then handler e h = (Inr (), h1) else tbl1 = tbl \<and> h1 = h)
        \<and> (cu_processed r \<or> cu_duplicate r \<longleftrightarrow> \<not> cu_busy r)
        \<and> (\<not> cu_busy r \<longrightarrow> handle_event c' handler' now' finished' e (tbl1, h1)
             = (Inr \<lparr>cu_processed = False, cu_duplicate = True, cu_busy = False\<rparr>, tbl1, h1))"
proof -
  have dup: "handle_event c' handler' now' finished' e (tb, hh)
      = (Inr \<lparr>cu_processed = False, cu_duplicate = True, cu_busy = False\<rparr>, tb, hh)"
    if "completed_event c e tb" for tb hh
    using that assms(2)
    by (auto simp: completed_event_def handle_event_def claim_event_processing_def Let_def)
  from assms(1) show ?thesis
    by (cases rule: handle_event_cases) (use dup assms(2) in auto)
qed

section \<open>The pull worker keeps every message\<close>

lemma retry_or_dead_letter_cases:
  assumes "new_pull_worker w = Inr w"
  shows "(\<exists>err. retry_or_dead_letter w dlq msg e = [DeadLetter (delivery_attempts msg) err, Term]
        \<and> dlq msg \<and> pw_max_deliveries w \<le> delivery_attempts msg)
    \<or> (\<exists>d. retry_or_dead_letter w dlq msg e = [Nak d] \<and> pw_retry_base_seconds w \<le> d \<and> d \<le> pw_retry_max_seconds w)"
proof -
  have b: "1 \<le> pw_retry_base_seconds w" "pw_retry_base_seconds w \<le> pw_retry_max_seconds w"
    using assms by (auto simp: new_pull_worker_def split: if_splits)
  have "pw_retry_base_seconds w * 1 \<le> pw_retry_base_seconds w * 2 ^ nat (delivery_attempts msg - 1)"
    using b by (intro mult_left_mono) simp_all
  with b show ?thesis by (auto simp: retry_or_dead_letter_def Let_def)
qed

text \<open>
  C28: No message is lost. The pull worker acknowledges a message only when its event is recorded as
  completed for the consumer; it terminates a message only after the deliveries are used up and the
  dead-letter stream has accepted a copy; in every other case, an undecodable body, a handler or an
  acknowledgement that raises, a busy event or a refused copy, the message is given back with a
  delay between the configured bounds.
\<close>

theorem no_message_lost:
  assumes "new_pull_worker w = Inr w"
    and "process_message w dlq ack (handle_event c handler now finished) msg (tbl, h) = (signals, tbl', h')"
  shows "(signals = [Ack] \<and> (\<exists>e. nm_body msg = Inr e \<and> completed_event c e tbl'))
    \<or> (\<exists>err. signals = [DeadLetter (delivery_attempts msg) err, Term] \<and> dlq msg
          \<and> pw_max_deliveries w \<le> delivery_attempts msg)
    \<or> (\<exists>d. signals = [Nak d] \<and> pw_retry_base_seconds w \<le> d \<and> d \<le> pw_retry_max_seconds w)"
proof -
  have retry: ?thesis if "signals = retry_or_dead_letter w dlq msg err" for err
    unfolding that using retry_or_dead_letter_cases [OF assms(1), of dlq msg err] by blast
  show ?thesis
  proof (cases "nm_body msg")
    case (Inl f)
    with assms(2) show ?thesis by (intro retry) (auto simp: process_message_def)
  next
    case (Inr e)
    obtain u t1 h1 where u: "handle_event c handler now finished e (tbl, h) = (u, t1, h1)" by (metis prod_cases3)
    have finished_ok: ?thesis if "completed_event c e t1" "u = Inr r" "cu_processed r \<or> cu_duplicate r" "\<not> cu_busy r" for r
    proof (cases "ack msg")
      case (Inl f)
      with assms(2) \<open>nm_body msg = Inr e\<close> u that show ?thesis by (intro retry) (auto simp: process_message_def)
    next
      case (Inr x)
      with assms(2) \<open>nm_body msg = Inr e\<close> u that have "signals = [Ack]" "tbl' = t1"
        by (auto simp: process_message_def)
      with that \<open>nm_body msg = Inr e\<close> show ?thesis by blast
    qed
    from u show ?thesis
    proof (cases rule: handle_event_cases)
      case completed
      then show ?thesis by (intro finished_ok [OF _ completed(4)]) simp_all
    next
      case busy
      with assms(2) Inr u show ?thesis by (intro retry) (auto simp: process_message_def)
    next
      case (failed f)
      with assms(2) Inr u show ?thesis by (intro retry) (auto simp: process_message_def)
    next
      case processed
      then show ?thesis by (intro finished_ok [OF _ processed(4)]) simp_all
    qed
  qed
qed

section \<open>Examples\<close>

definition sample_consumer :: consumer_config where
  "sample_consumer = \<lparr>cn_consumer = lit ''embed'', cn_worker_id = lit ''w1'', cn_lease_seconds = 60\<rparr>"

definition counting :: "integration_event \<Rightarrow> nat \<Rightarrow> (failure + unit) \<times> nat" where
  "counting e n = (Inr (), n + 1)"

definition sample_pull_worker :: pull_worker where
  "sample_pull_worker = \<lparr>pw_max_deliveries = 3, pw_retry_base_seconds = 2, pw_retry_max_seconds = 60\<rparr>"

theorem event_processed_once_witness:
  "fst (claim_event_processing 10 7 1 (lit ''embed'') (lit ''w2'') 60
      (snd (claim_event_processing 0 7 1 (lit ''embed'') (lit ''w1'') 60 []))) = Busy"
proof -
  let ?t1 = "snd (claim_event_processing 0 7 1 (lit ''embed'') (lit ''w1'') 60 [])"
  have "fst (claim_event_processing 0 7 1 (lit ''embed'') (lit ''w1'') 60 []) = Acquired" by code_simp
  then have c: "claim_event_processing 0 7 1 (lit ''embed'') (lit ''w1'') 60 [] = (Acquired, ?t1)"
    by (simp add: prod_eq_iff)
  have ne: "lit ''w2'' \<noteq> lit ''w1''" by code_simp
  have "consumer_step (lit ''w2'') (0, ?t1)
      (10, snd (complete_event_processing 10 7 1 (lit ''embed'') (lit ''w2'') ?t1))"
    by (rule consumer_step.complete) simp
  moreover have "snd (complete_event_processing 10 7 1 (lit ''embed'') (lit ''w2'') ?t1) = ?t1" by code_simp
  ultimately have s: "consumer_step (lit ''w2'') (0, ?t1) (10, ?t1)" by simp
  then have "(\<lambda>a b. \<exists>w'. w' \<noteq> lit ''w1'' \<and> consumer_step w' a b)\<^sup>*\<^sup>* (0, ?t1) (10, ?t1)"
    using ne by blast
  from event_processed_once [OF c this _ prod.collapse [symmetric] rtranclp.rtrancl_refl]
  show ?thesis by simp
qed

theorem handle_event_idempotent_witness:
  "\<exists>tbl. handle_event sample_consumer counting 0 5 (sample_event 1 7 8) ([], 0)
      = (Inr \<lparr>cu_processed = True, cu_duplicate = False, cu_busy = False\<rparr>, tbl, 1)
    \<and> handle_event sample_consumer counting 9 9 (sample_event 1 7 8) (tbl, 1)
      = (Inr \<lparr>cu_processed = False, cu_duplicate = True, cu_busy = False\<rparr>, tbl, 1)"
proof -
  let ?once = "handle_event sample_consumer counting 0 5 (sample_event 1 7 8) ([], 0)"
  have "map_sum (\<lambda>_. ()) (\<lambda>r. (cu_processed r, cu_duplicate r, cu_busy r)) (fst ?once) = Inr (True, False, False)"
    "snd (snd ?once) = 1" by code_simp+
  moreover obtain v tbl n where v: "?once = (v, tbl, n)" by (metis prod_cases3)
  ultimately have once: "?once = (Inr \<lparr>cu_processed = True, cu_duplicate = False, cu_busy = False\<rparr>, tbl, 1)"
    by (cases v) (auto intro: consumer_result.equality)
  from handle_event_idempotent [OF once refl, where handler' = counting and now' = 9 and finished' = 9] once
  show ?thesis by auto
qed

theorem no_message_lost_witness:
  "fst (process_message sample_pull_worker (\<lambda>_. False) (\<lambda>_. Inr ()) (handle_event sample_consumer counting 0 5)
      \<lparr>nm_body = Inl (lit ''KeyError'', lit ''id''), nm_num_delivered = Some 9\<rparr> ([], 0)) \<noteq> [Term]
    \<and> completed_event sample_consumer (sample_event 1 7 8)
        (fst (snd (process_message sample_pull_worker (\<lambda>_. False) (\<lambda>_. Inr ()) (handle_event sample_consumer counting 0 5)
          \<lparr>nm_body = Inr (sample_event 1 7 8), nm_num_delivered = None\<rparr> ([], 0))))"
proof -
  let ?run = "\<lambda>m. process_message sample_pull_worker (\<lambda>_. False) (\<lambda>_. Inr ()) (handle_event sample_consumer counting 0 5) m ([], 0)"
  let ?a = "\<lparr>nm_body = Inl (lit ''KeyError'', lit ''id''), nm_num_delivered = Some 9\<rparr>"
    and ?b = "\<lparr>nm_body = Inr (sample_event 1 7 8), nm_num_delivered = None\<rparr>"
  have ok: "new_pull_worker sample_pull_worker = Inr sample_pull_worker" by code_simp
  obtain sa ta ha where a: "?run ?a = (sa, ta, ha)" by (metis prod_cases3)
  obtain sb tb hb where b: "?run ?b = (sb, tb, hb)" by (metis prod_cases3)
  have "fst (?run ?b) = [Ack]" by code_simp
  with b have "sb = [Ack]" by simp
  then have "completed_event sample_consumer (sample_event 1 7 8) tb"
    using no_message_lost [OF ok b] by auto
  moreover have "sa \<noteq> [Term]" using no_message_lost [OF ok a] by auto
  ultimately show ?thesis using a b by simp
qed

end
