(* ===== verification/BeliefSlots.thy ===== *)
theory BeliefSlots
  imports Regex
begin

text \<open>
  Belief slots (\<open>services/belief_slots.py\<close>): the deterministic relation a semantic memory states, by
  which reflection and the conflict inbox compare memories. Patterns are those of the code, run by
  the matcher; the Cyrillic words are written as code points.
\<close>

record belief_slot =
  sl_subject :: str
  sl_predicate :: str
  sl_value :: str

definition slot_key :: "belief_slot \<Rightarrow> str" where
  "slot_key s = sl_subject s @ lit ''|'' @ sl_predicate s"

section \<open>Normalization\<close>

definition depunctuate :: "str \<Rightarrow> str" where
  "depunctuate txt = map (\<lambda>c. if is_word c \<or> is_space c \<or> c = 45 then c else 32) txt"

definition normalize_belief :: "str \<Rightarrow> str" where
  "normalize_belief txt = join [32] (py_split (depunctuate (strip (casefold txt))))"

definition remove_prefix :: "str \<Rightarrow> str \<Rightarrow> str" where
  "remove_prefix p s = (if starts_with p s then drop (length p) s else s)"

definition normalize_entity :: "str \<Rightarrow> str" where
  "normalize_entity txt = normalize_belief (remove_prefix (lit ''the '') txt)"

definition date_separator :: "int \<Rightarrow> bool" where
  "date_separator c \<longleftrightarrow> c = 45 \<or> c = 47 \<or> c = 44"

function squeeze_separators :: "str \<Rightarrow> str" where
  "squeeze_separators [] = []"
| "squeeze_separators (c # cs) =
    (if date_separator c then 32 # squeeze_separators (dropWhile date_separator cs)
     else c # squeeze_separators cs)"
  by pat_completeness auto
termination
  by (relation "measure length") (auto intro: le_less_trans [OF length_dropWhile_le])

definition normalize_value :: "str \<Rightarrow> str" where
  "normalize_value txt = squeeze_separators (normalize_belief txt)"

section \<open>Patterns\<close>

definition rx_temporal :: rx where
  "rx_temporal = rx_seq [RBound, rx_alt
     [rx_ustr [1088, 1072, 1085, 1100, 1096, 1077], rx_ustr [1089, 1077, 1081, 1095, 1072, 1089],
      rx_ustr [1090, 1077, 1087, 1077, 1088, 1100], rx_ustr [1085, 1077, 1076, 1072, 1074, 1085, 1086],
      RSeq (rx_ustr [1087, 1077, 1088, 1077, 1096])
        (rx_alt [rx_ustr [1077, 1083], rx_ustr [1105, 1083], rx_ustr [1083, 1072]]),
      RSeq (rx_ustr [1080, 1079, 1084, 1077, 1085])
        (rx_alt [rx_ustr [1080, 1083], rx_ustr [1080, 1083, 1072], rx_ustr [1080, 1083, 1086, 1089, 1100]]),
      rx_ilit ''before'', rx_ilit ''previously'', rx_ilit ''formerly'', rx_ilit ''now'',
      rx_ilit ''recently'', rx_ilit ''changed'', rx_ilit ''switched''], RBound]"

definition rx_dot :: rx where "rx_dot = RChar (\<lambda>c. c \<noteq> 10)"

text \<open>
  \<open>re.fullmatch("(?P<a>.+?)" + separator + "(?P<b>.+)", s)\<close> with its two groups: the first way of
  matching in backtracking order that reaches the end of the text.
\<close>

definition fullmatch_pair :: "rx \<Rightarrow> str \<Rightarrow> (str \<times> str) option" where
  "fullmatch_pair separator s =
    (case concat (map (\<lambda>i. concat (map (\<lambda>j.
            if length s \<in> set (match_ends s (rx_plus rx_dot) j) then [(take i s, drop j s)] else [])
          (match_ends s separator i))) (match_ends s (RRep rx_dot 1 None False) 0)) of
       [] \<Rightarrow> None
     | p # _ \<Rightarrow> Some p)"

definition rx_owns :: rx where "rx_owns = rx_lit '' owns ''"

definition rx_releases :: rx where
  "rx_releases = rx_seq [rx_lit '' release'', rx_opt (rx_lit ''s''), rx_lit '' on '']"

definition rx_prefers :: rx where
  "rx_prefers = rx_seq [rx_lit '' '', rx_alt
     [rx_seq [rx_lit ''prefer'', rx_opt (rx_lit ''s'')], rx_seq [rx_lit ''like'', rx_opt (rx_lit ''s'')],
      rx_ustr [1087, 1088, 1077, 1076, 1087, 1086, 1095, 1080, 1090, 1072, 1077, 1090],
      rx_ustr [1083, 1102, 1073, 1080, 1090]], rx_lit '' '']"

definition rx_is :: rx where
  "rx_is = rx_seq [rx_lit '' '', rx_alt
     [rx_lit ''is'', rx_lit ''are'', rx_lit ''was'', rx_lit ''were'', rx_lit ''will be'',
      rx_ustr [1103, 1074, 1083, 1103, 1077, 1090, 1089, 1103], rx_ustr [1103, 1074, 1083, 1103, 1083, 1089, 1103],
      rx_ustr [1103, 1074, 1083, 1103, 1083, 1072, 1089, 1100], rx_ustr [1073, 1099, 1083],
      rx_ustr [1073, 1099, 1083, 1072], rx_ustr [1073, 1091, 1076, 1077, 1090]], rx_lit '' '']"

section \<open>Extraction\<close>

definition statement_slot :: "str \<Rightarrow> belief_slot" where
  "statement_slot normalized =
    \<lparr>sl_subject = normalized, sl_predicate = lit ''statement'', sl_value = lit ''true''\<rparr>"

definition extract_belief_slot :: "str \<Rightarrow> belief_slot" where
  "extract_belief_slot txt =
    (let normalized = normalize_belief txt in
     if rx_search rx_temporal normalized \<noteq> None then statement_slot normalized
     else case fullmatch_pair rx_owns normalized of
       Some (owner, thing) \<Rightarrow> \<lparr>sl_subject = normalize_entity thing, sl_predicate = lit ''owner'',
          sl_value = normalize_entity owner\<rparr>
     | None \<Rightarrow> (case fullmatch_pair rx_releases normalized of
         Some (subject, val) \<Rightarrow> \<lparr>sl_subject = normalize_entity subject,
            sl_predicate = lit ''release_date'', sl_value = normalize_value val\<rparr>
       | None \<Rightarrow> (case fullmatch_pair rx_prefers normalized of
           Some (subject, val) \<Rightarrow> \<lparr>sl_subject = normalize_entity subject,
              sl_predicate = lit ''preference'', sl_value = normalize_value val\<rparr>
         | None \<Rightarrow> (case fullmatch_pair rx_is normalized of
             Some (subject, val) \<Rightarrow> \<lparr>sl_subject = normalize_entity subject,
                sl_predicate = lit ''state'', sl_value = normalize_value val\<rparr>
           | None \<Rightarrow> statement_slot normalized))))"

text \<open>A temporal transition stays an opaque statement, whatever relation its words would match.\<close>

lemma temporal_is_opaque:
  "rx_search rx_temporal (normalize_belief txt) \<noteq> None \<Longrightarrow>
    extract_belief_slot txt = statement_slot (normalize_belief txt)"
  by (simp add: extract_belief_slot_def Let_def)

text \<open>Memories that normalize alike state the same slot.\<close>

lemma slot_of_normalized:
  "normalize_belief a = normalize_belief b \<Longrightarrow> extract_belief_slot a = extract_belief_slot b"
  by (simp add: extract_belief_slot_def)

lemma extraction_examples:
  "extract_belief_slot (lit ''Ann likes tea.'')
    = \<lparr>sl_subject = lit ''ann'', sl_predicate = lit ''preference'', sl_value = lit ''tea''\<rparr>"
  "extract_belief_slot (lit ''Ann now likes tea'') = statement_slot (lit ''ann now likes tea'')"
  by code_simp+

end
