(* ===== verification/Conflicts.thy ===== *)
theory Conflicts
  imports BeliefSlots Retention StoreGraph
begin

text \<open>
  The conflict inbox (\<open>services/conflicts.py\<close>): cases built from the semantic memories by belief slot
  and value, the operator's decision, and the resolution that makes the winner canonical by
  superseding the losers. \<open>uuid5(NAMESPACE_URL, _)\<close> is a parameter; the identities and clock
  readings of the replacements are a \<open>fresh\<close> record per write.
\<close>

section \<open>Grouping by slot and value\<close>

type_synonym fact = "belief_slot \<times> memory_item"

definition belief_facts :: "memory_item list \<Rightarrow> fact list" where
  "belief_facts items = map (\<lambda>item. (extract_belief_slot (mi_text item), item)) items"

definition belief_groups :: "memory_item list \<Rightarrow> (str, fact list) dict" where
  "belief_groups items = group_by (\<lambda>f. slot_key (fst f)) (belief_facts items)"

definition facts_by_value :: "fact list \<Rightarrow> (str, memory_item list) dict" where
  "facts_by_value facts = map (\<lambda>(v, fs). (v, map snd fs)) (group_by (\<lambda>f. sl_value (fst f)) facts)"

text \<open>\<open>max(rows, key=lambda row: row.created_at)\<close> of a non-empty list.\<close>

definition newest :: "memory_item list \<Rightarrow> memory_item" where
  "newest rows = the (max_by mi_created_at rows)"

section \<open>Cases\<close>

definition candidate_confidence :: "memory_item list \<Rightarrow> bool \<Rightarrow> real" where
  "candidate_confidence rows is_active =
    (let base = sum_list (map mi_confidence rows) / real (length rows);
         boost = min (2/10) (5/100 * (real (length rows) - 1));
         active_boost = (if is_active then 5/100 else 0)
     in min 1 (max 0 (base + boost + active_boost)))"

definition candidate_status ::
  "conflict_review_decision option \<Rightarrow> memory_item \<Rightarrow> str \<Rightarrow> memory_item list \<Rightarrow> str"
where
  "candidate_status review latest v rows =
    (case review of
       Some d \<Rightarrow> if cd_applied_memory_id d \<noteq> None
          then (if Some v = cd_winner_value d then lit ''active'' else lit ''stale'')
          else if mi_id (newest rows) = mi_id latest then lit ''active'' else lit ''stale''
     | None \<Rightarrow> if mi_id (newest rows) = mi_id latest then lit ''active'' else lit ''stale'')"

definition build_candidate ::
  "conflict_review_decision option \<Rightarrow> memory_item \<Rightarrow> str \<times> memory_item list \<Rightarrow> conflict_candidate"
where
  "build_candidate review latest vr =
    (case vr of (v, rows) \<Rightarrow>
      let status = candidate_status review latest v rows in
      \<lparr>cc_value = v, cc_status = status, cc_evidence_ids = map mi_id rows,
       cc_confidence = candidate_confidence rows (status = lit ''active''),
       cc_latest_created_at = mi_created_at (newest rows)\<rparr>)"

definition case_name :: "uuid \<Rightarrow> uuid \<Rightarrow> belief_slot \<Rightarrow> str" where
  "case_name tenant_id workspace_id slot = lit ''uam:conflict:'' @ uuid_str tenant_id @ lit '':''
     @ uuid_str workspace_id @ lit '':'' @ slot_key slot"

definition suggested_candidate :: "conflict_candidate list \<Rightarrow> conflict_candidate" where
  "suggested_candidate cs =
    the (max_by (\<lambda>row. (cc_status row = lit ''active'', cc_latest_created_at row, cc_confidence row)) cs)"

definition build_case ::
  "(str \<Rightarrow> uuid) \<Rightarrow> uuid \<Rightarrow> uuid \<Rightarrow> (uuid, conflict_review_decision) dict \<Rightarrow> bool \<Rightarrow> fact list
    \<Rightarrow> conflict_case option"
where
  "build_case uuid5 tenant_id workspace_id reviews include_resolved facts =
    (let by_value = facts_by_value facts;
         latest = newest (map snd facts);
         first_slot = fst (hd facts);
         case_id = uuid5 (case_name tenant_id workspace_id first_slot);
         review = dict_get reviews case_id;
         candidates = map (build_candidate review latest) (sort_key fst by_value)
     in if length by_value < 2 then None
        else if \<not> include_resolved \<and> (case review of None \<Rightarrow> False | Some d \<Rightarrow> cd_status d \<noteq> Unresolved)
        then None
        else Some \<lparr>cf_id = case_id, cf_tenant_id = tenant_id, cf_workspace_id = workspace_id,
               cf_subject = sl_subject first_slot, cf_predicate = sl_predicate first_slot,
               cf_candidates = candidates,
               cf_suggested_winner_value = cc_value (suggested_candidate candidates),
               cf_suggested_reason = lit ''newest active value with strongest evidence; raw memories remain append-only'',
               cf_review = review\<rparr>)"

definition reviews_by_case :: "uuid \<Rightarrow> uuid \<Rightarrow> store \<Rightarrow> (uuid, conflict_review_decision) dict" where
  "reviews_by_case tenant_id workspace_id s =
    foldl (\<lambda>m d. dict_set (cd_case_id d) d m) [] (list_conflict_reviews tenant_id workspace_id s)"

definition list_cases :: "(str \<Rightarrow> uuid) \<Rightarrow> uuid \<Rightarrow> uuid \<Rightarrow> bool \<Rightarrow> store \<Rightarrow> conflict_case list" where
  "list_cases uuid5 tenant_id workspace_id include_resolved s =
    (let items = list_items tenant_id workspace_id [Semantic] None None None 0 s
     in sort_key (\<lambda>c. (cf_subject c, cf_predicate c, cf_id c))
          (List.map_filter (build_case uuid5 tenant_id workspace_id
             (reviews_by_case tenant_id workspace_id s) include_resolved)
            (dict_values (belief_groups items))))"

section \<open>Decisions\<close>

definition resolution_event :: "fresh \<Rightarrow> memory_item \<Rightarrow> integration_event res" where
  "resolution_event fr item = integration_event_post_init
    \<lparr>ie_id = fr_event_id fr, ie_name = retained_v1, ie_tenant_id = mi_tenant_id item,
     ie_workspace_id = mi_workspace_id item,
     ie_payload = [(lit ''memory_id'', PStr (uuid_str (mi_id item))),
       (lit ''supersedes_id'', PStr (case mi_supersedes_id item of None \<Rightarrow> lit ''None'' | Some p \<Rightarrow> uuid_str p)),
       (lit ''revision'', PInt (mi_revision item)), (lit ''layer'', PStr (layer_value (mi_layer item))),
       (lit ''jobs'', embed_reflect_jobs), (lit ''reason'', PStr (lit ''conflict-resolution''))],
     ie_occurred_at = fr_occurred_at fr, ie_correlation_id = Some (mi_id item)\<rparr>"

definition winner_write ::
  "uuid \<Rightarrow> fresh \<Rightarrow> memory_item \<Rightarrow> memory_item \<Rightarrow> resolution_write res"
where
  "winner_write case_id fr winner_source parent =
    res_bind (supersede_item (fr_item_id fr) (fr_created_at fr) parent (mi_text winner_source)
                (Some (mi_confidence winner_source)) (Some Active)) (\<lambda>applied.
    res_bind (memory_item_post_init (applied\<lparr>
        mi_provenance := \<lparr>pv_source_kind = lit ''conflict-review'',
          pv_origin_uri = Some (lit ''conflict://'' @ uuid_str case_id),
          pv_object_key = Some (uuid_str (mi_id winner_source)), pv_checksum_sha256 = None,
          pv_quote = Some (mi_text winner_source), pv_extraction_version = lit ''operator-resolution-v1''\<rparr>,
        mi_metadata := dict_set (lit ''winner_evidence_id'') (PStr (uuid_str (mi_id winner_source)))
          (dict_set (lit ''conflict_case_id'') (PStr (uuid_str case_id)) (mi_metadata applied))\<rparr>)) (\<lambda>applied.
    res_bind (resolution_event fr applied) (\<lambda>event. Inr (applied, event, mi_revision parent))))"

definition tombstone_write :: "uuid \<Rightarrow> fresh \<Rightarrow> memory_item \<Rightarrow> resolution_write res" where
  "tombstone_write case_id fr loser =
    res_bind (supersede_item (fr_item_id fr) (fr_created_at fr) loser (mi_text loser) None (Some Archived)) (\<lambda>t.
    res_bind (memory_item_post_init (t\<lparr>
        mi_metadata := dict_set (lit ''archived_by_conflict_resolution'') (PBool True)
          (dict_set (lit ''conflict_case_id'') (PStr (uuid_str case_id)) (mi_metadata t))\<rparr>)) (\<lambda>t.
    res_bind (resolution_event fr t) (\<lambda>event. Inr (t, event, mi_revision loser))))"

fun tombstone_writes :: "uuid \<Rightarrow> (nat \<Rightarrow> fresh) \<Rightarrow> nat \<Rightarrow> memory_item list \<Rightarrow> resolution_write list res" where
  "tombstone_writes case_id fr k [] = Inr []"
| "tombstone_writes case_id fr k (loser # ls) =
    res_bind (tombstone_write case_id (fr k) loser) (\<lambda>w.
    res_bind (tombstone_writes case_id fr (k + 1) ls) (\<lambda>ws. Inr (w # ws)))"

definition newest_by_id :: "memory_item list \<Rightarrow> memory_item option" where
  "newest_by_id rows = max_by (\<lambda>item. (mi_created_at item, mi_id item)) rows"

definition evidence_items :: "uuid \<Rightarrow> store \<Rightarrow> uuid list \<Rightarrow> (uuid, memory_item) dict" where
  "evidence_items tenant_id s ids =
    foldl (\<lambda>m i. case get_item tenant_id i s of None \<Rightarrow> m | Some item \<Rightarrow> dict_set i item m) [] ids"

definition resolution_writes ::
  "uuid \<Rightarrow> (nat \<Rightarrow> fresh) \<Rightarrow> memory_item \<Rightarrow> memory_item list \<Rightarrow> memory_item list
    \<Rightarrow> (uuid \<times> resolution_write list) res"
where
  "resolution_writes case_id fr winner_source winner_heads loser_heads =
    (case newest_by_id winner_heads of
       Some applied \<Rightarrow> res_bind (tombstone_writes case_id fr 0 loser_heads) (\<lambda>ws. Inr (mi_id applied, ws))
     | None \<Rightarrow>
         (case newest_by_id loser_heads of
            None \<Rightarrow> Inl (ValueError (lit ''conflict has no recallable head to supersede''))
          | Some parent \<Rightarrow>
              res_bind (winner_write case_id (fr 0) winner_source parent) (\<lambda>w.
              res_bind (tombstone_writes case_id fr 1 (remove1 parent loser_heads)) (\<lambda>ws.
              Inr (mi_id (fst w), w # ws)))))"

definition apply_winner ::
  "(nat \<Rightarrow> fresh) \<Rightarrow> conflict_case \<Rightarrow> conflict_review_decision \<Rightarrow> str \<Rightarrow> audit_event option \<Rightarrow> store
    \<Rightarrow> conflict_review_decision res \<times> store"
where
  "apply_winner fr c d winner_value audit s =
    (case find (\<lambda>k. cc_value k = winner_value) (rev (cf_candidates c)) of
       None \<Rightarrow> (Inl (ValueError (lit ''winner_value must match one of the conflict candidates'')), s)
     | Some winner \<Rightarrow>
         (let evidence_ids = concat (map cc_evidence_ids (cf_candidates c));
              items = evidence_items (cf_tenant_id c) s evidence_ids;
              recallable = filter_recallable_heads (cf_tenant_id c) (map fst items) s
          in if length items \<noteq> length (remdups evidence_ids) then
               (Inl (ValueError (lit ''conflict evidence is incomplete'')), s)
             else
               (case res_bind (res_map (dict_index items) (cc_evidence_ids winner)) (\<lambda>winner_items.
                     res_bind (res_map (dict_index items)
                        (filter (\<lambda>i. i \<in> recallable) (concat (map cc_evidence_ids
                           (filter (\<lambda>k. cc_value k \<noteq> winner_value) (cf_candidates c)))))) (\<lambda>loser_heads.
                       case newest_by_id winner_items of
                         None \<Rightarrow> Inl (ValueError (lit ''max() iterable argument is empty''))
                       | Some winner_source \<Rightarrow> resolution_writes (cf_id c) fr winner_source
                           (filter (\<lambda>item. mi_id item \<in> recallable) winner_items) loser_heads)) of
                  Inl e \<Rightarrow> (Inl e, s)
                | Inr (applied_id, writes) \<Rightarrow>
                    apply_conflict_resolution (d\<lparr>cd_applied_memory_id := Some applied_id\<rparr>) writes audit s)))"

definition decide_open ::
  "(nat \<Rightarrow> fresh) \<Rightarrow> conflict_case \<Rightarrow> datetime \<Rightarrow> uuid \<Rightarrow> uuid \<Rightarrow> uuid \<Rightarrow> conflict_review_status
    \<Rightarrow> str option \<Rightarrow> str \<Rightarrow> audit_event option \<Rightarrow> store \<Rightarrow> conflict_review_decision res \<times> store"
where
  "decide_open fr c now tenant_id workspace_id case_id status winner_value reason audit s =
    (let d = \<lparr>cd_tenant_id = tenant_id, cd_workspace_id = workspace_id, cd_case_id = case_id,
           cd_status = status, cd_winner_value = winner_value, cd_reason = reason,
           cd_applied_memory_id = None, cd_updated_at = now\<rparr>
     in if status \<notin> {Accepted, Overridden} then
          (case save_conflict_review d audit s of (saved, s1) \<Rightarrow> (Inr saved, s1))
        else apply_winner fr c d (strip (case winner_value of None \<Rightarrow> [] | Some v \<Rightarrow> v)) audit s)"

definition decide ::
  "(str \<Rightarrow> uuid) \<Rightarrow> (nat \<Rightarrow> fresh) \<Rightarrow> datetime \<Rightarrow> uuid \<Rightarrow> uuid \<Rightarrow> uuid \<Rightarrow> conflict_review_status
    \<Rightarrow> str option \<Rightarrow> str \<Rightarrow> audit_event option \<Rightarrow> store \<Rightarrow> conflict_review_decision res \<times> store"
where
  "decide uuid5 fr now tenant_id workspace_id case_id status winner_value reason audit s =
    (if status \<in> {Accepted, Overridden}
        \<and> (case winner_value of None \<Rightarrow> True | Some v \<Rightarrow> blank v) then
       (Inl (ValueError (lit ''winner_value is required for accepted/overridden decisions'')), s)
     else case find (\<lambda>c. cf_id c = case_id) (list_cases uuid5 tenant_id workspace_id True s) of
       None \<Rightarrow> (Inl (ValueError (lit ''conflict case not found'')), s)
     | Some c \<Rightarrow>
         (case cf_review c of
            Some r \<Rightarrow>
              if cd_applied_memory_id r \<noteq> None then
                (if cd_status r = status \<and> cd_winner_value r = winner_value then (Inr r, s)
                 else (Inl (ValueError (lit ''conflict resolution is already applied and immutable'')), s))
              else decide_open fr c now tenant_id workspace_id case_id status winner_value reason audit s
          | None \<Rightarrow> decide_open fr c now tenant_id workspace_id case_id status winner_value reason audit s))"

section \<open>What a case lists\<close>

lemma mset_concat_map: "mset (concat (map f xs)) = sum_mset (image_mset (\<lambda>x. mset (f x)) (mset xs))"
  by (induction xs) simp_all

lemma mset_concat_push:
  assumes "dict_ok d"
  shows "mset (concat (dict_values (dict_push k v d))) = add_mset v (mset (concat (dict_values d)))"
  using assms
proof (induction d)
  case (Cons p d)
  have "dict_get d k = None" if "fst p = k"
    using Cons.prems that by (auto simp: map_of_eq_None_iff)
  with Cons show ?case by (cases p) (auto simp: dict_push_def)
qed (simp add: dict_push_def)

lemma mset_concat_group: "mset (concat (dict_values (group_by f xs))) = mset xs"
proof -
  have "mset (concat (dict_values (foldl (\<lambda>d x. dict_push (f x) x d) d xs)))
      = mset xs + mset (concat (dict_values d))" if "dict_ok d" for d
    using that by (induction xs arbitrary: d) (simp_all add: mset_concat_push)
  from this [of "[]"] show ?thesis by (simp add: group_by_def)
qed

lemma group_by_values:
  assumes "ys \<in> set (dict_values (group_by f xs))"
  obtains k where "ys = filter (\<lambda>x. f x = k) xs" "ys \<noteq> []"
proof -
  obtain k where "dict_get (group_by f xs) k = Some ys"
    using dict_values_get [OF group_by_ok assms] by blast
  then show thesis using that [of k] by (auto simp: group_by_get Let_def split: if_splits)
qed

definition case_ok :: "uuid \<Rightarrow> uuid \<Rightarrow> store \<Rightarrow> conflict_case \<Rightarrow> bool" where
  "case_ok t w s c \<longleftrightarrow> cf_tenant_id c = t \<and> cf_workspace_id c = w
     \<and> distinct (map cc_value (cf_candidates c))
     \<and> distinct (concat (map cc_evidence_ids (cf_candidates c)))
     \<and> (\<forall>k \<in> set (cf_candidates c). cc_evidence_ids k \<noteq> [] \<and> (\<forall>i \<in> set (cc_evidence_ids k).
          \<exists>m. get_item t i s = Some m \<and> mi_workspace_id m = w \<and> mi_layer m = Semantic
            \<and> sl_value (extract_belief_slot (mi_text m)) = cc_value k))"

lemma build_candidate_simps [simp]:
  "cc_value (build_candidate r l p) = fst p"
  "cc_evidence_ids (build_candidate r l p) = map mi_id (snd p)"
  by (cases p; simp add: build_candidate_def Let_def)+

lemma facts_by_value_fst: "map fst (facts_by_value facts) = map fst (group_by (\<lambda>f. sl_value (fst f)) facts)"
  by (auto simp: facts_by_value_def)

lemma build_case_ok:
  assumes "build_case uuid5 t w reviews all facts = Some c"
    and "distinct (map (\<lambda>f. mi_id (snd f)) facts)"
    and "\<forall>f \<in> set facts. get_item t (mi_id (snd f)) s = Some (snd f) \<and> mi_workspace_id (snd f) = w
        \<and> mi_layer (snd f) = Semantic \<and> fst f = extract_belief_slot (mi_text (snd f))"
  shows "case_ok t w s c"
proof -
  let ?bv = "facts_by_value facts" and ?g = "group_by (\<lambda>f. sl_value (fst f)) facts"
  let ?r = "dict_get reviews (uuid5 (case_name t w (fst (hd facts))))" and ?l = "newest (map snd facts)"
  have c: "cf_candidates c = map (build_candidate ?r ?l) (sort_key fst ?bv)"
      "cf_tenant_id c = t" "cf_workspace_id c = w"
    using assms(1) by (auto simp: build_case_def Let_def split: if_splits)
  have "distinct (map fst ?bv)" by (simp add: facts_by_value_fst)
  then have vals: "distinct (map cc_value (cf_candidates c))"
    unfolding c(1) by (simp add: comp_def distinct_map)
  have "mset (concat (map cc_evidence_ids (cf_candidates c)))
      = mset (concat (map (\<lambda>p. map mi_id (snd p)) ?bv))"
    unfolding c(1) by (simp add: comp_def mset_concat_map)
  also have "concat (map (\<lambda>p. map mi_id (snd p)) ?bv) = map (\<lambda>f. mi_id (snd f)) (concat (dict_values ?g))"
    by (simp add: facts_by_value_def map_concat comp_def case_prod_beta)
  also have "mset \<dots> = mset (map (\<lambda>f. mi_id (snd f)) facts)"
    by (simp only: mset_map mset_concat_group)
  finally have ids: "distinct (concat (map cc_evidence_ids (cf_candidates c)))"
    using assms(2) mset_eq_imp_distinct_iff by blast
  have "cc_evidence_ids k \<noteq> [] \<and> (\<forall>i \<in> set (cc_evidence_ids k).
          \<exists>m. get_item t i s = Some m \<and> mi_workspace_id m = w \<and> mi_layer m = Semantic
            \<and> sl_value (extract_belief_slot (mi_text m)) = cc_value k)"
    if k: "k \<in> set (cf_candidates c)" for k
  proof -
    obtain v fs where vf: "(v, fs) \<in> set ?g" "k = build_candidate ?r ?l (v, map snd fs)"
      using k unfolding c(1) by (auto simp: facts_by_value_def)
    have "dict_get ?g v = Some fs" using vf(1) by (simp add: dict_get_set_mem)
    then have fs: "fs = filter (\<lambda>f. sl_value (fst f) = v) facts" "fs \<noteq> []"
      by (auto simp: group_by_get Let_def split: if_splits)
    then show ?thesis using assms(3) unfolding vf(2) by auto
  qed
  with c ids vals show ?thesis by (simp add: case_ok_def)
qed

lemma list_cases_ok:
  assumes "items_ok s" and "c \<in> set (list_cases uuid5 t w all s)"
  shows "case_ok t w s c"
proof -
  let ?items = "list_items t w [Semantic] None None None 0 s"
  obtain facts where facts: "facts \<in> set (dict_values (belief_groups ?items))"
    "build_case uuid5 t w (reviews_by_case t w s) all facts = Some c"
    using assms(2) by (fastforce simp: list_cases_def Let_def map_filter_def)
  then obtain key where f: "facts = filter (\<lambda>f. slot_key (fst f) = key) (belief_facts ?items)"
    unfolding belief_groups_def by (blast elim: group_by_values)
  have rows: "x \<in> set (dict_values (st_items s)) \<and> mi_tenant_id x = t \<and> mi_workspace_id x = w \<and> mi_layer x = Semantic"
    if "x \<in> set ?items" for x
    using that by (auto simp: list_items_unpaged given_def split: option.splits)
  have "distinct (map mi_id (dict_values (st_items s)))"
    using assms(1) unfolding items_ok_def by (blast intro: table_ok_distinct)
  then have "distinct (map mi_id (filter P (dict_values (st_items s))))" for P
    by (rule distinct_map_filter)
  then have "distinct (map mi_id ?items)"
    unfolding list_items_unpaged by (simp only: distinct_map set_sort distinct_sort)
  then have "distinct (map (\<lambda>f. mi_id (snd f)) (belief_facts ?items))"
    by (simp add: belief_facts_def comp_def)
  then have "distinct (map (\<lambda>f. mi_id (snd f)) facts)" unfolding f by (rule distinct_map_filter)
  moreover have "\<forall>f \<in> set facts. get_item t (mi_id (snd f)) s = Some (snd f) \<and> mi_workspace_id (snd f) = w
        \<and> mi_layer (snd f) = Semantic \<and> fst f = extract_belief_slot (mi_text (snd f))"
    using rows items_row_iff [OF assms(1)] unfolding f
    by (auto simp: belief_facts_def get_item_Some)
  ultimately show ?thesis using build_case_ok [OF facts(2)] by blast
qed

section \<open>What a resolution writes\<close>

definition write_for :: "resolution_write \<Rightarrow> memory_item \<Rightarrow> bool" where
  "write_for wr p \<longleftrightarrow> mi_supersedes_id (fst wr) = Some (mi_id p) \<and> mi_tenant_id (fst wr) = mi_tenant_id p
     \<and> mi_revision (fst wr) = mi_revision p + 1 \<and> snd (snd wr) = mi_revision p"

lemma list_all2_left: "list_all2 P xs ys \<Longrightarrow> x \<in> set xs \<Longrightarrow> \<exists>y \<in> set ys. P x y"
  by (induction rule: list_all2_induct) auto

lemma list_all2_right: "list_all2 P xs ys \<Longrightarrow> y \<in> set ys \<Longrightarrow> \<exists>x \<in> set xs. P x y"
  by (induction rule: list_all2_induct) auto

lemma tombstone_write_Inr:
  assumes "tombstone_write cid fr p = Inr wr"
  shows "write_for wr p \<and> mi_id (fst wr) = fr_item_id fr \<and> mi_status (fst wr) = Archived"
  using assms
  by (auto simp: tombstone_write_def res_bind_Inr_iff write_for_def memory_item_post_init_Inr supersede_item_def)

lemma winner_write_Inr:
  assumes "winner_write cid fr src p = Inr wr"
  shows "write_for wr p \<and> mi_id (fst wr) = fr_item_id fr \<and> mi_status (fst wr) = Active
    \<and> mi_text (fst wr) = mi_text src"
  using assms
  by (auto simp: winner_write_def res_bind_Inr_iff write_for_def memory_item_post_init_Inr supersede_item_def)

lemma tombstone_writes_Inr:
  assumes "tombstone_writes cid fr k ps = Inr ws"
  shows "list_all2 write_for ws ps \<and> map (\<lambda>wr. mi_id (fst wr)) ws = map (\<lambda>j. fr_item_id (fr j)) [k..<k + length ps]
    \<and> (\<forall>wr \<in> set ws. mi_status (fst wr) = Archived)"
  using assms
proof (induction ps arbitrary: k ws)
  case (Cons p ps)
  then obtain wr rest where w: "tombstone_write cid (fr k) p = Inr wr"
    "tombstone_writes cid fr (k + 1) ps = Inr rest" "ws = wr # rest"
    by (auto simp: res_bind_Inr_iff)
  have "[k..<k + length (p # ps)] = k # [k + 1..<k + 1 + length ps]"
    by (simp add: upt_conv_Cons del: upt_Suc)
  with Cons.IH [OF w(2)] tombstone_write_Inr [OF w(1)] w(3) show ?case by simp
qed simp

lemma resolution_writes_Inr:
  assumes "resolution_writes cid fr src winners losers = Inr (a, ws)"
  obtains ps where "list_all2 write_for ws ps" "mset ps = mset losers"
    "map (\<lambda>wr. mi_id (fst wr)) ws = map (\<lambda>j. fr_item_id (fr j)) [0..<length ws]"
    "(\<exists>m \<in> set winners. a = mi_id m)
      \<or> (\<exists>wr \<in> set ws. a = mi_id (fst wr) \<and> mi_status (fst wr) = Active \<and> mi_text (fst wr) = mi_text src)"
    "\<forall>wr \<in> set ws. mi_status (fst wr) = Archived \<or> mi_id (fst wr) = a"
proof (cases "newest_by_id winners")
  case (Some m)
  then have "m \<in> set winners" using max_by_Some [of _ winners m] by (auto simp: newest_by_id_def)
  moreover have t: "tombstone_writes cid fr 0 losers = Inr ws" and "a = mi_id m"
    using assms Some by (auto simp: resolution_writes_def res_bind_Inr_iff)
  moreover have "length ws = length losers"
    using tombstone_writes_Inr [OF t] by (auto dest: list_all2_lengthD)
  ultimately show thesis
    using tombstone_writes_Inr [OF t] by (intro that [of losers]) auto
next
  case None
  then obtain p wr rest where p: "newest_by_id losers = Some p"
    and wr: "winner_write cid (fr 0) src p = Inr wr"
    and rest: "tombstone_writes cid fr 1 (remove1 p losers) = Inr rest"
    and res: "a = mi_id (fst wr)" "ws = wr # rest"
    using assms by (auto simp: resolution_writes_def res_bind_Inr_iff split: option.splits)
  have "p \<in> set losers" using max_by_Some [of _ losers p] p by (auto simp: newest_by_id_def)
  note t = tombstone_writes_Inr [OF rest]
  have "length rest = length (remove1 p losers)" using t by (auto dest: list_all2_lengthD)
  moreover have "[0..<Suc n] = 0 # [1..<1 + n]" for n by (simp add: upt_conv_Cons del: upt_Suc)
  ultimately have "map (\<lambda>wr. mi_id (fst wr)) ws = map (\<lambda>j. fr_item_id (fr j)) [0..<length ws]"
    using t winner_write_Inr [OF wr] by (simp add: res(2) del: upt_Suc)
  then show thesis
    using t winner_write_Inr [OF wr] res \<open>p \<in> set losers\<close>
    by (intro that [of "p # remove1 p losers"]) auto
qed

section \<open>The ledger after the writes\<close>

lemma apply_writes_old:
  "\<forall>wr \<in> set ws. mi_id (fst wr) \<noteq> i \<Longrightarrow> dict_get (st_items (apply_writes ws s)) i = dict_get (st_items s) i"
  by (induction ws s rule: apply_writes.induct) auto

lemma apply_writes_new:
  "distinct (map (\<lambda>wr. mi_id (fst wr)) ws) \<Longrightarrow> wr \<in> set ws \<Longrightarrow>
    dict_get (st_items (apply_writes ws s)) (mi_id (fst wr)) = Some (fst wr)"
proof (induction ws s rule: apply_writes.induct)
  case (2 item event x ws s)
  show ?case
  proof (cases "wr \<in> set ws")
    case False
    with 2 have "wr = (item, event, x)" by simp
    then show ?thesis
      using "2.prems"(1) apply_writes_old [of ws "mi_id item"
          "s\<lparr>st_items := dict_set (mi_id item) item (st_items s), st_events := st_events s @ [event]\<rparr>"]
      by (force simp: image_iff)
  qed (use 2 in simp)
qed simp

lemma apply_writes_rows:
  "dict_get (st_items (apply_writes ws s)) i = Some c \<Longrightarrow>
    dict_get (st_items s) i = Some c \<or> (\<exists>wr \<in> set ws. c = fst wr)"
  by (induction ws s rule: apply_writes.induct) (auto split: if_splits)

lemma is_recallable_iff:
  assumes "items_ok s"
  shows "is_recallable_head t i s \<longleftrightarrow> (\<exists>m. get_item t i s = Some m \<and> mi_status m \<notin> {Rejected, Archived})
    \<and> (\<forall>j c. dict_get (st_items s) j = Some c \<longrightarrow> mi_tenant_id c = t \<longrightarrow> mi_supersedes_id c \<noteq> Some i)"
proof -
  have "list_ex (\<lambda>c. mi_tenant_id c = t \<and> mi_supersedes_id c = Some i) (dict_values (st_items s))
      \<longleftrightarrow> (\<exists>j c. dict_get (st_items s) j = Some c \<and> mi_tenant_id c = t \<and> mi_supersedes_id c = Some i)"
    unfolding list_ex_iff using items_row_iff [OF assms] items_row_id [OF assms] by metis
  then show ?thesis by (auto simp: is_recallable_head_def split: option.splits)
qed

lemma resolution_recallable:
  assumes ok: "ledger_ok s" "ledger_ok (apply_writes ws s)"
    and ws: "list_all2 write_for ws ps" "distinct (map (\<lambda>wr. mi_id (fst wr)) ws)"
    and fresh: "\<forall>wr \<in> set ws. dict_get (st_items s) (mi_id (fst wr)) = None"
    and ps: "\<forall>p \<in> set ps. get_item t (mi_id p) s = Some p"
  shows "p \<in> set ps \<Longrightarrow> \<not> is_recallable_head t (mi_id p) (apply_writes ws s)"
    and "is_recallable_head t i s \<Longrightarrow> i \<notin> mi_id ` set ps \<Longrightarrow> is_recallable_head t i (apply_writes ws s)"
    and "wr \<in> set ws \<Longrightarrow> mi_status (fst wr) = Active \<Longrightarrow>
      is_recallable_head t (mi_id (fst wr)) (apply_writes ws s)"
proof -
  let ?s = "apply_writes ws s"
  have ok1: "items_ok s" "items_ok ?s" using ok by (simp_all add: ledger_ok_def)
  have parent: "\<exists>p \<in> set ps. write_for wr p" if "wr \<in> set ws" for wr
    using list_all2_left [OF ws(1) that] .
  have child: "\<exists>wr \<in> set ws. write_for wr p" if "p \<in> set ps" for p
    using list_all2_right [OF ws(1) that] .
  have tenant: "mi_tenant_id p = t" if "p \<in> set ps" for p
    using ps that by (auto simp: get_item_Some)
  show "\<not> is_recallable_head t (mi_id p) ?s" if p: "p \<in> set ps"
  proof -
    obtain wr where wr: "wr \<in> set ws" "write_for wr p" using child [OF p] by blast
    then show ?thesis
      using apply_writes_new [OF ws(2) wr(1), of s] tenant [OF p]
      unfolding is_recallable_iff [OF ok1(2)] write_for_def by blast
  qed
  show "is_recallable_head t i ?s" if i: "is_recallable_head t i s" "i \<notin> mi_id ` set ps"
  proof -
    obtain m where m: "get_item t i s = Some m" "mi_status m \<notin> {Rejected, Archived}"
      and none: "\<forall>j c. dict_get (st_items s) j = Some c \<longrightarrow> mi_tenant_id c = t \<longrightarrow> mi_supersedes_id c \<noteq> Some i"
      using i(1) unfolding is_recallable_iff [OF ok1(1)] by blast
    have "\<forall>wr \<in> set ws. mi_id (fst wr) \<noteq> i" using fresh m(1) by (force simp: get_item_Some)
    then have "get_item t i ?s = Some m" using m(1) by (simp add: get_item_Some apply_writes_old)
    moreover have "mi_supersedes_id c \<noteq> Some i" if c: "dict_get (st_items ?s) j = Some c" "mi_tenant_id c = t" for j c
      using apply_writes_rows [OF c(1)]
    proof
      assume "\<exists>wr \<in> set ws. c = fst wr"
      then show ?thesis using parent i(2) by (force simp: write_for_def)
    qed (use none c(2) in blast)
    ultimately show ?thesis using m(2) unfolding is_recallable_iff [OF ok1(2)] by blast
  qed
  show "is_recallable_head t (mi_id (fst wr)) ?s" if wr: "wr \<in> set ws" "mi_status (fst wr) = Active"
  proof -
    have new: "dict_get (st_items s) (mi_id (fst wr)) = None" using fresh wr(1) by blast
    have "mi_tenant_id (fst wr) = t" using parent [OF wr(1)] tenant by (auto simp: write_for_def)
    then have "get_item t (mi_id (fst wr)) ?s = Some (fst wr)"
      using apply_writes_new [OF ws(2) wr(1)] by (simp add: get_item_Some)
    moreover have "mi_supersedes_id c \<noteq> Some (mi_id (fst wr))" if c: "dict_get (st_items ?s) j = Some c" for j c
      using apply_writes_rows [OF c]
    proof
      assume "dict_get (st_items s) j = Some c"
      then show ?thesis
        using ok(1) new unfolding ledger_ok_def by (metis lineage_parent option.distinct(1))
    next
      assume "\<exists>wr \<in> set ws. c = fst wr"
      then obtain p where "p \<in> set ps" "mi_supersedes_id c = Some (mi_id p)"
        using parent unfolding write_for_def by blast
      then show ?thesis using ps new by (auto simp: get_item_Some)
    qed
    ultimately show ?thesis using wr(2) unfolding is_recallable_iff [OF ok1(2)] by auto
  qed
qed

lemma recallable_before:
  assumes "items_ok s" and "items_ok (apply_writes ws s)"
    and "\<forall>wr \<in> set ws. dict_get (st_items s) (mi_id (fst wr)) = None"
    and "get_item t i s = Some m" and "is_recallable_head t i (apply_writes ws s)"
  shows "is_recallable_head t i s"
proof -
  have keep: "dict_get (st_items (apply_writes ws s)) j = Some c" if "dict_get (st_items s) j = Some c" for j c
    using that assms(3) by (subst apply_writes_old) auto
  then have "get_item t i (apply_writes ws s) = Some m" using assms(4) by (simp add: get_item_Some)
  then show ?thesis
    using assms(5) keep unfolding is_recallable_iff [OF assms(1)] is_recallable_iff [OF assms(2)]
    using assms(4) by auto
qed

lemma is_recallable_cong: "st_items s' = st_items s \<Longrightarrow> is_recallable_head t i s' = is_recallable_head t i s"
  by (auto simp: is_recallable_head_def get_item_def split: option.splits)

section \<open>A resolution leaves one value recallable\<close>

lemma concat_map_unique:
  "distinct (concat (map f xs)) \<Longrightarrow> x \<in> set xs \<Longrightarrow> y \<in> set xs \<Longrightarrow> i \<in> set (f x) \<Longrightarrow> i \<in> set (f y) \<Longrightarrow> x = y"
  by (induction xs) auto

lemma concat_map_filter:
  "distinct (concat (map f xs)) \<Longrightarrow> distinct (concat (map f (filter P xs)))
    \<and> length (concat (map f (filter P xs))) \<le> length (concat (map f xs))"
  by (induction xs) auto

lemma evidence_items_get:
  "dict_get (evidence_items t s ids) i = (if i \<in> set ids then get_item t i s else None)"
proof -
  have "dict_get (foldl (\<lambda>m i. case get_item t i s of None \<Rightarrow> m | Some item \<Rightarrow> dict_set i item m) d ids) i
      = (if i \<in> set ids \<and> get_item t i s \<noteq> None then get_item t i s else dict_get d i)" for d
    by (induction ids arbitrary: d) (auto split: option.splits)
  from this [of "[]"] show ?thesis by (auto simp: evidence_items_def)
qed

lemma evidence_index:
  assumes "items_ok s" and "res_map (dict_index (evidence_items t s ids)) js = Inr ms"
  shows "map mi_id ms = js \<and> (\<forall>m \<in> set ms. get_item t (mi_id m) s = Some m)"
  using assms(2)
proof (induction js arbitrary: ms)
  case (Cons j js)
  then obtain m rest where m: "dict_index (evidence_items t s ids) j = Inr m" "ms = m # rest"
    "res_map (dict_index (evidence_items t s ids)) js = Inr rest"
    by (auto simp: res_bind_Inr_iff split: sum.splits)
  then have "get_item t j s = Some m"
    by (auto simp: dict_index_def evidence_items_get split: option.splits if_splits)
  moreover from this have "mi_id m = j" using items_row_id [OF assms(1)] by (auto simp: get_item_Some)
  ultimately show ?case using Cons.IH [OF m(3)] m(2) by simp
qed simp

definition undecided :: "conflict_case \<Rightarrow> store \<Rightarrow> bool" where
  "undecided c s \<longleftrightarrow> (\<forall>r. cf_review c = Some r
      \<or> dict_get (st_conflict_reviews s) (cf_tenant_id c, cf_id c) = Some r \<longrightarrow> cd_applied_memory_id r = None)"

abbreviation evidence_of :: "conflict_case \<Rightarrow> uuid list" where
  "evidence_of c \<equiv> concat (map cc_evidence_ids (cf_candidates c))"

abbreviation losing_ids :: "str \<Rightarrow> conflict_case \<Rightarrow> uuid list" where
  "losing_ids v c \<equiv> concat (map cc_evidence_ids (filter (\<lambda>k. cc_value k \<noteq> v) (cf_candidates c)))"

abbreviation recallable_ids :: "uuid \<Rightarrow> store \<Rightarrow> conflict_case \<Rightarrow> uuid set" where
  "recallable_ids t s c \<equiv> filter_recallable_heads t (map fst (evidence_items t s (evidence_of c))) s"

text \<open>Identities for the writes of a case that the ledger does not use yet.\<close>

definition fresh_writes :: "(nat \<Rightarrow> fresh) \<Rightarrow> store \<Rightarrow> conflict_case \<Rightarrow> bool" where
  "fresh_writes fr s c \<longleftrightarrow> (\<forall>j \<le> length (evidence_of c). dict_get (st_items s) (fr_item_id (fr j)) = None)
     \<and> inj_on (\<lambda>j. fr_item_id (fr j)) {..length (evidence_of c)}"

text \<open>What an attempt to apply a winner writes: one revision for every parent, all of them new and unrelated.\<close>

definition batch_ok :: "store \<Rightarrow> resolution_write list \<Rightarrow> bool" where
  "batch_ok s ws \<longleftrightarrow> distinct (map (\<lambda>wr. mi_id (fst wr)) ws) \<and> distinct (map (\<lambda>wr. mi_supersedes_id (fst wr)) ws)
     \<and> (\<forall>wr \<in> set ws. dict_get (st_items s) (mi_id (fst wr)) = None \<and> mi_revision (fst wr) = snd (snd wr) + 1)"

lemma recallable_ids_iff:
  "i \<in> recallable_ids t s c \<longleftrightarrow> i \<in> set (evidence_of c) \<and> is_recallable_head t i s"
proof -
  have "i \<in> fst ` set (evidence_items t s (evidence_of c)) \<longleftrightarrow> i \<in> set (evidence_of c) \<and> get_item t i s \<noteq> None"
    using evidence_items_get [of t s "evidence_of c" i] map_of_eq_None_iff [of "evidence_items t s (evidence_of c)" i]
    by (metis option.distinct(1))
  then show ?thesis
    by (auto simp: filter_recallable_heads_def is_recallable_head_def split: option.splits)
qed

lemma apply_winner_attempt:
  assumes "items_ok s" and "case_ok t w s c" and "fresh_writes fr s c"
    and "apply_winner fr c d v audit s = (r, s1)"
  obtains (refused) e where "r = Inl e" "s1 = s"
  | (attempt) k wi lh src a ws ps where "k \<in> set (cf_candidates c)" "cc_value k = v"
      "map mi_id wi = cc_evidence_ids k" "\<forall>m \<in> set wi. get_item t (mi_id m) s = Some m" "src \<in> set wi"
      "map mi_id lh = filter (\<lambda>i. i \<in> recallable_ids t s c) (losing_ids v c)"
      "\<forall>m \<in> set lh. get_item t (mi_id m) s = Some m"
      "list_all2 write_for ws ps" "set ps = set lh" "batch_ok s ws"
      "(\<exists>m \<in> set wi. mi_id m \<in> recallable_ids t s c \<and> a = mi_id m)
        \<or> (\<exists>wr \<in> set ws. a = mi_id (fst wr) \<and> mi_status (fst wr) = Active \<and> mi_text (fst wr) = mi_text src)"
      "apply_conflict_resolution (d\<lparr>cd_applied_memory_id := Some a\<rparr>) ws audit s = (r, s1)"
      "\<forall>wr \<in> set ws. mi_status (fst wr) = Archived \<or> mi_id (fst wr) = a"
proof (cases "apply_winner fr c d v audit s = (r, s) \<and> isl r")
  case True
  with assms(4) show thesis by (intro refused [of "projl r"]) auto
next
  case False
  note case_ok = assms(2) [unfolded case_ok_def]
  let ?ids = "evidence_of c" and ?losing = "losing_ids v c" and ?rec = "recallable_ids t s c"
  obtain k wi lh src a ws where
    k: "find (\<lambda>k. cc_value k = v) (rev (cf_candidates c)) = Some k"
    and wi: "res_map (dict_index (evidence_items t s ?ids)) (cc_evidence_ids k) = Inr wi"
    and lh: "res_map (dict_index (evidence_items t s ?ids)) (filter (\<lambda>i. i \<in> ?rec) ?losing) = Inr lh"
    and src: "newest_by_id wi = Some src"
    and writes: "resolution_writes (cf_id c) fr src (filter (\<lambda>item. mi_id item \<in> ?rec) wi) lh = Inr (a, ws)"
    and applied: "apply_conflict_resolution (d\<lparr>cd_applied_memory_id := Some a\<rparr>) ws audit s = (r, s1)"
    using case_ok assms(4) False
    by (auto simp: apply_winner_def Let_def res_bind_Inr_iff split: option.splits if_splits sum.splits)
  have kc: "k \<in> set (cf_candidates c)" "cc_value k = v" using find_SomeD [OF k] by auto
  note wi' = evidence_index [OF assms(1) wi] and lh' = evidence_index [OF assms(1) lh]
  have srcw: "src \<in> set wi" using max_by_Some [OF src [unfolded newest_by_id_def]] by simp
  obtain ps where ps: "list_all2 write_for ws ps" "mset ps = mset lh"
      "map (\<lambda>wr. mi_id (fst wr)) ws = map (\<lambda>j. fr_item_id (fr j)) [0..<length ws]"
    and a: "(\<exists>m \<in> set (filter (\<lambda>item. mi_id item \<in> ?rec) wi). a = mi_id m)
      \<or> (\<exists>wr \<in> set ws. a = mi_id (fst wr) \<and> mi_status (fst wr) = Active \<and> mi_text (fst wr) = mi_text src)"
    and arch: "\<forall>wr \<in> set ws. mi_status (fst wr) = Archived \<or> mi_id (fst wr) = a"
    using resolution_writes_Inr [OF writes] by blast
  have lids: "map mi_id lh = filter (\<lambda>i. i \<in> ?rec) ?losing" using lh' by blast
  have dl: "distinct ?losing" "length ?losing \<le> length ?ids"
    using concat_map_filter [of cc_evidence_ids "cf_candidates c"] case_ok by blast+
  have len: "length ws \<le> length ?ids"
  proof -
    have "length ws = length lh" using ps(1,2) by (metis list_all2_lengthD size_mset)
    also have "length lh = length (filter (\<lambda>i. i \<in> ?rec) ?losing)" using arg_cong [OF lids, of length] by simp
    finally show ?thesis using dl(2) length_filter_le [of "\<lambda>i. i \<in> ?rec" ?losing] by linarith
  qed
  have batch: "batch_ok s ws"
    unfolding batch_ok_def
  proof (intro conjI ballI)
    show "distinct (map (\<lambda>wr. mi_id (fst wr)) ws)"
    proof -
      have "inj_on (\<lambda>j. fr_item_id (fr j)) {..length ?ids}" using assms(3) by (simp add: fresh_writes_def)
      then have "inj_on (\<lambda>j. fr_item_id (fr j)) (set [0..<length ws])" by (rule inj_on_subset) (use len in auto)
      then show ?thesis unfolding ps(3) by (simp add: distinct_map)
    qed
    have "distinct (map mi_id lh)" unfolding lids using dl(1) by (rule distinct_filter)
    then have "distinct (map mi_id ps)" using ps(2) by (metis mset_eq_imp_distinct_iff mset_map)
    moreover have "map (\<lambda>wr. mi_supersedes_id (fst wr)) ws = map (\<lambda>p. Some (mi_id p)) ps"
      using ps(1) by (induction rule: list_all2_induct) (auto simp: write_for_def)
    ultimately show "distinct (map (\<lambda>wr. mi_supersedes_id (fst wr)) ws)" by (simp add: distinct_map inj_on_def)
    fix wr assume wr: "wr \<in> set ws"
    then have "mi_id (fst wr) \<in> set (map (\<lambda>wr. mi_id (fst wr)) ws)" by simp
    then show "dict_get (st_items s) (mi_id (fst wr)) = None"
      unfolding ps(3) using assms(3) len by (auto simp: fresh_writes_def)
    show "mi_revision (fst wr) = snd (snd wr) + 1" using list_all2_left [OF ps(1) wr] by (auto simp: write_for_def)
  qed
  have sets: "set ps = set lh" using ps(2) by (rule mset_eq_setD)
  have a': "(\<exists>m \<in> set wi. mi_id m \<in> ?rec \<and> a = mi_id m)
        \<or> (\<exists>wr \<in> set ws. a = mi_id (fst wr) \<and> mi_status (fst wr) = Active \<and> mi_text (fst wr) = mi_text src)"
    using a by auto
  show thesis
    by (rule attempt [OF kc _ _ srcw lids _ ps(1) sets batch a' applied arch]) (use wi' lh' in blast)+
qed

text \<open>The ledger grows and stays well formed, whatever the attempt answers.\<close>

lemma batch_ledger:
  assumes "ledger_ok s" and "batch_ok s ws" and "apply_conflict_resolution d ws audit s = (r, s1)"
  shows "ledger_ok s1 \<and> (\<forall>i x. dict_get (st_items s) i = Some x \<longrightarrow> dict_get (st_items s1) i = Some x)"
proof -
  have "ledger_ok (snd (apply_conflict_resolution d ws audit s))"
    using assms(2) by (intro apply_resolution_ledger [OF assms(1)]) (auto simp: batch_ok_def)
  moreover have "dict_get (st_items s1) i = Some x" if "dict_get (st_items s) i = Some x" for i x
    using assms(3)
  proof (cases rule: apply_conflict_resolution_cases)
    case (applied us)
    have "\<forall>wr \<in> set ws. mi_id (fst wr) \<noteq> i" using that assms(2) by (auto simp: batch_ok_def)
    then show ?thesis using that apply_writes_old [of ws i s] by (simp add: applied(4))
  qed (use that in simp_all)
  ultimately show ?thesis using assms(3) by simp
qed

text \<open>Every decision keeps the ledger and touches nothing else but the reviews, the events and the trail.\<close>

lemma apply_resolution_frame:
  assumes "apply_conflict_resolution d ws audit s = (r, s1)"
  shows "st_proposals s1 = st_proposals s \<and> st_proposal_idempotency s1 = st_proposal_idempotency s
    \<and> st_turns s1 = st_turns s \<and> st_turn_idempotency s1 = st_turn_idempotency s
    \<and> st_edges s1 = st_edges s \<and> st_observations s1 = st_observations s"
proof -
  have "st_proposals (apply_writes ws s) = st_proposals s" "st_proposal_idempotency (apply_writes ws s) = st_proposal_idempotency s"
    "st_turns (apply_writes ws s) = st_turns s" "st_turn_idempotency (apply_writes ws s) = st_turn_idempotency s"
    "st_edges (apply_writes ws s) = st_edges s" "st_observations (apply_writes ws s) = st_observations s" for s
    by (induction ws s rule: apply_writes.induct) simp_all
  note frame = this
  from assms show ?thesis by (cases rule: apply_conflict_resolution_cases) (simp_all add: frame)
qed

lemma decide_cases:
  assumes "ledger_ok s" and "\<forall>c \<in> set (list_cases uuid5 t w True s). fresh_writes fr s c"
    and "decide uuid5 fr now t w cid status v reason audit s = (r, s1)"
  obtains (unchanged) "s1 = s"
  | (noted) d where "s1 = snd (save_conflict_review d audit s)"
  | (applied) d ws where "apply_conflict_resolution d ws audit s = (r, s1)" "batch_ok s ws"
proof -
  have ok: "items_ok s" using assms(1) by (simp add: ledger_ok_def)
  consider "s1 = s" | c where "c \<in> set (list_cases uuid5 t w True s)"
      "decide_open fr c now t w cid status v reason audit s = (r, s1)"
    using assms(3) find_SomeD by (fastforce simp: decide_def split: if_splits option.splits)
  then show thesis
  proof cases
    case (2 c)
    let ?d = "\<lparr>cd_tenant_id = t, cd_workspace_id = w, cd_case_id = cid, cd_status = status, cd_winner_value = v,
        cd_reason = reason, cd_applied_memory_id = None, cd_updated_at = now\<rparr>"
    show thesis
    proof (cases "status \<in> {Accepted, Overridden}")
      case True
      then have "apply_winner fr c ?d (strip (case v of None \<Rightarrow> [] | Some v \<Rightarrow> v)) audit s = (r, s1)"
        using 2(2) by (simp add: decide_open_def Let_def)
      from ok list_cases_ok [OF ok 2(1)] bspec [OF assms(2) 2(1)] this show thesis
        by (cases rule: apply_winner_attempt) (auto intro: unchanged applied)
    next
      case False
      then show thesis using 2(2) by (intro noted [of ?d]) (auto simp: decide_open_def Let_def split: prod.splits)
    qed
  qed (rule unchanged)
qed

lemma decide_ledger:
  assumes "ledger_ok s" and "\<forall>c \<in> set (list_cases uuid5 t w True s). fresh_writes fr s c"
    and "decide uuid5 fr now t w cid status v reason audit s = (r, s1)"
  shows "ledger_ok s1 \<and> (\<forall>i x. dict_get (st_items s) i = Some x \<longrightarrow> dict_get (st_items s1) i = Some x)
    \<and> st_proposals s1 = st_proposals s \<and> st_proposal_idempotency s1 = st_proposal_idempotency s
    \<and> st_turns s1 = st_turns s \<and> st_turn_idempotency s1 = st_turn_idempotency s
    \<and> st_edges s1 = st_edges s \<and> st_observations s1 = st_observations s"
  using assms
proof (cases rule: decide_cases)
  case (noted d)
  then show ?thesis using assms(1) by (simp add: save_conflict_review_def Let_def ledger_ok_def items_ok_def)
next
  case (applied d ws)
  then show ?thesis using batch_ledger [OF assms(1) applied(2,1)] apply_resolution_frame [OF applied(1)] by simp
qed (use assms(1) in simp)

text \<open>
  C16: A conflict resolution leaves one value recallable. When an undecided case is accepted or
  overridden for a winner, the ledger stays unforked and every stored memory is kept as it was; no
  memory stated for a losing value is recallable any more; the applied memory of the decision is
  recallable and states the text of a memory of the winning value; and every row the resolution adds,
  other than that one, supersedes a memory of a losing value, is archived and not recallable.
\<close>

theorem resolution_leaves_one_value:
  assumes "ledger_ok s"
    and "find (\<lambda>c. cf_id c = cid) (list_cases uuid5 t w True s) = Some c" and "undecided c s"
    and "status \<in> {Accepted, Overridden}"
    and "fresh_writes fr s c"
    and "decide uuid5 fr now t w cid status (Some v) reason audit s = (Inr d, s1)"
  shows "ledger_ok s1
    \<and> (\<forall>k \<in> set (cf_candidates c). cc_value k \<noteq> strip v \<longrightarrow>
          (\<forall>i \<in> set (cc_evidence_ids k). \<not> is_recallable_head t i s1))
    \<and> (\<exists>a m i e k. cd_applied_memory_id d = Some a \<and> is_recallable_head t a s1 \<and> get_item t a s1 = Some m
          \<and> k \<in> set (cf_candidates c) \<and> cc_value k = strip v \<and> i \<in> set (cc_evidence_ids k)
          \<and> get_item t i s = Some e \<and> mi_text m = mi_text e
          \<and> (\<forall>j x. dict_get (st_items s1) j = Some x \<longrightarrow> dict_get (st_items s) j = None \<longrightarrow>
              (\<exists>k p. k \<in> set (cf_candidates c) \<and> cc_value k \<noteq> strip v \<and> p \<in> set (cc_evidence_ids k)
                 \<and> mi_supersedes_id x = Some p)
              \<and> (j = a \<or> mi_status x = Archived \<and> \<not> is_recallable_head t j s1)))
    \<and> (\<forall>i x. dict_get (st_items s) i = Some x \<longrightarrow> dict_get (st_items s1) i = Some x)"
proof -
  have ok: "items_ok s" using assms(1) by (simp add: ledger_ok_def)
  have c: "c \<in> set (list_cases uuid5 t w True s)" "cf_id c = cid" using find_SomeD [OF assms(2)] by auto
  have co: "case_ok t w s c" using list_cases_ok [OF ok c(1)] .
  note case_ok = co [unfolded case_ok_def]
  let ?d = "\<lparr>cd_tenant_id = t, cd_workspace_id = w, cd_case_id = cid, cd_status = status,
      cd_winner_value = Some v, cd_reason = reason, cd_applied_memory_id = None, cd_updated_at = now\<rparr>"
  let ?rec = "recallable_ids t s c"
  have "apply_winner fr c ?d (strip v) audit s = (Inr d, s1)"
    using assms(2-4,6) by (auto simp: decide_def decide_open_def undecided_def split: option.splits if_splits)
  from ok co assms(5) this obtain k wi lh src a ws ps where
    kc: "k \<in> set (cf_candidates c)" "cc_value k = strip v"
    and wi': "map mi_id wi = cc_evidence_ids k \<and> (\<forall>m \<in> set wi. get_item t (mi_id m) s = Some m)"
    and srcw: "src \<in> set wi"
    and lids: "map mi_id lh = filter (\<lambda>i. i \<in> ?rec) (losing_ids (strip v) c)"
    and lh': "\<forall>m \<in> set lh. get_item t (mi_id m) s = Some m"
    and ps: "list_all2 write_for ws ps" and sets: "set ps = set lh" and batch: "batch_ok s ws"
    and a: "(\<exists>m \<in> set wi. mi_id m \<in> ?rec \<and> a = mi_id m)
        \<or> (\<exists>wr \<in> set ws. a = mi_id (fst wr) \<and> mi_status (fst wr) = Active \<and> mi_text (fst wr) = mi_text src)"
    and applied: "apply_conflict_resolution (?d\<lparr>cd_applied_memory_id := Some a\<rparr>) ws audit s = (Inr d, s1)"
    and arch: "\<forall>wr \<in> set ws. mi_status (fst wr) = Archived \<or> mi_id (fst wr) = a"
    by (cases rule: apply_winner_attempt) auto
  note rec = recallable_ids_iff [of _ t s c]
  have dids: "distinct (map (\<lambda>wr. mi_id (fst wr)) ws)"
    and fresh: "\<forall>wr \<in> set ws. dict_get (st_items s) (mi_id (fst wr)) = None" using batch by (auto simp: batch_ok_def)
  have ledger: "ledger_ok s1" and keep: "\<And>i x. dict_get (st_items s) i = Some x \<Longrightarrow> dict_get (st_items s1) i = Some x"
    using batch_ledger [OF assms(1) batch applied] by blast+
  have s1: "st_items s1 = st_items (apply_writes ws s)" "st_idempotency s1 = st_idempotency (apply_writes ws s)"
      "d = ?d\<lparr>cd_applied_memory_id := Some a\<rparr>"
    using applied
    by (cases rule: apply_conflict_resolution_cases; use assms(3) c(2) case_ok in \<open>force simp: undecided_def\<close>)+
  have ledger': "ledger_ok (apply_writes ws s)" using ledger ledger_ok_cong [OF s1(1,2)] by simp
  have got: "\<forall>p \<in> set ps. get_item t (mi_id p) s = Some p" using lh' sets by simp
  note res = resolution_recallable [OF assms(1) ledger' ps dids fresh got]
  have items': "items_ok (apply_writes ws s)" using ledger' by (simp add: ledger_ok_def)
  have lose: "\<not> is_recallable_head t i s1"
    if k': "k' \<in> set (cf_candidates c)" "cc_value k' \<noteq> strip v" "i \<in> set (cc_evidence_ids k')" for k' i
  proof (cases "i \<in> ?rec")
    case True
    have "i \<in> set (map mi_id lh)" unfolding lids using True k' by auto
    then obtain p where "p \<in> set ps" "mi_id p = i" using sets by auto
    then show ?thesis using res(1) is_recallable_cong [OF s1(1)] by blast
  next
    case False
    then have "\<not> is_recallable_head t i s" using rec k' by auto
    moreover obtain m where "get_item t i s = Some m" using case_ok k' by blast
    ultimately show ?thesis
      using recallable_before [OF ok items' fresh] is_recallable_cong [OF s1(1)] by blast
  qed
  have ids: "mi_id m \<in> set (cc_evidence_ids k)" if "m \<in> set wi" for m
    using wi' that by (metis image_eqI list.set_map)
  from a have "\<exists>m e. is_recallable_head t a s1 \<and> get_item t a s1 = Some m \<and> e \<in> set wi \<and> mi_text m = mi_text e"
  proof
    assume "\<exists>m \<in> set wi. mi_id m \<in> ?rec \<and> a = mi_id m"
    then obtain m where m: "m \<in> set wi" "mi_id m \<in> ?rec" "a = mi_id m" by auto
    have "mi_id m \<notin> mi_id ` set ps"
    proof
      assume "mi_id m \<in> mi_id ` set ps"
      then have "mi_id m \<in> set (map mi_id lh)" using sets by simp
      then obtain k' where "k' \<in> set (cf_candidates c)" "cc_value k' \<noteq> strip v" "mi_id m \<in> set (cc_evidence_ids k')"
        unfolding lids by auto
      with kc ids [OF m(1)] case_ok concat_map_unique [of cc_evidence_ids "cf_candidates c" k k'] show False by blast
    qed
    then have "is_recallable_head t a s1"
      using res(2) m rec is_recallable_cong [OF s1(1)] by blast
    moreover have "get_item t a s1 = Some m" using keep wi' m by (simp add: get_item_Some)
    ultimately show ?thesis using m(1) by blast
  next
    assume "\<exists>wr \<in> set ws. a = mi_id (fst wr) \<and> mi_status (fst wr) = Active \<and> mi_text (fst wr) = mi_text src"
    then obtain wr where wr: "wr \<in> set ws" "a = mi_id (fst wr)" "mi_status (fst wr) = Active"
      "mi_text (fst wr) = mi_text src" by blast
    obtain p where "p \<in> set ps" "write_for wr p" using list_all2_left [OF ps wr(1)] by blast
    then have "mi_tenant_id (fst wr) = t" using got by (auto simp: write_for_def get_item_Some)
    then have "get_item t a s1 = Some (fst wr)"
      using apply_writes_new [OF dids wr(1), of s] wr(2) s1(1) by (simp add: get_item_Some)
    moreover have "is_recallable_head t a s1"
      using res(3) [OF wr(1,3)] wr(2) is_recallable_cong [OF s1(1)] by blast
    ultimately show ?thesis using wr(4) srcw by blast
  qed
  then obtain m e where me: "is_recallable_head t a s1" "get_item t a s1 = Some m" "e \<in> set wi" "mi_text m = mi_text e"
    by blast
  have "get_item t (mi_id e) s = Some e" "cd_applied_memory_id d = Some a" using wi' me(3) s1(3) by simp_all
  moreover have "(\<exists>k p. k \<in> set (cf_candidates c) \<and> cc_value k \<noteq> strip v \<and> p \<in> set (cc_evidence_ids k)
        \<and> mi_supersedes_id x = Some p)
      \<and> (j = a \<or> mi_status x = Archived \<and> \<not> is_recallable_head t j s1)"
    if x: "dict_get (st_items s1) j = Some x" "dict_get (st_items s) j = None" for j x
  proof -
    obtain wr where wr: "wr \<in> set ws" "x = fst wr"
      using apply_writes_rows [of ws s j x] x by (auto simp: s1(1))
    obtain p where p: "p \<in> set ps" "write_for wr p" using list_all2_left [OF ps wr(1)] by blast
    have "mi_id p \<in> set (map mi_id lh)" using p(1) sets by simp
    then have "mi_id p \<in> set (losing_ids (strip v) c)" unfolding lids by simp
    moreover have "j = mi_id x" using x(1) ledger items_row_id by (fastforce simp: ledger_ok_def)
    ultimately show ?thesis
      using p(2) arch wr x(1) by (auto simp: write_for_def is_recallable_head_def get_item_def)
  qed
  ultimately show ?thesis using me ids [OF me(3)] kc ledger lose keep by blast
qed

definition conflict_store :: store where
  "conflict_store = snd (retain (sample_item 2 7 8 (lit ''Ann likes milk'')) (sample_event 22 7 8) None None
     (snd (retain (sample_item 1 7 8 (lit ''Ann likes tea'')) (sample_event 21 7 8) None None empty_store)))"

abbreviation sample_decide :: "store \<Rightarrow> conflict_review_decision res \<times> store" where
  "sample_decide s \<equiv> decide (\<lambda>_. 70) (\<lambda>j. sample_fresh (of_nat j + 30) 40) 5 7 8 70 Accepted
     (Some (lit ''tea'')) (lit ''checked'') None s"

lemma conflict_store_ok: "ledger_ok conflict_store"
  unfolding conflict_store_def
  by (intro ledger_ok_retain empty_ledger_ok) (code_simp | simp add: sample_item_def)+

theorem resolution_leaves_one_value_witness:
  "ledger_ok (snd (sample_decide conflict_store)) \<and> \<not> is_recallable_head 7 2 (snd (sample_decide conflict_store))"
proof -
  let ?cs = "list_cases (\<lambda>_. 70) 7 8 True conflict_store"
  have "map (\<lambda>c. (cf_id c, cf_review c, map (\<lambda>k. (cc_value k, cc_evidence_ids k)) (cf_candidates c))) ?cs
      = [(70, None, [(lit ''milk'', [2]), (lit ''tea'', [1])])]" by code_simp
  then obtain c where cs: "?cs = [c]" and c: "cf_id c = 70" "cf_review c = None"
    and cand: "map (\<lambda>k. (cc_value k, cc_evidence_ids k)) (cf_candidates c) = [(lit ''milk'', [2]), (lit ''tea'', [1])]"
    by auto
  obtain k k' where k: "cf_candidates c = [k, k']" "cc_value k = lit ''milk''" "cc_evidence_ids k = [2]"
      "cc_evidence_ids k' = [1]" using cand by auto
  have find: "find (\<lambda>c. cf_id c = 70) ?cs = Some c" by (simp add: cs c)
  have "st_conflict_reviews conflict_store = []" by code_simp
  then have und: "undecided c conflict_store" using c by (simp add: undecided_def)
  have items: "map fst (st_items conflict_store) = [1, 2]" by code_simp
  have i: "fr_item_id (sample_fresh (of_nat j + 30) 40) = of_nat j + 30" for j by (simp add: sample_fresh_def)
  have "isl (fst (sample_decide conflict_store)) = False" by code_simp
  then obtain d where d: "sample_decide conflict_store = (Inr d, snd (sample_decide conflict_store))"
    by (cases "sample_decide conflict_store"; cases "fst (sample_decide conflict_store)") auto
  have ne: "lit ''milk'' \<noteq> strip (lit ''tea'')" by code_simp
  have "dict_get (st_items conflict_store) (fr_item_id (sample_fresh (of_nat j + 30) 40)) = None"
    if "j \<le> 2" for j
  proof -
    have "j \<in> {0, 1, 2}" using that by auto
    then have "of_nat j + 30 \<notin> fst ` set (st_items conflict_store)"
      by (auto simp: set_map [symmetric] items simp del: set_map)
    then show ?thesis by (simp add: i map_of_eq_None_iff)
  qed
  moreover have "inj_on (\<lambda>j. fr_item_id (sample_fresh (of_nat j + 30) 40)) {..2}"
    by (auto simp: i inj_on_def atMost_Suc numeral_2_eq_2)
  ultimately have "fresh_writes (\<lambda>j. sample_fresh (of_nat j + 30) 40) conflict_store c"
    unfolding fresh_writes_def using k by (simp add: numeral_2_eq_2)
  from resolution_leaves_one_value [OF conflict_store_ok find und _ this d] ne k
  show ?thesis by simp
qed

end
