(* ===== verification/ProposalService.thy ===== *)
theory ProposalService
  imports PyValues Retention StoreProposals
begin

text \<open>
  The memory gateway (\<open>services/proposals.py\<close>): submission of a sanitized proposal, its optional
  classification by a language model, acceptance into durable memory, rejection, and the automatic
  acceptance policy. The model is a parameter: a function from the chat messages and the token limit
  to the value it returns, or the exception it raises.
\<close>

section \<open>Commands and results\<close>

type_synonym reasoner = "(str \<times> str) list \<Rightarrow> int \<Rightarrow> pyval res"

record submit_command =
  sp_tenant_id :: uuid
  sp_workspace_id :: uuid
  sp_namespace :: str
  sp_requester :: str
  sp_proposal :: str
  sp_evidence :: str
  sp_target :: memory_proposal_target
  sp_agent_id :: "uuid option"
  sp_thread_id :: "uuid option"
  sp_confidence :: real
  sp_importance :: real
  sp_metadata :: metadata
  sp_idempotency_key :: "str option"

record submit_result =
  sr_proposal :: memory_proposal
  sr_created :: bool

record review_command =
  rv_tenant_id :: uuid
  rv_proposal_id :: uuid
  rv_reviewer :: str
  rv_reason :: str
  rv_layer :: "memory_layer option"
  rv_kind :: "str option"
  rv_labels :: "str list"
  rv_idempotency_key :: "str option"

record review_result =
  rw_proposal :: memory_proposal
  rw_retained :: "retain_result option"

section \<open>Privacy metadata\<close>

definition str_set :: "runtime \<Rightarrow> pyval list \<Rightarrow> str list res" where
  "str_set rt vs = (if list_all is_str vs then Inr (sort (remdups (map the_str vs)))
     else Inl (TypeError (lit ''unhashable or incomparable element'')))"

fun add_counts :: "metadata \<Rightarrow> metadata \<Rightarrow> metadata res" where
  "add_counts counts [] = Inr counts"
| "add_counts counts ((kind, n) # rest) =
    res_bind (py_int (case dict_get counts kind of None \<Rightarrow> PInt 0 | Some v \<Rightarrow> v)) (\<lambda>a.
    res_bind (py_int n) (\<lambda>b. add_counts (dict_set kind (PInt (a + b)) counts) rest))"

definition or_zero :: "pyval \<Rightarrow> pyval" where "or_zero v = py_or v (PInt 0)"

definition kinds_of :: "metadata \<Rightarrow> pyval" where
  "kinds_of d = (case dict_get d (lit ''finding_kinds'') of None \<Rightarrow> PList [] | Some v \<Rightarrow> v)"

definition merge_privacy_block :: "runtime \<Rightarrow> metadata \<Rightarrow> metadata \<Rightarrow> metadata res" where
  "merge_privacy_block rt left right =
    res_bind (py_dict rt (py_or (py_get left (lit ''counts'')) (PDict []))) (\<lambda>counts.
    res_bind (py_dict rt (py_or (py_get right (lit ''counts'')) (PDict []))) (\<lambda>more.
    res_bind (add_counts counts more) (\<lambda>counts.
    res_bind (py_iter (kinds_of left)) (\<lambda>lk.
    res_bind (py_iter (kinds_of right)) (\<lambda>rk.
    res_bind (str_set rt (lk @ rk)) (\<lambda>finding_kinds.
    res_bind (py_int (or_zero (py_get left (lit ''finding_count'')))) (\<lambda>a.
    res_bind (py_int (or_zero (py_get right (lit ''finding_count'')))) (\<lambda>b.
    Inr [(lit ''action'', py_or (py_get right (lit ''action'')) (py_get left (lit ''action''))),
         (lit ''finding_count'', PInt (a + b)),
         (lit ''finding_kinds'', PList (map PStr finding_kinds)),
         (lit ''counts'', PDict counts)]))))))))"

definition merge_value :: "runtime \<Rightarrow> metadata \<Rightarrow> str \<Rightarrow> pyval \<Rightarrow> pyval res" where
  "merge_value rt merged key v =
    (case (key = lit ''privacy'', v) of
       (True, PDict d) \<Rightarrow>
         res_bind (py_dict rt (case dict_get merged key of None \<Rightarrow> PDict [] | Some x \<Rightarrow> x)) (\<lambda>left.
         res_bind (merge_privacy_block rt left d) (\<lambda>b. Inr (PDict b)))
     | (_, PInt i) \<Rightarrow>
         res_bind (py_int (case dict_get merged key of None \<Rightarrow> PInt 0 | Some x \<Rightarrow> x)) (\<lambda>n. Inr (PInt (n + i)))
     | (_, PBool b) \<Rightarrow>
         res_bind (py_int (case dict_get merged key of None \<Rightarrow> PInt 0 | Some x \<Rightarrow> x))
           (\<lambda>n. Inr (PInt (n + (if b then 1 else 0))))
     | (_, PList xs) \<Rightarrow>
         res_bind (py_iter (case dict_get merged key of None \<Rightarrow> PList [] | Some x \<Rightarrow> x)) (\<lambda>l. Inr (PList (l @ xs)))
     | _ \<Rightarrow> Inr v)"

fun merge_privacy_metadata :: "runtime \<Rightarrow> metadata \<Rightarrow> metadata \<Rightarrow> metadata res" where
  "merge_privacy_metadata rt merged [] = Inr merged"
| "merge_privacy_metadata rt merged ((key, v) # rest) =
    res_bind (merge_value rt merged key v) (\<lambda>x. merge_privacy_metadata rt (dict_set key x merged) rest)"

section \<open>Classification\<close>

definition parse_target :: "runtime \<Rightarrow> pyval \<Rightarrow> memory_proposal_target option" where
  "parse_target rt v =
    (let s = py_lower (strip (str_or_empty rt v)) in
     find (\<lambda>t. target_value t = s) [TFact, TPreference, TDecision, TTask, TGraph, TProcedure])"

text \<open>\<open>except (TypeError, ValueError)\<close>: an integer beyond the range of a double raises neither.\<close>

definition safe_float :: "pyval \<Rightarrow> real \<Rightarrow> real res" where
  "safe_float v fallback = (case py_float v of
     Inl (TypeError _) \<Rightarrow> Inr fallback
   | Inl (ValueError _) \<Rightarrow> Inr fallback
   | Inl e \<Rightarrow> Inl e
   | Inr x \<Rightarrow> Inr (clamp_unit x))"

definition classifier_messages :: "str \<Rightarrow> str \<Rightarrow> (str \<times> str) list" where
  "classifier_messages proposal evidence =
    [(lit ''system'',
      lit ''You are Memory Gateway for Obelisk Memory. Classify a proposed memory update conservatively. Return JSON only. target must be one of: fact, preference, decision, task, graph, procedure. Never accept or reject here; only classify.''),
     (lit ''user'', trim_text
       (lit ''Classify this proposal. Return keys target, confidence, importance, rationale.''
        @ [10, 10] @ lit ''proposal: '' @ proposal @ [10, 10] @ lit ''evidence: '' @ evidence) 12000)]"

type_synonym classification = "memory_proposal_target \<times> real \<times> real \<times> metadata"

definition classify_proposal ::
  "runtime \<Rightarrow> reasoner \<Rightarrow> str \<Rightarrow> str \<Rightarrow> memory_proposal_target \<Rightarrow> real \<Rightarrow> real \<Rightarrow> metadata
    \<Rightarrow> classification res"
where
  "classify_proposal rt memory_llm proposal evidence target confidence importance metadata =
    (case (case memory_llm (classifier_messages proposal evidence) 900 of
             Inr (PDict payload) \<Rightarrow> Inr payload
           | Inr _ \<Rightarrow> Inl (ValueError (lit ''memory proposal classifier returned a non-object JSON value''))
           | Inl e \<Rightarrow> Inl e) of
       Inl e \<Rightarrow> Inr (target, confidence, importance,
         dict_set (lit ''gateway_llm_error'') (PStr (type_name e))
           (dict_set (lit ''gateway_engine'') (PStr (lit ''deterministic_fallback'')) metadata))
     | Inr payload \<Rightarrow>
         res_bind (safe_float (py_get payload (lit ''confidence'')) confidence) (\<lambda>c.
         res_bind (safe_float (py_get payload (lit ''importance'')) importance) (\<lambda>i.
         Inr (case parse_target rt (py_get payload (lit ''target'')) of None \<Rightarrow> target | Some t \<Rightarrow> t, c, i,
           dict_set (lit ''gateway_rationale'')
               (PStr (trim_text (str_or_empty rt (py_get payload (lit ''rationale''))) 1000))
             (dict_set (lit ''gateway_version'') (PStr (lit ''memory-proposal-classifier-llm-v1''))
               (dict_set (lit ''gateway_engine'') (PStr (lit ''memory_llm'')) metadata))))))"

section \<open>Submission\<close>

definition sanitized_evidence :: "privacy_guard \<Rightarrow> str \<Rightarrow> privacy_decision option res" where
  "sanitized_evidence g evidence =
    (if evidence = [] then Inr None else res_bind (privacy_apply g evidence) (\<lambda>d. Inr (Some d)))"

definition evidence_text :: "privacy_decision option \<Rightarrow> str" where
  "evidence_text d = (case d of None \<Rightarrow> [] | Some x \<Rightarrow> pd_text x)"

definition classify_auto ::
  "runtime \<Rightarrow> reasoner option \<Rightarrow> str \<Rightarrow> str \<Rightarrow> submit_command \<Rightarrow> metadata \<Rightarrow> classification res"
where
  "classify_auto rt memory_llm proposal evidence c metadata =
    (case memory_llm of
       Some llm \<Rightarrow>
         if sp_target c = TAuto then
           classify_proposal rt llm proposal evidence (sp_target c) (sp_confidence c) (sp_importance c) metadata
         else Inr (sp_target c, sp_confidence c, sp_importance c, metadata)
     | None \<Rightarrow> Inr (sp_target c, sp_confidence c, sp_importance c, metadata))"

definition submitted_proposal ::
  "runtime \<Rightarrow> reasoner option \<Rightarrow> privacy_guard \<Rightarrow> uuid \<Rightarrow> datetime \<Rightarrow> submit_command \<Rightarrow> memory_proposal res"
where
  "submitted_proposal rt memory_llm g new_id now c =
    res_bind (privacy_apply g (sp_proposal c)) (\<lambda>proposal_text.
    res_bind (sanitized_evidence g (sp_evidence c)) (\<lambda>evidence_dec.
    res_bind (merge_privacy_metadata rt (sp_metadata c) (pd_metadata proposal_text)) (\<lambda>m1.
    res_bind (merge_privacy_metadata rt m1
        (case evidence_dec of None \<Rightarrow> [] | Some d \<Rightarrow> pd_metadata d)) (\<lambda>m2.
    res_bind (classify_auto rt memory_llm (pd_text proposal_text) (evidence_text evidence_dec) c m2)
      (\<lambda>(target, confidence, importance, m3).
    memory_proposal_post_init
      \<lparr>mp_id = new_id, mp_tenant_id = sp_tenant_id c, mp_workspace_id = sp_workspace_id c,
       mp_namespace = sp_namespace c, mp_requester = sp_requester c, mp_target = target,
       mp_proposal = pd_text proposal_text, mp_evidence = evidence_text evidence_dec,
       mp_agent_id = sp_agent_id c, mp_thread_id = sp_thread_id c, mp_confidence = confidence,
       mp_importance = importance, mp_status = POpen, mp_metadata = m3, mp_created_at = now,
       mp_reviewed_at = None, mp_reviewer = None, mp_review_reason = []\<rparr>)))))"

definition proposal_audit :: "memory_proposal \<Rightarrow> audit_event option \<Rightarrow> audit_event option" where
  "proposal_audit p audit = map_option (\<lambda>a. a\<lparr>ae_workspace_id := Some (mp_workspace_id p),
     ae_resource_id := Some (uuid_str (mp_id p))\<rparr>) audit"

definition submit ::
  "runtime \<Rightarrow> reasoner option \<Rightarrow> privacy_guard \<Rightarrow> uuid \<Rightarrow> datetime \<Rightarrow> submit_command \<Rightarrow> audit_event option
    \<Rightarrow> store \<Rightarrow> submit_result res \<times> store"
where
  "submit rt memory_llm g new_id now c audit s =
    (case submitted_proposal rt memory_llm g new_id now c of
       Inl e \<Rightarrow> (Inl e, s)
     | Inr proposal \<Rightarrow>
         (case append_proposal proposal (sp_idempotency_key c) (proposal_audit proposal audit) s of
            (Inl e, s1) \<Rightarrow> (Inl e, s1)
          | (Inr (stored, created), s1) \<Rightarrow> (Inr \<lparr>sr_proposal = stored, sr_created = created\<rparr>, s1)))"

section \<open>Review\<close>

definition memory_shape ::
  "memory_proposal_target \<Rightarrow> memory_layer option \<Rightarrow> str option \<Rightarrow> (memory_layer \<times> str) res"
where
  "memory_shape target layer kind =
    (let shape = (\<lambda>l k. Inr (case layer of None \<Rightarrow> l | Some x \<Rightarrow> x,
           case given kind of None \<Rightarrow> lit k | Some x \<Rightarrow> x))
     in case (layer, given kind) of
       (Some l, Some k) \<Rightarrow> Inr (l, k)
     | _ \<Rightarrow> (case target of
           TFact \<Rightarrow> shape Semantic ''proposed_fact''
         | TPreference \<Rightarrow> shape Social ''proposed_preference''
         | TDecision \<Rightarrow> shape Core ''proposed_decision''
         | TTask \<Rightarrow> shape Episodic ''proposed_task''
         | TProcedure \<Rightarrow> shape Procedural ''proposed_procedure''
         | TAuto \<Rightarrow> shape Semantic ''proposed_memory''
         | TGraph \<Rightarrow> Inl (KeyError (lit ''graph''))))"

definition accepted_memory_text :: "memory_proposal \<Rightarrow> str" where
  "accepted_memory_text p = trim_text (join [10] (strip (mp_proposal p) #
     (if blank (mp_evidence p) then [] else [[], lit ''Evidence:'', strip (mp_evidence p)]))) 6000"

definition accept_key :: "memory_proposal \<Rightarrow> str option \<Rightarrow> str" where
  "accept_key p key = (case given key of None \<Rightarrow> lit ''accept-proposal:'' @ uuid_str (mp_id p) | Some k \<Rightarrow> k)"

definition accept_command :: "memory_proposal \<Rightarrow> review_command \<Rightarrow> retain_command res" where
  "accept_command p c =
    res_bind (memory_shape (mp_target p) (rv_layer c) (rv_kind c)) (\<lambda>(layer, kind).
    Inr \<lparr>rc_tenant_id = mp_tenant_id p, rc_workspace_id = mp_workspace_id p, rc_layer = layer,
         rc_scope = (if mp_thread_id p \<noteq> None then Thread else Workspace), rc_kind = kind,
         rc_text = accepted_memory_text p,
         rc_provenance = \<lparr>pv_source_kind = lit ''memory_proposal'',
           pv_origin_uri = Some (lit ''proposal://'' @ uuid_str (mp_id p)), pv_object_key = None,
           pv_checksum_sha256 = None,
           pv_quote = Some (trim_text (if mp_evidence p = [] then mp_proposal p else mp_evidence p) 1800),
           pv_extraction_version = lit ''memory-proposal-review-v1''\<rparr>,
         rc_agent_id = mp_agent_id p, rc_thread_id = mp_thread_id p,
         rc_labels = uniq (lit ''proposal'' # mp_namespace p # target_value (mp_target p) # rv_labels c),
         rc_importance = mp_importance p, rc_confidence = mp_confidence p,
         rc_metadata = [(lit ''proposal_id'', PStr (uuid_str (mp_id p))),
           (lit ''proposal_requester'', PStr (mp_requester p)),
           (lit ''proposal_target'', PStr (target_value (mp_target p))),
           (lit ''proposal_namespace'', PStr (mp_namespace p))],
         rc_status = Active,
         rc_idempotency_key = Some (accept_key p (rv_idempotency_key c))\<rparr>)"

definition load_for_review :: "review_command \<Rightarrow> store \<Rightarrow> memory_proposal res" where
  "load_for_review c s = (case get_proposal (rv_tenant_id c) (rv_proposal_id c) s of
     None \<Rightarrow> Inl (KeyError (lit ''memory proposal not found'')) | Some p \<Rightarrow> Inr p)"

definition acceptable :: "memory_proposal \<Rightarrow> memory_proposal res" where
  "acceptable p =
    (if mp_status p = PRejected then Inl (ValueError (lit ''rejected proposal cannot be accepted''))
     else if mp_target p = TGraph then
       Inl (ValueError (lit ''graph proposals require the dedicated evidence-bound graph review path''))
     else Inr p)"

definition accept ::
  "privacy_guard \<Rightarrow> fresh \<Rightarrow> datetime \<Rightarrow> review_command \<Rightarrow> audit_event option \<Rightarrow> store
    \<Rightarrow> review_result res \<times> store"
where
  "accept g fr now c audit s =
    (case res_bind (load_for_review c s) (\<lambda>p. res_bind (acceptable p) (\<lambda>p.
          res_bind (accept_command p c) (\<lambda>rc. res_bind (prepare g fr rc) (\<lambda>(item, event).
          Inr (p, rc, item, event))))) of
       Inl e \<Rightarrow> (Inl e, s)
     | Inr (p, rc, item, event) \<Rightarrow>
         (case accept_proposal_with_memory p item event (rv_reviewer c) (rv_reason c)
                 (accept_key p (rc_idempotency_key rc)) (proposal_audit p audit) now s of
            (Inl e, s1) \<Rightarrow> (Inl e, s1)
          | (Inr (stored, memory, created), s1) \<Rightarrow>
              (Inr \<lparr>rw_proposal = stored,
                    rw_retained = Some \<lparr>rr_item = memory, rr_created = created,
                      rr_queued_event_ids = (if created then [ie_id event] else [])\<rparr>\<rparr>, s1)))"

definition reviewed_proposal ::
  "datetime \<Rightarrow> memory_proposal \<Rightarrow> memory_proposal_status \<Rightarrow> str \<Rightarrow> str \<Rightarrow> metadata option \<Rightarrow> memory_proposal res"
where
  "reviewed_proposal now p status reviewer reason metadata =
    memory_proposal_post_init (p\<lparr>mp_status := status, mp_reviewed_at := Some now,
      mp_reviewer := Some (reviewer_name reviewer), mp_review_reason := take 1000 (strip reason),
      mp_metadata := (case metadata of None \<Rightarrow> mp_metadata p | Some d \<Rightarrow> d)\<rparr>)"

text \<open>\<open>reject\<close> reads the proposal under one lock and saves its review under another.\<close>

definition reject_read :: "datetime \<Rightarrow> review_command \<Rightarrow> store \<Rightarrow> memory_proposal res" where
  "reject_read now c s =
    res_bind (load_for_review c s) (\<lambda>p.
      if mp_status p = PAccepted then Inl (ValueError (lit ''accepted proposal cannot be rejected''))
      else reviewed_proposal now p PRejected (rv_reviewer c) (rv_reason c) None)"

definition reject_write ::
  "memory_proposal \<Rightarrow> audit_event option \<Rightarrow> store \<Rightarrow> review_result res \<times> store"
where
  "reject_write reviewed audit s =
    (case save_proposal_review reviewed (proposal_audit reviewed audit) s of
       (Inl e, s1) \<Rightarrow> (Inl e, s1)
     | (Inr stored, s1) \<Rightarrow> (Inr \<lparr>rw_proposal = stored, rw_retained = None\<rparr>, s1))"

definition reject ::
  "datetime \<Rightarrow> review_command \<Rightarrow> audit_event option \<Rightarrow> store \<Rightarrow> review_result res \<times> store"
where
  "reject now c audit s = (case reject_read now c s of
     Inl e \<Rightarrow> (Inl e, s) | Inr reviewed \<Rightarrow> reject_write reviewed audit s)"

section \<open>Automatic acceptance\<close>

definition temporal_markers :: "str list" where
  "temporal_markers = [[1088, 1072, 1085, 1100, 1096, 1077], [1089, 1077, 1081, 1095, 1072, 1089],
     [1087, 1077, 1088, 1077, 1096], [1080, 1079, 1084, 1077, 1085],
     lit ''before'', lit ''formerly'', lit ''now '', lit ''changed'', lit ''switched'']"

definition verified_quotes :: "runtime \<Rightarrow> str \<Rightarrow> pyval list \<Rightarrow> str list" where
  "verified_quotes rt evidence quotes =
    filter (\<lambda>q. 8 \<le> length q \<and> contains q evidence) (map (\<lambda>q. strip (py_str rt q)) quotes)"

definition auto_accept_reason :: "runtime \<Rightarrow> memory_proposal \<Rightarrow> str option" where
  "auto_accept_reason rt p =
    (let txt = py_lower (mp_proposal p @ [10] @ mp_evidence p) in
     if mp_target p \<notin> {TPreference, TDecision, TTask, TProcedure} then None
     else if mp_confidence p < 9/10 \<or> blank (mp_evidence p) then None
     else if dict_get (mp_metadata p) (lit ''curator_engine'') = Some (PStr (lit ''deterministic_fallback'')) then None
     else if \<not> contains (lit ''source_turn_id:'') (mp_evidence p)
       \<or> list_ex (\<lambda>marker. contains marker txt) temporal_markers then None
     else case dict_get (mp_metadata p) (lit ''evidence_quotes'') of
       Some (PList quotes) \<Rightarrow>
         if verified_quotes rt (mp_evidence p) quotes = [] then None
         else Some (lit ''auto-accepted: high-confidence claim with source-verified evidence quote'')
     | _ \<Rightarrow> None)"

definition auto_review :: "memory_proposal \<Rightarrow> str \<Rightarrow> review_command" where
  "auto_review p reason = \<lparr>rv_tenant_id = mp_tenant_id p, rv_proposal_id = mp_id p,
     rv_reviewer = lit ''obelisk-auto-policy'', rv_reason = reason, rv_layer = None, rv_kind = None,
     rv_labels = [], rv_idempotency_key = Some (lit ''auto-accept-proposal:'' @ uuid_str (mp_id p))\<rparr>"

definition auto_accept ::
  "runtime \<Rightarrow> privacy_guard \<Rightarrow> fresh \<Rightarrow> datetime \<Rightarrow> memory_proposal \<Rightarrow> store
    \<Rightarrow> review_result option res \<times> store"
where
  "auto_accept rt g fr now p s =
    (case auto_accept_reason rt p of
       None \<Rightarrow> (Inr None, s)
     | Some reason \<Rightarrow>
         (case accept g fr now (auto_review p reason) None s of
            (Inl e, s1) \<Rightarrow> (Inl e, s1)
          | (Inr r, s1) \<Rightarrow> (Inr (Some r), s1)))"


section \<open>What a submission stores\<close>

lemma append_proposal_cases:
  assumes "proposals_ok s" and "append_proposal p key audit s = (r, s1)"
  obtains (created) "r = Inr (p, True)" "st_proposals s1 = dict_set (mp_id p) p (st_proposals s)"
      "st_items s1 = st_items s" "st_idempotency s1 = st_idempotency s" "st_events s1 = st_events s"
  | (replayed) q i where "r = Inr (q, False)" "s1 = s" "dict_get (st_proposals s) i = Some q"
      "mp_tenant_id q = mp_tenant_id p"
proof (cases "remembered (st_proposal_idempotency s) (mp_tenant_id p)
    (scope_idempotency_key (mp_workspace_id p) key)")
  case None
  with assms(2) show thesis
    by (intro created) (auto simp: append_proposal_def idempotent_insert_def)
next
  case (Some i)
  then obtain q where "dict_get (st_proposals s) i = Some q" "mp_tenant_id q = mp_tenant_id p"
    using assms(1) by (auto simp: proposals_ok_def dest: idem_ok_get)
  with assms(2) Some show thesis by (intro replayed [of q i]) (auto simp: append_proposal_replay)
qed

text \<open>The model fails soft: an exception or a reply that is no object leaves the request as it was.\<close>

lemma classify_unavailable:
  assumes "\<And>d. llm (classifier_messages proposal evidence) 900 \<noteq> Inr (PDict d)"
  shows "\<exists>m'. classify_proposal rt llm proposal evidence t c i m = Inr (t, c, i, m')"
proof (cases "llm (classifier_messages proposal evidence) 900")
  case (Inl e)
  then show ?thesis by (simp add: classify_proposal_def)
next
  case (Inr v)
  then show ?thesis using assms by (cases v) (simp_all add: classify_proposal_def)
qed

text \<open>Except for a score no double can hold, whose \<open>OverflowError\<close> nothing catches.\<close>

lemma huge_score_aborts:
  assumes "llm (classifier_messages proposal evidence) 900 = Inr (PDict [(lit ''confidence'', PInt n)])"
    and "\<not> float_range n"
  shows "\<exists>txt. classify_proposal rt llm proposal evidence t c i m = Inl (OverflowError txt)"
  using assms by (simp add: classify_proposal_def py_get_def safe_float_def)

lemma classify_auto_Inr:
  "classify_auto rt llm proposal evidence c m = Inr (t, cf, im, m') \<Longrightarrow>
    t = sp_target c \<and> cf = sp_confidence c \<and> im = sp_importance c \<or> sp_target c = TAuto \<and> llm \<noteq> None"
  by (auto simp: classify_auto_def split: option.splits if_splits)

lemma submitted_proposal_Inr:
  assumes "submitted_proposal rt llm g i now c = Inr p"
  obtains d where "privacy_apply g (sp_proposal c) = Inr d" and "mp_proposal p = pd_text d"
    and "if sp_evidence c = [] then mp_evidence p = []
      else \<exists>d. privacy_apply g (sp_evidence c) = Inr d \<and> mp_evidence p = pd_text d"
    and "valid_proposal p" and "mp_status p = POpen" and "mp_id p = i"
    and "mp_tenant_id p = sp_tenant_id c" and "mp_workspace_id p = sp_workspace_id c"
    and "mp_namespace p = sp_namespace c" and "mp_requester p = sp_requester c"
    and "mp_target p = sp_target c \<and> mp_confidence p = sp_confidence c \<and> mp_importance p = sp_importance c
      \<or> sp_target c = TAuto \<and> llm \<noteq> None"
proof -
  from assms obtain d ev m2 t cf im m3 where d: "privacy_apply g (sp_proposal c) = Inr d"
    and ev: "sanitized_evidence g (sp_evidence c) = Inr ev"
    and cl: "classify_auto rt llm (pd_text d) (evidence_text ev) c m2 = Inr (t, cf, im, m3)"
    and p: "p = \<lparr>mp_id = i, mp_tenant_id = sp_tenant_id c, mp_workspace_id = sp_workspace_id c,
       mp_namespace = sp_namespace c, mp_requester = sp_requester c, mp_target = t,
       mp_proposal = pd_text d, mp_evidence = evidence_text ev,
       mp_agent_id = sp_agent_id c, mp_thread_id = sp_thread_id c, mp_confidence = cf,
       mp_importance = im, mp_status = POpen, mp_metadata = m3, mp_created_at = now,
       mp_reviewed_at = None, mp_reviewer = None, mp_review_reason = []\<rparr>" "valid_proposal p"
    by (auto simp: submitted_proposal_def res_bind_Inr_iff memory_proposal_post_init_Inr)
  have "if sp_evidence c = [] then evidence_text ev = []
      else \<exists>d. privacy_apply g (sp_evidence c) = Inr d \<and> evidence_text ev = pd_text d"
    using ev by (auto simp: sanitized_evidence_def evidence_text_def res_bind_Inr_iff split: if_splits)
  then show thesis using that [OF d] p classify_auto_Inr [OF cl] by simp
qed

text \<open>Submission adds its own metadata keys and keeps the others.\<close>

definition gateway_keys :: "str set" where
  "gateway_keys = {lit ''privacy'', lit ''gateway_engine'', lit ''gateway_llm_error'', lit ''gateway_version'',
     lit ''gateway_rationale''}"

lemma merge_privacy_other:
  "merge_privacy_metadata rt m right = Inr m' \<Longrightarrow> k \<notin> fst ` set right \<Longrightarrow> dict_get m' k = dict_get m k"
  by (induction rt m right rule: merge_privacy_metadata.induct) (auto simp: res_bind_Inr_iff)

lemma privacy_metadata_keys: "privacy_apply g txt = Inr d \<Longrightarrow> fst ` set (pd_metadata d) \<subseteq> {lit ''privacy''}"
  by (auto simp: privacy_apply_def privacy_metadata_def Let_def split: if_splits)

lemma classify_auto_keeps:
  assumes "classify_auto rt llm proposal evidence c m = Inr (t, cf, im, m')" and "k \<notin> gateway_keys"
  shows "dict_get m' k = dict_get m k"
  using assms
  by (auto simp: classify_auto_def classify_proposal_def gateway_keys_def res_bind_Inr_iff
      split: option.splits if_splits sum.splits)

lemma submitted_metadata:
  assumes "submitted_proposal rt llm g i now c = Inr p" and "k \<notin> gateway_keys"
  shows "dict_get (mp_metadata p) k = dict_get (sp_metadata c) k"
proof -
  from assms(1) obtain d ev m1 m2 t cf im m3 where s: "privacy_apply g (sp_proposal c) = Inr d"
    "sanitized_evidence g (sp_evidence c) = Inr ev"
    "merge_privacy_metadata rt (sp_metadata c) (pd_metadata d) = Inr m1"
    "merge_privacy_metadata rt m1 (case ev of None \<Rightarrow> [] | Some d \<Rightarrow> pd_metadata d) = Inr m2"
    "classify_auto rt llm (pd_text d) (evidence_text ev) c m2 = Inr (t, cf, im, m3)" "mp_metadata p = m3"
    by (auto simp: submitted_proposal_def res_bind_Inr_iff memory_proposal_post_init_Inr)
  have k: "k \<noteq> lit ''privacy''" using assms(2) by (simp add: gateway_keys_def)
  have "k \<notin> fst ` set (pd_metadata d)" using privacy_metadata_keys [OF s(1)] k by blast
  moreover have "k \<notin> fst ` set (case ev of None \<Rightarrow> [] | Some d \<Rightarrow> pd_metadata d)"
  proof (cases ev)
    case (Some d')
    then have "privacy_apply g (sp_evidence c) = Inr d'"
      using s(2) by (auto simp: sanitized_evidence_def res_bind_Inr_iff split: if_splits)
    from privacy_metadata_keys [OF this] k Some show ?thesis by auto
  qed simp
  ultimately show ?thesis
    using merge_privacy_other [OF s(3)] merge_privacy_other [OF s(4)] classify_auto_keeps [OF s(5) assms(2)] s(6)
    by simp
qed

lemma submit_cases:
  assumes "proposals_ok s" and "submit rt llm g i now c audit s = (r, s1)"
  obtains (refused) e where "submitted_proposal rt llm g i now c = Inl e" "r = Inl e" "s1 = s"
  | (created) p where "submitted_proposal rt llm g i now c = Inr p"
      "r = Inr \<lparr>sr_proposal = p, sr_created = True\<rparr>" "st_proposals s1 = dict_set i p (st_proposals s)"
      "st_items s1 = st_items s" "st_idempotency s1 = st_idempotency s" "st_events s1 = st_events s"
  | (replayed) p q j where "submitted_proposal rt llm g i now c = Inr p"
      "r = Inr \<lparr>sr_proposal = q, sr_created = False\<rparr>" "s1 = s" "dict_get (st_proposals s) j = Some q"
      "mp_tenant_id q = sp_tenant_id c"
proof (cases "submitted_proposal rt llm g i now c")
  case (Inl e)
  with assms(2) show thesis by (intro refused) (auto simp: submit_def)
next
  case (Inr p)
  obtain x y where e: "append_proposal p (sp_idempotency_key c) (proposal_audit p audit) s = (x, y)" by fastforce
  have id: "mp_id p = i" "mp_tenant_id p = sp_tenant_id c" using submitted_proposal_Inr [OF Inr] by metis+
  from assms(1) e show thesis
  proof (cases rule: append_proposal_cases)
    case created
    with Inr e id assms(2) show thesis by (intro that(2)) (auto simp: submit_def)
  next
    case (replayed q j)
    with Inr e id assms(2) show thesis by (intro that(3) [of p q j]) (auto simp: submit_def)
  qed
qed

text \<open>
  C2: Submission only ever stores a sanitized open proposal. A refused submission and a replay change
  nothing; otherwise exactly one row is added, whose text and evidence are what the privacy guard let
  through, which is open, valid and carries the requester's scope, whatever the language model
  answered; memories and queued events stay as they were. Target and scores differ from the command
  only when a model classified an automatic target.
\<close>

theorem submit_stores_open_proposal:
  assumes "proposals_ok s" and "submit rt llm g i now c audit s = (r, s1)"
  shows "case r of
      Inl e \<Rightarrow> s1 = s
    | Inr res \<Rightarrow>
        if sr_created res then
          st_proposals s1 = dict_set i (sr_proposal res) (st_proposals s)
          \<and> st_items s1 = st_items s \<and> st_events s1 = st_events s
          \<and> (\<exists>d. privacy_apply g (sp_proposal c) = Inr d \<and> mp_proposal (sr_proposal res) = pd_text d)
          \<and> (if sp_evidence c = [] then mp_evidence (sr_proposal res) = []
             else \<exists>d. privacy_apply g (sp_evidence c) = Inr d \<and> mp_evidence (sr_proposal res) = pd_text d)
          \<and> valid_proposal (sr_proposal res) \<and> mp_status (sr_proposal res) = POpen
          \<and> mp_tenant_id (sr_proposal res) = sp_tenant_id c
          \<and> mp_workspace_id (sr_proposal res) = sp_workspace_id c
          \<and> (mp_target (sr_proposal res) = sp_target c \<and> mp_confidence (sr_proposal res) = sp_confidence c
               \<and> mp_importance (sr_proposal res) = sp_importance c
             \<or> sp_target c = TAuto \<and> llm \<noteq> None)
        else s1 = s \<and> mp_tenant_id (sr_proposal res) = sp_tenant_id c"
  using assms
proof (cases rule: submit_cases)
  case (created p)
  from created(1) show ?thesis
    by (rule submitted_proposal_Inr) (use created(2-) in \<open>simp cong: if_cong\<close>)
qed simp_all


definition sample_runtime :: runtime where
  "sample_runtime = \<lparr>rt_repr = \<lambda>_. [], rt_dict = \<lambda>_. Inr []\<rparr>"

definition sample_llm :: reasoner where
  "sample_llm = (\<lambda>_ _. Inr (PDict [(lit ''target'', PStr (lit '' Fact'')), (lit ''confidence'', PStr (lit ''7e-1''))]))"

definition sample_submit :: "uuid \<Rightarrow> uuid \<Rightarrow> str \<Rightarrow> submit_command" where
  "sample_submit t w txt = \<lparr>sp_tenant_id = t, sp_workspace_id = w, sp_namespace = lit ''default'',
     sp_requester = lit ''agent'', sp_proposal = txt, sp_evidence = [], sp_target = TAuto, sp_agent_id = None,
     sp_thread_id = None, sp_confidence = 1/2, sp_importance = 1/2, sp_metadata = [], sp_idempotency_key = None\<rparr>"

abbreviation sample_submission :: "submit_result res \<times> store" where
  "sample_submission \<equiv> submit sample_runtime (Some sample_llm) open_guard 3 5
     (sample_submit 7 8 (lit ''tea'')) None empty_store"

lemma sample_submission_result:
  obtains p where "fst sample_submission = Inr \<lparr>sr_proposal = p, sr_created = True\<rparr>" "mp_target p = TFact"
    "mp_confidence p = 7/10"
proof -
  have "case fst sample_submission of Inl e \<Rightarrow> False
    | Inr r \<Rightarrow> sr_created r \<and> mp_target (sr_proposal r) = TFact \<and> mp_confidence (sr_proposal r) = 7/10
        \<and> mp_proposal (sr_proposal r) = lit ''tea''" by code_simp
  then obtain r where r: "fst sample_submission = Inr r" "sr_created r" "mp_target (sr_proposal r) = TFact"
      "mp_confidence (sr_proposal r) = 7/10"
      "mp_proposal (sr_proposal r) = lit ''tea''"
    by (auto split: sum.splits)
  then show thesis by (intro that [of "sr_proposal r"]) (cases r; simp)+
qed

lemma empty_proposals_ok: "proposals_ok empty_store"
  by (simp add: proposals_ok_def empty_store_def table_ok_def idem_ok_def)

theorem submit_stores_open_proposal_witness:
  "\<exists>p. fst sample_submission = Inr \<lparr>sr_proposal = p, sr_created = True\<rparr> \<and> mp_status p = POpen
     \<and> valid_proposal p \<and> st_items (snd sample_submission) = [] \<and> mp_target p = TFact"
proof -
  obtain p where p: "fst sample_submission = Inr \<lparr>sr_proposal = p, sr_created = True\<rparr>" "mp_target p = TFact"
    by (rule sample_submission_result)
  from submit_stores_open_proposal [OF empty_proposals_ok prod.collapse [symmetric], of sample_runtime
      "Some sample_llm" open_guard 3 5 "sample_submit 7 8 (lit ''tea'')" None] p
  show ?thesis by (simp add: empty_store_def)
qed

section \<open>Review of a stored proposal\<close>

lemma accept_unwritten:
  assumes "proposals_valid s"
    and "accept_proposal_with_memory p item event reviewer reason key audit now s = (r, s1)"
    and "\<And>p' m. r \<noteq> Inr (p', m, True)"
  shows "s1 = s"
proof (cases "get_proposal (mp_tenant_id p) (mp_id p) s")
  case None
  with assms show ?thesis by (auto simp: accept_proposal_with_memory_def)
next
  case (Some cur)
  then have v: "valid_proposal cur" using assms(1) by (auto simp: proposals_valid_def get_proposal_Some)
  have "valid_proposal (cur\<lparr>mp_status := a, mp_reviewed_at := b, mp_reviewer := c,
      mp_review_reason := d, mp_metadata := e'\<rparr>)" for a b c d e'
    using v by (simp add: valid_proposal_def)
  then show ?thesis
    using assms(2,3) Some
    by (auto simp: accept_proposal_with_memory_def memory_proposal_post_init_Inr [THEN iffD2]
        dict_index_def Let_def split: option.splits if_splits)
qed

lemma accept_cases:
  assumes "proposals_valid s" and "accept g fr now c audit s = (r, s1)"
  obtains (unwritten) "s1 = s" "\<And>x y. r = Inr x \<Longrightarrow> rw_retained x = Some y \<Longrightarrow> \<not> rr_created y"
  | (written) p p' item event rc where "get_proposal (rv_tenant_id c) (rv_proposal_id c) s = Some p"
      "mp_status p \<noteq> PRejected" "mp_target p \<noteq> TGraph" "accept_command p c = Inr rc"
      "prepare g fr rc = Inr (item, event)"
      "accept_proposal_with_memory p item event (rv_reviewer c) (rv_reason c)
         (accept_key p (rc_idempotency_key rc)) (proposal_audit p audit) now s = (Inr (p', item, True), s1)"
      "r = Inr \<lparr>rw_proposal = p', rw_retained = Some \<lparr>rr_item = item, rr_created = True,
         rr_queued_event_ids = [ie_id event]\<rparr>\<rparr>"
proof -
  let ?plan = "res_bind (load_for_review c s) (\<lambda>p. res_bind (acceptable p) (\<lambda>p.
          res_bind (accept_command p c) (\<lambda>rc. res_bind (prepare g fr rc) (\<lambda>(item, event).
          Inr (p, rc, item, event)))))"
  show thesis
  proof (cases ?plan)
    case (Inl e)
    with assms(2) show thesis by (intro unwritten) (auto simp: accept_def)
  next
    case (Inr x)
    obtain p rc item event where x: "x = (p, rc, item, event)" by (cases x)
    have plan: "get_proposal (rv_tenant_id c) (rv_proposal_id c) s = Some p" "mp_status p \<noteq> PRejected"
        "mp_target p \<noteq> TGraph" "accept_command p c = Inr rc" "prepare g fr rc = Inr (item, event)"
      using Inr unfolding x
      by (auto simp: res_bind_Inr_iff load_for_review_def acceptable_def split: option.splits if_splits)
    obtain r' s' where e: "accept_proposal_with_memory p item event (rv_reviewer c) (rv_reason c)
         (accept_key p (rc_idempotency_key rc)) (proposal_audit p audit) now s = (r', s')" by fastforce
    show thesis
    proof (cases "\<exists>p' m. r' = Inr (p', m, True)")
      case True
      then obtain p' m where r': "r' = Inr (p', m, True)" by blast
      have "m = item" using e unfolding r' by (rule accept_written)
      with Inr x e r' assms(2) show thesis by (intro written [OF plan, of p']) (auto simp: accept_def)
    next
      case False
      then have "s' = s" using accept_unwritten [OF assms(1) e] by blast
      with Inr x e False assms(2) show thesis
        by (intro unwritten) (auto simp: accept_def split: sum.splits)
    qed
  qed
qed

lemma reject_cases:
  assumes "reject now c audit s = (r, s1)"
  obtains (refused) e where "r = Inl e" "s1 = s"
  | (rejected) p p' where "get_proposal (rv_tenant_id c) (rv_proposal_id c) s = Some p"
      "mp_status p \<noteq> PAccepted" "r = Inr \<lparr>rw_proposal = p', rw_retained = None\<rparr>"
      "p' = p\<lparr>mp_status := PRejected, mp_reviewed_at := Some now,
        mp_reviewer := Some (reviewer_name (rv_reviewer c)),
        mp_review_reason := take 1000 (strip (rv_reason c))\<rparr>" "valid_proposal p'"
      "s1 = with_audit (proposal_audit p' audit) (s\<lparr>st_proposals := dict_set (mp_id p) p' (st_proposals s)\<rparr>)"
proof (cases "reject_read now c s")
  case (Inl e)
  with assms show thesis by (intro refused) (auto simp: reject_def)
next
  case (Inr p')
  then obtain p where p: "get_proposal (rv_tenant_id c) (rv_proposal_id c) s = Some p" "mp_status p \<noteq> PAccepted"
      "p' = p\<lparr>mp_status := PRejected, mp_reviewed_at := Some now,
        mp_reviewer := Some (reviewer_name (rv_reviewer c)),
        mp_review_reason := take 1000 (strip (rv_reason c))\<rparr>" "valid_proposal p'"
    by (auto simp: reject_read_def load_for_review_def res_bind_Inr_iff reviewed_proposal_def
        memory_proposal_post_init_Inr split: option.splits if_splits)
  show thesis
  proof (cases "get_proposal (mp_tenant_id p') (mp_id p') s")
    case None
    with assms Inr show thesis
      by (intro refused) (auto simp: reject_def reject_write_def save_proposal_review_def)
  next
    case (Some q)
    with assms Inr p show thesis
      by (intro rejected [OF p(1,2) _ p(3,4)])
        (auto simp: reject_def reject_write_def save_proposal_review_def)
  qed
qed


section \<open>The review state machine\<close>

text \<open>A review changes the review fields and the metadata; what was proposed stays as submitted.\<close>

definition same_content :: "memory_proposal \<Rightarrow> memory_proposal \<Rightarrow> bool" where
  "same_content p p' \<longleftrightarrow> p'\<lparr>mp_status := mp_status p, mp_reviewed_at := mp_reviewed_at p,
     mp_reviewer := mp_reviewer p, mp_review_reason := mp_review_reason p, mp_metadata := mp_metadata p\<rparr> = p"

text \<open>Where a stored proposal can go: accepted ones stay as they are, rejected ones stay rejected.\<close>

definition review_succ :: "memory_proposal \<Rightarrow> memory_proposal \<Rightarrow> bool" where
  "review_succ p p' \<longleftrightarrow> same_content p p' \<and> (mp_status p = PAccepted \<longrightarrow> p' = p)
     \<and> (mp_status p = PRejected \<longrightarrow> mp_status p' = PRejected)"

definition reviews_follow :: "store \<Rightarrow> store \<Rightarrow> bool" where
  "reviews_follow s s' \<longleftrightarrow> (\<forall>i p. dict_get (st_proposals s) i = Some p \<longrightarrow>
     (\<exists>p'. dict_get (st_proposals s') i = Some p' \<and> review_succ p p'))"

lemma same_content_iff:
  "same_content p p' \<longleftrightarrow> mp_id p' = mp_id p \<and> mp_tenant_id p' = mp_tenant_id p
     \<and> mp_workspace_id p' = mp_workspace_id p \<and> mp_namespace p' = mp_namespace p
     \<and> mp_requester p' = mp_requester p \<and> mp_target p' = mp_target p \<and> mp_proposal p' = mp_proposal p
     \<and> mp_evidence p' = mp_evidence p \<and> mp_agent_id p' = mp_agent_id p \<and> mp_thread_id p' = mp_thread_id p
     \<and> mp_confidence p' = mp_confidence p \<and> mp_importance p' = mp_importance p
     \<and> mp_created_at p' = mp_created_at p"
  by (cases p; cases p') (auto simp: same_content_def)

lemma same_content_valid: "same_content p p' \<Longrightarrow> valid_proposal p' = valid_proposal p"
  by (simp add: same_content_iff valid_proposal_def)

lemma review_succ_refl [simp]: "review_succ p p"
  by (simp add: review_succ_def same_content_iff)

lemma review_succ_trans: "review_succ p q \<Longrightarrow> review_succ q r \<Longrightarrow> review_succ p r"
  by (auto simp: review_succ_def same_content_iff)

lemma reviews_follow_trans: "reviews_follow a b \<Longrightarrow> reviews_follow b c \<Longrightarrow> reviews_follow a c"
  unfolding reviews_follow_def by (blast intro: review_succ_trans)

lemma reviews_follow_same [simp]: "st_proposals s' = st_proposals s \<Longrightarrow> reviews_follow s s'"
  by (auto simp: reviews_follow_def)

lemma reviews_follow_set:
  assumes "st_proposals s' = dict_set i p' (st_proposals s)"
    and "\<And>p. dict_get (st_proposals s) i = Some p \<Longrightarrow> review_succ p p'"
  shows "reviews_follow s s'"
  using assms by (auto simp: reviews_follow_def)

definition linked :: "memory_proposal \<Rightarrow> store \<Rightarrow> bool" where
  "linked p s \<longleftrightarrow> (\<exists>m. dict_get (mp_metadata p) (lit ''accepted_memory_id'') = Some (PStr (uuid_str (mi_id m)))
     \<and> dict_get (st_items s) (mi_id m) = Some m \<and> mi_tenant_id m = mp_tenant_id p
     \<and> mi_workspace_id m = mp_workspace_id p)"

lemma linked_cong: "st_items s' = st_items s \<Longrightarrow> linked p s' = linked p s"
  by (simp add: linked_def)

definition gateway_inv :: "store \<Rightarrow> bool" where
  "gateway_inv s \<longleftrightarrow> proposals_ok s \<and> proposals_valid s
     \<and> (\<forall>i p. dict_get (st_proposals s) i = Some p \<longrightarrow> mp_status p = PAccepted \<longrightarrow> linked p s)"

lemma gateway_inv_empty: "gateway_inv empty_store"
  by (simp add: gateway_inv_def proposals_ok_def proposals_valid_def empty_store_def table_ok_def idem_ok_def)

lemma linked_memory: "items_ok s \<Longrightarrow> linked p s \<Longrightarrow> \<exists>m. accepted_memory p s = Some m \<and> mi_tenant_id m = mp_tenant_id p"
proof -
  assume ok: "items_ok s" and "linked p s"
  then obtain m where m: "dict_get (mp_metadata p) (lit ''accepted_memory_id'') = Some (PStr (uuid_str (mi_id m)))"
    "dict_get (st_items s) (mi_id m) = Some m" "mi_tenant_id m = mp_tenant_id p"
    unfolding linked_def by blast
  have "dict_ok (st_items s)" using ok by (simp add: items_ok_def table_ok_def)
  from find_by_printed_id [OF this m(2)] m(1,3) show ?thesis by (simp add: accepted_memory_def)
qed

text \<open>Operations on other tables keep the invariant as long as no memory is lost.\<close>

lemma gateway_inv_grow:
  assumes "gateway_inv s" and "st_proposals s' = st_proposals s"
    and "st_proposal_idempotency s' = st_proposal_idempotency s"
    and "\<And>i x. dict_get (st_items s) i = Some x \<Longrightarrow> dict_get (st_items s') i = Some x"
  shows "gateway_inv s'"
proof -
  have "linked p s'" if "linked p s" for p using that assms(4) by (auto simp: linked_def)
  then show ?thesis
    using assms(1-3) by (simp add: gateway_inv_def proposals_valid_def proposals_ok_def)
qed

text \<open>A review replaces a row by one of the same identity and tenant.\<close>

lemma proposals_ok_review:
  assumes "proposals_ok s" and "dict_get (st_proposals s) (mp_id p') = Some p"
    and "mp_tenant_id p' = mp_tenant_id p"
    and "st_proposals s' = dict_set (mp_id p') p' (st_proposals s)"
    and "st_proposal_idempotency s' = st_proposal_idempotency s"
  shows "proposals_ok s'"
proof -
  have "table_ok mp_id (st_proposals s')"
    using assms(1,4) by (simp add: proposals_ok_def table_ok_set)
  moreover have "idem_ok mp_tenant_id (st_proposal_idempotency s) (st_proposals s')"
    unfolding idem_ok_def
  proof (intro allI impI)
    fix t k i assume "dict_get (st_proposal_idempotency s) (t, k) = Some i"
    then obtain q where "dict_get (st_proposals s) i = Some q" "mp_tenant_id q = t"
      using assms(1) unfolding proposals_ok_def idem_ok_def by blast
    then show "\<exists>q. dict_get (st_proposals s') i = Some q \<and> mp_tenant_id q = t"
      using assms(2-4) by (cases "i = mp_id p'") auto
  qed
  ultimately show ?thesis using assms(5) by (simp add: proposals_ok_def)
qed

lemma submit_proposal_idempotency:
  assumes "proposals_ok s" and "submit rt llm g i now c audit s = (r, s1)" and "dict_get (st_proposals s) i = None"
  shows "proposals_ok s1"
proof (cases "submitted_proposal rt llm g i now c")
  case (Inl e)
  with assms show ?thesis by (simp add: submit_def)
next
  case (Inr p)
  have "mp_id p = i" using submitted_proposal_Inr [OF Inr] by metis
  then have "proposals_ok (snd (append_proposal p (sp_idempotency_key c) (proposal_audit p audit) s))"
    using assms(1,3) by (intro proposals.ok_append) simp_all
  with Inr assms(2) show ?thesis by (auto simp: submit_def split: prod.splits sum.splits)
qed

lemma submit_gateway:
  assumes "gateway_inv s" and "submit rt llm g i now c audit s = (r, s1)" and "dict_get (st_proposals s) i = None"
  shows "gateway_inv s1 \<and> reviews_follow s s1 \<and> st_items s1 = st_items s \<and> st_idempotency s1 = st_idempotency s"
proof -
  have ok: "proposals_ok s" using assms(1) by (simp add: gateway_inv_def)
  from ok assms(2) show ?thesis
  proof (cases rule: submit_cases)
    case (created p)
    have p: "valid_proposal p" "mp_status p = POpen" using submitted_proposal_Inr [OF created(1)] by metis+
    have "gateway_inv s1"
      using assms(1) p submit_proposal_idempotency [OF ok assms(2,3)] created
      by (auto simp: gateway_inv_def proposals_valid_def linked_def)
    moreover have "reviews_follow s s1"
      using created(3) assms(3) by (intro reviews_follow_set) auto
    ultimately show ?thesis using created by simp
  qed (use assms in auto)
qed

lemma reject_gateway:
  assumes "gateway_inv s" and "reject now c audit s = (r, s1)"
  shows "gateway_inv s1 \<and> reviews_follow s s1 \<and> st_items s1 = st_items s \<and> st_idempotency s1 = st_idempotency s"
  using assms(2)
proof (cases rule: reject_cases)
  case (rejected p p')
  have ok: "proposals_ok s" using assms(1) by (simp add: gateway_inv_def)
  have p: "dict_get (st_proposals s) (rv_proposal_id c) = Some p" using rejected by (simp add: get_proposal_Some)
  then have id: "mp_id p = rv_proposal_id c"
    using ok by (auto simp: proposals_ok_def intro: table_ok_ident)
  have succ: "review_succ p p'" using rejected(2,4) by (simp add: review_succ_def same_content_iff)
  have props: "st_proposals s1 = dict_set (mp_id p) p' (st_proposals s)"
      "st_proposal_idempotency s1 = st_proposal_idempotency s" "st_items s1 = st_items s"
    using rejected(6) by simp_all
  have "mp_id p' = mp_id p" "mp_tenant_id p' = mp_tenant_id p" using rejected(4) by simp_all
  then have "proposals_ok s1"
    using ok p id proposals_ok_review [of s p' p s1] by (simp add: props)
  moreover have "proposals_valid s1"
    using assms(1) rejected(5) unfolding gateway_inv_def proposals_valid_def props(1) by simp
  moreover have "linked q s1" if q: "dict_get (st_proposals s1) i = Some q" "mp_status q = PAccepted" for i q
  proof -
    have "i \<noteq> mp_id p" using q rejected(4) by (auto simp: props(1))
    with q have "dict_get (st_proposals s) i = Some q" by (simp add: props(1))
    with q(2) show ?thesis using assms(1) unfolding gateway_inv_def linked_cong [OF props(3)] by blast
  qed
  ultimately have "gateway_inv s1" unfolding gateway_inv_def by blast
  moreover have "reviews_follow s s1" using props(1) succ p id by (intro reviews_follow_set) auto
  ultimately show ?thesis using rejected(6) by simp
qed (use assms in auto)


lemma accept_command_fields:
  assumes "accept_command p c = Inr rc"
  shows "rc_tenant_id rc = mp_tenant_id p \<and> rc_workspace_id rc = mp_workspace_id p
    \<and> rc_text rc = accepted_memory_text p \<and> rc_metadata rc = [(lit ''proposal_id'', PStr (uuid_str (mp_id p))),
           (lit ''proposal_requester'', PStr (mp_requester p)),
           (lit ''proposal_target'', PStr (target_value (mp_target p))),
           (lit ''proposal_namespace'', PStr (mp_namespace p))]"
  using assms by (auto simp: accept_command_def res_bind_Inr_iff)

text \<open>An acceptance that creates a memory: the prepared item, tied to the proposal it came from.\<close>

lemma accept_written_cases:
  assumes "gateway_inv s" and "accept g fr now c audit s = (r, s1)"
  obtains (unwritten) "s1 = s" "\<And>x y. r = Inr x \<Longrightarrow> rw_retained x = Some y \<Longrightarrow> \<not> rr_created y"
  | (written) cur p' item event rc sk where "dict_get (st_proposals s) (mp_id cur) = Some cur"
      "get_proposal (rv_tenant_id c) (rv_proposal_id c) s = Some cur"
      "mp_status cur \<noteq> PRejected" "mp_status cur \<noteq> PAccepted" "mp_target cur \<noteq> TGraph"
      "accept_command cur c = Inr rc" "prepare g fr rc = Inr (item, event)" "mp_status p' = PAccepted"
      "same_content cur p'"
      "dict_get (mp_metadata p') (lit ''accepted_memory_id'') = Some (PStr (uuid_str (mi_id item)))"
      "st_items s1 = dict_set (mi_id item) item (st_items s)"
      "st_idempotency s1 = remember (mi_tenant_id item) sk (mi_id item) (st_idempotency s)"
      "st_proposals s1 = dict_set (mp_id cur) p' (st_proposals s)"
      "st_proposal_idempotency s1 = st_proposal_idempotency s"
      "st_events s1 = st_events (publish event s)"
      "r = Inr \<lparr>rw_proposal = p', rw_retained = Some \<lparr>rr_item = item, rr_created = True,
         rr_queued_event_ids = [ie_id event]\<rparr>\<rparr>"
proof -
  have valid: "proposals_valid s" and ok: "proposals_ok s" using assms(1) by (simp_all add: gateway_inv_def)
  from valid assms(2) show thesis
  proof (cases rule: accept_cases)
    case unwritten
    then show thesis using that(1) by blast
  next
    case (written p p' item event rc)
    have p: "dict_get (st_proposals s) (rv_proposal_id c) = Some p" using written(1) by (simp add: get_proposal_Some)
    then have pid: "mp_id p = rv_proposal_id c" using ok by (auto simp: proposals_ok_def intro: table_ok_ident)
    have idem: "st_proposal_idempotency s1 = st_proposal_idempotency s"
      using written(6)
      by (auto simp: accept_proposal_with_memory_def Let_def split: option.splits if_splits sum.splits)
    from written(6) show thesis
    proof (cases rule: accept_written)
      case (1 cur)
      have cur: "cur = p" using 1(1) p pid by (simp add: get_proposal_Some)
      show thesis
        using 1(2,3,6) written(1,3,4,5,7) p pid idem
        by (intro that(2) [OF _ _ _ _ _ written(4,5) _ _ _ 1(7,8)]; (simp add: cur same_content_iff 1(9,10) del: 1(1))?)
    qed
  qed
qed

lemma accept_gateway:
  assumes "gateway_inv s" and "accept g fr now c audit s = (r, s1)"
    and "dict_get (st_items s) (fr_item_id fr) = None"
  shows "gateway_inv s1 \<and> reviews_follow s s1 \<and> (ledger_ok s \<longrightarrow> ledger_ok s1)
    \<and> (\<forall>i x. dict_get (st_items s) i = Some x \<longrightarrow> dict_get (st_items s1) i = Some x)"
  using assms(1,2)
proof (cases rule: accept_written_cases)
  case (written cur p' item event rc sk)
  have inv: "proposals_ok s" "proposals_valid s" using assms(1) by (simp_all add: gateway_inv_def)
  obtain item: "mi_id item = fr_item_id fr" "mi_supersedes_id item = None" "mi_tenant_id item = mp_tenant_id cur"
      "mi_workspace_id item = mp_workspace_id cur"
    using prepare_Inr [OF written(7)] accept_command_fields [OF written(6)] by metis
  have keep: "dict_get (st_items s1) i = Some x" if "dict_get (st_items s) i = Some x" for i x
    using that assms(3) item(1) by (auto simp: written(11))
  have succ: "review_succ cur p'" using written(3,4,9) by (simp add: review_succ_def)
  have content: "mp_id p' = mp_id cur" "mp_tenant_id p' = mp_tenant_id cur" "mp_workspace_id p' = mp_workspace_id cur"
    using written(9) by (simp_all add: same_content_iff)
  have "proposals_ok s1"
    using inv(1) written(1,13,14) content proposals_ok_review [of s p' cur s1] by simp
  moreover have "proposals_valid s1"
    using inv(2) same_content_valid [OF written(9)] written(1) unfolding proposals_valid_def written(13) by simp
  moreover have "linked q s1" if q: "dict_get (st_proposals s1) i = Some q" "mp_status q = PAccepted" for i q
  proof (cases "i = mp_id cur")
    case True
    then have "q = p'" using q(1) by (simp add: written(13))
    then show ?thesis unfolding linked_def using written(10,11) item content by (intro exI [of _ item]) simp
  next
    case False
    then have "linked q s" using q assms(1) unfolding gateway_inv_def written(13) by simp
    then show ?thesis unfolding linked_def using keep by blast
  qed
  ultimately have "gateway_inv s1" unfolding gateway_inv_def by blast
  moreover have "reviews_follow s s1"
    using written(1,13) succ by (intro reviews_follow_set) auto
  moreover have "ledger_ok s1" if ok: "ledger_ok s"
  proof -
    have "extends_lineage (st_items s) item" using item assms(3) by (simp add: extends_lineage_def)
    from ledger_ok_insert [OF ok this, of sk] show ?thesis
      by (rule ledger_ok_cong [THEN iffD2, rotated 2]) (simp_all add: written(11,12))
  qed
  ultimately show ?thesis using keep by blast
qed (use assms in auto)

lemma auto_accept_gateway:
  assumes "gateway_inv s" and "auto_accept rt g fr now p s = (r, s1)"
    and "dict_get (st_items s) (fr_item_id fr) = None"
  shows "gateway_inv s1 \<and> reviews_follow s s1 \<and> (ledger_ok s \<longrightarrow> ledger_ok s1)
    \<and> (\<forall>i x. dict_get (st_items s) i = Some x \<longrightarrow> dict_get (st_items s1) i = Some x)"
proof (cases "auto_accept_reason rt p")
  case None
  with assms show ?thesis by (simp add: auto_accept_def)
next
  case (Some reason)
  obtain x y where e: "accept g fr now (auto_review p reason) None s = (x, y)" by fastforce
  then have "s1 = y" using assms(2) Some by (simp add: auto_accept_def split: sum.splits)
  with accept_gateway [OF assms(1) e assms(3)] show ?thesis by simp
qed


section \<open>What an acceptance stores\<close>

lemma memory_shape_Inr:
  assumes "memory_shape target layer kind = Inr (l, k)"
  shows "l = (case layer of Some x \<Rightarrow> x | None \<Rightarrow> (case target of TPreference \<Rightarrow> Social | TDecision \<Rightarrow> Core
      | TTask \<Rightarrow> Episodic | TProcedure \<Rightarrow> Procedural | _ \<Rightarrow> Semantic))"
    and "k = (case given kind of Some x \<Rightarrow> x | None \<Rightarrow>
      lit ''proposed_'' @ (if target = TAuto then lit ''memory'' else target_value target))"
  using assms
  by (cases layer; cases "given kind"; cases target; simp add: memory_shape_def lit_def)+

lemma accept_command_rest:
  assumes "accept_command p c = Inr rc"
  shows "rc_layer rc = (case rv_layer c of Some x \<Rightarrow> x | None \<Rightarrow> (case mp_target p of TPreference \<Rightarrow> Social
      | TDecision \<Rightarrow> Core | TTask \<Rightarrow> Episodic | TProcedure \<Rightarrow> Procedural | _ \<Rightarrow> Semantic))"
    and "rc_kind rc = (case given (rv_kind c) of Some x \<Rightarrow> x | None \<Rightarrow>
      lit ''proposed_'' @ (if mp_target p = TAuto then lit ''memory'' else target_value (mp_target p)))"
    and "rc_scope rc = (if mp_thread_id p = None then Workspace else Thread)"
    and "rc_labels rc = uniq (lit ''proposal'' # mp_namespace p # target_value (mp_target p) # rv_labels c)"
    and "rc_importance rc = mp_importance p" and "rc_confidence rc = mp_confidence p"
    and "rc_status rc = Active" and "rc_agent_id rc = mp_agent_id p" and "rc_thread_id rc = mp_thread_id p"
    and "pv_source_kind (rc_provenance rc) = lit ''memory_proposal''"
    and "pv_origin_uri (rc_provenance rc) = Some (lit ''proposal://'' @ uuid_str (mp_id p))"
proof -
  from assms obtain l k where lk: "memory_shape (mp_target p) (rv_layer c) (rv_kind c) = Inr (l, k)"
    by (auto simp: accept_command_def res_bind_Inr_iff)
  show "rc_layer rc = (case rv_layer c of Some x \<Rightarrow> x | None \<Rightarrow> (case mp_target p of TPreference \<Rightarrow> Social
      | TDecision \<Rightarrow> Core | TTask \<Rightarrow> Episodic | TProcedure \<Rightarrow> Procedural | _ \<Rightarrow> Semantic))"
    using assms memory_shape_Inr(1) [OF lk] by (simp add: accept_command_def lk res_bind_def) auto
  show "rc_kind rc = (case given (rv_kind c) of Some x \<Rightarrow> x | None \<Rightarrow>
      lit ''proposed_'' @ (if mp_target p = TAuto then lit ''memory'' else target_value (mp_target p)))"
    using assms memory_shape_Inr(2) [OF lk] by (simp add: accept_command_def lk res_bind_def) auto
qed (use assms in \<open>auto simp: accept_command_def res_bind_Inr_iff\<close>)


lemma accept_replayed:
  assumes "proposals_valid s" and "proposals_ok s" and "accept g fr now c audit s = (Inr res, s1)"
    and "rw_retained res = Some y" and "\<not> rr_created y"
  obtains i where "get_proposal (rv_tenant_id c) (rv_proposal_id c) s = Some (rw_proposal res)"
    and "(i, rr_item y) \<in> set (st_items s)"
    and "remembered (st_idempotency s) (mp_tenant_id (rw_proposal res))
        (scope_idempotency_key (mp_workspace_id (rw_proposal res))
          (Some (accept_key (rw_proposal res) (rv_idempotency_key c)))) = Some i
      \<or> (mp_status (rw_proposal res) = PAccepted
         \<and> dict_get (mp_metadata (rw_proposal res)) (lit ''accepted_memory_id'') = Some (PStr (uuid_str i)))"
proof -
  from assms(3) obtain p rc item event where plan:
      "get_proposal (rv_tenant_id c) (rv_proposal_id c) s = Some p" "accept_command p c = Inr rc"
      "prepare g fr rc = Inr (item, event)"
      "accept_proposal_with_memory p item event (rv_reviewer c) (rv_reason c)
         (accept_key p (rc_idempotency_key rc)) (proposal_audit p audit) now s = (Inr (rw_proposal res, rr_item y, False), s1)"
    using assms(4,5)
    by (auto simp: accept_def res_bind_Inr_iff load_for_review_def acceptable_def
        split: option.splits if_splits sum.splits prod.splits)
  have pid: "get_proposal (mp_tenant_id p) (mp_id p) s = Some p"
    using plan(1) assms(2) by (auto simp: get_proposal_Some proposals_ok_def dest: table_ok_ident)
  have k: "accept_key p (rc_idempotency_key rc) = accept_key p (rv_idempotency_key c)"
    using plan(2) by (auto simp: accept_command_def res_bind_Inr_iff accept_key_def given_def lit_def split: option.splits)
  have t: "mi_tenant_id item = mp_tenant_id p" "mi_workspace_id item = mp_workspace_id p"
    using prepare_Inr [OF plan(3)] accept_command_fields [OF plan(2)] by metis+
  have "rw_proposal res = p \<and> (\<exists>i. (i, rr_item y) \<in> set (st_items s)
     \<and> (remembered (st_idempotency s) (mp_tenant_id p) (scope_idempotency_key (mp_workspace_id p)
          (Some (accept_key p (rv_idempotency_key c)))) = Some i
      \<or> (mp_status p = PAccepted \<and> dict_get (mp_metadata p) (lit ''accepted_memory_id'') = Some (PStr (uuid_str i)))))"
    using plan(4) unfolding accept_proposal_with_memory_def Let_def pid option.case k t
    by (auto simp: res_bind_Inr_iff dict_index_def accepted_memory_def find_Some_iff
        dest!: map_of_SomeD nth_mem split: if_splits option.splits sum.splits pyval.splits)
  then show thesis using plan(1) that by metis
qed

section \<open>Properties of the service\<close>

text \<open>
  C1: An accepted proposal becomes the memory it describes. When an acceptance reports a new memory, the
  proposal was stored, open to acceptance and not a graph proposal. The memory is active, starts a chain
  and has the tenant, workspace, agent, thread, importance and confidence of the proposal; its scope is
  the thread when the proposal has one; its layer and kind are the reviewer's, or those of the
  proposal's target; its labels name the proposal, its namespace and its target before the reviewer's;
  its provenance names the proposal; its text is what the privacy guard makes of the proposal text with
  its evidence, at most 6004 characters before the guard. The proposal keeps its content, is accepted
  and links to the memory; one retained event for the memory is queued; with an unused identity the
  ledger stays well formed. An acceptance that reports no new memory changes nothing and answers with
  the stored proposal and a stored memory, the one its idempotency key or the proposal's link names.
\<close>

theorem accept_retains_proposal:
  assumes "gateway_inv s" and "accept g fr now c audit s = (r, s1)"
  shows "case r of
      Inl e \<Rightarrow> s1 = s
    | Inr res \<Rightarrow>
        (\<exists>y cur. rw_retained res = Some y
          \<and> get_proposal (rv_tenant_id c) (rv_proposal_id c) s = Some cur \<and> (if rr_created y then
          (\<exists>d event. mp_status cur \<noteq> PRejected \<and> mp_status cur \<noteq> PAccepted \<and> mp_target cur \<noteq> TGraph
            \<and> same_content cur (rw_proposal res) \<and> mp_status (rw_proposal res) = PAccepted
            \<and> dict_get (mp_metadata (rw_proposal res)) (lit ''accepted_memory_id'')
                = Some (PStr (uuid_str (fr_item_id fr)))
            \<and> st_proposals s1 = dict_set (mp_id cur) (rw_proposal res) (st_proposals s)
            \<and> st_items s1 = dict_set (fr_item_id fr) (rr_item y) (st_items s)
            \<and> st_events s1 = st_events (publish event s) \<and> ie_name event = retained_v1
            \<and> ie_correlation_id event = Some (fr_item_id fr)
            \<and> privacy_apply g (accepted_memory_text cur) = Inr d \<and> mi_text (rr_item y) = pd_text d
            \<and> length (accepted_memory_text cur) \<le> 6004
            \<and> valid_item (rr_item y) \<and> mi_revision (rr_item y) = 1 \<and> mi_supersedes_id (rr_item y) = None
            \<and> mi_status (rr_item y) = Active
            \<and> mi_tenant_id (rr_item y) = mp_tenant_id cur \<and> mi_workspace_id (rr_item y) = mp_workspace_id cur
            \<and> mi_agent_id (rr_item y) = mp_agent_id cur \<and> mi_thread_id (rr_item y) = mp_thread_id cur
            \<and> mi_scope (rr_item y) = (if mp_thread_id cur = None then Workspace else Thread)
            \<and> mi_layer (rr_item y) = (case rv_layer c of Some layer \<Rightarrow> layer | None \<Rightarrow>
                (case mp_target cur of TPreference \<Rightarrow> Social | TDecision \<Rightarrow> Core | TTask \<Rightarrow> Episodic
                  | TProcedure \<Rightarrow> Procedural | _ \<Rightarrow> Semantic))
            \<and> mi_kind (rr_item y) = (case given (rv_kind c) of Some kind \<Rightarrow> kind | None \<Rightarrow>
                lit ''proposed_'' @ (if mp_target cur = TAuto then lit ''memory'' else target_value (mp_target cur)))
            \<and> mi_importance (rr_item y) = mp_importance cur \<and> mi_confidence (rr_item y) = mp_confidence cur
            \<and> mi_labels (rr_item y)
                = uniq (lit ''proposal'' # mp_namespace cur # target_value (mp_target cur) # rv_labels c)
            \<and> pv_source_kind (mi_provenance (rr_item y)) = lit ''memory_proposal''
            \<and> pv_origin_uri (mi_provenance (rr_item y)) = Some (lit ''proposal://'' @ uuid_str (mp_id cur))
            \<and> mi_metadata (rr_item y) = dict_merge
                [(lit ''proposal_id'', PStr (uuid_str (mp_id cur))),
                 (lit ''proposal_requester'', PStr (mp_requester cur)),
                 (lit ''proposal_target'', PStr (target_value (mp_target cur))),
                 (lit ''proposal_namespace'', PStr (mp_namespace cur))] (pd_metadata d)
            \<and> (ledger_ok s \<and> dict_get (st_items s) (fr_item_id fr) = None \<longrightarrow> ledger_ok s1 \<and> gateway_inv s1))
          else s1 = s \<and> rw_proposal res = cur \<and> (\<exists>i. (i, rr_item y) \<in> set (st_items s)
            \<and> (remembered (st_idempotency s) (mp_tenant_id cur) (scope_idempotency_key (mp_workspace_id cur)
                  (Some (accept_key cur (rv_idempotency_key c)))) = Some i
              \<or> mp_status cur = PAccepted \<and> dict_get (mp_metadata cur) (lit ''accepted_memory_id'')
                  = Some (PStr (uuid_str i))))))"
proof (cases r)
  case (Inl e)
  with assms show ?thesis by (cases rule: accept_written_cases) simp_all
next
  case (Inr res)
  then have res: "accept g fr now c audit s = (Inr res, s1)" using assms(2) by simp
  then obtain y where y: "rw_retained res = Some y"
    by (auto simp: accept_def split: sum.splits prod.splits)
  have ok: "proposals_valid s" "proposals_ok s" using assms(1) by (simp_all add: gateway_inv_def)
  from assms show ?thesis
  proof (cases rule: accept_written_cases)
    case unwritten
    then have "\<not> rr_created y" using Inr y by blast
    then show ?thesis using accept_replayed [OF ok res y] unwritten(1) Inr y by auto
  next
    case (written cur p' item event rc sk)
    have len: "length (accepted_memory_text cur) \<le> 6004"
      unfolding accepted_memory_text_def using length_trim_text [of _ 6000] by simp
    have ledger: "ledger_ok s \<and> dict_get (st_items s) (fr_item_id fr) = None \<longrightarrow> ledger_ok s1 \<and> gateway_inv s1"
      using accept_gateway [OF assms] by blast
    obtain d where d: "privacy_apply g (rc_text rc) = Inr d" "mi_text item = pd_text d" "valid_item item"
      "mi_id item = fr_item_id fr" "mi_supersedes_id item = None" "mi_revision item = 1"
      "mi_tenant_id item = rc_tenant_id rc" "mi_workspace_id item = rc_workspace_id rc"
      "mi_layer item = rc_layer rc" "mi_scope item = rc_scope rc"
      "mi_agent_id item = rc_agent_id rc" "mi_thread_id item = rc_thread_id rc"
      "mi_metadata item = dict_merge (rc_metadata rc) (pd_metadata d)"
      "ie_name event = retained_v1" "ie_correlation_id event = Some (fr_item_id fr)"
      using prepare_Inr [OF written(7)] by metis
    have e: "res = \<lparr>rw_proposal = p', rw_retained = Some \<lparr>rr_item = item, rr_created = True,
        rr_queued_event_ids = [ie_id event]\<rparr>\<rparr>" using written(16) Inr by simp
    show ?thesis
      using d(1) unfolding Inr sum.case e review_result.select_convs option.inject ex_simps
      by (intro exI [of _ "\<lparr>rr_item = item, rr_created = True, rr_queued_event_ids = [ie_id event]\<rparr>"]
          exI [of _ cur] conjI refl written(2);
        simp add: written d len ledger prepare_rest [OF written(7)] accept_command_rest [OF written(6)]
          accept_command_fields [OF written(6)]; intro exI [of _ event] conjI refl d(14,15))
  qed
qed

abbreviation sample_review :: review_command where
  "sample_review \<equiv> \<lparr>rv_tenant_id = 7, rv_proposal_id = 3, rv_reviewer = lit ''ann'', rv_reason = [],
     rv_layer = None, rv_kind = None, rv_labels = [lit ''ops''], rv_idempotency_key = None\<rparr>"

text \<open>An open proposal under an unused key is accepted whenever its memory can be prepared.\<close>

lemma accept_open:
  assumes "gateway_inv s" and p: "get_proposal (rv_tenant_id c) (rv_proposal_id c) s = Some p"
    and "mp_status p \<noteq> PRejected" and "mp_status p \<noteq> PAccepted" and "mp_target p \<noteq> TGraph"
    and rc: "accept_command p c = Inr rc" and item: "prepare g fr rc = Inr (item, event)"
    and key: "remembered (st_idempotency s) (mp_tenant_id p) (scope_idempotency_key (mp_workspace_id p)
      (Some (accept_key p (rv_idempotency_key c)))) = None"
  shows "\<exists>p' s1. accept g fr now c audit s = (Inr \<lparr>rw_proposal = p', rw_retained = Some
    \<lparr>rr_item = item, rr_created = True, rr_queued_event_ids = [ie_id event]\<rparr>\<rparr>, s1)"
proof -
  have v: "valid_proposal p" "mp_id p = rv_proposal_id c" "mp_tenant_id p = rv_tenant_id c"
    using assms(1) p
    by (auto simp: gateway_inv_def proposals_valid_def proposals_ok_def get_proposal_Some intro: table_ok_ident)
  have k: "accept_key p (rc_idempotency_key rc) = accept_key p (rv_idempotency_key c)"
    using rc by (auto simp: accept_command_def res_bind_Inr_iff accept_key_def given_def lit_def split: option.splits)
  have t: "mi_tenant_id item = mp_tenant_id p" "mi_workspace_id item = mp_workspace_id p"
    using prepare_Inr [OF item] accept_command_fields [OF rc] by metis+
  have "valid_proposal (p\<lparr>mp_status := PAccepted, mp_reviewed_at := a, mp_reviewer := b, mp_review_reason := c,
      mp_metadata := d\<rparr>)" for a b c d
    using v(1) by (simp add: valid_proposal_def)
  then have init: "memory_proposal_post_init (p\<lparr>mp_status := PAccepted, mp_reviewed_at := a, mp_reviewer := b,
      mp_review_reason := c, mp_metadata := d\<rparr>) = Inr (p\<lparr>mp_status := PAccepted, mp_reviewed_at := a,
      mp_reviewer := b, mp_review_reason := c, mp_metadata := d\<rparr>)" for a b c d
    by (simp add: memory_proposal_post_init_Inr)
  have "get_proposal (mp_tenant_id p) (mp_id p) s = Some p" using p v by simp
  then obtain p' s1 where w: "accept_proposal_with_memory p item event (rv_reviewer c) (rv_reason c)
      (accept_key p (rc_idempotency_key rc)) (proposal_audit p audit) now s = (Inr (p', item, True), s1)"
    using assms(3,4) key by (simp add: accept_proposal_with_memory_def t k init Let_def)
  have "load_for_review c s = Inr p" "acceptable p = Inr p"
    using p assms(3,5) by (simp_all add: load_for_review_def acceptable_def)
  then show ?thesis using w rc item by (simp add: accept_def)
qed

definition plain_guard :: privacy_guard where
  "plain_guard = \<lparr>pg_enabled = False, pg_action = Redact\<rparr>"

abbreviation sample_acceptance :: "review_result res \<times> store" where
  "sample_acceptance \<equiv> accept plain_guard (sample_fresh 1 21) 9 sample_review None proposal_store"

lemma proposal_store_rows: "st_proposals proposal_store = [(3, sample_proposal 3 7 8 10)]"
  "st_proposal_idempotency proposal_store = []" "st_idempotency proposal_store = []"
  by (simp_all add: proposal_store_def append_proposal_def idempotent_insert_def empty_store_def
      sample_proposal_def remember_def remembered_def scope_idempotency_key_def given_def)

lemma proposal_store_inv: "gateway_inv proposal_store"
proof -
  have "valid_proposal (sample_proposal 3 7 8 10)" by (simp add: valid_proposal_def sample_proposal_def unit_interval_def) code_simp
  then show ?thesis
    by (simp add: gateway_inv_def proposals_ok_def proposals_valid_def table_ok_def idem_ok_def proposal_store_rows)
      (simp add: sample_proposal_def)
qed

lemma sample_acceptance_result:
  obtains res y where "fst sample_acceptance = Inr res" "rw_retained res = Some y" "rr_created y"
proof -
  let ?p = "sample_proposal 3 7 8 10"
  have "\<not> isl (accept_command ?p sample_review)" by code_simp
  then obtain rc where rc: "accept_command ?p sample_review = Inr rc"
    by (cases "accept_command ?p sample_review") auto
  have "\<not> isl (res_bind (accept_command ?p sample_review) (prepare plain_guard (sample_fresh 1 21)))" by code_simp
  then obtain item event where item: "prepare plain_guard (sample_fresh 1 21) rc = Inr (item, event)"
    using rc by (cases "prepare plain_guard (sample_fresh 1 21) rc") auto
  have "get_proposal 7 3 proposal_store = Some ?p"
    by (simp add: get_proposal_def proposal_store_rows) (simp add: sample_proposal_def)
  moreover have "remembered (st_idempotency proposal_store) t sk = None" for t sk
    by (simp add: proposal_store_rows remembered_def split: option.split)
  ultimately obtain p' s1 where "sample_acceptance = (Inr \<lparr>rw_proposal = p', rw_retained = Some
      \<lparr>rr_item = item, rr_created = True, rr_queued_event_ids = [ie_id event]\<rparr>\<rparr>, s1)"
    using accept_open [OF proposal_store_inv _ _ _ _ rc item, of 9 None]
    by (auto simp: sample_proposal_def)
  then show thesis
    by (metis that fst_conv review_result.select_convs(2) retain_result.select_convs(2))
qed

theorem accept_retains_proposal_witness:
  "\<exists>res y. fst sample_acceptance = Inr res \<and> rw_retained res = Some y
     \<and> dict_get (st_items (snd sample_acceptance)) 1 = Some (rr_item y) \<and> mp_status (rw_proposal res) = PAccepted
     \<and> mi_layer (rr_item y) = Semantic \<and> mi_importance (rr_item y) = 1/2
     \<and> mi_labels (rr_item y) = [lit ''proposal'', lit ''default'', lit ''fact'', lit ''ops'']"
proof -
  obtain res y where r: "fst sample_acceptance = Inr res" "rw_retained res = Some y" "rr_created y"
    by (rule sample_acceptance_result)
  have p: "get_proposal 7 3 proposal_store = Some (sample_proposal 3 7 8 10)"
    by (simp add: get_proposal_def proposal_store_rows) (simp add: sample_proposal_def)
  have "uniq [lit ''proposal'', lit ''default'', lit ''fact'', lit ''ops'']
      = [lit ''proposal'', lit ''default'', lit ''fact'', lit ''ops'']"
    by (simp add: uniq_def lit_def)
  with accept_retains_proposal [OF proposal_store_inv prod.collapse [symmetric], of plain_guard
      "sample_fresh 1 21" 9 sample_review None] r p
  show ?thesis by (auto simp: sample_fresh_def sample_proposal_def)
qed

text \<open>
  C98: A rejection can overwrite an acceptance. \<open>reject\<close> decides on a proposal it read earlier: when an
  acceptance of the same proposal commits between its read and its write, the write still succeeds.
  The proposal ends rejected and without its link, while the memory the acceptance created is stored
  and its event is queued.
\<close>

theorem late_rejection_overwrites_acceptance:
  assumes "gateway_inv s" and "reject_read now c s = Inr stale"
    and "accept g fr now' c' audit' s = (Inr res, s1)" and "rw_retained res = Some y" and "rr_created y"
    and "rv_tenant_id c' = rv_tenant_id c" and "rv_proposal_id c' = rv_proposal_id c"
    and "reject_write stale audit s1 = (r, s2)"
  shows "(\<exists>out. r = Inr out \<and> mp_status (rw_proposal out) = PRejected)
    \<and> dict_get (st_proposals s2) (rv_proposal_id c) = Some stale \<and> mp_status stale = PRejected
    \<and> (\<exists>p. get_proposal (rv_tenant_id c) (rv_proposal_id c) s = Some p \<and> mp_metadata stale = mp_metadata p)
    \<and> dict_get (st_items s2) (fr_item_id fr) = Some (rr_item y)"
proof -
  have ok: "proposals_ok s" using assms(1) by (simp add: gateway_inv_def)
  from assms(2) obtain p where p: "get_proposal (rv_tenant_id c) (rv_proposal_id c) s = Some p"
      "stale = p\<lparr>mp_status := PRejected, mp_reviewed_at := Some now,
        mp_reviewer := Some (reviewer_name (rv_reviewer c)),
        mp_review_reason := take 1000 (strip (rv_reason c))\<rparr>"
    by (auto simp: reject_read_def load_for_review_def res_bind_Inr_iff reviewed_proposal_def
        memory_proposal_post_init_Inr split: option.splits if_splits)
  from assms(1,3) show ?thesis
  proof (cases rule: accept_written_cases)
    case unwritten
    then show ?thesis using assms(4,5) by blast
  next
    case (written cur p' item event rc sk)
    have cur: "cur = p" using written(2) p(1) assms(6,7) by simp
    have id: "mp_id p = rv_proposal_id c"
      using ok p(1) by (auto simp: proposals_ok_def get_proposal_Some intro: table_ok_ident)
    have "get_proposal (mp_tenant_id stale) (mp_id stale) s1 = Some p'"
      using written(9,13) p by (simp add: get_proposal_Some cur same_content_iff)
    then have s2: "s2 = with_audit (proposal_audit stale audit)
          (s1\<lparr>st_proposals := dict_set (mp_id stale) stale (st_proposals s1)\<rparr>)"
        "r = Inr \<lparr>rw_proposal = stale, rw_retained = None\<rparr>"
      using assms(8) by (simp_all add: reject_write_def save_proposal_review_def)
    have item: "rr_item y = item" using written(16) assms(4) by auto
    have "mi_id item = fr_item_id fr" using prepare_Inr [OF written(7)] by metis
    then have s1: "dict_get (st_items s1) (fr_item_id fr) = Some (rr_item y)"
      by (simp add: written(11) item)
    have "mp_id stale = rv_proposal_id c" "mp_status stale = PRejected" "mp_metadata stale = mp_metadata p"
      using p(2) id by simp_all
    then show ?thesis using s2 p(1) s1 by simp
  qed
qed


theorem late_rejection_overwrites_acceptance_witness:
  "\<exists>stale s2. reject_read 9 sample_review proposal_store = Inr stale
     \<and> reject_write stale None (snd sample_acceptance) = (Inr \<lparr>rw_proposal = stale, rw_retained = None\<rparr>, s2)
     \<and> mp_status stale = PRejected \<and> (\<exists>m. dict_get (st_items s2) 1 = Some m)"
proof -
  obtain res y where r: "fst sample_acceptance = Inr res" "rw_retained res = Some y" "rr_created y"
    by (rule sample_acceptance_result)
  have "\<not> isl (reject_read 9 sample_review proposal_store)" by code_simp
  then obtain stale where stale: "reject_read 9 sample_review proposal_store = Inr stale"
    by (cases "reject_read 9 sample_review proposal_store") auto
  obtain x s2 where w: "reject_write stale None (snd sample_acceptance) = (x, s2)" by fastforce
  have "x = Inr \<lparr>rw_proposal = stale, rw_retained = None\<rparr>" if "x = Inr out" for out
    using w that by (auto simp: reject_write_def save_proposal_review_def split: sum.splits option.splits prod.splits)
  with late_rejection_overwrites_acceptance [OF proposal_store_inv stale _ r(2,3) _ _ w] r(1) stale w
  show ?thesis by (metis prod.collapse review_command.select_convs(1,2) sample_fresh_def fresh.select_convs(1))
qed

end
