(* ===== verification/DateTime.thy ===== *)
theory DateTime
  imports Text
begin

text \<open>
  The text of an instant: \<open>isoformat()\<close> of an aware UTC datetime and \<open>datetime.fromisoformat\<close> on texts
  of the layout \<open>YYYY-MM-DDTHH:MM:SS[.ffffff]\<close> with an offset in hours and minutes. Instants are
  microseconds since the Unix epoch; the calendar is the proleptic Gregorian one, computed on years
  that begin in March. The other layouts \<open>fromisoformat\<close> accepts are a parameter.
\<close>

section \<open>The calendar\<close>

text \<open>Days since the first of March of year zero, to year, month and day and back.\<close>

definition civil_of_days :: "int \<Rightarrow> int \<times> int \<times> int" where
  "civil_of_days z =
    (let era = z div 146097; doe = z mod 146097;
         c = min 3 (doe div 36524); r = doe - 36524 * c;
         q = r div 1461; r' = r mod 1461;
         a = min 3 (r' div 365); doy = r' - 365 * a;
         mp = (5 * doy + 2) div 153;
         d = doy - (153 * mp + 2) div 5 + 1;
         m = (if mp < 10 then mp + 3 else mp - 9)
     in (400 * era + 100 * c + 4 * q + a + (if m \<le> 2 then 1 else 0), m, d))"

definition days_of_civil :: "int \<Rightarrow> int \<Rightarrow> int \<Rightarrow> int" where
  "days_of_civil y m d =
    (let y' = (if m \<le> 2 then y - 1 else y); era = y' div 400; yoe = y' mod 400;
         mp = (m + 9) mod 12; doy = (153 * mp + 2) div 5 + d - 1
     in era * 146097 + yoe * 365 + yoe div 4 - yoe div 100 + doy)"

lemma year_of_era:
  fixes c q a :: int
  assumes "0 \<le> c" "c \<le> 3" "0 \<le> q" "q \<le> 24" "0 \<le> a" "a \<le> 3"
  shows "(100 * c + 4 * q + a) div 4 = 25 * c + q" and "(100 * c + 4 * q + a) div 100 = c"
    and "0 \<le> 100 * c + 4 * q + a" and "100 * c + 4 * q + a < 400"
proof -
  have "(100 * c + 4 * q + a) div 4 = (a + 4 * (25 * c + q)) div 4" by (simp add: algebra_simps)
  also have "\<dots> = 25 * c + q" using assms by (subst div_mult_self2) simp_all
  finally show "(100 * c + 4 * q + a) div 4 = 25 * c + q" .
  have "(100 * c + 4 * q + a) div 100 = ((4 * q + a) + 100 * c) div 100" by (simp add: algebra_simps)
  also have "\<dots> = c" using assms by (subst div_mult_self2) simp_all
  finally show "(100 * c + 4 * q + a) div 100 = c" .
qed (use assms in linarith)+

lemma month_of_day:
  fixes doy :: int
  assumes "0 \<le> doy" "doy \<le> 365"
  defines "mp \<equiv> (5 * doy + 2) div 153"
  shows "0 \<le> mp" "mp \<le> 11" "0 \<le> doy - (153 * mp + 2) div 5" "doy - (153 * mp + 2) div 5 \<le> 30"
proof -
  have mp: "153 * mp \<le> 5 * doy + 2" "5 * doy + 2 < 153 * mp + 153" unfolding mp_def by linarith+
  define k where "k = (153 * mp + 2) div 5"
  have k: "5 * k \<le> 153 * mp + 2" "153 * mp + 2 < 5 * k + 5" unfolding k_def by linarith+
  show "0 \<le> mp" "mp \<le> 11" "0 \<le> doy - (153 * mp + 2) div 5" "doy - (153 * mp + 2) div 5 \<le> 30"
    using mp k assms(1,2) unfolding k_def [symmetric] by linarith+
qed

lemma civil_days:
  assumes "civil_of_days z = (y, m, d)"
  shows "days_of_civil y m d = z \<and> 1 \<le> m \<and> m \<le> 12 \<and> 1 \<le> d \<and> d \<le> 31"
proof -
  define era where "era = z div 146097"
  define doe where "doe = z mod 146097"
  define c where "c = min 3 (doe div 36524)"
  define r where "r = doe - 36524 * c"
  define q where "q = r div 1461"
  define r' where "r' = r mod 1461"
  define a where "a = min 3 (r' div 365)"
  define doy where "doy = r' - 365 * a"
  define mp where "mp = (5 * doy + 2) div 153"
  have doe: "0 \<le> doe" "doe \<le> 146096" unfolding doe_def by simp_all
  have bounds: "0 \<le> min 3 (x div n)" "min 3 (x div n) \<le> 3" "0 \<le> x - n * min 3 (x div n)"
      "x - n * min 3 (x div n) \<le> n - 1 \<or> 3 * n + n \<le> x \<and> x - n * min 3 (x div n) = x - 3 * n"
    if "0 \<le> x" "0 < n" for x n :: int
  proof -
    have k: "n * (x div n) \<le> x" "x < n * (x div n) + n" "0 \<le> x div n"
      using that mult_div_mod_eq [of n x] pos_mod_bound [of n x] pos_mod_sign [of n x]
        pos_imp_zdiv_nonneg_iff [of n x] by linarith+
    then show "0 \<le> min 3 (x div n)" "min 3 (x div n) \<le> 3" by simp_all
    show "0 \<le> x - n * min 3 (x div n)"
      "x - n * min 3 (x div n) \<le> n - 1 \<or> 3 * n + n \<le> x \<and> x - n * min 3 (x div n) = x - 3 * n"
    proof (atomize (full), cases "x div n \<le> 3")
      case True
      then have "min 3 (x div n) = x div n" by simp
      with k show "0 \<le> x - n * min 3 (x div n) \<and>
        (x - n * min 3 (x div n) \<le> n - 1 \<or> 3 * n + n \<le> x \<and> x - n * min 3 (x div n) = x - 3 * n)" by simp
    next
      case False
      then have h: "n * 4 \<le> n * (x div n)" and three: "min 3 (x div n) = 3"
        using that(2) by (simp_all add: mult_left_mono)
      show "0 \<le> x - n * min 3 (x div n) \<and>
        (x - n * min 3 (x div n) \<le> n - 1 \<or> 3 * n + n \<le> x \<and> x - n * min 3 (x div n) = x - 3 * n)"
        using h k that unfolding three by (intro conjI; linarith)
    qed
  qed
  have c: "0 \<le> c" "c \<le> 3" "0 \<le> r" "r \<le> 36524"
    using bounds [OF doe(1), of 36524] doe(2) unfolding c_def r_def by linarith+
  have q: "0 \<le> q" "q \<le> 24" "0 \<le> r'" "r' \<le> 1460" using c(3,4) unfolding q_def r'_def by linarith+
  have a: "0 \<le> a" "a \<le> 3" "0 \<le> doy" "doy \<le> 365"
    using bounds [OF q(3), of 365] q(4) unfolding a_def doy_def by linarith+
  note ye = year_of_era [OF c(1,2) q(1,2) a(1,2)]
  note mo = month_of_day [OF a(3,4), folded mp_def]
  let ?y = "400 * era + (100 * c + 4 * q + a)"
  have civil: "m = (if mp < 10 then mp + 3 else mp - 9)" "d = doy - (153 * mp + 2) div 5 + 1"
    "y = ?y + (if m \<le> 2 then 1 else 0)"
  proof -
    define m' where "m' = (if mp < 10 then mp + 3 else mp - 9)"
    have "civil_of_days z = (400 * era + 100 * c + 4 * q + a + (if m' \<le> 2 then 1 else 0), m',
        doy - (153 * mp + 2) div 5 + 1)"
      unfolding civil_of_days_def Let_def era_def doe_def c_def r_def q_def r'_def a_def doy_def mp_def m'_def
      by (rule refl)
    then show "m = (if mp < 10 then mp + 3 else mp - 9)" "d = doy - (153 * mp + 2) div 5 + 1"
        "y = ?y + (if m \<le> 2 then 1 else 0)"
      using assms by (simp_all add: m'_def [symmetric])
  qed
  have m: "(m + 9) mod 12 = mp" "1 \<le> m" "m \<le> 12" using mo(1,2) unfolding civil(1) by (cases "mp < 10"; simp)+
  have y: "(if m \<le> 2 then y - 1 else y) = ?y" using civil(3) by simp
  have era: "?y div 400 = era" "?y mod 400 = 100 * c + 4 * q + a" using ye(3,4) by simp_all
  have "days_of_civil y m d = era * 146097 + (100 * c + 4 * q + a) * 365 + (25 * c + q) - c + doy"
    unfolding days_of_civil_def Let_def y era m(1) ye(1,2) using civil(2) by simp
  also have "\<dots> = era * 146097 + doe"
  proof -
    have "r = 1461 * q + r'" unfolding q_def r'_def by simp
    then have "doe = 36524 * c + 1461 * q + (365 * a + doy)" unfolding r_def doy_def by simp
    then show ?thesis by simp
  qed
  also have "\<dots> = z" unfolding era_def doe_def by simp
  finally show ?thesis using m mo(3,4) civil(2) by simp
qed

section \<open>Fixed-width numbers\<close>

fun pad :: "nat \<Rightarrow> int \<Rightarrow> str" where
  "pad 0 x = []"
| "pad (Suc n) x = pad n (x div 10) @ [48 + x mod 10]"

definition is_decimal :: "int \<Rightarrow> bool" where "is_decimal c \<longleftrightarrow> 48 \<le> c \<and> c \<le> 57"

definition decimal :: "str \<Rightarrow> int" where
  "decimal s = foldl (\<lambda>n c. 10 * n + (c - 48)) 0 s"

lemma length_pad [simp]: "length (pad n x) = n"
  by (induction n arbitrary: x) simp_all

lemma pad_decimal: "list_all is_decimal (pad n x)"
  by (induction n arbitrary: x) (auto simp: is_decimal_def)

lemma decimal_pad: "0 \<le> x \<Longrightarrow> x < 10 ^ n \<Longrightarrow> decimal (pad n x) = x"
  by (induction n arbitrary: x) (auto simp: decimal_def)

definition take_num :: "nat \<Rightarrow> str \<Rightarrow> (int \<times> str) option" where
  "take_num n s = (if n \<le> length s \<and> list_all is_decimal (take n s) then Some (decimal (take n s), drop n s) else None)"

definition take_char :: "int \<Rightarrow> str \<Rightarrow> str option" where
  "take_char c s = (case s of [] \<Rightarrow> None | x # xs \<Rightarrow> if x = c then Some xs else None)"

lemma take_num_pad [simp]: "0 \<le> x \<Longrightarrow> x < 10 ^ n \<Longrightarrow> take_num n (pad n x @ rest) = Some (x, rest)"
  by (simp add: take_num_def pad_decimal decimal_pad)

lemma take_char_Cons [simp]: "take_char c (x # xs) = (if x = c then Some xs else None)"
  by (simp add: take_char_def)

section \<open>Instants\<close>

definition epoch_day :: int where "epoch_day = 719468"
definition day_us :: int where "day_us = 86400000000"

definition isoformat :: "datetime \<Rightarrow> str" where
  "isoformat t =
    (case civil_of_days (t div day_us + epoch_day) of (y, m, d) \<Rightarrow>
      let us = t mod day_us; sec = us div 1000000 in
      pad 4 y @ [45] @ pad 2 m @ [45] @ pad 2 d @ [84] @ pad 2 (sec div 3600) @ [58]
      @ pad 2 (sec div 60 mod 60) @ [58] @ pad 2 (sec mod 60)
      @ (if us mod 1000000 = 0 then [] else [46] @ pad 6 (us mod 1000000)) @ lit ''+00:00'')"

definition take_fraction :: "str \<Rightarrow> (int \<times> str) option" where
  "take_fraction s = (case take_char 46 s of None \<Rightarrow> Some (0, s) | Some rest \<Rightarrow> take_num 6 rest)"

definition take_offset :: "str \<Rightarrow> int option" where
  "take_offset s =
    (case s of [] \<Rightarrow> None | c # rest \<Rightarrow>
      if c \<noteq> 43 \<and> c \<noteq> 45 then None else
      Option.bind (take_num 2 rest) (\<lambda>(hh, rest). Option.bind (take_char 58 rest) (\<lambda>rest.
      Option.bind (take_num 2 rest) (\<lambda>(mm, rest).
        if rest = [] \<and> hh < 24 \<and> mm < 60 then Some ((if c = 45 then -1 else 1) * (hh * 60 + mm)) else None))))"

definition parse_fields :: "str \<Rightarrow> (int \<times> int \<times> int \<times> int \<times> int \<times> int \<times> int \<times> int) option" where
  "parse_fields s =
    Option.bind (take_num 4 s) (\<lambda>(y, s). Option.bind (take_char 45 s) (\<lambda>s.
    Option.bind (take_num 2 s) (\<lambda>(m, s). Option.bind (take_char 45 s) (\<lambda>s.
    Option.bind (take_num 2 s) (\<lambda>(d, s). Option.bind (take_char 84 s) (\<lambda>s.
    Option.bind (take_num 2 s) (\<lambda>(hh, s). Option.bind (take_char 58 s) (\<lambda>s.
    Option.bind (take_num 2 s) (\<lambda>(mm, s). Option.bind (take_char 58 s) (\<lambda>s.
    Option.bind (take_num 2 s) (\<lambda>(ss, s). Option.bind (take_fraction s) (\<lambda>(us, s).
    Option.bind (take_offset s) (\<lambda>off. Some (y, m, d, hh, mm, ss, us, off))))))))))))))"

definition fields_exist :: "int \<Rightarrow> int \<Rightarrow> int \<Rightarrow> int \<Rightarrow> int \<Rightarrow> int \<Rightarrow> bool" where
  "fields_exist y m d hh mm ss \<longleftrightarrow> 1 \<le> y \<and> 1 \<le> m \<and> m \<le> 12
     \<and> civil_of_days (days_of_civil y m d) = (y, m, d) \<and> hh < 24 \<and> mm < 60 \<and> ss < 60"

definition fromisoformat :: "(str \<Rightarrow> datetime res) \<Rightarrow> str \<Rightarrow> datetime res" where
  "fromisoformat other s =
    (case parse_fields s of
       None \<Rightarrow> other s
     | Some (y, m, d, hh, mm, ss, us, off) \<Rightarrow>
         if fields_exist y m d hh mm ss then
           Inr ((days_of_civil y m d - epoch_day) * day_us
             + ((hh * 60 + mm - off) * 60 + ss) * 1000000 + us)
         else Inl (ValueError (lit ''value is out of range'')))"

text \<open>The instants a datetime can hold: years 1 to 9999.\<close>

definition datetime_range :: "datetime \<Rightarrow> bool" where
  "datetime_range t \<longleftrightarrow> 1 \<le> fst (civil_of_days (t div day_us + epoch_day))
     \<and> fst (civil_of_days (t div day_us + epoch_day)) \<le> 9999"

lemma time_of_day:
  fixes us :: int
  assumes us: "0 \<le> us" "us < 86400000000"
  defines "sec \<equiv> us div 1000000"
  shows "0 \<le> sec div 3600" and "sec div 3600 < 24" and "0 \<le> sec div 60 mod 60" and "sec div 60 mod 60 < 60"
    and "0 \<le> sec mod 60" and "sec mod 60 < 60"
    and "((sec div 3600 * 60 + sec div 60 mod 60) * 60 + sec mod 60) * 1000000 + us mod 1000000 = us"
proof -
  have sec: "0 \<le> sec" "sec < 86400" using us unfolding sec_def by simp_all
  then show "0 \<le> sec div 3600" "sec div 3600 < 24" by simp_all
  show "0 \<le> sec div 60 mod 60" "sec div 60 mod 60 < 60" "0 \<le> sec mod 60" "sec mod 60 < 60" by simp_all
  have "sec div 3600 = sec div 60 div 60" using zdiv_zmult2_eq [of 60 sec 60] by simp
  then have "sec div 3600 * 60 + sec div 60 mod 60 = sec div 60" by simp
  then have "(sec div 3600 * 60 + sec div 60 mod 60) * 60 + sec mod 60 = sec" by simp
  then show "((sec div 3600 * 60 + sec div 60 mod 60) * 60 + sec mod 60) * 1000000 + us mod 1000000 = us"
    unfolding sec_def by simp
qed

definition fraction_text :: "int \<Rightarrow> str" where
  "fraction_text us = (if us = 0 then [] else [46] @ pad 6 us)"

lemma parse_tail:
  assumes "0 \<le> us" "us < 1000000"
  shows "take_fraction (fraction_text us @ lit ''+00:00'') = Some (us, lit ''+00:00'')"
    and "take_offset (lit ''+00:00'') = Some 0"
proof -
  have "lit ''+00:00'' = 43 # 48 # 48 # 58 # 48 # [48]" by (simp add: lit_def)
  moreover have "take_num 6 (pad 6 us @ r) = Some (us, r)" for r
    using assms by (intro take_num_pad) simp_all
  ultimately show "take_fraction (fraction_text us @ lit ''+00:00'') = Some (us, lit ''+00:00'')"
    by (simp add: take_fraction_def fraction_text_def)
  show "take_offset (lit ''+00:00'') = Some 0" by code_simp
qed

lemma parse_fields_pad:
  assumes "0 \<le> y" "y < 10000" "0 \<le> m" "m < 100" "0 \<le> d" "d < 100" "0 \<le> hh" "hh < 100"
    "0 \<le> mm" "mm < 100" "0 \<le> ss" "ss < 100" "0 \<le> us" "us < 1000000"
  shows "parse_fields (pad 4 y @ [45] @ pad 2 m @ [45] @ pad 2 d @ [84] @ pad 2 hh @ [58] @ pad 2 mm @ [58]
      @ pad 2 ss @ fraction_text us @ lit ''+00:00'') = Some (y, m, d, hh, mm, ss, us, 0)"
proof -
  have four: "take_num 4 (pad 4 y @ r) = Some (y, r)" for r using assms by (intro take_num_pad) simp_all
  have two: "take_num 2 (pad 2 x @ r) = Some (x, r)" if "0 \<le> x" "x < 100" for x r
    using that by (intro take_num_pad) simp_all
  show ?thesis
    using assms by (simp add: parse_fields_def four two parse_tail)
qed

lemma fromisoformat_isoformat:
  assumes "datetime_range t"
  shows "fromisoformat other (isoformat t) = Inr t"
proof -
  obtain y m d where c: "civil_of_days (t div day_us + epoch_day) = (y, m, d)"
    by (cases "civil_of_days (t div day_us + epoch_day)")
  have cd: "days_of_civil y m d = t div day_us + epoch_day" "1 \<le> m" "m \<le> 12" "1 \<le> d" "d \<le> 31"
    using civil_days [OF c] by simp_all
  have y: "1 \<le> y" "y \<le> 9999" using assms by (simp_all add: datetime_range_def c)
  define us where "us = t mod day_us"
  define hh where "hh = us div 1000000 div 3600"
  define mm where "mm = us div 1000000 div 60 mod 60"
  define ss where "ss = us div 1000000 mod 60"
  define fr where "fr = us mod 1000000"
  have us: "0 \<le> us" "us < 86400000000" by (simp_all add: us_def day_us_def)
  have td: "0 \<le> hh" "hh < 24" "0 \<le> mm" "mm < 60" "0 \<le> ss" "ss < 60"
      "((hh * 60 + mm) * 60 + ss) * 1000000 + fr = us"
    unfolding hh_def mm_def ss_def fr_def by (rule time_of_day [OF us])+
  have fr: "0 \<le> fr" "fr < 1000000" by (simp_all add: fr_def)
  have "isoformat t = pad 4 y @ [45] @ pad 2 m @ [45] @ pad 2 d @ [84] @ pad 2 hh @ [58] @ pad 2 mm @ [58]
      @ pad 2 ss @ fraction_text fr @ lit ''+00:00''"
    unfolding isoformat_def c Let_def prod.case us_def hh_def mm_def ss_def fr_def fraction_text_def
    by (rule refl)
  also have "parse_fields \<dots> = Some (y, m, d, hh, mm, ss, fr, 0)"
    by (rule parse_fields_pad) (use y cd td fr in linarith)+
  finally have "parse_fields (isoformat t) = Some (y, m, d, hh, mm, ss, fr, 0)" .
  moreover have "fields_exist y m d hh mm ss"
    using y cd c td(2,4,6) by (simp add: fields_exist_def)
  moreover have "(days_of_civil y m d - epoch_day) * day_us + ((hh * 60 + mm - 0) * 60 + ss) * 1000000 + fr = t"
  proof -
    have "((hh * 60 + mm - 0) * 60 + ss) * 1000000 + fr = us" using td(7) by simp
    moreover have "(days_of_civil y m d - epoch_day) * day_us + us = t"
      unfolding us_def cd(1) using div_mult_mod_eq [of t day_us] by simp
    ultimately show ?thesis by linarith
  qed
  ultimately show ?thesis by (simp add: fromisoformat_def)
qed

lemma isoformat_examples:
  "isoformat 0 = lit ''1970-01-01T00:00:00+00:00''"
  "isoformat 951782400000001 = lit ''2000-02-29T00:00:00.000001+00:00''"
  "fromisoformat (\<lambda>_. Inr 0) (lit ''2023-02-29T00:00:00+00:00'') = Inl (ValueError (lit ''value is out of range''))"
  by code_simp+

end
