(* ===== verification/Conversations.thy ===== *)
theory Conversations
  imports ProposalService StoreTurns DateTime
begin

text \<open>
  Raw transcripts and their curation (\<open>services/conversations.py\<close>): the sanitized append of a turn, and
  the curator that turns a transcript into a reviewable proposal. The language model is a function of
  the number of the call, the messages and the token limit; \<open>json.dumps\<close> of the partial results it is
  asked to merge is a parameter.
\<close>

section \<open>Appending a turn\<close>

record append_turn_command =
  ac_tenant_id :: uuid
  ac_workspace_id :: uuid
  ac_thread_id :: uuid
  ac_messages :: "conversation_message list"
  ac_namespace :: str
  ac_agent_id :: "uuid option"
  ac_source_kind :: str
  ac_retention_policy :: conversation_retention_policy
  ac_metadata :: metadata
  ac_idempotency_key :: "str option"

record append_turn_result =
  ar_turn :: conversation_turn
  ar_created :: bool
  ar_queued_event_ids :: "uuid list"

record conversation_service =
  cs_privacy :: privacy_guard
  cs_ttl_seconds :: int

record turn_fresh =
  tf_turn_id :: uuid
  tf_event_id :: uuid
  tf_created_at :: datetime
  tf_occurred_at :: datetime

fun policy_value :: "conversation_retention_policy \<Rightarrow> str" where
  "policy_value RawOnly = lit ''raw_only''"
| "policy_value CuratedOnly = lit ''curated_only''"
| "policy_value RawAndCurated = lit ''raw_and_curated''"

definition new_conversation_service ::
  "privacy_guard \<Rightarrow> int option \<Rightarrow> str option \<Rightarrow> conversation_service res"
where
  "new_conversation_service g ttl env_ttl =
    res_bind (case ttl of Some n \<Rightarrow> Inr n
      | None \<Rightarrow> py_int (PStr (case env_ttl of None \<Rightarrow> lit ''86400'' | Some v \<Rightarrow> v))) (\<lambda>n.
    if 300 \<le> n \<and> n \<le> 604800 then Inr \<lparr>cs_privacy = g, cs_ttl_seconds = n\<rparr>
    else Inl (ValueError (lit ''UAM_CONVERSATION_CURATED_ONLY_TTL_SECONDS must be between 300 and 604800'')))"

text \<open>Unlike the merge of the gateway, this one replaces a nested block.\<close>

fun merge_turn_metadata :: "metadata \<Rightarrow> metadata \<Rightarrow> metadata res" where
  "merge_turn_metadata merged [] = Inr merged"
| "merge_turn_metadata merged ((key, v) # rest) =
    res_bind (case v of
        PInt i \<Rightarrow> res_bind (py_int (case dict_get merged key of None \<Rightarrow> PInt 0 | Some x \<Rightarrow> x)) (\<lambda>n. Inr (PInt (n + i)))
      | PBool b \<Rightarrow> res_bind (py_int (case dict_get merged key of None \<Rightarrow> PInt 0 | Some x \<Rightarrow> x))
          (\<lambda>n. Inr (PInt (n + (if b then 1 else 0))))
      | PList xs \<Rightarrow> res_bind (py_iter (case dict_get merged key of None \<Rightarrow> PList [] | Some x \<Rightarrow> x)) (\<lambda>l. Inr (PList (l @ xs)))
      | _ \<Rightarrow> Inr v)
      (\<lambda>x. merge_turn_metadata (dict_set key x merged) rest)"

fun sanitize_messages ::
  "privacy_guard \<Rightarrow> metadata \<Rightarrow> conversation_message list \<Rightarrow> (metadata \<times> conversation_message list) res"
where
  "sanitize_messages g redactions [] = Inr (redactions, [])"
| "sanitize_messages g redactions (message # rest) =
    res_bind (privacy_apply g (cm_content message)) (\<lambda>decision.
    res_bind (if pd_metadata decision = [] then Inr redactions
              else merge_turn_metadata redactions (pd_metadata decision)) (\<lambda>redactions.
    res_bind (conversation_message_post_init
      \<lparr>cm_role = cm_role message, cm_content = pd_text decision, cm_name = cm_name message,
       cm_metadata = dict_merge (cm_metadata message) (pd_metadata decision)\<rparr>) (\<lambda>m.
    res_bind (sanitize_messages g redactions rest) (\<lambda>(redactions, ms). Inr (redactions, m # ms)))))"

definition turn_expiry :: "conversation_service \<Rightarrow> conversation_retention_policy \<Rightarrow> datetime \<Rightarrow> datetime option" where
  "turn_expiry svc policy created_at =
    (if policy = CuratedOnly then Some (created_at + cs_ttl_seconds svc * 1000000) else None)"

definition new_turn :: "conversation_service \<Rightarrow> turn_fresh \<Rightarrow> append_turn_command \<Rightarrow> conversation_turn res" where
  "new_turn svc tf c =
    res_bind (sanitize_messages (cs_privacy svc) [] (ac_messages c)) (\<lambda>(redactions, messages).
    conversation_turn_post_init
      \<lparr>ct_id = tf_turn_id tf, ct_tenant_id = ac_tenant_id c, ct_workspace_id = ac_workspace_id c,
       ct_thread_id = ac_thread_id c, ct_messages = messages, ct_namespace = ac_namespace c,
       ct_agent_id = ac_agent_id c, ct_source_kind = ac_source_kind c,
       ct_retention_policy = ac_retention_policy c,
       ct_metadata = dict_merge (ac_metadata c) redactions, ct_created_at = tf_created_at tf,
       ct_expires_at = turn_expiry svc (ac_retention_policy c) (tf_created_at tf)\<rparr>)"

definition turn_event :: "turn_fresh \<Rightarrow> conversation_turn \<Rightarrow> integration_event res" where
  "turn_event tf turn = integration_event_post_init
    \<lparr>ie_id = tf_event_id tf, ie_name = lit ''conversation.turn.appended.v1'', ie_tenant_id = ct_tenant_id turn,
     ie_workspace_id = ct_workspace_id turn,
     ie_payload = [(lit ''turn_id'', PStr (uuid_str (ct_id turn))),
       (lit ''retention_policy'', PStr (policy_value (ct_retention_policy turn))),
       (lit ''jobs'', PList (if ct_retention_policy turn \<noteq> RawOnly then [PStr (lit ''curate'')] else []))],
     ie_occurred_at = tf_occurred_at tf, ie_correlation_id = Some (ct_id turn)\<rparr>"

definition append_turn_service ::
  "conversation_service \<Rightarrow> turn_fresh \<Rightarrow> append_turn_command \<Rightarrow> audit_event option \<Rightarrow> store
    \<Rightarrow> append_turn_result res \<times> store"
where
  "append_turn_service svc tf c audit s =
    (case res_bind (new_turn svc tf c) (\<lambda>turn. res_bind (turn_event tf turn) (\<lambda>event. Inr (turn, event))) of
       Inl e \<Rightarrow> (Inl e, s)
     | Inr (turn, event) \<Rightarrow>
         (case append_turn turn (ac_idempotency_key c)
                 (map_option (\<lambda>a. a\<lparr>ae_resource_id := Some (uuid_str (ct_id turn))\<rparr>) audit) (Some event) s of
            (Inl e, s1) \<Rightarrow> (Inl e, s1)
          | (Inr (stored, created), s1) \<Rightarrow>
              (Inr \<lparr>ar_turn = stored, ar_created = created,
                    ar_queued_event_ids = (if created then [ie_id event] else [])\<rparr>, s1)))"

definition purge_expired_service ::
  "uuid \<Rightarrow> uuid \<Rightarrow> int \<Rightarrow> datetime \<Rightarrow> store \<Rightarrow> uuid list res \<times> store"
where
  "purge_expired_service tenant_id workspace_id limit now s =
    purge_expired_turns tenant_id workspace_id now (max 1 (min limit 5000)) s"

section \<open>The transcript in pieces\<close>

definition author :: "conversation_message \<Rightarrow> str" where
  "author message = cm_role message
     @ (case given (cm_name message) of None \<Rightarrow> [] | Some n \<Rightarrow> lit '' ('' @ n @ lit '')'')"

definition conversation_text :: "conversation_turn \<Rightarrow> str" where
  "conversation_text turn = join [10]
    ([lit ''turn_id: '' @ uuid_str (ct_id turn), lit ''namespace: '' @ ct_namespace turn,
      lit ''source_kind: '' @ ct_source_kind turn, lit ''messages:'']
     @ map (\<lambda>m. lit ''- '' @ author m @ lit '': '' @ cm_content m) (ct_messages turn))"

definition conversation_chunks :: "nat \<Rightarrow> conversation_turn \<Rightarrow> str list" where
  "conversation_chunks limit turn =
    (let txt = conversation_text turn in if length txt \<le> limit then [txt] else slices limit txt)"

section \<open>Calls of the language model\<close>

type_synonym curator_llm = "nat \<Rightarrow> reasoner"

definition curator_system_prompt :: str where
  "curator_system_prompt = lit ''You are Memory Curator for Obelisk Memory. Extract only durable, evidence-backed information. Do not invent facts. Preserve temporal qualifiers such as 'formerly', 'now', and dates. If a preference changes, describe the transition rather than a timeless preference. Return JSON object only.''"


definition curate_chunk :: "reasoner \<Rightarrow> str \<Rightarrow> pyval res" where
  "curate_chunk memory_llm chunk = memory_llm
    [(lit ''system'', curator_system_prompt),
     (lit ''user'', lit ''Curate this transcript fragment into compact memory. Return keys summary, durable_facts, decisions, preferences, open_tasks, evidence_quotes, confidence. evidence_quotes must contain only verbatim supporting excerpts from this fragment.''
        @ [10, 10] @ chunk)] 700"

definition reduce_batch :: "(pyval \<Rightarrow> str) \<Rightarrow> reasoner \<Rightarrow> pyval list \<Rightarrow> pyval res" where
  "reduce_batch dumps memory_llm payloads = memory_llm
    [(lit ''system'', curator_system_prompt),
     (lit ''user'', lit ''Merge these fragment curations. Keep only evidence-backed durable facts, preserve temporal changes, preserve only verbatim evidence_quotes, and return the same JSON keys.''
        @ [10, 10] @ dumps (PList payloads))] 900"

text \<open>One call per element, in order; the first exception ends the loop.\<close>

fun call_each :: "(nat \<Rightarrow> 'a \<Rightarrow> pyval res) \<Rightarrow> nat \<Rightarrow> 'a list \<Rightarrow> pyval list res" where
  "call_each f k [] = Inr []"
| "call_each f k (x # xs) =
    res_bind (f k x) (\<lambda>y. res_bind (call_each f (k + 1) xs) (\<lambda>ys. Inr (y # ys)))"

lemma call_each_length: "call_each f k xs = Inr ys \<Longrightarrow> length ys = length xs"
  by (induction xs arbitrary: k ys) (auto simp: res_bind_Inr_iff)

text \<open>
  \<open>_reduce_curation\<close>: batches of four are merged until one result is left. The number of pending
  results falls with every round, so the loop ends.
\<close>

function reduce_curation :: "(pyval \<Rightarrow> str) \<Rightarrow> curator_llm \<Rightarrow> nat \<Rightarrow> pyval list \<Rightarrow> pyval res" where
  "reduce_curation dumps llm k pending =
    (if length pending \<le> 1 then
       (case pending of [] \<Rightarrow> Inl (DependencyFailure (lit ''IndexError'')) | p # _ \<Rightarrow> Inr p)
     else (case call_each (\<lambda>k. reduce_batch dumps (llm k)) k (slices 4 pending) of
         Inl e \<Rightarrow> Inl e
       | Inr merged \<Rightarrow> reduce_curation dumps llm (k + length merged) merged))"
  by pat_completeness auto
termination
  by (relation "measure (\<lambda>(dumps, llm, k, pending). length pending)")
    (auto dest!: call_each_length simp: length_slices)

declare reduce_curation.simps [simp del]

section \<open>Reading what the model returned\<close>

fun string_list :: "runtime \<Rightarrow> pyval \<Rightarrow> str list" where
  "string_list rt (PStr s) = (if blank s then [] else [strip s])"
| "string_list rt (PList vs) = filter (\<lambda>s. s \<noteq> []) (map (\<lambda>v. strip (str_or_empty rt v)) vs)"
| "string_list rt _ = []"

definition bullet_section :: "runtime \<Rightarrow> metadata \<Rightarrow> str \<times> str \<Rightarrow> str list" where
  "bullet_section rt payload sec = (case sec of (key, title) \<Rightarrow>
     let vs = string_list rt (py_get payload key) in
     if vs = [] then [] else [[], title @ lit '':''] @ map (\<lambda>v. lit ''- '' @ v) vs)"

definition curation_title :: str where "curation_title = lit ''Conversation memory curation''"

definition curation_payload_to_text :: "runtime \<Rightarrow> metadata \<Rightarrow> str" where
  "curation_payload_to_text rt payload =
    (let summary = strip (str_or_empty rt (py_get payload (lit ''summary'')));
         lines = [curation_title] @ (if summary = [] then [] else [[], lit ''Summary:'', summary])
           @ concat (map (bullet_section rt payload)
               [(lit ''durable_facts'', lit ''Durable facts''), (lit ''decisions'', lit ''Decisions''),
                (lit ''preferences'', lit ''Preferences''), (lit ''open_tasks'', lit ''Open tasks'')]);
         txt = strip (join [10] lines)
     in if txt = curation_title then [] else trim_text txt 6000)"

definition transcript :: "conversation_turn \<Rightarrow> str" where
  "transcript turn = join [10] (map cm_content (ct_messages turn))"

definition verified_evidence_quotes :: "runtime \<Rightarrow> metadata \<Rightarrow> conversation_turn \<Rightarrow> str list" where
  "verified_evidence_quotes rt payload turn =
    take 8 (foldl (\<lambda>quotes q. let v = trim_text q 500 in
        if 8 \<le> length v \<and> contains v (transcript turn) \<and> v \<notin> set quotes then quotes @ [v] else quotes)
      [] (string_list rt (py_get payload (lit ''evidence_quotes''))))"

definition confidence_value :: "pyval \<Rightarrow> pyval res" where
  "confidence_value v = (case py_float v of
     Inl (TypeError _) \<Rightarrow> Inr PNone
   | Inl (ValueError _) \<Rightarrow> Inr PNone
   | Inl e \<Rightarrow> Inl e
   | Inr x \<Rightarrow> Inr (PFloat (clamp_unit x)))"

text \<open>\<open>content.replace("\n", " ")\<close>.\<close>

definition flatten_lines :: "str \<Rightarrow> str" where
  "flatten_lines s = map (\<lambda>c. if c = 10 then 32 else c) s"

definition deterministic_summary :: "conversation_turn \<Rightarrow> str" where
  "deterministic_summary turn = trim_text (join [10]
    ([lit ''Conversation turn summary'', lit ''Namespace: '' @ ct_namespace turn,
      lit ''Source: '' @ ct_source_kind turn, lit ''Turn: '' @ uuid_str (ct_id turn), [], lit ''Messages:'']
     @ map (\<lambda>m. lit ''- '' @ author m @ lit '': '' @ trim_text (flatten_lines (cm_content m)) 900)
         (ct_messages turn))) 6000"

definition curation_evidence :: "conversation_turn \<Rightarrow> str" where
  "curation_evidence turn = trim_text (join [10]
    ([lit ''source_turn_id: '' @ uuid_str (ct_id turn), lit ''observed_at: '' @ isoformat (ct_created_at turn),
      lit ''namespace: '' @ ct_namespace turn, lit ''source_excerpts:'']
     @ map (\<lambda>m. lit ''- '' @ author m @ lit '': '' @ trim_text (cm_content m) 1200) (ct_messages turn))) 6000"

section \<open>Summaries\<close>

definition curate_chunks ::
  "(pyval \<Rightarrow> str) \<Rightarrow> curator_llm \<Rightarrow> str list \<Rightarrow> pyval res"
where
  "curate_chunks dumps llm chunks =
    res_bind (call_each (\<lambda>k. curate_chunk (llm k)) 0 chunks) (\<lambda>payloads.
      case payloads of [p] \<Rightarrow> Inr p | _ \<Rightarrow> reduce_curation dumps llm (length payloads) payloads)"

definition engine_metadata :: "str \<Rightarrow> str \<Rightarrow> metadata" where
  "engine_metadata engine version =
    [(lit ''curator_engine'', PStr engine), (lit ''curator_version'', PStr version)]"

definition llm_summary_text ::
  "runtime \<Rightarrow> (pyval \<Rightarrow> str) \<Rightarrow> curator_llm \<Rightarrow> conversation_turn \<Rightarrow> (str \<times> metadata) option res"
where
  "llm_summary_text rt dumps llm turn =
    (let chunks = conversation_chunks 6000 turn in
     case curate_chunks dumps llm chunks of
       Inl e \<Rightarrow> Inr (Some (deterministic_summary turn,
         engine_metadata (lit ''deterministic_fallback'') (lit ''conversation-curator-v1'')
           @ [(lit ''llm_error'', PStr (type_name e))]))
     | Inr (PDict payload) \<Rightarrow>
         (let txt = curation_payload_to_text rt payload in
          if txt = [] then Inr None
          else res_bind (confidence_value (py_get payload (lit ''confidence''))) (\<lambda>conf.
            Inr (Some (txt, engine_metadata (lit ''memory_llm'') (lit ''conversation-curator-llm-v2'')
              @ [(lit ''llm_confidence'', conf), (lit ''curator_chunks'', PInt (int (length chunks))),
                 (lit ''evidence_quotes'', PList (map PStr (verified_evidence_quotes rt payload turn)))]))))
     | Inr _ \<Rightarrow> Inl (AttributeError (lit ''object has no attribute 'get'')))"

definition summary_text ::
  "runtime \<Rightarrow> (pyval \<Rightarrow> str) \<Rightarrow> curator_llm option \<Rightarrow> conversation_turn \<Rightarrow> (str \<times> metadata) res"
where
  "summary_text rt dumps llm turn =
    (let plain = (deterministic_summary turn,
           engine_metadata (lit ''deterministic'') (lit ''conversation-curator-v1'')) in
     case llm of None \<Rightarrow> Inr plain
     | Some f \<Rightarrow> res_bind (llm_summary_text rt dumps f turn) (\<lambda>r. Inr (case r of None \<Rightarrow> plain | Some x \<Rightarrow> x)))"

section \<open>Curation\<close>

record curate_command =
  cu_tenant_id :: uuid
  cu_turn_id :: uuid
  cu_layer :: memory_layer
  cu_kind :: str
  cu_labels :: "str list"
  cu_importance :: real
  cu_confidence :: real
  cu_auto_accept :: bool
  cu_idempotency_key :: "str option"

record curate_result =
  cr_retained :: "retain_result option"
  cr_proposal :: "submit_result option"

text \<open>The services a curator is built on, and what one curation takes from outside.\<close>

record curator =
  cg_runtime :: runtime
  cg_dumps :: "pyval \<Rightarrow> str"
  cg_llm :: "curator_llm option"
  cg_classifier :: "reasoner option"
  cg_privacy :: privacy_guard

record curate_fresh =
  cf_proposal_id :: uuid
  cf_proposed_at :: datetime
  cf_memory :: fresh
  cf_reviewed_at :: datetime

definition curation_submission :: "conversation_turn \<Rightarrow> curate_command \<Rightarrow> str \<times> metadata \<Rightarrow> submit_command" where
  "curation_submission turn c summary =
    \<lparr>sp_tenant_id = ct_tenant_id turn, sp_workspace_id = ct_workspace_id turn,
     sp_namespace = ct_namespace turn, sp_requester = lit ''conversation-curator'',
     sp_proposal = fst summary, sp_evidence = curation_evidence turn, sp_target = TAuto,
     sp_agent_id = ct_agent_id turn, sp_thread_id = Some (ct_thread_id turn),
     sp_confidence = cu_confidence c, sp_importance = cu_importance c,
     sp_metadata = dict_merge (snd summary)
       [(lit ''source_turn_id'', PStr (uuid_str (ct_id turn))),
        (lit ''source_observed_at'', PStr (isoformat (ct_created_at turn))),
        (lit ''curation_boundary'', PStr (lit ''proposal_required'')),
        (lit ''claim_status'', PStr (lit ''unverified''))],
     sp_idempotency_key = Some (case given (cu_idempotency_key c) of
         None \<Rightarrow> lit ''curate-conversation-turn:'' @ uuid_str (ct_id turn) | Some k \<Rightarrow> k)\<rparr>"

definition curatable :: "curate_command \<Rightarrow> store \<Rightarrow> conversation_turn res" where
  "curatable c s = (case get_turn (cu_tenant_id c) (cu_turn_id c) s of
     None \<Rightarrow> Inl (KeyError (lit ''conversation turn not found''))
   | Some turn \<Rightarrow> if ct_retention_policy turn = RawOnly
       then Inl (ValueError (lit ''conversation turn retention policy is raw_only'')) else Inr turn)"

definition finish_curation :: "conversation_turn \<Rightarrow> submit_result \<Rightarrow> store \<Rightarrow> curate_result res \<times> store" where
  "finish_curation turn proposal s =
    (let result = \<lparr>cr_retained = None, cr_proposal = Some proposal\<rparr> in
     if ct_retention_policy turn = CuratedOnly then
       (case purge_turn_content (ct_tenant_id turn) (ct_id turn) s of
          (Inl e, s1) \<Rightarrow> (Inl e, s1)
        | (Inr purged, s1) \<Rightarrow>
            if purged then (Inr result, s1)
            else (Inl (RuntimeError (lit ''curation proposal was saved but raw content purge failed'')), s1))
     else (Inr result, s))"

definition curate_turn ::
  "curator \<Rightarrow> curate_fresh \<Rightarrow> curate_command \<Rightarrow> audit_event option \<Rightarrow> store \<Rightarrow> curate_result res \<times> store"
where
  "curate_turn cg fr c audit s =
    (case res_bind (curatable c s) (\<lambda>turn.
            res_bind (summary_text (cg_runtime cg) (cg_dumps cg) (cg_llm cg) turn) (\<lambda>summary.
            Inr (turn, summary))) of
       Inl e \<Rightarrow> (Inl e, s)
     | Inr (turn, summary) \<Rightarrow>
         (case submit (cg_runtime cg) (cg_classifier cg) (cg_privacy cg) (cf_proposal_id fr) (cf_proposed_at fr)
                 (curation_submission turn c summary) audit s of
            (Inl e, s1) \<Rightarrow> (Inl e, s1)
          | (Inr proposal, s1) \<Rightarrow>
              (if cu_auto_accept c then
                 (case auto_accept (cg_runtime cg) (cg_privacy cg) (cf_memory fr) (cf_reviewed_at fr)
                         (sr_proposal proposal) s1 of
                    (Inl e, s2) \<Rightarrow> (Inl e, s2)
                  | (Inr (Some automatic), s2) \<Rightarrow>
                      (Inr \<lparr>cr_retained = rw_retained automatic, cr_proposal = None\<rparr>, s2)
                  | (Inr None, s2) \<Rightarrow> finish_curation turn proposal s2)
               else finish_curation turn proposal s1)))"


section \<open>Slices and batches\<close>

text \<open>
  (unlisted): A long transcript is curated without losing its tail. The chunks put together are the
  transcript's text; a text above the limit is cut into non-empty chunks of at most the limit, one for
  every full or begun limit of characters, and a shorter one is a single chunk.
\<close>

theorem chunks_cover_transcript:
  assumes "0 < limit"
  shows "concat (conversation_chunks limit turn) = conversation_text turn
    \<and> (\<forall>c \<in> set (conversation_chunks limit turn). length c \<le> limit \<and> c \<noteq> [])
    \<and> length (conversation_chunks limit turn) = (length (conversation_text turn) + limit - 1) div limit"
proof -
  have "conversation_text turn \<noteq> []" by (simp add: conversation_text_def lit_def)
  then have one: "(length (conversation_text turn) + limit - 1) div limit = 1"
    if "length (conversation_text turn) \<le> limit"
    using that assms by (intro div_nat_eqI) (cases "conversation_text turn"; simp)+
  show ?thesis
  proof (cases "length (conversation_text turn) \<le> limit")
    case True
    with one \<open>conversation_text turn \<noteq> []\<close> show ?thesis by (simp add: conversation_chunks_def Let_def)
  next
    case False
    then have "conversation_chunks limit turn = slices limit (conversation_text turn)"
      by (simp add: conversation_chunks_def Let_def)
    then show ?thesis
      using concat_slices [OF assms] slices_bounds [OF assms] length_slices [OF assms] by metis
  qed
qed

theorem chunks_cover_transcript_witness:
  "concat (conversation_chunks 10 (sample_turn 1 7 8 40 None)) = conversation_text (sample_turn 1 7 8 40 None)"
  using chunks_cover_transcript [of 10 "sample_turn 1 7 8 40 None"] by simp

lemma call_each_total:
  "(\<And>k x. \<exists>v. f k x = Inr v) \<Longrightarrow> \<exists>ys. call_each f k xs = Inr ys"
proof (induction xs arbitrary: k)
  case (Cons x xs)
  obtain v where "f k x = Inr v" using Cons.prems by blast
  moreover obtain ys where "call_each f (k + 1) xs = Inr ys" using Cons by blast
  ultimately show ?case by simp
qed simp


lemma batches: "2 \<le> n \<Longrightarrow> (n + 4 - 1) div 4 + ((n + 4 - 1) div 4 - 1) \<le> n - 1 \<and> 1 \<le> (n + 4 - 1) div 4"
  for n :: nat
  by linarith

lemma reduce_returns:
  assumes "\<And>k msgs n. \<exists>v. llm k msgs n = Inr v" and "pending \<noteq> []"
  shows "\<exists>v. reduce_curation dumps llm k pending = Inr v"
  using assms
proof (induction dumps llm k pending rule: reduce_curation.induct)
  case (1 dumps llm k pending)
  show ?case
  proof (cases "length pending \<le> 1")
    case True
    with 1(3) show ?thesis by (cases pending) (simp_all add: reduce_curation.simps)
  next
    case False
    obtain merged where m: "call_each (\<lambda>k. reduce_batch dumps (llm k)) k (slices 4 pending) = Inr merged"
      using call_each_total [of "\<lambda>k. reduce_batch dumps (llm k)"] 1(2) unfolding reduce_batch_def by blast
    have "length merged = (length pending + 4 - 1) div 4"
      using call_each_length [OF m] by (simp add: length_slices)
    then have "merged \<noteq> []" using batches [of "length pending"] False by (intro notI) simp
    from 1(1) [OF False m 1(2) this] False m show ?thesis by (subst reduce_curation.simps) simp
  qed
qed


text \<open>
  A model that loses nothing: whatever is read as the parts of a payload, an answer holds exactly the
  parts of the payloads it merges.
\<close>

lemma call_each_parts:
  assumes "\<And>j x. x \<in> set xs \<Longrightarrow> \<exists>v. f j x = Inr v \<and> parts v = (content x :: 'a multiset)"
  shows "\<exists>ys. call_each f k xs = Inr ys \<and> (\<Sum>y\<leftarrow>ys. parts y) = (\<Sum>x\<leftarrow>xs. content x)"
  using assms
proof (induction xs arbitrary: k)
  case (Cons x xs)
  obtain v where "f k x = Inr v" "parts v = content x" using Cons.prems by auto
  moreover obtain ys where "call_each f (k + 1) xs = Inr ys" "(\<Sum>y\<leftarrow>ys. parts y) = (\<Sum>x\<leftarrow>xs. content x)"
    using Cons.IH [of "k + 1"] Cons.prems by (metis list.set_intros(2))
  ultimately show ?case by simp
qed simp

lemma slices_parts: "0 < n \<Longrightarrow> (\<Sum>c\<leftarrow>slices n xs. \<Sum>x\<leftarrow>c. parts x) = (\<Sum>x\<leftarrow>xs. parts x :: 'a multiset)"
proof -
  have "(\<Sum>c\<leftarrow>yss. \<Sum>x\<leftarrow>c. parts x) = (\<Sum>x\<leftarrow>concat yss. parts x :: 'a multiset)" for yss
    by (induction yss) simp_all
  then show "0 < n \<Longrightarrow> ?thesis" by (simp add: concat_slices)
qed

lemma reduce_parts:
  assumes "\<And>j ps. ps \<noteq> [] \<Longrightarrow> length ps \<le> 4 \<Longrightarrow>
      \<exists>v. reduce_batch dumps (llm j) ps = Inr v \<and> parts v = (\<Sum>p\<leftarrow>ps. parts p :: 'a multiset)"
    and "pending \<noteq> []"
  shows "\<exists>v. reduce_curation dumps llm k pending = Inr v \<and> parts v = (\<Sum>p\<leftarrow>pending. parts p)"
  using assms
proof (induction dumps llm k pending rule: reduce_curation.induct)
  case (1 dumps llm k pending)
  show ?case
  proof (cases "length pending \<le> 1")
    case True
    with 1(3) show ?thesis by (cases pending) (simp_all add: reduce_curation.simps)
  next
    case False
    have "\<exists>v. reduce_batch dumps (llm j) c = Inr v \<and> parts v = (\<Sum>p\<leftarrow>c. parts p)"
      if "c \<in> set (slices 4 pending)" for j c
      using that 1(2) slices_bounds [of 4 c pending] by simp
    from call_each_parts [where f = "\<lambda>k. reduce_batch dumps (llm k)", OF this]
    obtain merged where m: "call_each (\<lambda>k. reduce_batch dumps (llm k)) k (slices 4 pending) = Inr merged"
      "(\<Sum>y\<leftarrow>merged. parts y) = (\<Sum>c\<leftarrow>slices 4 pending. \<Sum>p\<leftarrow>c. parts p)" by blast
    have "length merged = (length pending + 4 - 1) div 4"
      using call_each_length [OF m(1)] by (simp add: length_slices)
    then have "merged \<noteq> []" using batches [of "length pending"] False by (intro notI) simp
    from 1(1) [OF False m(1) 1(2) this] False m slices_parts [of 4 parts pending] show ?thesis
      by (subst reduce_curation.simps) simp
  qed
qed


text \<open>
  A model that answers with the text it was asked about: \<open>dumps\<close> renders strings one after the other,
  and the token limit tells the two prompts apart.
\<close>

fun payload_text :: "pyval \<Rightarrow> str" where
  "payload_text (PStr s) = s"
| "payload_text (PList vs) = concat (map payload_text vs)"
| "payload_text _ = []"

definition merge_prompt :: str where
  "merge_prompt = lit ''Merge these fragment curations. Keep only evidence-backed durable facts, preserve temporal changes, preserve only verbatim evidence_quotes, and return the same JSON keys.'' @ [10, 10]"

definition chunk_prompt :: str where
  "chunk_prompt = lit ''Curate this transcript fragment into compact memory. Return keys summary, durable_facts, decisions, preferences, open_tasks, evidence_quotes, confidence. evidence_quotes must contain only verbatim supporting excerpts from this fragment.'' @ [10, 10]"

definition echo_llm :: curator_llm where
  "echo_llm k messages limit =
    Inr (PStr (drop (length (if limit = 700 then chunk_prompt else merge_prompt)) (snd (messages ! 1))))"

lemma mset_payload_texts: "mset (concat (map payload_text ps)) = (\<Sum>p\<leftarrow>ps. mset (payload_text p))"
  by (induction ps) simp_all

lemma echo_merges: "\<exists>v. reduce_batch payload_text (echo_llm j) ps = Inr v
    \<and> mset (payload_text v) = (\<Sum>p\<leftarrow>ps. mset (payload_text p))"
  by (simp add: reduce_batch_def echo_llm_def merge_prompt_def mset_payload_texts [symmetric])

lemma echo_curates: "\<exists>v. curate_chunk (echo_llm j) chunk = Inr v \<and> mset (payload_text v) = mset chunk"
  by (simp add: curate_chunk_def echo_llm_def chunk_prompt_def)


text \<open>
  (unlisted): The curator reads the whole transcript. With a model that loses nothing, neither of the chunk it
  curates nor of the results it merges, the one result of a curation stands for every character of the
  transcript's text exactly as often as it occurs, however the text is cut into chunks.
\<close>

theorem curation_reads_whole_transcript:
  assumes "\<And>j chunk. \<exists>v. curate_chunk (llm j) chunk = Inr v \<and> parts v = mset chunk"
    and "\<And>j ps. ps \<noteq> [] \<Longrightarrow> length ps \<le> 4 \<Longrightarrow>
      \<exists>v. reduce_batch dumps (llm j) ps = Inr v \<and> parts v = (\<Sum>p\<leftarrow>ps. parts p)"
    and "0 < limit"
  shows "\<exists>v. curate_chunks dumps llm (conversation_chunks limit turn) = Inr v
    \<and> parts v = mset (conversation_text turn)"
proof -
  let ?chunks = "conversation_chunks limit turn"
  have chunks: "concat ?chunks = conversation_text turn"
    using concat_slices [OF assms(3), of "conversation_text turn"] by (auto simp: conversation_chunks_def Let_def)
  have ne: "?chunks \<noteq> []" using chunks by (auto simp: conversation_text_def lit_def)
  obtain ps where ps: "call_each (\<lambda>k. curate_chunk (llm k)) 0 ?chunks = Inr ps"
    "(\<Sum>p\<leftarrow>ps. parts p) = (\<Sum>c\<leftarrow>?chunks. mset c)"
    using call_each_parts [where f = "\<lambda>k. curate_chunk (llm k)" and xs = ?chunks and parts = parts and content = mset]
      assms(1) by blast
  have "(\<Sum>c\<leftarrow>cs. mset c) = mset (concat cs)" for cs :: "str list" by (induction cs) simp_all
  with ps(2) chunks have sum: "(\<Sum>p\<leftarrow>ps. parts p) = mset (conversation_text turn)" by simp
  have pne: "ps \<noteq> []" using call_each_length [OF ps(1)] ne by auto
  obtain v where v: "reduce_curation dumps llm (length ps) ps = Inr v" "parts v = (\<Sum>p\<leftarrow>ps. parts p)"
    using reduce_parts [of dumps llm parts ps "length ps"] assms(2) pne by blast
  have "curate_chunks dumps llm ?chunks = (case ps of [p] \<Rightarrow> Inr p | _ \<Rightarrow> reduce_curation dumps llm (length ps) ps)"
    by (simp add: curate_chunks_def ps(1))
  with v sum show ?thesis by (cases ps rule: remdups_adj.cases) auto
qed

theorem curation_reads_whole_transcript_witness:
  "\<exists>v. curate_chunks payload_text echo_llm (conversation_chunks 10 (sample_turn 1 7 8 40 None)) = Inr v
    \<and> mset (payload_text v) = mset (conversation_text (sample_turn 1 7 8 40 None))"
  by (rule curation_reads_whole_transcript [where parts = "\<lambda>v. mset (payload_text v)"])
    (simp_all add: echo_curates echo_merges)


section \<open>What an append stores\<close>

text \<open>What the guard adds to the metadata is nothing or one block.\<close>

lemma privacy_metadata_block:
  assumes "privacy_apply g txt = Inr d"
  obtains "pd_metadata d = []" | b where "pd_metadata d = [(lit ''privacy'', PDict b)]"
  using assms
  by (auto simp: privacy_apply_def privacy_metadata_def Let_def split: if_splits)

definition sanitized_as :: "privacy_guard \<Rightarrow> conversation_message \<Rightarrow> conversation_message \<Rightarrow> bool" where
  "sanitized_as g m m' \<longleftrightarrow> cm_role m' = cm_role m \<and> cm_name m' = cm_name m \<and> valid_message m'
     \<and> (\<exists>d. privacy_apply g (cm_content m) = Inr d \<and> cm_content m' = pd_text d)"

lemma sanitize_messages_Inr:
  "sanitize_messages g red ms = Inr (red', ms') \<Longrightarrow> list_all2 (sanitized_as g) ms ms'"
  by (induction g red ms arbitrary: red' ms' rule: sanitize_messages.induct)
    (auto simp: res_bind_Inr_iff conversation_message_post_init_Inr sanitized_as_def)

lemma sanitize_messages_append:
  assumes "sanitize_messages g red (ms @ ms2) = Inr (red', out)"
  shows "\<exists>red1 out2. sanitize_messages g red1 ms2 = Inr (red', out2)"
  using assms
  by (induction g red ms arbitrary: red' out rule: sanitize_messages.induct) (fastforce simp: res_bind_Inr_iff)+

text \<open>
  The turn's own metadata keeps the findings of the last redacted message only: the block of an earlier
  message is replaced, not added up.
\<close>

lemma turn_reports_last_redaction:
  assumes "sanitize_messages g [] (ms @ [m]) = Inr (red, out)"
    and "privacy_apply g (cm_content m) = Inr d" and "pd_metadata d \<noteq> []"
  shows "dict_get red (lit ''privacy'') = dict_get (pd_metadata d) (lit ''privacy'')"
proof -
  obtain red1 out2 where "sanitize_messages g red1 [m] = Inr (red, out2)"
    using sanitize_messages_append [OF assms(1)] by blast
  then have "merge_turn_metadata red1 (pd_metadata d) = Inr red"
    using assms(2,3) by (auto simp: res_bind_Inr_iff)
  from assms(2) this assms(3) show ?thesis
    by (elim privacy_metadata_block) auto
qed

lemma new_turn_Inr:
  assumes "new_turn svc tf c = Inr turn"
  shows "list_all2 (sanitized_as (cs_privacy svc)) (ac_messages c) (ct_messages turn) \<and> valid_turn turn
    \<and> ct_id turn = tf_turn_id tf \<and> ct_tenant_id turn = ac_tenant_id c \<and> ct_workspace_id turn = ac_workspace_id c
    \<and> ct_thread_id turn = ac_thread_id c \<and> ct_retention_policy turn = ac_retention_policy c
    \<and> ct_created_at turn = tf_created_at tf
    \<and> ct_expires_at turn = turn_expiry svc (ac_retention_policy c) (tf_created_at tf)"
proof -
  from assms obtain red ms where s: "sanitize_messages (cs_privacy svc) [] (ac_messages c) = Inr (red, ms)"
    and t: "turn = \<lparr>ct_id = tf_turn_id tf, ct_tenant_id = ac_tenant_id c, ct_workspace_id = ac_workspace_id c,
       ct_thread_id = ac_thread_id c, ct_messages = ms, ct_namespace = ac_namespace c,
       ct_agent_id = ac_agent_id c, ct_source_kind = ac_source_kind c,
       ct_retention_policy = ac_retention_policy c,
       ct_metadata = dict_merge (ac_metadata c) red, ct_created_at = tf_created_at tf,
       ct_expires_at = turn_expiry svc (ac_retention_policy c) (tf_created_at tf)\<rparr>"
    and v: "\<not> blank (ac_namespace c)" "\<not> blank (ac_source_kind c)" "ms \<noteq> []"
      "\<forall>e. turn_expiry svc (ac_retention_policy c) (tf_created_at tf) = Some e \<longrightarrow> tf_created_at tf < e"
    by (auto simp: new_turn_def res_bind_Inr_iff conversation_turn_post_init_Inr)
  have l: "list_all2 (sanitized_as (cs_privacy svc)) (ac_messages c) ms" using s by (rule sanitize_messages_Inr)
  then have "list_all valid_message ms"
    by (induction rule: list_all2_induct) (auto simp: sanitized_as_def)
  then show ?thesis using l v by (simp add: t valid_turn_def)
qed

lemma turn_event_Inr: "turn_event tf turn = Inr event \<Longrightarrow> ie_id event = tf_event_id tf"
  by (auto simp: turn_event_def dest!: integration_event_post_init_Inr)

lemma append_turn_cases:
  assumes "table_turns_ok s" and "append_turn_service svc tf c audit s = (r, s1)"
  obtains (refused) e where "r = Inl e" "s1 = s"
  | (created) turn event where "new_turn svc tf c = Inr turn" "turn_event tf turn = Inr event"
      "r = Inr \<lparr>ar_turn = turn, ar_created = True, ar_queued_event_ids = [ie_id event]\<rparr>"
      "s1 = snd (append_turn turn (ac_idempotency_key c)
         (map_option (\<lambda>a. a\<lparr>ae_resource_id := Some (uuid_str (ct_id turn))\<rparr>) audit) (Some event) s)"
      "remembered (st_turn_idempotency s) (ct_tenant_id turn)
         (scope_idempotency_key (ct_workspace_id turn) (ac_idempotency_key c)) = None"
  | (replayed) q i where "r = Inr \<lparr>ar_turn = q, ar_created = False, ar_queued_event_ids = []\<rparr>" "s1 = s"
      "dict_get (st_turns s) i = Some q" "ct_tenant_id q = ac_tenant_id c"
proof (cases "res_bind (new_turn svc tf c) (\<lambda>turn. res_bind (turn_event tf turn) (\<lambda>event. Inr (turn, event)))")
  case (Inl e)
  with assms(2) show thesis by (intro refused) (auto simp: append_turn_service_def)
next
  case (Inr p)
  obtain turn event where p: "p = (turn, event)" by (cases p)
  have t: "new_turn svc tf c = Inr turn" "turn_event tf turn = Inr event"
    using Inr unfolding p by (auto simp: res_bind_Inr_iff)
  note nt = new_turn_Inr [OF t(1)]
  let ?a = "map_option (\<lambda>a. a\<lparr>ae_resource_id := Some (uuid_str (ct_id turn))\<rparr>) audit"
  show thesis
  proof (cases "remembered (st_turn_idempotency s) (ct_tenant_id turn)
         (scope_idempotency_key (ct_workspace_id turn) (ac_idempotency_key c))")
    case None
    have "append_turn turn (ac_idempotency_key c) ?a (Some event) s
        = (Inr (turn, True), snd (append_turn turn (ac_idempotency_key c) ?a (Some event) s))"
      using append_turn_new(1) [OF None] by (simp add: prod_eq_iff)
    with Inr p t None assms(2) show thesis
      by (intro that(2) [of turn event]) (auto simp: append_turn_service_def split: prod.splits)
  next
    case (Some i)
    then obtain q where q: "dict_get (st_turns s) i = Some q" "ct_tenant_id q = ct_tenant_id turn"
      using assms(1) by (auto simp: table_turns_ok_def dest: idem_ok_get)
    with append_turn_replay [OF Some q(1)] Inr p assms(2) nt show thesis
      by (intro that(3) [of q i]) (auto simp: append_turn_service_def)
  qed
qed

text \<open>
  C30: Appending a turn is atomic and sanitized. A refused append and a replay change nothing; otherwise
  exactly the turn is added, each message with the content the privacy guard let through and its role
  and name, the turn satisfies the turn invariant and expires after the configured time if and only if
  it is kept for curation only, its event is queued, and no memory is written.
\<close>

theorem append_turn_sanitizes:
  assumes "table_turns_ok s" and "append_turn_service svc tf c audit s = (r, s1)"
  shows "case r of
      Inl e \<Rightarrow> s1 = s
    | Inr res \<Rightarrow>
        if ar_created res then
          st_turns s1 = dict_set (tf_turn_id tf) (ar_turn res) (st_turns s) \<and> st_items s1 = st_items s
          \<and> list_all2 (sanitized_as (cs_privacy svc)) (ac_messages c) (ct_messages (ar_turn res))
          \<and> valid_turn (ar_turn res) \<and> ct_tenant_id (ar_turn res) = ac_tenant_id c
          \<and> ct_expires_at (ar_turn res)
              = (if ac_retention_policy c = CuratedOnly then Some (tf_created_at tf + cs_ttl_seconds svc * 1000000)
                 else None)
          \<and> ar_queued_event_ids res = [tf_event_id tf] \<and> tf_event_id tf \<in> ie_id ` set (st_events s1)
        else s1 = s \<and> ct_tenant_id (ar_turn res) = ac_tenant_id c"
  using assms
proof (cases rule: append_turn_cases)
  case (created turn event)
  note nt = new_turn_Inr [OF created(1)]
  note new = append_turn_new [OF created(5)]
  have ev: "ie_id event = tf_event_id tf" using created(2) by (rule turn_event_Inr)
  have "st_items s1 = st_items s" "ie_id event \<in> ie_id ` set (st_events s1)"
    using created(4,5) publish_present [of event]
    by (auto simp: append_turn_def idempotent_insert_def)
  then show ?thesis using nt new(2) created(3,4) ev by (simp add: turn_expiry_def)
qed simp_all


section \<open>Evidence\<close>

lemma verified_evidence_quotes_verbatim:
  assumes "q \<in> set (verified_evidence_quotes rt payload turn)"
  shows "contains q (transcript turn)"
proof -
  let ?step = "\<lambda>quotes q. let v = trim_text q 500 in
        if 8 \<le> length v \<and> contains v (transcript turn) \<and> v \<notin> set quotes then quotes @ [v] else quotes"
  let ?qs = "string_list rt (py_get payload (lit ''evidence_quotes''))"
  have "\<forall>q \<in> set (foldl ?step [] ?qs). contains q (transcript turn)"
  proof (rule foldl_keeps)
    fix acc x assume "\<forall>q \<in> set acc. contains q (transcript turn)"
    then show "\<forall>q \<in> set (?step acc x). contains q (transcript turn)"
      unfolding Let_def by (cases "contains (trim_text x 500) (transcript turn)") simp_all
  qed simp
  moreover have "q \<in> set (foldl ?step [] ?qs)"
    using assms unfolding verified_evidence_quotes_def by (rule in_set_takeD)
  ultimately show ?thesis by blast
qed

text \<open>A summary carries quotes only when a model wrote it, and then only verbatim ones.\<close>

lemma summary_quotes:
  assumes "summary_text rt dumps llm turn = Inr (txt, md)"
    and "dict_get md (lit ''evidence_quotes'') = Some (PList vs)"
  shows "\<exists>qs. vs = map PStr qs \<and> (\<forall>q \<in> set qs. contains q (transcript turn))"
proof -
  have ne: "lit ''curator_engine'' \<noteq> lit ''evidence_quotes''" "lit ''curator_version'' \<noteq> lit ''evidence_quotes''"
    "lit ''llm_error'' \<noteq> lit ''evidence_quotes''" "lit ''llm_confidence'' \<noteq> lit ''evidence_quotes''"
    "lit ''curator_chunks'' \<noteq> lit ''evidence_quotes''" by code_simp+
  have plain: "dict_get (engine_metadata a b) (lit ''evidence_quotes'') = None" for a b
    using ne by (simp add: engine_metadata_def)
  show ?thesis
  proof (cases llm)
    case None
    with assms plain show ?thesis by (auto simp: summary_text_def)
  next
    case (Some f)
    then obtain r where r: "llm_summary_text rt dumps f turn = Inr r"
      "(txt, md) = (case r of None \<Rightarrow> (deterministic_summary turn,
         engine_metadata (lit ''deterministic'') (lit ''conversation-curator-v1'')) | Some x \<Rightarrow> x)"
      using assms(1) by (auto simp: summary_text_def res_bind_Inr_iff Let_def)
    with assms(2) plain obtain x where x: "r = Some x" "x = (txt, md)" by (cases r) auto
    show ?thesis
    proof (cases "curate_chunks dumps f (conversation_chunks 6000 turn)")
      case (Inl e)
      with r(1) x assms(2) plain ne show ?thesis by (auto simp: llm_summary_text_def Let_def map_of_append)
    next
      case (Inr v)
      with r(1) x obtain payload conf where "md = engine_metadata (lit ''memory_llm'') (lit ''conversation-curator-llm-v2'')
              @ [(lit ''llm_confidence'', conf),
                 (lit ''curator_chunks'', PInt (int (length (conversation_chunks 6000 turn)))),
                 (lit ''evidence_quotes'', PList (map PStr (verified_evidence_quotes rt payload turn)))]"
        by (cases v) (auto simp: llm_summary_text_def Let_def res_bind_Inr_iff split: if_splits)
      then have "vs = map PStr (verified_evidence_quotes rt payload turn)"
        using assms(2) plain ne by (simp add: map_add_def)
      then show ?thesis using verified_evidence_quotes_verbatim by blast
    qed
  qed
qed

lemma auto_accept_reason_Some:
  assumes "auto_accept_reason rt p = Some reason"
  obtains vs q where "dict_get (mp_metadata p) (lit ''evidence_quotes'') = Some (PList vs)"
    "q \<in> set (verified_quotes rt (mp_evidence p) vs)"
    "mp_target p \<in> {TPreference, TDecision, TTask, TProcedure}" "9/10 \<le> mp_confidence p"
    "contains (lit ''source_turn_id:'') (mp_evidence p)"
proof -
  obtain vs where "dict_get (mp_metadata p) (lit ''evidence_quotes'') = Some (PList vs)"
    "verified_quotes rt (mp_evidence p) vs \<noteq> []"
    using assms by (auto simp: auto_accept_reason_def Let_def split: if_splits option.splits pyval.splits)
  moreover have "mp_target p \<in> {TPreference, TDecision, TTask, TProcedure}"
    using assms by (simp add: auto_accept_reason_def Let_def split: if_splits)
  moreover have "9/10 \<le> mp_confidence p"
    using assms by (simp add: auto_accept_reason_def Let_def split: if_splits)
  moreover have "contains (lit ''source_turn_id:'') (mp_evidence p)"
    using assms by (simp add: auto_accept_reason_def Let_def split: if_splits)
  ultimately show thesis using that [of vs "hd (verified_quotes rt (mp_evidence p) vs)"] by simp
qed


section \<open>What a curation does\<close>

abbreviation cg_submit ::
  "curator \<Rightarrow> curate_fresh \<Rightarrow> conversation_turn \<Rightarrow> curate_command \<Rightarrow> str \<times> metadata \<Rightarrow> audit_event option
    \<Rightarrow> store \<Rightarrow> submit_result res \<times> store"
where
  "cg_submit cg fr turn c summary audit s \<equiv>
    submit (cg_runtime cg) (cg_classifier cg) (cg_privacy cg) (cf_proposal_id fr) (cf_proposed_at fr)
      (curation_submission turn c summary) audit s"

abbreviation cg_auto_accept :: "curator \<Rightarrow> curate_fresh \<Rightarrow> memory_proposal \<Rightarrow> store \<Rightarrow> review_result option res \<times> store" where
  "cg_auto_accept cg fr p s \<equiv>
    auto_accept (cg_runtime cg) (cg_privacy cg) (cf_memory fr) (cf_reviewed_at fr) p s"

text \<open>The quotes a curation submits are excerpts of the transcript.\<close>

lemma submission_quotes:
  assumes "submitted_proposal rt llm g i now (curation_submission turn c summary) = Inr p"
    and "summary_text rt' dumps llm' turn = Inr summary"
    and "dict_get (mp_metadata p) (lit ''evidence_quotes'') = Some (PList vs)" and "v \<in> set vs"
  shows "contains (strip (py_str rt v)) (transcript turn)"
proof -
  have "lit ''evidence_quotes'' \<notin> gateway_keys" unfolding gateway_keys_def by code_simp
  with submitted_metadata [OF assms(1)] assms(3)
  have "dict_get (sp_metadata (curation_submission turn c summary)) (lit ''evidence_quotes'') = Some (PList vs)"
    by simp
  moreover have "dict_get (dict_merge d [(lit ''source_turn_id'', a1), (lit ''source_observed_at'', a2),
      (lit ''curation_boundary'', a3), (lit ''claim_status'', a4)]) (lit ''evidence_quotes'')
      = dict_get d (lit ''evidence_quotes'')" for d :: metadata and a1 a2 a3 a4
  proof -
    have "lit ''source_turn_id'' \<noteq> lit ''evidence_quotes''" "lit ''source_observed_at'' \<noteq> lit ''evidence_quotes''"
      "lit ''curation_boundary'' \<noteq> lit ''evidence_quotes''" "lit ''claim_status'' \<noteq> lit ''evidence_quotes''"
      by code_simp+
    then show ?thesis by (simp add: dict_merge_Cons)
  qed
  ultimately have quotes: "dict_get (snd summary) (lit ''evidence_quotes'') = Some (PList vs)"
    by (simp add: curation_submission_def)
  obtain qs where "vs = map PStr qs" "\<forall>q \<in> set qs. contains q (transcript turn)"
    using summary_quotes [of rt' dumps llm' turn "fst summary" "snd summary" vs] assms(2) quotes by auto
  with assms(4) show ?thesis by (auto simp: contains_strip)
qed

lemma submit_answer:
  assumes "proposals_ok s" and "submit rt llm g i now c audit s = (Inr z, s1)"
  obtains (created) "submitted_proposal rt llm g i now c = Inr (sr_proposal z)" "sr_created z"
      "remembered (st_proposal_idempotency s) (sp_tenant_id c)
        (scope_idempotency_key (sp_workspace_id c) (sp_idempotency_key c)) = None"
      "st_proposals s1 = dict_set i (sr_proposal z) (st_proposals s)"
  | (replayed) "\<not> sr_created z" "s1 = s"
      "remembered (st_proposal_idempotency s) (sp_tenant_id c)
        (scope_idempotency_key (sp_workspace_id c) (sp_idempotency_key c)) = Some (mp_id (sr_proposal z))"
      "dict_get (st_proposals s) (mp_id (sr_proposal z)) = Some (sr_proposal z)"
proof -
  obtain p where p: "submitted_proposal rt llm g i now c = Inr p"
    "append_proposal p (sp_idempotency_key c) (proposal_audit p audit) s = (Inr (sr_proposal z, sr_created z), s1)"
    using assms(2) by (auto simp: submit_def split: sum.splits prod.splits)
  have id: "mp_id p = i" "mp_tenant_id p = sp_tenant_id c" "mp_workspace_id p = sp_workspace_id c"
    using submitted_proposal_Inr [OF p(1)] by metis+
  show thesis
  proof (cases "remembered (st_proposal_idempotency s) (sp_tenant_id c)
        (scope_idempotency_key (sp_workspace_id c) (sp_idempotency_key c))")
    case None
    with p id show thesis
      by (intro that(1)) (auto simp: append_proposal_def idempotent_insert_def)
  next
    case (Some j)
    then obtain q where q: "dict_get (st_proposals s) j = Some q"
      using assms(1) by (auto simp: proposals_ok_def dest: idem_ok_get)
    moreover have "mp_id q = j" using q assms(1) by (auto simp: proposals_ok_def intro: table_ok_ident)
    moreover have "sr_proposal z = q \<and> \<not> sr_created z \<and> s1 = s"
      using p(2) q Some id by (auto simp: append_proposal_replay)
    ultimately show thesis using Some by (intro that(2)) simp_all
  qed
qed

lemma curation_evidence_nonempty: "curation_evidence turn \<noteq> []"
proof -
  have "\<not> blank (lit ''source_turn_id: '' @ rest)" for rest
    by (simp add: blank_iff lit_def) (simp add: is_space_def)
  then show ?thesis by (simp add: curation_evidence_def trim_text_Nil_iff)
qed

lemma contains_strip_text:
  assumes "contains q s" and "strip q = q" and "q \<noteq> []"
  shows "contains q (strip s)"
proof -
  have ends: "\<not> is_space (hd q)" "\<not> is_space (last q)"
  proof -
    have "lstrip q \<noteq> []" using assms(2,3) by (auto simp: strip_def rstrip_def)
    have "length (rstrip (lstrip q)) \<le> length (lstrip q)" by (rule length_rstrip)
    moreover have "length (lstrip q) \<le> length q" by (simp add: lstrip_def length_dropWhile_le)
    ultimately have "length (lstrip q) = length q" using assms(2) by (simp add: strip_def)
    moreover obtain t where "q = t @ lstrip q" using lstrip_suffix by blast
    ultimately have "lstrip q = q" by (metis append_eq_append_conv append_Nil)
    then show "\<not> is_space (hd q)" using assms(3) unfolding lstrip_def by (metis hd_dropWhile)
    show "\<not> is_space (last q)" using assms(2,3) rstrip_last [of "lstrip q"] by (simp add: strip_def)
  qed
  have left: "contains q (dropWhile is_space t)" if "contains q t" "\<not> is_space (hd q)" "q \<noteq> []" for q t
  proof -
    obtain a b where t: "t = a @ q @ b" using \<open>contains q t\<close> by (auto simp: contains_iff)
    have "dropWhile is_space (q @ b) = q @ b" using that(2,3) by (cases q) auto
    then show ?thesis unfolding contains_iff t by (auto simp: dropWhile_append)
  qed
  have rev: "contains (rev q) (rev t) = contains q t" for q t
    unfolding contains_iff by (metis append.assoc rev_append rev_rev_ident)
  have "contains q (lstrip s)" unfolding lstrip_def using assms(1) ends(1) assms(3) by (rule left)
  then have "contains (rev q) (rev (lstrip s))" by (simp add: rev)
  then have "contains (rev q) (dropWhile is_space (rev (lstrip s)))"
    using ends(2) assms(3) by (intro left) (simp_all add: hd_rev)
  then have "contains q (rstrip (lstrip s))" unfolding rstrip_def using rev [of q] by (metis rev_rev_ident)
  then show ?thesis by (simp add: strip_def)
qed

text \<open>The text of a memory holds what the evidence of its proposal holds, as long as nothing is cut off.\<close>

lemma accepted_text_evidence:
  assumes "contains q (mp_evidence p)" and "strip q = q" and "q \<noteq> []"
    and "length (strip (mp_proposal p)) + length (strip (mp_evidence p)) \<le> 5988"
  shows "contains q (accepted_memory_text p)"
proof -
  let ?t = "join [10] [strip (mp_proposal p), [], lit ''Evidence:'', strip (mp_evidence p)]"
  have e: "contains q (strip (mp_evidence p))" using assms(1-3) by (rule contains_strip_text)
  then have "\<not> blank (mp_evidence p)" using assms(3) by (auto simp: blank_def contains_iff)
  then have t: "accepted_memory_text p = trim_text ?t 6000" by (simp add: accepted_memory_text_def)
  have len: "length ?t \<le> 6000" using assms(4) by (simp add: lit_def)
  then have "length (strip ?t) \<le> 6000" using length_strip [of ?t] by simp
  then have "accepted_memory_text p = strip ?t" by (simp add: t trim_text_def)
  moreover obtain a b where "strip (mp_evidence p) = a @ q @ b" using e by (auto simp: contains_iff)
  then have "?t = (strip (mp_proposal p) @ [10, 10] @ lit ''Evidence:'' @ [10] @ a) @ q @ b" by simp
  then have "contains q ?t" unfolding contains_iff by blast
  then have "contains q (strip ?t)" using assms(2,3) by (rule contains_strip_text)
  ultimately show ?thesis by simp
qed

lemma auto_accept_writes:
  assumes "gateway_inv s" and "dict_get (st_proposals s) (mp_id p) = Some p"
    and "auto_accept rt g fr now p s = (r, s1)" and "auto_accept_reason rt p = Some reason"
    and "st_items s1 \<noteq> st_items s"
  obtains p' item d where "dict_get (st_proposals s1) (mp_id p) = Some p'" "mp_status p' = PAccepted"
    "same_content p p'" "st_items s1 = dict_set (fr_item_id fr) item (st_items s)" "mp_status p \<notin> {PAccepted, PRejected}"
    "privacy_apply g (accepted_memory_text p) = Inr d" "mi_text item = pd_text d"
    "pv_origin_uri (mi_provenance item) = Some (lit ''proposal://'' @ uuid_str (mp_id p))"
    "dict_get (mp_metadata p') (lit ''accepted_memory_id'') = Some (PStr (uuid_str (fr_item_id fr)))"
proof -
  obtain x where x: "accept g fr now (auto_review p reason) None s = (x, s1)"
    using assms(3,4) by (auto simp: auto_accept_def split: sum.splits prod.splits)
  have p: "get_proposal (rv_tenant_id (auto_review p reason)) (rv_proposal_id (auto_review p reason)) s = Some p"
    using assms(2) by (simp add: auto_review_def get_proposal_def)
  from assms(1) x show thesis
  proof (cases rule: accept_written_cases)
    case unwritten
    with assms(5) show thesis by simp
  next
    case (written cur p' item event rc sk)
    have cur: "cur = p" using written(2) p by simp
    have "mi_id item = fr_item_id fr" using prepare_Inr [OF written(7)] by metis
    moreover obtain d where "privacy_apply g (rc_text rc) = Inr d" "mi_text item = pd_text d"
      using prepare_Inr [OF written(7)] by metis
    moreover have "mp_status p \<notin> {PAccepted, PRejected}" using written(3,4) by (simp add: cur)
    ultimately show thesis
      using written(8-13) prepare_rest [OF written(7)] accept_command_rest(11) [OF written(6)]
        accept_command_fields [OF written(6)]
      by (intro that [of p' item d]) (simp_all add: cur)
  qed
qed

lemma curate_cases:
  assumes "curate_turn cg fr c audit s = (r, s1)"
  obtains (refused) e where "r = Inl e" "s1 = s"
  | (unsubmitted) e turn summary where "r = Inl e" "cg_submit cg fr turn c summary audit s = (Inl e, s1)"
  | (automatic) turn summary p s2 x where "curatable c s = Inr turn"
      "summary_text (cg_runtime cg) (cg_dumps cg) (cg_llm cg) turn = Inr summary"
      "cg_submit cg fr turn c summary audit s = (Inr p, s2)" "cu_auto_accept c"
      "cg_auto_accept cg fr (sr_proposal p) s2 = (x, s1)" "x \<noteq> Inr None"
      "r = (case x of Inl e \<Rightarrow> Inl e | Inr None \<Rightarrow> Inr \<lparr>cr_retained = None, cr_proposal = None\<rparr>
         | Inr (Some a) \<Rightarrow> Inr \<lparr>cr_retained = rw_retained a, cr_proposal = None\<rparr>)"
  | (proposed) turn summary p s2 where "curatable c s = Inr turn"
      "summary_text (cg_runtime cg) (cg_dumps cg) (cg_llm cg) turn = Inr summary"
      "cg_submit cg fr turn c summary audit s = (Inr p, s2)" "finish_curation turn p s2 = (r, s1)"
proof (cases "res_bind (curatable c s) (\<lambda>turn.
            res_bind (summary_text (cg_runtime cg) (cg_dumps cg) (cg_llm cg) turn) (\<lambda>summary.
            Inr (turn, summary)))")
  case (Inl e)
  with assms show thesis by (intro refused) (auto simp: curate_turn_def)
next
  case (Inr y)
  obtain turn summary where y: "y = (turn, summary)" by (cases y)
  have t: "curatable c s = Inr turn" "summary_text (cg_runtime cg) (cg_dumps cg) (cg_llm cg) turn = Inr summary"
    using Inr unfolding y by (auto simp: res_bind_Inr_iff)
  obtain q s2 where q: "cg_submit cg fr turn c summary audit s = (q, s2)" by fastforce
  show thesis
  proof (cases q)
    case (Inl e)
    with assms t q show thesis by (intro unsubmitted) (auto simp: curate_turn_def)
  next
    case (Inr p)
    note q = q [unfolded Inr]
    obtain x s3 where x: "cg_auto_accept cg fr (sr_proposal p) s2 = (x, s3)" by fastforce
    show thesis
    proof (cases "cu_auto_accept c \<and> x \<noteq> Inr None")
      case True
      with assms t q x show thesis
        by (intro automatic [of turn summary p s2 x]) (auto simp: curate_turn_def split: sum.splits option.splits)
    next
      case False
      have "s3 = s2" if "x = Inr None"
        using x that by (auto simp: auto_accept_def split: option.splits sum.splits prod.splits)
      with False assms t q x show thesis
        by (intro proposed [OF t q]) (auto simp: curate_turn_def split: if_splits)
    qed
  qed
qed

lemma finish_curation_frame:
  assumes "finish_curation turn p s = (r, s1)" and "turns_ok s"
    and "dict_get (st_turns s) (ct_id turn) = Some turn"
  shows "st_items s1 = st_items s \<and> st_idempotency s1 = st_idempotency s \<and> st_proposals s1 = st_proposals s
    \<and> st_proposal_idempotency s1 = st_proposal_idempotency s \<and> st_events s1 = st_events s
    \<and> r = Inr \<lparr>cr_retained = None, cr_proposal = Some p\<rparr>
    \<and> st_turns s1 = (if ct_retention_policy turn = CuratedOnly
        then dict_set (ct_id turn) (purged_turn (lit ''purged_after_curation'') turn) (st_turns s) else st_turns s)
    \<and> turns_ok s1"
  using assms purge_turn_with_hit [OF assms(2,3) refl, of "lit ''purged_after_curation''"]
    turns_ok_purged [OF assms(2,3), of "lit ''purged_after_curation''"]
  by (auto simp: finish_curation_def purge_turn_content_def split: if_splits)

lemma submit_refused:
  assumes "gateway_inv s" and "submit rt llm g i now c audit s = (Inl e, s1)"
  shows "s1 = s"
proof -
  have "proposals_ok s" using assms(1) by (simp add: gateway_inv_def)
  from this assms(2) show ?thesis by (cases rule: submit_cases) simp_all
qed

lemma submit_turns:
  assumes "submit rt llm g i now c audit s = (r, s1)"
  shows "st_turns s1 = st_turns s \<and> st_turn_idempotency s1 = st_turn_idempotency s"
  using assms
  by (auto simp: submit_def append_proposal_def idempotent_insert_def split: sum.splits prod.splits option.splits bool.splits)

lemma accept_turns:
  assumes "auto_accept rt g fr now p s = (r, s1)"
  shows "st_turns s1 = st_turns s \<and> st_turn_idempotency s1 = st_turn_idempotency s"
proof -
  have "st_turns (snd (accept_proposal_with_memory p item event rv rs k au n s)) = st_turns s
      \<and> st_turn_idempotency (snd (accept_proposal_with_memory p item event rv rs k au n s)) = st_turn_idempotency s"
    for p item event rv rs k au n
    by (auto simp: accept_proposal_with_memory_def Let_def split: option.splits sum.splits)
  then have "st_turns (snd (accept g fr now c None s)) = st_turns s
      \<and> st_turn_idempotency (snd (accept g fr now c None s)) = st_turn_idempotency s" for c
    by (auto simp: accept_def split: sum.split prod.split) (metis snd_conv)+
  with assms show ?thesis
    by (auto simp: auto_accept_def split: option.splits sum.splits prod.splits) (metis snd_conv)+
qed


lemma curate_outcome:
  assumes "gateway_inv s" and "turns_ok s" and "curate_turn cg fr c audit s = (r, s1)"
    and "dict_get (st_proposals s) (cf_proposal_id fr) = None"
    and "dict_get (st_items s) (fr_item_id (cf_memory fr)) = None"
  shows "(case curatable c s of Inl e \<Rightarrow> r = Inl e \<and> s1 = s | Inr turn \<Rightarrow>
      gateway_inv s1 \<and> turns_ok s1 \<and> (ledger_ok s \<longrightarrow> ledger_ok s1) \<and> reviews_follow s s1
      \<and> (\<forall>i x. dict_get (st_items s) i = Some x \<longrightarrow> dict_get (st_items s1) i = Some x)
      \<and> (\<not> cu_auto_accept c \<longrightarrow> st_items s1 = st_items s)
      \<and> (case r of Inr res \<Rightarrow>
           (case cr_proposal res of
              Some _ \<Rightarrow> st_items s1 = st_items s \<and> cr_retained res = None
                \<and> st_turns s1 = (if ct_retention_policy turn = CuratedOnly
                    then dict_set (ct_id turn) (purged_turn (lit ''purged_after_curation'') turn) (st_turns s)
                    else st_turns s)
            | None \<Rightarrow> cu_auto_accept c \<and> st_turns s1 = st_turns s)
         | Inl e \<Rightarrow> st_turns s1 = st_turns s))"
proof (cases "curatable c s")
  case (Inl e)
  with assms(3) show ?thesis by (simp add: curate_turn_def)
next
  case turn: (Inr turn)
  have t: "dict_get (st_turns s) (ct_id turn) = Some turn"
    using turn assms(2)
    by (auto simp: curatable_def get_turn_def turns_ok_def table_ok_def split: option.splits if_splits)
  from assms(3) show ?thesis
  proof (cases rule: curate_cases)
    case (refused e)
    with assms turn show ?thesis by simp
  next
    case (unsubmitted e turn' summary)
    have "s1 = s" using assms(1) unsubmitted(2) by (rule submit_refused)
    with unsubmitted assms turn show ?thesis by simp
  next
    case (automatic turn' summary p s2 x)
    note sub = submit_gateway [OF assms(1) automatic(3) assms(4)] submit_turns [OF automatic(3)]
    have fresh: "dict_get (st_items s2) (fr_item_id (cf_memory fr)) = None" using sub assms(5) by simp
    note acc = auto_accept_gateway [OF sub(1) [THEN conjunct1] automatic(5) fresh] accept_turns [OF automatic(5)]
    have "ledger_ok s1" if "ledger_ok s"
      using that acc sub ledger_ok_cong [of s2 s] by simp
    moreover have "turns_ok s1" using assms(2) acc sub turns_ok_cong [of s1 s] by simp
    moreover have "reviews_follow s s1" using sub acc reviews_follow_trans by blast
    ultimately show ?thesis using turn automatic(4,7) acc sub
      by (auto split: sum.splits option.splits)
  next
    case (proposed turn' summary p s2)
    note sub = submit_gateway [OF assms(1) proposed(3) assms(4)] submit_turns [OF proposed(3)]
    have tt: "turn' = turn" using proposed(1) turn by simp
    have t2: "dict_get (st_turns s2) (ct_id turn) = Some turn" "turns_ok s2"
      using t sub assms(2) turns_ok_cong [of s2 s] by simp_all
    note fin = finish_curation_frame [OF proposed(4) [unfolded tt] t2(2,1)]
    have "gateway_inv s1" using gateway_inv_grow [of s2 s1] sub fin by simp
    moreover have "ledger_ok s1" if "ledger_ok s" using that sub fin ledger_ok_cong [of s1 s] by simp
    moreover have "reviews_follow s s1"
      using sub fin reviews_follow_trans [of s s2 s1] by simp
    ultimately show ?thesis using turn fin sub by simp
  qed
qed

lemma finish_curation_answer:
  assumes "finish_curation turn p s = (Inr res, s1)"
  shows "cr_proposal res = Some p" "st_proposals s1 = st_proposals s" "st_items s1 = st_items s"
  using assms
  by (auto simp: finish_curation_def purge_turn_content_def purge_turn_with_def Let_def
      split: if_splits sum.splits prod.splits option.splits)

lemma curate_proposes:
  assumes "gateway_inv s" and "curatable c s = Inr turn" and "curate_turn cg fr c audit s = (Inr res, s1)"
    and "cr_proposal res = Some p"
  shows "dict_get (st_proposals s1) (mp_id (sr_proposal p)) = Some (sr_proposal p)
    \<and> (if sr_created p
       then mp_id (sr_proposal p) = cf_proposal_id fr \<and> mp_status (sr_proposal p) = POpen
         \<and> mp_requester (sr_proposal p) = lit ''conversation-curator''
         \<and> mp_tenant_id (sr_proposal p) = ct_tenant_id turn \<and> mp_workspace_id (sr_proposal p) = ct_workspace_id turn
         \<and> (\<exists>d. privacy_apply (cg_privacy cg) (curation_evidence turn) = Inr d \<and> mp_evidence (sr_proposal p) = pd_text d)
       else st_proposals s1 = st_proposals s)"
proof -
  have ok: "proposals_ok s" using assms(1) by (simp add: gateway_inv_def)
  from assms(3) show ?thesis
  proof (cases rule: curate_cases)
    case (automatic turn' summary q s2 x)
    with assms(4) show ?thesis by (auto split: sum.splits option.splits)
  next
    case (proposed turn' summary q s2)
    have q: "q = p" "st_proposals s1 = st_proposals s2" using finish_curation_answer [OF proposed(4)] assms(4) by simp_all
    have tt: "turn' = turn" using proposed(1) assms(2) by simp
    note sel = curation_submission_def [of turn c summary]
    from ok proposed(3) [unfolded q tt] show ?thesis
    proof (cases rule: submit_answer)
      case created
      obtain d where "mp_status (sr_proposal p) = POpen" "mp_id (sr_proposal p) = cf_proposal_id fr"
        "mp_requester (sr_proposal p) = lit ''conversation-curator''"
        "mp_tenant_id (sr_proposal p) = ct_tenant_id turn" "mp_workspace_id (sr_proposal p) = ct_workspace_id turn"
        "privacy_apply (cg_privacy cg) (curation_evidence turn) = Inr d" "mp_evidence (sr_proposal p) = pd_text d"
        using submitted_proposal_Inr [OF created(1)] curation_evidence_nonempty [of turn]
        by (simp add: sel) metis
      with created q show ?thesis by simp
    next
      case replayed
      with q show ?thesis by simp
    qed
  qed simp_all
qed

text \<open>
  C98: Curation never bypasses review. A turn that must not be curated, or that the model's reply makes
  fail, changes nothing; otherwise every memory and every proposal content is kept and a memory is
  written only by an automatic acceptance that was asked for. A curation that answers with a proposal
  wrote no memory and has it in the proposal table: a new one is open, is the curator's and carries the
  guarded excerpts of the turn as evidence, one already stored under the key leaves the table as it
  was; and a turn kept for curation only then has the text of every message replaced. One that accepts
  automatically leaves the raw content of the turn in the ledger, whatever its policy, against
  \<open>docs/AGENT_INTEGRATION.md\<close> and \<open>docs/CONTRACTS.md\<close>; so does one that fails.
\<close>

theorem curation_is_reviewed:
  assumes "gateway_inv s" and "turns_ok s" and "curate_turn cg fr c audit s = (r, s1)"
    and "dict_get (st_proposals s) (cf_proposal_id fr) = None"
    and "dict_get (st_items s) (fr_item_id (cf_memory fr)) = None"
  shows "(case curatable c s of Inl e \<Rightarrow> r = Inl e \<and> s1 = s | Inr turn \<Rightarrow>
      gateway_inv s1 \<and> turns_ok s1 \<and> (ledger_ok s \<longrightarrow> ledger_ok s1) \<and> reviews_follow s s1
      \<and> (\<forall>i x. dict_get (st_items s) i = Some x \<longrightarrow> dict_get (st_items s1) i = Some x)
      \<and> (\<not> cu_auto_accept c \<longrightarrow> st_items s1 = st_items s)
      \<and> (case r of Inr res \<Rightarrow>
           (case cr_proposal res of
              Some p \<Rightarrow> st_items s1 = st_items s \<and> cr_retained res = None
                \<and> dict_get (st_proposals s1) (mp_id (sr_proposal p)) = Some (sr_proposal p)
                \<and> (if sr_created p
                   then mp_id (sr_proposal p) = cf_proposal_id fr \<and> mp_status (sr_proposal p) = POpen
                     \<and> mp_requester (sr_proposal p) = lit ''conversation-curator''
                     \<and> mp_tenant_id (sr_proposal p) = ct_tenant_id turn
                     \<and> mp_workspace_id (sr_proposal p) = ct_workspace_id turn
                     \<and> (\<exists>d. privacy_apply (cg_privacy cg) (curation_evidence turn) = Inr d
                         \<and> mp_evidence (sr_proposal p) = pd_text d)
                   else st_proposals s1 = st_proposals s)
                \<and> (if ct_retention_policy turn = CuratedOnly
                   then \<exists>t. st_turns s1 = dict_set (ct_id turn) t (st_turns s) \<and> ct_id t = ct_id turn
                     \<and> map cm_role (ct_messages t) = map cm_role (ct_messages turn)
                     \<and> (\<forall>m \<in> set (ct_messages t). cm_content m = lit ''[PURGED_AFTER_CURATION]'')
                   else st_turns s1 = st_turns s)
            | None \<Rightarrow> cu_auto_accept c \<and> st_turns s1 = st_turns s)
         | Inl e \<Rightarrow> st_turns s1 = st_turns s))"
proof (cases "curatable c s")
  case (Inl e)
  with curate_outcome [OF assms] show ?thesis by simp
next
  case turn: (Inr turn)
  note out = curate_outcome [OF assms, unfolded turn sum.case]
  show ?thesis
  proof (cases r)
    case (Inl e)
    with out turn show ?thesis by simp
  next
    case (Inr res)
    show ?thesis
    proof (cases "cr_proposal res")
      case None
      with out turn Inr show ?thesis by simp
    next
      case (Some p)
      have stored: "curate_turn cg fr c audit s = (Inr res, s1)" using assms(3) Inr by simp
      have "map cm_role (ct_messages (purged_turn w turn)) = map cm_role (ct_messages turn)
          \<and> (\<forall>m \<in> set (ct_messages (purged_turn w turn)). cm_content m = lit ''[PURGED_AFTER_CURATION]'')" for w
        by (simp add: purged_turn_def purged_message_def purged_conversation_content_def)
      with out turn Inr Some curate_proposes [OF assms(1) turn stored Some] show ?thesis
        unfolding Inr turn sum.case Some option.case
        by (auto split: if_splits intro!: exI [of _ "purged_turn (lit ''purged_after_curation'') turn"])
    qed
  qed
qed

text \<open>
  C5: A memory is accepted automatically only with a quote in the proposal's evidence. When a curation
  changes the ledger, exactly one memory is added, the accepted form of one proposal nobody had decided on: its
  kind is open to automation, its confidence is 0.9 or more, its evidence names a turn and contains a
  quote of eight characters or more that its own metadata lists. The memory's text is what the guard
  makes of the proposal text followed by the evidence; what the guard is given contains the quote unless
  the two are so long that the end is cut off. When the curation's key was unused, the proposal is the one this
  curation submitted and the quote stands in the transcript of the stored turn. When the key was used,
  the proposal is the one stored under it, whoever submitted it, and nothing ties it to the turn.
\<close>

theorem auto_accept_needs_quote:
  assumes "gateway_inv s" and "curate_turn cg fr c audit s = (r, s1)" and "curatable c s = Inr turn"
    and "st_items s1 \<noteq> st_items s" and "dict_get (st_proposals s) (cf_proposal_id fr) = None"
  shows "\<exists>p item d qs q. dict_get (st_proposals s1) (mp_id p) = Some p \<and> mp_status p = PAccepted
    \<and> dict_get (mp_metadata p) (lit ''accepted_memory_id'') = Some (PStr (uuid_str (fr_item_id (cf_memory fr))))
    \<and> st_items s1 = dict_set (fr_item_id (cf_memory fr)) item (st_items s)
    \<and> mp_target p \<in> {TPreference, TDecision, TTask, TProcedure} \<and> 9/10 \<le> mp_confidence p
    \<and> contains (lit ''source_turn_id:'') (mp_evidence p)
    \<and> q \<in> set (map (\<lambda>v. strip (py_str (cg_runtime cg) v)) qs) \<and> 8 \<le> length q \<and> contains q (mp_evidence p)
    \<and> privacy_apply (cg_privacy cg) (accepted_memory_text p) = Inr d \<and> mi_text item = pd_text d
    \<and> pv_origin_uri (mi_provenance item) = Some (lit ''proposal://'' @ uuid_str (mp_id p))
    \<and> (length (strip (mp_proposal p)) + length (strip (mp_evidence p)) \<le> 5988
        \<longrightarrow> contains q (accepted_memory_text p))
    \<and> (case remembered (st_proposal_idempotency s) (ct_tenant_id turn) (scope_idempotency_key (ct_workspace_id turn)
          (sp_idempotency_key (curation_submission turn c ([], [])))) of
        None \<Rightarrow> mp_id p = cf_proposal_id fr \<and> contains q (transcript turn)
      | Some i \<Rightarrow> mp_id p = i \<and> (\<exists>p0. dict_get (st_proposals s) i = Some p0 \<and> mp_status p0 \<notin> {PAccepted, PRejected}
          \<and> same_content p0 p \<and> dict_get (mp_metadata p0) (lit ''evidence_quotes'') = Some (PList qs)))"
  using assms(2)
proof (cases rule: curate_cases)
  case (refused e)
  with assms(4) show ?thesis by simp
next
  case (unsubmitted e turn' summary')
  have "s1 = s" using assms(1) unsubmitted(2) by (rule submit_refused)
  with assms(4) show ?thesis by simp
next
  case (proposed turn' summary' p s2)
  have "st_items s1 = st_items s2"
    using proposed(4)
    by (auto simp: finish_curation_def purge_turn_content_def purge_turn_with_def Let_def
        split: if_splits sum.splits prod.splits option.splits)
  moreover have "st_items s2 = st_items s" using submit_gateway [OF assms(1) proposed(3) assms(5)] by simp
  ultimately show ?thesis using assms(4) by simp
next
  case (automatic turn' summary' z s2 x)
  have tt: "turn' = turn" using automatic(1) assms(3) by simp
  have ok: "proposals_ok s" using assms(1) by (simp add: gateway_inv_def)
  let ?c = "curation_submission turn c summary'" and ?q = "sr_proposal z"
  have key: "sp_idempotency_key ?c = sp_idempotency_key (curation_submission turn c ([], []))"
      "sp_tenant_id ?c = ct_tenant_id turn" "sp_workspace_id ?c = ct_workspace_id turn"
    by (simp_all add: curation_submission_def)
  note sub = submit_gateway [OF assms(1) automatic(3) assms(5)]
  note answer = submit_answer [OF ok automatic(3) [unfolded tt], unfolded key]
  have stored: "dict_get (st_proposals s2) (mp_id ?q) = Some ?q"
  proof (rule answer)
    assume "submitted_proposal (cg_runtime cg) (cg_classifier cg) (cg_privacy cg) (cf_proposal_id fr)
        (cf_proposed_at fr) ?c = Inr ?q" "st_proposals s2 = dict_set (cf_proposal_id fr) ?q (st_proposals s)"
    moreover from this(1) have "mp_id ?q = cf_proposal_id fr" using submitted_proposal_Inr by metis
    ultimately show ?thesis by simp
  qed simp
  have "auto_accept_reason (cg_runtime cg) ?q \<noteq> None"
    using automatic(5,6) by (auto simp: auto_accept_def split: option.splits)
  then obtain reason where reason: "auto_accept_reason (cg_runtime cg) ?q = Some reason" by blast
  obtain vs q where vs: "dict_get (mp_metadata ?q) (lit ''evidence_quotes'') = Some (PList vs)"
      "q \<in> set (verified_quotes (cg_runtime cg) (mp_evidence ?q) vs)"
    and kind: "mp_target ?q \<in> {TPreference, TDecision, TTask, TProcedure}" "9/10 \<le> mp_confidence ?q"
      "contains (lit ''source_turn_id:'') (mp_evidence ?q)"
    by (rule auto_accept_reason_Some [OF reason])
  have quote: "q \<in> set (map (\<lambda>v. strip (py_str (cg_runtime cg) v)) vs)" "8 \<le> length q"
      "contains q (mp_evidence ?q)" "strip q = q" "q \<noteq> []"
    using vs(2) by (auto simp: verified_quotes_def)
  have changed: "st_items s1 \<noteq> st_items s2" using assms(4) sub by simp
  obtain p item d where acc: "dict_get (st_proposals s1) (mp_id ?q) = Some p" "mp_status p = PAccepted"
      "same_content ?q p" "st_items s1 = dict_set (fr_item_id (cf_memory fr)) item (st_items s2)"
      "mp_status ?q \<notin> {PAccepted, PRejected}" "privacy_apply (cg_privacy cg) (accepted_memory_text ?q) = Inr d"
      "mi_text item = pd_text d"
      "pv_origin_uri (mi_provenance item) = Some (lit ''proposal://'' @ uuid_str (mp_id ?q))"
      "dict_get (mp_metadata p) (lit ''accepted_memory_id'') = Some (PStr (uuid_str (fr_item_id (cf_memory fr))))"
    by (rule auto_accept_writes [OF sub [THEN conjunct1] stored automatic(5) reason changed])
  have same: "mp_id p = mp_id ?q" "mp_target p = mp_target ?q" "mp_confidence p = mp_confidence ?q"
      "mp_evidence p = mp_evidence ?q" "mp_proposal p = mp_proposal ?q"
    using acc(3) by (simp_all add: same_content_iff)
  have same_text: "accepted_memory_text p = accepted_memory_text ?q" by (simp add: accepted_memory_text_def same)
  have origin: "case remembered (st_proposal_idempotency s) (ct_tenant_id turn) (scope_idempotency_key
      (ct_workspace_id turn) (sp_idempotency_key (curation_submission turn c ([], [])))) of
        None \<Rightarrow> mp_id p = cf_proposal_id fr \<and> contains q (transcript turn)
      | Some i \<Rightarrow> mp_id p = i \<and> (\<exists>p0. dict_get (st_proposals s) i = Some p0 \<and> mp_status p0 \<notin> {PAccepted, PRejected}
          \<and> same_content p0 p \<and> dict_get (mp_metadata p0) (lit ''evidence_quotes'') = Some (PList vs))"
  proof (rule answer)
    assume created: "submitted_proposal (cg_runtime cg) (cg_classifier cg) (cg_privacy cg) (cf_proposal_id fr)
        (cf_proposed_at fr) ?c = Inr ?q" and none: "remembered (st_proposal_idempotency s) (ct_tenant_id turn)
        (scope_idempotency_key (ct_workspace_id turn) (sp_idempotency_key (curation_submission turn c ([], [])))) = None"
    have "contains q (transcript turn)"
      using submission_quotes [OF created automatic(2) [unfolded tt] vs(1)] quote(1) by auto
    moreover have "mp_id ?q = cf_proposal_id fr" using submitted_proposal_Inr [OF created] by metis
    ultimately show ?thesis by (simp add: none same)
  qed (simp add: same vs(1) acc(3) acc(5) [simplified])
  show ?thesis
    using acc same same_text kind quote origin accepted_text_evidence [OF quote(3-5)] sub
    by (intro exI [of _ p] exI [of _ item] exI [of _ d] exI [of _ vs] exI [of _ q]) simp
qed


section \<open>Witnesses\<close>

definition sample_turn_command :: append_turn_command where
  "sample_turn_command = \<lparr>ac_tenant_id = 7, ac_workspace_id = 8, ac_thread_id = 9,
     ac_messages = [\<lparr>cm_role = lit ''user'', cm_content = lit ''I prefer tea'', cm_name = None, cm_metadata = []\<rparr>],
     ac_namespace = lit ''default'', ac_agent_id = None, ac_source_kind = lit ''chat'',
     ac_retention_policy = CuratedOnly, ac_metadata = [], ac_idempotency_key = None\<rparr>"

abbreviation sample_append :: "append_turn_result res \<times> store" where
  "sample_append \<equiv> append_turn_service \<lparr>cs_privacy = plain_guard, cs_ttl_seconds = 300\<rparr>
     \<lparr>tf_turn_id = 1, tf_event_id = 21, tf_created_at = 40, tf_occurred_at = 40\<rparr> sample_turn_command None empty_store"

definition curated_turn :: conversation_turn where
  "curated_turn = \<lparr>ct_id = 1, ct_tenant_id = 7, ct_workspace_id = 8, ct_thread_id = 9,
     ct_messages = [\<lparr>cm_role = lit ''user'', cm_content = lit ''I prefer tea'', cm_name = None, cm_metadata = []\<rparr>],
     ct_namespace = lit ''default'', ct_agent_id = None, ct_source_kind = lit ''chat'',
     ct_retention_policy = CuratedOnly, ct_metadata = [], ct_created_at = 40, ct_expires_at = Some 300000040\<rparr>"

abbreviation sample_service :: conversation_service where
  "sample_service \<equiv> \<lparr>cs_privacy = plain_guard, cs_ttl_seconds = 300\<rparr>"

lemma sample_append_steps:
  obtains event where "new_turn sample_service \<lparr>tf_turn_id = 1, tf_event_id = 21, tf_created_at = 40, tf_occurred_at = 40\<rparr>
      sample_turn_command = Inr curated_turn"
    "turn_event \<lparr>tf_turn_id = 1, tf_event_id = 21, tf_created_at = 40, tf_occurred_at = 40\<rparr> curated_turn = Inr event"
proof -
  let ?tf = "\<lparr>tf_turn_id = 1, tf_event_id = 21, tf_created_at = 40, tf_occurred_at = 40\<rparr>"
  have "\<not> isl (turn_event ?tf curated_turn)" by code_simp
  then obtain event where "turn_event ?tf curated_turn = Inr event" by (cases "turn_event ?tf curated_turn") auto
  moreover have "new_turn sample_service ?tf sample_turn_command = Inr curated_turn" by code_simp
  ultimately show thesis using that by blast
qed

lemma sample_append_turns: "st_turns (snd sample_append) = [(1, curated_turn)]"
  "st_turn_idempotency (snd sample_append) = []" "st_items (snd sample_append) = []"
  "st_proposals (snd sample_append) = []" "st_proposal_idempotency (snd sample_append) = []"
  "st_idempotency (snd sample_append) = []"
proof -
  have id: "ct_id curated_turn = 1" by (simp add: curated_turn_def)
  have key: "remembered (st_turn_idempotency empty_store) t (scope_idempotency_key w (ac_idempotency_key sample_turn_command)) = None"
    "remember t (scope_idempotency_key w (ac_idempotency_key sample_turn_command)) i [] = []" for t w i
    by (simp_all add: sample_turn_command_def scope_idempotency_key_def remembered_def given_def)
  show "st_turns (snd sample_append) = [(1, curated_turn)]"
    "st_turn_idempotency (snd sample_append) = []" "st_items (snd sample_append) = []"
    "st_proposals (snd sample_append) = []" "st_proposal_idempotency (snd sample_append) = []"
    "st_idempotency (snd sample_append) = []"
    by (rule sample_append_steps; simp add: append_turn_service_def append_turn_def idempotent_insert_def key id;
        simp add: empty_store_def key)+
qed

lemma sample_append_created:
  obtains res where "fst sample_append = Inr res" "ar_created res"
proof (rule sample_append_steps)
  fix event
  assume "new_turn sample_service \<lparr>tf_turn_id = 1, tf_event_id = 21, tf_created_at = 40, tf_occurred_at = 40\<rparr>
      sample_turn_command = Inr curated_turn"
    "turn_event \<lparr>tf_turn_id = 1, tf_event_id = 21, tf_created_at = 40, tf_occurred_at = 40\<rparr> curated_turn = Inr event"
  then show thesis
    by (intro that [of "\<lparr>ar_turn = curated_turn, ar_created = True, ar_queued_event_ids = [ie_id event]\<rparr>"])
      (simp_all add: append_turn_service_def append_turn_def idempotent_insert_def remembered_def given_def
        scope_idempotency_key_def sample_turn_command_def empty_store_def)
qed

theorem append_turn_sanitizes_witness:
  "\<exists>res. fst sample_append = Inr res \<and> ar_created res \<and> ct_expires_at (ar_turn res) = Some 300000040
     \<and> valid_turn (ar_turn res)"
proof -
  obtain res where res: "fst sample_append = Inr res" "ar_created res" by (rule sample_append_created)
  have "table_turns_ok empty_store" using empty_turns_ok by (rule turns_ok_table)
  from append_turn_sanitizes [OF this prod.collapse [symmetric], of "\<lparr>cs_privacy = plain_guard, cs_ttl_seconds = 300\<rparr>"
      "\<lparr>tf_turn_id = 1, tf_event_id = 21, tf_created_at = 40, tf_occurred_at = 40\<rparr>" sample_turn_command None] res
  show ?thesis by (simp add: sample_turn_command_def)
qed

definition quoting_curator :: curator where
  "quoting_curator = \<lparr>cg_runtime = sample_runtime, cg_dumps = (\<lambda>_. []),
     cg_llm = Some (\<lambda>_ _ _. Inr (PDict [(lit ''summary'', PStr (lit ''prefers tea'')),
       (lit ''evidence_quotes'', PList [PStr (lit ''prefer tea'')])])),
     cg_classifier = Some (\<lambda>_ _. Inr (PDict [(lit ''target'', PStr (lit ''preference'')),
       (lit ''confidence'', PInt 1)])),
     cg_privacy = plain_guard\<rparr>"

abbreviation sample_curate :: "bool \<Rightarrow> curate_command" where
  "sample_curate auto \<equiv> \<lparr>cu_tenant_id = 7, cu_turn_id = 1, cu_layer = Episodic, cu_kind = lit ''summary'', cu_labels = [],
      cu_importance = 1/2, cu_confidence = 1/2, cu_auto_accept = auto, cu_idempotency_key = None\<rparr>"

abbreviation sample_curate_fresh :: curate_fresh where
  "sample_curate_fresh \<equiv> \<lparr>cf_proposal_id = 3, cf_proposed_at = 50, cf_memory = sample_fresh 11 22, cf_reviewed_at = 60\<rparr>"

abbreviation sample_curation :: "bool \<Rightarrow> curate_result res \<times> store" where
  "sample_curation auto \<equiv> curate_turn quoting_curator sample_curate_fresh (sample_curate auto) None (snd sample_append)"

lemma sample_append_inv: "gateway_inv (snd sample_append)" "turns_ok (snd sample_append)"
proof -
  show "gateway_inv (snd sample_append)"
    by (rule gateway_inv_grow [OF gateway_inv_empty])
      (simp_all only: sample_append_turns, simp_all add: empty_store_def)
  have "valid_turn curated_turn"
    by (simp add: valid_turn_def valid_message_def curated_turn_def) code_simp
  then show "turns_ok (snd sample_append)"
    by (simp add: turns_ok_def table_ok_def idem_ok_def sample_append_turns) (simp add: curated_turn_def)
qed

lemma sample_curatable: "curatable (sample_curate auto) (snd sample_append) = Inr curated_turn"
  by (simp add: curatable_def get_turn_def sample_append_turns) (simp add: curated_turn_def)

definition curated_summary :: "str \<times> metadata" where
  "curated_summary = (lit ''Conversation memory curation'' @ [10, 10] @ lit ''Summary:'' @ [10] @ lit ''prefers tea'',
     engine_metadata (lit ''memory_llm'') (lit ''conversation-curator-llm-v2'')
       @ [(lit ''llm_confidence'', PNone), (lit ''curator_chunks'', PInt 1),
          (lit ''evidence_quotes'', PList [PStr (lit ''prefer tea'')])])"

abbreviation curated_submission :: submit_command where
  "curated_submission \<equiv> curation_submission curated_turn (sample_curate True) curated_summary"

definition curated_proposal :: memory_proposal where
  "curated_proposal = \<lparr>mp_id = 3, mp_tenant_id = 7, mp_workspace_id = 8, mp_namespace = lit ''default'',
     mp_requester = lit ''conversation-curator'', mp_target = TPreference, mp_proposal = fst curated_summary,
     mp_evidence = curation_evidence curated_turn, mp_agent_id = None, mp_thread_id = Some 9,
     mp_confidence = 1, mp_importance = 1/2, mp_status = POpen,
     mp_metadata = sp_metadata curated_submission
       @ [(lit ''gateway_engine'', PStr (lit ''memory_llm'')),
          (lit ''gateway_version'', PStr (lit ''memory-proposal-classifier-llm-v1'')),
          (lit ''gateway_rationale'', PStr [])],
     mp_created_at = 50, mp_reviewed_at = None, mp_reviewer = None, mp_review_reason = []\<rparr>"

lemma curated_stages:
  "summary_text (cg_runtime quoting_curator) (cg_dumps quoting_curator) (cg_llm quoting_curator) curated_turn
    = Inr curated_summary"
  "submitted_proposal (cg_runtime quoting_curator) (cg_classifier quoting_curator) (cg_privacy quoting_curator) 3 50
    curated_submission = Inr curated_proposal"
  "auto_accept_reason (cg_runtime quoting_curator) curated_proposal
    = Some (lit ''auto-accepted: high-confidence claim with source-verified evidence quote'')"
  by code_simp+

lemma sample_submission:
  obtains s2 where "cg_submit quoting_curator sample_curate_fresh curated_turn (sample_curate auto) curated_summary None
      (snd sample_append) = (Inr \<lparr>sr_proposal = curated_proposal, sr_created = True\<rparr>, s2)"
proof -
  let ?s = "snd sample_append"
  have key: "remembered (st_proposal_idempotency ?s) t sk = None" for t sk
    by (simp add: sample_append_turns remembered_def split: option.split)
  have same: "curation_submission curated_turn (sample_curate auto) curated_summary = curated_submission"
    by (simp add: curation_submission_def)
  define s2 where "s2 = snd (append_proposal curated_proposal (sp_idempotency_key curated_submission)
      (proposal_audit curated_proposal None) ?s)"
  have app: "append_proposal curated_proposal (sp_idempotency_key curated_submission)
      (proposal_audit curated_proposal None) ?s = (Inr (curated_proposal, True), s2)"
    using append_proposal_new(1) [OF key] unfolding s2_def by (metis prod.collapse)
  have sub: "submitted_proposal (cg_runtime quoting_curator) (cg_classifier quoting_curator) (cg_privacy quoting_curator)
      (cf_proposal_id sample_curate_fresh) (cf_proposed_at sample_curate_fresh) curated_submission = Inr curated_proposal"
    using curated_stages(2) by (simp only: curate_fresh.select_convs)
  show thesis
    by (rule that [of s2]) (simp only: submit_def same sub app sum.case prod.case)
qed

lemma sample_append_unused: "dict_get (st_proposals (snd sample_append)) 3 = None"
  "dict_get (st_items (snd sample_append)) 11 = None"
  by (simp_all only: sample_append_turns map_of.simps)

theorem curation_is_reviewed_witness:
  "\<exists>p t. fst (sample_curation False) = Inr \<lparr>cr_retained = None, cr_proposal = Some p\<rparr>
     \<and> dict_get (st_proposals (snd (sample_curation False))) 3 = Some (sr_proposal p)
     \<and> mp_status (sr_proposal p) = POpen \<and> st_items (snd (sample_curation False)) = []
     \<and> dict_get (st_turns (snd (sample_curation False))) 1 = Some t
     \<and> (\<forall>m \<in> set (ct_messages t). cm_content m = lit ''[PURGED_AFTER_CURATION]'')"
proof -
  obtain s2 where s2: "cg_submit quoting_curator sample_curate_fresh curated_turn (sample_curate False) curated_summary None
      (snd sample_append) = (Inr \<lparr>sr_proposal = curated_proposal, sr_created = True\<rparr>, s2)"
    by (rule sample_submission)
  obtain x s3 where fin: "finish_curation curated_turn \<lparr>sr_proposal = curated_proposal, sr_created = True\<rparr> s2 = (x, s3)"
    by fastforce
  have turns: "turns_ok s2" "dict_get (st_turns s2) (ct_id curated_turn) = Some curated_turn"
    using submit_turns [OF s2] sample_append_inv(2) turns_ok_cong [of s2 "snd sample_append"]
    by (simp_all add: sample_append_turns) (simp add: curated_turn_def)
  have x: "x = Inr \<lparr>cr_retained = None, cr_proposal = Some \<lparr>sr_proposal = curated_proposal, sr_created = True\<rparr>\<rparr>"
    using finish_curation_frame [OF fin turns] by simp
  have run: "sample_curation False = (x, s3)"
    using s2 fin curated_stages(1) by (simp add: curate_turn_def sample_curatable)
  have policy: "ct_retention_policy curated_turn = CuratedOnly" "ct_id curated_turn = 1" by (simp_all add: curated_turn_def)
  have fresh: "dict_get (st_proposals (snd sample_append)) (cf_proposal_id sample_curate_fresh) = None"
      "dict_get (st_items (snd sample_append)) (fr_item_id (cf_memory sample_curate_fresh)) = None"
    using sample_append_unused by (simp_all add: sample_fresh_def)
  from curation_is_reviewed [OF sample_append_inv run fresh]
  have out: "st_items s3 = st_items (snd sample_append)" "mp_status curated_proposal = POpen"
      "dict_get (st_proposals s3) (mp_id curated_proposal) = Some curated_proposal"
      "\<exists>t. st_turns s3 = dict_set 1 t (st_turns (snd sample_append))
        \<and> (\<forall>m \<in> set (ct_messages t). cm_content m = lit ''[PURGED_AFTER_CURATION]'')"
    unfolding x sample_curatable by (auto simp: policy)
  have "mp_id curated_proposal = 3" by (simp add: curated_proposal_def)
  with out show ?thesis unfolding run x by (auto simp: sample_append_turns)
qed

theorem auto_accept_needs_quote_witness:
  "\<exists>p q item. dict_get (st_proposals (snd (sample_curation True))) 3 = Some p \<and> mp_status p = PAccepted
     \<and> 8 \<le> length q \<and> contains q (mp_evidence p) \<and> contains q (transcript curated_turn)
     \<and> st_items (snd (sample_curation True)) = [(11, item)]"
proof -
  let ?s = "snd sample_append" and ?reason = "lit ''auto-accepted: high-confidence claim with source-verified evidence quote''"
  have key: "remembered [] t sk = None" for t sk by (simp add: remembered_def split: option.split)
  obtain s2 where s2: "cg_submit quoting_curator sample_curate_fresh curated_turn (sample_curate True) curated_summary None ?s
      = (Inr \<lparr>sr_proposal = curated_proposal, sr_created = True\<rparr>, s2)"
    by (rule sample_submission)
  note fresh = sample_append_unused
  have inv: "gateway_inv s2" "st_items s2 = []" "st_idempotency s2 = []"
    using submit_gateway [OF sample_append_inv(1) s2] fresh by (simp_all add: sample_append_turns)
  have ok: "proposals_ok ?s" using sample_append_inv(1) by (simp add: gateway_inv_def)
  have stored: "st_proposals s2 = [(3, curated_proposal)]"
    using ok s2 by (cases rule: submit_cases) (simp_all add: sample_append_turns)
  let ?c = "auto_review curated_proposal ?reason"
  have p: "get_proposal (rv_tenant_id ?c) (rv_proposal_id ?c) s2 = Some curated_proposal"
    by (simp add: auto_review_def get_proposal_def stored) (simp add: curated_proposal_def)
  have "\<not> isl (accept_command curated_proposal ?c)" by code_simp
  then obtain rc where rc: "accept_command curated_proposal ?c = Inr rc"
    by (cases "accept_command curated_proposal ?c") auto
  have "\<not> isl (res_bind (accept_command curated_proposal ?c) (prepare plain_guard (sample_fresh 11 22)))" by code_simp
  then obtain item event where item: "prepare plain_guard (sample_fresh 11 22) rc = Inr (item, event)"
    using rc by (cases "prepare plain_guard (sample_fresh 11 22) rc") auto
  have unkeyed: "remembered (st_idempotency s2) t sk = None" for t sk
    by (simp add: inv remembered_def split: option.split)
  have st: "mp_status curated_proposal \<noteq> PRejected" "mp_status curated_proposal \<noteq> PAccepted"
      "mp_target curated_proposal \<noteq> TGraph" by (simp_all add: curated_proposal_def)
  obtain p' s1 where acc: "accept plain_guard (sample_fresh 11 22) 60 ?c None s2 = (Inr \<lparr>rw_proposal = p',
      rw_retained = Some \<lparr>rr_item = item, rr_created = True, rr_queued_event_ids = [ie_id event]\<rparr>\<rparr>, s1)"
    using accept_open [OF inv(1) p st rc item unkeyed, of 60 None] by blast
  have "st_items s1 \<noteq> []"
    using inv(1) acc
  proof (cases rule: accept_written_cases)
    case unwritten
    from unwritten(2) [OF refl] show ?thesis by simp
  qed simp
  moreover have "snd (sample_curation True) = s1"
    using s2 acc curated_stages
    by (simp add: curate_turn_def sample_curatable auto_accept_def)
      (simp add: quoting_curator_def)
  ultimately have "st_items (snd (sample_curation True)) \<noteq> []" by simp
  with auto_accept_needs_quote [OF sample_append_inv(1) prod.collapse [symmetric] sample_curatable [of True],
      of quoting_curator sample_curate_fresh None] fresh
  obtain p item q where "dict_get (st_proposals (snd (sample_curation True))) (mp_id p) = Some p" "mp_status p = PAccepted"
    "st_items (snd (sample_curation True)) = dict_set 11 item []" "8 \<le> length q" "contains q (mp_evidence p)"
    "mp_id p = 3" "contains q (transcript curated_turn)"
    by (auto simp: sample_append_turns sample_fresh_def key)
  then show ?thesis by auto
qed

end
