(* ===== verification/EventEnvelope.thy ===== *)
theory EventEnvelope
  imports PyValues Contracts DateTime
begin

text \<open>
  The envelope in which events travel (\<open>adapters/nats.py\<close>, \<open>decode\<close> of \<open>workers/nats_consumer.py\<close>): the
  JSON object a sink publishes, its subject and deduplication header, and the reading of it. Objects
  are modelled as values; the sink sorts their keys.
\<close>

section \<open>Identities\<close>

text \<open>\<open>UUID(text)\<close>: prefixes, braces and dashes are dropped, then 32 hexadecimal digits are read.\<close>

function remove_all :: "str \<Rightarrow> str \<Rightarrow> str" where
  "remove_all n s = (if s = [] \<or> n = [] then s
     else if starts_with n s then remove_all n (drop (length n) s) else hd s # remove_all n (tl s))"
  by pat_completeness auto
termination by (relation "measure (length \<circ> snd)") auto

declare remove_all.simps [simp del]

definition strip_braces :: "str \<Rightarrow> str" where
  "strip_braces s = (let p = (\<lambda>c. c = 123 \<or> c = 125) in rev (dropWhile p (rev (dropWhile p s))))"

definition hex_value :: "int \<Rightarrow> int option" where
  "hex_value c = (if 48 \<le> c \<and> c \<le> 57 then Some (c - 48) else if 97 \<le> c \<and> c \<le> 102 then Some (c - 87)
     else if 65 \<le> c \<and> c \<le> 70 then Some (c - 55) else None)"

text \<open>Hexadecimal digits with single underscores between them, as \<open>int(text, 16)\<close> reads them.\<close>

fun hex_group :: "int \<Rightarrow> str \<Rightarrow> int option" where
  "hex_group n [] = None"
| "hex_group n [c] = map_option (\<lambda>v. 16 * n + v) (hex_value c)"
| "hex_group n (c # d # cs) = (case hex_value c of None \<Rightarrow> None
     | Some v \<Rightarrow> if d = 95 then hex_group (16 * n + v) cs else hex_group (16 * n + v) (d # cs))"

definition drop_0x :: "str \<Rightarrow> str" where
  "drop_0x s = (case s of a # b # rest \<Rightarrow> if a = 48 \<and> (b = 120 \<or> b = 88)
       then (case rest of c # cs \<Rightarrow> if c = 95 then cs else rest | [] \<Rightarrow> rest) else s | _ \<Rightarrow> s)"

definition hex_literal :: "str \<Rightarrow> int option" where
  "hex_literal s = (case split_sign (strip s) of (neg, body) \<Rightarrow>
     map_option (\<lambda>v. if neg then - v else v) (hex_group 0 (drop_0x body)))"

definition parse_uuid :: "str \<Rightarrow> uuid res" where
  "parse_uuid s =
    (let hex = filter (\<lambda>c. c \<noteq> 45) (strip_braces (remove_all (lit ''uuid:'') (remove_all (lit ''urn:'') s)))
     in if length hex \<noteq> 32 then Inl (ValueError (lit ''badly formed hexadecimal UUID string''))
        else case hex_literal hex of
          None \<Rightarrow> Inl (ValueError (lit ''invalid literal for int() with base 16''))
        | Some v \<Rightarrow> if 0 \<le> v \<and> v < 2 ^ 128 then Inr (word_of_int v)
            else Inl (ValueError (lit ''int is out of range (need a 128-bit value)'')))"

definition uuid_value :: "pyval \<Rightarrow> uuid res" where
  "uuid_value v = (case v of PStr s \<Rightarrow> parse_uuid s
     | PNone \<Rightarrow> Inl (TypeError (lit ''one of the hex, bytes, bytes_le, fields, or int arguments must be given''))
     | _ \<Rightarrow> Inl (AttributeError (lit ''object has no attribute 'replace'')))"

section \<open>Sending\<close>

fun json_sort :: "pyval \<Rightarrow> pyval" where
  "json_sort (PDict d) = PDict (sort_key fst (map (\<lambda>(k, v). (k, json_sort v)) d))"
| "json_sort (PList xs) = PList (map json_sort xs)"
| "json_sort v = v"

record nats_sink =
  ns_url :: str
  ns_stream :: str
  ns_subject_prefix :: str
  ns_max_bytes :: int
  ns_max_age_seconds :: int
  ns_connected :: bool

definition strip_dots :: "str \<Rightarrow> str" where
  "strip_dots s = rev (dropWhile (\<lambda>c. c = 46) (rev s))"

definition new_nats_sink :: "str \<Rightarrow> str \<Rightarrow> str \<Rightarrow> int \<Rightarrow> int \<Rightarrow> nats_sink res" where
  "new_nats_sink url stream subject_prefix max_bytes max_age =
    (if blank url then Inl (ValueError (lit ''NATS URL must not be empty''))
     else if max_bytes < 1 \<or> max_age < 1 then Inl (ValueError (lit ''NATS stream limits must be positive''))
     else Inr \<lparr>ns_url = url, ns_stream = stream, ns_subject_prefix = strip_dots subject_prefix,
       ns_max_bytes = max_bytes, ns_max_age_seconds = max_age, ns_connected = False\<rparr>)"

record publication =
  pb_subject :: str
  pb_body :: pyval
  pb_stream :: str
  pb_message_id :: str

definition envelope :: "integration_event \<Rightarrow> pyval" where
  "envelope e = json_sort (PDict
    [(lit ''id'', PStr (uuid_str (ie_id e))), (lit ''name'', PStr (ie_name e)),
     (lit ''tenant_id'', PStr (uuid_str (ie_tenant_id e))),
     (lit ''workspace_id'', PStr (uuid_str (ie_workspace_id e))),
     (lit ''correlation_id'', case ie_correlation_id e of None \<Rightarrow> PNone | Some i \<Rightarrow> PStr (uuid_str i)),
     (lit ''occurred_at'', PStr (isoformat (ie_occurred_at e))), (lit ''payload'', PDict (ie_payload e))])"

definition send_event :: "nats_sink \<Rightarrow> integration_event \<Rightarrow> publication res" where
  "send_event sink e =
    (if \<not> ns_connected sink then Inl (RuntimeError (lit ''NATS sink is not connected''))
     else Inr \<lparr>pb_subject = ns_subject_prefix sink @ [46] @ ie_name e, pb_body = envelope e,
       pb_stream = ns_stream sink, pb_message_id = uuid_str (ie_id e)\<rparr>)"

section \<open>Reading\<close>

definition field :: "metadata \<Rightarrow> str \<Rightarrow> pyval res" where
  "field d k = (case dict_get d k of None \<Rightarrow> Inl (KeyError k) | Some v \<Rightarrow> Inr v)"

definition datetime_value :: "(str \<Rightarrow> datetime res) \<Rightarrow> pyval \<Rightarrow> datetime res" where
  "datetime_value other v = (case v of PStr s \<Rightarrow> fromisoformat other s
     | _ \<Rightarrow> Inl (TypeError (lit ''fromisoformat: argument must be str'')))"

definition decode_value :: "(str \<Rightarrow> datetime res) \<Rightarrow> pyval \<Rightarrow> integration_event res" where
  "decode_value other v =
    (case v of PDict d \<Rightarrow>
      res_bind (res_bind (field d (lit ''id'')) uuid_value) (\<lambda>i.
      res_bind (field d (lit ''name'')) (\<lambda>name.
      res_bind (res_bind (field d (lit ''tenant_id'')) uuid_value) (\<lambda>t.
      res_bind (res_bind (field d (lit ''workspace_id'')) uuid_value) (\<lambda>w.
      res_bind (case py_get d (lit ''correlation_id'') of PNone \<Rightarrow> Inr None
          | c \<Rightarrow> res_bind (uuid_value c) (\<lambda>c. Inr (Some c))) (\<lambda>c.
      res_bind (res_bind (field d (lit ''occurred_at'')) (datetime_value other)) (\<lambda>occurred_at.
      res_bind (field d (lit ''payload'')) (\<lambda>payload.
      case (name, payload) of
        (PStr n, PDict p) \<Rightarrow> integration_event_post_init
          \<lparr>ie_id = i, ie_name = n, ie_tenant_id = t, ie_workspace_id = w, ie_payload = p,
           ie_occurred_at = occurred_at, ie_correlation_id = c\<rparr>
      | (PStr _, _) \<Rightarrow> Inl (TypeError (lit ''event payload must be an object''))
      | _ \<Rightarrow> Inl (AttributeError (lit ''object has no attribute 'rsplit'')))))))))
     | _ \<Rightarrow> Inl (TypeError (lit ''event envelope must be an object'')))"

section \<open>The identity survives its text\<close>

lemma remove_all_absent:
  assumes "n = c # rest" and "c \<notin> set s"
  shows "remove_all n s = s"
  using assms
proof (induction n s rule: remove_all.induct)
  case (1 n s)
  show ?case
  proof (cases s)
    case Nil
    then show ?thesis by (simp add: remove_all.simps)
  next
    case (Cons x xs)
    then have "\<not> starts_with n s" using 1(3,4) by (auto simp: starts_with_def)
    with 1 Cons show ?thesis by (subst remove_all.simps) simp
  qed
qed

definition hex_char :: "int \<Rightarrow> bool" where
  "hex_char c \<longleftrightarrow> 48 \<le> c \<and> c \<le> 57 \<or> 97 \<le> c \<and> c \<le> 102"

lemma top_digit:
  fixes x :: int
  assumes "0 \<le> x" "x < 16 * b" "0 < b"
  shows "0 \<le> x div b" "x div b < 16" "0 \<le> x mod b" "x mod b < b"
proof -
  show "0 \<le> x div b" using assms by (simp add: pos_imp_zdiv_nonneg_iff)
  show "x div b < 16"
  proof (rule ccontr)
    assume "\<not> x div b < 16"
    then have "16 * b \<le> (x div b) * b" using assms(3) by (intro mult_right_mono) simp_all
    moreover have "(x div b) * b \<le> x" using div_mult_mod_eq [of x b] pos_mod_sign [of b x] assms(3) by linarith
    ultimately show False using assms(2) by linarith
  qed
qed (use assms in simp_all)

lemma hex_digits_chars: "0 \<le> x \<Longrightarrow> x < 16 ^ n \<Longrightarrow> list_all hex_char (hex_digits n x)"
proof (induction n arbitrary: x)
  case (Suc n)
  have "0 \<le> x div 16 ^ n" "x div 16 ^ n < 16"
    using top_digit [of x "16 ^ n"] Suc.prems by simp_all
  then have "hex_char (hex_digit (x div 16 ^ n))" by (auto simp: hex_char_def hex_digit_def)
  with Suc show ?case by simp
qed simp

lemma hex_value_digit: "0 \<le> d \<Longrightarrow> d < 16 \<Longrightarrow> hex_value (hex_digit d) = Some d"
  by (auto simp: hex_value_def hex_digit_def)

lemma hex_char_not_underscore: "hex_char c \<Longrightarrow> c \<noteq> 95"
  by (auto simp: hex_char_def)

lemma hex_group_Cons:
  assumes "hex_value c = Some v" and "list_all hex_char cs" and "cs \<noteq> []"
  shows "hex_group n (c # cs) = hex_group (16 * n + v) cs"
  using assms by (cases cs) (auto dest: hex_char_not_underscore)

lemma hex_group_digits:
  "0 \<le> x \<Longrightarrow> x < 16 ^ Suc n \<Longrightarrow> hex_group k (hex_digits (Suc n) x) = Some (16 ^ Suc n * k + x)"
proof (induction n arbitrary: k x)
  case 0
  then show ?case by (simp add: hex_value_digit)
next
  case (Suc n)
  let ?b = "16 ^ Suc n :: int"
  have h: "0 \<le> x div ?b" "x div ?b < 16" "0 \<le> x mod ?b" "x mod ?b < ?b"
    using top_digit [of x ?b] Suc.prems by simp_all
  have "hex_digits (Suc (Suc n)) x = hex_digit (x div ?b) # hex_digits (Suc n) (x mod ?b)" by simp
  moreover have "hex_group k (hex_digit (x div ?b) # hex_digits (Suc n) (x mod ?b))
      = hex_group (16 * k + x div ?b) (hex_digits (Suc n) (x mod ?b))"
    using h by (intro hex_group_Cons hex_value_digit hex_digits_chars) auto
  moreover have "\<dots> = Some (?b * (16 * k + x div ?b) + x mod ?b)" using h by (intro Suc.IH)
  moreover have "?b * (16 * k + x div ?b) + x mod ?b = 16 ^ Suc (Suc n) * k + x"
    using mult_div_mod_eq [of ?b x] by (simp add: algebra_simps)
  ultimately show ?case by simp
qed

lemma filter_dash:
  assumes "list_all hex_char s" and "sum_list ns \<le> length s"
  shows "filter (\<lambda>c. c \<noteq> 45) (dash ns s) = s" and "list_all (\<lambda>c. hex_char c \<or> c = 45) (dash ns s)"
proof -
  have hex: "filter (\<lambda>c. c \<noteq> 45) r = r" if "list_all hex_char r" for r
    using that by (auto simp: filter_id_conv list_all_iff hex_char_def)
  have "filter (\<lambda>c. c \<noteq> 45) (dash ns s) = s \<and> list_all (\<lambda>c. hex_char c \<or> c = 45) (dash ns s)"
    using assms
  proof (induction ns arbitrary: s)
    case Nil
    then show ?case by (simp add: hex list_all_iff)
  next
    case (Cons n ns)
    have h: "list_all hex_char (take n s)" "list_all hex_char (drop n s)"
      using Cons.prems(1) by (auto simp: list_all_iff dest: in_set_takeD in_set_dropD)
    have "sum_list ns \<le> length (drop n s)" using Cons.prems(2) by simp
    then have IH: "filter (\<lambda>c. c \<noteq> 45) (dash ns (drop n s)) = drop n s"
        "list_all (\<lambda>c. hex_char c \<or> c = 45) (dash ns (drop n s))"
      using Cons.IH [OF h(2)] by blast+
    have "list_all (\<lambda>c. hex_char c \<or> c = 45) (take n s)" using h(1) by (auto simp: list_all_iff)
    then show ?case using IH hex [OF h(1)] by (simp only: dash.simps filter_append list_all_append) simp
  qed
  then show "filter (\<lambda>c. c \<noteq> 45) (dash ns s) = s" "list_all (\<lambda>c. hex_char c \<or> c = 45) (dash ns s)" by blast+
qed

text \<open>Any spelling made of the 32 digits and dashes is read back.\<close>

lemma parse_uuid_digits:
  assumes digits: "filter (\<lambda>c. c \<noteq> 45) s = hex_digits 32 (uint u)"
    and chars: "list_all (\<lambda>c. hex_char c \<or> c = 45) s"
  shows "parse_uuid s = Inr u"
proof -
  let ?h = "hex_digits 32 (uint u)"
  have u: "0 \<le> uint u" "uint u < 16 ^ 32" using uint_lt2p [of u] by simp_all
  have hex: "list_all hex_char ?h" using u by (rule hex_digits_chars)
  have absent: "117 \<notin> set s" using chars by (auto simp: list_all_iff hex_char_def)
  have brace: "dropWhile (\<lambda>c. c = 123 \<or> c = 125) s = s" if "list_all (\<lambda>c. hex_char c \<or> c = 45) s" for s
    using that by (cases s) (auto simp: hex_char_def)
  have "remove_all (lit ''urn:'') s = s"
    by (rule remove_all_absent [OF _ absent, of _ "lit ''rn:''"]) code_simp
  moreover have "remove_all (lit ''uuid:'') s = s"
    by (rule remove_all_absent [OF _ absent, of _ "lit ''uid:''"]) code_simp
  moreover have "strip_braces s = s"
    using brace [OF chars] brace [of "rev s"] chars by (simp add: strip_braces_def)
  moreover note digits
  moreover have "hex_literal ?h = Some (uint u)"
  proof -
    obtain c cs where h: "?h = c # cs" by (cases ?h) (simp_all flip: length_0_conv)
    have cc: "hex_char c" "list_all hex_char cs" using hex h by simp_all
    have "\<not> is_space x" if "hex_char x" for x using that by (auto simp: hex_char_def is_space_def)
    then have nsp: "list_all (\<lambda>x. \<not> is_space x) ?h" using hex by (auto simp: list_all_iff)
    have dw: "dropWhile is_space s = s" if "list_all (\<lambda>x. \<not> is_space x) s" for s using that by (cases s) auto
    have "strip ?h = ?h"
      using dw [OF nsp] dw [of "rev ?h"] nsp by (simp add: strip_def lstrip_def rstrip_def)
    moreover have "split_sign ?h = (False, ?h)"
      unfolding split_sign_def h using cc(1) by (auto simp: hex_char_def)
    moreover have "drop_0x ?h = ?h"
      unfolding drop_0x_def h using cc(2) by (cases cs) (auto simp: hex_char_def)
    moreover have "hex_group 0 ?h = Some (uint u)" using hex_group_digits [of "uint u" 31 0] u by simp
    ultimately show ?thesis by (simp add: hex_literal_def)
  qed
  ultimately show ?thesis
    using uint_lt2p [of u] by (simp add: parse_uuid_def Let_def)
qed

lemma hex_digits_char: "list_all hex_char (hex_digits 32 (uint (u :: uuid)))"
  by (rule hex_digits_chars) (use uint_lt2p [of u] in simp_all)

lemma parse_uuid_str: "parse_uuid (uuid_str u) = Inr u"
  unfolding uuid_str_def
  by (rule parse_uuid_digits; rule filter_dash [OF hex_digits_char]; simp)

lemma parse_uuid_hex: "parse_uuid (hex_digits 32 (uint u)) = Inr u"
proof (rule parse_uuid_digits)
  have no_dash: "filter (\<lambda>c. c \<noteq> 45) s = s" if "list_all hex_char s" for s
    using that by (induction s) (auto simp: hex_char_def)
  show "filter (\<lambda>c. c \<noteq> 45) (hex_digits 32 (uint u)) = hex_digits 32 (uint u)" by (rule no_dash [OF hex_digits_char])
  show "list_all (\<lambda>c. hex_char c \<or> c = 45) (hex_digits 32 (uint u))"
    using hex_digits_char [of u] by (auto simp: list_all_iff)
qed

section \<open>Events survive the wire\<close>

lemma dict_get_permuted:
  assumes "dict_ok d" and "mset d' = mset d"
  shows "dict_get d' k = dict_get d k"
proof -
  have "set d' = set d" using assms(2) by (metis set_mset_mset)
  moreover have "dict_ok d'"
  proof -
    have "mset (map fst d') = mset (map fst d)" using assms(2) by (metis mset_map)
    then show ?thesis using assms(1) by (metis mset_eq_imp_distinct_iff)
  qed
  ultimately show ?thesis using assms(1) by (metis map_of_inject_set)
qed

lemma dict_get_sort_key: "dict_ok d \<Longrightarrow> dict_get (sort_key f d) k = dict_get d k"
  by (rule dict_get_permuted) simp_all

lemma dict_get_json_sort:
  assumes "json_sort (PDict d) = PDict d'" and "dict_ok d"
  shows "dict_get d' k = map_option json_sort (dict_get d k)"
proof -
  have keys: "map (fst \<circ> (\<lambda>(k, v). (k, json_sort v))) d = map fst d" by (induction d) auto
  have "dict_get (map (\<lambda>(k, v). (k, json_sort v)) d) k = map_option json_sort (dict_get d k)"
    by (induction d) auto
  moreover have "dict_ok (map (\<lambda>(k, v). (k, json_sort v)) d)" using assms(2) by (simp add: keys)
  moreover have "d' = sort_key fst (map (\<lambda>(k, v). (k, json_sort v)) d)" using assms(1) by simp
  ultimately show ?thesis by (simp only: dict_get_sort_key)
qed

text \<open>The fields of an envelope, by name.\<close>

definition envelope_fields :: "integration_event \<Rightarrow> metadata" where
  "envelope_fields e =
    [(lit ''id'', PStr (uuid_str (ie_id e))), (lit ''name'', PStr (ie_name e)),
     (lit ''tenant_id'', PStr (uuid_str (ie_tenant_id e))),
     (lit ''workspace_id'', PStr (uuid_str (ie_workspace_id e))),
     (lit ''correlation_id'', case ie_correlation_id e of None \<Rightarrow> PNone | Some i \<Rightarrow> PStr (uuid_str i)),
     (lit ''occurred_at'', PStr (isoformat (ie_occurred_at e))), (lit ''payload'', PDict (ie_payload e))]"

lemma envelope_fields_ok: "dict_ok (envelope_fields e)"
  by (simp add: envelope_fields_def lit_def)

lemma dict_get_envelope_fields:
  "dict_get (envelope_fields e) (lit ''id'') = Some (PStr (uuid_str (ie_id e)))"
  "dict_get (envelope_fields e) (lit ''name'') = Some (PStr (ie_name e))"
  "dict_get (envelope_fields e) (lit ''tenant_id'') = Some (PStr (uuid_str (ie_tenant_id e)))"
  "dict_get (envelope_fields e) (lit ''workspace_id'') = Some (PStr (uuid_str (ie_workspace_id e)))"
  "dict_get (envelope_fields e) (lit ''correlation_id'')
     = Some (case ie_correlation_id e of None \<Rightarrow> PNone | Some i \<Rightarrow> PStr (uuid_str i))"
  "dict_get (envelope_fields e) (lit ''occurred_at'') = Some (PStr (isoformat (ie_occurred_at e)))"
  "dict_get (envelope_fields e) (lit ''payload'') = Some (PDict (ie_payload e))"
  by (simp_all add: envelope_fields_def lit_def)

text \<open>
  C32: An event decoded from its envelope is the event sent: identities, name, instant and correlation
  are read back exactly, and the payload has the same value under every key, with the keys of nested
  objects sorted. Only the instant must be one a datetime can hold and the name end in a version.
\<close>

theorem envelope_roundtrip:
  assumes "integration_event_post_init e = Inr e" and "datetime_range (ie_occurred_at e)"
    and "dict_ok (ie_payload e)"
  shows "\<exists>payload. decode_value other (envelope e) = Inr (e\<lparr>ie_payload := payload\<rparr>)
    \<and> (\<forall>k. dict_get payload k = map_option json_sort (dict_get (ie_payload e) k))"
proof -
  obtain d where d: "envelope e = PDict d" "json_sort (PDict (envelope_fields e)) = PDict d"
    by (simp add: envelope_def envelope_fields_def)
  obtain p where p: "json_sort (PDict (ie_payload e)) = PDict p" by simp
  note get = dict_get_json_sort [OF d(2) envelope_fields_ok, unfolded dict_get_envelope_fields]
  have name: "starts_with (lit ''v'') (after_last_dot (ie_name e))"
    using assms(1) by (simp add: integration_event_post_init_def split: if_splits)
  have "decode_value other (envelope e) = Inr (e\<lparr>ie_payload := p\<rparr>)"
    unfolding decode_value_def d(1)
    by (simp add: field_def py_get_def dict_get_json_sort [OF d(2) envelope_fields_ok] dict_get_envelope_fields
        uuid_value_def parse_uuid_str datetime_value_def fromisoformat_isoformat [OF assms(2)] p
        integration_event_post_init_def name del: json_sort.simps(1) split: option.split)
  moreover have "\<forall>k. dict_get p k = map_option json_sort (dict_get (ie_payload e) k)"
    using dict_get_json_sort [OF p assms(3)] by blast
  ultimately show ?thesis by blast
qed

definition sample_envelope_event :: integration_event where
  "sample_envelope_event = \<lparr>ie_id = 7, ie_name = lit ''memory.retained.v1'', ie_tenant_id = 1, ie_workspace_id = 2,
     ie_payload = [(lit ''memory'', PStr (lit ''m'')), (lit ''kind'', PDict [(lit ''b'', PInt 2), (lit ''a'', PInt 1)])],
     ie_occurred_at = 951782400000001, ie_correlation_id = Some 5\<rparr>"

theorem envelope_roundtrip_witness:
  "\<exists>payload. decode_value (\<lambda>_. Inr 0) (envelope sample_envelope_event)
     = Inr (sample_envelope_event\<lparr>ie_payload := payload\<rparr>)
    \<and> dict_get payload (lit ''kind'') = Some (PDict [(lit ''a'', PInt 1), (lit ''b'', PInt 2)])"
proof -
  have "integration_event_post_init sample_envelope_event = Inr sample_envelope_event" by code_simp
  moreover have "datetime_range (ie_occurred_at sample_envelope_event)" by code_simp
  moreover have "dict_ok (ie_payload sample_envelope_event)" by (simp add: sample_envelope_event_def lit_def)
  ultimately obtain payload where
    "decode_value (\<lambda>_. Inr 0) (envelope sample_envelope_event) = Inr (sample_envelope_event\<lparr>ie_payload := payload\<rparr>)"
    and k: "\<forall>k. dict_get payload k = map_option json_sort (dict_get (ie_payload sample_envelope_event) k)"
    using envelope_roundtrip by blast
  moreover have "map_option json_sort (dict_get (ie_payload sample_envelope_event) (lit ''kind''))
      = Some (PDict [(lit ''a'', PInt 1), (lit ''b'', PInt 2)])" by code_simp
  ultimately show ?thesis by metis
qed

end
