(* ===== verification/Reflection.thy ===== *)
theory Reflection
  imports Conflicts
begin

text \<open>
  Reflection (\<open>services/reflection.py\<close>): semantic memories grouped by belief slot and value, one derived
  observation for every repeated or conflicting value, saved under an identity computed from its
  deduplication key. \<open>uuid5(NAMESPACE_URL, _)\<close> is a parameter; the clock readings and the audit
  identity of the observation in position \<open>k\<close> are \<open>fr k\<close>.
\<close>

section \<open>Keys and confidence\<close>

definition observation_key :: "str \<Rightarrow> uuid list \<Rightarrow> bool \<Rightarrow> str" where
  "observation_key summary evidence_ids stale = summary @ [124] @ join [44] (map uuid_str (sort evidence_ids))
     @ lit ''|stale='' @ (if stale then lit ''True'' else lit ''False'')"

definition reflection_confidence :: "memory_item list \<Rightarrow> bool \<Rightarrow> real" where
  "reflection_confidence rows conflict =
    (let base = sum_list (map mi_confidence rows) / real (length rows);
         boost = (if 1 < length rows then 1/10 else 0);
         penalty = (if conflict then 15/100 else 0)
     in min 1 (max 0 (base + boost - penalty)))"

definition observation_name :: "uuid \<Rightarrow> uuid \<Rightarrow> str \<Rightarrow> str" where
  "observation_name tenant_id workspace_id key = lit ''uam:reflection:'' @ uuid_str tenant_id @ [58]
     @ uuid_str workspace_id @ [58] @ key"

section \<open>What is considered\<close>

text \<open>A row is the newest memory of the slot, whether the slot has several values, and the memories of one value.\<close>

type_synonym reflection_row = "memory_item \<times> bool \<times> memory_item list"

definition reflection_rows :: "fact list \<Rightarrow> reflection_row list" where
  "reflection_rows facts =
    (let by_value = facts_by_value facts; latest = newest (map snd facts) in
     if length facts < 2 then []
     else map (\<lambda>(v, rows). (latest, 1 < length by_value, rows))
       (filter (\<lambda>(v, rows). \<not> (length rows < 2 \<and> length by_value = 1)) (sort_key fst by_value)))"

definition row_key :: "reflection_row \<Rightarrow> str" where
  "row_key r = (case r of (latest, conflict, rows) \<Rightarrow>
     observation_key (mi_text (newest rows)) (map mi_id rows) (mi_id (newest rows) \<noteq> mi_id latest))"

definition considered :: "uuid \<Rightarrow> uuid \<Rightarrow> store \<Rightarrow> reflection_row list" where
  "considered tenant_id workspace_id s =
    concat (map reflection_rows
      (dict_values (belief_groups (list_items tenant_id workspace_id [Semantic] None None None 0 s))))"

definition existing_keys :: "uuid \<Rightarrow> uuid \<Rightarrow> store \<Rightarrow> str list" where
  "existing_keys tenant_id workspace_id s =
    map (\<lambda>b. observation_key (ob_summary b) (ob_evidence_ids b) (ob_stale b))
      (list_observations_for_workspace tenant_id workspace_id None 0 s)"

section \<open>Creating observations\<close>

record reflection_fresh =
  rf_created_at :: datetime
  rf_audit_id :: uuid
  rf_audited_at :: datetime

record reflection_state =
  rl_keys :: "str list"
  rl_created :: "observation list"
  rl_store :: store

definition row_observation ::
  "(str \<Rightarrow> uuid) \<Rightarrow> uuid \<Rightarrow> uuid \<Rightarrow> datetime \<Rightarrow> reflection_row \<Rightarrow> observation"
where
  "row_observation uuid5 tenant_id workspace_id now r = (case r of (latest, conflict, rows) \<Rightarrow>
     \<lparr>ob_id = uuid5 (observation_name tenant_id workspace_id (row_key r)), ob_tenant_id = tenant_id,
      ob_workspace_id = workspace_id, ob_summary = mi_text (newest rows), ob_evidence_ids = map mi_id rows,
      ob_confidence = reflection_confidence rows conflict, ob_stale = (mi_id (newest rows) \<noteq> mi_id latest),
      ob_created_at = now\<rparr>)"

definition reflection_audit :: "str \<Rightarrow> str \<Rightarrow> reflection_fresh \<Rightarrow> observation \<Rightarrow> audit_event res" where
  "reflection_audit actor actor_type fr b = audit_event_post_init
     \<lparr>ae_id = rf_audit_id fr, ae_tenant_id = ob_tenant_id b, ae_workspace_id = Some (ob_workspace_id b),
      ae_action = lit ''reflection.observation.create'', ae_actor = actor, ae_actor_type = actor_type,
      ae_resource_type = lit ''observation'', ae_resource_id = Some (uuid_str (ob_id b)),
      ae_status = lit ''succeeded'',
      ae_metadata = [(lit ''evidence_count'', PInt (int (length (ob_evidence_ids b)))),
        (lit ''stale'', PBool (ob_stale b))],
      ae_created_at = rf_audited_at fr\<rparr>"

definition reflect_row ::
  "(str \<Rightarrow> uuid) \<Rightarrow> uuid \<Rightarrow> uuid \<Rightarrow> str \<Rightarrow> str \<Rightarrow> reflection_fresh \<Rightarrow> reflection_row \<Rightarrow> reflection_state
    \<Rightarrow> unit res \<times> reflection_state"
where
  "reflect_row uuid5 tenant_id workspace_id actor actor_type fr r st =
    (if row_key r \<in> set (rl_keys st) then (Inr (), st)
     else case res_bind (observation_post_init (row_observation uuid5 tenant_id workspace_id (rf_created_at fr) r))
         (\<lambda>b. res_bind (reflection_audit actor actor_type fr b) (\<lambda>a. Inr (b, a))) of
       Inl e \<Rightarrow> (Inl e, st)
     | Inr (b, a) \<Rightarrow>
         (case save_observation b (Some a) (rl_store st) of
            (Inl e, s1) \<Rightarrow> (Inl e, st\<lparr>rl_store := s1\<rparr>)
          | (Inr stored, s1) \<Rightarrow>
              (Inr (), \<lparr>rl_keys = row_key r # rl_keys st, rl_created = rl_created st @ [stored], rl_store = s1\<rparr>)))"

fun reflect_rows ::
  "(str \<Rightarrow> uuid) \<Rightarrow> uuid \<Rightarrow> uuid \<Rightarrow> str \<Rightarrow> str \<Rightarrow> (nat \<Rightarrow> reflection_fresh) \<Rightarrow> nat \<Rightarrow> reflection_row list
    \<Rightarrow> reflection_state \<Rightarrow> unit res \<times> reflection_state"
where
  "reflect_rows uuid5 t w actor actor_type fr k [] st = (Inr (), st)"
| "reflect_rows uuid5 t w actor actor_type fr k (r # rs) st =
    (case reflect_row uuid5 t w actor actor_type (fr k) r st of
       (Inl e, st1) \<Rightarrow> (Inl e, st1)
     | (Inr _, st1) \<Rightarrow> reflect_rows uuid5 t w actor actor_type fr (k + 1) rs st1)"

definition reflect ::
  "(str \<Rightarrow> uuid) \<Rightarrow> (nat \<Rightarrow> reflection_fresh) \<Rightarrow> uuid \<Rightarrow> uuid \<Rightarrow> str \<Rightarrow> str \<Rightarrow> store
    \<Rightarrow> observation list res \<times> store"
where
  "reflect uuid5 fr tenant_id workspace_id actor actor_type s =
    (case reflect_rows uuid5 tenant_id workspace_id actor actor_type fr 0 (considered tenant_id workspace_id s)
        \<lparr>rl_keys = existing_keys tenant_id workspace_id s, rl_created = [], rl_store = s\<rparr> of
       (Inl e, st) \<Rightarrow> (Inl e, rl_store st)
     | (Inr _, st) \<Rightarrow> (Inr (rl_created st), rl_store st))"

section \<open>What a row is\<close>

lemma newest_mem: "rows \<noteq> [] \<Longrightarrow> newest rows \<in> set rows \<and> (\<forall>x \<in> set rows. mi_created_at x \<le> mi_created_at (newest rows))"
proof -
  assume "rows \<noteq> []"
  then obtain m where m: "max_by mi_created_at rows = Some m" by (cases "max_by mi_created_at rows") auto
  with max_by_Some [OF m] show ?thesis by (simp add: newest_def)
qed

definition row_of :: "uuid \<Rightarrow> uuid \<Rightarrow> store \<Rightarrow> reflection_row \<Rightarrow> bool" where
  "row_of t w s r \<longleftrightarrow> (case r of (latest, conflict, rows) \<Rightarrow>
     rows \<noteq> [] \<and> (conflict \<or> 2 \<le> length rows)
     \<and> (\<exists>key v. \<forall>x \<in> set rows. x \<in> set (dict_values (st_items s)) \<and> mi_tenant_id x = t \<and> mi_workspace_id x = w
          \<and> mi_layer x = Semantic \<and> slot_key (extract_belief_slot (mi_text x)) = key
          \<and> sl_value (extract_belief_slot (mi_text x)) = v
          \<and> mi_created_at x \<le> mi_created_at latest
          \<and> slot_key (extract_belief_slot (mi_text latest)) = key))"

lemma facts_by_value_mem:
  assumes "(v, rows) \<in> set (facts_by_value facts)"
  shows "rows = map snd (filter (\<lambda>f. sl_value (fst f) = v) facts) \<and> rows \<noteq> []"
proof -
  obtain fs where fs: "(v, fs) \<in> set (group_by (\<lambda>f. sl_value (fst f)) facts)" "rows = map snd fs"
    using assms by (auto simp: facts_by_value_def)
  then have "dict_get (group_by (\<lambda>f. sl_value (fst f)) facts) v = Some fs"
    by (simp add: dict_get_set_mem)
  with fs(2) show ?thesis by (auto simp: group_by_get Let_def split: if_splits)
qed

abbreviation semantic_items :: "uuid \<Rightarrow> uuid \<Rightarrow> store \<Rightarrow> memory_item list" where
  "semantic_items t w s \<equiv> list_items t w [Semantic] None None None 0 s"

abbreviation slot_facts :: "str \<Rightarrow> memory_item list \<Rightarrow> fact list" where
  "slot_facts key items \<equiv> filter (\<lambda>f. slot_key (fst f) = key) (belief_facts items)"

lemma considered_cases:
  assumes "r \<in> set (considered t w s)"
  obtains key v rows facts where "facts = slot_facts key (semantic_items t w s)" "facts \<noteq> []"
    "(v, rows) \<in> set (facts_by_value facts)"
    "r = (newest (map snd facts), 1 < length (facts_by_value facts), rows)"
    "\<not> (length rows < 2 \<and> length (facts_by_value facts) = 1)"
proof -
  obtain facts where facts: "facts \<in> set (dict_values (belief_groups (semantic_items t w s)))"
    and r: "r \<in> set (reflection_rows facts)"
    using assms by (auto simp: considered_def)
  from facts obtain key where "facts = slot_facts key (semantic_items t w s)" "facts \<noteq> []"
    unfolding belief_groups_def by (rule group_by_values)
  moreover obtain v rows where "(v, rows) \<in> set (facts_by_value facts)"
      "r = (newest (map snd facts), 1 < length (facts_by_value facts), rows)"
      "\<not> (length rows < 2 \<and> length (facts_by_value facts) = 1)"
    using r by (auto simp: reflection_rows_def Let_def split: if_splits)
  ultimately show thesis using that by blast
qed

lemma considered_row:
  assumes "r \<in> set (considered t w s)"
  shows "row_of t w s r"
  using assms
proof (cases rule: considered_cases)
  case (1 key v rows facts)
  note f = 1(1) and ne = 1(2) and vr = 1(3-5)
  have fact: "x \<in> set (dict_values (st_items s)) \<and> mi_tenant_id x = t \<and> mi_workspace_id x = w
      \<and> mi_layer x = Semantic \<and> slot_key (extract_belief_slot (mi_text x)) = key
      \<and> sl = extract_belief_slot (mi_text x)" if "(sl, x) \<in> set facts" for sl x
    using that unfolding f by (auto simp: belief_facts_def list_items_unpaged given_def)
  have rows: "rows = map snd (filter (\<lambda>f. sl_value (fst f) = v) facts)" "rows \<noteq> []"
    using facts_by_value_mem [OF vr(1)] by blast+
  have latest: "newest (map snd facts) \<in> set (map snd facts)"
    "\<forall>x \<in> set (map snd facts). mi_created_at x \<le> mi_created_at (newest (map snd facts))"
    using newest_mem [of "map snd facts"] ne by auto
  have "\<forall>x \<in> set rows. x \<in> set (dict_values (st_items s)) \<and> mi_tenant_id x = t \<and> mi_workspace_id x = w
          \<and> mi_layer x = Semantic \<and> slot_key (extract_belief_slot (mi_text x)) = key
          \<and> sl_value (extract_belief_slot (mi_text x)) = v
          \<and> mi_created_at x \<le> mi_created_at (newest (map snd facts))
          \<and> slot_key (extract_belief_slot (mi_text (newest (map snd facts)))) = key"
  proof
    fix x assume "x \<in> set rows"
    then obtain sl where x: "(sl, x) \<in> set facts" "sl_value sl = v" unfolding rows(1) by auto
    moreover have "mi_created_at x \<le> mi_created_at (newest (map snd facts))" using latest(2) x(1) by force
    moreover obtain sl' where "(sl', newest (map snd facts)) \<in> set facts" using latest(1) by auto
    ultimately show "x \<in> set (dict_values (st_items s)) \<and> mi_tenant_id x = t \<and> mi_workspace_id x = w
          \<and> mi_layer x = Semantic \<and> slot_key (extract_belief_slot (mi_text x)) = key
          \<and> sl_value (extract_belief_slot (mi_text x)) = v
          \<and> mi_created_at x \<le> mi_created_at (newest (map snd facts))
          \<and> slot_key (extract_belief_slot (mi_text (newest (map snd facts)))) = key"
      using fact by blast
  qed
  moreover have "1 < length (facts_by_value facts) \<or> 2 \<le> length rows"
    using vr(1,3) by (cases "facts_by_value facts") auto
  ultimately show ?thesis using rows(2) unfolding vr(2) row_of_def prod.case by blast
qed

section \<open>Running over the rows\<close>

definition reflected_ids :: "(str \<Rightarrow> uuid) \<Rightarrow> uuid \<Rightarrow> uuid \<Rightarrow> str \<Rightarrow> uuid" where
  "reflected_ids uuid5 t w key = uuid5 (observation_name t w key)"

text \<open>An identity of the rows that is taken in the store is taken by the observation of its own key.\<close>

definition ids_agree :: "(str \<Rightarrow> uuid) \<Rightarrow> uuid \<Rightarrow> uuid \<Rightarrow> str set \<Rightarrow> store \<Rightarrow> bool" where
  "ids_agree uuid5 t w keys s \<longleftrightarrow> (\<forall>key \<in> keys. \<forall>b. dict_get (st_observations s) (reflected_ids uuid5 t w key) = Some b \<longrightarrow>
     ob_tenant_id b = t \<and> ob_workspace_id b = w
     \<and> observation_key (ob_summary b) (ob_evidence_ids b) (ob_stale b) = key)"

lemma existing_keys_mem:
  "dict_ok (st_observations s) \<Longrightarrow> key \<in> set (existing_keys t w s) \<longleftrightarrow>
    (\<exists>i b. dict_get (st_observations s) i = Some b \<and> ob_tenant_id b = t \<and> ob_workspace_id b = w
      \<and> observation_key (ob_summary b) (ob_evidence_ids b) (ob_stale b) = key)"
  by (auto simp: existing_keys_def list_observations_for_workspace_def list_observations_def image_iff dict_get_set_mem) blast

lemma row_observation_simps [simp]:
  "ob_id (row_observation uuid5 t w now r) = reflected_ids uuid5 t w (row_key r)"
  "ob_tenant_id (row_observation uuid5 t w now r) = t" "ob_workspace_id (row_observation uuid5 t w now r) = w"
  "observation_key (ob_summary (row_observation uuid5 t w now r)) (ob_evidence_ids (row_observation uuid5 t w now r))
    (ob_stale (row_observation uuid5 t w now r)) = row_key r"
  by (cases r; simp add: row_observation_def row_key_def reflected_ids_def)+

lemma observation_post_init_Inr: "observation_post_init b = Inr b' \<Longrightarrow> b' = b"
  by (simp add: observation_post_init_def split: if_splits)

lemma reflect_row_cases:
  assumes "reflect_row uuid5 t w actor actor_type fr r st = (u, st1)"
  obtains (known) "row_key r \<in> set (rl_keys st)" "u = Inr ()" "st1 = st"
  | (refused) e where "row_key r \<notin> set (rl_keys st)" "u = Inl e" "st1 = st"
      "observation_post_init (row_observation uuid5 t w (rf_created_at fr) r) = Inl e
        \<or> reflection_audit actor actor_type fr (row_observation uuid5 t w (rf_created_at fr) r) = Inl e"
  | (saved) a b where "row_key r \<notin> set (rl_keys st)" "u = Inr ()" "b = row_observation uuid5 t w (rf_created_at fr) r"
      "rl_keys st1 = row_key r # rl_keys st"
      "rl_store st1 = with_audit (Some a)
        ((rl_store st)\<lparr>st_observations := dict_setdefault (ob_id b) b (st_observations (rl_store st))\<rparr>)"
      "rl_created st1 = rl_created st @ [case dict_get (st_observations (rl_store st)) (ob_id b) of None \<Rightarrow> b | Some x \<Rightarrow> x]"
proof -
  let ?b = "row_observation uuid5 t w (rf_created_at fr) r"
  consider "row_key r \<in> set (rl_keys st)" | e where "row_key r \<notin> set (rl_keys st)" "observation_post_init ?b = Inl e"
    | e where "row_key r \<notin> set (rl_keys st)" "observation_post_init ?b = Inr ?b" "reflection_audit actor actor_type fr ?b = Inl e"
    | a where "row_key r \<notin> set (rl_keys st)" "observation_post_init ?b = Inr ?b" "reflection_audit actor actor_type fr ?b = Inr a"
    by (cases "observation_post_init ?b"; cases "reflection_audit actor actor_type fr ?b")
      (auto dest: observation_post_init_Inr)
  then show thesis
  proof cases
    case 4
    have "dict_index (dict_setdefault (ob_id ?b) ?b d) (ob_id ?b)
        = Inr (case dict_get d (ob_id ?b) of None \<Rightarrow> ?b | Some x \<Rightarrow> x)" for d
      by (cases "dict_get d (ob_id ?b)") (simp_all add: dict_index_def)
    with 4 assms show thesis
      by (intro saved [of ?b a]) (auto simp: reflect_row_def save_observation_def Let_def)
  qed (use assms in \<open>auto simp: reflect_row_def intro: known refused\<close>)
qed

lemma reflect_rows_known:
  "(\<forall>r \<in> set rs. row_key r \<in> set (rl_keys st)) \<Longrightarrow> reflect_rows uuid5 t w actor actor_type fr k rs st = (Inr (), st)"
  by (induction rs arbitrary: k) (simp_all add: reflect_row_def)

definition run_ok :: "(str \<Rightarrow> uuid) \<Rightarrow> uuid \<Rightarrow> uuid \<Rightarrow> str set \<Rightarrow> reflection_state \<Rightarrow> bool" where
  "run_ok uuid5 t w keys st \<longleftrightarrow> dict_ok (st_observations (rl_store st)) \<and> ids_agree uuid5 t w keys (rl_store st)
     \<and> set (rl_keys st) \<subseteq> set (existing_keys t w (rl_store st))"

lemma reflect_row_ok:
  assumes "run_ok uuid5 t w keys st" and "inj_on (reflected_ids uuid5 t w) keys" and "row_key r \<in> keys"
    and "reflect_row uuid5 t w actor actor_type fr r st = (u, st1)"
  shows "run_ok uuid5 t w keys st1 \<and> st_items (rl_store st1) = st_items (rl_store st)
    \<and> set (rl_keys st) \<subseteq> set (rl_keys st1) \<and> (u = Inr () \<longrightarrow> row_key r \<in> set (rl_keys st1))"
  using assms(4)
proof (cases rule: reflect_row_cases)
  case (saved a b)
  let ?obs = "st_observations (rl_store st)" and ?o = "reflected_ids uuid5 t w (row_key r)"
  have ok: "dict_ok ?obs" "ids_agree uuid5 t w keys (rl_store st)"
    and sub: "set (rl_keys st) \<subseteq> set (existing_keys t w (rl_store st))" using assms(1) by (simp_all add: run_ok_def)
  have obs: "st_observations (rl_store st1) = dict_setdefault ?o b ?obs" using saved(3,5) by simp
  have ok1: "dict_ok (st_observations (rl_store st1))" using ok(1) by (simp add: obs)
  have agree: "ids_agree uuid5 t w keys (rl_store st1)"
    using ok(2) saved(3) assms(3) inj_onD [OF assms(2) _ _ assms(3)]
    by (auto simp: ids_agree_def obs split: if_splits)
  have grow: "set (existing_keys t w (rl_store st)) \<subseteq> set (existing_keys t w (rl_store st1))"
  proof
    fix key assume "key \<in> set (existing_keys t w (rl_store st))"
    then obtain i x where x: "dict_get ?obs i = Some x" "ob_tenant_id x = t" "ob_workspace_id x = w"
        "observation_key (ob_summary x) (ob_evidence_ids x) (ob_stale x) = key"
      using existing_keys_mem [OF ok(1)] by blast
    then have "dict_get (st_observations (rl_store st1)) i = Some x" by (auto simp: obs)
    with x show "key \<in> set (existing_keys t w (rl_store st1))" using existing_keys_mem [OF ok1] by blast
  qed
  have new: "row_key r \<in> set (existing_keys t w (rl_store st1))"
  proof (cases "dict_get ?obs ?o")
    case None
    then have "dict_get (st_observations (rl_store st1)) ?o = Some b" by (simp add: obs)
    moreover have "ob_tenant_id b = t" "ob_workspace_id b = w"
      "observation_key (ob_summary b) (ob_evidence_ids b) (ob_stale b) = row_key r" by (simp_all add: saved(3))
    ultimately show ?thesis unfolding existing_keys_mem [OF ok1] by blast
  next
    case (Some x)
    then have "dict_get (st_observations (rl_store st1)) ?o = Some x" by (simp add: obs)
    then show ?thesis using agree assms(3) unfolding existing_keys_mem [OF ok1] ids_agree_def by blast
  qed
  show ?thesis
    using ok1 agree grow new sub saved(4,5) by (auto simp: run_ok_def)
qed (use assms(1) in auto)

lemma reflect_rows_ok:
  assumes "run_ok uuid5 t w keys st" and "inj_on (reflected_ids uuid5 t w) keys" and "row_key ` set rs \<subseteq> keys"
    and "reflect_rows uuid5 t w actor actor_type fr k rs st = (u, st1)"
  shows "run_ok uuid5 t w keys st1 \<and> st_items (rl_store st1) = st_items (rl_store st)
    \<and> set (rl_keys st) \<subseteq> set (rl_keys st1) \<and> (u = Inr () \<longrightarrow> row_key ` set rs \<subseteq> set (rl_keys st1))"
  using assms
proof (induction rs arbitrary: k st)
  case (Cons r rs)
  obtain v st2 where step: "reflect_row uuid5 t w actor actor_type (fr k) r st = (v, st2)" by fastforce
  have one: "run_ok uuid5 t w keys st2 \<and> st_items (rl_store st2) = st_items (rl_store st)
      \<and> set (rl_keys st) \<subseteq> set (rl_keys st2) \<and> (v = Inr () \<longrightarrow> row_key r \<in> set (rl_keys st2))"
    using Cons.prems by (intro reflect_row_ok [OF _ _ _ step]) auto
  show ?case
  proof (cases v)
    case (Inl e)
    with one step Cons.prems(4) show ?thesis by auto
  next
    case (Inr x)
    then have "reflect_rows uuid5 t w actor actor_type fr (k + 1) rs st2 = (u, st1)"
      using step Cons.prems(4) by simp
    from Cons.IH [OF _ Cons.prems(2) _ this] one Cons.prems(3) Inr show ?thesis by auto
  qed
qed simp

section \<open>What a reflection adds\<close>

lemma considered_cong: "st_items s1 = st_items s \<Longrightarrow> considered t w s1 = considered t w s"
  by (simp add: considered_def list_items_def Let_def)

lemma reflection_confidence_unit: "0 \<le> reflection_confidence rows c \<and> reflection_confidence rows c \<le> 1"
  by (simp add: reflection_confidence_def Let_def)

text \<open>An observation that cites stored semantic memories of its scope, all of one slot and value.\<close>

definition grounded :: "uuid \<Rightarrow> uuid \<Rightarrow> store \<Rightarrow> observation \<Rightarrow> bool" where
  "grounded t w s b \<longleftrightarrow> ob_tenant_id b = t \<and> ob_workspace_id b = w \<and> ob_evidence_ids b \<noteq> []
     \<and> 0 \<le> ob_confidence b \<and> ob_confidence b \<le> 1
     \<and> (\<exists>key v. \<forall>i \<in> set (ob_evidence_ids b). \<exists>x. get_item t i s = Some x \<and> mi_workspace_id x = w \<and> mi_layer x = Semantic
          \<and> slot_key (extract_belief_slot (mi_text x)) = key \<and> sl_value (extract_belief_slot (mi_text x)) = v)
     \<and> (\<exists>i \<in> set (ob_evidence_ids b). \<exists>x. get_item t i s = Some x \<and> ob_summary b = mi_text x)"

lemma row_grounded:
  assumes "items_ok s" and "r \<in> set (considered t w s)"
  shows "grounded t w s (row_observation uuid5 t w now r)"
proof -
  obtain latest c rows where r: "r = (latest, c, rows)" by (cases r)
  have row: "row_of t w s r" using assms(2) by (rule considered_row)
  have got: "get_item t (mi_id x) s = Some x" if "x \<in> set rows" for x
    using row that items_row_iff [OF assms(1)] by (auto simp: row_of_def r get_item_Some)
  have ne: "rows \<noteq> []" using row by (simp add: row_of_def r)
  then have top: "newest rows \<in> set rows" using newest_mem by blast
  obtain key v where kv: "\<forall>x \<in> set rows. mi_workspace_id x = w \<and> mi_layer x = Semantic
      \<and> slot_key (extract_belief_slot (mi_text x)) = key \<and> sl_value (extract_belief_slot (mi_text x)) = v"
    using row unfolding row_of_def r prod.case by blast
  let ?b = "row_observation uuid5 t w now r"
  have b: "ob_tenant_id ?b = t" "ob_workspace_id ?b = w" "ob_evidence_ids ?b = map mi_id rows"
    "ob_summary ?b = mi_text (newest rows)" "ob_confidence ?b = reflection_confidence rows c"
    by (simp_all add: row_observation_def r)
  have "\<forall>i \<in> set (ob_evidence_ids ?b). \<exists>x. get_item t i s = Some x \<and> mi_workspace_id x = w \<and> mi_layer x = Semantic
          \<and> slot_key (extract_belief_slot (mi_text x)) = key \<and> sl_value (extract_belief_slot (mi_text x)) = v"
    unfolding b(3) using got kv by auto
  moreover have "\<exists>i \<in> set (ob_evidence_ids ?b). \<exists>x. get_item t i s = Some x \<and> ob_summary ?b = mi_text x"
    unfolding b(3,4) using got [OF top] top by auto
  ultimately show ?thesis
    unfolding grounded_def using b ne reflection_confidence_unit [of rows c] by (simp only: b) auto
qed

lemma reflection_audit_ok:
  "\<not> blank actor \<Longrightarrow> \<not> blank actor_type \<Longrightarrow> \<exists>a. reflection_audit actor actor_type fr b = Inr a"
proof -
  assume actor: "\<not> blank actor" "\<not> blank actor_type"
  have "\<not> blank (lit ''reflection.observation.create'')" "\<not> blank (lit ''observation'')" by code_simp+
  with actor show ?thesis by (simp add: reflection_audit_def audit_event_post_init_def)
qed

lemma row_observation_valid:
  assumes "\<forall>x \<in> set (dict_values (st_items s)). \<not> blank (mi_text x)" and "r \<in> set (considered t w s)"
  shows "observation_post_init (row_observation uuid5 t w now r) = Inr (row_observation uuid5 t w now r)"
proof -
  obtain latest c rows where r: "r = (latest, c, rows)" by (cases r)
  have "row_of t w s r" using assms(2) by (rule considered_row)
  then have rows: "rows \<noteq> []" "newest rows \<in> set (dict_values (st_items s))"
    using newest_mem [of rows] by (auto simp: row_of_def r)
  then have "\<not> blank (mi_text (newest rows))" using assms(1) by blast
  with rows(1) show ?thesis by (simp add: observation_post_init_def row_observation_def r)
qed

lemma reflect_rows_creates:
  assumes "run_ok uuid5 t w keys st" and "inj_on (reflected_ids uuid5 t w) keys" and "row_key ` set rs \<subseteq> keys"
    and "set (existing_keys t w (rl_store st)) \<inter> keys \<subseteq> set (rl_keys st)"
    and "\<forall>r \<in> set rs. \<forall>now. observation_post_init (row_observation uuid5 t w now r) = Inr (row_observation uuid5 t w now r)"
    and "\<not> blank actor" and "\<not> blank actor_type"
    and "reflect_rows uuid5 t w actor actor_type fr k rs st = (u, st1)"
  shows "u = Inr ()
    \<and> (\<forall>b \<in> set (rl_created st1). b \<in> set (rl_created st) \<or> (\<exists>r \<in> set rs. \<exists>now. b = row_observation uuid5 t w now r))
    \<and> set (rl_created st) \<subseteq> set (rl_created st1)
    \<and> (\<forall>r \<in> set rs. row_key r \<in> set (rl_keys st) \<or> (\<exists>now. \<exists>r' \<in> set rs. row_key r' = row_key r
          \<and> row_observation uuid5 t w now r' \<in> set (rl_created st1)))"
  using assms
proof (induction rs arbitrary: k st)
  case (Cons r rs)
  obtain v st2 where step: "reflect_row uuid5 t w actor actor_type (fr k) r st = (v, st2)" by fastforce
  have rk: "row_key r \<in> keys" using Cons.prems(3) by simp
  note one = reflect_row_ok [OF Cons.prems(1,2) rk step]
  have v: "v = Inr () \<and> (st2 = st \<and> row_key r \<in> set (rl_keys st) \<or> rl_keys st2 = row_key r # rl_keys st
      \<and> (\<exists>now. rl_created st2 = rl_created st @ [row_observation uuid5 t w now r]
        \<and> st_observations (rl_store st2) = dict_set (reflected_ids uuid5 t w (row_key r)) (row_observation uuid5 t w now r)
             (st_observations (rl_store st))))"
    using step
  proof (cases rule: reflect_row_cases)
    case (refused e)
    obtain a where "reflection_audit actor actor_type (fr k) (row_observation uuid5 t w (rf_created_at (fr k)) r) = Inr a"
      using reflection_audit_ok [OF Cons.prems(6,7)] by blast
    with refused(4) Cons.prems(5) have False by simp
    then show ?thesis ..
  next
    case (saved a b)
    have ok: "dict_ok (st_observations (rl_store st))" "ids_agree uuid5 t w keys (rl_store st)"
      using Cons.prems(1) by (simp_all add: run_ok_def)
    have free: "dict_get (st_observations (rl_store st)) (reflected_ids uuid5 t w (row_key r)) = None"
    proof (rule ccontr)
      assume "dict_get (st_observations (rl_store st)) (reflected_ids uuid5 t w (row_key r)) \<noteq> None"
      then obtain x where "dict_get (st_observations (rl_store st)) (reflected_ids uuid5 t w (row_key r)) = Some x" by blast
      then have "row_key r \<in> set (existing_keys t w (rl_store st))"
        using ok(2) rk unfolding existing_keys_mem [OF ok(1)] ids_agree_def by blast
      then show False using Cons.prems(4) rk saved(1) by blast
    qed
    then show ?thesis using saved(2-6) by (auto simp: dict_setdefault_def)
  qed simp
  have next': "set (existing_keys t w (rl_store st2)) \<inter> keys \<subseteq> set (rl_keys st2)"
  proof (cases "st2 = st")
    case False
    then obtain now where n: "rl_keys st2 = row_key r # rl_keys st" "st_observations (rl_store st2)
        = dict_set (reflected_ids uuid5 t w (row_key r)) (row_observation uuid5 t w now r) (st_observations (rl_store st))"
      using v by blast
    have ok: "dict_ok (st_observations (rl_store st))" "dict_ok (st_observations (rl_store st2))"
      using Cons.prems(1) one by (simp_all add: run_ok_def)
    show ?thesis
    proof
      fix key assume "key \<in> set (existing_keys t w (rl_store st2)) \<inter> keys"
      then have k: "key \<in> set (existing_keys t w (rl_store st2))" "key \<in> keys" by simp_all
      obtain i b where b: "dict_get (st_observations (rl_store st2)) i = Some b" "ob_tenant_id b = t" "ob_workspace_id b = w"
          "observation_key (ob_summary b) (ob_evidence_ids b) (ob_stale b) = key" "key \<in> keys"
        using k existing_keys_mem [OF ok(2)] by blast
      show "key \<in> set (rl_keys st2)"
      proof (cases "i = reflected_ids uuid5 t w (row_key r)")
        case True
        then show ?thesis using b n by auto
      next
        case False
        then have "dict_get (st_observations (rl_store st)) i = Some b" using b(1) n(2) by simp
        then have "key \<in> set (existing_keys t w (rl_store st))"
          unfolding existing_keys_mem [OF ok(1)] using b(2,3,4) by blast
        then show ?thesis using Cons.prems(4) b(5) n(1) by auto
      qed
    qed
  qed (use Cons.prems(4) in simp)
  have "reflect_rows uuid5 t w actor actor_type fr (k + 1) rs st2 = (u, st1)"
    using step v Cons.prems(8) by auto
  from Cons.IH [OF _ Cons.prems(2) _ next' _ Cons.prems(6,7) this] one Cons.prems(3,5)
  have IH: "u = Inr ()" "\<forall>b \<in> set (rl_created st1). b \<in> set (rl_created st2) \<or> (\<exists>r \<in> set rs. \<exists>now. b = row_observation uuid5 t w now r)"
    "set (rl_created st2) \<subseteq> set (rl_created st1)"
    "\<forall>r \<in> set rs. row_key r \<in> set (rl_keys st2) \<or> (\<exists>now. \<exists>r' \<in> set rs. row_key r' = row_key r
          \<and> row_observation uuid5 t w now r' \<in> set (rl_created st1))" by simp_all
  show ?case
  proof (intro conjI ballI)
    show "u = Inr ()" by (rule IH(1))
    show "set (rl_created st) \<subseteq> set (rl_created st1)" using v IH(3) by auto
    show "b \<in> set (rl_created st) \<or> (\<exists>r' \<in> set (r # rs). \<exists>now. b = row_observation uuid5 t w now r')"
      if "b \<in> set (rl_created st1)" for b using IH(2) that v by fastforce
    show "row_key q \<in> set (rl_keys st) \<or> (\<exists>now. \<exists>r' \<in> set (r # rs). row_key r' = row_key q
          \<and> row_observation uuid5 t w now r' \<in> set (rl_created st1))" if "q \<in> set (r # rs)" for q
    proof (cases "row_key q = row_key r")
      case True
      then show ?thesis using v IH(3) by (metis Un_iff list.set_intros(1) set_append subsetD)
    next
      case False
      then show ?thesis using that IH(4) v by auto
    qed
  qed
qed simp

text \<open>
  (unlisted): Reflection is grounded and idempotent. Over a ledger whose texts are not blank, with identities
  that tell the considered keys apart and are not taken by other observations, a reflection returns,
  leaves the memories alone, and every observation it creates cites stored semantic memories of its
  tenant and workspace that state one value of one slot, quotes one of them and has a confidence in
  the unit interval; reflecting again creates nothing and changes nothing.
\<close>

theorem reflection_grounded_and_idempotent:
  assumes "items_ok s" and "dict_ok (st_observations s)"
    and "\<forall>x \<in> set (dict_values (st_items s)). \<not> blank (mi_text x)"
    and "inj_on (\<lambda>r. reflected_ids uuid5 t w (row_key r)) (set (considered t w s))"
    and "ids_agree uuid5 t w (row_key ` set (considered t w s)) s"
    and "\<not> blank actor" and "\<not> blank actor_type"
  shows "\<exists>created s1. reflect uuid5 fr t w actor actor_type s = (Inr created, s1) \<and> st_items s1 = st_items s
    \<and> (\<forall>b \<in> set created. grounded t w s b)
    \<and> reflect uuid5 fr' t w actor' actor_type' s1 = (Inr [], s1)"
proof -
  let ?rows = "considered t w s" and ?st = "\<lparr>rl_keys = existing_keys t w s, rl_created = [], rl_store = s\<rparr>"
  obtain u st1 where run: "reflect_rows uuid5 t w actor actor_type fr 0 ?rows ?st = (u, st1)" by fastforce
  have start: "run_ok uuid5 t w (row_key ` set ?rows) ?st" using assms(2,5) by (simp add: run_ok_def)
  have valid: "\<forall>r \<in> set ?rows. \<forall>now. observation_post_init (row_observation uuid5 t w now r) = Inr (row_observation uuid5 t w now r)"
    using row_observation_valid [OF assms(3)] by blast
  have inj: "inj_on (reflected_ids uuid5 t w) (row_key ` set ?rows)"
    using assms(4) by (intro inj_on_imageI) (simp add: comp_def)
  note made = reflect_rows_creates [OF start inj _ _ valid assms(6,7) run]
  note kept = reflect_rows_ok [OF start inj _ run]
  have u: "u = Inr ()" using made by simp
  have "grounded t w s b" if "b \<in> set (rl_created st1)" for b
    using made that row_grounded [OF assms(1)] by auto
  moreover have "reflect uuid5 fr t w actor actor_type s = (Inr (rl_created st1), rl_store st1)"
    by (simp add: reflect_def run u)
  moreover have items: "st_items (rl_store st1) = st_items s" using kept by simp
  moreover have "row_key ` set (considered t w (rl_store st1)) \<subseteq> set (existing_keys t w (rl_store st1))"
    using kept u unfolding considered_cong [OF items] run_ok_def by auto
  then have "reflect uuid5 fr' t w actor' actor_type' (rl_store st1) = (Inr [], rl_store st1)"
    unfolding reflect_def by (subst reflect_rows_known) auto
  ultimately show ?thesis by blast
qed

section \<open>Archived memories\<close>

abbreviation slot_of :: "memory_item \<Rightarrow> belief_slot" where "slot_of x \<equiv> extract_belief_slot (mi_text x)"

text \<open>The item is newer than every other one of its slot, and the slot has another value.\<close>

definition newest_of_slot :: "memory_item list \<Rightarrow> memory_item \<Rightarrow> memory_item \<Rightarrow> bool" where
  "newest_of_slot items x y \<longleftrightarrow> x \<in> set items \<and> y \<in> set items
     \<and> slot_key (slot_of y) = slot_key (slot_of x) \<and> sl_value (slot_of y) \<noteq> sl_value (slot_of x)
     \<and> (\<forall>z \<in> set items. slot_key (slot_of z) = slot_key (slot_of x) \<longrightarrow> z = x \<or> mi_created_at z < mi_created_at x)"

lemma slot_facts_snd: "map snd (slot_facts key items) = filter (\<lambda>x. slot_key (slot_of x) = key) items"
  by (induction items) (simp_all add: belief_facts_def)

lemma newest_unique:
  assumes "x \<in> set rows" and "\<forall>z \<in> set rows. z = x \<or> mi_created_at z < mi_created_at x"
  shows "newest rows = x"
proof -
  have "newest rows \<in> set rows \<and> (\<forall>z \<in> set rows. mi_created_at z \<le> mi_created_at (newest rows))"
    using assms(1) by (intro newest_mem) auto
  with assms show ?thesis by force
qed

lemma newest_of_slot_row:
  assumes "newest_of_slot (semantic_items t w s) x y"
  obtains rows where "(x, True, rows) \<in> set (considered t w s)" "x \<in> set rows" "newest rows = x"
proof -
  let ?items = "semantic_items t w s" and ?key = "slot_key (slot_of x)"
  let ?facts = "slot_facts ?key ?items"
  have n: "x \<in> set ?items" "y \<in> set ?items" "slot_key (slot_of y) = ?key" "sl_value (slot_of y) \<noteq> sl_value (slot_of x)"
    "\<And>z. z \<in> set ?items \<Longrightarrow> slot_key (slot_of z) = ?key \<Longrightarrow> z = x \<or> mi_created_at z < mi_created_at x"
    using assms by (auto simp: newest_of_slot_def)
  have mem: "(slot_of z, z) \<in> set ?facts" if "z \<in> set ?items" "slot_key (slot_of z) = ?key" for z
    using that by (simp add: belief_facts_def image_iff)
  have latest: "newest (map snd ?facts) = x"
    unfolding slot_facts_snd using n(1,5) by (intro newest_unique) auto
  have value_row: "\<exists>rows. (sl_value (slot_of z), rows) \<in> set (facts_by_value ?facts)"
    if "z \<in> set ?items" "slot_key (slot_of z) = ?key" for z
  proof -
    have "filter (\<lambda>f. sl_value (fst f) = sl_value (slot_of z)) ?facts \<noteq> []"
      using mem [OF that] by (fastforce simp: filter_empty_conv)
    then obtain fs where "dict_get (group_by (\<lambda>f. sl_value (fst f)) ?facts) (sl_value (slot_of z)) = Some fs"
      by (simp add: group_by_get Let_def)
    then show ?thesis unfolding facts_by_value_def by (force dest: map_of_SomeD)
  qed
  obtain rx where rx: "(sl_value (slot_of x), rx) \<in> set (facts_by_value ?facts)" using value_row n(1) by blast
  obtain ry where ry: "(sl_value (slot_of y), ry) \<in> set (facts_by_value ?facts)" using value_row n(2,3) by blast
  have many: "1 < length (facts_by_value ?facts)"
  proof (rule ccontr)
    assume "\<not> 1 < length (facts_by_value ?facts)"
    then obtain p where "set (facts_by_value ?facts) \<subseteq> {p}"
      by (cases "facts_by_value ?facts"; cases "tl (facts_by_value ?facts)") auto
    with rx ry n(4) show False by auto
  qed
  have rows: "rx = map snd (filter (\<lambda>f. sl_value (fst f) = sl_value (slot_of x)) ?facts)" "rx \<noteq> []"
    using facts_by_value_mem [OF rx] by blast+
  have xrx: "x \<in> set rx" unfolding rows(1) using mem [OF n(1)] by force
  have "z = x \<or> mi_created_at z < mi_created_at x" if "z \<in> set rx" for z
  proof -
    have "z \<in> set ?items" "slot_key (slot_of z) = ?key" using that unfolding rows(1) by (auto simp: belief_facts_def)
    then show ?thesis by (rule n(5))
  qed
  then have top: "newest rx = x" using xrx by (intro newest_unique) auto
  have two: "\<not> length ?facts < 2"
  proof
    assume "length ?facts < 2"
    then obtain p where p: "set ?facts \<subseteq> {p}" by (cases ?facts; cases "tl ?facts") auto
    have "(slot_of x, x) = p" "(slot_of y, y) = p" using subsetD [OF p] mem [OF n(1)] mem [OF n(2,3)] by blast+
    with n(4) show False by auto
  qed
  have "(x, True, rx) \<in> set (reflection_rows ?facts)"
    using rx many two latest by (force simp: reflection_rows_def Let_def)
  moreover have "?facts \<in> set (dict_values (belief_groups ?items))"
  proof -
    have "?facts \<noteq> []" using mem [OF n(1)] by (metis empty_iff empty_set)
    then have "dict_get (belief_groups ?items) ?key = Some ?facts" by (simp add: belief_groups_def group_by_get Let_def)
    then show ?thesis by (rule dict_get_values)
  qed
  ultimately have "(x, True, rx) \<in> set (considered t w s)" unfolding considered_def set_concat set_map by blast
  then show thesis using xrx top by (rule that)
qed

text \<open>
  (unlisted): Reflection reports an archived belief as current. When the newest memory of a slot is archived
  and another value of the slot exists, the first reflection saves the archived text as an observation
  that is not stale and marks every observation about the other value stale: the status of a memory is
  not consulted.
\<close>

theorem archived_belief_reported_current:
  assumes "items_ok s" and "dict_ok (st_observations s)" and "list_observations t w s = []"
    and "\<forall>x \<in> set (dict_values (st_items s)). \<not> blank (mi_text x)"
    and "inj_on (\<lambda>r. reflected_ids uuid5 t w (row_key r)) (set (considered t w s))"
    and "ids_agree uuid5 t w (row_key ` set (considered t w s)) s"
    and "\<not> blank actor" and "\<not> blank actor_type"
    and "newest_of_slot (semantic_items t w s) x y" and "mi_status x = Archived"
    and "reflect uuid5 fr t w actor actor_type s = (u, s1)"
  shows "\<exists>created. u = Inr created
    \<and> (\<exists>b \<in> set created. mi_id x \<in> set (ob_evidence_ids b) \<and> \<not> ob_stale b)
    \<and> (\<forall>b \<in> set created. mi_id y \<in> set (ob_evidence_ids b) \<longrightarrow> ob_stale b)"
proof -
  let ?rows = "considered t w s" and ?st = "\<lparr>rl_keys = existing_keys t w s, rl_created = [], rl_store = s\<rparr>"
  obtain v st1 where run: "reflect_rows uuid5 t w actor actor_type fr 0 ?rows ?st = (v, st1)" by fastforce
  have start: "run_ok uuid5 t w (row_key ` set ?rows) ?st" using assms(2,6) by (simp add: run_ok_def)
  have valid: "\<forall>r \<in> set ?rows. \<forall>now. observation_post_init (row_observation uuid5 t w now r) = Inr (row_observation uuid5 t w now r)"
    using row_observation_valid [OF assms(4)] by blast
  have inj: "inj_on (reflected_ids uuid5 t w) (row_key ` set ?rows)"
    using assms(5) by (intro inj_on_imageI) (simp add: comp_def)
  have key_inj: "inj_on row_key (set ?rows)"
    by (rule inj_on_imageI2 [of "reflected_ids uuid5 t w"]) (use assms(5) in \<open>simp add: comp_def\<close>)
  note made = reflect_rows_creates [OF start inj _ _ valid assms(7,8) run]
  have none: "existing_keys t w s = []"
    using assms(3) by (simp add: existing_keys_def list_observations_for_workspace_def)
  have u: "u = Inr (rl_created st1)" using assms(11) made by (simp add: reflect_def run)
  obtain rows where r: "(x, True, rows) \<in> set ?rows" "x \<in> set rows" "newest rows = x"
    by (rule newest_of_slot_row [OF assms(9)])
  obtain now r' where r': "r' \<in> set ?rows" "row_key r' = row_key (x, True, rows)"
      "row_observation uuid5 t w now r' \<in> set (rl_created st1)"
    using made r(1) none by auto
  then have "r' = (x, True, rows)" using key_inj r(1) by (blast dest: inj_onD)
  then have current: "\<exists>b \<in> set (rl_created st1). mi_id x \<in> set (ob_evidence_ids b) \<and> \<not> ob_stale b"
    using r'(3) r(2,3) by (intro bexI [of _ "row_observation uuid5 t w now r'"]) (simp_all add: row_observation_def)
  have "ob_stale b" if b: "b \<in> set (rl_created st1)" "mi_id y \<in> set (ob_evidence_ids b)" for b
  proof -
    obtain now r'' where r'': "r'' \<in> set ?rows" "b = row_observation uuid5 t w now r''" using made b(1) by auto
    from r''(1) show ?thesis
    proof (cases rule: considered_cases)
      case (1 key v rows' facts)
      have stored: "z \<in> set (dict_values (st_items s))" if "z \<in> set (semantic_items t w s)" for z
        using that by (auto simp: list_items_unpaged)
      have rows': "rows' = map snd (filter (\<lambda>f. sl_value (fst f) = v) facts)" "rows' \<noteq> []"
        using facts_by_value_mem [OF 1(3)] by blast+
      have row: "z \<in> set (semantic_items t w s) \<and> slot_key (slot_of z) = key \<and> sl_value (slot_of z) = v"
        if "z \<in> set rows'" for z
        using that unfolding rows'(1) 1(1) by (auto simp: belief_facts_def)
      have n: "y \<in> set (semantic_items t w s)" "x \<in> set (semantic_items t w s)"
        "slot_key (slot_of y) = slot_key (slot_of x)" "sl_value (slot_of y) \<noteq> sl_value (slot_of x)"
        using assms(9) by (auto simp: newest_of_slot_def)
      obtain z where z: "z \<in> set rows'" "mi_id z = mi_id y"
        using b(2) unfolding r''(2) 1(4) by (auto simp: row_observation_def)
      have "z = y"
        using items_row_iff [OF assms(1)] stored row [OF z(1)] n(1) z(2) by (metis option.inject)
      with row [OF z(1)] n have key: "key = slot_key (slot_of x)" "v \<noteq> sl_value (slot_of x)" by auto
      have "newest (map snd facts) = x"
        unfolding 1(1) slot_facts_snd using assms(9) key(1)
        by (intro newest_unique) (auto simp: newest_of_slot_def)
      moreover have "newest rows' \<in> set rows'" using newest_mem rows'(2) by blast
      then have nr: "newest rows' \<in> set (semantic_items t w s)" "sl_value (slot_of (newest rows')) = v" using row by auto
      then have "newest rows' \<noteq> x" using key(2) by auto
      then have "mi_id (newest rows') \<noteq> mi_id x"
        using items_row_iff [OF assms(1)] stored [OF nr(1)] stored [OF n(2)] by (metis option.inject)
      ultimately show ?thesis unfolding r''(2) 1(4) by (simp add: row_observation_def)
    qed
  qed
  with current u show ?thesis by blast
qed

section \<open>Witnesses\<close>

text \<open>
  The memories as after an operator kept "tea" in a conflict between "tea" and "milk": the archived
  copy of the losing memory is the newest one of the slot.
\<close>

definition resolved_store :: store where
  "resolved_store = empty_store\<lparr>st_items := [(1, sample_item 1 7 8 (lit ''Ann likes tea'')),
     (2, sample_item 2 7 8 (lit ''Ann likes milk'')),
     (30, (sample_item 30 7 8 (lit ''Ann likes milk''))\<lparr>mi_status := Archived, mi_created_at := 5,
        mi_revision := 2, mi_supersedes_id := Some 2\<rparr>)]\<rparr>"

definition sample_uuid5 :: "str \<Rightarrow> uuid" where "sample_uuid5 s = of_nat (length s)"

abbreviation sample_reflection_fresh :: "nat \<Rightarrow> reflection_fresh" where
  "sample_reflection_fresh \<equiv> \<lambda>k. \<lparr>rf_created_at = 60, rf_audit_id = of_nat k, rf_audited_at = 60\<rparr>"

lemma resolved_observations: "st_observations resolved_store = []"
  by code_simp

lemma resolved_items_ok: "items_ok resolved_store"
proof -
  have "map (\<lambda>(i, x). (i, mi_id x)) (st_items resolved_store) = [(1, 1), (2, 2), (30, 30)]" by code_simp
  then have "table_ok mi_id (st_items resolved_store)" by (auto simp: table_ok_def split: if_splits)
  moreover have "st_idempotency resolved_store = []" by code_simp
  ultimately show ?thesis by (simp add: items_ok_def idem_ok_def)
qed

lemma resolved_texts: "\<forall>x \<in> set (dict_values (st_items resolved_store)). \<not> blank (mi_text x)"
proof -
  have "list_all (\<lambda>x. \<not> blank (mi_text x)) (dict_values (st_items resolved_store))" by code_simp
  then show ?thesis by (simp only: list_all_iff)
qed

lemma resolved_ids:
  "inj_on (\<lambda>r. reflected_ids sample_uuid5 7 8 (row_key r)) (set (considered 7 8 resolved_store))"
proof -
  have "map (\<lambda>r. length (observation_name 7 8 (row_key r))) (considered 7 8 resolved_store) = [189, 150]" by code_simp
  then have "map of_nat (map (\<lambda>r. length (observation_name 7 8 (row_key r))) (considered 7 8 resolved_store)) = [189, 150 :: uuid]"
    by simp
  then have "map (\<lambda>r. reflected_ids sample_uuid5 7 8 (row_key r)) (considered 7 8 resolved_store) = [189, 150]"
    by (simp add: reflected_ids_def sample_uuid5_def comp_def)
  then have "distinct (map (\<lambda>r. reflected_ids sample_uuid5 7 8 (row_key r)) (considered 7 8 resolved_store))" by simp
  then show ?thesis by (simp only: distinct_map)
qed

lemma resolved_agree: "ids_agree sample_uuid5 7 8 keys resolved_store"
  by (simp add: ids_agree_def resolved_observations)

lemma plain_actor: "\<not> blank (lit ''maintenance'')" "\<not> blank (lit ''system'')"
  by code_simp+

theorem reflection_grounded_and_idempotent_witness:
  "\<exists>created s1. reflect sample_uuid5 sample_reflection_fresh 7 8 (lit ''maintenance'') (lit ''system'') resolved_store = (Inr created, s1)
    \<and> reflect sample_uuid5 sample_reflection_fresh 7 8 (lit ''maintenance'') (lit ''system'') s1 = (Inr [], s1)"
  using reflection_grounded_and_idempotent [OF resolved_items_ok _ resolved_texts resolved_ids resolved_agree plain_actor,
      of sample_reflection_fresh sample_reflection_fresh "lit ''maintenance''" "lit ''system''"]
  by (auto simp: resolved_observations)

lemma resolved_newest:
  obtains x y where "newest_of_slot (semantic_items 7 8 resolved_store) x y" "mi_status x = Archived" "mi_id x = 30" "mi_id y = 1"
proof -
  have "map (\<lambda>z. let b = slot_of z in (mi_id z, slot_key b, sl_value b, mi_created_at z, mi_status z)) (semantic_items 7 8 resolved_store)
     = [(1, lit ''ann|preference'', lit ''tea'', 0, Active), (2, lit ''ann|preference'', lit ''milk'', 0, Active),
        (30, lit ''ann|preference'', lit ''milk'', 5, Archived)]" by code_simp
  then obtain y z x where items: "semantic_items 7 8 resolved_store = [y, z, x]"
    "mi_id y = 1" "mi_id x = 30" "mi_status x = Archived" "mi_created_at y = 0" "mi_created_at z = 0" "mi_created_at x = 5"
    "slot_key (slot_of y) = slot_key (slot_of x)" "slot_key (slot_of z) = slot_key (slot_of x)"
    "sl_value (slot_of y) = lit ''tea''" "sl_value (slot_of x) = lit ''milk''" by (auto simp: Let_def)
  have "lit ''tea'' \<noteq> lit ''milk''" by code_simp
  with items show thesis by (intro that [of x y]) (simp_all add: newest_of_slot_def)
qed

theorem archived_belief_reported_current_witness:
  "\<exists>created s1. reflect sample_uuid5 sample_reflection_fresh 7 8 (lit ''maintenance'') (lit ''system'') resolved_store = (Inr created, s1)
    \<and> (\<exists>b \<in> set created. 30 \<in> set (ob_evidence_ids b) \<and> \<not> ob_stale b)
    \<and> (\<forall>b \<in> set created. 1 \<in> set (ob_evidence_ids b) \<longrightarrow> ob_stale b)"
proof -
  obtain x y where x: "newest_of_slot (semantic_items 7 8 resolved_store) x y" "mi_status x = Archived" "mi_id x = 30" "mi_id y = 1"
    by (rule resolved_newest)
  have "dict_ok (st_observations resolved_store)" "list_observations 7 8 resolved_store = []"
    by (simp_all add: resolved_observations list_observations_def)
  from archived_belief_reported_current [OF resolved_items_ok this resolved_texts resolved_ids resolved_agree plain_actor x(1,2)
      prod.collapse [symmetric], of sample_reflection_fresh]
  show ?thesis unfolding x(3,4) by (metis prod.collapse)
qed

end
