(* ===== verification/VaultHealth.thy ===== *)
theory VaultHealth
  imports StoreGraph
begin

text \<open>
  The vault health report (\<open>services/vault_health.py\<close>): a read-only check that revision chains, graph
  edges and observations of a workspace only refer to memories of the workspace, with a warning for
  every recallable head nothing refers to.
\<close>

record health_issue =
  hi_severity :: str
  hi_code :: str
  hi_message :: str
  hi_item_id :: "uuid option"
  hi_edge_id :: "uuid option"
  hi_observation_id :: "uuid option"

record health_report =
  hr_tenant_id :: uuid
  hr_workspace_id :: uuid
  hr_memory_count :: nat
  hr_edge_count :: nat
  hr_observation_count :: nat
  hr_recallable_head_count :: nat
  hr_unlinked_head_count :: nat
  hr_issues :: "health_issue list"

definition error_count :: "health_report \<Rightarrow> nat" where
  "error_count r = length (filter (\<lambda>i. hi_severity i = lit ''error'') (hr_issues r))"

definition warning_count :: "health_report \<Rightarrow> nat" where
  "warning_count r = length (filter (\<lambda>i. hi_severity i = lit ''warning'') (hr_issues r))"

definition healthy :: "health_report \<Rightarrow> bool" where
  "healthy r \<longleftrightarrow> error_count r = 0"

section \<open>The checks\<close>

definition items_by_id :: "memory_item list \<Rightarrow> (uuid, memory_item) dict" where
  "items_by_id items = foldl (\<lambda>d item. dict_set (mi_id item) item d) [] items"

definition issue :: "char list \<Rightarrow> char list \<Rightarrow> char list \<Rightarrow> health_issue" where
  "issue severity code message = \<lparr>hi_severity = lit severity, hi_code = lit code, hi_message = lit message,
     hi_item_id = None, hi_edge_id = None, hi_observation_id = None\<rparr>"

definition chain_issues :: "(uuid, memory_item) dict \<Rightarrow> memory_item \<Rightarrow> health_issue list" where
  "chain_issues by_id item =
    (case mi_supersedes_id item of
       None \<Rightarrow> []
     | Some p \<Rightarrow> (case dict_get by_id p of
           None \<Rightarrow> [(issue ''error'' ''missing_revision_parent'' ''superseding memory references a missing parent'')
                     \<lparr>hi_item_id := Some (mi_id item)\<rparr>]
         | Some parent \<Rightarrow>
             if mi_revision item \<noteq> mi_revision parent + 1 then
               [(issue ''error'' ''invalid_revision_sequence'' ''superseding memory revision is not parent revision plus one'')
                  \<lparr>hi_item_id := Some (mi_id item)\<rparr>]
             else []))"

definition check_revision_chains :: "(uuid, memory_item) dict \<Rightarrow> health_issue list" where
  "check_revision_chains by_id = concat (map (chain_issues by_id) (dict_values by_id))"

definition check_edge :: "(uuid, memory_item) dict \<Rightarrow> memory_edge \<Rightarrow> uuid list \<times> health_issue list" where
  "check_edge by_id e =
    (if filter (\<lambda>i. dict_get by_id i = None) [me_src_id e, me_dst_id e] \<noteq> [] then
       ([], [(issue ''error'' ''broken_graph_endpoint'' ''graph edge references a missing or out-of-workspace memory'')
               \<lparr>hi_edge_id := Some (me_id e)\<rparr>])
     else ([me_src_id e, me_dst_id e],
       case me_provenance_item_id e of
         None \<Rightarrow> []
       | Some p \<Rightarrow> if dict_get by_id p = None then
           [(issue ''error'' ''missing_graph_provenance''
              ''graph edge provenance references a missing or out-of-workspace memory'')\<lparr>hi_edge_id := Some (me_id e)\<rparr>]
         else []))"

definition check_evidence :: "(uuid, memory_item) dict \<Rightarrow> observation \<Rightarrow> uuid \<Rightarrow> uuid list \<times> health_issue list" where
  "check_evidence by_id b i =
    (if dict_get by_id i = None then
       ([], [(issue ''error'' ''missing_observation_evidence''
               ''observation evidence references a missing or out-of-workspace memory'')\<lparr>hi_observation_id := Some (ob_id b)\<rparr>])
     else (if ob_stale b then [] else [i], []))"

definition check_observation :: "(uuid, memory_item) dict \<Rightarrow> observation \<Rightarrow> uuid list \<times> health_issue list" where
  "check_observation by_id b =
    (concat (map (fst \<circ> check_evidence by_id b) (ob_evidence_ids b)),
     concat (map (snd \<circ> check_evidence by_id b) (ob_evidence_ids b)))"

section \<open>The report\<close>

definition unlinked_issue :: "memory_item \<Rightarrow> health_issue" where
  "unlinked_issue item = (issue ''warning'' ''unlinked_memory_head''
     ''recallable memory head has no typed graph edge or active observation evidence'')\<lparr>hi_item_id := Some (mi_id item)\<rparr>"

definition issue_key :: "health_issue \<Rightarrow> int \<times> str \<times> str" where
  "issue_key i = (if hi_severity i = lit ''error'' then 0 else 1, hi_code i,
     case hi_item_id i of Some x \<Rightarrow> uuid_str x | None \<Rightarrow>
       (case hi_edge_id i of Some x \<Rightarrow> uuid_str x | None \<Rightarrow>
          (case hi_observation_id i of Some x \<Rightarrow> uuid_str x | None \<Rightarrow> [])))"

definition inspect :: "uuid \<Rightarrow> uuid \<Rightarrow> store \<Rightarrow> health_report" where
  "inspect tenant_id workspace_id s =
    (let items = list_items tenant_id workspace_id [] None None None 0 s;
         observations = list_observations_for_workspace tenant_id workspace_id None 0 s;
         edges = list_edges_for_workspace tenant_id workspace_id s;
         by_id = items_by_id items;
         edge_checks = map (check_edge by_id) edges;
         observation_checks = map (check_observation by_id) observations;
         linked = concat (map fst edge_checks) @ concat (map fst observation_checks);
         heads = filter (\<lambda>item. is_recallable_head tenant_id (mi_id item) s \<and> mi_status item \<notin> {Archived, Rejected}) items;
         unlinked = filter (\<lambda>item. mi_id item \<notin> set linked) heads;
         issues = check_revision_chains by_id @ concat (map snd edge_checks) @ concat (map snd observation_checks)
           @ map unlinked_issue unlinked
     in \<lparr>hr_tenant_id = tenant_id, hr_workspace_id = workspace_id, hr_memory_count = length items,
         hr_edge_count = length edges, hr_observation_count = length observations,
         hr_recallable_head_count = length heads, hr_unlinked_head_count = length unlinked,
         hr_issues = sort_key issue_key issues\<rparr>)"

section \<open>What the report says\<close>

text \<open>A memory of the workspace.\<close>

definition known :: "uuid \<Rightarrow> uuid \<Rightarrow> store \<Rightarrow> uuid \<Rightarrow> bool" where
  "known t w s i \<longleftrightarrow> (\<exists>m. get_item t i s = Some m \<and> mi_workspace_id m = w)"

abbreviation workspace_items :: "uuid \<Rightarrow> uuid \<Rightarrow> store \<Rightarrow> memory_item list" where
  "workspace_items t w s \<equiv> list_items t w [] None None None 0 s"

lemma items_by_id_get:
  "dict_get (items_by_id items) i = find (\<lambda>x. mi_id x = i) (rev items)"
  unfolding items_by_id_def by (induction items rule: rev_induct) auto

lemma items_by_id_Some: "dict_get (items_by_id items) i = Some m \<Longrightarrow> m \<in> set items \<and> mi_id m = i"
  unfolding items_by_id_get by (drule find_SomeD) simp

lemma workspace_items_mem:
  "items_ok s \<Longrightarrow> x \<in> set (workspace_items t w s) \<longleftrightarrow> get_item t (mi_id x) s = Some x \<and> mi_workspace_id x = w"
proof -
  assume ok: "items_ok s"
  have "x \<in> set (workspace_items t w s)
      \<longleftrightarrow> x \<in> set (dict_values (st_items s)) \<and> mi_tenant_id x = t \<and> mi_workspace_id x = w"
    by (simp add: list_items_unpaged given_def del: set_map)
  also have "\<dots> \<longleftrightarrow> get_item t (mi_id x) s = Some x \<and> mi_workspace_id x = w"
    by (simp only: items_row_iff [OF ok] get_item_Some conj_assoc)
  finally show ?thesis .
qed

lemma by_id_Some:
  assumes "items_ok s"
  shows "dict_get (items_by_id (workspace_items t w s)) i = Some m \<longleftrightarrow> get_item t i s = Some m \<and> mi_workspace_id m = w"
proof
  assume "dict_get (items_by_id (workspace_items t w s)) i = Some m"
  then have "m \<in> set (workspace_items t w s)" "mi_id m = i"
    using items_by_id_Some by blast+
  then show "get_item t i s = Some m \<and> mi_workspace_id m = w" using workspace_items_mem [OF assms] by blast
next
  assume m: "get_item t i s = Some m \<and> mi_workspace_id m = w"
  then have id: "mi_id m = i" using items_row_id [OF assms] by (auto simp: get_item_Some)
  with m have "m \<in> set (workspace_items t w s)" using workspace_items_mem [OF assms] by blast
  then obtain x where x: "find (\<lambda>x. mi_id x = i) (rev (workspace_items t w s)) = Some x"
    using id by (cases "find (\<lambda>x. mi_id x = i) (rev (workspace_items t w s))") (auto simp: find_None_iff)
  then have "x \<in> set (workspace_items t w s)" "mi_id x = i"
    using items_by_id_Some unfolding items_by_id_get by blast+
  then have "get_item t i s = Some x" using workspace_items_mem [OF assms] by blast
  with m x show "dict_get (items_by_id (workspace_items t w s)) i = Some m" unfolding items_by_id_get by simp
qed

lemma by_id_None: "items_ok s \<Longrightarrow> dict_get (items_by_id (workspace_items t w s)) i = None \<longleftrightarrow> \<not> known t w s i"
  using by_id_Some [of s t w i] unfolding known_def by (metis option.distinct(1) option.exhaust)

lemma by_id_values:
  assumes "items_ok s"
  shows "set (dict_values (items_by_id (workspace_items t w s))) = set (workspace_items t w s)"
proof -
  have ok: "dict_ok (items_by_id xs)" for xs
    unfolding items_by_id_def by (induction xs rule: rev_induct) simp_all
  show ?thesis
  proof (intro set_eqI iffI)
    fix x assume "x \<in> set (dict_values (items_by_id (workspace_items t w s)))"
    then obtain i where "dict_get (items_by_id (workspace_items t w s)) i = Some x" using dict_values_get [OF ok] by blast
    then show "x \<in> set (workspace_items t w s)" using items_by_id_Some by blast
  next
    fix x assume "x \<in> set (workspace_items t w s)"
    then have "get_item t (mi_id x) s = Some x \<and> mi_workspace_id x = w" using workspace_items_mem [OF assms] by blast
    then have "dict_get (items_by_id (workspace_items t w s)) (mi_id x) = Some x" using by_id_Some [OF assms] by blast
    then show "x \<in> set (dict_values (items_by_id (workspace_items t w s)))" by (rule dict_get_values)
  qed
qed

text \<open>What it means that the references of a workspace are intact.\<close>

definition chain_intact :: "uuid \<Rightarrow> uuid \<Rightarrow> store \<Rightarrow> memory_item \<Rightarrow> bool" where
  "chain_intact t w s x \<longleftrightarrow> (\<forall>p. mi_supersedes_id x = Some p \<longrightarrow>
     (\<exists>q. get_item t p s = Some q \<and> mi_workspace_id q = w \<and> mi_revision x = mi_revision q + 1))"

definition edge_intact :: "uuid \<Rightarrow> uuid \<Rightarrow> store \<Rightarrow> memory_edge \<Rightarrow> bool" where
  "edge_intact t w s e \<longleftrightarrow> known t w s (me_src_id e) \<and> known t w s (me_dst_id e)
     \<and> (\<forall>p. me_provenance_item_id e = Some p \<longrightarrow> known t w s p)"

definition is_error :: "health_issue \<Rightarrow> bool" where
  "is_error i \<longleftrightarrow> hi_severity i = lit ''error''"

lemma issue_fields [simp]:
  "hi_severity (issue a b c) = lit a" "hi_code (issue a b c) = lit b" "hi_item_id (issue a b c) = None"
  by (simp_all add: issue_def)

definition head_code :: str where "head_code = lit ''unlinked_memory_head''"

lemma code_distinct:
  "lit ''missing_revision_parent'' \<noteq> head_code" "lit ''invalid_revision_sequence'' \<noteq> head_code"
  "lit ''broken_graph_endpoint'' \<noteq> head_code" "lit ''missing_graph_provenance'' \<noteq> head_code"
  "lit ''missing_observation_evidence'' \<noteq> head_code" "lit ''warning'' \<noteq> lit ''error''"
  unfolding head_code_def by code_simp+

text \<open>Every check reports errors only, none about heads, and exactly when a reference is broken.\<close>

definition errors_only :: "health_issue list \<Rightarrow> bool" where
  "errors_only is \<longleftrightarrow> (\<forall>i \<in> set is. is_error i \<and> hi_code i \<noteq> head_code)"

lemma chain_issues_spec:
  assumes "items_ok s"
  shows "chain_issues (items_by_id (workspace_items t w s)) x = [] \<longleftrightarrow> chain_intact t w s x"
    and "errors_only (chain_issues (items_by_id (workspace_items t w s)) x)"
proof -
  let ?m = "items_by_id (workspace_items t w s)"
  show "chain_issues ?m x = [] \<longleftrightarrow> chain_intact t w s x"
  proof (cases "mi_supersedes_id x")
    case None
    then show ?thesis by (simp add: chain_issues_def chain_intact_def)
  next
    case (Some p)
    show ?thesis
    proof (cases "dict_get ?m p")
      case None
      then have "\<not> known t w s p" using by_id_None [OF assms] by blast
      with Some None show ?thesis by (auto simp: chain_issues_def chain_intact_def known_def)
    next
      case (Some q)
      then have "get_item t p s = Some q \<and> mi_workspace_id q = w" using by_id_Some [OF assms] by blast
      with Some \<open>mi_supersedes_id x = Some p\<close> show ?thesis by (simp add: chain_issues_def chain_intact_def)
    qed
  qed
  show "errors_only (chain_issues ?m x)"
    using code_distinct
    by (cases "mi_supersedes_id x"; cases "dict_get ?m (the (mi_supersedes_id x))")
      (simp_all add: errors_only_def is_error_def chain_issues_def)
qed

lemma check_edge_spec:
  assumes "items_ok s"
  shows "snd (check_edge (items_by_id (workspace_items t w s)) e) = [] \<longleftrightarrow> edge_intact t w s e"
    and "errors_only (snd (check_edge (items_by_id (workspace_items t w s)) e))"
    and "set (fst (check_edge (items_by_id (workspace_items t w s)) e))
      = (if known t w s (me_src_id e) \<and> known t w s (me_dst_id e) then {me_src_id e, me_dst_id e} else {})"
  using by_id_None [OF assms, of t w] code_distinct
  by (cases "me_provenance_item_id e"; simp add: check_edge_def edge_intact_def errors_only_def is_error_def)+

lemma check_observation_spec:
  assumes "items_ok s"
  shows "snd (check_observation (items_by_id (workspace_items t w s)) b) = []
      \<longleftrightarrow> (\<forall>i \<in> set (ob_evidence_ids b). known t w s i)"
    and "errors_only (snd (check_observation (items_by_id (workspace_items t w s)) b))"
    and "set (fst (check_observation (items_by_id (workspace_items t w s)) b))
      = (if ob_stale b then {} else {i \<in> set (ob_evidence_ids b). known t w s i})"
  using by_id_None [OF assms, of t w] code_distinct
  by (auto simp: check_observation_def check_evidence_def errors_only_def is_error_def split: if_splits)

lemma healthy_iff: "healthy r \<longleftrightarrow> (\<forall>i \<in> set (hr_issues r). \<not> is_error i)"
  by (simp add: healthy_def error_count_def is_error_def filter_empty_conv)

text \<open>
  (unlisted): The vault report is exact. Over a well-formed ledger a workspace is reported healthy if and only if
  every revision continues a memory of the workspace by one, every edge has its endpoints and its
  provenance in the workspace and every observation cites memories of the workspace; and the report
  warns about a memory if and only if it is a recallable head that no intact edge and no current
  observation refers to.
\<close>

theorem vault_report_exact:
  assumes "items_ok s"
  shows "(healthy (inspect t w s) \<longleftrightarrow>
      (\<forall>x \<in> set (workspace_items t w s). chain_intact t w s x)
      \<and> (\<forall>e \<in> set (list_edges_for_workspace t w s). edge_intact t w s e)
      \<and> (\<forall>b \<in> set (list_observations t w s). \<forall>i \<in> set (ob_evidence_ids b). known t w s i))
    \<and> (\<forall>j. (\<exists>i \<in> set (hr_issues (inspect t w s)). hi_code i = head_code \<and> hi_item_id i = Some j) \<longleftrightarrow>
      is_recallable_head t j s \<and> (\<exists>x. get_item t j s = Some x \<and> mi_workspace_id x = w \<and> mi_status x \<notin> {Archived, Rejected})
      \<and> (\<forall>e \<in> set (list_edges_for_workspace t w s). known t w s (me_src_id e) \<and> known t w s (me_dst_id e)
            \<longrightarrow> j \<noteq> me_src_id e \<and> j \<noteq> me_dst_id e)
      \<and> (\<forall>b \<in> set (list_observations t w s). \<not> ob_stale b \<longrightarrow> j \<notin> set (ob_evidence_ids b)))"
proof -
  let ?items = "workspace_items t w s" and ?edges = "list_edges_for_workspace t w s" and ?obs = "list_observations t w s"
  let ?m = "items_by_id ?items"
  let ?linked = "concat (map fst (map (check_edge ?m) ?edges)) @ concat (map fst (map (check_observation ?m) ?obs))"
  let ?heads = "filter (\<lambda>x. is_recallable_head t (mi_id x) s \<and> mi_status x \<notin> {Archived, Rejected}) ?items"
  let ?unlinked = "filter (\<lambda>x. mi_id x \<notin> set ?linked) ?heads"
  have issues: "set (hr_issues (inspect t w s)) = set (check_revision_chains ?m)
      \<union> (\<Union>e \<in> set ?edges. set (snd (check_edge ?m e))) \<union> (\<Union>b \<in> set ?obs. set (snd (check_observation ?m b)))
      \<union> unlinked_issue ` set ?unlinked"
    by (simp add: inspect_def Let_def list_observations_for_workspace_def Un_assoc)
  have chains: "set (check_revision_chains ?m) = (\<Union>x \<in> set ?items. set (chain_issues ?m x))"
    unfolding check_revision_chains_def set_concat set_map [of "chain_issues ?m"] by_id_values [OF assms] by blast
  note spec = chain_issues_spec [OF assms, of t w] check_edge_spec [OF assms, of t w] check_observation_spec [OF assms, of t w]
  have head: "\<not> is_error (unlinked_issue x) \<and> hi_code (unlinked_issue x) = head_code \<and> hi_item_id (unlinked_issue x) = Some (mi_id x)" for x
    using code_distinct(6) by (simp add: unlinked_issue_def is_error_def head_code_def)
  have err: "(\<forall>i \<in> set is. \<not> is_error i) \<longleftrightarrow> is = []" if "errors_only is" for "is"
    using that by (cases "is") (auto simp: errors_only_def)
  have "healthy (inspect t w s) \<longleftrightarrow> (\<forall>x \<in> set ?items. chain_issues ?m x = []) \<and> (\<forall>e \<in> set ?edges. snd (check_edge ?m e) = [])
      \<and> (\<forall>b \<in> set ?obs. snd (check_observation ?m b) = [])"
  proof -
    have "healthy (inspect t w s) \<longleftrightarrow> (\<forall>x \<in> set ?items. \<forall>i \<in> set (chain_issues ?m x). \<not> is_error i)
        \<and> (\<forall>e \<in> set ?edges. \<forall>i \<in> set (snd (check_edge ?m e)). \<not> is_error i)
        \<and> (\<forall>b \<in> set ?obs. \<forall>i \<in> set (snd (check_observation ?m b)). \<not> is_error i)"
      unfolding healthy_iff issues chains using head by blast
    then show ?thesis unfolding err [OF spec(2)] err [OF spec(4)] err [OF spec(7)] .
  qed
  then have one: "healthy (inspect t w s) \<longleftrightarrow> (\<forall>x \<in> set ?items. chain_intact t w s x) \<and> (\<forall>e \<in> set ?edges. edge_intact t w s e)
      \<and> (\<forall>b \<in> set ?obs. \<forall>i \<in> set (ob_evidence_ids b). known t w s i)"
    unfolding spec(1,3,6) .
  have two: "(\<exists>i \<in> set (hr_issues (inspect t w s)). hi_code i = head_code \<and> hi_item_id i = Some j)
      \<longleftrightarrow> (\<exists>x \<in> set ?unlinked. mi_id x = j)" for j
  proof
    assume "\<exists>i \<in> set (hr_issues (inspect t w s)). hi_code i = head_code \<and> hi_item_id i = Some j"
    then obtain i where i: "i \<in> set (hr_issues (inspect t w s))" "hi_code i = head_code" "hi_item_id i = Some j" by blast
    have "i \<notin> set (chain_issues ?m x)" "i \<notin> set (snd (check_edge ?m e))" "i \<notin> set (snd (check_observation ?m b))" for x e b
      using i(2) spec(2,4,7) unfolding errors_only_def by blast+
    then have "i \<in> unlinked_issue ` set ?unlinked" using i(1) unfolding issues chains by blast
    then obtain x where x: "x \<in> set ?unlinked" "i = unlinked_issue x" by (rule imageE)
    then have "mi_id x = j" using head [of x] i(3) by simp
    with x(1) show "\<exists>x \<in> set ?unlinked. mi_id x = j" by (rule bexI [rotated])
  next
    assume "\<exists>x \<in> set ?unlinked. mi_id x = j"
    then obtain x where x: "x \<in> set ?unlinked" "mi_id x = j" by (rule bexE)
    have "unlinked_issue x \<in> set (hr_issues (inspect t w s))" unfolding issues using imageI [OF x(1)] by (rule UnI2)
    then show "\<exists>i \<in> set (hr_issues (inspect t w s)). hi_code i = head_code \<and> hi_item_id i = Some j"
      using head [of x] x(2) by blast
  qed
  have linked: "set ?linked = (\<Union>e \<in> {e \<in> set ?edges. known t w s (me_src_id e) \<and> known t w s (me_dst_id e)}. {me_src_id e, me_dst_id e})
      \<union> (\<Union>b \<in> {b \<in> set ?obs. \<not> ob_stale b}. {i \<in> set (ob_evidence_ids b). known t w s i})"
    unfolding set_append set_concat set_map image_image UN_simps spec(5,8) by auto
  have three: "(\<exists>x \<in> set ?unlinked. mi_id x = j) \<longleftrightarrow> is_recallable_head t j s
      \<and> (\<exists>x. get_item t j s = Some x \<and> mi_workspace_id x = w \<and> mi_status x \<notin> {Archived, Rejected}) \<and> j \<notin> set ?linked" for j
  proof -
    have mem: "x \<in> set ?items \<and> mi_id x = j \<longleftrightarrow> get_item t j s = Some x \<and> mi_workspace_id x = w" for x
      using workspace_items_mem [OF assms, of x t w] items_row_id [OF assms, of j x] by (auto simp: get_item_Some)
    have "(\<exists>x \<in> set (filter (\<lambda>x. mi_id x \<notin> A) (filter (\<lambda>x. R (mi_id x) \<and> S x) ?items)). mi_id x = j)
        \<longleftrightarrow> R j \<and> (\<exists>x. (x \<in> set ?items \<and> mi_id x = j) \<and> S x) \<and> j \<notin> A" for A R S
      by auto
    then show ?thesis unfolding mem conj_assoc .
  qed
  have four: "j \<notin> set ?linked \<longleftrightarrow> (\<forall>e \<in> set ?edges. known t w s (me_src_id e) \<and> known t w s (me_dst_id e)
            \<longrightarrow> j \<noteq> me_src_id e \<and> j \<noteq> me_dst_id e)
      \<and> (\<forall>b \<in> set ?obs. \<not> ob_stale b \<longrightarrow> j \<notin> set (ob_evidence_ids b))" if "known t w s j" for j
    unfolding linked using that by auto
  have five: "known t w s j" if "\<exists>x. get_item t j s = Some x \<and> mi_workspace_id x = w \<and> mi_status x \<notin> {Archived, Rejected}" for j
    using that by (auto simp: known_def)
  have "(\<exists>x \<in> set ?unlinked. mi_id x = j) \<longleftrightarrow> is_recallable_head t j s
      \<and> (\<exists>x. get_item t j s = Some x \<and> mi_workspace_id x = w \<and> mi_status x \<notin> {Archived, Rejected})
      \<and> (\<forall>e \<in> set ?edges. known t w s (me_src_id e) \<and> known t w s (me_dst_id e)
            \<longrightarrow> j \<noteq> me_src_id e \<and> j \<noteq> me_dst_id e)
      \<and> (\<forall>b \<in> set ?obs. \<not> ob_stale b \<longrightarrow> j \<notin> set (ob_evidence_ids b))" for j
  proof (cases "known t w s j")
    case True
    show ?thesis unfolding three four [OF True] by (rule refl)
  next
    case False
    with five have "\<not> (\<exists>x. get_item t j s = Some x \<and> mi_workspace_id x = w \<and> mi_status x \<notin> {Archived, Rejected})" by blast
    then show ?thesis unfolding three by (simp only: simp_thms)
  qed
  then show ?thesis unfolding two by (intro conjI one allI)
qed

text \<open>An edge whose provenance names no memory is accepted by the graph service and reported here.\<close>

abbreviation dangling_store :: store where
  "dangling_store \<equiv> snd (graph_link 61 5 7 8 1 2 Supports 1 (Some 99) None graph_store)"

theorem vault_report_exact_witness:
  "\<not> healthy (inspect 7 8 dangling_store) \<and> healthy (inspect 7 8 graph_store)"
proof -
  have "st_items dangling_store = st_items graph_store" "st_idempotency dangling_store = st_idempotency graph_store"
    by (simp_all add: graph_link_def save_edge_def Let_def split: option.split sum.split)
  then have ok: "items_ok dangling_store" "items_ok graph_store"
    using graph_store_ok by (simp_all add: ledger_ok_def items_ok_def)
  have "map me_provenance_item_id (list_edges_for_workspace 7 8 dangling_store) = [Some 99]" by code_simp
  then obtain e where e: "e \<in> set (list_edges_for_workspace 7 8 dangling_store)" "me_provenance_item_id e = Some 99" by auto
  have "get_item 7 99 dangling_store = None" by code_simp
  then have "\<not> edge_intact 7 8 dangling_store e" using e(2) by (simp add: edge_intact_def known_def)
  moreover have "list_edges_for_workspace 7 8 graph_store = []" "list_observations 7 8 graph_store = []"
    "map mi_supersedes_id (workspace_items 7 8 graph_store) = [None, None]" by code_simp+
  then have "\<forall>x \<in> set (workspace_items 7 8 graph_store). chain_intact 7 8 graph_store x"
    by (auto simp: chain_intact_def map_eq_Cons_conv)
  ultimately show ?thesis
    using vault_report_exact [OF ok(1), of 7 8] vault_report_exact [OF ok(2), of 7 8] e(1)
      \<open>list_edges_for_workspace 7 8 graph_store = []\<close> \<open>list_observations 7 8 graph_store = []\<close> by auto
qed

end
