(* ===== verification/System.thy ===== *)
theory System
  imports Conversations Conflicts Reflection
begin

text \<open>
  The memory plane as one system: the operations of the services on the shared in-memory store are steps
  with identities that are new to the store, and the steps of any number of callers follow each other in
  any order. A rejection is two steps, because the code reads the proposal under one lock and saves the
  review under another without looking again: other steps may come between. Every other operation is one
  step, its reads merged with its one locked write. Retain, supersede, submit, accept, append and link
  read before that write only what never changes (the content of proposals, memories and their scopes)
  or what the write checks again (the status of the proposal, the head of the chain); a decision on a
  conflict reads the current heads, and its write checks every revision again; a reflection reads the
  memories it summarizes and writes observations. A curation is several locked writes in the code, so it
  is a step as a whole and also the sequence of its own steps (submit, automatic acceptance, purge). The
  invariants of the components hold together in every reachable store, and what the store holds is only
  added to, reviewed or purged.
\<close>

section \<open>Steps\<close>

definition unused :: "store \<Rightarrow> fresh \<Rightarrow> bool" where
  "unused s fr \<longleftrightarrow> dict_get (st_items s) (fr_item_id fr) = None"

inductive plane_op :: "store \<Rightarrow> store \<Rightarrow> bool" where
  retained: "unused s fr \<Longrightarrow> plane_op s (snd (retain_service g fr c audit s))"
| superseded: "unused s fr \<Longrightarrow> plane_op s (snd (supersede_service g fr sc audit s))"
| submitted: "dict_get (st_proposals s) i = None \<Longrightarrow> plane_op s (snd (submit rt llm g i now pc audit s))"
| accepted: "unused s fr \<Longrightarrow> plane_op s (snd (accept g fr now rv audit s))"
| auto_accepted: "unused s fr \<Longrightarrow> plane_op s (snd (auto_accept rt g fr now p s))"
| decided: "\<forall>c \<in> set (list_cases uuid5 t w True s). fresh_writes frs s c \<Longrightarrow>
    plane_op s (snd (decide uuid5 frs now t w cid status v reason audit s))"
| reflected: "plane_op s (snd (reflect uuid5 rfr t w actor actor_type s))"
| linked_edge: "plane_op s (snd (graph_link n now t w a b ty wt prov audit s))"
| appended: "dict_get (st_turns s) (tf_turn_id tf) = None \<Longrightarrow> plane_op s (snd (append_turn_service svc tf ac audit s))"
| purged: "plane_op s (snd (purge_expired_service t w limit now s))"
| purged_turn: "plane_op s (snd (purge_turn_content t i s))"
| curated: "dict_get (st_proposals s) (cf_proposal_id cfr) = None \<Longrightarrow> unused s (cf_memory cfr) \<Longrightarrow>
    plane_op s (snd (curate_turn cg cfr cc audit s))"

text \<open>
  A state of the plane: the store, and the rejections that have read their proposal and not yet written
  the review.
\<close>

type_synonym plane = "store \<times> memory_proposal list"

inductive plane_step :: "plane \<Rightarrow> plane \<Rightarrow> bool" where
  operated: "plane_op s s' \<Longrightarrow> plane_step (s, R) (s', R)"
| reject_reads: "reject_read now rv s = Inr q \<Longrightarrow> plane_step (s, R) (s, q # R)"
| reject_writes: "q \<in> set R \<Longrightarrow> plane_step (s, R) (snd (reject_write q audit s), remove1 q R)"

inductive_cases plane_stepE: "plane_step (s, R) (s', R')"

lemma plane_step_cases:
  assumes "plane_step (s, R) (s', R')"
  obtains (operated) "plane_op s s'" "R' = R"
  | (read) now rv q where "s' = s" "reject_read now rv s = Inr q" "R' = q # R"
  | (written) q audit where "q \<in> set R" "s' = snd (reject_write q audit s)" "R' = remove1 q R"
  by (rule plane_stepE [OF assms]) (use that in blast)+

section \<open>The invariant and the history\<close>

definition plane_ok :: "store \<Rightarrow> bool" where
  "plane_ok s \<longleftrightarrow> ledger_ok s \<and> gateway_inv s \<and> turns_ok s"

text \<open>A later version of a turn: same identity, scope and speakers, each text kept or purged.\<close>

definition message_succ :: "conversation_message \<Rightarrow> conversation_message \<Rightarrow> bool" where
  "message_succ m m' \<longleftrightarrow> cm_role m' = cm_role m \<and> cm_name m' = cm_name m
     \<and> (cm_content m' = cm_content m \<or> cm_content m' = purged_conversation_content)"

definition turn_succ :: "conversation_turn \<Rightarrow> conversation_turn \<Rightarrow> bool" where
  "turn_succ t t' \<longleftrightarrow> ct_id t' = ct_id t \<and> ct_tenant_id t' = ct_tenant_id t \<and> ct_workspace_id t' = ct_workspace_id t
     \<and> ct_thread_id t' = ct_thread_id t \<and> ct_created_at t' = ct_created_at t \<and> ct_expires_at t' = ct_expires_at t
     \<and> list_all2 message_succ (ct_messages t) (ct_messages t')"

definition memories_kept :: "store \<Rightarrow> store \<Rightarrow> bool" where
  "memories_kept s s' \<longleftrightarrow> (\<forall>i x. dict_get (st_items s) i = Some x \<longrightarrow> dict_get (st_items s') i = Some x)"

definition turns_follow :: "store \<Rightarrow> store \<Rightarrow> bool" where
  "turns_follow s s' \<longleftrightarrow> (\<forall>i t. dict_get (st_turns s) i = Some t \<longrightarrow> (\<exists>t'. dict_get (st_turns s') i = Some t' \<and> turn_succ t t'))"

definition plane_grows :: "store \<Rightarrow> store \<Rightarrow> bool" where
  "plane_grows s s' \<longleftrightarrow> memories_kept s s' \<and> reviews_follow s s' \<and> turns_follow s s'"

lemma message_succ_refl [simp]: "message_succ m m"
  by (simp add: message_succ_def)

lemma turn_succ_refl [simp]: "turn_succ t t"
  by (simp add: turn_succ_def list_all2_refl)

lemma message_succ_trans: "message_succ a b \<Longrightarrow> message_succ b c \<Longrightarrow> message_succ a c"
  by (auto simp: message_succ_def)

lemma turn_succ_trans: "turn_succ a b \<Longrightarrow> turn_succ b c \<Longrightarrow> turn_succ a c"
proof -
  assume a: "turn_succ a b" and b: "turn_succ b c"
  have "list_all2 message_succ (ct_messages a) (ct_messages c)"
    by (rule list_all2_trans [of message_succ message_succ message_succ _ "ct_messages b", OF message_succ_trans])
      (use a b in \<open>simp_all add: turn_succ_def\<close>)
  with a b show ?thesis by (simp add: turn_succ_def)
qed

lemma turn_succ_purged: "turn_succ t (purged_turn reason t)"
  by (simp add: turn_succ_def purged_turn_def purged_message_def message_succ_def list_all2_conv_all_nth)

lemma turns_follow_same [simp]: "st_turns s' = st_turns s \<Longrightarrow> turns_follow s s'"
  by (auto simp: turns_follow_def)

lemma turns_follow_set:
  "dict_get (st_turns s) i = None \<or> (\<exists>t0. dict_get (st_turns s) i = Some t0 \<and> turn_succ t0 t) \<Longrightarrow>
    st_turns s' = dict_set i t (st_turns s) \<Longrightarrow> turns_follow s s'"
  by (auto simp: turns_follow_def)

lemma plane_grows_refl: "plane_grows s s"
  by (simp add: plane_grows_def memories_kept_def)

lemma plane_grows_trans:
  assumes "plane_grows a b" and "plane_grows b c"
  shows "plane_grows a c"
proof -
  have "turns_follow a c"
    unfolding turns_follow_def
  proof (intro allI impI)
    fix i t
    assume "dict_get (st_turns a) i = Some t"
    then obtain t' where t': "dict_get (st_turns b) i = Some t'" "turn_succ t t'"
      using assms(1) unfolding plane_grows_def turns_follow_def by blast
    then obtain u where "dict_get (st_turns c) i = Some u" "turn_succ t' u"
      using assms(2) unfolding plane_grows_def turns_follow_def by blast
    with t'(2) show "\<exists>u. dict_get (st_turns c) i = Some u \<and> turn_succ t u" using turn_succ_trans by blast
  qed
  moreover have "reviews_follow a c" using assms reviews_follow_trans unfolding plane_grows_def by blast
  moreover have "memories_kept a c" using assms unfolding plane_grows_def memories_kept_def by blast
  ultimately show ?thesis by (simp add: plane_grows_def)
qed

text \<open>A step that only adds memories, or only changes what the invariant does not speak about.\<close>

lemma plane_memory_step:
  assumes "plane_ok s" and "ledger_ok s'" and "memories_kept s s'"
    and "st_proposals s' = st_proposals s" and "st_proposal_idempotency s' = st_proposal_idempotency s"
    and "st_turns s' = st_turns s" and "st_turn_idempotency s' = st_turn_idempotency s"
  shows "plane_ok s' \<and> plane_grows s s'"
proof -
  have "gateway_inv s" using assms(1) by (simp add: plane_ok_def)
  then have "gateway_inv s'" using assms(3) unfolding memories_kept_def
    by (intro gateway_inv_grow [of s s', OF _ assms(4,5)]) simp_all
  moreover have "turns_ok s'" using assms(1) turns_ok_cong [OF assms(6,7)] by (simp add: plane_ok_def)
  ultimately show ?thesis using assms(2,3,4,6) by (simp add: plane_ok_def plane_grows_def)
qed

lemma plane_gateway_step:
  assumes "plane_ok s" and "gateway_inv s'" and "reviews_follow s s'" and "ledger_ok s'" and "memories_kept s s'"
    and "st_turns s' = st_turns s" and "st_turn_idempotency s' = st_turn_idempotency s"
  shows "plane_ok s' \<and> plane_grows s s'"
  using assms turns_ok_cong [of s' s] by (simp add: plane_ok_def plane_grows_def)

lemma plane_turn_step:
  assumes "plane_ok s" and "turns_ok s'" and "turns_follow s s'"
    and "st_items s' = st_items s" and "st_idempotency s' = st_idempotency s"
    and "st_proposals s' = st_proposals s" and "st_proposal_idempotency s' = st_proposal_idempotency s"
  shows "plane_ok s' \<and> plane_grows s s'"
proof -
  have "gateway_inv s" using assms(1) by (simp add: plane_ok_def)
  then have "gateway_inv s'" using assms(4)
    by (intro gateway_inv_grow [of s s', OF _ assms(6,7)]) simp_all
  moreover have "ledger_ok s'" using assms(1) ledger_ok_cong [OF assms(4,5)] by (simp add: plane_ok_def)
  moreover have "memories_kept s s'" using assms(4) by (simp add: memories_kept_def)
  ultimately show ?thesis using assms(2,3,6) by (simp add: plane_ok_def plane_grows_def)
qed

section \<open>Every operation is such a step\<close>

lemma ledger_tables:
  "st_proposals (snd (retain item event k a s)) = st_proposals s"
  "st_proposal_idempotency (snd (retain item event k a s)) = st_proposal_idempotency s"
  "st_turns (snd (retain item event k a s)) = st_turns s"
  "st_turn_idempotency (snd (retain item event k a s)) = st_turn_idempotency s"
  by (auto simp: retain_def append_item_def idempotent_insert_def Let_def split: prod.splits sum.splits option.splits bool.splits)

lemma supersede_tables:
  "st_proposals (snd (supersede_if_current item event n k a s)) = st_proposals s"
  "st_proposal_idempotency (snd (supersede_if_current item event n k a s)) = st_proposal_idempotency s"
  "st_turns (snd (supersede_if_current item event n k a s)) = st_turns s"
  "st_turn_idempotency (snd (supersede_if_current item event n k a s)) = st_turn_idempotency s"
  by (auto simp: supersede_if_current_def append_item_def idempotent_insert_def Let_def
      split: prod.splits sum.splits option.splits bool.splits if_splits)

lemma memories_kept_same [simp]: "st_items s' = st_items s \<Longrightarrow> memories_kept s s'"
  by (simp add: memories_kept_def)

lemma memories_kept_new:
  "dict_get (st_items s) i = None \<Longrightarrow> st_items s' = dict_set i x (st_items s) \<Longrightarrow> memories_kept s s'"
  by (auto simp: memories_kept_def)

lemma plane_ok_items: "plane_ok s \<Longrightarrow> items_ok s"
  by (simp add: plane_ok_def ledger_ok_def)

lemma retained_step:
  assumes ok: "plane_ok s" and new: "unused s fr"
  shows "plane_ok (snd (retain_service g fr c audit s)) \<and> plane_grows s (snd (retain_service g fr c audit s))"
proof -
  obtain r s1 where eq: "retain_service g fr c audit s = (r, s1)" by fastforce
  show ?thesis
  proof (cases "prepare g fr c")
    case (Inl e)
    then have "s1 = s" using eq by (simp add: retain_service_def)
    with ok eq show ?thesis by (simp add: plane_grows_refl)
  next
    case (Inr p)
    obtain item event where p: "prepare g fr c = Inr (item, event)" using Inr by (cases p) auto
    then have item: "mi_id item = fr_item_id fr" "mi_supersedes_id item = None" by (auto elim: prepare_Inr)
    obtain k a where s1: "s1 = snd (retain item event k a s)"
    proof
      show "s1 = snd (retain item event (rc_idempotency_key c) (map_option
          (\<lambda>a. a\<lparr>ae_resource_id := Some (uuid_str (mi_id item))\<rparr>) audit) s)"
        using eq p by (auto simp: retain_service_def Let_def split: prod.splits sum.splits)
    qed
    have free: "dict_get (st_items s) (mi_id item) = None" using new item by (simp add: unused_def)
    have ledger: "ledger_ok s1"
      using ok free item(2) unfolding s1 plane_ok_def by (auto intro: ledger_ok_retain)
    have "memories_kept s s1"
      using plane_ok_items [OF ok] eq
    proof (cases rule: retain_service_cases)
      case (created item' event')
      then show ?thesis using p item(1) new by (intro memories_kept_new) (auto simp: unused_def)
    qed auto
    with plane_memory_step [OF ok ledger] eq show ?thesis by (simp add: s1 ledger_tables)
  qed
qed

lemma superseded_step:
  assumes ok: "plane_ok s" and new: "unused s fr"
  shows "plane_ok (snd (supersede_service g fr sc audit s)) \<and> plane_grows s (snd (supersede_service g fr sc audit s))"
proof -
  obtain r s1 where eq: "supersede_service g fr sc audit s = (r, s1)" by fastforce
  from eq show ?thesis
  proof (cases rule: supersede_service_cases)
    case (refused e)
    with ok eq show ?thesis by (simp add: plane_grows_refl)
  next
    case (attempt cur d item event audit')
    show ?thesis
    proof (cases "mi_revision cur = sm_expected_revision sc")
      case True
      let ?n = "sm_expected_revision sc" and ?k = "sm_idempotency_key sc"
      have free: "dict_get (st_items s) (mi_id item) = None" using new attempt(5) by (simp add: unused_def)
      have ledger: "ledger_ok s1" unfolding attempt(17)
        using ok free True attempt(7) by (intro ledger_ok_supersede) (auto simp: plane_ok_def)
      have "memories_kept s s1"
      proof -
        obtain u where "supersede_if_current item event ?n ?k audit' s = (u, s1)"
          using attempt(17) by (cases "supersede_if_current item event ?n ?k audit' s") auto
        then show ?thesis
        proof (cases rule: supersede_if_current_cases)
          case (written p q)
          then show ?thesis by (intro memories_kept_new [OF free]) simp
        qed simp_all
      qed
      with plane_memory_step [OF ok ledger] eq show ?thesis by (simp add: attempt(17) supersede_tables)
    next
      case False
      obtain u where u: "supersede_if_current item event (sm_expected_revision sc) (sm_idempotency_key sc) audit' s = (u, s1)"
        using attempt(17) by (cases "supersede_if_current item event (sm_expected_revision sc) (sm_idempotency_key sc) audit' s") auto
      have "mi_tenant_id cur = sm_tenant_id sc" "mi_id cur = sm_item_id sc"
        using attempt(1) plane_ok_items [OF ok] by (auto simp: get_item_Some items_ok_def intro: table_ok_ident)
      then have cur: "get_item (mi_tenant_id item) (mi_id cur) s = Some cur" using attempt(1,8) by simp
      from u have "s1 = s"
      proof (cases rule: supersede_if_current_cases)
        case (written p q)
        then have "q = cur" using attempt(6) cur by simp
        with written False show ?thesis by simp
      qed simp_all
      with ok eq show ?thesis by (simp add: plane_grows_refl)
    qed
  qed
qed

lemma linked_step:
  assumes ok: "plane_ok s"
  shows "plane_ok (snd (graph_link n now t w a b ty wt prov audit s))
    \<and> plane_grows s (snd (graph_link n now t w a b ty wt prov audit s))"
proof -
  obtain r s1 where eq: "graph_link n now t w a b ty wt prov audit s = (r, s1)" by fastforce
  from eq have "st_items s1 = st_items s" "st_idempotency s1 = st_idempotency s" "st_proposals s1 = st_proposals s"
    "st_proposal_idempotency s1 = st_proposal_idempotency s" "st_turns s1 = st_turns s"
    "st_turn_idempotency s1 = st_turn_idempotency s"
    by (cases rule: graph_link_cases; simp)+
  moreover from this ok have "ledger_ok s1" using ledger_ok_cong [of s1 s] by (simp add: plane_ok_def)
  ultimately show ?thesis using plane_memory_step [OF ok, of s1] eq by simp
qed

lemma reflect_frame:
  "reflect_rows uuid5 t w actor actor_type fr k rs st = (r, st1) \<Longrightarrow>
    st_items (rl_store st1) = st_items (rl_store st) \<and> st_idempotency (rl_store st1) = st_idempotency (rl_store st)
    \<and> st_proposals (rl_store st1) = st_proposals (rl_store st)
    \<and> st_proposal_idempotency (rl_store st1) = st_proposal_idempotency (rl_store st)
    \<and> st_turns (rl_store st1) = st_turns (rl_store st)
    \<and> st_turn_idempotency (rl_store st1) = st_turn_idempotency (rl_store st)"
proof (induction rs arbitrary: k st)
  case Nil
  then show ?case by simp
next
  case (Cons x rs)
  obtain u st2 where row: "reflect_row uuid5 t w actor actor_type (fr k) x st = (u, st2)" by fastforce
  then have "st_items (rl_store st2) = st_items (rl_store st) \<and> st_idempotency (rl_store st2) = st_idempotency (rl_store st)
    \<and> st_proposals (rl_store st2) = st_proposals (rl_store st)
    \<and> st_proposal_idempotency (rl_store st2) = st_proposal_idempotency (rl_store st)
    \<and> st_turns (rl_store st2) = st_turns (rl_store st)
    \<and> st_turn_idempotency (rl_store st2) = st_turn_idempotency (rl_store st)"
    by (cases rule: reflect_row_cases) simp_all
  moreover have "(st1 = st2) \<or> reflect_rows uuid5 t w actor actor_type fr (k + 1) rs st2 = (r, st1)"
    using Cons.prems row by (auto split: sum.splits)
  ultimately show ?case using Cons.IH [of "k + 1" st2] by auto
qed

lemma reflected_step:
  assumes ok: "plane_ok s"
  shows "plane_ok (snd (reflect uuid5 rfr t w actor actor_type s))
    \<and> plane_grows s (snd (reflect uuid5 rfr t w actor actor_type s))"
proof -
  obtain r s1 where eq: "reflect uuid5 rfr t w actor actor_type s = (r, s1)" by fastforce
  obtain u st1 where rows: "reflect_rows uuid5 t w actor actor_type rfr 0 (considered t w s)
      \<lparr>rl_keys = existing_keys t w s, rl_created = [], rl_store = s\<rparr> = (u, st1)" by fastforce
  then have "s1 = rl_store st1" using eq by (auto simp: reflect_def split: sum.splits)
  moreover have "ledger_ok (rl_store st1)"
    using ok reflect_frame [OF rows] ledger_ok_cong [of "rl_store st1" s] by (simp add: plane_ok_def)
  ultimately show ?thesis using plane_memory_step [OF ok, of s1] eq reflect_frame [OF rows] by simp
qed

lemma submitted_step:
  assumes ok: "plane_ok s" and new: "dict_get (st_proposals s) i = None"
  shows "plane_ok (snd (submit rt llm g i now pc audit s)) \<and> plane_grows s (snd (submit rt llm g i now pc audit s))"
proof -
  obtain r s1 where eq: "submit rt llm g i now pc audit s = (r, s1)" by fastforce
  have gw: "gateway_inv s" "ledger_ok s" using ok by (simp_all add: plane_ok_def)
  note g1 = submit_gateway [OF gw(1) eq new] and t1 = submit_turns [OF eq]
  have "ledger_ok s1" using g1 gw(2) ledger_ok_cong [of s1 s] by simp
  with plane_gateway_step [OF ok, of s1] eq g1 t1 show ?thesis by simp
qed

lemma accept_keeps_turns:
  "st_turns (snd (accept g fr now c audit s)) = st_turns s
    \<and> st_turn_idempotency (snd (accept g fr now c audit s)) = st_turn_idempotency s"
proof -
  have "st_turns (snd (accept_proposal_with_memory p item event rv rs k au n s)) = st_turns s
      \<and> st_turn_idempotency (snd (accept_proposal_with_memory p item event rv rs k au n s)) = st_turn_idempotency s"
    for p item event rv rs k au n
    by (auto simp: accept_proposal_with_memory_def Let_def split: option.splits sum.splits)
  then show ?thesis by (auto simp: accept_def split: sum.split prod.split) (metis snd_conv)+
qed

lemma accepted_step:
  assumes ok: "plane_ok s" and new: "unused s fr"
  shows "plane_ok (snd (accept g fr now rv audit s)) \<and> plane_grows s (snd (accept g fr now rv audit s))"
proof -
  obtain r s1 where eq: "accept g fr now rv audit s = (r, s1)" by fastforce
  have gw: "gateway_inv s" "ledger_ok s" using ok by (simp_all add: plane_ok_def)
  note g1 = accept_gateway [OF gw(1) eq new [unfolded unused_def]]
  have "memories_kept s s1" using g1 by (simp add: memories_kept_def)
  with plane_gateway_step [OF ok, of s1] eq g1 gw(2) accept_keeps_turns [of g fr now rv audit s] show ?thesis by simp
qed

lemma auto_accepted_step:
  assumes ok: "plane_ok s" and new: "unused s fr"
  shows "plane_ok (snd (auto_accept rt g fr now p s)) \<and> plane_grows s (snd (auto_accept rt g fr now p s))"
proof -
  obtain r s1 where eq: "auto_accept rt g fr now p s = (r, s1)" by fastforce
  have gw: "gateway_inv s" "ledger_ok s" using ok by (simp_all add: plane_ok_def)
  note g1 = auto_accept_gateway [OF gw(1) eq new [unfolded unused_def]]
  have "memories_kept s s1" using g1 by (simp add: memories_kept_def)
  with plane_gateway_step [OF ok, of s1] eq g1 gw(2) accept_turns [OF eq] show ?thesis by simp
qed

lemma decided_step:
  assumes ok: "plane_ok s" and new: "\<forall>c \<in> set (list_cases uuid5 t w True s). fresh_writes frs s c"
  shows "plane_ok (snd (decide uuid5 frs now t w cid status v reason audit s))
    \<and> plane_grows s (snd (decide uuid5 frs now t w cid status v reason audit s))"
proof -
  obtain r s1 where eq: "decide uuid5 frs now t w cid status v reason audit s = (r, s1)" by fastforce
  have "ledger_ok s" using ok by (simp add: plane_ok_def)
  note d = decide_ledger [OF this new eq]
  have "memories_kept s s1" using d by (simp add: memories_kept_def)
  with plane_memory_step [OF ok, of s1] eq d show ?thesis by simp
qed

lemma append_turn_frame:
  "st_items (snd (append_turn turn key audit event s)) = st_items s"
  "st_idempotency (snd (append_turn turn key audit event s)) = st_idempotency s"
  "st_proposals (snd (append_turn turn key audit event s)) = st_proposals s"
  "st_proposal_idempotency (snd (append_turn turn key audit event s)) = st_proposal_idempotency s"
  by (auto simp: append_turn_def idempotent_insert_def Let_def split: prod.splits sum.splits option.splits bool.splits)

lemma appended_step:
  assumes ok: "plane_ok s" and new: "dict_get (st_turns s) (tf_turn_id tf) = None"
  shows "plane_ok (snd (append_turn_service svc tf ac audit s))
    \<and> plane_grows s (snd (append_turn_service svc tf ac audit s))"
proof -
  obtain r s1 where eq: "append_turn_service svc tf ac audit s = (r, s1)" by fastforce
  have t: "turns_ok s" using ok by (simp add: plane_ok_def)
  then have "table_turns_ok s" by (simp add: turns_ok_def table_turns_ok_def)
  then show ?thesis using eq
  proof (cases rule: append_turn_cases)
    case (created turn event)
    have turn: "ct_id turn = tf_turn_id tf" "valid_turn turn" using new_turn_Inr [OF created(1)] by simp_all
    have "turns_ok s1" unfolding created(4) using t new turn by (intro turns_ok_append) simp_all
    moreover have "turns_follow s s1"
      by (rule turns_follow_set [of s "ct_id turn" turn]) (simp_all add: new turn created(4) append_turn_new(2) [OF created(5)])
    ultimately show ?thesis using plane_turn_step [OF ok, of s1] eq by (simp add: created(4) append_turn_frame)
  qed (use ok eq plane_grows_refl in \<open>simp_all\<close>)
qed

lemma purge_turn_plane:
  assumes plane: "plane_ok s" and step: "purge_turn_with tenant i reason s = (u, s2)"
  shows "plane_ok s2 \<and> plane_grows s s2"
proof (cases "\<exists>t. dict_get (st_turns s) i = Some t \<and> ct_tenant_id t = tenant")
  case True
  then obtain t where t: "dict_get (st_turns s) i = Some t" "ct_tenant_id t = tenant" by blast
  have ok: "turns_ok s" using plane by (simp add: plane_ok_def)
  have s2: "s2 = s\<lparr>st_turns := dict_set i (purged_turn reason t) (st_turns s)\<rparr>"
    using purge_turn_with_hit [OF ok t, of reason] step by simp
  have "turns_follow s s2"
    by (rule turns_follow_set [of s i "purged_turn reason t"]) (use t turn_succ_purged in \<open>auto simp: s2\<close>)
  moreover have "turns_ok s2" unfolding s2 by (rule turns_ok_purged [OF ok t(1)])
  ultimately show ?thesis using plane_turn_step [OF plane, of s2] by (simp add: s2)
next
  case False
  then have "s2 = s" using step by (auto simp: purge_turn_with_def split: option.splits if_splits)
  with plane show ?thesis by (simp add: plane_grows_refl)
qed

lemma purged_turn_step:
  assumes "plane_ok s"
  shows "plane_ok (snd (purge_turn_content t i s)) \<and> plane_grows s (snd (purge_turn_content t i s))"
  unfolding purge_turn_content_def by (rule purge_turn_plane [OF assms prod.collapse [symmetric]])

lemma purge_each_plane:
  "plane_ok s \<Longrightarrow> purge_each tenant ids s = (r, s1) \<Longrightarrow> plane_ok s1 \<and> plane_grows s s1"
proof (induction ids arbitrary: s)
  case Nil
  then show ?case by (simp add: plane_grows_refl)
next
  case (Cons i ids)
  obtain u s2 where step: "purge_turn_with tenant i (lit ''purged_after_expiry'') s = (u, s2)" by fastforce
  note one = purge_turn_plane [OF Cons.prems(1) step]
  show ?case
  proof (cases u)
    case (Inl e)
    with Cons.prems(2) step one show ?thesis by simp
  next
    case (Inr v)
    then have "purge_each tenant ids s2 = (r, s1)" using Cons.prems(2) step by simp
    with Cons.IH one show ?thesis using plane_grows_trans by blast
  qed
qed

lemma purged_step:
  assumes ok: "plane_ok s"
  shows "plane_ok (snd (purge_expired_service t w limit now s)) \<and> plane_grows s (snd (purge_expired_service t w limit now s))"
proof -
  obtain r s1 where eq: "purge_expired_service t w limit now s = (r, s1)" by fastforce
  then obtain ids u where "purge_each t ids s = (u, s1)"
    by (auto simp: purge_expired_service_def purge_expired_turns_def Let_def split: prod.splits sum.splits)
  from purge_each_plane [OF ok this] eq show ?thesis by simp
qed

lemma curated_step:
  assumes ok: "plane_ok s" and new: "dict_get (st_proposals s) (cf_proposal_id cfr) = None" "unused s (cf_memory cfr)"
  shows "plane_ok (snd (curate_turn cg cfr cc audit s)) \<and> plane_grows s (snd (curate_turn cg cfr cc audit s))"
proof -
  obtain r s1 where eq: "curate_turn cg cfr cc audit s = (r, s1)" by fastforce
  have inv: "gateway_inv s" "turns_ok s" "ledger_ok s" using ok by (simp_all add: plane_ok_def)
  note out = curate_outcome [OF inv(1,2) eq new(1) new(2) [unfolded unused_def]]
  show ?thesis
  proof (cases "curatable cc s")
    case (Inl e)
    with out ok eq show ?thesis by (simp add: plane_grows_refl)
  next
    case (Inr turn)
    then have turn: "dict_get (st_turns s) (ct_id turn) = Some turn"
      using inv(2) by (auto simp: curatable_def get_turn_def turns_ok_def dest: table_ok_ident split: option.splits if_splits)
    have "turns_follow s s1"
    proof (cases "st_turns s1 = st_turns s")
      case False
      then have "st_turns s1 = dict_set (ct_id turn) (purged_turn (lit ''purged_after_curation'') turn) (st_turns s)"
        using out Inr by (auto split: sum.splits option.splits if_splits)
      with turn turn_succ_purged show ?thesis by (intro turns_follow_set) auto
    qed simp
    then show ?thesis using out Inr inv(3) eq by (simp add: plane_ok_def plane_grows_def memories_kept_def)
  qed
qed

lemma plane_op_ok: "plane_op s s' \<Longrightarrow> plane_ok s \<Longrightarrow> plane_ok s' \<and> plane_grows s s'"
  by (induction rule: plane_op.induct)
    (rule retained_step superseded_step submitted_step accepted_step auto_accepted_step decided_step
      reflected_step linked_step appended_step purged_step purged_turn_step curated_step; assumption)+

section \<open>Rejections in flight\<close>

text \<open>What a rejection read is still the content of the stored proposal when it writes.\<close>

definition reads_ok :: "plane \<Rightarrow> bool" where
  "reads_ok x \<longleftrightarrow> (\<forall>q \<in> set (snd x). mp_status q = PRejected \<and> valid_proposal q
     \<and> (\<exists>p. dict_get (st_proposals (fst x)) (mp_id q) = Some p \<and> same_content p q))"

definition proposals_kept :: "store \<Rightarrow> store \<Rightarrow> bool" where
  "proposals_kept s s' \<longleftrightarrow> (\<forall>i p. dict_get (st_proposals s) i = Some p \<longrightarrow>
     (\<exists>p'. dict_get (st_proposals s') i = Some p' \<and> same_content p p'
        \<and> (mp_status p = PRejected \<longrightarrow> mp_status p' = PRejected)))"

definition plane_kept :: "store \<Rightarrow> store \<Rightarrow> bool" where
  "plane_kept s s' \<longleftrightarrow> memories_kept s s' \<and> proposals_kept s s' \<and> turns_follow s s'"

lemma same_content_trans: "same_content p q \<Longrightarrow> same_content q r \<Longrightarrow> same_content p r"
  by (simp add: same_content_iff)

lemma same_content_sym: "same_content p q \<Longrightarrow> same_content q p"
  by (simp add: same_content_iff)

lemma plane_grows_kept: "plane_grows s s' \<Longrightarrow> plane_kept s s'"
  unfolding plane_grows_def plane_kept_def proposals_kept_def reviews_follow_def review_succ_def by meson

lemma plane_kept_refl [simp]: "plane_kept s s"
  by (simp add: plane_grows_kept plane_grows_refl)

lemma proposals_kept_trans: "proposals_kept a b \<Longrightarrow> proposals_kept b c \<Longrightarrow> proposals_kept a c"
  unfolding proposals_kept_def by (meson same_content_trans)

lemma plane_kept_trans: "plane_kept a b \<Longrightarrow> plane_kept b c \<Longrightarrow> plane_kept a c"
proof -
  assume a: "plane_kept a b" and b: "plane_kept b c"
  have "plane_grows (a\<lparr>st_proposals := []\<rparr>) (b\<lparr>st_proposals := []\<rparr>)" "plane_grows (b\<lparr>st_proposals := []\<rparr>) (c\<lparr>st_proposals := []\<rparr>)"
    using a b by (simp_all add: plane_kept_def plane_grows_def memories_kept_def turns_follow_def)
  from plane_grows_trans [OF this] have "memories_kept a c \<and> turns_follow a c"
    by (simp add: plane_grows_def memories_kept_def turns_follow_def)
  with a b proposals_kept_trans show ?thesis unfolding plane_kept_def by blast
qed

lemma reads_kept: "reads_ok (s, R) \<Longrightarrow> proposals_kept s s' \<Longrightarrow> reads_ok (s', R)"
proof -
  assume reads: "reads_ok (s, R)" and kept: "proposals_kept s s'"
  have "mp_status q = PRejected \<and> valid_proposal q
      \<and> (\<exists>p. dict_get (st_proposals s') (mp_id q) = Some p \<and> same_content p q)" if q: "q \<in> set R" for q
  proof -
    from reads q obtain p where "dict_get (st_proposals s) (mp_id q) = Some p" and p: "same_content p q"
      and q': "mp_status q = PRejected" "valid_proposal q" by (auto simp: reads_ok_def)
    with kept obtain p' where "dict_get (st_proposals s') (mp_id q) = Some p'" "same_content p p'"
      unfolding proposals_kept_def by blast
    with same_content_trans [OF same_content_sym p] q' show ?thesis by blast
  qed
  then show ?thesis by (simp add: reads_ok_def)
qed

lemma reject_read_pending:
  assumes "gateway_inv s" and "reject_read now rv s = Inr q"
  obtains p where "dict_get (st_proposals s) (mp_id q) = Some p" "same_content p q" "mp_status p \<noteq> PAccepted"
    "mp_status q = PRejected" "valid_proposal q"
proof -
  from assms(2) obtain p where p: "get_proposal (rv_tenant_id rv) (rv_proposal_id rv) s = Some p" "mp_status p \<noteq> PAccepted"
      "q = p\<lparr>mp_status := PRejected, mp_reviewed_at := Some now,
        mp_reviewer := Some (reviewer_name (rv_reviewer rv)),
        mp_review_reason := take 1000 (strip (rv_reason rv))\<rparr>" "valid_proposal q"
    by (auto simp: reject_read_def load_for_review_def res_bind_Inr_iff reviewed_proposal_def
        memory_proposal_post_init_Inr split: option.splits if_splits)
  then have "dict_get (st_proposals s) (mp_id p) = Some p"
    using assms(1) by (auto simp: gateway_inv_def proposals_ok_def get_proposal_Some dest: table_ok_ident)
  with p show thesis by (intro that [of p]) (simp_all add: same_content_iff)
qed

text \<open>A late write: the review lands whatever happened to the proposal since the read.\<close>

lemma reject_written_step:
  assumes ok: "plane_ok s" and q: "mp_status q = PRejected" "valid_proposal q"
    and p: "dict_get (st_proposals s) (mp_id q) = Some p" "same_content p q"
  shows "plane_ok (snd (reject_write q audit s)) \<and> plane_kept s (snd (reject_write q audit s))
    \<and> st_proposals (snd (reject_write q audit s)) = dict_set (mp_id q) q (st_proposals s)"
proof -
  let ?s = "snd (reject_write q audit s)"
  have gw: "gateway_inv s" using ok by (simp add: plane_ok_def)
  have "get_proposal (mp_tenant_id q) (mp_id q) s = Some p" using p by (simp add: get_proposal_Some same_content_iff)
  then have s: "?s = with_audit (proposal_audit q audit) (s\<lparr>st_proposals := dict_set (mp_id q) q (st_proposals s)\<rparr>)"
    by (simp add: reject_write_def save_proposal_review_def)
  then have tables: "st_proposals ?s = dict_set (mp_id q) q (st_proposals s)" "st_items ?s = st_items s"
    "st_idempotency ?s = st_idempotency s" "st_proposal_idempotency ?s = st_proposal_idempotency s"
    "st_turns ?s = st_turns s" "st_turn_idempotency ?s = st_turn_idempotency s" by simp_all
  have "proposals_ok ?s"
    using gw p proposals_ok_review [of s q p ?s] tables by (simp add: gateway_inv_def same_content_iff)
  moreover have "proposals_valid ?s"
    using gw q(2) unfolding gateway_inv_def proposals_valid_def tables(1) by simp
  moreover have "linked r ?s" if r: "dict_get (st_proposals ?s) i = Some r" "mp_status r = PAccepted" for i r
  proof -
    have "i \<noteq> mp_id q" using r q(1) by (auto simp: tables(1))
    with r have "dict_get (st_proposals s) i = Some r" by (simp add: tables(1))
    with r(2) show ?thesis using gw unfolding gateway_inv_def linked_cong [OF tables(2)] by blast
  qed
  ultimately have "gateway_inv ?s" unfolding gateway_inv_def by blast
  moreover have "ledger_ok ?s" using ok ledger_ok_cong [OF tables(2,3)] by (simp add: plane_ok_def)
  moreover have "turns_ok ?s" using ok turns_ok_cong [OF tables(5,6)] by (simp add: plane_ok_def)
  moreover have "proposals_kept s ?s"
    unfolding proposals_kept_def tables(1) using p q(1) by (auto simp: same_content_iff)
  ultimately show ?thesis using tables by (simp add: plane_ok_def plane_kept_def)
qed

lemma plane_step_ok:
  assumes step: "plane_step (s, R) (s', R')" and ok: "plane_ok s" and reads: "reads_ok (s, R)"
  shows "plane_ok s' \<and> reads_ok (s', R') \<and> plane_kept s s'"
  using step
proof (cases rule: plane_step_cases)
  case operated
  then have "plane_ok s' \<and> plane_kept s s'" using plane_op_ok [of s s'] ok plane_grows_kept by blast
  with reads_kept [OF reads] operated show ?thesis by (simp add: plane_kept_def)
next
  case (read now rv q)
  have "gateway_inv s" using ok by (simp add: plane_ok_def)
  from this read(2) obtain p where "dict_get (st_proposals s) (mp_id q) = Some p" "same_content p q"
    "mp_status q = PRejected" "valid_proposal q" by (blast elim: reject_read_pending)
  with read ok reads show ?thesis by (auto simp: reads_ok_def)
next
  case (written q audit)
  then obtain p where p: "mp_status q = PRejected" "valid_proposal q" "dict_get (st_proposals s) (mp_id q) = Some p"
    "same_content p q" using reads by (auto simp: reads_ok_def)
  note w = reject_written_step [OF ok p, of audit]
  have "reads_ok (s', R)" using reads_kept [OF reads] w written by (simp add: plane_kept_def)
  then have "reads_ok (s', R')" using written by (auto simp: reads_ok_def dest: notin_set_remove1 [THEN contrapos_nn])
  with w written show ?thesis by simp
qed

lemma plane_steps_ok:
  assumes "plane_step\<^sup>*\<^sup>* (s, R) (s', R')" and "plane_ok s" and "reads_ok (s, R)"
  shows "plane_ok s' \<and> reads_ok (s', R') \<and> plane_kept s s'"
  using assms(1)
proof (induction "(s', R')" arbitrary: s' R' rule: rtranclp_induct)
  case base
  show ?case using assms(2,3) by simp
next
  case (step y)
  obtain s1 R1 where y: "y = (s1, R1)" by fastforce
  with step have "plane_ok s1 \<and> reads_ok (s1, R1) \<and> plane_kept s s1" by blast
  with plane_step_ok [of s1 R1 s' R'] plane_kept_trans [of s s1 s'] step(2) y show ?case by blast
qed

lemma plane_ok_empty: "plane_ok empty_store"
  by (simp add: plane_ok_def empty_ledger_ok gateway_inv_empty empty_turns_ok)

lemma reads_ok_none [simp]: "reads_ok (s, [])"
  by (simp add: reads_ok_def)

section \<open>What the history keeps\<close>

text \<open>
  C10: Whatever operations run on a store that started empty, in whatever order and with whatever
  commands, rejections writing late included: the revision ledger stays unforked, every accepted proposal
  names its memory and every stored turn is well formed. A memory is never changed or removed, one that a
  search no longer finds never comes back, a proposal keeps its content and stays rejected once it is,
  and a stored turn keeps its identity, scope, instants and speakers, its texts kept or replaced by the
  purge marker.
\<close>

theorem plane_history:
  assumes "plane_step\<^sup>*\<^sup>* (empty_store, []) (s, R)" and "plane_step\<^sup>*\<^sup>* (s, R) (s', R')"
  shows "ledger_ok s' \<and> gateway_inv s' \<and> turns_ok s'
    \<and> (\<forall>i m. dict_get (st_items s) i = Some m \<longrightarrow> dict_get (st_items s') i = Some m
         \<and> (is_recallable_head (mi_tenant_id m) i s' \<longrightarrow> is_recallable_head (mi_tenant_id m) i s))
    \<and> (\<forall>i p. dict_get (st_proposals s) i = Some p \<longrightarrow> (\<exists>p'. dict_get (st_proposals s') i = Some p'
         \<and> same_content p p' \<and> (mp_status p = PRejected \<longrightarrow> mp_status p' = PRejected)))
    \<and> (\<forall>i t. dict_get (st_turns s) i = Some t \<longrightarrow> (\<exists>t'. dict_get (st_turns s') i = Some t' \<and> turn_succ t t'))"
proof -
  have ok: "plane_ok s" and reads: "reads_ok (s, R)"
    using plane_steps_ok [OF assms(1) plane_ok_empty reads_ok_none] by blast+
  have ok': "plane_ok s'" and kept: "plane_kept s s'" using plane_steps_ok [OF assms(2) ok reads] by blast+
  have keep: "dict_get (st_items s') i = Some m" if "dict_get (st_items s) i = Some m" for i m
    using kept that by (simp add: plane_kept_def memories_kept_def)
  have "is_recallable_head (mi_tenant_id m) i s"
    if m: "dict_get (st_items s) i = Some m" and r: "is_recallable_head (mi_tenant_id m) i s'" for i m
  proof -
    have "get_item (mi_tenant_id m) i s = Some m" "get_item (mi_tenant_id m) i s' = Some m"
      using m keep [OF m] by (simp_all add: get_item_Some)
    with r keep show ?thesis
      unfolding is_recallable_iff [OF plane_ok_items [OF ok]] is_recallable_iff [OF plane_ok_items [OF ok']] by auto
  qed
  with ok' keep kept show ?thesis
    by (simp add: plane_ok_def plane_kept_def turns_follow_def proposals_kept_def)
qed

abbreviation history_first :: store where
  "history_first \<equiv> snd (retain_service plain_guard (sample_fresh 1 21) (sample_command 7 8 (lit ''tea'') None) None empty_store)"

abbreviation history_second :: store where
  "history_second \<equiv> snd (retain_service plain_guard (sample_fresh 2 22) (sample_command 7 8 (lit ''milk'') None) None history_first)"

theorem plane_history_witness:
  "ledger_ok history_second \<and> (\<exists>m. dict_get (st_items history_second) 1 = Some m \<and> mi_text m = lit ''tea'')"
proof -
  have "unused empty_store (sample_fresh 1 21)" by (simp add: unused_def empty_store_def)
  then have one: "plane_step\<^sup>*\<^sup>* (empty_store, []) (history_first, [])"
    by (intro r_into_rtranclp plane_step.operated plane_op.retained)
  have "unused history_first (sample_fresh 2 22)" unfolding unused_def by code_simp
  then have two: "plane_step\<^sup>*\<^sup>* (history_first, []) (history_second, [])"
    by (intro r_into_rtranclp plane_step.operated plane_op.retained)
  have "case dict_get (st_items history_first) 1 of None \<Rightarrow> False | Some m \<Rightarrow> mi_text m = lit ''tea''" by code_simp
  then obtain m where "dict_get (st_items history_first) 1 = Some m" "mi_text m = lit ''tea''"
    by (auto split: option.splits)
  with plane_history [OF one two] show ?thesis by blast
qed

lemma accepted_stays:
  assumes "plane_step\<^sup>*\<^sup>* (s, R) (s', R')" and "plane_ok s" and "reads_ok (s, R)"
    and "dict_get (st_proposals s) i = Some p" and "mp_status p = PAccepted" and "\<forall>q \<in> set R. mp_id q \<noteq> i"
  shows "dict_get (st_proposals s') i = Some p \<and> (\<forall>q \<in> set R'. mp_id q \<noteq> i)"
  using assms(1)
proof (induction "(s', R')" arbitrary: s' R' rule: rtranclp_induct)
  case base
  show ?case using assms(4,6) by simp
next
  case (step y)
  obtain s1 R1 where y: "y = (s1, R1)" by fastforce
  with step have p: "dict_get (st_proposals s1) i = Some p" "\<forall>q \<in> set R1. mp_id q \<noteq> i" by blast+
  have inv: "plane_ok s1" "reads_ok (s1, R1)" using plane_steps_ok [OF _ assms(2,3)] step(1) y by blast+
  from step(2) have "plane_step (s1, R1) (s', R')" by (simp add: y)
  then show ?case
  proof (cases rule: plane_step_cases)
    case operated
    then have "plane_grows s1 s'" using plane_op_ok [of s1 s'] inv(1) by blast
    then obtain p' where "dict_get (st_proposals s') i = Some p'" "review_succ p p'"
      using p(1) unfolding plane_grows_def reviews_follow_def by blast
    with p(2) operated assms(5) show ?thesis by (simp add: review_succ_def)
  next
    case (read now rv q)
    have "gateway_inv s1" using inv(1) by (simp add: plane_ok_def)
    from this read(2) obtain p' where "dict_get (st_proposals s1) (mp_id q) = Some p'" "mp_status p' \<noteq> PAccepted"
      by (blast elim: reject_read_pending)
    then have "mp_id q \<noteq> i" using p(1) assms(5) by auto
    with read p show ?thesis by simp
  next
    case (written q audit)
    then obtain p' where q: "mp_status q = PRejected" "valid_proposal q" "dict_get (st_proposals s1) (mp_id q) = Some p'"
      "same_content p' q" using inv(2) by (auto simp: reads_ok_def)
    have "mp_id q \<noteq> i" using p(2) written by blast
    then show ?thesis using reject_written_step [OF inv(1) q, of audit] p written
      by (auto dest: notin_set_remove1 [THEN contrapos_nn])
  qed
qed

text \<open>
  C98: An acceptance is permanent unless a rejection is already under way. In a store that satisfies the
  invariants, an accepted proposal that no rejection in flight has read is the same accepted proposal
  after any further steps, rejections of anything included, and the memory its link names is the same
  stored memory, in the proposal's tenant. (A rejection that read the proposal before it was accepted
  still overwrites the acceptance: \<open>late_rejection_overwrites_acceptance\<close>.)
\<close>

theorem acceptance_is_permanent:
  assumes "plane_ok s" and "reads_ok (s, R)" and "plane_step\<^sup>*\<^sup>* (s, R) (s', R')"
    and "get_proposal t i s = Some p" and "mp_status p = PAccepted" and "\<forall>q \<in> set R. mp_id q \<noteq> i"
  shows "get_proposal t i s' = Some p
    \<and> (\<exists>m. accepted_memory p s = Some m \<and> accepted_memory p s' = Some m \<and> mi_tenant_id m = t)"
proof -
  have ok': "plane_ok s'" and kept: "plane_kept s s'" using plane_steps_ok [OF assms(3,1,2)] by blast+
  have p: "dict_get (st_proposals s) i = Some p" "mp_tenant_id p = t" using assms(4) by (simp_all add: get_proposal_Some)
  have p': "dict_get (st_proposals s') i = Some p"
    using accepted_stays [OF assms(3,1,2) p(1) assms(5,6)] by blast
  have "linked p s" using assms(1,5) p(1) unfolding plane_ok_def gateway_inv_def by blast
  then obtain m where m: "dict_get (mp_metadata p) (lit ''accepted_memory_id'') = Some (PStr (uuid_str (mi_id m)))"
    "dict_get (st_items s) (mi_id m) = Some m" "mi_tenant_id m = mp_tenant_id p"
    unfolding linked_def by blast
  have m': "dict_get (st_items s') (mi_id m) = Some m"
    using kept m(2) by (simp add: plane_kept_def memories_kept_def)
  have "dict_ok (st_items s)" "dict_ok (st_items s')"
    using plane_ok_items [OF assms(1)] plane_ok_items [OF ok'] by (simp_all add: items_ok_def table_ok_def)
  from find_by_printed_id [OF this(1) m(2)] find_by_printed_id [OF this(2) m'] m(1,3) p p'
  show ?thesis by (simp add: accepted_memory_def get_proposal_Some)
qed

theorem acceptance_is_permanent_witness:
  "\<exists>p m s'. s' = snd (retain_service plain_guard (sample_fresh 5 25) (sample_command 7 8 (lit ''milk'') None) None
       (snd sample_acceptance)) \<and> mp_status p = PAccepted
     \<and> get_proposal 7 3 s' = Some p \<and> accepted_memory p s' = Some m"
proof -
  obtain res y where r: "fst sample_acceptance = Inr res" "rw_retained res = Some y" "rr_created y"
    by (rule sample_acceptance_result)
  have new: "unused proposal_store (sample_fresh 1 21)" unfolding unused_def by code_simp
  have start: "plane_ok proposal_store"
    using empty_ledger_ok empty_turns_ok ledger_ok_cong [of proposal_store empty_store] turns_ok_cong [of proposal_store empty_store]
      proposal_store_inv by (simp add: plane_ok_def proposal_store_def append_proposal_def idempotent_insert_def)
  then have ok: "plane_ok (snd sample_acceptance)" using accepted_step [OF start new] by blast
  have call: "sample_acceptance = (fst sample_acceptance, snd sample_acceptance)" by simp
  from proposal_store_inv call
  obtain p where p: "get_proposal 7 3 (snd sample_acceptance) = Some p" "mp_status p = PAccepted"
  proof (cases rule: accept_written_cases)
    case unwritten
    with r show thesis by blast
  next
    case (written cur p' item event rc sk)
    from written(2) have cur: "cur = sample_proposal 3 7 8 10"
      by (simp add: get_proposal_Some proposal_store_rows)
    with written(9) have p': "mp_tenant_id p' = 7" by (simp add: same_content_iff) (simp add: sample_proposal_def)
    from cur have "mp_id cur = 3" by (simp add: sample_proposal_def)
    with written(8,13) p' show thesis by (intro that [of p']) (simp_all add: get_proposal_Some)
  qed
  have "unused (snd sample_acceptance) (sample_fresh 5 25)" unfolding unused_def by code_simp
  then have "plane_step\<^sup>*\<^sup>* (snd sample_acceptance, []) (snd (retain_service plain_guard (sample_fresh 5 25)
      (sample_command 7 8 (lit ''milk'') None) None (snd sample_acceptance)), [])"
    by (intro r_into_rtranclp plane_step.operated plane_op.retained)
  from acceptance_is_permanent [OF ok reads_ok_none this p] p(2) show ?thesis by auto
qed

end
