(* ===== verification/VectorIndex.thy ===== *)
theory VectorIndex
  imports EventEnvelope Retrieval StoreItems
begin

text \<open>
  The vector index (\<open>adapters/qdrant.py\<close>): points written per memory or per workspace, the in-memory
  backend, the search over it and over a Qdrant server, and the payload in which a memory travels to
  the server and back. The server's client, the embedding provider and \<open>blake2b\<close> are parameters.
\<close>

section \<open>The index\<close>

record vector_index =
  vx_dense_dim :: nat
  vx_model :: "str option"
  vx_points :: "(uuid, memory_item \<times> real list) dict"

definition source_name :: str where
  "source_name = lit ''qdrant_hybrid''"

definition validate_vector_dimensions :: "(memory_item \<times> real list) list \<Rightarrow> vector_index \<Rightarrow> unit res" where
  "validate_vector_dimensions pairs x =
    (if list_all (\<lambda>(item, vector). length vector = vx_dense_dim x) pairs then Inr ()
     else Inl (ValueError (lit ''dense vector dimension mismatch'')))"

definition validate_write_model :: "str option \<Rightarrow> vector_index \<Rightarrow> unit res \<times> vector_index" where
  "validate_write_model model_name x =
    (case (model_name, vx_model x) of
       (None, None) \<Rightarrow> (Inr (), x)
     | (None, Some _) \<Rightarrow> (Inl (ValueError (lit ''model_name is required for an identified Qdrant collection'')), x)
     | (Some n, None) \<Rightarrow> (Inr (), x\<lparr>vx_model := Some n\<rparr>)
     | (Some n, Some c) \<Rightarrow> if n \<noteq> c then (Inl (ValueError (lit ''embedding model does not match collection model'')), x)
         else (Inr (), x))"

definition upsert_in_memory :: "memory_item \<Rightarrow> real list \<Rightarrow> vector_index \<Rightarrow> vector_index" where
  "upsert_in_memory item vector x = x\<lparr>vx_points := dict_set (mi_id item) (item, vector) (vx_points x)\<rparr>"

definition delete_in_memory :: "uuid \<Rightarrow> vector_index \<Rightarrow> vector_index" where
  "delete_in_memory i x = x\<lparr>vx_points := dict_del i (vx_points x)\<rparr>"

definition in_scope :: "uuid \<Rightarrow> uuid \<Rightarrow> memory_item \<Rightarrow> bool" where
  "in_scope tenant_id workspace_id item \<longleftrightarrow> mi_tenant_id item = tenant_id \<and> mi_workspace_id item = workspace_id"

definition replacement_points :: "(memory_item \<times> real list) list \<Rightarrow> (uuid, memory_item \<times> real list) dict" where
  "replacement_points pairs = foldl (\<lambda>d (item, vector). dict_set (mi_id item) (item, vector) d) [] pairs"

definition sync_workspace_in_memory ::
  "uuid \<Rightarrow> uuid \<Rightarrow> (memory_item \<times> real list) list \<Rightarrow> vector_index \<Rightarrow> vector_index"
where
  "sync_workspace_in_memory tenant_id workspace_id pairs x =
    (let replacement = replacement_points pairs;
         stale_ids = map fst (filter (\<lambda>(i, item, vector). in_scope tenant_id workspace_id item
           \<and> dict_get replacement i = None) (vx_points x))
     in x\<lparr>vx_points := foldl (\<lambda>d i. dict_del i d) (dict_merge (vx_points x) replacement) stale_ids\<rparr>)"

definition upsert :: "memory_item \<Rightarrow> real list \<Rightarrow> str option \<Rightarrow> vector_index \<Rightarrow> unit res \<times> vector_index" where
  "upsert item vector model_name x =
    (case validate_vector_dimensions [(item, vector)] x of
       Inl e \<Rightarrow> (Inl e, x)
     | Inr _ \<Rightarrow> (case validate_write_model model_name x of
         (Inl e, x1) \<Rightarrow> (Inl e, x1)
       | (Inr _, x1) \<Rightarrow> (Inr (), upsert_in_memory item vector x1)))"

definition delete_point :: "uuid \<Rightarrow> vector_index \<Rightarrow> unit res \<times> vector_index" where
  "delete_point i x = (Inr (), delete_in_memory i x)"

definition sync_workspace ::
  "uuid \<Rightarrow> uuid \<Rightarrow> (memory_item \<times> real list) list \<Rightarrow> str option \<Rightarrow> vector_index \<Rightarrow> unit res \<times> vector_index"
where
  "sync_workspace tenant_id workspace_id pairs model_name x =
    (if \<not> list_all (\<lambda>(item, vector). in_scope tenant_id workspace_id item) pairs then
       (Inl (ValueError (lit ''workspace sync contains an item outside its boundary'')), x)
     else case validate_vector_dimensions pairs x of
       Inl e \<Rightarrow> (Inl e, x)
     | Inr _ \<Rightarrow> (case validate_write_model model_name x of
         (Inl e, x1) \<Rightarrow> (Inl e, x1)
       | (Inr _, x1) \<Rightarrow> (Inr (), sync_workspace_in_memory tenant_id workspace_id pairs x1)))"

definition count_workspace_points :: "uuid \<Rightarrow> uuid \<Rightarrow> vector_index \<Rightarrow> nat" where
  "count_workspace_points tenant_id workspace_id x =
    length (filter (\<lambda>(item, vector). in_scope tenant_id workspace_id item) (dict_values (vx_points x)))"

section \<open>Searching the in-memory backend\<close>

definition recallable_head_ids :: "store option \<Rightarrow> memory_item list \<Rightarrow> uuid set" where
  "recallable_head_ids ledger items =
    (case ledger of
       None \<Rightarrow> set (map mi_id items)
     | Some s \<Rightarrow> foldl (\<lambda>allowed (tenant_id, rows). allowed \<union> filter_recallable_heads tenant_id (map mi_id rows) s)
         {} (group_by mi_tenant_id items))"

definition matches_filter :: "recall_query \<Rightarrow> memory_item \<Rightarrow> bool" where
  "matches_filter query item \<longleftrightarrow>
     mi_tenant_id item = rq_tenant_id query \<and> mi_workspace_id item = rq_workspace_id query
   \<and> (rq_layers query = [] \<or> mi_layer item \<in> set (rq_layers query))
   \<and> (rq_labels query = [] \<or> set (rq_labels query) \<subseteq> set (mi_labels item))
   \<and> \<not> (mi_scope item = Thread \<and> mi_thread_id item \<noteq> rq_thread_id query)
   \<and> \<not> (mi_scope item = Private \<and> mi_agent_id item \<noteq> rq_agent_id query)
   \<and> mi_status item \<notin> {Rejected, Archived}"

definition norm2 :: "real list \<Rightarrow> real" where
  "norm2 v = sqrt (sum_list (map (\<lambda>a. a * a) v))"

definition bounded_cosine :: "real list \<Rightarrow> real list \<Rightarrow> real" where
  "bounded_cosine left right =
    (if length left \<noteq> length right then 0
     else let dot = sum_list (map2 (*) left right);
              cosine = dot / max (norm2 left * norm2 right) (1 / 10 ^ 12)
          in max 0 (min 1 ((cosine + 1) / 2)))"

definition mean_signal :: "real list \<Rightarrow> real" where
  "mean_signal v = max 0 (min 1 (sum_list v / real (max 1 (length v))))"

definition vector_candidate :: "recall_query \<Rightarrow> real \<Rightarrow> memory_item \<Rightarrow> candidate" where
  "vector_candidate query semantic item =
    (let lexical = lexical_overlap (terms (rq_text query)) (terms (mi_text item)) in
     \<lparr>ca_item = item, ca_source = source_name, ca_semantic = semantic, ca_lexical = lexical, ca_entity = lexical,
      ca_recency = 0, ca_trust = mi_confidence item, ca_final_score = 0\<rparr>)"

definition search_in_memory ::
  "(str \<Rightarrow> real list res) option \<Rightarrow> store option \<Rightarrow> recall_query \<Rightarrow> vector_index \<Rightarrow> candidate list res"
where
  "search_in_memory embed_query ledger query x =
    res_bind (case embed_query of None \<Rightarrow> Inr None | Some f \<Rightarrow> res_bind (f (rq_text query)) (\<lambda>v. Inr (Some v)))
      (\<lambda>query_vector.
        let stored = dict_values (vx_points x);
            superseded_ids = map (mi_supersedes_id \<circ> fst) stored;
            recallable_ids = recallable_head_ids ledger (map fst stored);
            results = map (\<lambda>(item, vec). vector_candidate query
                (case query_vector of Some v \<Rightarrow> bounded_cosine v vec | None \<Rightarrow> mean_signal vec) item)
              (filter (\<lambda>(item, vec). Some (mi_id item) \<notin> set superseded_ids \<and> mi_id item \<in> recallable_ids
                 \<and> matches_filter query item) stored)
        in Inr (py_take (rq_top_k query) (sort_key_desc (\<lambda>c. ca_semantic c + ca_lexical c) results)))"

section \<open>The payload of a point\<close>

definition layers_all :: "memory_layer list" where
  "layers_all = [Working, Core, Episodic, Semantic, Procedural, Social, Reflection, Error]"

definition scopes_all :: "memory_scope list" where
  "scopes_all = [Private, Thread, Team, Workspace, Organization]"

definition statuses_all :: "memory_status list" where
  "statuses_all = [Active, Stale, Deprecated, Disputed, Hypothesis, Rejected, Archived, Pinned]"

fun scope_value :: "memory_scope \<Rightarrow> str" where
  "scope_value Private = lit ''private''"
| "scope_value Thread = lit ''thread''"
| "scope_value Team = lit ''team''"
| "scope_value Workspace = lit ''workspace''"
| "scope_value Organization = lit ''organization''"

text \<open>\<open>MemoryLayer(text)\<close>: the member with that value, or \<open>ValueError\<close>.\<close>

definition enum_of :: "('a \<Rightarrow> str) \<Rightarrow> 'a list \<Rightarrow> str \<Rightarrow> 'a res" where
  "enum_of val members txt = (case find (\<lambda>m. val m = txt) members of
     None \<Rightarrow> Inl (ValueError (lit ''not a valid enumeration value'')) | Some m \<Rightarrow> Inr m)"

definition optional_id :: "uuid option \<Rightarrow> pyval" where
  "optional_id i = (case i of None \<Rightarrow> PNone | Some u \<Rightarrow> PStr (uuid_str u))"

definition item_to_payload :: "bool \<Rightarrow> memory_item \<Rightarrow> metadata" where
  "item_to_payload include_text item =
    [(lit ''memory_id'', PStr (uuid_str (mi_id item))), (lit ''tenant_id'', PStr (uuid_str (mi_tenant_id item))),
     (lit ''workspace_id'', PStr (uuid_str (mi_workspace_id item))),
     (lit ''agent_id'', optional_id (mi_agent_id item)), (lit ''thread_id'', optional_id (mi_thread_id item)),
     (lit ''layer'', PStr (layer_value (mi_layer item))), (lit ''scope'', PStr (scope_value (mi_scope item))),
     (lit ''kind'', PStr (mi_kind item)), (lit ''labels'', PList (map PStr (mi_labels item))),
     (lit ''status'', PStr (status_value (mi_status item))), (lit ''importance'', PFloat (mi_importance item)),
     (lit ''salience'', PFloat (mi_salience item)), (lit ''confidence'', PFloat (mi_confidence item)),
     (lit ''created_at'', PStr (isoformat (mi_created_at item))), (lit ''revision'', PInt (mi_revision item)),
     (lit ''supersedes_id'', optional_id (mi_supersedes_id item))]
    @ (if include_text then [(lit ''text'', PStr (mi_text item))] else [(lit ''text_redacted'', PBool True)])"

text \<open>\<open>UUID(str(value)) if value else None\<close>, and \<open>UUID(str(payload[key]))\<close>.\<close>

definition id_or_none :: "runtime \<Rightarrow> pyval \<Rightarrow> uuid option res" where
  "id_or_none rt v = (if truthy v then res_bind (parse_uuid (py_str rt v)) (\<lambda>u. Inr (Some u)) else Inr None)"

definition required_text :: "runtime \<Rightarrow> metadata \<Rightarrow> str \<Rightarrow> str res" where
  "required_text rt payload k = res_bind (field payload k) (\<lambda>v. Inr (py_str rt v))"

text \<open>
  Infinities and NaN fail the constructor's unit check as any number above one does; they are read as
  the number two.
\<close>

definition score_field :: "metadata \<Rightarrow> str \<Rightarrow> real \<Rightarrow> real res" where
  "score_field payload k dflt =
    res_bind (py_float (py_or (py_get payload k) (PFloat dflt)))
      (\<lambda>x. Inr (case x of Fin r \<Rightarrow> r | _ \<Rightarrow> 2))"

definition payload_provenance :: provenance where
  "payload_provenance = \<lparr>pv_source_kind = lit ''qdrant-payload'', pv_origin_uri = None, pv_object_key = None,
     pv_checksum_sha256 = None, pv_quote = None, pv_extraction_version = lit ''manual-v1''\<rparr>"

definition payload_labels :: "runtime \<Rightarrow> metadata \<Rightarrow> str list" where
  "payload_labels rt payload = (case py_or (py_get payload (lit ''labels'')) (PList []) of
     PList xs \<Rightarrow> map (py_str rt) xs | _ \<Rightarrow> [])"

definition payload_to_item ::
  "runtime \<Rightarrow> (str \<Rightarrow> datetime res) \<Rightarrow> datetime \<Rightarrow> datetime \<Rightarrow> metadata \<Rightarrow> memory_item res"
where
  "payload_to_item rt other now observed_at payload =
    res_bind (let c = py_get payload (lit ''created_at'') in
        if truthy c then fromisoformat other (py_str rt c) else Inr now) (\<lambda>created_at.
    res_bind (res_bind (required_text rt payload (lit ''memory_id'')) parse_uuid) (\<lambda>i.
    res_bind (res_bind (required_text rt payload (lit ''tenant_id'')) parse_uuid) (\<lambda>t.
    res_bind (res_bind (required_text rt payload (lit ''workspace_id'')) parse_uuid) (\<lambda>w.
    res_bind (id_or_none rt (py_get payload (lit ''agent_id''))) (\<lambda>agent_id.
    res_bind (id_or_none rt (py_get payload (lit ''thread_id''))) (\<lambda>thread_id.
    res_bind (res_bind (required_text rt payload (lit ''layer'')) (enum_of layer_value layers_all)) (\<lambda>layer.
    res_bind (res_bind (required_text rt payload (lit ''scope'')) (enum_of scope_value scopes_all)) (\<lambda>scope.
    res_bind (enum_of status_value statuses_all
        (py_str rt (py_or (py_get payload (lit ''status'')) (PStr (status_value Active))))) (\<lambda>status.
    res_bind (score_field payload (lit ''importance'') (1/2)) (\<lambda>importance.
    res_bind (score_field payload (lit ''salience'') (1/2)) (\<lambda>salience.
    res_bind (score_field payload (lit ''confidence'') (7/10)) (\<lambda>confidence.
    res_bind (py_int (py_or (py_get payload (lit ''revision'')) (PInt 1))) (\<lambda>revision.
    res_bind (id_or_none rt (py_get payload (lit ''supersedes_id''))) (\<lambda>supersedes_id.
    memory_item_post_init
      \<lparr>mi_id = i, mi_tenant_id = t, mi_workspace_id = w, mi_layer = layer, mi_scope = scope,
       mi_kind = py_str rt (py_or (py_get payload (lit ''kind'')) (PStr (lit ''fact''))),
       mi_text = py_str rt (py_or (py_get payload (lit ''text'')) (PStr [])),
       mi_provenance = payload_provenance, mi_agent_id = agent_id, mi_thread_id = thread_id,
       mi_labels = payload_labels rt payload, mi_metadata = [], mi_status = status,
       mi_importance = importance, mi_salience = salience, mi_confidence = confidence,
       mi_observed_at = observed_at, mi_valid_from = None, mi_valid_to = None, mi_created_at = created_at,
       mi_revision = revision, mi_supersedes_id = supersedes_id\<rparr>))))))))))))))"

definition payload_to_candidate_item ::
  "runtime \<Rightarrow> (str \<Rightarrow> datetime res) \<Rightarrow> datetime \<Rightarrow> datetime \<Rightarrow> store option \<Rightarrow> metadata \<Rightarrow> memory_item res"
where
  "payload_to_candidate_item rt other now observed_at ledger payload =
    (case ledger of
       Some s \<Rightarrow>
         if truthy (py_get payload (lit ''text'')) then payload_to_item rt other now observed_at payload
         else res_bind (res_bind (required_text rt payload (lit ''memory_id'')) parse_uuid) (\<lambda>i.
              res_bind (res_bind (required_text rt payload (lit ''tenant_id'')) parse_uuid) (\<lambda>t.
              case get_item t i s of Some hydrated \<Rightarrow> Inr hydrated
              | None \<Rightarrow> payload_to_item rt other now observed_at payload))
     | None \<Rightarrow> payload_to_item rt other now observed_at payload)"

section \<open>Searching a server\<close>

type_synonym qdrant_filter = "(str \<times> str) list"
type_synonym sparse = "int list \<times> real list"

record scored_point =
  sp_payload :: "metadata option"
  sp_score :: real

record qdrant_client =
  qc_query :: "(real list \<Rightarrow> qdrant_filter \<Rightarrow> int \<Rightarrow> scored_point list res) option"
  qc_fused :: "real list \<Rightarrow> sparse \<Rightarrow> qdrant_filter \<Rightarrow> int \<Rightarrow> scored_point list res"
  qc_search :: "(real list \<Rightarrow> qdrant_filter \<Rightarrow> int \<Rightarrow> scored_point list res) option"
  qc_fusion :: bool

definition count_terms :: "str list \<Rightarrow> (str, int) dict" where
  "count_terms ts = foldl (\<lambda>d t. dict_set t ((case dict_get d t of None \<Rightarrow> 0 | Some n \<Rightarrow> n) + 1) d) [] ts"

definition sparse_weights :: "(str \<Rightarrow> int) \<Rightarrow> str \<Rightarrow> (int, real) dict" where
  "sparse_weights digest txt = foldl (\<lambda>d (t, n). dict_set (digest t)
      ((case dict_get d (digest t) of None \<Rightarrow> 0 | Some r \<Rightarrow> r) + real_of_int n) d) []
    (count_terms (map casefold (find_words txt)))"

definition sparse_vector :: "(str \<Rightarrow> int) \<Rightarrow> str \<Rightarrow> sparse" where
  "sparse_vector digest txt =
    (let weights = sparse_weights digest txt; indices = sort (map fst weights)
     in (indices, map (\<lambda>i. case dict_get weights i of None \<Rightarrow> 0 | Some r \<Rightarrow> r) indices))"

definition query_points :: "qdrant_client \<Rightarrow> real list \<Rightarrow> qdrant_filter \<Rightarrow> int \<Rightarrow> scored_point list res" where
  "query_points qc vector flt limit =
    (case qc_query qc of
       Some f \<Rightarrow> f vector flt limit
     | None \<Rightarrow> (case qc_search qc of
         Some f \<Rightarrow> f vector flt limit
       | None \<Rightarrow> Inl (RuntimeError (lit ''qdrant client exposes neither query_points nor search''))))"

definition query_hybrid_points ::
  "qdrant_client \<Rightarrow> real list \<Rightarrow> sparse \<Rightarrow> qdrant_filter \<Rightarrow> int \<Rightarrow> scored_point list res"
where
  "query_hybrid_points qc vector sv flt limit =
    (if qc_query qc = None \<or> \<not> qc_fusion qc then query_points qc vector flt limit
     else case qc_fused qc vector sv flt limit of
       Inl (TypeError _) \<Rightarrow> query_points qc vector flt limit
     | r \<Rightarrow> r)"

definition query_filters :: "recall_query \<Rightarrow> qdrant_filter list" where
  "query_filters query =
    (let must = [(lit ''tenant_id'', uuid_str (rq_tenant_id query)),
                 (lit ''workspace_id'', uuid_str (rq_workspace_id query))]
          @ map (\<lambda>label. (lit ''labels'', label)) (rq_labels query)
     in if rq_layers query = [] then [must]
        else map (\<lambda>layer. must @ [(lit ''layer'', layer_value layer)]) (rq_layers query))"

record qdrant_env =
  qe_runtime :: runtime
  qe_other :: "str \<Rightarrow> datetime res"
  qe_now :: datetime
  qe_digest :: "str \<Rightarrow> int"
  qe_embed :: "(str \<Rightarrow> real list res) option"
  qe_ledger :: "store option"
  qe_client :: qdrant_client

definition hydrated_point :: "qdrant_env \<Rightarrow> scored_point \<Rightarrow> (scored_point \<times> memory_item) res" where
  "hydrated_point env row =
    res_bind (payload_to_candidate_item (qe_runtime env) (qe_other env) (qe_now env) (qe_now env) (qe_ledger env)
        (case sp_payload row of None \<Rightarrow> [] | Some p \<Rightarrow> p)) (\<lambda>item. Inr (row, item))"

text \<open>The loop stops after the append that reaches \<open>top_k\<close>.\<close>

definition server_candidates ::
  "store option \<Rightarrow> recall_query \<Rightarrow> (scored_point \<times> memory_item) list \<Rightarrow> candidate list"
where
  "server_candidates ledger query hydrated =
    (let recallable_ids = recallable_head_ids ledger (map snd hydrated)
     in take (nat (max 1 (rq_top_k query)))
       (map (\<lambda>(row, item). vector_candidate query (max 0 (min 1 (sp_score row))) item)
         (filter (\<lambda>(row, item). mi_id item \<in> recallable_ids \<and> matches_filter query item) hydrated)))"

definition search_qdrant :: "qdrant_env \<Rightarrow> nat \<Rightarrow> recall_query \<Rightarrow> candidate list res" where
  "search_qdrant env dense_dim query =
    (case qe_embed env of
       None \<Rightarrow> Inl (DependencyFailure (lit ''NotImplementedError''))
     | Some emb \<Rightarrow>
         res_bind (emb (rq_text query)) (\<lambda>query_vector.
         if length query_vector \<noteq> dense_dim then Inl (RuntimeError (lit ''query embedding dimension mismatch''))
         else res_bind (res_map (\<lambda>flt. query_hybrid_points (qe_client env) query_vector
                (sparse_vector (qe_digest env) (rq_text query)) flt (max (rq_top_k query * 3) (rq_top_k query)))
              (query_filters query)) (\<lambda>rows.
            res_bind (res_map (hydrated_point env) (concat rows)) (\<lambda>hydrated.
            Inr (server_candidates (qe_ledger env) query hydrated)))))"

section \<open>Which collection a process may write to\<close>

text \<open>
  \<open>_scan_existing_model_names\<close> over the payloads of all pages, then the decision of
  \<open>_validate_collection_identity\<close>: the point it writes when the collection has no identity yet.
\<close>

definition metadata_record :: str where
  "metadata_record = lit ''collection_metadata''"

definition existing_model_names :: "runtime \<Rightarrow> metadata list \<Rightarrow> str list res" where
  "existing_model_names rt payloads =
    (let points = filter (\<lambda>p. py_get p (lit ''_uam_record_type'') \<noteq> PStr metadata_record) payloads;
         models = map (\<lambda>p. py_get p (lit ''model_name'')) points
     in if list_ex (\<lambda>v. \<not> truthy v) models then
          Inl (RuntimeError (lit ''Qdrant collection contains points without a verifiable embedding model''))
        else Inr (remdups (map (py_str rt) models)))"

definition number_is :: "pyval \<Rightarrow> nat \<Rightarrow> bool" where
  "number_is v n = (case v of PInt i \<Rightarrow> i = int n | PFloat r \<Rightarrow> r = real n | PBool b \<Rightarrow> (if b then 1 else 0) = n | _ \<Rightarrow> False)"

definition validate_collection_identity ::
  "runtime \<Rightarrow> str option \<Rightarrow> nat option \<Rightarrow> metadata option \<Rightarrow> metadata list \<Rightarrow> vector_index
    \<Rightarrow> metadata option res \<times> vector_index"
where
  "validate_collection_identity rt expected actual_dimension stored payloads x =
    (if actual_dimension \<noteq> Some (vx_dense_dim x) then
       (Inl (RuntimeError (lit ''Qdrant collection dense dimension differs'')), x)
     else case given expected of
       None \<Rightarrow> (Inr None, x)
     | Some model \<Rightarrow>
         (case stored of
            Some payload \<Rightarrow>
              if py_get payload (lit ''model_name'') \<noteq> PStr model
                 \<or> \<not> number_is (py_get payload (lit ''dimension'')) (vx_dense_dim x)
              then (Inl (RuntimeError (lit ''Qdrant collection belongs to another model'')), x)
              else (Inr None, x\<lparr>vx_model := Some model\<rparr>)
          | None \<Rightarrow>
              (case existing_model_names rt payloads of
                 Inl e \<Rightarrow> (Inl e, x)
               | Inr observed \<Rightarrow>
                   if observed \<noteq> [] \<and> set observed \<noteq> {model}
                   then (Inl (RuntimeError (lit ''Qdrant collection contains other model identities'')), x)
                   else (Inr (Some [(lit ''_uam_record_type'', PStr metadata_record), (lit ''model_name'', PStr model),
                           (lit ''dimension'', PInt (int (vx_dense_dim x)))]), x\<lparr>vx_model := Some model\<rparr>))))"

section \<open>Points after a write\<close>

lemma get_replacement:
  "dict_get (replacement_points pairs) i
    = (find (\<lambda>(item, vector). mi_id item = i) (rev pairs))"
proof -
  have "dict_get (foldl (\<lambda>d (item, vector). dict_set (mi_id item) (item, vector) d) d pairs) i
      = (case find (\<lambda>(item, vector). mi_id item = i) (rev pairs) of None \<Rightarrow> dict_get d i | Some p \<Rightarrow> Some p)" for d
    by (induction pairs arbitrary: d rule: rev_induct) auto
  then show ?thesis by (simp add: replacement_points_def split: option.split)
qed

lemma get_replacement_distinct:
  assumes "distinct (map (mi_id \<circ> fst) pairs)"
  shows "dict_get (replacement_points pairs) i = Some p \<longleftrightarrow> p \<in> set pairs \<and> mi_id (fst p) = i"
proof -
  have "find (\<lambda>(item, vector). mi_id item = i) (rev pairs) = Some p" if "p \<in> set pairs" "mi_id (fst p) = i"
  proof (cases "find (\<lambda>(item, vector). mi_id item = i) (rev pairs)")
    case None
    have "\<not> (\<exists>x. x \<in> set (rev pairs) \<and> (case x of (item, vector) \<Rightarrow> mi_id item = i))"
      using None unfolding find_None_iff .
    moreover have "p \<in> set (rev pairs) \<and> (case p of (item, vector) \<Rightarrow> mi_id item = i)"
      using that by (simp add: case_prod_unfold)
    ultimately show ?thesis by blast
  next
    case (Some q)
    then have "q \<in> set pairs" "mi_id (fst q) = i" by (auto dest: find_SomeD)
    with that assms have "q = p" by (auto simp: distinct_map inj_on_def)
    with Some show ?thesis by simp
  qed
  then show ?thesis unfolding get_replacement by (auto dest: find_SomeD)
qed

lemma replacement_ok [simp]: "dict_ok (replacement_points pairs)"
proof -
  have "dict_ok d \<Longrightarrow> dict_ok (foldl (\<lambda>d (item, vector). dict_set (mi_id item) (item, vector) d) d pairs)" for d
    by (induction pairs arbitrary: d) auto
  then show ?thesis by (simp add: replacement_points_def)
qed

definition points_ok :: "vector_index \<Rightarrow> bool" where
  "points_ok x \<longleftrightarrow> table_ok (mi_id \<circ> fst) (vx_points x)"

lemma points_ok_upsert: "points_ok x \<Longrightarrow> points_ok (upsert_in_memory item vector x)"
  by (auto simp: points_ok_def upsert_in_memory_def table_ok_def)

lemma points_ok_delete: "points_ok x \<Longrightarrow> points_ok (delete_in_memory i x)"
  by (auto simp: points_ok_def delete_in_memory_def table_ok_def dict_get_del)

lemma get_synced:
  assumes "points_ok x" and "distinct (map (mi_id \<circ> fst) pairs)"
  shows "dict_get (vx_points (sync_workspace_in_memory t w pairs x)) i =
    (case dict_get (replacement_points pairs) i of
       Some p \<Rightarrow> Some p
     | None \<Rightarrow> (case dict_get (vx_points x) i of
         None \<Rightarrow> None | Some p \<Rightarrow> if in_scope t w (fst p) then None else Some p))"
proof -
  have ok: "dict_ok (vx_points x)" using assms(1) by (simp add: points_ok_def table_ok_def)
  let ?stale = "map fst (filter (\<lambda>(i, item, vector). in_scope t w item
      \<and> dict_get (replacement_points pairs) i = None) (vx_points x))"
  have stale: "i \<in> set ?stale \<longleftrightarrow> (\<exists>p. dict_get (vx_points x) i = Some p \<and> in_scope t w (fst p))
      \<and> dict_get (replacement_points pairs) i = None"
    using ok by (force simp: dict_get_set_mem)
  have merged: "dict_get (dict_merge (vx_points x) (replacement_points pairs)) i
      = (case dict_get (replacement_points pairs) i of None \<Rightarrow> dict_get (vx_points x) i | Some p \<Rightarrow> Some p)"
    by (simp add: dict_merge_get dict_get_rev split: option.split)
  show ?thesis
    unfolding sync_workspace_in_memory_def Let_def
    by (simp add: get_deleted merged) (use stale in \<open>auto split: option.split\<close>)
qed

lemma points_ok_sync:
  assumes "points_ok x" and "distinct (map (mi_id \<circ> fst) pairs)"
  shows "points_ok (sync_workspace_in_memory t w pairs x)"
proof -
  have "dict_ok (vx_points (sync_workspace_in_memory t w pairs x))"
    using assms(1) by (simp add: sync_workspace_in_memory_def Let_def deleted_ok dict_merge_ok points_ok_def table_ok_def)
  moreover have "mi_id (fst p) = i" if "dict_get (vx_points (sync_workspace_in_memory t w pairs x)) i = Some p" for i p
    using that assms unfolding get_synced [OF assms]
    by (auto simp: get_replacement_distinct [OF assms(2)] points_ok_def table_ok_def split: option.splits if_splits)
  ultimately show ?thesis by (simp add: points_ok_def table_ok_def)
qed

section \<open>What a search may return\<close>

lemma recallable_heads_mem:
  "i \<in> recallable_head_ids ledger items \<longleftrightarrow>
    (\<exists>item \<in> set items. mi_id item = i \<and> (\<forall>s. ledger = Some s \<longrightarrow> is_recallable_head (mi_tenant_id item) i s))"
proof (cases ledger)
  case None
  then show ?thesis by (auto simp: recallable_head_ids_def)
next
  case (Some s)
  have union: "i \<in> foldl (\<lambda>allowed (t, rows). allowed \<union> filter_recallable_heads t (map mi_id rows) s) A groups
      \<longleftrightarrow> i \<in> A \<or> (\<exists>(t, rows) \<in> set groups. i \<in> filter_recallable_heads t (map mi_id rows) s)" for A groups
    by (induction groups arbitrary: A) auto
  have groups: "(t, rows) \<in> set (group_by mi_tenant_id items)
      \<longleftrightarrow> rows \<noteq> [] \<and> rows = filter (\<lambda>x. mi_tenant_id x = t) items" for t rows
    using dict_get_set_mem [OF group_by_ok, of mi_tenant_id items t rows]
    by (auto simp: group_by_get Let_def split: if_splits)
  have "(\<exists>(t, rows) \<in> set (group_by mi_tenant_id items). i \<in> filter_recallable_heads t (map mi_id rows) s)
      \<longleftrightarrow> (\<exists>item \<in> set items. mi_id item = i \<and> is_recallable_head (mi_tenant_id item) i s)"
    (is "?l \<longleftrightarrow> ?r")
  proof
    assume ?l
    then show ?r unfolding filter_recallable_heads_def by (auto simp: groups)
  next
    assume ?r
    then obtain item where item: "item \<in> set items" "mi_id item = i" "is_recallable_head (mi_tenant_id item) i s"
      by blast
    let ?rows = "filter (\<lambda>x. mi_tenant_id x = mi_tenant_id item) items"
    have "item \<in> set ?rows" using item(1) by simp
    then have "(mi_tenant_id item, ?rows) \<in> set (group_by mi_tenant_id items)" unfolding groups by (metis empty_iff empty_set)
    moreover have "i \<in> filter_recallable_heads (mi_tenant_id item) (map mi_id ?rows) s"
      using item by (auto simp: filter_recallable_heads_def)
    ultimately show ?l by blast
  qed
  then show ?thesis by (auto simp: Some recallable_head_ids_def union)
qed

lemma vector_candidate_simps [simp]:
  "ca_item (vector_candidate q x item) = item" "ca_semantic (vector_candidate q x item) = x"
  by (simp_all add: vector_candidate_def Let_def)

text \<open>The points a server answered for the filters of a query.\<close>

definition answered :: "qdrant_env \<Rightarrow> recall_query \<Rightarrow> scored_point set" where
  "answered env q = {row. \<exists>v flt rows. flt \<in> set (query_filters q) \<and> row \<in> set rows
     \<and> query_hybrid_points (qe_client env) v (sparse_vector (qe_digest env) (rq_text q)) flt
         (max (rq_top_k q * 3) (rq_top_k q)) = Inr rows}"

text \<open>
  C98: Whatever a Qdrant server answers, a search returns at most \<open>top_k\<close> candidates, each decoded from
  an answered point with its score clamped to the unit interval, and each of the query's tenant and
  workspace, in one of its layers when it names any, with all its labels, in its thread when the memory
  is bound to a thread, of its agent when the memory is private, and neither rejected nor archived. When
  a ledger is attached, the memory is a recallable head of the query's tenant in it, unless the server
  answered a point of another tenant under the same memory id: the check of the code collects the heads
  of every tenant the answers name.
\<close>

theorem server_search_isolated:
  assumes "search_qdrant env n q = Inr cs" and "c \<in> set cs"
  shows "length cs \<le> nat (max 1 (rq_top_k q))
    \<and> mi_tenant_id (ca_item c) = rq_tenant_id q \<and> mi_workspace_id (ca_item c) = rq_workspace_id q
    \<and> (rq_layers q \<noteq> [] \<longrightarrow> mi_layer (ca_item c) \<in> set (rq_layers q))
    \<and> set (rq_labels q) \<subseteq> set (mi_labels (ca_item c))
    \<and> (mi_scope (ca_item c) = Thread \<longrightarrow> mi_thread_id (ca_item c) = rq_thread_id q)
    \<and> (mi_scope (ca_item c) = Private \<longrightarrow> mi_agent_id (ca_item c) = rq_agent_id q)
    \<and> mi_status (ca_item c) \<notin> {Rejected, Archived}
    \<and> (\<exists>row \<in> answered env q. hydrated_point env row = Inr (row, ca_item c)
         \<and> ca_semantic c = max 0 (min 1 (sp_score row)))
    \<and> (\<forall>s. qe_ledger env = Some s \<longrightarrow> is_recallable_head (rq_tenant_id q) (mi_id (ca_item c)) s
         \<or> (\<exists>row \<in> answered env q. \<exists>item. hydrated_point env row = Inr (row, item)
              \<and> mi_id item = mi_id (ca_item c) \<and> mi_tenant_id item \<noteq> rq_tenant_id q))"
proof -
  obtain v rows hydrated where rows: "res_map (\<lambda>flt. query_hybrid_points (qe_client env) v
        (sparse_vector (qe_digest env) (rq_text q)) flt (max (rq_top_k q * 3) (rq_top_k q))) (query_filters q) = Inr rows"
    and h: "res_map (hydrated_point env) (concat rows) = Inr hydrated"
    and cs: "cs = server_candidates (qe_ledger env) q hydrated"
    using assms(1) by (auto simp: search_qdrant_def res_bind_Inr_iff split: option.splits if_splits)
  have row: "r \<in> answered env q \<and> hydrated_point env r = Inr (r, item)" if hit: "(r, item) \<in> set hydrated" for r item
  proof -
    obtain i where i: "i < length (concat rows)" "hydrated_point env (concat rows ! i) = Inr (r, item)"
      using h hit unfolding res_map_Inr by (auto simp: list_all2_conv_all_nth in_set_conv_nth simp del: length_concat)
    define r' where "r' = concat rows ! i"
    have r': "r' \<in> set (concat rows)" "hydrated_point env r' = Inr (r, item)"
      unfolding r'_def using i by (auto intro: nth_mem simp del: set_concat length_concat)
    then have "r' = r" by (auto simp: hydrated_point_def res_bind_Inr_iff)
    moreover have "r' \<in> answered env q"
      using rows r'(1) unfolding res_map_Inr answered_def
      by (fastforce simp: list_all2_conv_all_nth in_set_conv_nth)
    ultimately show ?thesis using r'(2) by simp
  qed
  obtain r item where c: "c = vector_candidate q (max 0 (min 1 (sp_score r))) item"
    "(r, item) \<in> set hydrated" "mi_id item \<in> recallable_head_ids (qe_ledger env) (map snd hydrated)"
    "matches_filter q item"
    using assms(2) unfolding cs server_candidates_def Let_def by (auto dest!: in_set_takeD)
  have "is_recallable_head (rq_tenant_id q) (mi_id item) s
      \<or> (\<exists>r \<in> answered env q. \<exists>x. hydrated_point env r = Inr (r, x) \<and> mi_id x = mi_id item
           \<and> mi_tenant_id x \<noteq> rq_tenant_id q)" if ledger: "qe_ledger env = Some s" for s
  proof -
    obtain r' x where "(r', x) \<in> set hydrated" "mi_id x = mi_id item" "is_recallable_head (mi_tenant_id x) (mi_id item) s"
      using c(3) ledger unfolding recallable_heads_mem by auto
    then show ?thesis using row by (cases "mi_tenant_id x = rq_tenant_id q") auto
  qed
  moreover have "length cs \<le> nat (max 1 (rq_top_k q))" by (simp add: cs server_candidates_def Let_def)
  ultimately show ?thesis using c(1,4) row [OF c(2)] by (auto simp: matches_filter_def)
qed

section \<open>A memory and its payload\<close>

lemma enum_layers [simp]: "enum_of layer_value layers_all (layer_value l) = Inr l"
  by (cases l) (simp_all add: enum_of_def layers_all_def lit_def)

lemma enum_scopes [simp]: "enum_of scope_value scopes_all (scope_value l) = Inr l"
  by (cases l) (simp_all add: enum_of_def scopes_all_def lit_def)

lemma enum_statuses [simp]: "enum_of status_value statuses_all (status_value l) = Inr l"
  by (cases l) (simp_all add: enum_of_def statuses_all_def lit_def)

lemma value_nonempty [simp]: "status_value l \<noteq> []" "uuid_str u \<noteq> []" "isoformat t \<noteq> []"
proof -
  show "status_value l \<noteq> []" by (cases l) (simp_all add: lit_def)
  show "uuid_str u \<noteq> []" using length_uuid_str [of u] by fastforce
  show "isoformat t \<noteq> []" by (simp add: isoformat_def Let_def split: prod.split)
qed

lemma payload_get:
  assumes "p = item_to_payload b m"
  shows "dict_get p (lit ''memory_id'') = Some (PStr (uuid_str (mi_id m)))"
    and "dict_get p (lit ''tenant_id'') = Some (PStr (uuid_str (mi_tenant_id m)))"
    and "dict_get p (lit ''workspace_id'') = Some (PStr (uuid_str (mi_workspace_id m)))"
    and "dict_get p (lit ''agent_id'') = Some (optional_id (mi_agent_id m))"
    and "dict_get p (lit ''thread_id'') = Some (optional_id (mi_thread_id m))"
    and "dict_get p (lit ''layer'') = Some (PStr (layer_value (mi_layer m)))"
    and "dict_get p (lit ''scope'') = Some (PStr (scope_value (mi_scope m)))"
    and "dict_get p (lit ''kind'') = Some (PStr (mi_kind m))"
    and "dict_get p (lit ''labels'') = Some (PList (map PStr (mi_labels m)))"
    and "dict_get p (lit ''status'') = Some (PStr (status_value (mi_status m)))"
    and "dict_get p (lit ''importance'') = Some (PFloat (mi_importance m))"
    and "dict_get p (lit ''salience'') = Some (PFloat (mi_salience m))"
    and "dict_get p (lit ''confidence'') = Some (PFloat (mi_confidence m))"
    and "dict_get p (lit ''created_at'') = Some (PStr (isoformat (mi_created_at m)))"
    and "dict_get p (lit ''revision'') = Some (PInt (mi_revision m))"
    and "dict_get p (lit ''supersedes_id'') = Some (optional_id (mi_supersedes_id m))"
    and "dict_get p (lit ''text'') = (if b then Some (PStr (mi_text m)) else None)"
  unfolding assms by (simp_all add: item_to_payload_def lit_def)

lemma id_or_none_optional [simp]: "id_or_none rt (optional_id i) = Inr i"
  by (cases i) (simp_all add: optional_id_def id_or_none_def parse_uuid_str)

text \<open>What survives: the memory, with the defaults of the constructor call for what the payload leaves out.\<close>

definition rebuilt_item :: "datetime \<Rightarrow> memory_item \<Rightarrow> memory_item" where
  "rebuilt_item observed_at m = m\<lparr>mi_provenance := payload_provenance, mi_metadata := [], mi_observed_at := observed_at,
     mi_valid_from := None, mi_valid_to := None,
     mi_kind := (if mi_kind m = [] then lit ''fact'' else mi_kind m),
     mi_importance := (if mi_importance m = 0 then 1/2 else mi_importance m),
     mi_salience := (if mi_salience m = 0 then 1/2 else mi_salience m),
     mi_confidence := (if mi_confidence m = 0 then 7/10 else mi_confidence m),
     mi_revision := (if mi_revision m = 0 then 1 else mi_revision m)\<rparr>"

lemma rebuilt_fields:
  "\<lparr>mi_id = mi_id m, mi_tenant_id = mi_tenant_id m, mi_workspace_id = mi_workspace_id m, mi_layer = mi_layer m,
    mi_scope = mi_scope m, mi_kind = mi_kind (rebuilt_item n m), mi_text = body,
    mi_provenance = payload_provenance, mi_agent_id = mi_agent_id m, mi_thread_id = mi_thread_id m,
    mi_labels = mi_labels m, mi_metadata = [], mi_status = mi_status m,
    mi_importance = mi_importance (rebuilt_item n m), mi_salience = mi_salience (rebuilt_item n m),
    mi_confidence = mi_confidence (rebuilt_item n m), mi_observed_at = n, mi_valid_from = None, mi_valid_to = None,
    mi_created_at = mi_created_at m, mi_revision = mi_revision (rebuilt_item n m),
    mi_supersedes_id = mi_supersedes_id m\<rparr> = (rebuilt_item n m)\<lparr>mi_text := body\<rparr>"
  by (simp add: rebuilt_item_def)

lemma rebuilt_valid: "valid_item m \<Longrightarrow> memory_item_post_init (rebuilt_item n m) = Inr (rebuilt_item n m)"
  by (simp add: memory_item_post_init_Inr valid_item_def rebuilt_item_def unit_interval_def window_ok_def)

lemma payload_rebuilt:
  assumes "datetime_range (mi_created_at m)"
  shows "payload_to_item rt other now n (item_to_payload b m)
    = memory_item_post_init ((rebuilt_item n m)\<lparr>mi_text := (if b then mi_text m else [])\<rparr>)"
proof -
  let ?p = "item_to_payload b m"
  have labels: "payload_labels rt ?p = mi_labels m"
    by (simp add: payload_labels_def py_get_def py_or_def payload_get [OF refl] comp_def)
  have scores: "score_field ?p (lit ''importance'') (1/2) = Inr (mi_importance (rebuilt_item n m))"
    "score_field ?p (lit ''salience'') (1/2) = Inr (mi_salience (rebuilt_item n m))"
    "score_field ?p (lit ''confidence'') (7/10) = Inr (mi_confidence (rebuilt_item n m))"
    by (simp_all add: score_field_def py_or_def py_get_def payload_get [OF refl] rebuilt_item_def)
  have others: "py_int (py_or (py_get ?p (lit ''revision'')) (PInt 1)) = Inr (mi_revision (rebuilt_item n m))"
    "py_str rt (py_or (py_get ?p (lit ''kind'')) (PStr (lit ''fact''))) = mi_kind (rebuilt_item n m)"
    "py_str rt (py_or (py_get ?p (lit ''text'')) (PStr [])) = (if b then mi_text m else [])"
    by (simp_all add: py_or_def py_get_def payload_get [OF refl] rebuilt_item_def)
  have ids: "id_or_none rt (py_get ?p (lit ''agent_id'')) = Inr (mi_agent_id m)"
    "id_or_none rt (py_get ?p (lit ''thread_id'')) = Inr (mi_thread_id m)"
    "id_or_none rt (py_get ?p (lit ''supersedes_id'')) = Inr (mi_supersedes_id m)"
    by (simp_all add: py_get_def payload_get [OF refl])
  have status: "enum_of status_value statuses_all (py_str rt (py_or (py_get ?p (lit ''status''))
      (PStr (status_value Active)))) = Inr (mi_status m)"
    by (simp add: py_or_def py_get_def payload_get [OF refl])
  have created: "(let c = py_get ?p (lit ''created_at'') in if truthy c then fromisoformat other (py_str rt c) else Inr now)
      = Inr (mi_created_at m)"
    by (simp add: py_get_def payload_get [OF refl] fromisoformat_isoformat [OF assms])
  show ?thesis
    unfolding payload_to_item_def labels scores others ids status created
    by (simp add: required_text_def field_def payload_get [OF refl] parse_uuid_str rebuilt_fields)
qed

text \<open>
  C34: A memory written into a point with its text and read back is the memory, except for its
  provenance, metadata, observation time and validity window, which the payload does not carry, and
  except that a score or revision of zero or an empty kind comes back as the default. A point without
  text is read from the ledger unchanged, and without a ledger it is refused.
\<close>

theorem payload_roundtrip:
  assumes "valid_item m" and "datetime_range (mi_created_at m)"
  shows "payload_to_item rt other now n (item_to_payload True m) = Inr (m\<lparr>mi_provenance := payload_provenance,
       mi_metadata := [], mi_observed_at := n, mi_valid_from := None, mi_valid_to := None,
       mi_kind := (if mi_kind m = [] then lit ''fact'' else mi_kind m),
       mi_importance := (if mi_importance m = 0 then 1/2 else mi_importance m),
       mi_salience := (if mi_salience m = 0 then 1/2 else mi_salience m),
       mi_confidence := (if mi_confidence m = 0 then 7/10 else mi_confidence m),
       mi_revision := (if mi_revision m = 0 then 1 else mi_revision m)\<rparr>)
    \<and> (get_item (mi_tenant_id m) (mi_id m) s = Some m \<longrightarrow>
         payload_to_candidate_item rt other now n (Some s) (item_to_payload False m) = Inr m)
    \<and> payload_to_candidate_item rt other now n None (item_to_payload False m)
         = Inl (ValueError (lit ''memory text must not be empty''))"
proof -
  let ?p = "item_to_payload False m"
  have "payload_to_item rt other now n ?p = Inl (ValueError (lit ''memory text must not be empty''))"
    by (simp add: payload_rebuilt [OF assms(2)] memory_item_post_init_def blank_iff)
  moreover have "(rebuilt_item n m)\<lparr>mi_text := mi_text m\<rparr> = rebuilt_item n m" by (simp add: rebuilt_item_def)
  ultimately show ?thesis using payload_rebuilt [OF assms(2), of rt other now n True] rebuilt_valid [OF assms(1), of n]
    by (simp add: rebuilt_item_def payload_to_candidate_item_def py_get_def payload_get [OF refl] required_text_def
        field_def parse_uuid_str)
qed

text \<open>
  (unlisted): The payload drops the validity window, so a fact that has expired is served again. When the
  server returns the point of a memory whose validity ended before the instant asked for, the search
  returns a candidate for it that passes the recall service's own validity check, although the stored
  memory does not.
\<close>

theorem expired_fact_served:
  assumes "valid_item m" and "datetime_range (mi_created_at m)"
    and "rq_valid_at q = Some moment" and "mi_valid_to m = Some e" and "e \<le> moment" and "matches_filter q m"
    and "\<And>s. qe_ledger env = Some s \<Longrightarrow> is_recallable_head (mi_tenant_id m) (mi_id m) s"
    and "qe_embed env = Some f" and "f (rq_text q) = Inr v" and "length v = n"
    and "\<And>flt sv k. query_hybrid_points (qe_client env) v sv flt k
      = Inr [\<lparr>sp_payload = Some (item_to_payload True m), sp_score = sc\<rparr>]"
  shows "\<exists>cs c. search_qdrant env n q = Inr cs \<and> c \<in> set cs \<and> mi_id (ca_item c) = mi_id m
    \<and> admits q (ca_item c) \<and> \<not> admits q m"
proof -
  let ?pt = "\<lparr>sp_payload = Some (item_to_payload True m), sp_score = sc\<rparr>" and ?r = "rebuilt_item (qe_now env) m"
  have same: "mi_id ?r = mi_id m" "mi_tenant_id ?r = mi_tenant_id m" "mi_workspace_id ?r = mi_workspace_id m"
    "mi_layer ?r = mi_layer m" "mi_labels ?r = mi_labels m" "mi_scope ?r = mi_scope m" "mi_thread_id ?r = mi_thread_id m"
    "mi_agent_id ?r = mi_agent_id m" "mi_status ?r = mi_status m" "mi_valid_from ?r = None" "mi_valid_to ?r = None"
    by (simp_all add: rebuilt_item_def)
  have "mi_text m \<noteq> []" using assms(1) by (auto simp: valid_item_def blank_iff)
  moreover have "?r\<lparr>mi_text := mi_text m\<rparr> = ?r" by (simp add: rebuilt_item_def)
  ultimately have point: "hydrated_point env ?pt = Inr (?pt, ?r)"
    using payload_rebuilt [OF assms(2), of "qe_runtime env" "qe_other env" "qe_now env" "qe_now env" True]
      rebuilt_valid [OF assms(1), of "qe_now env"]
    by (simp add: hydrated_point_def payload_to_candidate_item_def py_get_def payload_get [OF refl] split: option.split)
  define k where "k = length (query_filters q)"
  have "0 < k" by (simp add: k_def query_filters_def Let_def)
  have "res_map (\<lambda>flt. query_hybrid_points (qe_client env) v (sparse_vector (qe_digest env) (rq_text q)) flt
      (max (rq_top_k q * 3) (rq_top_k q))) (query_filters q) = Inr (map (\<lambda>_. [?pt]) (query_filters q))"
    using assms(11) by (intro res_map_total)
  moreover have "concat (map (\<lambda>_. [?pt]) (query_filters q)) = replicate k ?pt"
    unfolding k_def by (induction "query_filters q" rule: list.induct) (simp_all add: map_replicate_const)
  moreover have "res_map (hydrated_point env) (replicate k ?pt) = Inr (replicate k (?pt, ?r))"
    using res_map_total [of "replicate k ?pt" "hydrated_point env" "\<lambda>_. (?pt, ?r)"] point by (simp add: map_replicate_const)
  ultimately have search: "search_qdrant env n q = Inr (server_candidates (qe_ledger env) q (replicate k (?pt, ?r)))"
    using assms(8-10) by (simp add: search_qdrant_def)
  let ?c = "vector_candidate q (max 0 (min 1 sc)) ?r"
  have "mi_id m \<in> recallable_head_ids (qe_ledger env) (map snd (replicate k (?pt, ?r)))"
    unfolding recallable_heads_mem using assms(7) \<open>0 < k\<close> same by auto
  moreover have "matches_filter q ?r" using assms(6) same by (simp add: matches_filter_def)
  ultimately have "?c \<in> set (server_candidates (qe_ledger env) q (replicate k (?pt, ?r)))"
    using \<open>0 < k\<close> same(1) by (simp add: server_candidates_def filter_replicate Let_def)
  moreover have "admits q ?r" "\<not> admits q m"
    using assms(3-6) same by (auto simp: admits_def is_valid_at_def matches_filter_def)
  ultimately show ?thesis using search same(1) by fastforce
qed

section \<open>The theorems at work\<close>

definition old_fact :: memory_item where
  "old_fact = (sample_item 1 7 8 (lit ''tea''))\<lparr>mi_valid_to := Some 50, mi_importance := 0\<rparr>"

definition server_env :: qdrant_env where
  "server_env = \<lparr>qe_runtime = \<lparr>rt_repr = \<lambda>_. [], rt_dict = \<lambda>_. Inr []\<rparr>, qe_other = \<lambda>_. Inl (ValueError []), qe_now = 60,
     qe_digest = int \<circ> length, qe_embed = Some (\<lambda>txt. Inr [1]), qe_ledger = None,
     qe_client = \<lparr>qc_query = Some (\<lambda>v flt k. Inr [\<lparr>sp_payload = Some (item_to_payload True old_fact), sp_score = 2\<rparr>]),
       qc_fused = \<lambda>v sv flt k. Inl (TypeError []), qc_search = None, qc_fusion = True\<rparr>\<rparr>"

abbreviation dated_query :: recall_query where
  "dated_query \<equiv> (sample_query 7 8 (lit ''tea''))\<lparr>rq_valid_at := Some 55\<rparr>"

lemma old_fact_valid: "valid_item old_fact" "datetime_range (mi_created_at old_fact)"
proof -
  show "valid_item old_fact"
    by (simp add: valid_item_def old_fact_def sample_item_def unit_interval_def window_ok_def blank_iff) (simp add: lit_def is_space_def)
  show "datetime_range (mi_created_at old_fact)" unfolding old_fact_def sample_item_def by code_simp
qed

lemma old_fact_answer:
  "query_hybrid_points (qe_client server_env) v sv flt k
    = Inr [\<lparr>sp_payload = Some (item_to_payload True old_fact), sp_score = 2\<rparr>]"
  by (simp add: server_env_def query_hybrid_points_def query_points_def)

lemma old_fact_matches: "matches_filter dated_query old_fact"
  by (simp add: matches_filter_def sample_query_def old_fact_def sample_item_def)

theorem expired_fact_served_witness:
  "\<exists>cs c. search_qdrant server_env 1 dated_query = Inr cs \<and> c \<in> set cs \<and> mi_id (ca_item c) = 1
    \<and> admits dated_query (ca_item c) \<and> \<not> admits dated_query old_fact"
proof -
  have f: "qe_embed server_env = Some (\<lambda>txt. Inr [1])" "qe_ledger server_env = None" by (simp_all add: server_env_def)
  have d: "rq_valid_at dated_query = Some 55" "mi_valid_to old_fact = Some 50" "mi_id old_fact = 1"
    by (simp_all add: old_fact_def sample_item_def)
  from expired_fact_served [OF old_fact_valid d(1,2) _ old_fact_matches _ f(1) refl _ old_fact_answer] f(2) d(3)
  show ?thesis by simp
qed

theorem payload_roundtrip_witness:
  "\<exists>m. payload_to_item (qe_runtime server_env) (qe_other server_env) 9 9 (item_to_payload True old_fact) = Inr m
     \<and> mi_importance m = 1/2 \<and> mi_importance old_fact = 0 \<and> mi_valid_to m = None \<and> mi_text m = lit ''tea''"
proof -
  have "mi_importance old_fact = 0" "mi_text old_fact = lit ''tea''" by (simp_all add: old_fact_def sample_item_def)
  with payload_roundtrip [OF old_fact_valid, of "qe_runtime server_env" "qe_other server_env" 9 9 empty_store]
  show ?thesis by simp
qed

theorem server_search_isolated_witness:
  "\<exists>cs c. search_qdrant server_env 1 dated_query = Inr cs \<and> c \<in> set cs
     \<and> mi_tenant_id (ca_item c) = 7 \<and> mi_workspace_id (ca_item c) = 8"
proof -
  have "case search_qdrant server_env 1 dated_query of Inl e \<Rightarrow> False | Inr cs \<Rightarrow> length cs = 1" by code_simp
  then obtain cs c where cs: "search_qdrant server_env 1 dated_query = Inr cs" "c \<in> set cs"
    by (cases "search_qdrant server_env 1 dated_query") (auto simp: length_Suc_conv)
  from server_search_isolated [OF this] cs show ?thesis by (auto simp: sample_query_def)
qed

end
