(* ===== verification/Embedding.thy ===== *)
theory Embedding
  imports VectorIndex Samples
begin

text \<open>
  The embedding service (\<open>services/embedding.py\<close>): the vector of a memory, the handling of one retained
  event, and the full reindex of a workspace. The service is written against the operations of the
  vector index; their promises are the locale below and the in-memory backend of the index interprets
  it. The embedding provider is a parameter, the durations measured are arguments.
\<close>

section \<open>Vectors\<close>

record embedding_service =
  es_embed :: "str \<Rightarrow> real list res"
  es_dimension :: nat
  es_model_name :: str
  es_chunk_chars :: nat

record embedding_metrics =
  em_embed_total :: nat
  em_embed_failures_total :: nat
  em_embed_duration_seconds_sum :: real
  em_embed_last_duration_seconds :: real
  em_reindex_total :: nat
  em_reindex_failures_total :: nat
  em_reindex_last_duration_seconds :: real

definition new_embedding_service ::
  "(str \<Rightarrow> real list res) \<Rightarrow> nat \<Rightarrow> str \<Rightarrow> int \<Rightarrow> embedding_service \<times> embedding_metrics"
where
  "new_embedding_service embed_fn dimension model_name chunk_chars =
    (\<lparr>es_embed = embed_fn, es_dimension = dimension, es_model_name = model_name,
      es_chunk_chars = nat (max 256 chunk_chars)\<rparr>,
     \<lparr>em_embed_total = 0, em_embed_failures_total = 0, em_embed_duration_seconds_sum = 0,
      em_embed_last_duration_seconds = 0, em_reindex_total = 0, em_reindex_failures_total = 0,
      em_reindex_last_duration_seconds = 0\<rparr>)"

definition document_chunks :: "nat \<Rightarrow> str \<Rightarrow> str list" where
  "document_chunks chunk_chars txt = (case slices chunk_chars txt of [] \<Rightarrow> [[]] | pieces \<Rightarrow> pieces)"

definition mean_pooled :: "real list list \<Rightarrow> real list" where
  "mean_pooled vectors = map (\<lambda>k. sum_list (map (\<lambda>v. v ! k) vectors) / real (length vectors)) [0..<length (hd vectors)]"

definition embed_document :: "embedding_service \<Rightarrow> str \<Rightarrow> real list res" where
  "embed_document svc txt =
    res_bind (res_map (es_embed svc) (document_chunks (es_chunk_chars svc) txt)) (\<lambda>vectors.
      if length vectors = 1 then Inr (hd vectors)
      else if list_ex (\<lambda>v. length v \<noteq> length (hd vectors)) vectors then
        Inl (ValueError (lit ''embedding provider returned inconsistent chunk dimensions''))
      else Inr (mean_pooled vectors))"

definition validate_dimension :: "embedding_service \<Rightarrow> real list \<Rightarrow> unit res" where
  "validate_dimension svc vector =
    (if length vector \<noteq> es_dimension svc then Inl (ValueError (lit ''embedding dimension mismatch'')) else Inr ())"

definition embedded :: "embedding_service \<Rightarrow> str \<Rightarrow> real list res" where
  "embedded svc txt = res_bind (embed_document svc txt) (\<lambda>v. res_bind (validate_dimension svc v) (\<lambda>_. Inr v))"

section \<open>The operations of the service\<close>

type_synonym 'x upsert_op = "memory_item \<Rightarrow> real list \<Rightarrow> str option \<Rightarrow> 'x \<Rightarrow> unit res \<times> 'x"
type_synonym 'x delete_op = "uuid \<Rightarrow> 'x \<Rightarrow> unit res \<times> 'x"
type_synonym 'x sync_op = "uuid \<Rightarrow> uuid \<Rightarrow> (memory_item \<times> real list) list \<Rightarrow> str option \<Rightarrow> 'x \<Rightarrow> unit res \<times> 'x"

definition delete_superseded :: "'x delete_op \<Rightarrow> memory_item \<Rightarrow> 'x \<Rightarrow> unit res \<times> 'x" where
  "delete_superseded del item x = (case mi_supersedes_id item of None \<Rightarrow> (Inr (), x) | Some p \<Rightarrow> del p x)"

text \<open>The \<open>try\<close> block of \<open>process_memory_retained\<close>, then the counters around it.\<close>

definition index_retained ::
  "'x upsert_op \<Rightarrow> 'x delete_op \<Rightarrow> embedding_service \<Rightarrow> uuid \<Rightarrow> uuid \<Rightarrow> store \<Rightarrow> 'x \<Rightarrow> unit res \<times> 'x"
where
  "index_retained up del svc tenant_id memory_id s x =
    (case get_item tenant_id memory_id s of
       None \<Rightarrow> (Inl (ValueError (lit ''Memory item not found'')), x)
     | Some item \<Rightarrow>
         if mi_status item \<in> {Archived, Rejected} then
           (case del (mi_id item) x of
              (Inl e, x1) \<Rightarrow> (Inl e, x1)
            | (Inr _, x1) \<Rightarrow> delete_superseded del item x1)
         else (case embedded svc (mi_text item) of
              Inl e \<Rightarrow> (Inl e, x)
            | Inr vector \<Rightarrow>
                (case up item vector (Some (es_model_name svc)) x of
                   (Inl e, x1) \<Rightarrow> (Inl e, x1)
                 | (Inr _, x1) \<Rightarrow> delete_superseded del item x1)))"

definition record_embed_duration :: "real \<Rightarrow> embedding_metrics \<Rightarrow> embedding_metrics" where
  "record_embed_duration duration m = m\<lparr>em_embed_total := em_embed_total m + 1,
     em_embed_last_duration_seconds := duration,
     em_embed_duration_seconds_sum := em_embed_duration_seconds_sum m + duration\<rparr>"

definition process_memory_retained ::
  "'x upsert_op \<Rightarrow> 'x delete_op \<Rightarrow> embedding_service \<Rightarrow> real \<Rightarrow> uuid \<Rightarrow> uuid \<Rightarrow> store \<Rightarrow> embedding_metrics \<times> 'x
    \<Rightarrow> unit res \<times> embedding_metrics \<times> 'x"
where
  "process_memory_retained up del svc duration tenant_id memory_id s st =
    (case index_retained up del svc tenant_id memory_id s (snd st) of
       (Inl e, x1) \<Rightarrow> (Inl e, record_embed_duration duration
          ((fst st)\<lparr>em_embed_failures_total := em_embed_failures_total (fst st) + 1\<rparr>), x1)
     | (Inr _, x1) \<Rightarrow> (Inr (), record_embed_duration duration (fst st), x1))"

definition embeds :: "memory_item list \<Rightarrow> memory_item \<Rightarrow> bool" where
  "embeds items item \<longleftrightarrow> Some (mi_id item) \<notin> set (map mi_supersedes_id items) \<and> mi_status item \<notin> {Archived, Rejected}"

definition reindex_pairs :: "embedding_service \<Rightarrow> memory_item list \<Rightarrow> (memory_item \<times> real list) list res" where
  "reindex_pairs svc items =
    res_map (\<lambda>item. res_bind (embedded svc (mi_text item)) (\<lambda>v. Inr (item, v))) (filter (embeds items) items)"

definition reindex_workspace ::
  "'x sync_op \<Rightarrow> embedding_service \<Rightarrow> uuid \<Rightarrow> uuid \<Rightarrow> store \<Rightarrow> 'x \<Rightarrow> nat res \<times> 'x"
where
  "reindex_workspace sync svc tenant_id workspace_id s x =
    (case reindex_pairs svc (list_items tenant_id workspace_id [] None None None 0 s) of
       Inl e \<Rightarrow> (Inl e, x)
     | Inr pairs \<Rightarrow>
         (case sync tenant_id workspace_id pairs (Some (es_model_name svc)) x of
            (Inl e, x1) \<Rightarrow> (Inl e, x1)
          | (Inr _, x1) \<Rightarrow> (Inr (length pairs), x1)))"

definition reindex_all ::
  "'x sync_op \<Rightarrow> embedding_service \<Rightarrow> real \<Rightarrow> uuid \<Rightarrow> uuid \<Rightarrow> store \<Rightarrow> embedding_metrics \<times> 'x
    \<Rightarrow> nat res \<times> embedding_metrics \<times> 'x"
where
  "reindex_all sync svc duration tenant_id workspace_id s st =
    (case reindex_workspace sync svc tenant_id workspace_id s (snd st) of
       (Inl e, x1) \<Rightarrow> (Inl e, (fst st)\<lparr>em_reindex_failures_total := em_reindex_failures_total (fst st) + 1,
           em_reindex_last_duration_seconds := duration\<rparr>, x1)
     | (Inr n, x1) \<Rightarrow> (Inr n, (fst st)\<lparr>em_reindex_total := em_reindex_total (fst st) + 1,
           em_reindex_last_duration_seconds := duration\<rparr>, x1))"

section \<open>What a point of a workspace should be\<close>

definition live_in :: "uuid \<Rightarrow> uuid \<Rightarrow> store \<Rightarrow> memory_item \<Rightarrow> bool" where
  "live_in t w s item \<longleftrightarrow> in_scope t w item \<and> mi_status item \<notin> {Archived, Rejected}
     \<and> (\<forall>j c. dict_get (st_items s) j = Some c \<longrightarrow> in_scope t w c \<longrightarrow> mi_supersedes_id c \<noteq> Some (mi_id item))"

definition point_of :: "embedding_service \<Rightarrow> uuid \<Rightarrow> uuid \<Rightarrow> store \<Rightarrow> uuid \<Rightarrow> (memory_item \<times> real list) option" where
  "point_of svc t w s i = (case dict_get (st_items s) i of
     None \<Rightarrow> None
   | Some item \<Rightarrow> if live_in t w s item
       then (case embedded svc (mi_text item) of Inl e \<Rightarrow> None | Inr v \<Rightarrow> Some (item, v)) else None)"

definition scoped :: "uuid \<Rightarrow> uuid \<Rightarrow> (memory_item \<times> real list) option \<Rightarrow> (memory_item \<times> real list) option" where
  "scoped t w p = (case p of None \<Rightarrow> None | Some q \<Rightarrow> if in_scope t w (fst q) then Some q else None)"

lemma scoped_simps [simp]:
  "scoped t w None = None" "scoped t w (Some q) = (if in_scope t w (fst q) then Some q else None)"
  by (simp_all add: scoped_def)

lemma workspace_rows:
  assumes "items_ok s"
  shows "item \<in> set (list_items t w [] None None None 0 s)
      \<longleftrightarrow> dict_get (st_items s) (mi_id item) = Some item \<and> in_scope t w item"
    and "distinct (map mi_id (list_items t w [] None None None 0 s))"
proof -
  show "item \<in> set (list_items t w [] None None None 0 s)
      \<longleftrightarrow> dict_get (st_items s) (mi_id item) = Some item \<and> in_scope t w item"
    by (simp add: list_items_unpaged given_def in_scope_def del: set_map) (simp only: items_row_iff [OF assms])
  have "distinct (map mi_id (dict_values (st_items s)))"
    using assms unfolding items_ok_def by (blast intro: table_ok_distinct)
  then have "distinct (map mi_id (filter P (dict_values (st_items s))))" for P by (rule distinct_map_filter)
  then show "distinct (map mi_id (list_items t w [] None None None 0 s))"
    unfolding list_items_unpaged by (simp only: distinct_map set_sort distinct_sort)
qed

lemma embeds_live:
  assumes "items_ok s" and "in_scope t w item"
  shows "embeds (list_items t w [] None None None 0 s) item \<longleftrightarrow> live_in t w s item"
proof -
  have "Some i \<in> set (map mi_supersedes_id (list_items t w [] None None None 0 s))
      \<longleftrightarrow> (\<exists>j c. dict_get (st_items s) j = Some c \<and> in_scope t w c \<and> mi_supersedes_id c = Some i)" for i
  proof
    assume "Some i \<in> set (map mi_supersedes_id (list_items t w [] None None None 0 s))"
    then obtain c where "c \<in> set (list_items t w [] None None None 0 s)" "mi_supersedes_id c = Some i" by auto
    then show "\<exists>j c. dict_get (st_items s) j = Some c \<and> in_scope t w c \<and> mi_supersedes_id c = Some i"
      using workspace_rows(1) [OF assms(1)] by blast
  next
    assume "\<exists>j c. dict_get (st_items s) j = Some c \<and> in_scope t w c \<and> mi_supersedes_id c = Some i"
    then obtain j c where c: "dict_get (st_items s) j = Some c" "in_scope t w c" "mi_supersedes_id c = Some i" by blast
    then have "mi_id c = j" using assms(1) by (auto simp: items_ok_def intro: table_ok_ident)
    with c have "c \<in> set (list_items t w [] None None None 0 s)" using workspace_rows(1) [OF assms(1)] by simp
    with c(3) show "Some i \<in> set (map mi_supersedes_id (list_items t w [] None None None 0 s))"
      by (metis image_eqI set_map)
  qed
  then show ?thesis unfolding embeds_def live_in_def using assms(2) by blast
qed

text \<open>The pairs of a reindex are the points the workspace should have.\<close>

lemma reindex_pairs_points:
  assumes ok: "items_ok s" and pairs: "reindex_pairs svc (list_items t w [] None None None 0 s) = Inr ps"
  shows "distinct (map (mi_id \<circ> fst) ps)"
    and "p \<in> set ps \<and> mi_id (fst p) = i \<longleftrightarrow> point_of svc t w s i = Some p"
    and "list_all (\<lambda>(item, v). in_scope t w item) ps"
proof -
  let ?rows = "list_items t w [] None None None 0 s"
  have all: "list_all2 (\<lambda>item p. fst p = item \<and> embedded svc (mi_text item) = Inr (snd p)) (filter (embeds ?rows) ?rows) ps"
    using pairs unfolding reindex_pairs_def res_map_Inr
    by (rule list_all2_mono) (auto simp: res_bind_Inr_iff)
  then have fst: "map fst ps = filter (embeds ?rows) ?rows"
    by (induction rule: list_all2_induct) simp_all
  have "map (mi_id \<circ> fst) ps = map mi_id (filter (embeds ?rows) ?rows)" unfolding fst [symmetric] by simp
  then show "distinct (map (mi_id \<circ> fst) ps)"
    using workspace_rows(2) [OF ok] by (simp add: distinct_map_filter)
  have rows: "item \<in> set (filter (embeds ?rows) ?rows)
      \<longleftrightarrow> dict_get (st_items s) (mi_id item) = Some item \<and> live_in t w s item" for item
    using workspace_rows(1) [OF ok, of item t w] embeds_live [OF ok, of t w item] by (auto simp: live_in_def)
  show "p \<in> set ps \<and> mi_id (fst p) = i \<longleftrightarrow> point_of svc t w s i = Some p"
  proof
    assume p: "p \<in> set ps \<and> mi_id (fst p) = i"
    then have "fst p \<in> set (filter (embeds ?rows) ?rows)" unfolding fst [symmetric] by simp
    moreover have "embedded svc (mi_text (fst p)) = Inr (snd p)"
      using p all by (auto simp: list_all2_conv_all_nth in_set_conv_nth)
    ultimately show "point_of svc t w s i = Some p" using p rows by (auto simp: point_of_def)
  next
    assume "point_of svc t w s i = Some p"
    then obtain item where item: "dict_get (st_items s) i = Some item" "live_in t w s item"
      "embedded svc (mi_text item) = Inr (snd p)" "fst p = item"
      by (auto simp: point_of_def split: option.splits if_splits sum.splits)
    then have i: "mi_id item = i" using ok by (auto simp: items_ok_def intro: table_ok_ident)
    then have "item \<in> set (map fst ps)" using item rows unfolding fst by simp
    then obtain q where q: "q \<in> set ps" "fst q = item" by auto
    then have "embedded svc (mi_text item) = Inr (snd q)"
      using all by (auto simp: list_all2_conv_all_nth in_set_conv_nth)
    then have "q = p" using item q(2) by (simp add: prod_eq_iff)
    with q i item(4) show "p \<in> set ps \<and> mi_id (fst p) = i" by simp
  qed
  have "\<forall>item \<in> set (map fst ps). in_scope t w item" unfolding fst using workspace_rows(1) [OF ok] by auto
  then show "list_all (\<lambda>(item, v). in_scope t w item) ps" by (auto simp: list_all_iff)
qed

section \<open>The index as a port\<close>

locale vector_port =
  fixes up :: "'x upsert_op" and del :: "'x delete_op" and sync :: "'x sync_op"
    and point :: "'x \<Rightarrow> uuid \<Rightarrow> (memory_item \<times> real list) option" and ok :: "'x \<Rightarrow> bool"
  assumes up_point: "ok x \<Longrightarrow> up item v m x = (r, x1) \<Longrightarrow> ok x1
      \<and> point x1 = (case r of Inl e \<Rightarrow> point x | Inr _ \<Rightarrow> (point x)(mi_id item := Some (item, v)))"
    and del_point: "ok x \<Longrightarrow> del i x = (r, x1) \<Longrightarrow> ok x1
      \<and> point x1 = (case r of Inl e \<Rightarrow> point x | Inr _ \<Rightarrow> (point x)(i := None))"
    and sync_point: "ok x \<Longrightarrow> distinct (map (mi_id \<circ> fst) ps) \<Longrightarrow> sync t w ps m x = (r, x1) \<Longrightarrow> ok x1
      \<and> (case r of Inl e \<Rightarrow> point x1 = point x
         | Inr _ \<Rightarrow> (\<forall>p \<in> set ps. point x1 (mi_id (fst p)) = Some p)
             \<and> (\<forall>i. i \<notin> (mi_id \<circ> fst) ` set ps \<longrightarrow>
                  point x1 i = (if scoped t w (point x i) = None then point x i else None)))"
begin

definition agrees :: "embedding_service \<Rightarrow> uuid \<Rightarrow> uuid \<Rightarrow> store \<Rightarrow> 'x \<Rightarrow> bool" where
  "agrees svc t w s x \<longleftrightarrow> (\<forall>i. scoped t w (point x i) = point_of svc t w s i)"

lemma reindex_agrees:
  assumes "ok x" and "items_ok s" and "reindex_workspace sync svc t w s x = (Inr n, x1)"
  shows "ok x1 \<and> agrees svc t w s x1"
    and "scoped t w (point x i) = None \<Longrightarrow> point_of svc t w s i = None \<Longrightarrow> point x1 i = point x i"
proof -
  obtain ps where ps: "reindex_pairs svc (list_items t w [] None None None 0 s) = Inr ps"
    "sync t w ps (Some (es_model_name svc)) x = (Inr (), x1)"
    using assms(3) by (auto simp: reindex_workspace_def split: sum.splits prod.splits)
  note pts = reindex_pairs_points [OF assms(2) ps(1)]
  note after = sync_point [OF assms(1) pts(1) ps(2)]
  have mem: "i \<in> (mi_id \<circ> fst) ` set ps \<longleftrightarrow> point_of svc t w s i \<noteq> None" for i
  proof
    assume "i \<in> (mi_id \<circ> fst) ` set ps"
    then obtain p where "p \<in> set ps" "mi_id (fst p) = i" by auto
    then show "point_of svc t w s i \<noteq> None" using pts(2) by blast
  next
    assume "point_of svc t w s i \<noteq> None"
    then obtain p where "point_of svc t w s i = Some p" by blast
    then have "p \<in> set ps" "mi_id (fst p) = i" using pts(2) by blast+
    then show "i \<in> (mi_id \<circ> fst) ` set ps" by auto
  qed
  have "scoped t w (point x1 i) = point_of svc t w s i" for i
  proof (cases "point_of svc t w s i")
    case None
    with after mem show ?thesis by simp
  next
    case (Some p)
    then have p: "p \<in> set ps" "mi_id (fst p) = i" using pts(2) by blast+
    then have "in_scope t w (fst p)" using pts(3) by (cases p) (auto simp: list_all_iff)
    with after Some p show ?thesis by auto
  qed
  with after show "ok x1 \<and> agrees svc t w s x1" by (simp add: agrees_def)
  show "point x1 i = point x i" if "scoped t w (point x i) = None" "point_of svc t w s i = None"
    using after mem [of i] that by simp
qed

text \<open>What the processing of one event does to the points.\<close>

lemma index_retained_points:
  assumes "ok x" and "index_retained up del svc t i s x = (Inr (), x1)" and "get_item t i s = Some item"
  shows "ok x1 \<and> (case (if mi_status item \<in> {Archived, Rejected} then Inr None
        else res_bind (embedded svc (mi_text item)) (\<lambda>v. Inr (Some (item, v)))) of
      Inl e \<Rightarrow> False
    | Inr p \<Rightarrow> point x1 = (\<lambda>j. if mi_supersedes_id item = Some j then None
        else if j = mi_id item then p else point x j))"
proof -
  have tail: "ok x1 \<and> point x1 = (\<lambda>j. if mi_supersedes_id item = Some j then None else point x2 j)"
    if "ok x2" "delete_superseded del item x2 = (Inr (), x1)" for x2
    using that del_point by (auto simp: delete_superseded_def fun_eq_iff split: option.splits)
  show ?thesis
  proof (cases "mi_status item \<in> {Archived, Rejected}")
    case True
    then obtain x2 where "del (mi_id item) x = (Inr (), x2)" "delete_superseded del item x2 = (Inr (), x1)"
      using assms(2,3) by (auto simp: index_retained_def split: sum.splits prod.splits)
    with del_point [OF assms(1) this(1)] tail [of x2] True show ?thesis by (auto simp: fun_eq_iff)
  next
    case False
    then obtain v x2 where "embedded svc (mi_text item) = Inr v"
      "up item v (Some (es_model_name svc)) x = (Inr (), x2)" "delete_superseded del item x2 = (Inr (), x1)"
      using assms(2,3) by (auto simp: index_retained_def split: sum.splits prod.splits)
    with up_point [OF assms(1) this(2)] tail [of x2] False show ?thesis by (auto simp: fun_eq_iff)
  qed
qed

lemma index_new_item:
  assumes "ok x" and "ledger_ok s" and "agrees svc t w s x" and "extends_lineage (st_items s) item"
    and "in_scope t w item"
    and "\<And>p q. mi_supersedes_id item = Some p \<Longrightarrow> dict_get (st_items s) p = Some q \<Longrightarrow> mi_workspace_id q = w"
    and "st_items s' = dict_set (mi_id item) item (st_items s)"
    and "index_retained up del svc t (mi_id item) s' x = (Inr (), x1)"
  shows "ok x1 \<and> agrees svc t w s' x1"
proof -
  have new: "dict_get (st_items s) (mi_id item) = None" using assms(4) by (simp add: extends_lineage_def)
  have get: "get_item t (mi_id item) s' = Some item" using assms(5,7) by (simp add: get_item_Some in_scope_def)
  note after = index_retained_points [OF assms(1,8) get]
  have free: "mi_supersedes_id c \<noteq> Some (mi_id item)" if "dict_get (st_items s) j = Some c" for j c
    using assms(2) new that unfolding ledger_ok_def lineage_ok_def by fastforce
  have self: "mi_supersedes_id item \<noteq> Some (mi_id item)"
    using assms(4) new unfolding extends_lineage_def by fastforce
  have "scoped t w (point x1 i) = point_of svc t w s' i" for i
  proof -
    consider "i = mi_id item" | "mi_supersedes_id item = Some i" | "i \<noteq> mi_id item" "mi_supersedes_id item \<noteq> Some i"
      by blast
    then show ?thesis
    proof cases
      case 1
      have "live_in t w s' item \<longleftrightarrow> mi_status item \<notin> {Archived, Rejected}"
        using free self assms(5,7) by (auto simp: live_in_def)
      with 1 after self assms(5,7) show ?thesis
        by (auto simp: point_of_def res_bind_def split: sum.splits if_splits)
    next
      case 2
      then obtain q where q: "dict_get (st_items s) i = Some q" "mi_tenant_id q = mi_tenant_id item"
        using assms(4) unfolding extends_lineage_def by blast
      have "i \<noteq> mi_id item" using q new by auto
      have "mi_id q = i" using q(1) assms(2) by (auto simp: ledger_ok_def items_ok_def intro: table_ok_ident)
      then have "\<not> live_in t w s' q" using 2 assms(5,7) unfolding live_in_def by auto
      then have "point_of svc t w s' i = None" using q \<open>i \<noteq> mi_id item\<close> by (simp add: point_of_def assms(7))
      with 2 after show ?thesis by (auto split: sum.splits)
    next
      case 3
      have "live_in t w s' m \<longleftrightarrow> live_in t w s m" if "dict_get (st_items s) i = Some m" for m
      proof -
        have "mi_id m = i" using that assms(2) by (auto simp: ledger_ok_def items_ok_def intro: table_ok_ident)
        with 3 have "(mi_supersedes_id c \<noteq> Some (mi_id m))" if "c = item" for c using that by simp
        moreover have "dict_get (st_items s') j = (if j = mi_id item then Some item else dict_get (st_items s) j)" for j
          by (simp add: assms(7))
        ultimately show ?thesis unfolding live_in_def using new by (metis option.distinct(1) option.inject)
      qed
      then have "point_of svc t w s' i = point_of svc t w s i"
        using 3(1) by (auto simp: point_of_def assms(7) split: option.splits)
      with 3 after assms(3) show ?thesis by (auto simp: agrees_def split: sum.splits)
    qed
  qed
  with after show ?thesis by (simp add: agrees_def split: sum.splits)
qed

end

section \<open>The in-memory backend as that port\<close>

lemma write_model_frame:
  "validate_write_model m x = (r, x1) \<Longrightarrow> vx_points x1 = vx_points x \<and> vx_dense_dim x1 = vx_dense_dim x"
  by (auto simp: validate_write_model_def split: option.splits if_splits)

lemma points_ok_cong: "vx_points x1 = vx_points x \<Longrightarrow> points_ok x1 = points_ok x"
  by (simp add: points_ok_def)

interpretation vectors: vector_port upsert delete_point sync_workspace "\<lambda>x. dict_get (vx_points x)" points_ok
proof
  fix x item v m r x1
  assume ok: "points_ok x" and up: "upsert item v m x = (r, x1)"
  show "points_ok x1 \<and> dict_get (vx_points x1) = (case r of Inl e \<Rightarrow> dict_get (vx_points x)
      | Inr _ \<Rightarrow> (dict_get (vx_points x))(mi_id item := Some (item, v)))"
  proof (cases "validate_vector_dimensions [(item, v)] x")
    case (Inl e)
    then have "r = Inl e" "x1 = x" using up by (simp_all add: upsert_def)
    with ok show ?thesis by simp
  next
    case (Inr u)
    obtain u' x2 where w: "validate_write_model m x = (u', x2)" by fastforce
    note frame = write_model_frame [OF w]
    then have ok2: "points_ok x2" using ok points_ok_cong [of x2 x] by simp
    show ?thesis
    proof (cases u')
      case (Inl e)
      with up Inr w ok2 frame show ?thesis by (auto simp: upsert_def)
    next
      case (Inr y)
      then have "r = Inr ()" "x1 = upsert_in_memory item v x2"
        using up w \<open>validate_vector_dimensions [(item, v)] x = Inr u\<close> by (simp_all add: upsert_def)
      with points_ok_upsert [OF ok2, of item v] frame show ?thesis by (simp add: upsert_in_memory_def fun_eq_iff)
    qed
  qed
next
  fix x i r x1
  assume "points_ok x" and "delete_point i x = (r, x1)"
  then show "points_ok x1 \<and> dict_get (vx_points x1) = (case r of Inl e \<Rightarrow> dict_get (vx_points x)
      | Inr _ \<Rightarrow> (dict_get (vx_points x))(i := None))"
    using points_ok_delete [of x i] by (auto simp: delete_point_def delete_in_memory_def dict_get_del fun_eq_iff)
next
  fix x ps t w m r x1
  assume ok: "points_ok x" and d: "distinct (map (mi_id \<circ> fst) ps)" and sync: "sync_workspace t w ps m x = (r, x1)"
  show "points_ok x1 \<and> (case r of Inl e \<Rightarrow> dict_get (vx_points x1) = dict_get (vx_points x)
     | Inr _ \<Rightarrow> (\<forall>p \<in> set ps. dict_get (vx_points x1) (mi_id (fst p)) = Some p)
         \<and> (\<forall>i. i \<notin> (mi_id \<circ> fst) ` set ps \<longrightarrow> dict_get (vx_points x1) i
              = (if scoped t w (dict_get (vx_points x) i) = None then dict_get (vx_points x) i else None)))"
  proof (cases "list_all (\<lambda>(item, v). in_scope t w item) ps \<and> validate_vector_dimensions ps x = Inr ()")
    case False
    with sync ok show ?thesis by (auto simp: sync_workspace_def split: sum.splits if_splits)
  next
    case True
    obtain u x2 where wm: "validate_write_model m x = (u, x2)" by fastforce
    note frame = write_model_frame [OF wm]
    then have ok2: "points_ok x2" using ok points_ok_cong [of x2 x] by simp
    show ?thesis
    proof (cases u)
      case (Inl e)
      with sync True wm ok2 frame show ?thesis by (auto simp: sync_workspace_def)
    next
      case (Inr y)
      then have x1: "r = Inr ()" "x1 = sync_workspace_in_memory t w ps x2"
        using sync wm True by (simp_all add: sync_workspace_def)
      note get = get_synced [OF ok2 d, of t w]
      have "dict_get (vx_points x1) (mi_id (fst p)) = Some p" if "p \<in> set ps" for p
        unfolding x1(2) get using get_replacement_distinct [OF d, of "mi_id (fst p)" p] that by simp
      moreover have "dict_get (vx_points x1) i
          = (if scoped t w (dict_get (vx_points x) i) = None then dict_get (vx_points x) i else None)"
        if "i \<notin> (mi_id \<circ> fst) ` set ps" for i
      proof -
        have "dict_get (replacement_points ps) i = None"
        proof (cases "dict_get (replacement_points ps) i")
          case (Some p)
          then have "p \<in> set ps" "mi_id (fst p) = i" using get_replacement_distinct [OF d, of i p] by simp_all
          then have "i \<in> (mi_id \<circ> fst) ` set ps" by (simp add: image_iff) blast
          with that show ?thesis by blast
        qed simp
        then show ?thesis unfolding x1(2) get using frame by (auto split: option.splits)
      qed
      ultimately show ?thesis using points_ok_sync [OF ok2 d, of t w] x1 by simp
    qed
  qed
qed

section \<open>Following the ledger event by event\<close>

lemma count_scoped:
  assumes "points_ok x"
  shows "count_workspace_points t w x = card {i. scoped t w (dict_get (vx_points x) i) \<noteq> None}"
proof -
  have ok: "dict_ok (vx_points x)" and ids: "\<And>k p. dict_get (vx_points x) k = Some p \<Longrightarrow> mi_id (fst p) = k"
    using assms by (auto simp: points_ok_def table_ok_def)
  let ?P = "\<lambda>(item, v). in_scope t w item"
  have "map fst (filter (?P \<circ> snd) (vx_points x)) = map (mi_id \<circ> fst \<circ> snd) (filter (?P \<circ> snd) (vx_points x))"
    using ids ok by (auto simp: dict_get_set_mem)
  have d: "distinct (map fst (filter (?P \<circ> snd) (vx_points x)))" using ok by (rule distinct_map_filter)
  have "count_workspace_points t w x = length (map fst (filter (?P \<circ> snd) (vx_points x)))"
    by (simp add: count_workspace_points_def filter_map case_prod_unfold comp_def)
  also have "\<dots> = card (set (map fst (filter (?P \<circ> snd) (vx_points x))))" using distinct_card [OF d] by simp
  also have "set (map fst (filter (?P \<circ> snd) (vx_points x))) = {i. scoped t w (dict_get (vx_points x) i) \<noteq> None}"
  proof (intro set_eqI)
    fix i
    have "i \<in> set (map fst (filter (?P \<circ> snd) (vx_points x))) \<longleftrightarrow> (\<exists>p. (i, p) \<in> set (vx_points x) \<and> in_scope t w (fst p))"
      by (force simp: case_prod_unfold)
    also have "\<dots> \<longleftrightarrow> (\<exists>p. dict_get (vx_points x) i = Some p \<and> in_scope t w (fst p))"
      by (simp only: dict_get_set_mem [OF ok])
    finally show "i \<in> set (map fst (filter (?P \<circ> snd) (vx_points x)))
        \<longleftrightarrow> i \<in> {i. scoped t w (dict_get (vx_points x) i) \<noteq> None}"
      by (auto simp: scoped_def split: option.split)
  qed
  finally show ?thesis .
qed

text \<open>
  Every new memory of the workspace enters the ledger and its event is processed before the next one.
\<close>

fun indexed_stream ::
  "embedding_service \<Rightarrow> real \<Rightarrow> uuid \<Rightarrow> uuid \<Rightarrow> memory_item list \<Rightarrow> store \<times> embedding_metrics \<times> vector_index
    \<Rightarrow> (store \<times> embedding_metrics \<times> vector_index) option"
where
  "indexed_stream svc d t w [] st = Some st"
| "indexed_stream svc d t w (item # items) (s, m, x) =
    (if extends_lineage (st_items s) item \<and> in_scope t w item
        \<and> (\<forall>p q. mi_supersedes_id item = Some p \<longrightarrow> dict_get (st_items s) p = Some q \<longrightarrow> mi_workspace_id q = w)
     then let s1 = s\<lparr>st_items := dict_set (mi_id item) item (st_items s)\<rparr> in
       case process_memory_retained upsert delete_point svc d t (mi_id item) s1 (m, x) of
         (Inl e, _) \<Rightarrow> None
       | (Inr _, m1, x1) \<Rightarrow> indexed_stream svc d t w items (s1, m1, x1)
     else None)"

lemma ledger_ok_item:
  assumes "ledger_ok s" and "extends_lineage (st_items s) item"
  shows "ledger_ok (s\<lparr>st_items := dict_set (mi_id item) item (st_items s)\<rparr>)"
proof -
  have "remember t None i d = d" for t i and d :: "(uuid \<times> str, uuid) dict" by (simp add: remember_def given_def)
  with ledger_ok_insert [OF assms, of None] have l: "ledger_ok (s\<lparr>st_items := dict_set (mi_id item) item (st_items s),
      st_idempotency := st_idempotency s\<rparr>)" by simp
  show ?thesis by (rule iffD1 [OF ledger_ok_cong l]) simp_all
qed

lemma indexed_stream_agrees:
  assumes "indexed_stream svc d t w items (s, m, x) = Some (s', m', x')"
    and "ledger_ok s" and "points_ok x" and "vectors.agrees svc t w s x"
  shows "ledger_ok s' \<and> points_ok x' \<and> vectors.agrees svc t w s' x'"
  using assms
proof (induction items arbitrary: s m x)
  case (Cons item items)
  let ?s = "s\<lparr>st_items := dict_set (mi_id item) item (st_items s)\<rparr>"
  obtain m1 x1 where item: "extends_lineage (st_items s) item" "in_scope t w item"
      "\<And>p q. mi_supersedes_id item = Some p \<Longrightarrow> dict_get (st_items s) p = Some q \<Longrightarrow> mi_workspace_id q = w"
    and step: "process_memory_retained upsert delete_point svc d t (mi_id item) ?s (m, x) = (Inr (), m1, x1)"
    and rest: "indexed_stream svc d t w items (?s, m1, x1) = Some (s', m', x')"
    using Cons.prems(1) by (auto simp: Let_def split: if_splits sum.splits prod.splits)
  have "index_retained upsert delete_point svc t (mi_id item) ?s x = (Inr (), x1)"
    using step by (auto simp: process_memory_retained_def split: sum.splits prod.splits)
  from vectors.index_new_item [OF Cons.prems(3,2,4) item(1,2) _ _ this] item(3)
  have "points_ok x1 \<and> vectors.agrees svc t w ?s x1" by simp
  with Cons.IH [OF rest ledger_ok_item [OF Cons.prems(2) item(1)]] show ?case by blast
qed simp

lemma reindexed:
  assumes "reindex_all sync_workspace svc d t w s (m, x) = (Inr n, m1, x1)" and "points_ok x" and "items_ok s"
  shows "points_ok x1 \<and> vectors.agrees svc t w s x1 \<and> count_workspace_points t w x1 = n"
proof -
  have r: "reindex_workspace sync_workspace svc t w s x = (Inr n, x1)"
    using assms(1) by (auto simp: reindex_all_def split: sum.splits prod.splits)
  note a = vectors.reindex_agrees(1) [OF assms(2,3) r]
  obtain ps where ps: "reindex_pairs svc (list_items t w [] None None None 0 s) = Inr ps" "n = length ps"
    using r by (auto simp: reindex_workspace_def split: sum.splits prod.splits)
  note pts = reindex_pairs_points [OF assms(3) ps(1)]
  have "{i. point_of svc t w s i \<noteq> None} = (mi_id \<circ> fst) ` set ps"
  proof (intro set_eqI iffI)
    fix i assume "i \<in> {i. point_of svc t w s i \<noteq> None}"
    then obtain p where "point_of svc t w s i = Some p" by auto
    then have "p \<in> set ps" "mi_id (fst p) = i" using pts(2) by blast+
    then show "i \<in> (mi_id \<circ> fst) ` set ps" by auto
  next
    fix i assume "i \<in> (mi_id \<circ> fst) ` set ps"
    then obtain p where "p \<in> set ps" "mi_id (fst p) = i" by auto
    then show "i \<in> {i. point_of svc t w s i \<noteq> None}" using pts(2) by blast
  qed
  moreover have "card ((mi_id \<circ> fst) ` set ps) = n"
    using distinct_card [OF pts(1)] unfolding set_map [symmetric] ps(2) by simp
  ultimately show ?thesis using a count_scoped [of x1 t w] by (simp add: vectors.agrees_def)
qed

text \<open>
  C27: Indexing memory by memory gives the index a full reindex gives. When a workspace was reindexed
  and since then every new memory was processed once, in the order of the commits, its points are those
  of a full reindex of any other index from the same ledger: one point for every memory that is neither
  superseded, archived nor rejected, with the vector of its text, as many as the reindex reports.
\<close>

theorem incremental_equals_reindex:
  assumes "ledger_ok s" and "points_ok x0" and "reindex_all sync_workspace svc d t w s (m0, x0) = (Inr n0, m1, x)"
    and "indexed_stream svc d t w items (s, m1, x) = Some (s', m2, x')"
    and "points_ok y" and "reindex_all sync_workspace svc d t w s' (m2, y) = (Inr n, m3, z)"
  shows "(\<forall>i. scoped t w (dict_get (vx_points x') i) = scoped t w (dict_get (vx_points z) i))
    \<and> count_workspace_points t w x' = n \<and> count_workspace_points t w z = n
    \<and> (\<forall>i p. scoped t w (dict_get (vx_points z) i) = Some p \<longleftrightarrow> get_item t i s' = Some (fst p)
         \<and> live_in t w s' (fst p) \<and> embedded svc (mi_text (fst p)) = Inr (snd p))"
proof -
  have "items_ok s" using assms(1) by (simp add: ledger_ok_def)
  note first = reindexed [OF assms(3,2) this]
  have s': "ledger_ok s' \<and> points_ok x' \<and> vectors.agrees svc t w s' x'"
    using indexed_stream_agrees [OF assms(4,1)] first by blast
  then have "items_ok s'" by (simp add: ledger_ok_def)
  note final = reindexed [OF assms(6,5) this]
  have "point_of svc t w s' i = Some p \<longleftrightarrow> get_item t i s' = Some (fst p)
      \<and> live_in t w s' (fst p) \<and> embedded svc (mi_text (fst p)) = Inr (snd p)" for i p
    by (cases p) (auto simp: point_of_def get_item_Some live_in_def in_scope_def split: option.splits sum.splits)
  then show ?thesis using s' final count_scoped [of x' t w] count_scoped [of z t w]
    by (simp add: vectors.agrees_def)
qed

text \<open>
  (unlisted): An event that arrives after the memory it names was superseded puts the superseded memory back
  into the index, and it stays there. The search over the index still never returns it while the ledger
  is attached.
\<close>

theorem late_event_restores_stale_point:
  assumes "ledger_ok s" and "points_ok x" and "get_item t i s = Some old" and "mi_status old \<notin> {Archived, Rejected}"
    and "dict_get (st_items s) j = Some c" and "mi_tenant_id c = t" and "mi_supersedes_id c = Some i"
    and "process_memory_retained upsert delete_point svc d t i s (m, x) = (Inr (), m1, x1)"
  shows "(\<exists>v. dict_get (vx_points x1) i = Some (old, v)) \<and> \<not> is_recallable_head t i s
    \<and> (\<forall>f q cs. search_in_memory f (Some s) q x1 = Inr cs \<longrightarrow> i \<notin> (mi_id \<circ> ca_item) ` set cs)"
proof -
  have ok: "items_ok s" using assms(1) by (simp add: ledger_ok_def)
  have old: "dict_get (st_items s) i = Some old" "mi_tenant_id old = t" "mi_id old = i"
    using assms(3) ok by (auto simp: get_item_Some items_ok_def intro: table_ok_ident)
  have "index_retained upsert delete_point svc t i s x = (Inr (), x1)"
    using assms(8) by (auto simp: process_memory_retained_def split: sum.splits prod.splits)
  note after = vectors.index_retained_points [OF assms(2) this assms(3)]
  have "mi_supersedes_id old \<noteq> Some i"
    using assms(1) old(1) unfolding ledger_ok_def lineage_ok_def by fastforce
  then have point: "\<exists>v. dict_get (vx_points x1) i = Some (old, v)"
    using after assms(4) old(3) by (auto simp: res_bind_def split: sum.splits)
  have stale: "\<not> is_recallable_head t' i s" for t'
    using dict_get_values [OF assms(5)] assms(6,7) old
    by (auto simp: is_recallable_head_def get_item_def list_ex_iff)
  have "i \<notin> (mi_id \<circ> ca_item) ` set cs" if found: "search_in_memory f (Some s) q x1 = Inr cs" for f q cs
  proof
    assume "i \<in> (mi_id \<circ> ca_item) ` set cs"
    then obtain cand where cand: "cand \<in> set cs" "mi_id (ca_item cand) = i" by auto
    have "mi_id (ca_item cand) \<in> recallable_head_ids (Some s) (map fst (dict_values (vx_points x1)))"
      using found cand(1) py_take_subset
      by (auto simp: search_in_memory_def res_bind_Inr_iff Let_def split: option.splits dest!: py_take_subset [THEN subsetD])
    then show False using stale cand(2) unfolding recallable_heads_mem by blast
  qed
  with point stale show ?thesis by blast
qed

section \<open>The theorems at work\<close>

definition plain_embedding :: embedding_service where
  "plain_embedding = fst (new_embedding_service (\<lambda>txt. Inr [real (length txt)]) 1 (lit ''plain-v1'') 0)"

definition empty_index :: vector_index where
  "empty_index = \<lparr>vx_dense_dim = 1, vx_model = None, vx_points = []\<rparr>"

abbreviation fresh_metrics :: embedding_metrics where
  "fresh_metrics \<equiv> snd (new_embedding_service (\<lambda>txt. Inr [real (length txt)]) 1 (lit ''plain-v1'') 0)"

abbreviation first_note :: memory_item where "first_note \<equiv> sample_item 1 7 8 (lit ''tea'')"
abbreviation second_note :: memory_item where "second_note \<equiv> sample_revision 2 first_note (lit ''milk'')"

definition one_note :: store where
  "one_note = empty_store\<lparr>st_items := [(1, first_note)]\<rparr>"

definition two_notes :: store where
  "two_notes = empty_store\<lparr>st_items := [(1, first_note), (2, second_note)]\<rparr>"

lemma empty_index_ok: "points_ok empty_index"
  by (simp add: points_ok_def table_ok_def empty_index_def)

abbreviation start_run :: "nat res \<times> embedding_metrics \<times> vector_index" where
  "start_run \<equiv> reindex_all sync_workspace plain_embedding 0 7 8 empty_store (fresh_metrics, empty_index)"

abbreviation first_indexed :: "unit res \<times> embedding_metrics \<times> vector_index" where
  "first_indexed \<equiv> process_memory_retained upsert delete_point plain_embedding 0 7 1 one_note (snd start_run)"

abbreviation second_indexed :: "unit res \<times> embedding_metrics \<times> vector_index" where
  "second_indexed \<equiv> process_memory_retained upsert delete_point plain_embedding 0 7 2 two_notes (snd first_indexed)"

lemma stream_step:
  assumes "extends_lineage (st_items s) item" and "in_scope t w item"
    and "\<And>p q. mi_supersedes_id item = Some p \<Longrightarrow> dict_get (st_items s) p = Some q \<Longrightarrow> mi_workspace_id q = w"
    and "s\<lparr>st_items := dict_set (mi_id item) item (st_items s)\<rparr> = s1" and "mi_id item = i"
    and "fst (process_memory_retained upsert delete_point svc d t i s1 st) = Inr ()"
  shows "indexed_stream svc d t w (item # items) (s, st)
    = indexed_stream svc d t w items (s1, snd (process_memory_retained upsert delete_point svc d t i s1 st))"
  using assms by (cases st) (auto split: prod.splits)

lemma note_fields: "mi_id first_note = 1" "mi_id second_note = 2" "mi_supersedes_id first_note = None"
  "mi_supersedes_id second_note = Some 1" "mi_tenant_id first_note = 7" "mi_tenant_id second_note = 7"
  "mi_workspace_id first_note = 8" "mi_workspace_id second_note = 8" "mi_status first_note = Active"
  "mi_revision second_note = mi_revision first_note + 1"
  by (simp_all add: sample_item_def sample_revision_def)

lemma note_stores:
  "empty_store\<lparr>st_items := dict_set (mi_id first_note) first_note (st_items empty_store)\<rparr> = one_note"
  "one_note\<lparr>st_items := dict_set (mi_id second_note) second_note (st_items one_note)\<rparr> = two_notes"
  by (simp_all add: one_note_def two_notes_def note_fields empty_store_def)

lemma note_lineage:
  "extends_lineage (st_items empty_store) first_note" "extends_lineage (st_items one_note) second_note"
  by (simp_all add: extends_lineage_def note_fields empty_store_def one_note_def)

lemma two_notes_ok: "ledger_ok two_notes"
  using ledger_ok_item [OF ledger_ok_item [OF empty_ledger_ok note_lineage(1)], of second_note] note_lineage(2)
  by (simp only: note_stores)

lemma notes_stream:
  "indexed_stream plain_embedding 0 7 8 [first_note, second_note] (empty_store, snd start_run)
    = Some (two_notes, snd second_indexed)"
proof -
  have scope: "in_scope 7 8 first_note" "in_scope 7 8 second_note" by (simp_all add: in_scope_def note_fields)
  have ran: "fst first_indexed = Inr ()" "fst second_indexed = Inr ()" by code_simp+
  have "mi_workspace_id q = 8" if "dict_get (st_items one_note) p = Some q" for p q
    using that note_fields(7) by (simp add: one_note_def split: if_splits)
  then have second: "indexed_stream plain_embedding 0 7 8 [second_note] (one_note, snd first_indexed)
      = indexed_stream plain_embedding 0 7 8 [] (two_notes, snd second_indexed)"
    by (intro stream_step note_lineage(2) scope note_stores(2) note_fields(2) ran(2)) blast
  have "indexed_stream plain_embedding 0 7 8 [first_note, second_note] (empty_store, snd start_run)
      = indexed_stream plain_embedding 0 7 8 [second_note] (one_note, snd first_indexed)"
    by (intro stream_step note_lineage(1) scope note_stores(1) note_fields(1) ran(1)) (simp add: note_fields)
  with second show ?thesis by simp
qed

theorem incremental_equals_reindex_witness:
  "indexed_stream plain_embedding 0 7 8 [first_note, second_note] (empty_store, snd start_run)
      = Some (two_notes, snd second_indexed) \<and> count_workspace_points 7 8 (snd (snd second_indexed)) = 1"
proof -
  let ?again = "reindex_all sync_workspace plain_embedding 0 7 8 two_notes (fst (snd second_indexed), empty_index)"
  have "fst start_run = Inr 0" "fst ?again = Inr 1" by code_simp+
  then have runs: "start_run = (Inr 0, fst (snd start_run), snd (snd start_run))"
    "?again = (Inr 1, fst (snd ?again), snd (snd ?again))" by (simp_all add: prod_eq_iff)
  have "indexed_stream plain_embedding 0 7 8 [first_note, second_note] (empty_store, fst (snd start_run), snd (snd start_run))
      = Some (two_notes, fst (snd second_indexed), snd (snd second_indexed))"
    using notes_stream by simp
  from incremental_equals_reindex [OF empty_ledger_ok empty_index_ok runs(1) this empty_index_ok runs(2)] notes_stream
  show ?thesis by blast
qed

theorem late_event_restores_stale_point_witness:
  "\<exists>m x v. process_memory_retained upsert delete_point plain_embedding 0 7 1 two_notes (fresh_metrics, empty_index)
      = (Inr (), m, x) \<and> dict_get (vx_points x) 1 = Some (first_note, v) \<and> \<not> is_recallable_head 7 1 two_notes"
proof -
  let ?run = "process_memory_retained upsert delete_point plain_embedding 0 7 1 two_notes (fresh_metrics, empty_index)"
  have "fst ?run = Inr ()" by code_simp
  then have run: "?run = (Inr (), fst (snd ?run), snd (snd ?run))" by (simp add: prod_eq_iff)
  have get: "get_item 7 1 two_notes = Some first_note" "dict_get (st_items two_notes) 2 = Some second_note"
    by (simp_all add: get_item_def two_notes_def note_fields)
  have status: "mi_status first_note \<notin> {Archived, Rejected}" by (simp add: note_fields)
  from late_event_restores_stale_point [OF two_notes_ok empty_index_ok get(1) status get(2) note_fields(6,4) run]
  show ?thesis using run by blast
qed

end
