(* ===== verification/PyStrings.thy ===== *)
theory PyStrings
  imports PyValues
begin

text \<open>
  The string methods that the vault and the access rules of the HTTP interface use beyond those of
  \<open>Text\<close>: \<open>count\<close>, \<open>replace\<close>, \<open>split\<close> on a character, \<open>strip\<close> of given characters, \<open>endswith\<close>.
\<close>

section \<open>Counting, replacing, splitting and stripping characters\<close>

text \<open>\<open>s.count(c)\<close> of a character, \<open>s.replace\<close>, \<open>s.split(c)\<close>, \<open>s.strip(chars)\<close>, \<open>s.endswith\<close>.\<close>

definition count_char :: "int \<Rightarrow> str \<Rightarrow> nat" where
  "count_char c s = length (filter (\<lambda>x. x = c) s)"

definition replace_char :: "int \<Rightarrow> str \<Rightarrow> str \<Rightarrow> str" where
  "replace_char c new s = concat (map (\<lambda>x. if x = c then new else [x]) s)"

function py_replace :: "str \<Rightarrow> str \<Rightarrow> str \<Rightarrow> str" where
  "py_replace old new s = (if s = [] \<or> old = [] then s
     else if starts_with old s then new @ py_replace old new (drop (length old) s)
     else hd s # py_replace old new (tl s))"
  by pat_completeness auto
termination by (relation "measure (\<lambda>(old, new, s). length s)") auto

declare py_replace.simps [simp del]

fun split_char :: "int \<Rightarrow> str \<Rightarrow> str \<Rightarrow> str list" where
  "split_char c acc [] = [rev acc]"
| "split_char c acc (x # xs) = (if x = c then rev acc # split_char c [] xs else split_char c (x # acc) xs)"

definition strip_chars :: "int set \<Rightarrow> str \<Rightarrow> str" where
  "strip_chars cs s = rev (dropWhile (\<lambda>c. c \<in> cs) (rev (dropWhile (\<lambda>c. c \<in> cs) s)))"

definition lstrip_chars :: "int set \<Rightarrow> str \<Rightarrow> str" where
  "lstrip_chars cs s = dropWhile (\<lambda>c. c \<in> cs) s"

definition rstrip_chars :: "int set \<Rightarrow> str \<Rightarrow> str" where
  "rstrip_chars cs s = rev (dropWhile (\<lambda>c. c \<in> cs) (rev s))"

definition ends_with :: "str \<Rightarrow> str \<Rightarrow> bool" where
  "ends_with p s \<longleftrightarrow> starts_with (rev p) (rev s)"

lemma py_replace_simps:
  "py_replace old new [] = []"
  "old \<noteq> [] \<Longrightarrow> py_replace old new (c # cs) =
    (if starts_with old (c # cs) then new @ py_replace old new (drop (length old) (c # cs))
     else c # py_replace old new cs)"
  by (subst py_replace.simps; simp)+

lemma length_py_replace:
  assumes "length new < length old"
  shows "length (py_replace old new s) \<le> length s"
    and "contains old s \<Longrightarrow> length (py_replace old new s) < length s"
proof -
  have "length (py_replace old new s) \<le> length s
      \<and> (contains old s \<longrightarrow> length (py_replace old new s) < length s)"
    using assms
  proof (induction old new s rule: py_replace.induct)
    case (1 old new s)
    show ?case
    proof (cases "s = []")
      case True
      then show ?thesis using 1(3) by (auto simp: py_replace_simps)
    next
      case ne: False
      then obtain c cs where s: "s = c # cs" by (cases s) auto
      have old: "old \<noteq> []" using 1(3) by auto
      show ?thesis
      proof (cases "starts_with old s")
        case True
        then have len: "length old \<le> length s" by (metis starts_with_def length_take min.cobounded1)
        have "length (py_replace old new (drop (length old) s)) \<le> length s - length old"
          using 1(1) [OF _ True] 1(3) ne old by fastforce
        then have "length (py_replace old new (drop (length old) s)) + length old \<le> length s" using len by linarith
        moreover have "py_replace old new s = new @ py_replace old new (drop (length old) s)"
          using True old by (simp add: s py_replace_simps)
        ultimately show ?thesis using 1(3) by simp
      next
        case False
        then have "length (py_replace old new cs) \<le> length cs
            \<and> (contains old cs \<longrightarrow> length (py_replace old new cs) < length cs)"
          using 1(2) [OF _ False] 1(3) ne old by (simp add: s)
        then show ?thesis using False old by (auto simp: s py_replace_simps)
      qed
    qed
  qed
  then show "length (py_replace old new s) \<le> length s"
    and "contains old s \<Longrightarrow> length (py_replace old new s) < length s" by blast+
qed

end
