(* ===== verification/VaultNotes.thy ===== *)
theory VaultNotes
  imports PyStrings EventEnvelope
begin

text \<open>
  The notes of the Markdown vault (\<open>services/vault.py\<close>): the frontmatter writer and reader, the removal of
  technical lines from edited text, the replacement of one section, and the note of a memory and of an
  observation. \<open>str\<close> of a float is a field of \<open>runtime\<close>; \<open>str\<close> of what the frontmatter reader returns for
  floats and lists is a parameter where it is needed.
\<close>

section \<open>Lines that are not memory text\<close>

definition system_headings :: "str list" where
  "system_headings =
    [lit ''provenance'', lit ''quote'', lit ''links'', lit ''evidence'', lit ''embedding'',
     lit ''embeddings'', lit ''vector'', lit ''vectors'', lit ''vector data'', lit ''metadata'',
     lit ''frontmatter'', lit ''revision'', lit ''revisions'', lit ''technical'', lit ''system'',
     lit ''service data'', lit ''service'', lit ''debug'', lit ''diagnostics'', lit ''checksums'',
     lit ''checksums and signatures'', [1089, 1083, 1091, 1078, 1077, 1073, 1085, 1086, 1077],
     [1089, 1083, 1091, 1078, 1077, 1073, 1085, 1099, 1077, 32, 1076, 1072, 1085, 1085, 1099, 1077],
     [1074, 1077, 1082, 1090, 1086, 1088], [1074, 1077, 1082, 1090, 1086, 1088, 1099],
     [1074, 1077, 1082, 1090, 1086, 1088, 1085, 1099, 1077, 32, 1076, 1072, 1085, 1085, 1099, 1077],
     [101, 109, 98, 101, 100, 100, 105, 110, 103, 32, 1076, 1072, 1085, 1085, 1099, 1077],
     [1101, 1084, 1073, 1077, 1076, 1076, 1080, 1085, 1075],
     [1101, 1084, 1073, 1077, 1076, 1076, 1080, 1085, 1075, 1080],
     [1090, 1077, 1093, 1085, 1080, 1095, 1077, 1089, 1082, 1080, 1077, 32, 1076, 1072, 1085, 1085, 1099, 1077],
     [1084, 1077, 1090, 1072, 1076, 1072, 1085, 1085, 1099, 1077], [1088, 1077, 1074, 1080, 1079, 1080, 1080],
     [1076, 1080, 1072, 1075, 1085, 1086, 1089, 1090, 1080, 1082, 1072]]"

definition is_system_heading :: "str \<Rightarrow> bool" where
  "is_system_heading line \<longleftrightarrow>
    (let stripped = strip line in
     starts_with (lit ''##'') stripped \<and> py_lower (strip (lstrip_chars {35} stripped)) \<in> set system_headings)"

definition system_keys :: "str list" where
  "system_keys =
    [lit ''embedding'', lit ''embeddings'', lit ''vector'', lit ''vectors'', lit ''metadata'',
     lit ''provenance'', lit ''revision'', lit ''revisions'', lit ''checksum_sha256'', lit ''checksum'',
     lit ''source'', lit ''origin'', lit ''object'', lit ''supersedes'', lit ''superseded_by'',
     lit ''tenant_id'', lit ''workspace_id'', lit ''item_id'', lit ''id'', lit ''payload'', lit ''point'',
     lit ''points'', lit ''qdrant'', lit ''dense'', lit ''sparse'', lit ''values'', lit ''dimension'',
     lit ''dimensions'', lit ''dim'', lit ''model'', lit ''model_name'', lit ''provider'', lit ''score'',
     lit ''distance'', lit ''created_at'', lit ''updated_at'', lit ''valid_from'', lit ''valid_to'',
     lit ''observed_at'', lit ''labels'', lit ''confidence'', lit ''importance'', lit ''status'',
     lit ''type'', [1101, 1084, 1073, 1077, 1076, 1076, 1080, 1085, 1075],
     [1101, 1084, 1073, 1077, 1076, 1076, 1080, 1085, 1075, 1080], [1074, 1077, 1082, 1090, 1086, 1088],
     [1074, 1077, 1082, 1090, 1086, 1088, 1099], [1084, 1077, 1090, 1072, 1076, 1072, 1085, 1085, 1099, 1077],
     [1088, 1077, 1074, 1080, 1079, 1080, 1103], [1088, 1077, 1074, 1080, 1079, 1080, 1080],
     [1080, 1089, 1090, 1086, 1095, 1085, 1080, 1082],
     [1082, 1086, 1085, 1090, 1088, 1086, 1083, 1100, 1085, 1072, 1103, 32, 1089, 1091, 1084, 1084, 1072],
     [1089, 1083, 1091, 1078, 1077, 1073, 1085, 1099, 1077, 32, 1076, 1072, 1085, 1085, 1099, 1077],
     [1088, 1072, 1079, 1084, 1077, 1088, 1085, 1086, 1089, 1090, 1100], [1084, 1086, 1076, 1077, 1083, 1100],
     [1087, 1088, 1086, 1074, 1072, 1081, 1076, 1077, 1088]]"

definition looks_like_system_field :: "str \<Rightarrow> bool" where
  "looks_like_system_field line \<longleftrightarrow>
    (let normalized = lstrip_chars {34, 39} (py_lower line) in
     list_ex (\<lambda>key. starts_with (key @ [58]) normalized \<or> starts_with (key @ [34, 58]) normalized
       \<or> starts_with (key @ [39, 58]) normalized \<or> starts_with (key @ [61]) normalized
       \<or> starts_with (key @ [32, 61]) normalized) system_keys)"

definition is_float_like :: "str \<Rightarrow> bool" where
  "is_float_like s \<longleftrightarrow> float_literal s \<noteq> None"

definition looks_like_vector_payload :: "str \<Rightarrow> bool" where
  "looks_like_vector_payload line \<longleftrightarrow>
    (let compact = strip_chars {91, 93} (strip line) in
     if 44 \<in> set compact then
       (let parts = map strip (filter (\<lambda>p. \<not> blank p) (split_char 44 [] compact))
        in 4 \<le> length parts \<and> list_all is_float_like parts)
     else (let parts = py_split compact in 9 \<le> length parts \<and> list_all is_float_like parts))"

definition looks_like_vector_block_start :: "str \<Rightarrow> bool" where
  "looks_like_vector_block_start line \<longleftrightarrow>
    (let stripped = strip line in
     if stripped = [91] then True
     else if \<not> starts_with [91] stripped then False
     else let remainder = rstrip_chars {44} (strip (drop 1 stripped)) in remainder \<noteq> [] \<and> is_float_like remainder)"

definition fence :: str where "fence = [96, 96, 96]"

definition looks_like_structured_payload_start :: "str \<Rightarrow> bool" where
  "looks_like_structured_payload_start line \<longleftrightarrow>
    (let lowered = py_lower line in
     if starts_with fence lowered \<and> list_ex (\<lambda>token. contains token lowered)
          [lit ''json'', lit ''yaml'', lit ''yml'', lit ''embedding'', lit ''vector'', lit ''qdrant''] then True
     else if \<not> (starts_with [123] lowered \<or> starts_with [91] lowered) then False
     else list_ex (\<lambda>token. contains token lowered)
          [lit ''embedding'', lit ''embeddings'', lit ''vector'', lit ''vectors'', lit ''payload'', lit ''qdrant'',
           lit ''metadata'', lit ''provenance'', lit ''dimension'', lit ''model_name''])"

definition technical_line :: "str \<Rightarrow> bool" where
  "technical_line line \<longleftrightarrow> is_system_heading line \<or> looks_like_system_field (strip line)
     \<or> looks_like_vector_payload (strip line) \<or> looks_like_vector_block_start (strip line)
     \<or> looks_like_structured_payload_start (strip line)"

section \<open>Cleaning an edited body\<close>

record sanitize_state =
  sz_kept :: "str list"
  sz_block :: int
  sz_fence :: bool

definition sanitize_line :: "sanitize_state \<Rightarrow> str \<Rightarrow> sanitize_state" where
  "sanitize_line st line =
    (let stripped = strip line in
     if sz_fence st then st\<lparr>sz_fence := \<not> starts_with fence stripped\<rparr>
     else if sz_block st \<noteq> 0 then
       st\<lparr>sz_block := max 0 (sz_block st + int (count_char 123 stripped) + int (count_char 91 stripped)
            - int (count_char 125 stripped) - int (count_char 93 stripped))\<rparr>
     else if stripped = [] then st\<lparr>sz_kept := sz_kept st @ [[]]\<rparr>
     else if technical_line line then
       (if starts_with fence stripped then st\<lparr>sz_fence := True\<rparr>
        else if ends_with [123] stripped \<or> ends_with [91] stripped then st\<lparr>sz_block := 1\<rparr>
        else st)
     else st\<lparr>sz_kept := sz_kept st @ [line]\<rparr>)"

function collapse_blank_lines :: "str \<Rightarrow> str" where
  "collapse_blank_lines s =
    (if contains [10, 10, 10] s then collapse_blank_lines (py_replace [10, 10, 10] [10, 10] s) else s)"
  by pat_completeness auto
termination by (relation "measure length") (auto intro: length_py_replace(2))

declare collapse_blank_lines.simps [simp del]

definition sanitize_lines :: "str list \<Rightarrow> sanitize_state" where
  "sanitize_lines ls = foldl sanitize_line \<lparr>sz_kept = [], sz_block = 0, sz_fence = False\<rparr> ls"

definition sanitize_editable_body :: "str \<Rightarrow> str" where
  "sanitize_editable_body s = strip (collapse_blank_lines (join [10] (sz_kept (sanitize_lines (splitlines s)))))"

section \<open>Writing frontmatter\<close>

definition yaml_pad :: "nat \<Rightarrow> str" where "yaml_pad n = replicate n 32"

definition yaml_text :: "str \<Rightarrow> str" where
  "yaml_text s = [34] @ replace_char 34 [92, 34] (replace_char 92 [92, 92] s) @ [34]"

fun yaml_value :: "runtime \<Rightarrow> nat \<Rightarrow> pyval \<Rightarrow> str" where
  "yaml_value rt indent PNone = lit ''null''"
| "yaml_value rt indent (PBool b) = (if b then lit ''true'' else lit ''false'')"
| "yaml_value rt indent (PInt i) = int_str i"
| "yaml_value rt indent (PFloat x) = rt_repr rt (PFloat x)"
| "yaml_value rt indent (PStr s) = yaml_text s"
| "yaml_value rt indent (PList xs) = (if xs = [] then lit ''[]''
     else [10] @ join [10] (map (\<lambda>v. yaml_pad (indent + 2) @ lit ''- '' @ yaml_value rt (indent + 2) v) xs))"
| "yaml_value rt indent (PDict d) = (if d = [] then lit ''{}''
     else [10] @ join [10] (map snd (sort_key fst
       (map (\<lambda>(k, v). (k, yaml_pad (indent + 2) @ k @ lit '': '' @ yaml_value rt (indent + 2) v)) d))))"

definition frontmatter :: "runtime \<Rightarrow> metadata \<Rightarrow> str" where
  "frontmatter rt values = join [10] ([lit ''---''] @ map (\<lambda>(k, v). k @ lit '': '' @ yaml_value rt 0 v) values @ [lit ''---''])"

section \<open>Reading frontmatter\<close>

datatype yaml = YNull | YBool bool | YInt int | YFloat pyfloat | YStr str | YList "yaml list" | YEmptyDict

definition yaml_scalar :: "str \<Rightarrow> yaml" where
  "yaml_scalar value =
    (if value = lit ''null'' then YNull
     else if value = lit ''true'' then YBool True
     else if value = lit ''false'' then YBool False
     else if value = lit ''[]'' then YList []
     else if value = lit ''{}'' then YEmptyDict
     else if 2 \<le> length value \<and> hd value = 34 \<and> last value = 34 then
       YStr (py_replace [92, 92] [92] (py_replace [92, 34] [34] (butlast (tl value))))
     else case int_literal (strip value) of Some i \<Rightarrow> YInt i
     | None \<Rightarrow> (case float_literal value of Some x \<Rightarrow> YFloat x | None \<Rightarrow> YStr value))"

definition list_line :: "str \<Rightarrow> bool" where
  "list_line line \<longleftrightarrow> starts_with (lit ''  - '') line"

function parse_frontmatter :: "str list \<Rightarrow> (str, yaml) dict \<Rightarrow> (str, yaml) dict res" where
  "parse_frontmatter [] result = Inr result"
| "parse_frontmatter (line # rest) result =
    (if blank line then parse_frontmatter rest result
     else if starts_with [32] line \<or> 58 \<notin> set line then
       Inl (ValueError (lit ''unsupported frontmatter line: '' @ line))
     else
       (let key = takeWhile (\<lambda>c. c \<noteq> 58) line; raw_value = strip (drop 1 (dropWhile (\<lambda>c. c \<noteq> 58) line)) in
        if raw_value = [] then
          parse_frontmatter (dropWhile list_line rest)
            (dict_set key (YList (map (\<lambda>l. yaml_scalar (strip (drop 4 l))) (takeWhile list_line rest))) result)
        else parse_frontmatter rest (dict_set key (yaml_scalar raw_value) result)))"
  by pat_completeness auto
termination by (relation "measure (\<lambda>(ls, _). length ls)") (auto simp: le_imp_less_Suc length_dropWhile_le)

record markdown_note =
  md_frontmatter :: "(str, yaml) dict"
  md_body :: str

definition parse_markdown_note :: "str \<Rightarrow> markdown_note res" where
  "parse_markdown_note content =
    (case splitlines content of
       [] \<Rightarrow> Inl (ValueError (lit ''missing YAML frontmatter''))
     | first # lines \<Rightarrow>
         if strip first \<noteq> lit ''---'' then Inl (ValueError (lit ''missing YAML frontmatter''))
         else if lit ''---'' \<notin> set lines then Inl (ValueError (lit ''unterminated YAML frontmatter''))
         else res_bind (parse_frontmatter (takeWhile (\<lambda>l. l \<noteq> lit ''---'') lines) []) (\<lambda>d.
           Inr \<lparr>md_frontmatter = d, md_body = sanitize_editable_body (join [10]
             (takeWhile (\<lambda>l. \<not> is_system_heading l) (drop 1 (dropWhile (\<lambda>l. l \<noteq> lit ''---'') lines))))\<rparr>))"

definition editable_vault_content :: "str \<Rightarrow> str" where
  "editable_vault_content content = (case parse_markdown_note content of
     Inl e \<Rightarrow> sanitize_editable_body content | Inr note \<Rightarrow> md_body note)"

section \<open>Replacing one section\<close>

definition heading_level :: "str \<Rightarrow> nat option" where
  "heading_level line =
    (let n = length (takeWhile (\<lambda>c. c = 35) line) in
     if 1 \<le> n \<and> n \<le> 6 \<and> (case drop n line of [] \<Rightarrow> False | c # _ \<Rightarrow> is_space c) then Some n else None)"

text \<open>
  \<open>(.+?)\s*#*\s*$\<close> on the text after the white space: the shortest non-empty title whose rest is only
  white space around number signs. A heading of nothing but white space has a blank title or none.
\<close>

definition trailer :: "str \<Rightarrow> bool" where
  "trailer s \<longleftrightarrow> dropWhile is_space (dropWhile (\<lambda>c. c = 35) (dropWhile is_space s)) = []"

definition heading_title :: "nat \<Rightarrow> str \<Rightarrow> str" where
  "heading_title level line =
    (let rest = dropWhile is_space (drop level line) in
     case find (\<lambda>n. trailer (drop n rest)) [1..<Suc (length rest)] of None \<Rightarrow> [] | Some n \<Rightarrow> strip (take n rest))"

definition section_at :: "str \<Rightarrow> str list \<Rightarrow> nat \<Rightarrow> bool" where
  "section_at requested lines k \<longleftrightarrow> (case heading_level (lines ! k) of
     None \<Rightarrow> False | Some level \<Rightarrow> casefold (heading_title level (lines ! k)) = casefold requested)"

definition section_end :: "nat \<Rightarrow> nat \<Rightarrow> str list \<Rightarrow> nat" where
  "section_end start level lines =
    (case find (\<lambda>k. case heading_level (lines ! k) of None \<Rightarrow> False | Some l \<Rightarrow> l \<le> level) [Suc start..<length lines] of
       None \<Rightarrow> length lines | Some k \<Rightarrow> k)"

definition replace_markdown_section :: "str \<Rightarrow> str \<Rightarrow> str \<Rightarrow> str res" where
  "replace_markdown_section txt heading content =
    (let requested = strip (lstrip_chars {35} (strip heading)); lines = splitlines txt;
         matches = filter (section_at requested lines) [0..<length lines] in
     if requested = [] then Inl (ValueError (lit ''section heading must not be empty''))
     else if is_system_heading (lit ''## '' @ requested) then
       Inl (ValueError (lit ''system-managed sections cannot be patched''))
     else case matches of
       [] \<Rightarrow> Inl (ValueError (lit ''section not found: '' @ requested))
     | [start] \<Rightarrow>
         (let level = (case heading_level (lines ! start) of None \<Rightarrow> 0 | Some l \<Rightarrow> l);
              replacement_lines = (if blank content then [] else splitlines (strip content))
          in Inr (sanitize_editable_body (join [10]
               (take (Suc start) lines @ replacement_lines @ drop (section_end start level lines) lines))))
     | _ \<Rightarrow> Inl (ValueError (lit ''section heading is ambiguous: '' @ requested)))"

end
