(* ===== verification/VaultText.thy ===== *)
theory VaultText
  imports VaultNotes
begin

text \<open>
  The lines of a note: texts without line breaks, the splitting of joined lines, stripping, and the
  frontmatter values that are read back as they were written.
\<close>

section \<open>Plain text and lines\<close>

definition plain :: "str \<Rightarrow> bool" where
  "plain s \<longleftrightarrow> list_all (\<lambda>c. \<not> is_linebreak c) s"

lemma plain_simps [simp]:
  "plain []" "plain (c # s) \<longleftrightarrow> \<not> is_linebreak c \<and> plain s" "plain (a @ b) \<longleftrightarrow> plain a \<and> plain b"
  by (simp_all add: plain_def)

lemma linebreak_space: "is_linebreak c \<Longrightarrow> is_space c"
  by (auto simp: is_linebreak_def is_space_def)

lemma linebreak_newline [simp]: "is_linebreak 10" "\<not> is_linebreak 32" "\<not> is_linebreak 34" "\<not> is_linebreak 92"
  "\<not> is_linebreak 58" "\<not> is_linebreak 45"
  by (simp_all add: is_linebreak_def)

lemma plain_mono: "list_all P s \<Longrightarrow> (\<And>c. P c \<Longrightarrow> \<not> is_linebreak c) \<Longrightarrow> plain s"
  by (auto simp: plain_def list_all_iff)

lemma splitlines_from_plain: "plain l \<Longrightarrow> splitlines_from acc (l @ 10 # R) = (rev acc @ l) # splitlines R"
proof (induction l arbitrary: acc)
  case Nil
  show ?case by (simp add: splitlines_def)
next
  case (Cons c l)
  have "c \<noteq> 13" using Cons.prems by (auto simp: is_linebreak_def)
  with Cons show ?case by simp
qed

lemma splitlines_from_last:
  "T \<noteq> [] \<Longrightarrow> \<not> is_linebreak (last T) \<Longrightarrow> splitlines_from acc (T @ 10 # R) = splitlines_from acc T @ splitlines R"
proof (induction acc T rule: splitlines_from.induct)
  case (2 acc c cs)
  show ?case
  proof (cases cs)
    case Nil
    then have "\<not> is_linebreak c" "c \<noteq> 13" using 2(5) by (auto simp: is_linebreak_def)
    then show ?thesis using Nil by (simp add: splitlines_def)
  next
    case cs: (Cons d ds)
    show ?thesis
    proof (cases "c = 13 \<and> d = 10")
      case True
      then have "ds \<noteq> []" using 2(5) cs by auto
      with 2 True cs show ?thesis by simp
    next
      case False
      with 2 cs show ?thesis by (auto simp del: splitlines_from.simps(1))
    qed
  qed
qed simp

lemma splitlines_plain: "plain l \<Longrightarrow> splitlines (l @ 10 # R) = l # splitlines R"
  by (simp add: splitlines_def splitlines_from_plain)

lemma splitlines_last: "T \<noteq> [] \<Longrightarrow> \<not> is_linebreak (last T) \<Longrightarrow> splitlines (T @ 10 # R) = splitlines T @ splitlines R"
  unfolding splitlines_def [of "T @ 10 # R"] splitlines_def [of T] by (rule splitlines_from_last)

lemma splitlines_newline: "splitlines (10 # R) = [] # splitlines R"
  by (simp add: splitlines_def)

lemma join_Cons: "xs \<noteq> [] \<Longrightarrow> join sep (x # xs) = x @ sep @ join sep xs"
  by (cases xs) auto

lemma join_append: "xs \<noteq> [] \<Longrightarrow> ys \<noteq> [] \<Longrightarrow> join sep (xs @ ys) = join sep xs @ sep @ join sep ys"
proof (induction xs)
  case (Cons x xs)
  then show ?case by (cases "xs = []") (simp_all add: join_Cons)
qed simp

lemma join_concat: "list_all (\<lambda>xs. xs \<noteq> []) xss \<Longrightarrow> join sep (map (join sep) xss) = join sep (concat xss)"
proof (induction xss)
  case (Cons xs xss)
  show ?case
  proof (cases "xss = []")
    case False
    then have "concat xss \<noteq> []" using Cons.prems by (cases xss) auto
    with Cons False show ?thesis by (simp add: join_Cons join_append)
  qed simp
qed simp

lemma splitlines_join:
  "list_all plain ls \<Longrightarrow> ls \<noteq> [] \<Longrightarrow> splitlines (join [10] ls @ 10 # R) = ls @ splitlines R"
proof (induction ls)
  case (Cons l ls)
  then show ?case by (cases "ls = []") (simp_all add: join_Cons splitlines_plain)
qed simp

section \<open>Stripping\<close>

lemma rstrip_append: "rstrip (a @ b) = (if blank b then rstrip a else a @ rstrip b)"
proof (cases "blank b")
  case True
  then have "list_all is_space (rev b)" by (simp add: blank_iff)
  then have "dropWhile is_space (rev b @ rev a) = dropWhile is_space (rev a)"
    by (intro dropWhile_append2) (simp add: list_all_iff)
  then show ?thesis using True by (simp add: rstrip_def)
next
  case False
  then obtain x where "x \<in> set (rev b)" "\<not> is_space x" by (auto simp: blank_iff list_all_iff)
  then have "dropWhile is_space (rev b @ rev a) = dropWhile is_space (rev b) @ rev a"
    by (rule dropWhile_append1)
  then show ?thesis using False by (simp add: rstrip_def)
qed

lemma strip_id: "s \<noteq> [] \<Longrightarrow> \<not> is_space (hd s) \<Longrightarrow> \<not> is_space (last s) \<Longrightarrow> strip s = s"
  unfolding strip_def lstrip_def by (cases s) (simp_all add: rstrip_id)

lemma strip_ends:
  assumes "strip s \<noteq> []"
  shows "\<not> is_space (hd (strip s))" and "\<not> is_space (last (strip s))"
proof -
  show "\<not> is_space (last (strip s))" using assms rstrip_last [of "lstrip s"] by (simp add: strip_def)
  obtain t where t: "lstrip s = strip s @ t" using rstrip_prefix [of "lstrip s"] unfolding strip_def by blast
  obtain c cs where c: "strip s = c # cs" using assms by (cases "strip s") auto
  with t have "dropWhile is_space s = c # cs @ t" by (simp add: lstrip_def)
  with c show "\<not> is_space (hd (strip s))" by (simp add: dropWhile_eq_Cons_conv)
qed

lemma strip_newline: "strip (10 # s) = strip s"
  by (simp add: strip_def lstrip_def is_space_def)

lemma strip_space_first: "strip (32 # s) = strip s"
  by (simp add: strip_def lstrip_def is_space_def)

section \<open>Values that are read back\<close>

lemma starts_with_Cons: "starts_with (p # ps) (c # cs) \<longleftrightarrow> p = c \<and> starts_with ps cs"
  by (auto simp: starts_with_def)

lemma starts_with_Nil [simp]: "starts_with [] s"
  by (simp add: starts_with_def)

lemma not_starts_with_Nil [simp]: "\<not> starts_with (p # ps) []"
  by (simp add: starts_with_def)

text \<open>The escaped text without its outer quotes, and with only the backslashes still escaped.\<close>

definition escape_slash :: "str \<Rightarrow> str" where "escape_slash s = replace_char 92 [92, 92] s"

definition escape_text :: "str \<Rightarrow> str" where "escape_text s = replace_char 34 [92, 34] (escape_slash s)"

lemma replace_char_simps: "replace_char c n [] = []"
  "replace_char c n (x # xs) = (if x = c then n else [x]) @ replace_char c n xs"
  "replace_char c n (a @ b) = replace_char c n a @ replace_char c n b"
  by (simp_all add: replace_char_def)

lemma escape_simps:
  "escape_slash [] = []" "escape_slash (x # xs) = (if x = 92 then [92, 92] else [x]) @ escape_slash xs"
  "escape_text [] = []"
  "escape_text (x # xs) = (if x = 92 then [92, 92] else if x = 34 then [92, 34] else [x]) @ escape_text xs"
  by (simp_all add: escape_slash_def escape_text_def replace_char_simps)

lemma escape_no_quote_first: "\<not> starts_with [34] (escape_text s)"
  by (cases s) (auto simp: escape_simps starts_with_Cons)

lemma unescape_quotes: "py_replace [92, 34] [34] (escape_text s) = escape_slash s"
proof (induction s)
  case (Cons x xs)
  have q: "\<not> starts_with [92, 34] (92 # escape_text xs)"
    using escape_no_quote_first [of xs] by (simp add: starts_with_Cons)
  show ?case using Cons q
    by (auto simp: escape_simps py_replace_simps starts_with_Cons escape_no_quote_first)
qed (simp add: escape_simps py_replace_simps)

lemma unescape_slashes: "py_replace [92, 92] [92] (escape_slash s) = s"
  by (induction s) (auto simp: escape_simps py_replace_simps starts_with_Cons)

lemma yaml_text_escape: "yaml_text s = [34] @ escape_text s @ [34]"
  by (simp add: yaml_text_def escape_text_def escape_slash_def)

lemma strip_yaml_text: "strip (yaml_text s) = yaml_text s"
  by (rule strip_id) (simp_all add: yaml_text_escape is_space_def)

lemma yaml_scalar_text [simp]: "yaml_scalar (yaml_text s) = YStr s"
  by (simp add: yaml_scalar_def yaml_text_escape lit_def unescape_quotes unescape_slashes)

lemma plain_replace: "plain (replace_char c n s) \<longleftrightarrow> plain s" if "plain n" "\<not> is_linebreak c"
  using that by (induction s) (auto simp: replace_char_simps)

lemma plain_yaml_text [simp]: "plain (yaml_text s) \<longleftrightarrow> plain s"
  by (simp add: yaml_text_def plain_replace)

lemma yaml_text_not_blank [simp]: "\<not> blank (yaml_text s)"
  by (simp add: blank_iff yaml_text_escape is_space_def)

text \<open>Integers.\<close>

definition digit_string :: "str \<Rightarrow> bool" where
  "digit_string s \<longleftrightarrow> s \<noteq> [] \<and> list_all is_digit s"

lemma nat_digits_string: "digit_string (nat_digits n)"
proof (induction n rule: nat_digits.induct)
  case (1 n)
  show ?case
    using 1 by (subst nat_digits.simps) (auto simp: digit_string_def is_digit_def)
qed

lemma digit_group_digits: "digit_string s \<Longrightarrow> digit_group s = Some (map (\<lambda>c. c - 48) s)"
proof (induction s rule: digit_group.induct)
  case (3 c d cs)
  then have "d \<noteq> 95" by (auto simp: digit_string_def is_digit_def)
  with 3 show ?case by (simp add: digit_string_def)
qed (auto simp: digit_string_def)

lemma digits_value_snoc: "digits_value (ds @ [d]) = 10 * digits_value ds + d"
  by (simp add: digits_value_def)

lemma digits_value_nat: "digits_value (map (\<lambda>c. c - 48) (nat_digits n)) = int n"
proof (induction n rule: nat_digits.induct)
  case (1 n)
  show ?case
  proof (cases "n < 10")
    case True
    then show ?thesis by (subst nat_digits.simps) (simp add: digits_value_def)
  next
    case False
    with 1 have "digits_value (map (\<lambda>c. c - 48) (nat_digits (n div 10))) = int (n div 10)" by simp
    moreover have "10 * int (n div 10) + int (n mod 10) = int n" by presburger
    ultimately show ?thesis using False by (subst nat_digits.simps) (simp add: digits_value_snoc)
  qed
qed

lemma digit_string_first: "digit_string s \<Longrightarrow> \<exists>c cs. s = c # cs \<and> is_digit c"
  by (cases s) (auto simp: digit_string_def)

lemma int_literal_str: "int_literal (int_str i) = Some i"
proof -
  obtain c cs where c: "nat_digits (nat i) = c # cs" "is_digit c"
    using digit_string_first [OF nat_digits_string] by blast
  then have "c \<noteq> 45" "c \<noteq> 43" by (auto simp: is_digit_def)
  then have "split_sign (nat_digits (nat i)) = (False, nat_digits (nat i))" using c by (simp add: split_sign_def)
  moreover have "split_sign (45 # s) = (True, s)" for s by (simp add: split_sign_def)
  ultimately show ?thesis
    by (auto simp: int_literal_def int_str_def digit_group_digits nat_digits_string digits_value_nat)
qed

lemma int_str_chars: "list_all (\<lambda>c. is_digit c \<or> c = 45) (int_str i)" "int_str i \<noteq> []"
proof -
  have "list_all is_digit (nat_digits n)" "nat_digits n \<noteq> []" for n
    using nat_digits_string [of n] by (auto simp: digit_string_def)
  then show "list_all (\<lambda>c. is_digit c \<or> c = 45) (int_str i)" "int_str i \<noteq> []"
    by (auto simp: int_str_def list_all_iff)
qed

lemma int_str_plain [simp]: "plain (int_str i)"
  using int_str_chars(1) by (rule plain_mono) (auto simp: is_digit_def is_linebreak_def)

lemma strip_int_str [simp]: "strip (int_str i) = int_str i"
proof (rule strip_id [OF int_str_chars(2)])
  have "\<not> is_space c" if "c \<in> set (int_str i)" for c
    using int_str_chars(1) [of i] that by (auto simp: list_all_iff is_digit_def is_space_def)
  then show "\<not> is_space (hd (int_str i))" "\<not> is_space (last (int_str i))"
    using int_str_chars(2) [of i] by auto
qed

lemma int_str_not_blank [simp]: "\<not> blank (int_str i)"
  using int_str_chars(2) [of i] by (simp add: blank_def)

lemma yaml_scalar_int [simp]: "yaml_scalar (int_str i) = YInt i"
proof -
  have c: "hd (int_str i) \<in> set (int_str i)" using int_str_chars(2) by simp
  then have h: "is_digit (hd (int_str i)) \<or> hd (int_str i) = 45"
    using int_str_chars(1) [of i] by (auto simp: list_all_iff)
  have "int_str i \<noteq> s" if "s = [] \<or> \<not> (is_digit (hd s) \<or> hd s = 45)" for s
    using that h int_str_chars(2) by auto
  then have "int_str i \<noteq> lit ''null''" "int_str i \<noteq> lit ''true''" "int_str i \<noteq> lit ''false''"
    "int_str i \<noteq> lit ''[]''" "int_str i \<noteq> lit ''{}''" "hd (int_str i) \<noteq> 34"
    using h by (auto simp: lit_def is_digit_def)
  then show ?thesis by (simp add: yaml_scalar_def int_literal_str)
qed

lemma int_of_text_str: "int_literal (strip (int_str i)) = Some i"
  by (simp add: int_literal_str)

text \<open>UUIDs and instants.\<close>

lemma uuid_str_plain [simp]: "plain (uuid_str u)"
proof -
  have "0 \<le> uint u" "uint u < 16 ^ 32" using uint_lt2p [of u] by simp_all
  then have "list_all hex_char (hex_digits 32 (uint u))" by (rule hex_digits_chars)
  then have "list_all (\<lambda>c. hex_char c \<or> c = 45) (uuid_str u)"
    unfolding uuid_str_def by (rule filter_dash) simp
  then show ?thesis by (rule plain_mono) (auto simp: hex_char_def is_linebreak_def)
qed

lemma isoformat_plain [simp]: "plain (isoformat t)"
proof -
  have p: "plain (pad n x)" for n x
    using pad_decimal by (rule plain_mono) (auto simp: is_decimal_def is_linebreak_def)
  have "plain (lit ''+00:00'')" by code_simp
  then show ?thesis
    by (simp add: isoformat_def p Let_def is_linebreak_def split: prod.splits)
qed

end
