(* ===== verification/Vault.thy ===== *)
theory Vault
  imports VaultText VectorIndex Retention StoreGraph
begin

text \<open>
  The vault exporter (\<open>services/vault.py\<close>): the projection of a workspace into notes, the planning and
  application of an import of edited notes as new revisions, the archiving of a note, and the targeted
  patch of one memory. Identities and clock readings of the revisions are a \<open>fresh\<close> record per file.
\<close>

section \<open>The notes\<close>

definition memory_name :: "uuid \<Rightarrow> str" where "memory_name i = lit ''mem-'' @ uuid_str i"
definition observation_note_name :: "uuid \<Rightarrow> str" where "observation_note_name i = lit ''obs-'' @ uuid_str i"

record vault_file =
  vf_path :: str
  vf_content :: str

definition optional_datetime :: "datetime option \<Rightarrow> pyval" where
  "optional_datetime t = (case t of None \<Rightarrow> PNone | Some x \<Rightarrow> PStr (isoformat x))"

definition optional_text :: "str option \<Rightarrow> pyval" where
  "optional_text t = (case t of None \<Rightarrow> PNone | Some x \<Rightarrow> PStr x)"

definition blockquote :: "str \<Rightarrow> str" where
  "blockquote txt = join [10] (map (\<lambda>line. lit ''> '' @ line) (splitlines txt))"

definition note_status :: "memory_item \<Rightarrow> uuid option \<Rightarrow> str" where
  "note_status item superseded_by = (if superseded_by \<noteq> None then lit ''superseded'' else status_value (mi_status item))"

definition memory_frontmatter :: "memory_item \<Rightarrow> uuid option \<Rightarrow> metadata" where
  "memory_frontmatter item superseded_by =
    [(lit ''id'', PStr (memory_name (mi_id item))), (lit ''type'', PStr (lit ''memory'')),
     (lit ''status'', PStr (note_status item superseded_by)), (lit ''layer'', PStr (layer_value (mi_layer item))),
     (lit ''scope'', PStr (scope_value (mi_scope item))), (lit ''kind'', PStr (mi_kind item)),
     (lit ''tenant_id'', PStr (uuid_str (mi_tenant_id item))), (lit ''workspace_id'', PStr (uuid_str (mi_workspace_id item))),
     (lit ''agent_id'', optional_id (mi_agent_id item)), (lit ''thread_id'', optional_id (mi_thread_id item)),
     (lit ''labels'', PList (map PStr (mi_labels item))), (lit ''importance'', PFloat (mi_importance item)),
     (lit ''salience'', PFloat (mi_salience item)), (lit ''confidence'', PFloat (mi_confidence item)),
     (lit ''revision'', PInt (mi_revision item)), (lit ''supersedes_id'', optional_id (mi_supersedes_id item)),
     (lit ''superseded_by'', optional_id superseded_by), (lit ''observed_at'', PStr (isoformat (mi_observed_at item))),
     (lit ''valid_from'', optional_datetime (mi_valid_from item)), (lit ''valid_to'', optional_datetime (mi_valid_to item)),
     (lit ''created_at'', PStr (isoformat (mi_created_at item))),
     (lit ''source_kind'', PStr (pv_source_kind (mi_provenance item))),
     (lit ''origin_uri'', optional_text (pv_origin_uri (mi_provenance item))),
     (lit ''object_key'', optional_text (pv_object_key (mi_provenance item))),
     (lit ''checksum_sha256'', optional_text (pv_checksum_sha256 (mi_provenance item))),
     (lit ''extraction_version'', PStr (pv_extraction_version (mi_provenance item))),
     (lit ''metadata'', PDict (mi_metadata item))]"

definition memory_tail :: "memory_item \<Rightarrow> uuid option \<Rightarrow> str list" where
  "memory_tail item superseded_by =
    (let p = mi_provenance item;
         links = (case mi_supersedes_id item of None \<Rightarrow> [] | Some i \<Rightarrow> [lit ''- supersedes: [['' @ memory_name i @ lit '']]''])
           @ (case superseded_by of None \<Rightarrow> [] | Some i \<Rightarrow> [lit ''- superseded_by: [['' @ memory_name i @ lit '']]''])
     in [lit ''- source: '' @ pv_source_kind p]
        @ (case given (pv_origin_uri p) of None \<Rightarrow> [] | Some x \<Rightarrow> [lit ''- origin: '' @ x])
        @ (case given (pv_object_key p) of None \<Rightarrow> [] | Some x \<Rightarrow> [lit ''- object: '' @ x])
        @ (case given (pv_checksum_sha256 p) of None \<Rightarrow> [] | Some x \<Rightarrow> [lit ''- checksum: '' @ [96] @ x @ [96]])
        @ (case given (pv_quote p) of None \<Rightarrow> [] | Some x \<Rightarrow> [[], lit ''## Quote'', blockquote x])
        @ (if links = [] then [] else [[], lit ''## Links''] @ links))"

definition memory_file :: "runtime \<Rightarrow> memory_item \<Rightarrow> uuid option \<Rightarrow> vault_file" where
  "memory_file rt item superseded_by =
    \<lparr>vf_path = layer_value (mi_layer item) @ lit ''/'' @ memory_name (mi_id item) @ lit ''.md'',
     vf_content = rstrip (join [10] ([frontmatter rt (memory_frontmatter item superseded_by), [], strip (mi_text item), [],
        lit ''## Provenance''] @ memory_tail item superseded_by)) @ [10]\<rparr>"

definition observation_file :: "runtime \<Rightarrow> observation \<Rightarrow> vault_file" where
  "observation_file rt b =
    \<lparr>vf_path = lit ''reflections/'' @ observation_note_name (ob_id b) @ lit ''.md'',
     vf_content = rstrip (join [10] ([frontmatter rt
        [(lit ''id'', PStr (observation_note_name (ob_id b))), (lit ''type'', PStr (lit ''observation'')),
         (lit ''status'', PStr (if ob_stale b then lit ''stale'' else lit ''active'')),
         (lit ''tenant_id'', PStr (uuid_str (ob_tenant_id b))), (lit ''workspace_id'', PStr (uuid_str (ob_workspace_id b))),
         (lit ''confidence'', PFloat (ob_confidence b)), (lit ''stale'', PBool (ob_stale b)),
         (lit ''evidence_ids'', PList (map (\<lambda>i. PStr (uuid_str i)) (ob_evidence_ids b))),
         (lit ''created_at'', PStr (isoformat (ob_created_at b)))],
        [], strip (ob_summary b), [], lit ''## Evidence'']
        @ map (\<lambda>i. lit ''- [['' @ memory_name i @ lit '']]'') (ob_evidence_ids b))) @ [10]\<rparr>"

section \<open>The export\<close>

definition layer_counts :: "memory_item list \<Rightarrow> (str, int) dict" where
  "layer_counts items = foldl (\<lambda>d item. let k = layer_value (mi_layer item) in
     dict_set k ((case dict_get d k of None \<Rightarrow> 0 | Some n \<Rightarrow> n) + 1) d) [] items"

definition render_index :: "runtime \<Rightarrow> uuid \<Rightarrow> uuid \<Rightarrow> memory_item list \<Rightarrow> observation list \<Rightarrow> str" where
  "render_index rt tenant_id workspace_id items observations =
    (let memory_links = map (\<lambda>item. lit ''- [['' @ memory_name (mi_id item) @ lit '']] '' @ [8212, 32]
            @ layer_value (mi_layer item) @ lit '': '' @ take 96 (mi_text item)) items;
         observation_links = map (\<lambda>row. lit ''- [['' @ observation_note_name (ob_id row) @ lit '']] '' @ [8212, 32]
            @ (if ob_stale row then lit ''stale'' else lit ''active'')) observations;
         layer_lines = map (\<lambda>(layer, n). lit ''- '' @ layer @ lit '': '' @ int_str n) (sort_key fst (layer_counts items));
         or_else = (\<lambda>xs d. if xs = [] then [d] else xs)
     in rstrip (join [10]
       ([frontmatter rt [(lit ''type'', PStr (lit ''index'')), (lit ''tenant_id'', PStr (uuid_str tenant_id)),
           (lit ''workspace_id'', PStr (uuid_str workspace_id))],
         [], lit ''# Obelisk Memory Vault'', [],
         lit ''- tenant: '' @ [96] @ uuid_str tenant_id @ [96], lit ''- workspace: '' @ [96] @ uuid_str workspace_id @ [96],
         lit ''- memories: '' @ int_str (int (length items)), lit ''- observations: '' @ int_str (int (length observations)),
         lit ''- stale observations: '' @ int_str (int (length (filter ob_stale observations))),
         [], lit ''## Layers''] @ or_else layer_lines (lit ''- none: 0'')
        @ [[], lit ''## Memories''] @ or_else memory_links (lit ''- none'')
        @ [[], lit ''## Observations''] @ or_else observation_links (lit ''- none'')
        @ [[], lit ''## Conventions'',
           lit ''- '' @ [96] @ lit ''mem-*'' @ [96] @ lit '' notes are append-only canonical memories.'',
           lit ''- '' @ [96] @ lit ''obs-*'' @ [96] @ lit '' notes are reflection outputs with evidence links.'',
           lit ''- Edit by superseding through the API; do not rewrite history in place.''])) @ [10])"

definition superseded_by_map :: "memory_item list \<Rightarrow> (uuid, uuid) dict" where
  "superseded_by_map items = foldl (\<lambda>d item. case mi_supersedes_id item of
     None \<Rightarrow> d | Some p \<Rightarrow> dict_set p (mi_id item) d) [] items"

definition export_vault :: "runtime \<Rightarrow> uuid \<Rightarrow> uuid \<Rightarrow> store \<Rightarrow> vault_file list" where
  "export_vault rt tenant_id workspace_id s =
    (let items = list_items tenant_id workspace_id [] None None None 0 s;
         observations = list_observations_for_workspace tenant_id workspace_id None 0 s;
         superseded_by = superseded_by_map items
     in sort_key vf_path
       ([\<lparr>vf_path = lit ''README.md'', vf_content = render_index rt tenant_id workspace_id items observations\<rparr>]
        @ map (\<lambda>item. memory_file rt item (dict_get superseded_by (mi_id item))) items
        @ map (observation_file rt) observations))"

definition memory_prefixes :: "str list" where
  "memory_prefixes = [lit ''working/'', lit ''core/'', lit ''episodic/'', lit ''semantic/'', lit ''procedural/'',
     lit ''social/'', lit ''reflection/'', lit ''error/'']"

section \<open>Planning an import\<close>

record vault_env =
  ve_str :: "yaml \<Rightarrow> str"
  ve_exc :: "pyerr \<Rightarrow> str"
  ve_sha :: "str \<Rightarrow> str"
  ve_runtime :: runtime

fun yaml_str :: "vault_env \<Rightarrow> yaml \<Rightarrow> str" where
  "yaml_str env YNull = lit ''None''"
| "yaml_str env (YBool b) = (if b then lit ''True'' else lit ''False'')"
| "yaml_str env (YInt i) = int_str i"
| "yaml_str env (YStr s) = s"
| "yaml_str env v = ve_str env v"

record vault_change =
  vc_path :: str
  vc_action :: str
  vc_item_id :: "uuid option"
  vc_expected_revision :: "int option"
  vc_new_item_id :: "uuid option"
  vc_message :: str

definition bare_change :: "str \<Rightarrow> str \<Rightarrow> str \<Rightarrow> vault_change" where
  "bare_change path action message = \<lparr>vc_path = path, vc_action = action, vc_item_id = None,
     vc_expected_revision = None, vc_new_item_id = None, vc_message = message\<rparr>"

definition note_change :: "str \<Rightarrow> str \<Rightarrow> uuid \<Rightarrow> int \<Rightarrow> str \<Rightarrow> vault_change" where
  "note_change path action i revision message = \<lparr>vc_path = path, vc_action = action, vc_item_id = Some i,
     vc_expected_revision = Some revision, vc_new_item_id = None, vc_message = message\<rparr>"

definition parse_note_id :: "vault_env \<Rightarrow> yaml \<Rightarrow> uuid res" where
  "parse_note_id env v =
    (let txt = yaml_str env v in
     if \<not> starts_with (lit ''mem-'') txt then Inl (ValueError (lit ''memory id must start with mem-''))
     else parse_uuid (drop 4 txt))"

definition yaml_get :: "(str, yaml) dict \<Rightarrow> str \<Rightarrow> yaml" where
  "yaml_get d k = (case dict_get d k of None \<Rightarrow> YNull | Some v \<Rightarrow> v)"

definition yaml_index :: "(str, yaml) dict \<Rightarrow> str \<Rightarrow> yaml res" where
  "yaml_index d k = (case dict_get d k of None \<Rightarrow> Inl (KeyError k) | Some v \<Rightarrow> Inr v)"

definition int_of_text :: "str \<Rightarrow> int res" where
  "int_of_text s = (case int_literal (strip s) of
     None \<Rightarrow> Inl (ValueError (lit ''invalid literal for int() with base 10'')) | Some i \<Rightarrow> Inr i)"

definition note_identity :: "vault_env \<Rightarrow> (str, yaml) dict \<Rightarrow> (uuid \<times> int \<times> uuid \<times> uuid) res" where
  "note_identity env d =
    res_bind (parse_note_id env (yaml_get d (lit ''id''))) (\<lambda>i.
    res_bind (res_bind (yaml_index d (lit ''revision'')) (\<lambda>v. int_of_text (yaml_str env v))) (\<lambda>revision.
    res_bind (res_bind (yaml_index d (lit ''tenant_id'')) (\<lambda>v. parse_uuid (yaml_str env v))) (\<lambda>t.
    res_bind (res_bind (yaml_index d (lit ''workspace_id'')) (\<lambda>v. parse_uuid (yaml_str env v))) (\<lambda>w.
    Inr (i, revision, t, w)))))"

text \<open>What both plans do with a note that names a memory: the head it names, or the change to report.\<close>

definition note_head ::
  "vault_env \<Rightarrow> uuid \<Rightarrow> uuid \<Rightarrow> str \<Rightarrow> (str, yaml) dict \<Rightarrow> store \<Rightarrow> vault_change + (memory_item \<times> uuid \<times> int)"
where
  "note_head env tenant_id workspace_id path d s =
    (case note_identity env d of
       Inl e \<Rightarrow> Inl (bare_change path (lit ''error'') (lit ''invalid memory frontmatter: '' @ ve_exc env e))
     | Inr (i, revision, t, w) \<Rightarrow>
         if t \<noteq> tenant_id \<or> w \<noteq> workspace_id then
           Inl (note_change path (lit ''error'') i revision (lit ''tenant/workspace mismatch''))
         else (case get_item tenant_id i s of
           None \<Rightarrow> Inl (note_change path (lit ''error'') i revision (lit ''memory item not found''))
         | Some current \<Rightarrow>
             if mi_revision current \<noteq> revision then
               Inl (note_change path (lit ''conflict'') i revision (lit ''expected revision '' @ int_str revision
                 @ lit '', actual '' @ int_str (mi_revision current)))
             else Inr (current, i, revision)))"

definition plan_file_import :: "vault_env \<Rightarrow> uuid \<Rightarrow> uuid \<Rightarrow> vault_file \<Rightarrow> store \<Rightarrow> vault_change" where
  "plan_file_import env tenant_id workspace_id file s =
    (case parse_markdown_note (vf_content file) of
       Inl e \<Rightarrow> bare_change (vf_path file) (lit ''error'') (ve_exc env e)
     | Inr note \<Rightarrow>
         let d = md_frontmatter note in
         if dict_get d (lit ''type'') \<noteq> Some (YStr (lit ''memory'')) then
           bare_change (vf_path file) (lit ''skip'') (lit ''only memory notes are imported'')
         else if dict_get d (lit ''status'') = Some (YStr (lit ''superseded'')) then
           bare_change (vf_path file) (lit ''skip'') (lit ''superseded notes are audit history, not import heads'')
         else (case note_head env tenant_id workspace_id (vf_path file) d s of
           Inl change \<Rightarrow> change
         | Inr (current, i, revision) \<Rightarrow>
             if strip (mi_text current) = strip (md_body note) then
               note_change (vf_path file) (lit ''unchanged'') i revision (lit ''memory text unchanged'')
             else note_change (vf_path file) (lit ''supersede'') i revision (lit ''memory text changed'')))"

text \<open>A status that was read as a list or a dictionary cannot be looked up in a set: \<open>TypeError\<close>.\<close>

definition unhashable :: "yaml option \<Rightarrow> bool" where
  "unhashable v \<longleftrightarrow> (case v of Some (YList xs) \<Rightarrow> True | Some YEmptyDict \<Rightarrow> True | _ \<Rightarrow> False)"

definition plan_file_archive :: "vault_env \<Rightarrow> uuid \<Rightarrow> uuid \<Rightarrow> vault_file \<Rightarrow> store \<Rightarrow> vault_change res" where
  "plan_file_archive env tenant_id workspace_id file s =
    (case parse_markdown_note (vf_content file) of
       Inl e \<Rightarrow> Inr (bare_change (vf_path file) (lit ''error'') (ve_exc env e))
     | Inr note \<Rightarrow>
         let d = md_frontmatter note in
         if dict_get d (lit ''type'') \<noteq> Some (YStr (lit ''memory'')) then
           Inr (bare_change (vf_path file) (lit ''skip'') (lit ''only memory notes can be archived''))
         else if unhashable (dict_get d (lit ''status'')) then Inl (TypeError (lit ''unhashable type''))
         else if dict_get d (lit ''status'') \<in> {Some (YStr (lit ''archived'')), Some (YStr (lit ''superseded''))} then
           Inr (bare_change (vf_path file) (lit ''unchanged'') (lit ''note is already archived or superseded''))
         else (case note_head env tenant_id workspace_id (vf_path file) d s of
           Inl change \<Rightarrow> Inr change
         | Inr (current, i, revision) \<Rightarrow>
             Inr (note_change (vf_path file) (lit ''archive'') i revision (lit ''memory will be archived''))))"

definition plan_import :: "vault_env \<Rightarrow> uuid \<Rightarrow> uuid \<Rightarrow> vault_file list \<Rightarrow> store \<Rightarrow> vault_change list" where
  "plan_import env tenant_id workspace_id files s =
    map (\<lambda>file. plan_file_import env tenant_id workspace_id file s) files"

definition supersede_count :: "vault_change list \<Rightarrow> nat" where
  "supersede_count changes = length (filter (\<lambda>c. vc_action c = lit ''supersede'') changes)"

section \<open>Applying it\<close>

definition optional_float :: "yaml \<Rightarrow> real option res" where
  "optional_float v =
    (case v of YNull \<Rightarrow> Inr None
     | _ \<Rightarrow> res_bind (case v of
           YBool b \<Rightarrow> Inr (Fin (if b then 1 else 0))
         | YInt i \<Rightarrow> if float_range i then Inr (Fin (real_of_int i))
             else Inl (OverflowError (lit ''int too large to convert to float''))
         | YFloat x \<Rightarrow> Inr x
         | YStr s \<Rightarrow> (case float_literal s of
             None \<Rightarrow> Inl (ValueError (lit ''could not convert string to float'')) | Some x \<Rightarrow> Inr x)
         | _ \<Rightarrow> Inl (TypeError (lit ''float() argument must be a string or a real number'')))
         (\<lambda>x. case x of
            Fin r \<Rightarrow> if unit_interval r then Inr (Some r) else Inl (ValueError (lit ''confidence must be between 0 and 1''))
          | _ \<Rightarrow> Inl (ValueError (lit ''confidence must be between 0 and 1''))))"

definition note_command ::
  "uuid \<Rightarrow> uuid \<Rightarrow> int \<Rightarrow> memory_status option \<Rightarrow> str \<Rightarrow> markdown_note \<Rightarrow> supersede_memory_command res"
where
  "note_command tenant_id i revision status key note =
    res_bind (optional_float (yaml_get (md_frontmatter note) (lit ''confidence''))) (\<lambda>confidence.
    supersede_command_post_init \<lparr>sm_tenant_id = tenant_id, sm_item_id = i, sm_replacement_text = md_body note,
      sm_expected_revision = revision, sm_confidence = confidence, sm_status = status,
      sm_idempotency_key = Some (key @ int_str revision)\<rparr>)"

text \<open>
  One planned change: the note is parsed again, its revision written; a revision conflict becomes a
  change of its own, every other exception leaves the import.
\<close>

definition revise_note ::
  "vault_env \<Rightarrow> privacy_guard \<Rightarrow> fresh \<Rightarrow> uuid \<Rightarrow> str \<Rightarrow> str \<Rightarrow> memory_status option \<Rightarrow> str \<Rightarrow> str \<Rightarrow> uuid \<Rightarrow> int
    \<Rightarrow> str \<Rightarrow> store \<Rightarrow> vault_change res \<times> store"
where
  "revise_note env g fr tenant_id action message status key path i revision content s =
    (case res_bind (parse_markdown_note content) (note_command tenant_id i revision status (key @ path @ lit '':'')) of
       Inl e \<Rightarrow> (Inl e, s)
     | Inr command \<Rightarrow>
         (case supersede_service g fr command None s of
            (Inl (MemoryRevisionConflictError a b c), s1) \<Rightarrow>
              (Inr (note_change path (lit ''conflict'') i revision (ve_exc env (MemoryRevisionConflictError a b c))), s1)
          | (Inl e, s1) \<Rightarrow> (Inl e, s1)
          | (Inr result, s1) \<Rightarrow>
              (Inr ((note_change path action i revision message)\<lparr>vc_new_item_id := Some (mi_id (rr_item result))\<rparr>), s1)))"

definition content_at :: "vault_file list \<Rightarrow> str \<Rightarrow> str" where
  "content_at files path = (case find (\<lambda>file. vf_path file = path) files of None \<Rightarrow> [] | Some file \<Rightarrow> vf_content file)"

definition apply_change ::
  "vault_env \<Rightarrow> privacy_guard \<Rightarrow> fresh \<Rightarrow> uuid \<Rightarrow> vault_file list \<Rightarrow> vault_change \<Rightarrow> store \<Rightarrow> vault_change res \<times> store"
where
  "apply_change env g fr tenant_id files change s =
    (case (vc_item_id change, vc_expected_revision change) of
       (Some i, Some revision) \<Rightarrow>
         if vc_action change \<noteq> lit ''supersede'' then (Inr change, s)
         else revise_note env g fr tenant_id (lit ''supersede'') (lit ''created new memory revision'') None
           (lit ''vault-import:'') (vc_path change) i revision (content_at files (vc_path change)) s
     | _ \<Rightarrow> (Inr change, s))"

fun apply_changes ::
  "vault_env \<Rightarrow> privacy_guard \<Rightarrow> (nat \<Rightarrow> fresh) \<Rightarrow> nat \<Rightarrow> uuid \<Rightarrow> vault_file list \<Rightarrow> vault_change list \<Rightarrow> store
    \<Rightarrow> vault_change list res \<times> store"
where
  "apply_changes env g fr k tenant_id files [] s = (Inr [], s)"
| "apply_changes env g fr k tenant_id files (c # cs) s =
    (case apply_change env g (fr k) tenant_id files c s of
       (Inl e, s1) \<Rightarrow> (Inl e, s1)
     | (Inr c1, s1) \<Rightarrow>
         (case apply_changes env g fr (Suc k) tenant_id files cs s1 of
            (Inl e, s2) \<Rightarrow> (Inl e, s2) | (Inr rest, s2) \<Rightarrow> (Inr (c1 # rest), s2)))"

definition apply_import ::
  "vault_env \<Rightarrow> privacy_guard option \<Rightarrow> (nat \<Rightarrow> fresh) \<Rightarrow> uuid \<Rightarrow> uuid \<Rightarrow> vault_file list \<Rightarrow> store
    \<Rightarrow> vault_change list res \<times> store"
where
  "apply_import env retention fr tenant_id workspace_id files s =
    (case retention of
       None \<Rightarrow> (Inl (RuntimeError (lit ''vault import requires a retention service'')), s)
     | Some g \<Rightarrow> apply_changes env g fr 0 tenant_id files (plan_import env tenant_id workspace_id files s) s)"

definition archive_file ::
  "vault_env \<Rightarrow> privacy_guard option \<Rightarrow> fresh \<Rightarrow> uuid \<Rightarrow> uuid \<Rightarrow> vault_file \<Rightarrow> store \<Rightarrow> vault_change res \<times> store"
where
  "archive_file env retention fr tenant_id workspace_id file s =
    (case retention of
       None \<Rightarrow> (Inl (RuntimeError (lit ''vault delete requires a retention service'')), s)
     | Some g \<Rightarrow>
         (case plan_file_archive env tenant_id workspace_id file s of
            Inl e \<Rightarrow> (Inl e, s)
          | Inr change \<Rightarrow>
              (case (vc_item_id change, vc_expected_revision change) of
                 (Some i, Some revision) \<Rightarrow>
                   if vc_action change \<noteq> lit ''archive'' then (Inr change, s)
                   else revise_note env g fr tenant_id (lit ''archive'') (lit ''created archived memory revision'') (Some Archived)
                     (lit ''vault-archive:'') (vf_path file) i revision (vf_content file) s
               | _ \<Rightarrow> (Inr change, s))))"

section \<open>Patching one memory\<close>

record vault_patch_command =
  vp_tenant_id :: uuid
  vp_workspace_id :: uuid
  vp_item_id :: uuid
  vp_expected_revision :: int
  vp_replace_body :: "str option"
  vp_section_heading :: "str option"
  vp_section_content :: "str option"
  vp_confidence :: "real option"
  vp_idempotency_key :: "str option"

definition vault_patch_post_init :: "vault_patch_command \<Rightarrow> vault_patch_command res" where
  "vault_patch_post_init c =
    (let has_body = vp_replace_body c \<noteq> None;
         has_section = vp_section_heading c \<noteq> None \<or> vp_section_content c \<noteq> None
     in if vp_expected_revision c < 1 then Inl (ValueError (lit ''expected_revision must be positive''))
        else if has_body \<and> has_section then
          Inl (ValueError (lit ''replace_body and section patch are mutually exclusive''))
        else if has_section \<and> (given (vp_section_heading c) = None \<or> vp_section_content c = None) then
          Inl (ValueError (lit ''section_heading and section_content are required together''))
        else if \<not> has_body \<and> \<not> has_section \<and> vp_confidence c = None then
          Inl (ValueError (lit ''patch must change body, one section, or confidence''))
        else if (case vp_section_heading c of None \<Rightarrow> False | Some h \<Rightarrow> 10 \<in> set h \<or> 13 \<in> set h) then
          Inl (ValueError (lit ''section heading must be one line''))
        else if (case vp_confidence c of None \<Rightarrow> False | Some x \<Rightarrow> \<not> unit_interval x) then
          Inl (ValueError (lit ''confidence must be between 0 and 1''))
        else Inr c)"

record vault_patch_result =
  vr_item :: memory_item
  vr_changed :: bool
  vr_queued_event_ids :: "uuid list"

definition patched_text :: "vault_patch_command \<Rightarrow> str \<Rightarrow> str res" where
  "patched_text c txt =
    (case vp_replace_body c of
       Some body \<Rightarrow> Inr (sanitize_editable_body body)
     | None \<Rightarrow> (case (vp_section_heading c, vp_section_content c) of
         (Some heading, Some content) \<Rightarrow> replace_markdown_section txt heading content
       | _ \<Rightarrow> Inr txt))"

definition vault_patch_idempotency_key :: "vault_env \<Rightarrow> vault_patch_command \<Rightarrow> str \<Rightarrow> str" where
  "vault_patch_idempotency_key env c txt =
    lit ''vault-patch:'' @ uuid_str (vp_item_id c) @ lit '':'' @ int_str (vp_expected_revision c) @ lit '':''
    @ ve_sha env (join [31] [uuid_str (vp_tenant_id c), uuid_str (vp_workspace_id c), uuid_str (vp_item_id c),
        int_str (vp_expected_revision c), txt,
        case vp_confidence c of None \<Rightarrow> [] | Some x \<Rightarrow> rt_repr (ve_runtime env) (PFloat x)])"

definition patchable :: "vault_patch_command \<Rightarrow> store \<Rightarrow> memory_item res" where
  "patchable c s =
    (case get_item (vp_tenant_id c) (vp_item_id c) s of
       None \<Rightarrow> Inl (KeyError (lit ''memory item not found''))
     | Some current \<Rightarrow>
         if mi_workspace_id current \<noteq> vp_workspace_id c then Inl (KeyError (lit ''memory item not found''))
         else if mi_revision current \<noteq> vp_expected_revision c then
           Inl (MemoryRevisionConflictError (vp_item_id c) (vp_expected_revision c) (Some (mi_revision current)))
         else if mi_status current \<in> {Archived, Rejected} then
           Inl (ValueError (lit ''archived or rejected memory cannot be patched''))
         else Inr current)"

definition patch_memory ::
  "vault_env \<Rightarrow> privacy_guard option \<Rightarrow> fresh \<Rightarrow> vault_patch_command \<Rightarrow> store \<Rightarrow> vault_patch_result res \<times> store"
where
  "patch_memory env retention fr c s =
    (case retention of
       None \<Rightarrow> (Inl (RuntimeError (lit ''vault patch requires a retention service'')), s)
     | Some g \<Rightarrow>
         (case res_bind (patchable c s) (\<lambda>current. res_bind (patched_text c (mi_text current)) (\<lambda>txt.
              if blank txt then Inl (ValueError (lit ''replacement text must not be empty'')) else Inr (current, txt))) of
            Inl e \<Rightarrow> (Inl e, s)
          | Inr (current, txt) \<Rightarrow>
              let next_confidence = (case vp_confidence c of None \<Rightarrow> mi_confidence current | Some x \<Rightarrow> x) in
              if strip txt = strip (mi_text current) \<and> next_confidence = mi_confidence current then
                (Inr \<lparr>vr_item = current, vr_changed = False, vr_queued_event_ids = []\<rparr>, s)
              else
                (case supersede_command_post_init \<lparr>sm_tenant_id = vp_tenant_id c, sm_item_id = vp_item_id c,
                     sm_replacement_text = txt, sm_expected_revision = vp_expected_revision c,
                     sm_confidence = vp_confidence c, sm_status = None,
                     sm_idempotency_key = Some (case given (vp_idempotency_key c) of
                        None \<Rightarrow> vault_patch_idempotency_key env c txt | Some k \<Rightarrow> k)\<rparr> of
                   Inl e \<Rightarrow> (Inl e, s)
                 | Inr command \<Rightarrow>
                     (case supersede_service g fr command None s of
                        (Inl e, s1) \<Rightarrow> (Inl e, s1)
                      | (Inr retained, s1) \<Rightarrow>
                          (Inr \<lparr>vr_item = rr_item retained, vr_changed = rr_created retained,
                                vr_queued_event_ids = rr_queued_event_ids retained\<rparr>, s1)))))"

end
