(* ===== verification/VaultImport.thy ===== *)
theory VaultImport
  imports Vault
begin

text \<open>
  What an import of edited notes does to the ledger: it only adds revisions of the memories its notes
  name; a second edit of a note already imported is reported but lost; and the workspace of an import
  does not bound the memories it revises.
\<close>

section \<open>One revision through the service\<close>

lemma supersede_service_written:
  assumes ok: "ledger_ok s" and new: "dict_get (st_items s) (fr_item_id fr) = None"
    and call: "supersede_service g fr c audit s = (r, s1)"
  obtains (same) "s1 = s"
  | (written) q d cur where "st_items s1 = dict_set (fr_item_id fr) q (st_items s)" "ledger_ok s1"
      "dict_get (st_items s) (sm_item_id c) = Some cur" "mi_tenant_id q = sm_tenant_id c"
      "mi_workspace_id q = mi_workspace_id cur" "mi_supersedes_id q = Some (sm_item_id c)"
      "mi_revision q = sm_expected_revision c + 1" "valid_item q"
      "privacy_apply g (sm_replacement_text c) = Inr d" "mi_text q = pd_text d"
  using call
proof (cases rule: supersede_service_cases)
  case (refused e)
  then show thesis by (intro same) simp
next
  case (attempt cur d item event a)
  have items: "items_ok s" using ok by (simp add: ledger_ok_def)
  have cur: "dict_get (st_items s) (sm_item_id c) = Some cur" "mi_tenant_id cur = sm_tenant_id c"
      "mi_id cur = sm_item_id c"
    using attempt(1) items_row_id [OF items] by (auto simp: get_item_Some)
  obtain u where u: "supersede_if_current item event (sm_expected_revision c) (sm_idempotency_key c) a s = (u, s1)"
    using attempt(17) by (cases "supersede_if_current item event (sm_expected_revision c) (sm_idempotency_key c) a s") auto
  then show thesis
  proof (cases rule: supersede_if_current_cases)
    case w: (written p q)
    have q: "q = cur" using w(1,4) attempt(6,8) cur by (auto simp: get_item_Some)
    have rev: "mi_revision item = sm_expected_revision c + 1" using attempt(7) w(5) q by simp
    have "ledger_ok s1"
      using ledger_ok_supersede [OF ok _ rev, of event "sm_idempotency_key c" a] new attempt(5) u by simp
    moreover have "st_items s1 = dict_set (fr_item_id fr) item (st_items s)" using w(7) attempt(5) by simp
    ultimately show thesis
      using written [of item cur d] attempt(2,3,4,6,8,9) rev cur by simp
  qed (use same in simp_all)
qed

lemma note_command_Inr:
  assumes "note_command t i revision status key note = Inr c"
  shows "sm_tenant_id c = t" "sm_item_id c = i" "sm_expected_revision c = revision"
    "sm_replacement_text c = md_body note" "sm_idempotency_key c = Some (key @ int_str revision)"
  using assms by (auto simp: note_command_def res_bind_Inr_iff supersede_command_post_init_def split: if_splits)

lemma revise_note_cases:
  assumes "revise_note env g fr t action message status key path i revision content s = (r, s1)"
  obtains (refused) e where "r = Inl e" "s1 = s"
  | (called) md c u where "parse_markdown_note content = Inr md"
      "note_command t i revision status (key @ path @ lit '':'') md = Inr c"
      "supersede_service g fr c None s = (u, s1)"
proof (cases "res_bind (parse_markdown_note content) (note_command t i revision status (key @ path @ lit '':''))")
  case (Inl e)
  with assms show thesis by (intro refused) (auto simp: revise_note_def)
next
  case (Inr c)
  then obtain md where md: "parse_markdown_note content = Inr md"
      "note_command t i revision status (key @ path @ lit '':'') md = Inr c" by (auto simp: res_bind_Inr_iff)
  obtain u s2 where u: "supersede_service g fr c None s = (u, s2)" by fastforce
  have "s2 = s1" using assms Inr u by (auto simp: revise_note_def split: sum.splits pyerr.splits)
  with md u show thesis by (intro called) auto
qed

section \<open>A whole import\<close>

text \<open>The row an import may add for a planned change.\<close>

definition revision_for :: "privacy_guard \<Rightarrow> uuid \<Rightarrow> vault_file list \<Rightarrow> vault_change \<Rightarrow> memory_item \<Rightarrow> bool" where
  "revision_for g tenant_id files c q \<longleftrightarrow>
    vc_action c = lit ''supersede'' \<and> mi_supersedes_id q = vc_item_id c \<and> mi_supersedes_id q \<noteq> None
    \<and> vc_expected_revision c = Some (mi_revision q - 1) \<and> mi_tenant_id q = tenant_id \<and> valid_item q
    \<and> (case parse_markdown_note (content_at files (vc_path c)) of Inl e \<Rightarrow> False
       | Inr md \<Rightarrow> (case privacy_apply g (md_body md) of Inl e \<Rightarrow> False | Inr d \<Rightarrow> mi_text q = pd_text d))"

lemma apply_change_effect:
  assumes ok: "ledger_ok s" and new: "dict_get (st_items s) (fr_item_id fr) = None"
    and call: "apply_change env g fr t files c s = (r, s1)"
  shows "ledger_ok s1" and "s1 = s \<or> (\<exists>q. st_items s1 = dict_set (fr_item_id fr) q (st_items s) \<and> revision_for g t files c q)"
proof -
  have "s1 = s \<or> (ledger_ok s1 \<and> (\<exists>q. st_items s1 = dict_set (fr_item_id fr) q (st_items s) \<and> revision_for g t files c q))"
  proof (cases "\<exists>i n. vc_item_id c = Some i \<and> vc_expected_revision c = Some n \<and> vc_action c = lit ''supersede''")
    case False
    then have "apply_change env g fr t files c s = (Inr c, s)"
      by (auto simp: apply_change_def split: option.splits)
    with call show ?thesis by simp
  next
    case True
    then obtain i n where c: "vc_item_id c = Some i" "vc_expected_revision c = Some n"
        "vc_action c = lit ''supersede''" by blast
    then have "revise_note env g fr t (lit ''supersede'') (lit ''created new memory revision'') None
           (lit ''vault-import:'') (vc_path c) i n (content_at files (vc_path c)) s = (r, s1)"
      using call by (simp add: apply_change_def)
    then show ?thesis
    proof (cases rule: revise_note_cases)
      case (refused e)
      then show ?thesis by simp
    next
      case (called md k u)
      note k = note_command_Inr [OF called(2)]
      from ok new called(3) show ?thesis
      proof (cases rule: supersede_service_written)
        case same
        then show ?thesis by simp
      next
        case (written q d cur)
        then have "revision_for g t files c q" using c k called(1) by (simp add: revision_for_def)
        with written(1,2) show ?thesis by blast
      qed
    qed
  qed
  then show "ledger_ok s1" and "s1 = s \<or> (\<exists>q. st_items s1 = dict_set (fr_item_id fr) q (st_items s) \<and> revision_for g t files c q)"
    using ok by blast+
qed

definition import_effect :: "privacy_guard \<Rightarrow> uuid \<Rightarrow> vault_file list \<Rightarrow> vault_change list \<Rightarrow> store \<Rightarrow> store \<Rightarrow> bool" where
  "import_effect g t files cs s s' \<longleftrightarrow> ledger_ok s'
    \<and> (\<forall>i q. dict_get (st_items s) i = Some q \<longrightarrow> dict_get (st_items s') i = Some q)
    \<and> (\<forall>i q. dict_get (st_items s') i = Some q \<longrightarrow>
        dict_get (st_items s) i = Some q \<or> (\<exists>c\<in>set cs. revision_for g t files c q))"

lemma import_effect_refl: "ledger_ok s \<Longrightarrow> import_effect g t files cs s s"
  by (simp add: import_effect_def)

lemma import_effect_step:
  assumes ok: "ledger_ok s" and new: "dict_get (st_items s) (fr_item_id fr) = None"
    and call: "apply_change env g fr t files c s = (r, s1)"
  shows "import_effect g t files (c # cs) s s1"
proof -
  note e = apply_change_effect [OF ok new call]
  from e(2) show ?thesis
  proof
    assume "s1 = s"
    then show ?thesis using ok by (simp add: import_effect_refl)
  next
    assume "\<exists>q. st_items s1 = dict_set (fr_item_id fr) q (st_items s) \<and> revision_for g t files c q"
    then obtain q where "st_items s1 = dict_set (fr_item_id fr) q (st_items s)" "revision_for g t files c q" by blast
    then show ?thesis using e(1) new by (auto simp: import_effect_def split: if_splits)
  qed
qed

lemma import_effect_trans:
  assumes "import_effect g t files (c # cs) s s1" and "import_effect g t files cs s1 s2"
  shows "import_effect g t files (c # cs) s s2"
proof -
  have a: "dict_get (st_items s1) i = Some q \<Longrightarrow>
      dict_get (st_items s) i = Some q \<or> (\<exists>x\<in>set (c # cs). revision_for g t files x q)" for i q
    using assms(1) unfolding import_effect_def by blast
  have b: "dict_get (st_items s2) i = Some q \<Longrightarrow>
      dict_get (st_items s1) i = Some q \<or> (\<exists>x\<in>set cs. revision_for g t files x q)" for i q
    using assms(2) unfolding import_effect_def by blast
  have "dict_get (st_items s2) i = Some q \<Longrightarrow>
      dict_get (st_items s) i = Some q \<or> (\<exists>x\<in>set (c # cs). revision_for g t files x q)" for i q
    using a [of i q] b [of i q] by (metis list.set_intros(2))
  moreover have "dict_get (st_items s) i = Some q \<Longrightarrow> dict_get (st_items s2) i = Some q" for i q
    using assms unfolding import_effect_def by blast
  ultimately show ?thesis using assms(2) unfolding import_effect_def by blast
qed

lemma apply_changes_effect:
  assumes "ledger_ok s"
    and "\<And>j. k \<le> j \<Longrightarrow> j < k + length cs \<Longrightarrow> dict_get (st_items s) (fr_item_id (fr j)) = None"
    and "inj_on (\<lambda>j. fr_item_id (fr j)) {k..<k + length cs}" and "apply_changes env g fr k t files cs s = (r, s')"
  shows "import_effect g t files cs s s'"
  using assms
proof (induction cs arbitrary: k s r)
  case Nil
  then show ?case by (simp add: import_effect_refl)
next
  case (Cons c cs)
  obtain r1 s1 where step: "apply_change env g (fr k) t files c s = (r1, s1)" by fastforce
  have new: "dict_get (st_items s) (fr_item_id (fr k)) = None" using Cons.prems(2) by simp
  have e: "import_effect g t files (c # cs) s s1" by (rule import_effect_step [OF Cons.prems(1) new step])
  show ?case
  proof (cases r1)
    case (Inl x)
    with Cons.prems(4) step e show ?thesis by simp
  next
    case (Inr c1)
    obtain r2 s2 where rest: "apply_changes env g fr (Suc k) t files cs s1 = (r2, s2)" by fastforce
    have s': "s' = s2" using Cons.prems(4) step Inr rest by (auto split: sum.splits)
    have free: "dict_get (st_items s1) (fr_item_id (fr j)) = None" if "Suc k \<le> j" "j < Suc k + length cs" for j
    proof -
      have "fr_item_id (fr j) \<noteq> fr_item_id (fr k)"
        using inj_onD [OF Cons.prems(3), of j k] that by auto
      moreover have "dict_get (st_items s) (fr_item_id (fr j)) = None" using Cons.prems(2) that by simp
      ultimately show ?thesis using apply_change_effect(2) [OF Cons.prems(1) new step] by auto
    qed
    have "ledger_ok s1" by (rule apply_change_effect(1) [OF Cons.prems(1) new step])
    moreover have "inj_on (\<lambda>j. fr_item_id (fr j)) {Suc k..<Suc k + length cs}"
      by (rule inj_on_subset [OF Cons.prems(3)]) auto
    ultimately have "import_effect g t files cs s1 s'" by (intro Cons.IH [OF _ free _ rest [folded s']])
    with e show ?thesis by (rule import_effect_trans)
  qed
qed

text \<open>
  C98: An import, finished or aborted by an exception, only extends the ledger: it stays well formed,
  every stored memory keeps its row, and every added row is the next revision of a memory that a note
  planned as \<open>supersede\<close> names, carries the guarded body of that note and satisfies the item's checks.
\<close>

theorem import_only_revises:
  assumes "ledger_ok s" and "\<And>j. j < length files \<Longrightarrow> dict_get (st_items s) (fr_item_id (fr j)) = None"
    and "inj_on (\<lambda>j. fr_item_id (fr j)) {..<length files}"
    and "apply_import env retention fr t w files s = (r, s')"
  shows "ledger_ok s'
    \<and> (\<forall>i q. dict_get (st_items s) i = Some q \<longrightarrow> dict_get (st_items s') i = Some q)
    \<and> (\<forall>i q. dict_get (st_items s') i = Some q \<longrightarrow> dict_get (st_items s) i = Some q
        \<or> (\<exists>g c. retention = Some g \<and> c \<in> set (plan_import env t w files s) \<and> revision_for g t files c q))"
proof (cases retention)
  case None
  then have "s' = s" using assms(4) by (simp add: apply_import_def)
  then show ?thesis using assms(1) by simp
next
  case (Some g)
  then have "apply_changes env g fr 0 t files (plan_import env t w files s) s = (r, s')"
    using assms(4) by (simp add: apply_import_def)
  moreover have "length (plan_import env t w files s) = length files" by (simp add: plan_import_def)
  ultimately have "import_effect g t files (plan_import env t w files s) s s'"
    using assms(1,2,3) by (intro apply_changes_effect [of s 0]) (auto simp: atLeast0LessThan)
  with Some show ?thesis unfolding import_effect_def by blast
qed

section \<open>One edited note\<close>

definition import_key :: "str \<Rightarrow> int \<Rightarrow> str" where
  "import_key path n = (lit ''vault-import:'' @ path @ lit '':'') @ int_str n"

text \<open>A note of a stored memory whose body differs and whose fields the revision accepts.\<close>

definition edits :: "vault_env \<Rightarrow> uuid \<Rightarrow> uuid \<Rightarrow> vault_file \<Rightarrow> markdown_note \<Rightarrow> memory_item \<Rightarrow> store \<Rightarrow> bool" where
  "edits env t w file md cur s \<longleftrightarrow>
    parse_markdown_note (vf_content file) = Inr md
    \<and> dict_get (md_frontmatter md) (lit ''type'') = Some (YStr (lit ''memory''))
    \<and> dict_get (md_frontmatter md) (lit ''status'') \<noteq> Some (YStr (lit ''superseded''))
    \<and> note_identity env (md_frontmatter md) = Inr (mi_id cur, mi_revision cur, t, w)
    \<and> get_item t (mi_id cur) s = Some cur \<and> valid_item cur \<and> 1 \<le> mi_revision cur
    \<and> strip (mi_text cur) \<noteq> strip (md_body md) \<and> \<not> blank (md_body md)
    \<and> isl (optional_float (yaml_get (md_frontmatter md) (lit ''confidence''))) = False"

lemma edits_planned:
  assumes "edits env t w file md cur s"
  shows "plan_import env t w [file] s
    = [note_change (vf_path file) (lit ''supersede'') (mi_id cur) (mi_revision cur) (lit ''memory text changed'')]"
  using assms by (simp add: edits_def plan_import_def plan_file_import_def note_head_def Let_def)

lemma unit_float_tail:
  assumes "(case y of Fin r \<Rightarrow> if unit_interval r then Inr (Some r)
        else Inl (ValueError (lit ''confidence must be between 0 and 1''))
      | _ \<Rightarrow> Inl (ValueError (lit ''confidence must be between 0 and 1''))) = Inr x"
  shows "\<exists>r. x = Some r \<and> unit_interval r"
  using assms by (cases y) (auto split: if_splits)

lemma optional_float_unit:
  assumes "optional_float v = Inr x"
  shows "case x of None \<Rightarrow> True | Some c \<Rightarrow> unit_interval c"
proof (cases "v = YNull")
  case True
  with assms show ?thesis by (auto simp: optional_float_def)
next
  case False
  have "\<exists>r. x = Some r \<and> unit_interval r"
  proof (cases v)
    case (YBool b)
    then show ?thesis using assms by (cases b) (auto simp: optional_float_def split: if_splits)
  qed (use assms False in \<open>auto simp: optional_float_def res_bind_Inr_iff dest!: unit_float_tail\<close>)
  then show ?thesis by auto
qed

lemma edits_command:
  assumes "edits env t w file md cur s"
  obtains conf where "note_command t (mi_id cur) (mi_revision cur) None key md
      = Inr \<lparr>sm_tenant_id = t, sm_item_id = mi_id cur, sm_replacement_text = md_body md,
          sm_expected_revision = mi_revision cur, sm_confidence = conf, sm_status = None,
          sm_idempotency_key = Some (key @ int_str (mi_revision cur))\<rparr>"
    and "case conf of None \<Rightarrow> True | Some c \<Rightarrow> unit_interval c"
proof -
  obtain conf where conf: "optional_float (yaml_get (md_frontmatter md) (lit ''confidence'')) = Inr conf"
    using assms unfolding edits_def by (cases "optional_float (yaml_get (md_frontmatter md) (lit ''confidence''))") auto
  show thesis
    by (rule that [of conf])
      (use assms conf optional_float_unit [OF conf] in
        \<open>auto simp: edits_def note_command_def supersede_command_post_init_def split: option.splits\<close>)
qed

text \<open>The service call of an accepted edit, with the privacy guard disabled.\<close>

lemma supersede_service_plain:
  assumes "get_item (sm_tenant_id c) (sm_item_id c) s = Some cur" and "valid_item cur"
    and "\<not> blank (sm_replacement_text c)" and "sm_status c = None"
    and "case sm_confidence c of None \<Rightarrow> True | Some x \<Rightarrow> unit_interval x" and "\<not> pg_enabled g"
  obtains q event where "supersede_service g fr c None s
      = (case supersede_if_current q event (sm_expected_revision c) (sm_idempotency_key c) None s of
           (Inl e, s1) \<Rightarrow> (Inl e, s1)
         | (Inr (stored, created), s1) \<Rightarrow> (Inr \<lparr>rr_item = stored, rr_created = created,
             rr_queued_event_ids = (if created then [ie_id event] else [])\<rparr>, s1))"
    and "mi_id q = fr_item_id fr" "mi_text q = sm_replacement_text c" "mi_tenant_id q = mi_tenant_id cur"
      "mi_workspace_id q = mi_workspace_id cur" "mi_supersedes_id q = Some (mi_id cur)"
      "mi_revision q = mi_revision cur + 1"
proof -
  define conf where "conf = (case sm_confidence c of None \<Rightarrow> mi_confidence cur | Some c \<Rightarrow> c)"
  have "unit_interval conf" using assms(2,5) by (auto simp: conf_def valid_item_def split: option.splits)
  then have "valid_item (cur\<lparr>mi_id := fr_item_id fr, mi_text := sm_replacement_text c, mi_confidence := conf,
      mi_created_at := fr_created_at fr, mi_revision := mi_revision cur + 1, mi_supersedes_id := Some (mi_id cur)\<rparr>)"
    using assms(2,3) by (simp add: valid_item_def)
  then obtain q where q: "supersede_item (fr_item_id fr) (fr_created_at fr) cur (sm_replacement_text c)
      (sm_confidence c) (sm_status c) = Inr q"
    using assms(4) by (simp add: supersede_item_def memory_item_post_init_Inr conf_def)
  note l = supersede_item_lineage [OF q]
  define e where "e = \<lparr>ie_id = fr_event_id fr, ie_name = retained_v1,
                  ie_tenant_id = mi_tenant_id q, ie_workspace_id = mi_workspace_id q,
                  ie_payload = [(lit ''memory_id'', PStr (uuid_str (mi_id q))),
                    (lit ''supersedes_id'', PStr (uuid_str (mi_id cur))),
                    (lit ''revision'', PInt (mi_revision q)),
                    (lit ''layer'', PStr (layer_value (mi_layer q))),
                    (lit ''jobs'', embed_reflect_jobs)],
                  ie_occurred_at = fr_occurred_at fr, ie_correlation_id = Some (mi_id q)\<rparr>"
  have "starts_with (lit ''v'') (after_last_dot retained_v1)" by code_simp
  then have e: "integration_event_post_init e = Inr e" by (simp add: integration_event_post_init_def e_def)
  have m: "q\<lparr>mi_metadata := dict_merge (mi_metadata q) []\<rparr> = q" by (simp add: dict_merge_def)
  have p: "privacy_apply g (sm_replacement_text c) = Inr \<lparr>pd_text = sm_replacement_text c, pd_findings = [],
      pd_action = Allow, pd_metadata = []\<rparr>" using assms(6) by (simp add: privacy_apply_def)
  have "supersede_service g fr c None s
      = (case supersede_if_current q e (sm_expected_revision c) (sm_idempotency_key c) None s of
           (Inl e, s1) \<Rightarrow> (Inl e, s1)
         | (Inr (stored, created), s1) \<Rightarrow> (Inr \<lparr>rr_item = stored, rr_created = created,
             rr_queued_event_ids = (if created then [ie_id e] else [])\<rparr>, s1))"
    using assms(1) unfolding e_def
    by (simp add: supersede_service_def p q m memory_item_post_init_ok [OF l(7)] e [unfolded e_def])
  from that [OF this l(1) l(6) l(2) l(3) l(5) l(4)] show thesis .
qed

text \<open>What the import makes of the answer of the compare-and-set.\<close>

definition edit_outcome ::
  "vault_env \<Rightarrow> vault_file \<Rightarrow> memory_item \<Rightarrow> (memory_item \<times> bool) res \<times> store \<Rightarrow> vault_change list res \<times> store"
where
  "edit_outcome env file cur call = (case call of
       (Inl (MemoryRevisionConflictError a b c), s1) \<Rightarrow>
         (Inr [note_change (vf_path file) (lit ''conflict'') (mi_id cur) (mi_revision cur)
            (ve_exc env (MemoryRevisionConflictError a b c))], s1)
     | (Inl e, s1) \<Rightarrow> (Inl e, s1)
     | (Inr (stored, created), s1) \<Rightarrow>
         (Inr [(note_change (vf_path file) (lit ''supersede'') (mi_id cur) (mi_revision cur)
             (lit ''created new memory revision''))\<lparr>vc_new_item_id := Some (mi_id stored)\<rparr>], s1))"

lemma apply_edited:
  assumes ed: "edits env t w file md cur s" and off: "\<not> pg_enabled g"
  obtains q event where "apply_import env (Some g) fr t w [file] s
      = edit_outcome env file cur (supersede_if_current q event (mi_revision cur)
          (Some (import_key (vf_path file) (mi_revision cur))) None s)"
    and "mi_id q = fr_item_id (fr 0)" "mi_text q = md_body md" "mi_tenant_id q = t"
      "mi_workspace_id q = mi_workspace_id cur" "mi_supersedes_id q = Some (mi_id cur)"
      "mi_revision q = mi_revision cur + 1"
proof -
  obtain conf where c: "note_command t (mi_id cur) (mi_revision cur) None (lit ''vault-import:'' @ vf_path file @ lit '':'') md
      = Inr \<lparr>sm_tenant_id = t, sm_item_id = mi_id cur, sm_replacement_text = md_body md,
          sm_expected_revision = mi_revision cur, sm_confidence = conf, sm_status = None,
          sm_idempotency_key = Some (import_key (vf_path file) (mi_revision cur))\<rparr>"
    and conf: "case conf of None \<Rightarrow> True | Some c \<Rightarrow> unit_interval c"
    using edits_command [OF ed, of "lit ''vault-import:'' @ vf_path file @ lit '':''"] unfolding import_key_def by blast
  have cur: "get_item t (mi_id cur) s = Some cur" "mi_tenant_id cur = t" "valid_item cur" "\<not> blank (md_body md)"
    using ed by (auto simp: edits_def get_item_Some)
  have "content_at [file] (vf_path file) = vf_content file" by (simp add: content_at_def)
  then have step: "apply_import env (Some g) fr t w [file] s
      = (case revise_note env g (fr 0) t (lit ''supersede'') (lit ''created new memory revision'') None
           (lit ''vault-import:'') (vf_path file) (mi_id cur) (mi_revision cur) (vf_content file) s of
         (Inl e, s1) \<Rightarrow> (Inl e, s1) | (Inr c1, s1) \<Rightarrow> (Inr [c1], s1))"
    by (simp add: apply_import_def edits_planned [OF ed] apply_change_def note_change_def split: sum.splits prod.splits)
  obtain q event where q: "supersede_service g (fr 0) \<lparr>sm_tenant_id = t, sm_item_id = mi_id cur,
          sm_replacement_text = md_body md, sm_expected_revision = mi_revision cur, sm_confidence = conf, sm_status = None,
          sm_idempotency_key = Some (import_key (vf_path file) (mi_revision cur))\<rparr> None s
      = (case supersede_if_current q event (mi_revision cur) (Some (import_key (vf_path file) (mi_revision cur))) None s of
           (Inl e, s1) \<Rightarrow> (Inl e, s1)
         | (Inr (stored, created), s1) \<Rightarrow> (Inr \<lparr>rr_item = stored, rr_created = created,
             rr_queued_event_ids = (if created then [ie_id event] else [])\<rparr>, s1))"
    and props: "mi_id q = fr_item_id (fr 0)" "mi_text q = md_body md" "mi_tenant_id q = mi_tenant_id cur"
      "mi_workspace_id q = mi_workspace_id cur" "mi_supersedes_id q = Some (mi_id cur)"
      "mi_revision q = mi_revision cur + 1"
    by (rule supersede_service_plain [of "\<lparr>sm_tenant_id = t, sm_item_id = mi_id cur,
          sm_replacement_text = md_body md, sm_expected_revision = mi_revision cur, sm_confidence = conf, sm_status = None,
          sm_idempotency_key = Some (import_key (vf_path file) (mi_revision cur))\<rparr>" s cur])
      (use cur conf off in auto)
  have md: "parse_markdown_note (vf_content file) = Inr md" using ed by (simp add: edits_def)
  obtain u s2 where cas: "supersede_if_current q event (mi_revision cur)
      (Some (import_key (vf_path file) (mi_revision cur))) None s = (u, s2)" by fastforce
  have "apply_import env (Some g) fr t w [file] s = edit_outcome env file cur (u, s2)"
  proof (cases u)
    case (Inl e)
    then show ?thesis
      by (cases e) (simp_all add: edit_outcome_def step revise_note_def md c q cas)
  next
    case (Inr p)
    then show ?thesis
      by (cases p) (simp add: edit_outcome_def step revise_note_def md c q cas)
  qed
  from this [folded cas] props cur(2) show thesis by (intro that) auto
qed

text \<open>
  C39: The workspace of an import does not bound what it revises. Take a readable note, not marked
  superseded, that claims the importing tenant and workspace, names a valid memory of that tenant in any
  workspace by its id and current revision, and has another, non-blank body. With the privacy guard off,
  the memory the head of its chain and the import key of the note's path and revision unused, importing
  the note writes the body as that memory's next revision, in the memory's own workspace. (For a used key
  see \<open>second_edit_dropped\<close>; an enabled guard treats the body first.)
\<close>

theorem import_reaches_other_workspace:
  assumes "edits env t w file md cur s" and off: "\<not> pg_enabled g"
    and "latest_descendant (dict_values (st_items s)) t cur = cur"
    and "remembered (st_idempotency s) t (scope_idempotency_key (mi_workspace_id cur)
      (Some (import_key (vf_path file) (mi_revision cur)))) = None"
  shows "\<exists>q s'. apply_import env (Some g) fr t w [file] s
      = (Inr [(note_change (vf_path file) (lit ''supersede'') (mi_id cur) (mi_revision cur)
          (lit ''created new memory revision''))\<lparr>vc_new_item_id := Some (fr_item_id (fr 0))\<rparr>], s')
    \<and> dict_get (st_items s') (fr_item_id (fr 0)) = Some q \<and> mi_workspace_id q = mi_workspace_id cur
    \<and> mi_text q = md_body md \<and> mi_supersedes_id q = Some (mi_id cur) \<and> mi_revision q = mi_revision cur + 1"
proof -
  obtain q event where run: "apply_import env (Some g) fr t w [file] s
      = edit_outcome env file cur (supersede_if_current q event (mi_revision cur)
          (Some (import_key (vf_path file) (mi_revision cur))) None s)"
    and q: "mi_id q = fr_item_id (fr 0)" "mi_text q = md_body md" "mi_tenant_id q = t"
      "mi_workspace_id q = mi_workspace_id cur" "mi_supersedes_id q = Some (mi_id cur)"
      "mi_revision q = mi_revision cur + 1"
    by (rule apply_edited [OF assms(1) off])
  have cur: "get_item t (mi_id cur) s = Some cur" "mi_tenant_id cur = t"
    using assms(1) by (auto simp: edits_def get_item_Some)
  define s' where "s' = snd (supersede_if_current q event (mi_revision cur) (Some (import_key (vf_path file) (mi_revision cur))) None s)"
  have "supersede_if_current q event (mi_revision cur) (Some (import_key (vf_path file) (mi_revision cur))) None s = (Inr (q, True), s')"
    using assms(3,4) q cur by (simp add: supersede_if_current_def s'_def Let_def)
  moreover have "dict_get (st_items s') (fr_item_id (fr 0)) = Some q"
    using assms(3,4) q cur by (simp add: supersede_if_current_def s'_def Let_def)
  ultimately show ?thesis using q by (auto simp: run edit_outcome_def)
qed

text \<open>
  (unlisted): A second edit of an imported note is lost: the key of an import is the path and the revision,
  not the text, so once it is remembered a differing body changes nothing in the store, and the change
  still reports a created revision, with the identity of the first one.
\<close>

theorem second_edit_dropped:
  assumes "edits env t w file md cur s" and off: "\<not> pg_enabled g"
    and "remembered (st_idempotency s) t (scope_idempotency_key (mi_workspace_id cur)
      (Some (import_key (vf_path file) (mi_revision cur)))) = Some i"
    and "dict_get (st_items s) i = Some first" and "mi_id first = i"
  shows "apply_import env (Some g) fr t w [file] s
      = (Inr [(note_change (vf_path file) (lit ''supersede'') (mi_id cur) (mi_revision cur)
          (lit ''created new memory revision''))\<lparr>vc_new_item_id := Some i\<rparr>], s)"
proof -
  obtain q event where run: "apply_import env (Some g) fr t w [file] s
      = edit_outcome env file cur (supersede_if_current q event (mi_revision cur)
          (Some (import_key (vf_path file) (mi_revision cur))) None s)"
    and q: "mi_tenant_id q = t" "mi_workspace_id q = mi_workspace_id cur" "mi_supersedes_id q = Some (mi_id cur)"
    by (rule apply_edited [OF assms(1) off, of fr]) blast
  have "supersede_if_current q event (mi_revision cur) (Some (import_key (vf_path file) (mi_revision cur))) None s
      = (Inr (first, False), s)"
    using assms(3,4) q by (simp add: supersede_if_current_def dict_index_def Let_def)
  then show ?thesis using assms(5) by (simp add: run edit_outcome_def)
qed

section \<open>Concrete imports\<close>

text \<open>A note of the sample memory for some workspace, and the store after its import.\<close>

definition sample_vault_env :: vault_env where
  "sample_vault_env = \<lparr>ve_str = (\<lambda>_. []), ve_exc = (\<lambda>_. []), ve_sha = (\<lambda>x. x),
     ve_runtime = \<lparr>rt_repr = (\<lambda>_. lit ''0.5''), rt_dict = (\<lambda>_. Inr [])\<rparr>\<rparr>"

definition sample_note :: "uuid \<Rightarrow> str \<Rightarrow> vault_file" where
  "sample_note w txt = \<lparr>vf_path = lit ''a.md'', vf_content = join [10]
     [lit ''---'', lit ''id: '' @ memory_name 1, lit ''type: memory'', lit ''revision: 1'',
      lit ''tenant_id: '' @ uuid_str 7, lit ''workspace_id: '' @ uuid_str w, lit ''---'', txt]\<rparr>"

definition sample_md :: "uuid \<Rightarrow> str \<Rightarrow> markdown_note" where
  "sample_md w txt = \<lparr>md_frontmatter = [(lit ''id'', YStr (memory_name 1)), (lit ''type'', YStr (lit ''memory'')),
     (lit ''revision'', YInt 1), (lit ''tenant_id'', YStr (uuid_str 7)), (lit ''workspace_id'', YStr (uuid_str w))],
     md_body = txt\<rparr>"

definition guard_off :: privacy_guard where
  "guard_off = \<lparr>pg_enabled = False, pg_action = Redact\<rparr>"

definition vault_fresh :: "nat \<Rightarrow> fresh" where
  "vault_fresh j = sample_fresh (of_nat j + 2) 30"

definition imported_store :: store where
  "imported_store = snd (apply_import sample_vault_env (Some guard_off) vault_fresh 7 8 [sample_note 8 (lit ''milk'')] cas_store)"

lemma sample_edits:
  "edits sample_vault_env 7 9 (sample_note 9 (lit ''milk'')) (sample_md 9 (lit ''milk'')) (sample_item 1 7 8 (lit ''tea'')) cas_store"
  by code_simp

lemma sample_edits2:
  "edits sample_vault_env 7 8 (sample_note 8 (lit ''wine'')) (sample_md 8 (lit ''wine'')) (sample_item 1 7 8 (lit ''tea'')) imported_store"
  by code_simp

theorem import_reaches_other_workspace_witness:
  "\<exists>q s'. apply_import sample_vault_env (Some guard_off) vault_fresh 7 9 [sample_note 9 (lit ''milk'')] cas_store
      = (Inr [(note_change (lit ''a.md'') (lit ''supersede'') 1 1
          (lit ''created new memory revision''))\<lparr>vc_new_item_id := Some 2\<rparr>], s')
    \<and> dict_get (st_items s') 2 = Some q \<and> mi_workspace_id q = 8 \<and> mi_text q = lit ''milk''"
proof -
  have off: "\<not> pg_enabled guard_off" by (simp add: guard_off_def)
  have head: "latest_descendant (dict_values (st_items cas_store)) 7 (sample_item 1 7 8 (lit ''tea'')) = sample_item 1 7 8 (lit ''tea'')"
    by code_simp
  have key: "remembered (st_idempotency cas_store) 7 (scope_idempotency_key (mi_workspace_id (sample_item 1 7 8 (lit ''tea'')))
      (Some (import_key (vf_path (sample_note 9 (lit ''milk''))) (mi_revision (sample_item 1 7 8 (lit ''tea'')))))) = None"
    by code_simp
  show ?thesis
    using import_reaches_other_workspace [OF sample_edits off head key, of vault_fresh]
    by (simp add: sample_note_def sample_item_def vault_fresh_def sample_fresh_def sample_md_def) blast
qed

theorem second_edit_dropped_witness:
  "apply_import sample_vault_env (Some guard_off) vault_fresh 7 8 [sample_note 8 (lit ''wine'')] imported_store
    = (Inr [(note_change (lit ''a.md'') (lit ''supersede'') 1 1
        (lit ''created new memory revision''))\<lparr>vc_new_item_id := Some 2\<rparr>], imported_store)
   \<and> map (\<lambda>q. mi_text q) (dict_values (st_items imported_store)) = [lit ''tea'', lit ''milk'']"
proof -
  have off: "\<not> pg_enabled guard_off" by (simp add: guard_off_def)
  have key: "remembered (st_idempotency imported_store) 7 (scope_idempotency_key (mi_workspace_id (sample_item 1 7 8 (lit ''tea'')))
      (Some (import_key (vf_path (sample_note 8 (lit ''wine''))) (mi_revision (sample_item 1 7 8 (lit ''tea'')))))) = Some 2"
    by code_simp
  have texts: "map (\<lambda>q. mi_text q) (dict_values (st_items imported_store)) = [lit ''tea'', lit ''milk'']" by code_simp
  have "map_option mi_id (dict_get (st_items imported_store) 2) = Some 2" by code_simp
  then obtain q where "dict_get (st_items imported_store) 2 = Some q" "mi_id q = 2" by auto
  from second_edit_dropped [OF sample_edits2 off key this, of vault_fresh] texts
  show ?thesis by (simp add: sample_note_def sample_item_def)
qed

theorem import_only_revises_witness:
  "ledger_ok imported_store \<and> dict_get (st_items imported_store) 1 = Some (sample_item 1 7 8 (lit ''tea''))"
proof -
  let ?fs = "[sample_note 8 (lit ''milk'')]"
  have free: "dict_get (st_items cas_store) (fr_item_id (vault_fresh j)) = None" if "j < length ?fs" for j
  proof -
    have "j = 0" using that by simp
    moreover have "dict_get (st_items cas_store) (fr_item_id (vault_fresh 0)) = None" by code_simp
    ultimately show ?thesis by simp
  qed
  have inj: "inj_on (\<lambda>j. fr_item_id (vault_fresh j)) {..<length ?fs}" by (simp add: inj_on_def)
  have one: "dict_get (st_items cas_store) 1 = Some (sample_item 1 7 8 (lit ''tea''))" by code_simp
  show ?thesis
    using import_only_revises [OF cas_store_ok free inj prod.collapse [symmetric], of sample_vault_env "Some guard_off" 7 8] one
    by (simp add: imported_store_def)
qed

end
