(* ===== verification/VaultRoundTrip.thy ===== *)
theory VaultRoundTrip
  imports Vault
begin

text \<open>
  Reading back the notes the exporter writes (\<open>services/vault.py\<close>): the frontmatter line by line, the
  body, and what an import plans for an exported note, edited or not; and the notes that are never read
  back because their metadata is not empty.
\<close>

section \<open>Frontmatter entries\<close>

definition good_key :: "str \<Rightarrow> bool" where
  "good_key k \<longleftrightarrow> k \<noteq> [] \<and> list_all is_word k"

fun entry_lines :: "runtime \<Rightarrow> str \<times> pyval \<Rightarrow> str list" where
  "entry_lines rt (k, PList (x # xs)) = (k @ lit '': '') # map (\<lambda>v. lit ''  - '' @ yaml_value rt 2 v) (x # xs)"
| "entry_lines rt (k, v) = [k @ lit '': '' @ yaml_value rt 0 v]"

fun entry_read :: "runtime \<Rightarrow> pyval \<Rightarrow> yaml" where
  "entry_read rt (PList (x # xs)) = YList (map (\<lambda>v. yaml_scalar (strip (yaml_value rt 2 v))) (x # xs))"
| "entry_read rt v = yaml_scalar (strip (yaml_value rt 0 v))"

fun good_value :: "runtime \<Rightarrow> pyval \<Rightarrow> bool" where
  "good_value rt (PList (x # xs)) = list_all (\<lambda>v. plain (yaml_value rt 2 v)) (x # xs)"
| "good_value rt v = (plain (yaml_value rt 0 v) \<and> \<not> blank (yaml_value rt 0 v))"

definition good_entry :: "runtime \<Rightarrow> str \<times> pyval \<Rightarrow> bool" where
  "good_entry rt e \<longleftrightarrow> good_key (fst e) \<and> good_value rt (snd e)"

lemma is_word_chars: "is_word c \<Longrightarrow> c \<noteq> 58 \<and> c \<noteq> 32 \<and> c \<noteq> 45 \<and> \<not> is_linebreak c \<and> \<not> is_space c"
  by (auto simp: is_word_def is_linebreak_def is_space_def)

lemma good_key_first: "good_key k \<Longrightarrow> \<exists>c cs. k = c # cs \<and> is_word c"
  by (cases k) (auto simp: good_key_def)

lemma good_key_plain: "good_key k \<Longrightarrow> plain k"
  unfolding good_key_def using plain_mono is_word_chars by blast

lemma good_key_split:
  assumes "good_key k"
  shows "takeWhile (\<lambda>c. c \<noteq> 58) (k @ 58 # r) = k" "dropWhile (\<lambda>c. c \<noteq> 58) (k @ 58 # r) = 58 # r"
    "\<not> blank (k @ 58 # r)" "\<not> starts_with [32] (k @ 58 # r)"
proof -
  have "58 \<notin> set k" using assms is_word_chars by (auto simp: good_key_def list_all_iff)
  then have k: "\<And>c. c \<in> set k \<Longrightarrow> c \<noteq> 58" by blast
  show "takeWhile (\<lambda>c. c \<noteq> 58) (k @ 58 # r) = k" using k by (simp add: takeWhile_append2)
  show "dropWhile (\<lambda>c. c \<noteq> 58) (k @ 58 # r) = 58 # r" using k by (simp add: dropWhile_append2)
  obtain c cs where c: "k = c # cs" "is_word c" using good_key_first [OF assms] by blast
  then show "\<not> blank (k @ 58 # r)" "\<not> starts_with [32] (k @ 58 # r)"
    using is_word_chars [of c] by (auto simp: blank_iff starts_with_Cons)
qed

lemma colon: "lit '': '' = [58, 32]" "lit ''  - '' = [32, 32, 45, 32]"
  by (simp_all add: lit_def)

lemma entry_text: "k @ lit '': '' @ yaml_value rt 0 v = join [10] (entry_lines rt (k, v))"
proof (cases "\<exists>x xs. v = PList (x # xs)")
  case True
  then obtain x xs where v: "v = PList (x # xs)" by blast
  have pad: "yaml_pad (0 + 2) @ lit ''- '' @ s = lit ''  - '' @ s" for s
    by (simp add: yaml_pad_def lit_def numeral_2_eq_2)
  then have "yaml_value rt 0 v = [10] @ join [10] (map (\<lambda>v. lit ''  - '' @ yaml_value rt 2 v) (x # xs))"
    unfolding v yaml_value.simps pad by (simp add: numeral_2_eq_2)
  then show ?thesis unfolding v entry_lines.simps by (simp add: join_Cons)
next
  case False
  then have "entry_lines rt (k, v) = [k @ lit '': '' @ yaml_value rt 0 v]"
    by (cases "(rt, k, v)" rule: entry_lines.cases) auto
  then show ?thesis by simp
qed

lemma entry_lines_nonempty: "entry_lines rt e \<noteq> []"
  by (cases "(rt, e)" rule: entry_lines.cases) auto

lemma entry_lines_first:
  assumes "good_entry rt e"
  obtains l ls c cs where "entry_lines rt e = l # ls" "l = c # cs" "is_word c"
    "list_all (\<lambda>x. starts_with [32] x) ls"
proof -
  obtain c cs where k: "fst e = c # cs" "is_word c"
    using assms good_key_first unfolding good_entry_def by blast
  show thesis
    by (cases "(rt, e)" rule: entry_lines.cases)
      (use k that in \<open>auto simp: colon list_all_iff starts_with_Cons\<close>)
qed

lemma entry_lines_plain: "good_entry rt e \<Longrightarrow> list_all plain (entry_lines rt e)"
  by (cases "(rt, e)" rule: entry_lines.cases)
    (auto simp: good_entry_def colon good_key_plain list_all_iff)

lemma entry_lines_no_fence:
  assumes "good_entry rt e"
  shows "lit ''---'' \<notin> set (entry_lines rt e)"
proof -
  obtain l ls c cs where e: "entry_lines rt e = l # ls" "l = c # cs" "is_word c"
    "list_all (\<lambda>x. starts_with [32] x) ls" by (rule entry_lines_first [OF assms])
  have "lit ''---'' \<noteq> l" using e(2,3) is_word_chars [of c] by (auto simp: lit_def)
  moreover have "\<not> starts_with [32] (lit ''---'')" by code_simp
  ultimately show ?thesis using e(1,4) by (auto simp: list_all_iff)
qed

section \<open>Reading the entries\<close>

lemma parse_plain_entry:
  assumes "good_key k" and "\<not> blank v"
  shows "parse_frontmatter ((k @ lit '': '' @ v) # rest) d
    = parse_frontmatter rest (dict_set k (yaml_scalar (strip v)) d)"
proof -
  have "strip v \<noteq> []" using assms(2) by (simp add: blank_def)
  then show ?thesis
    by (simp add: colon good_key_split [OF assms(1)] strip_space_first Let_def)
qed

lemma parse_list_entry:
  assumes "good_key k" and "case rest of [] \<Rightarrow> True | l # _ \<Rightarrow> \<not> list_line l"
  shows "parse_frontmatter ((k @ lit '': '') # map (\<lambda>v. lit ''  - '' @ v) vs @ rest) d
    = parse_frontmatter rest (dict_set k (YList (map (\<lambda>v. yaml_scalar (strip v)) vs)) d)"
proof -
  have all: "list_all list_line (map (\<lambda>v. lit ''  - '' @ v) vs)"
    by (simp add: list_all_iff list_line_def starts_with_iff)
  have "takeWhile list_line rest = []" "dropWhile list_line rest = rest" using assms(2) by (cases rest; simp)+
  with all have "takeWhile list_line (map (\<lambda>v. lit ''  - '' @ v) vs @ rest) = map (\<lambda>v. lit ''  - '' @ v) vs"
    "dropWhile list_line (map (\<lambda>v. lit ''  - '' @ v) vs @ rest) = rest"
    by (simp_all add: takeWhile_append dropWhile_append list_all_iff)
  moreover have "strip [32] = []" by code_simp
  moreover have "(\<lambda>l. yaml_scalar (strip (drop 4 l))) \<circ> (\<lambda>v. lit ''  - '' @ v) = (\<lambda>v. yaml_scalar (strip v))"
    by (simp add: colon fun_eq_iff)
  ultimately show ?thesis by (simp add: colon good_key_split [OF assms(1)] Let_def)
qed

definition read_entries :: "runtime \<Rightarrow> metadata \<Rightarrow> (str, yaml) dict \<Rightarrow> (str, yaml) dict" where
  "read_entries rt es d = foldl (\<lambda>d (k, v). dict_set k (entry_read rt v) d) d es"

lemma parse_entries_then:
  "list_all (good_entry rt) es \<Longrightarrow> case rest of [] \<Rightarrow> True | l # _ \<Rightarrow> \<not> list_line l \<Longrightarrow>
    parse_frontmatter (concat (map (entry_lines rt) es) @ rest) d = parse_frontmatter rest (read_entries rt es d)"
proof (induction es arbitrary: d)
  case Nil
  show ?case by (simp add: read_entries_def)
next
  case (Cons e es)
  obtain k v where e: "e = (k, v)" by (cases e)
  have g: "good_key k" "good_value rt v" using Cons.prems by (auto simp: good_entry_def e)
  let ?r = "concat (map (entry_lines rt) es) @ rest"
  have first: "case ?r of [] \<Rightarrow> True | l # _ \<Rightarrow> \<not> list_line l"
  proof (cases es)
    case (Cons a as)
    then have "good_entry rt a" using Cons.prems by simp
    then obtain l ls c cs where "entry_lines rt a = l # ls" "l = c # cs" "is_word c" by (rule entry_lines_first)
    then show ?thesis using is_word_chars [of c] by (simp add: Cons list_line_def colon starts_with_Cons)
  qed (use Cons.prems in simp)
  have IH: "parse_frontmatter ?r (dict_set k (entry_read rt v) d) = parse_frontmatter rest (read_entries rt (e # es) d)"
    using Cons by (simp add: read_entries_def e)
  show ?case
  proof (cases "\<exists>x xs. v = PList (x # xs)")
    case True
    then obtain x xs where v: "v = PList (x # xs)" by blast
    from parse_list_entry [OF g(1) first, of "map (yaml_value rt 2) (x # xs)" d] IH
    show ?thesis by (simp add: e v o_def)
  next
    case False
    then have l: "entry_lines rt (k, v) = [k @ lit '': '' @ yaml_value rt 0 v]"
      "entry_read rt v = yaml_scalar (strip (yaml_value rt 0 v))" "\<not> blank (yaml_value rt 0 v)"
      using g(2) by (cases "(rt, k, v)" rule: entry_lines.cases; auto)+
    from parse_plain_entry [OF g(1) l(3)] IH show ?thesis by (simp add: e l)
  qed
qed

lemma parse_entries:
  "list_all (good_entry rt) es \<Longrightarrow>
    parse_frontmatter (concat (map (entry_lines rt) es)) d = Inr (read_entries rt es d)"
  using parse_entries_then [of rt es "[]" d] by simp

lemma read_entries_other:
  "k \<notin> fst ` set es \<Longrightarrow> dict_get (read_entries rt es d) k = dict_get d k"
proof (induction es arbitrary: d)
  case (Cons e es)
  then show ?case by (cases e) (simp add: read_entries_def)
qed (simp add: read_entries_def)

lemma read_entries_get:
  "distinct (map fst es) \<Longrightarrow> (k, v) \<in> set es \<Longrightarrow> dict_get (read_entries rt es d) k = Some (entry_read rt v)"
proof (induction es arbitrary: d)
  case (Cons e es)
  obtain k0 v0 where e: "e = (k0, v0)" by (cases e)
  have step: "read_entries rt (e # es) d = read_entries rt es (dict_set k0 (entry_read rt v0) d)"
    by (simp add: read_entries_def e)
  show ?case
  proof (cases "(k, v) \<in> set es")
    case True
    with Cons show ?thesis by (simp add: step)
  next
    case False
    then have kv: "k = k0" "v = v0" using Cons.prems by (auto simp: e)
    then have "k \<notin> fst ` set es" using Cons.prems by (simp add: e)
    then show ?thesis by (simp add: step read_entries_other kv)
  qed
qed simp

section \<open>The note of a memory\<close>

text \<open>
  A memory whose fields fit on one frontmatter line each: no metadata, no line break in the text
  fields, and \<open>repr\<close> of its scores is a line.
\<close>

definition one_line :: "str option \<Rightarrow> bool" where
  "one_line t \<longleftrightarrow> (case t of None \<Rightarrow> True | Some x \<Rightarrow> plain x)"

definition plain_number :: "runtime \<Rightarrow> real \<Rightarrow> bool" where
  "plain_number rt x \<longleftrightarrow> plain (rt_repr rt (PFloat x)) \<and> \<not> blank (rt_repr rt (PFloat x))"

definition plain_fields :: "runtime \<Rightarrow> memory_item \<Rightarrow> bool" where
  "plain_fields rt m \<longleftrightarrow> plain (mi_kind m) \<and> list_all plain (mi_labels m)
    \<and> plain (pv_source_kind (mi_provenance m)) \<and> plain (pv_extraction_version (mi_provenance m))
    \<and> one_line (pv_origin_uri (mi_provenance m)) \<and> one_line (pv_object_key (mi_provenance m))
    \<and> one_line (pv_checksum_sha256 (mi_provenance m)) \<and> plain_number rt (mi_importance m)
    \<and> plain_number rt (mi_salience m) \<and> plain_number rt (mi_confidence m)"

definition memory_keys :: "str list" where
  "memory_keys = [lit ''id'', lit ''type'', lit ''status'', lit ''layer'', lit ''scope'', lit ''kind'', lit ''tenant_id'',
     lit ''workspace_id'', lit ''agent_id'', lit ''thread_id'', lit ''labels'', lit ''importance'', lit ''salience'',
     lit ''confidence'', lit ''revision'', lit ''supersedes_id'', lit ''superseded_by'', lit ''observed_at'',
     lit ''valid_from'', lit ''valid_to'', lit ''created_at'', lit ''source_kind'', lit ''origin_uri'', lit ''object_key'',
     lit ''checksum_sha256'', lit ''extraction_version'', lit ''metadata'']"

lemma memory_keys: "map fst (memory_frontmatter m sb) = memory_keys"
  by (simp add: memory_frontmatter_def memory_keys_def)

lemma memory_keys_ok: "distinct memory_keys" "list_all good_key memory_keys"
  by code_simp+

lemma text_value: "good_value rt (PStr s) \<longleftrightarrow> plain s"
  by simp

lemma enum_texts: "plain (layer_value l)" "plain (scope_value sc)" "plain (status_value st)"
  "plain (lit ''memory'')" "plain (lit ''superseded'')" "plain (memory_name i)"
proof -
  have "plain (lit ''mem-'')" by code_simp
  then show "plain (memory_name i)" by (simp add: memory_name_def)
  show "plain (layer_value l)" by (cases l; simp only: layer_value.simps; code_simp)
  show "plain (scope_value sc)" by (cases sc; simp only: scope_value.simps; code_simp)
  show "plain (status_value st)" by (cases st; simp only: status_value.simps; code_simp)
  show "plain (lit ''memory'')" "plain (lit ''superseded'')" by code_simp+
qed

lemma null_value: "good_value rt PNone" "good_value rt (PInt n)"
proof -
  have "plain (lit ''null'')" "\<not> blank (lit ''null'')" by code_simp+
  then show "good_value rt PNone" "good_value rt (PInt n)" by simp_all
qed

lemma optional_values:
  "good_value rt (optional_id i)" "good_value rt (optional_datetime t)"
  "one_line x \<Longrightarrow> good_value rt (optional_text x)"
  by (auto simp: optional_id_def optional_datetime_def optional_text_def one_line_def null_value
      simp del: good_value.simps simp: text_value split: option.splits)

lemma label_value: "list_all plain xs \<Longrightarrow> good_value rt (PList (map PStr xs))"
proof (cases xs)
  case Nil
  have "plain (lit ''[]'')" "\<not> blank (lit ''[]'')" by code_simp+
  then show ?thesis by (simp add: Nil)
qed (simp add: list_all_iff)

lemma number_value: "plain_number rt x \<Longrightarrow> good_value rt (PFloat x)"
  by (simp add: plain_number_def)

lemma empty_dict_value: "good_value rt (PDict [])"
proof -
  have "plain (lit ''{}'')" "\<not> blank (lit ''{}'')" by code_simp+
  then show ?thesis by simp
qed

lemma memory_entries_good:
  assumes "plain_fields rt m" and "mi_metadata m = []"
  shows "list_all (good_entry rt) (memory_frontmatter m sb)"
proof -
  have keys: "list_all (\<lambda>e. good_key (fst e)) (memory_frontmatter m sb)"
    using memory_keys_ok(2) memory_keys [of m sb] by (metis (no_types, lifting) list_all_length length_map nth_map)
  have "list_all (\<lambda>e. good_value rt (snd e)) (memory_frontmatter m sb)"
    using assms
    by (simp add: memory_frontmatter_def plain_fields_def text_value enum_texts null_value optional_values
        label_value number_value empty_dict_value note_status_def del: good_value.simps)
  with keys show ?thesis by (simp add: good_entry_def list_all_iff)
qed

text \<open>The lines of a note between its first fence and its provenance.\<close>

lemma frontmatter_lines:
  "frontmatter rt es = join [10] ([lit ''---''] @ concat (map (entry_lines rt) es) @ [lit ''---''])"
proof -
  let ?xss = "[[lit ''---'']] @ map (entry_lines rt) es @ [[lit ''---'']]"
  have eq: "map (\<lambda>(k, v). k @ lit '': '' @ yaml_value rt 0 v) es = map (\<lambda>e. join [10] (entry_lines rt e)) es"
    by (auto simp: entry_text)
  then have "frontmatter rt es = join [10] (map (join [10]) ?xss)"
    unfolding frontmatter_def eq by (simp add: o_def)
  also have "\<dots> = join [10] (concat ?xss)"
    by (rule join_concat) (auto simp: list_all_iff entry_lines_nonempty)
  finally show ?thesis by simp
qed

lemma memory_tail_text: "memory_tail m sb \<noteq> []" "\<not> blank (join [10] (memory_tail m sb))"
proof -
  obtain r where r: "memory_tail m sb = (lit ''- source: '' @ pv_source_kind (mi_provenance m)) # r"
    by (simp add: memory_tail_def Let_def)
  then show "memory_tail m sb \<noteq> []" by simp
  have "\<exists>x. join [10] (memory_tail m sb) = 45 # x"
    by (cases r) (simp_all add: r lit_def)
  then show "\<not> blank (join [10] (memory_tail m sb))" by (auto simp: blank_iff is_space_def)
qed

lemma memory_file_content:
  "vf_content (memory_file rt m sb) =
    join [10] ([lit ''---''] @ concat (map (entry_lines rt) (memory_frontmatter m sb)) @ [lit ''---'', []]
      @ [strip (mi_text m), [], lit ''## Provenance'']) @ 10 # rstrip (join [10] (memory_tail m sb)) @ [10]"
proof -
  let ?F = "[lit ''---''] @ concat (map (entry_lines rt) (memory_frontmatter m sb)) @ [lit ''---'']"
  let ?B = "[[], strip (mi_text m), [], lit ''## Provenance'']"
  have "join [10] ([frontmatter rt (memory_frontmatter m sb)] @ (?B @ memory_tail m sb))
      = join [10] ?F @ [10] @ join [10] (?B @ memory_tail m sb)"
    by (simp add: frontmatter_lines)
  also have "\<dots> = join [10] (?F @ ?B) @ [10] @ join [10] (memory_tail m sb)"
    using memory_tail_text(1) [of m sb] join_append [of ?F ?B "[10]"] join_append [of ?B "memory_tail m sb" "[10]"] by simp
  finally have "join [10] ([frontmatter rt (memory_frontmatter m sb)] @ (?B @ memory_tail m sb))
      = (join [10] (?F @ ?B) @ [10]) @ join [10] (memory_tail m sb)" by simp
  then have "rstrip (join [10] ([frontmatter rt (memory_frontmatter m sb)] @ (?B @ memory_tail m sb)))
      = (join [10] (?F @ ?B) @ [10]) @ rstrip (join [10] (memory_tail m sb))"
    using memory_tail_text(2) [of m sb] by (simp only: rstrip_append if_False)
  then show ?thesis by (simp add: memory_file_def)
qed

section \<open>Reading the note back\<close>

text \<open>A text that the cleaning of a note leaves alone.\<close>

definition clean_text :: "str \<Rightarrow> bool" where
  "clean_text txt \<longleftrightarrow> join [10] (splitlines txt) = txt \<and> \<not> contains [10, 10, 10] txt
    \<and> list_all (\<lambda>l. if blank l then l = [] else \<not> technical_line l) (splitlines txt)"

lemma blank_Nil: "blank []" "strip [] = []"
  by code_simp+

lemma sanitize_line_keeps:
  assumes "if blank l then l = [] else \<not> technical_line l" and "sz_block st = 0" "\<not> sz_fence st"
  shows "sanitize_line st l = st\<lparr>sz_kept := sz_kept st @ [l]\<rparr>"
  using assms by (auto simp: sanitize_line_def Let_def blank_def split: if_splits)

lemma sanitize_lines_keeps:
  "list_all (\<lambda>l. if blank l then l = [] else \<not> technical_line l) ls \<Longrightarrow> sz_block st = 0 \<Longrightarrow> \<not> sz_fence st \<Longrightarrow>
    sz_kept (foldl sanitize_line st ls) = sz_kept st @ ls"
proof (induction ls arbitrary: st)
  case (Cons l ls)
  have "sanitize_line st l = st\<lparr>sz_kept := sz_kept st @ [l]\<rparr>"
    using Cons.prems by (intro sanitize_line_keeps) auto
  then show ?case using Cons by simp
qed simp

lemma collapse_none: "\<not> contains [10, 10, 10] s \<Longrightarrow> collapse_blank_lines s = s"
  by (subst collapse_blank_lines.simps) simp

lemma not_heading_Nil: "\<not> is_system_heading []"
  by code_simp

lemma splitlines_Nil [simp]: "splitlines [] = []"
  by (simp add: splitlines_def)

lemma stripped_body:
  assumes "clean_text (strip txt)" and "strip txt \<noteq> []"
  shows "sanitize_editable_body (join [10] ([] # splitlines (strip txt) @ [[]])) = strip txt"
proof -
  let ?t = "strip txt"
  have t: "join [10] (splitlines ?t) = ?t" "\<not> contains [10, 10, 10] ?t"
    "list_all (\<lambda>l. if blank l then l = [] else \<not> technical_line l) (splitlines ?t)"
    using assms(1) by (simp_all add: clean_text_def)
  then have ne: "splitlines ?t \<noteq> []" using assms(2) by auto
  have body: "join [10] ([] # splitlines ?t @ [[]]) = 10 # ?t @ [10]"
    using ne t(1) by (simp add: join_Cons join_append)
  have "\<not> is_linebreak (last ?t)" using strip_ends(2) [OF assms(2)] linebreak_space by blast
  then have lines: "splitlines (10 # ?t @ [10]) = [] # splitlines ?t"
    using splitlines_last [OF assms(2), of "[]"] by (simp add: splitlines_newline)
  have kept: "sz_kept (sanitize_lines ([] # splitlines ?t)) = [] # splitlines ?t"
    unfolding sanitize_lines_def using t(3) by (subst sanitize_lines_keeps) (simp_all add: blank_Nil)
  have joined: "join [10] ([] # splitlines ?t) = 10 # ?t" using ne t(1) by (simp add: join_Cons)
  have "\<not> is_space (hd ?t)" by (rule strip_ends(1) [OF assms(2)])
  then have "hd ?t \<noteq> 10" by (auto simp: is_space_def)
  then have "\<not> starts_with [10, 10, 10] (10 # ?t)"
    using assms(2) by (cases ?t) (auto simp: starts_with_Cons)
  then have "\<not> contains [10, 10, 10] (10 # ?t)" using t(2) by simp
  then show ?thesis
    by (simp add: sanitize_editable_body_def body lines kept joined collapse_none strip_newline)
qed

lemma technical_heading: "is_system_heading l \<Longrightarrow> technical_line l"
  by (simp add: technical_line_def)

lemma parse_memory_lines:
  assumes fields: "plain_fields rt m" "mi_metadata m = []" and clean: "strip (mi_text m) \<noteq> []"
  shows "parse_markdown_note (vf_content (memory_file rt m sb))
    = Inr \<lparr>md_frontmatter = read_entries rt (memory_frontmatter m sb) [],
        md_body = sanitize_editable_body (join [10]
          (takeWhile (\<lambda>l. \<not> is_system_heading l) ([] # splitlines (strip (mi_text m)) @ [[]])))\<rparr>"
proof -
  let ?es = "memory_frontmatter m sb" and ?t = "strip (mi_text m)"
  let ?E = "concat (map (entry_lines rt) ?es)"
  note good = memory_entries_good [OF fields, of sb]
  have F: "plain (lit ''---'')" "plain (lit ''## Provenance'')" "strip (lit ''---'') = lit ''---''"
    "is_system_heading (lit ''## Provenance'')" "lit ''## Provenance'' \<noteq> lit ''---''" by code_simp+
  have plainE: "list_all plain ?E"
    using good entry_lines_plain [of rt] by (auto simp: list_all_iff)
  have last: "\<not> is_linebreak (last ?t)" using strip_ends(2) [OF clean] linebreak_space by blast
  obtain R where whole: "vf_content (memory_file rt m sb) =
      join [10] (([lit ''---''] @ ?E @ [lit ''---'', []]) @ [?t, [], lit ''## Provenance'']) @ 10 # R"
    using memory_file_content [of rt m sb] by (metis append.assoc append_Cons append_Nil)
  have c2: "vf_content (memory_file rt m sb) = join [10] ([lit ''---''] @ ?E @ [lit ''---'', []]) @ 10 #
      (?t @ 10 # (join [10] [[], lit ''## Provenance''] @ 10 # R))"
    unfolding whole by (subst join_append) (simp_all add: join_Cons)
  have s2: "splitlines (join [10] ([lit ''---''] @ ?E @ [lit ''---'', []]) @ 10 #
      (?t @ 10 # (join [10] [[], lit ''## Provenance''] @ 10 # R))) = ([lit ''---''] @ ?E @ [lit ''---'', []]) @ splitlines ?t
      @ [[], lit ''## Provenance''] @ splitlines R"
  proof -
    have "splitlines (join [10] [[], lit ''## Provenance''] @ 10 # R) = [[], lit ''## Provenance''] @ splitlines R"
      using F by (intro splitlines_join) simp_all
    then have tail: "splitlines (?t @ 10 # (join [10] [[], lit ''## Provenance''] @ 10 # R))
        = splitlines ?t @ [[], lit ''## Provenance''] @ splitlines R"
      by (simp only: splitlines_last [OF clean last])
    have "splitlines (join [10] ([lit ''---''] @ ?E @ [lit ''---'', []]) @ 10 # Y)
        = ([lit ''---''] @ ?E @ [lit ''---'', []]) @ splitlines Y" for Y
      using plainE F by (intro splitlines_join) simp_all
    from this [of "?t @ 10 # (join [10] [[], lit ''## Provenance''] @ 10 # R)"] show ?thesis unfolding tail .
  qed
  have "splitlines (vf_content (memory_file rt m sb)) = ([lit ''---''] @ ?E @ [lit ''---'', []]) @ splitlines ?t
      @ [[], lit ''## Provenance''] @ splitlines R"
    unfolding c2 by (rule s2)
  then have lines: "splitlines (vf_content (memory_file rt m sb)) = lit ''---'' # (?E @ lit ''---'' #
      ([] # splitlines ?t @ [] # lit ''## Provenance'' # splitlines R))" by simp
  have fence: "\<And>l. l \<in> set ?E \<Longrightarrow> l \<noteq> lit ''---''"
    using good entry_lines_no_fence [of rt] by (auto simp: list_all_iff)
  have body: "takeWhile (\<lambda>l. \<not> is_system_heading l) ([] # splitlines ?t @ [] # lit ''## Provenance'' # splitlines R)
      = takeWhile (\<lambda>l. \<not> is_system_heading l) ([] # splitlines ?t @ [[]])"
  proof -
    have "takeWhile (\<lambda>l. \<not> is_system_heading l) (([] # splitlines ?t @ [[]]) @ lit ''## Provenance'' # splitlines R)
        = takeWhile (\<lambda>l. \<not> is_system_heading l) ([] # splitlines ?t @ [[]])"
      using F(4) by (simp only: takeWhile_tail [of "\<lambda>l. \<not> is_system_heading l"] simp_thms)
    then show ?thesis by simp
  qed
  have "takeWhile (\<lambda>l. l \<noteq> lit ''---'') (?E @ lit ''---'' # X) = ?E"
    "dropWhile (\<lambda>l. l \<noteq> lit ''---'') (?E @ lit ''---'' # X) = lit ''---'' # X" for X
    by (simp_all only: takeWhile_append2 [of ?E "\<lambda>l. l \<noteq> lit ''---''", OF fence]
        dropWhile_append2 [of ?E "\<lambda>l. l \<noteq> lit ''---''", OF fence]) simp_all
  with F(3) body show ?thesis
    by (simp add: parse_markdown_note_def lines parse_entries [OF good])
qed

lemma parse_memory_file:
  assumes fields: "plain_fields rt m" "mi_metadata m = []"
    and clean: "clean_text (strip (mi_text m))" "strip (mi_text m) \<noteq> []"
  shows "parse_markdown_note (vf_content (memory_file rt m sb))
    = Inr \<lparr>md_frontmatter = read_entries rt (memory_frontmatter m sb) [], md_body = strip (mi_text m)\<rparr>"
proof -
  have "\<not> is_system_heading l" if "l \<in> set ([] # splitlines (strip (mi_text m)) @ [[]])" for l
    using clean(1) that technical_heading not_heading_Nil
    by (fastforce simp: clean_text_def list_all_iff split: if_splits)
  then have "takeWhile (\<lambda>l. \<not> is_system_heading l) ([] # splitlines (strip (mi_text m)) @ [[]])
      = [] # splitlines (strip (mi_text m)) @ [[]]" by (subst takeWhile_eq_all_conv) blast
  then show ?thesis by (simp only: parse_memory_lines [OF fields clean(2)] stripped_body [OF clean])
qed

section \<open>What an import plans\<close>

lemma memory_entries_read:
  assumes "(k, v) \<in> set (memory_frontmatter m sb)"
  shows "dict_get (read_entries rt (memory_frontmatter m sb) []) k = Some (entry_read rt v)"
  using assms memory_keys_ok(1) by (intro read_entries_get) (simp_all add: memory_keys)

lemma entry_read_text: "entry_read rt (PStr s) = YStr s" "entry_read rt (PInt n) = YInt n"
  by (simp_all add: strip_yaml_text)

lemma memory_identity_read:
  "note_identity env (read_entries rt (memory_frontmatter m sb) [])
    = Inr (mi_id m, mi_revision m, mi_tenant_id m, mi_workspace_id m)"
proof -
  let ?d = "read_entries rt (memory_frontmatter m sb) []"
  have "dict_get ?d (lit ''id'') = Some (YStr (memory_name (mi_id m)))"
    "dict_get ?d (lit ''revision'') = Some (YInt (mi_revision m))"
    "dict_get ?d (lit ''tenant_id'') = Some (YStr (uuid_str (mi_tenant_id m)))"
    "dict_get ?d (lit ''workspace_id'') = Some (YStr (uuid_str (mi_workspace_id m)))"
    unfolding entry_read_text [of rt, symmetric]
    by (rule memory_entries_read; simp add: memory_frontmatter_def)+
  moreover have "parse_note_id env (YStr (memory_name i)) = Inr i" for i
  proof -
    have "lit ''mem-'' = [109, 101, 109, 45]" by (simp add: lit_def)
    then show ?thesis by (simp add: parse_note_id_def memory_name_def starts_with_def parse_uuid_str)
  qed
  ultimately show ?thesis
    by (simp add: note_identity_def yaml_get_def yaml_index_def int_of_text_def int_literal_str parse_uuid_str)
qed

text \<open>
  C31: A note survives its round trip if nothing in it looks technical. Take the note, not marked
  superseded, of a stored memory without metadata whose fields each fit on a line and whose numbers print
  as plain numbers, with its text as stored or replaced by another. Let the note's text be not blank and,
  stripped, free of technical-looking lines, of lines of spaces and of two empty lines in a row
  (\<open>clean_text\<close>). Then the note is read to the memory's identity and exactly that text, stripped, so an
  import plans nothing when the text is the stored one and the next revision when it is not. (A stored
  text with technical lines does not survive: \<open>untouched_note_aborts_import\<close>.)
\<close>

theorem vault_roundtrip:
  assumes "get_item (mi_tenant_id m) (mi_id m) s = Some m"
    and "plain_fields rt m" and "mi_metadata m = []"
    and "clean_text (strip new)" and "\<not> blank new"
  defines "file \<equiv> memory_file rt (m\<lparr>mi_text := new\<rparr>) None"
  shows "parse_markdown_note (vf_content file)
      = Inr \<lparr>md_frontmatter = read_entries rt (memory_frontmatter m None) [], md_body = strip new\<rparr>
    \<and> plan_file_import env (mi_tenant_id m) (mi_workspace_id m) file s
      = (if strip (mi_text m) = strip new
         then note_change (vf_path file) (lit ''unchanged'') (mi_id m) (mi_revision m) (lit ''memory text unchanged'')
         else note_change (vf_path file) (lit ''supersede'') (mi_id m) (mi_revision m) (lit ''memory text changed''))"
proof -
  let ?d = "read_entries rt (memory_frontmatter m None) []"
  have fm: "memory_frontmatter (m\<lparr>mi_text := new\<rparr>) None = memory_frontmatter m None"
    by (simp add: memory_frontmatter_def note_status_def)
  have parsed: "parse_markdown_note (vf_content file) = Inr \<lparr>md_frontmatter = ?d, md_body = strip new\<rparr>"
    using parse_memory_file [of rt "m\<lparr>mi_text := new\<rparr>" None] assms(2-5)
    unfolding file_def by (simp add: fm plain_fields_def blank_def)
  have "dict_get ?d (lit ''type'') = Some (YStr (lit ''memory''))"
    "dict_get ?d (lit ''status'') = Some (YStr (note_status m None))"
    unfolding entry_read_text(1) [of rt, symmetric]
    by (rule memory_entries_read; simp add: memory_frontmatter_def)+
  moreover have "note_status m None \<noteq> lit ''superseded''"
    by (cases "mi_status m"; simp add: note_status_def; code_simp)
  ultimately show ?thesis
    using assms(1) parsed
    by (simp add: plan_file_import_def note_head_def memory_identity_read Let_def)
qed

section \<open>Texts that are taken for technical lines\<close>

lemma technical_body:
  assumes "technical_line t" and "plain t" and "strip t = t" and "t \<noteq> []"
  shows "sanitize_editable_body (join [10] (takeWhile (\<lambda>l. \<not> is_system_heading l) ([] # splitlines t @ [[]]))) = []"
proof -
  have last: "\<not> is_linebreak (last t)" using strip_ends(2) [of t] assms(3,4) linebreak_space by auto
  have "splitlines (t @ [10]) = [t]" using splitlines_plain [OF assms(2), of "[]"] by simp
  then have line: "splitlines t = [t]" using splitlines_last [OF assms(4) last, of "[]"] by simp
  have empty: "sanitize_editable_body [] = []" by code_simp
  show ?thesis
  proof (cases "is_system_heading t")
    case True
    then show ?thesis by (simp add: line not_heading_Nil empty)
  next
    case False
    have "\<not> blank t" using assms(3,4) by (simp add: blank_def)
    have "splitlines (10 # t @ [10]) = [[], t]"
      using splitlines_plain [OF assms(2), of "[]"] by (simp add: splitlines_newline)
    moreover have "sanitize_line \<lparr>sz_kept = [], sz_block = 0, sz_fence = False\<rparr> []
        = \<lparr>sz_kept = [[]], sz_block = 0, sz_fence = False\<rparr>" by code_simp
    moreover have "sz_kept (sanitize_line \<lparr>sz_kept = [[]], sz_block = 0, sz_fence = False\<rparr> t) = [[]]"
      using assms(1,3,4) by (simp add: sanitize_line_def Let_def)
    ultimately have "sz_kept (sanitize_lines (splitlines (10 # t @ [10]))) = [[]]" by (simp add: sanitize_lines_def)
    moreover have "strip (collapse_blank_lines []) = []" by code_simp
    ultimately show ?thesis using False not_heading_Nil by (simp add: line sanitize_editable_body_def)
  qed
qed

text \<open>
  (unlisted): A memory whose text is one line that looks technical (a heading, field, vector or payload the
  cleaning drops) cannot pass through the vault: its exported note is read back empty, so the untouched
  note is planned as an edit, and applying it raises and leaves the import without having written anything.
\<close>

theorem untouched_note_aborts_import:
  assumes "get_item (mi_tenant_id m) (mi_id m) s = Some m"
    and "plain_fields rt m" and "mi_metadata m = []"
    and "technical_line (strip (mi_text m))" and "plain (strip (mi_text m))" and "\<not> blank (mi_text m)"
  defines "file \<equiv> memory_file rt m None"
  shows "vc_action (plan_file_import env (mi_tenant_id m) (mi_workspace_id m) file s) = lit ''supersede''
    \<and> (\<exists>e. apply_import env (Some g) fr (mi_tenant_id m) (mi_workspace_id m) [file] s = (Inl e, s))"
proof -
  let ?d = "read_entries rt (memory_frontmatter m None) []"
  have ne: "strip (mi_text m) \<noteq> []" using assms(6) by (simp add: blank_def)
  have parsed: "parse_markdown_note (vf_content file) = Inr \<lparr>md_frontmatter = ?d, md_body = []\<rparr>"
    unfolding file_def parse_memory_lines [OF assms(2,3) ne]
    by (simp only: technical_body [OF assms(4,5) strip_strip ne])
  have "dict_get ?d (lit ''type'') = Some (YStr (lit ''memory''))"
    "dict_get ?d (lit ''status'') = Some (YStr (note_status m None))"
    unfolding entry_read_text(1) [of rt, symmetric]
    by (rule memory_entries_read; simp add: memory_frontmatter_def)+
  moreover have "note_status m None \<noteq> lit ''superseded''"
    by (cases "mi_status m"; simp add: note_status_def; code_simp)
  ultimately have plan: "plan_file_import env (mi_tenant_id m) (mi_workspace_id m) file s
      = note_change (vf_path file) (lit ''supersede'') (mi_id m) (mi_revision m) (lit ''memory text changed'')"
    using assms(1) parsed ne
    by (simp add: plan_file_import_def note_head_def memory_identity_read Let_def blank_Nil)
  have "\<exists>e. note_command (mi_tenant_id m) (mi_id m) (mi_revision m) None key \<lparr>md_frontmatter = ?d, md_body = []\<rparr> = Inl e" for key
    by (cases "optional_float (yaml_get ?d (lit ''confidence''))")
      (simp_all add: note_command_def supersede_command_post_init_def blank_Nil)
  then obtain e where "note_command (mi_tenant_id m) (mi_id m) (mi_revision m) None
      (lit ''vault-import:'' @ vf_path file @ lit '':'') \<lparr>md_frontmatter = ?d, md_body = []\<rparr> = Inl e" by blast
  then have "apply_import env (Some g) fr (mi_tenant_id m) (mi_workspace_id m) [file] s = (Inl e, s)"
    using plan parsed
    by (simp add: apply_import_def plan_import_def apply_change_def revise_note_def content_at_def note_change_def)
  with plan show ?thesis by (simp add: note_change_def)
qed

section \<open>Notes with metadata\<close>

lemma splitlines_from_prefix: "acc \<noteq> [] \<Longrightarrow> \<exists>r ls. splitlines_from acc s = (rev acc @ r) # ls"
proof (induction acc s rule: splitlines_from.induct)
  case (2 acc c cs)
  show ?case
  proof (cases "is_linebreak c")
    case True
    then show ?thesis by (cases cs) auto
  next
    case False
    then have "c \<noteq> 13" by (auto simp: is_linebreak_def)
    with False 2(3) show ?thesis by fastforce
  qed
qed simp

lemma splitlines_from_plain_prefix: "plain p \<Longrightarrow> splitlines_from acc (p @ s) = splitlines_from (rev p @ acc) s"
proof (induction p arbitrary: acc)
  case (Cons c p)
  then have "c \<noteq> 13" by (auto simp: is_linebreak_def)
  with Cons show ?case by simp
qed simp

lemma splitlines_plain_prefix: "plain p \<Longrightarrow> p \<noteq> [] \<Longrightarrow> \<exists>r ls. splitlines (p @ s) = (p @ r) # ls"
  using splitlines_from_prefix [of "rev p" s] by (simp add: splitlines_def splitlines_from_plain_prefix)

lemma join_first: "\<exists>r. join [10] (x # xs) = x @ r"
  by (cases xs) auto

lemma dict_value_first:
  assumes "md \<noteq> []"
  obtains k r where "k \<in> fst ` set md" "yaml_value rt 0 (PDict md) = [10] @ [32, 32] @ k @ [58, 32] @ r"
proof -
  define rows where "rows = map (\<lambda>(k, v). (k, yaml_pad (0 + 2) @ k @ lit '': '' @ yaml_value rt (0 + 2) v)) md"
  obtain x xs where x: "sort_key fst rows = x # xs"
  proof (cases "sort_key fst rows")
    case Nil
    then have "rows = []" using length_sort [of fst rows] by simp
    then show thesis using assms by (simp add: rows_def)
  qed (use that in blast)
  have "x \<in> set (sort_key fst rows)" unfolding x by simp
  then have "x \<in> set rows" by simp
  then obtain k v where kv: "(k, v) \<in> set md" "x = (k, yaml_pad (0 + 2) @ k @ lit '': '' @ yaml_value rt (0 + 2) v)"
    unfolding rows_def by auto
  obtain r where "join [10] (map snd (x # xs)) = snd x @ r" using join_first [of "snd x" "map snd xs"] by auto
  moreover have "yaml_value rt 0 (PDict md) = [10] @ join [10] (map snd (sort_key fst rows))"
    using assms unfolding rows_def by (simp only: yaml_value.simps if_False)
  moreover have "yaml_pad (0 + 2) = [32, 32]" by (simp add: yaml_pad_def numeral_2_eq_2)
  ultimately have "yaml_value rt 0 (PDict md) = [10] @ [32, 32] @ k @ [58, 32] @ (yaml_value rt (0 + 2) v @ r)"
    unfolding x kv(2) by (simp add: lit_def)
  moreover have "k \<in> fst ` set md" using kv(1) by force
  ultimately show thesis using that by blast
qed

lemma memory_file_starts: "\<exists>w. vf_content (memory_file rt m sb) = frontmatter rt (memory_frontmatter m sb) @ 10 # w"
proof -
  let ?rest = "[[], strip (mi_text m), [], lit ''## Provenance''] @ memory_tail m sb"
  have "join [10] ?rest = join [10] [[], strip (mi_text m), [], lit ''## Provenance''] @ [10] @ join [10] (memory_tail m sb)"
    using memory_tail_text(1) by (rule join_append [rotated]) simp
  then have "\<not> blank (join [10] ?rest)"
    using memory_tail_text(2) [of m sb] by (simp add: blank_iff del: join.simps)
  then have "\<not> blank ([10] @ join [10] ?rest)" by (simp add: blank_iff)
  then have "rstrip (frontmatter rt (memory_frontmatter m sb) @ [10] @ join [10] ?rest)
      = frontmatter rt (memory_frontmatter m sb) @ rstrip ([10] @ join [10] ?rest)"
    by (simp only: rstrip_append if_False)
  moreover have "rstrip ([10] @ join [10] ?rest) = [10] @ rstrip (join [10] ?rest)"
    using \<open>\<not> blank (join [10] ?rest)\<close> by (simp only: rstrip_append if_False)
  ultimately show ?thesis
    using join_append [of "[frontmatter rt (memory_frontmatter m sb)]" ?rest "[10]"]
    by (simp add: memory_file_def)
qed

text \<open>
  C37: A note with metadata is never read back: whenever a memory has metadata with one-line keys, none of
  which starts with a list mark, its exported note is refused by the frontmatter reader, so importing it,
  edited or not, and archiving it through the vault both report an error.
\<close>

theorem metadata_note_rejected:
  assumes "plain_fields rt m" and "mi_metadata m \<noteq> []"
    and "\<And>k. k \<in> fst ` set (mi_metadata m) \<Longrightarrow> plain k \<and> \<not> starts_with (lit ''- '') k"
  shows "vc_action (plan_file_import env t w (memory_file rt m sb) s) = lit ''error''
    \<and> (\<exists>c. plan_file_archive env t w (memory_file rt m sb) s = Inr c \<and> vc_action c = lit ''error'')"
proof -
  let ?md = "mi_metadata m"
  define es where "es = butlast (memory_frontmatter m sb)"
  let ?E = "concat (map (entry_lines rt) es)"
  obtain k r where k: "k \<in> fst ` set ?md" and v: "yaml_value rt 0 (PDict ?md) = [10] @ [32, 32] @ k @ [58, 32] @ r"
    by (rule dict_value_first [OF assms(2)])
  have fm: "memory_frontmatter m sb = es @ [(lit ''metadata'', PDict ?md)]"
    by (simp add: memory_frontmatter_def es_def)
  have es: "es = butlast (memory_frontmatter (m\<lparr>mi_metadata := []\<rparr>) sb)"
    by (simp add: memory_frontmatter_def note_status_def es_def)
  have "plain_fields rt (m\<lparr>mi_metadata := []\<rparr>)" using assms(1) by (simp add: plain_fields_def)
  then have "list_all (good_entry rt) (memory_frontmatter (m\<lparr>mi_metadata := []\<rparr>) sb)"
    by (rule memory_entries_good) simp
  then have good: "list_all (good_entry rt) es" unfolding es by (auto simp: list_all_iff dest: in_set_butlastD)
  let ?L = "[lit ''---''] @ ?E @ [lit ''metadata: '']"
  obtain y where front: "frontmatter rt (memory_frontmatter m sb) = join [10] ?L @ 10 # ([32, 32] @ k @ [58, 32]) @ y"
  proof
    let ?xss = "[[lit ''---'']] @ map (entry_lines rt) es"
    have eq: "map (\<lambda>(k, v). k @ lit '': '' @ yaml_value rt 0 v) es = map (\<lambda>e. join [10] (entry_lines rt e)) es"
      by (auto simp: entry_text)
    have "join [10] (map (join [10]) ?xss) = join [10] (concat ?xss)"
      by (rule join_concat) (auto simp: list_all_iff entry_lines_nonempty)
    then have heads: "join [10] ([lit ''---''] @ map (\<lambda>e. join [10] (entry_lines rt e)) es) = join [10] ([lit ''---''] @ ?E)"
      by (simp add: o_def)
    have md: "lit ''metadata'' @ lit '': '' @ yaml_value rt 0 (PDict ?md)
        = lit ''metadata: '' @ [10] @ [32, 32] @ k @ [58, 32] @ r" unfolding v by (simp add: lit_def)
    have "frontmatter rt (memory_frontmatter m sb)
        = join [10] (([lit ''---''] @ map (\<lambda>e. join [10] (entry_lines rt e)) es)
            @ [lit ''metadata'' @ lit '': '' @ yaml_value rt 0 (PDict ?md), lit ''---''])"
      unfolding frontmatter_def fm map_append eq by simp
    also have "\<dots> = join [10] ([lit ''---''] @ ?E) @ [10] @ join [10] [lit ''metadata: '' @ [10] @ [32, 32] @ k @ [58, 32] @ r, lit ''---'']"
      unfolding md heads [symmetric] by (rule join_append) simp_all
    also have "\<dots> = join [10] ?L @ 10 # ([32, 32] @ k @ [58, 32]) @ (r @ 10 # lit ''---'')"
      using join_append [of "[lit ''---''] @ ?E" "[lit ''metadata: '']" "[10]"] by simp
    finally show "frontmatter rt (memory_frontmatter m sb)
        = join [10] ?L @ 10 # ([32, 32] @ k @ [58, 32]) @ (r @ 10 # lit ''---'')" .
  qed
  obtain w where content: "vf_content (memory_file rt m sb) = join [10] ?L @ 10 # ([32, 32] @ k @ [58, 32]) @ w"
    using memory_file_starts [of rt m sb] front by auto
  have pk: "plain k" "\<not> starts_with (lit ''- '') k" using assms(3) [OF k] by simp_all
  obtain q ls where first: "splitlines (([32, 32] @ k @ [58, 32]) @ w) = (([32, 32] @ k @ [58, 32]) @ q) # ls"
    using splitlines_plain_prefix [of "[32, 32] @ k @ [58, 32]" w] pk(1) by auto
  define bad where "bad = ([32, 32] @ k @ [58, 32]) @ q"
  have F: "plain (lit ''---'')" "plain (lit ''metadata: '')" "strip (lit ''---'') = lit ''---''"
    "lit ''metadata: '' \<noteq> lit ''---''" "good_key (lit ''metadata'')" by code_simp+
  have "list_all plain ?L"
    using good entry_lines_plain [of rt] F by (auto simp: list_all_iff)
  then have "splitlines (vf_content (memory_file rt m sb)) = ?L @ bad # ls"
    unfolding content bad_def first [symmetric] by (rule splitlines_join) simp
  then have lines: "splitlines (vf_content (memory_file rt m sb)) = lit ''---'' # (?E @ lit ''metadata: '' # bad # ls)" by simp
  have bad: "\<not> blank bad" "starts_with [32] bad" "\<not> list_line bad" "bad \<noteq> lit ''---''"
  proof -
    show "\<not> blank bad" by (simp add: bad_def blank_iff is_space_def)
    show "starts_with [32] bad" by (simp add: bad_def starts_with_Cons)
    show "\<not> list_line bad"
      using pk(2) by (cases k; cases "tl k") (auto simp: bad_def list_line_def colon starts_with_Cons lit_def)
    show "bad \<noteq> lit ''---''" by (simp add: bad_def lit_def)
  qed
  have fence: "\<And>l. l \<in> set ?E \<Longrightarrow> l \<noteq> lit ''---''"
    using good entry_lines_no_fence [of rt] by (auto simp: list_all_iff)
  have taken: "takeWhile (\<lambda>l. l \<noteq> lit ''---'') (?E @ lit ''metadata: '' # bad # ls)
      = ?E @ lit ''metadata: '' # bad # takeWhile (\<lambda>l. l \<noteq> lit ''---'') ls"
    by (simp only: takeWhile_append2 [of ?E "\<lambda>l. l \<noteq> lit ''---''", OF fence]) (simp add: F bad(4))
  have "parse_frontmatter (?E @ lit ''metadata: '' # bad # z) [] = Inl (ValueError (lit ''unsupported frontmatter line: '' @ bad))" for z
  proof -
    have "\<not> list_line (lit ''metadata: '')" by code_simp
    then have "parse_frontmatter (?E @ lit ''metadata: '' # bad # z) []
        = parse_frontmatter (lit ''metadata: '' # bad # z) (read_entries rt es [])"
      by (intro parse_entries_then [OF good]) simp
    also have "\<dots> = parse_frontmatter (bad # z) (dict_set (lit ''metadata'') (YList []) (read_entries rt es []))"
      using parse_list_entry [OF F(5), of "bad # z" "[]"] bad(3) by (simp add: lit_def)
    also have "\<dots> = Inl (ValueError (lit ''unsupported frontmatter line: '' @ bad))" using bad(1,2) by simp
    finally show ?thesis .
  qed
  then have "parse_frontmatter (takeWhile (\<lambda>l. l \<noteq> lit ''---'') (?E @ lit ''metadata: '' # bad # ls)) []
      = Inl (ValueError (lit ''unsupported frontmatter line: '' @ bad))" unfolding taken .
  then obtain e where "parse_markdown_note (vf_content (memory_file rt m sb)) = Inl e"
    unfolding parse_markdown_note_def lines
    by (cases "lit ''---'' \<in> set (?E @ lit ''metadata: '' # bad # ls)") (simp_all only: list.case F(3) if_False if_True simp_thms res_bind_simps)
  then show ?thesis by (simp add: plan_file_import_def plan_file_archive_def bare_change_def)
qed

section \<open>Concrete notes\<close>

definition sample_repr :: runtime where
  "sample_repr = \<lparr>rt_repr = (\<lambda>_. lit ''0.5''), rt_dict = (\<lambda>_. Inr [])\<rparr>"

definition sample_note_file :: "str \<Rightarrow> vault_file" where
  "sample_note_file new = memory_file sample_repr ((sample_item 1 7 8 (lit ''tea''))\<lparr>mi_text := new\<rparr>) None"

lemma sample_fields: "plain_fields sample_repr (sample_item 1 7 8 (lit ''tea''))"
  by code_simp

theorem vault_roundtrip_witness:
  "\<forall>env. vc_action (plan_file_import env 7 8 (sample_note_file (lit ''tea'')) cas_store) = lit ''unchanged''
    \<and> vc_action (plan_file_import env 7 8 (sample_note_file (lit ''# milk'')) cas_store) = lit ''supersede''"
proof
  fix env
  let ?m = "sample_item 1 7 8 (lit ''tea'')"
  have i: "mi_tenant_id ?m = 7" "mi_workspace_id ?m = 8" "mi_id ?m = 1" "mi_text ?m = lit ''tea''" "mi_metadata ?m = []"
    by (simp_all add: sample_item_def)
  have row: "get_item (mi_tenant_id ?m) (mi_id ?m) cas_store = Some ?m" by code_simp
  have c: "clean_text (strip (lit ''tea''))" "\<not> blank (lit ''tea'')" "clean_text (strip (lit ''# milk''))"
    "\<not> blank (lit ''# milk'')" "strip (lit ''tea'') \<noteq> strip (lit ''# milk'')" by code_simp+
  show "vc_action (plan_file_import env 7 8 (sample_note_file (lit ''tea'')) cas_store) = lit ''unchanged''
    \<and> vc_action (plan_file_import env 7 8 (sample_note_file (lit ''# milk'')) cas_store) = lit ''supersede''"
    using vault_roundtrip [OF row sample_fields i(5) c(1,2), of env] vault_roundtrip [OF row sample_fields i(5) c(3,4), of env] c(5)
    unfolding sample_note_file_def i by (simp add: note_change_def)
qed

theorem metadata_note_rejected_witness:
  "\<forall>env s. vc_action (plan_file_import env 7 8 (memory_file sample_repr
      ((sample_item 1 7 8 (lit ''tea''))\<lparr>mi_metadata := [(lit ''channel'', PStr (lit ''chat''))]\<rparr>) None) s) = lit ''error''"
proof (intro allI)
  fix env s
  let ?m = "(sample_item 1 7 8 (lit ''tea''))\<lparr>mi_metadata := [(lit ''channel'', PStr (lit ''chat''))]\<rparr>"
  have f: "plain_fields sample_repr ?m" using sample_fields by (simp add: plain_fields_def)
  have m: "mi_metadata ?m \<noteq> []" by simp
  have "plain (lit ''channel'') \<and> \<not> starts_with (lit ''- '') (lit ''channel'')" by code_simp
  then have k: "plain k \<and> \<not> starts_with (lit ''- '') k" if "k \<in> fst ` set (mi_metadata ?m)" for k using that by simp
  show "vc_action (plan_file_import env 7 8 (memory_file sample_repr ?m None) s) = lit ''error''"
    using metadata_note_rejected [OF f m k, of env 7 8 None s] by blast
qed

theorem untouched_note_aborts_import_witness:
  "\<forall>env fr. \<exists>e. apply_import env (Some open_guard) fr 7 8
      [memory_file sample_repr (sample_item 1 7 8 (lit ''Status: blocked'')) None]
      (snd (retain (sample_item 1 7 8 (lit ''Status: blocked'')) (sample_event 21 7 8) None None empty_store))
    = (Inl e, snd (retain (sample_item 1 7 8 (lit ''Status: blocked'')) (sample_event 21 7 8) None None empty_store))"
proof (intro allI)
  fix env fr
  let ?m = "sample_item 1 7 8 (lit ''Status: blocked'')"
  let ?s = "snd (retain ?m (sample_event 21 7 8) None None empty_store)"
  have row: "get_item (mi_tenant_id ?m) (mi_id ?m) ?s = Some ?m" by code_simp
  have f: "plain_fields sample_repr ?m" "mi_metadata ?m = []" "technical_line (strip (mi_text ?m))"
    "plain (strip (mi_text ?m))" "\<not> blank (mi_text ?m)" by code_simp+
  have i: "mi_tenant_id ?m = 7" "mi_workspace_id ?m = 8" by (simp_all add: sample_item_def)
  show "\<exists>e. apply_import env (Some open_guard) fr 7 8 [memory_file sample_repr ?m None] ?s = (Inl e, ?s)"
    using untouched_note_aborts_import [OF row f, of env open_guard fr] unfolding i by blast
qed

end
