(* ===== verification/Access.thy ===== *)
theory Access
  imports PyStrings EventEnvelope StoreRegistry
begin

text \<open>
  Who may call what (\<open>api/app.py\<close>): the principals and their scopes, the scope a route requires, the
  route family an audit row may name, the configured keys and bindings, and the signed browser sessions
  with their base64 text. \<open>json.dumps\<close>, \<open>json.loads\<close>, HMAC-SHA256 and SHA-256 are fields of \<open>api_env\<close>;
  bytes are integers below 256.
\<close>

section \<open>Principals and scopes\<close>

record principal =
  pr_name :: str
  pr_scopes :: "str list"
  pr_fingerprint :: "str option"
  pr_tenant_id :: "uuid option"
  pr_workspace_id :: "uuid option"
  pr_agent_id :: "uuid option"

definition has_scope :: "principal \<Rightarrow> str \<Rightarrow> bool" where
  "has_scope p scope \<longleftrightarrow> lit ''admin'' \<in> set (pr_scopes p) \<or> lit ''operator'' \<in> set (pr_scopes p) \<or> scope \<in> set (pr_scopes p)"

definition scope_allowed :: "principal \<Rightarrow> str \<Rightarrow> bool" where
  "scope_allowed p required \<longleftrightarrow> required = lit ''public'' \<or> has_scope p required
     \<or> required \<in> {lit ''read'', lit ''write''} \<and> has_scope p (lit ''agent'')"

definition audit_actor_type :: "principal \<Rightarrow> str" where
  "audit_actor_type p =
    (if lit ''agent'' \<in> set (pr_scopes p) then lit ''agent''
     else if has_scope p (lit ''operator'') \<or> has_scope p (lit ''admin'') then lit ''operator'' else lit ''api_key'')"

definition local_dev :: principal where
  "local_dev = \<lparr>pr_name = lit ''local-dev'', pr_scopes = [lit ''admin''], pr_fingerprint = None,
     pr_tenant_id = None, pr_workspace_id = None, pr_agent_id = None\<rparr>"

definition principal_from_request :: "principal option \<Rightarrow> principal" where
  "principal_from_request state = (case state of None \<Rightarrow> local_dev | Some p \<Rightarrow> p)"

section \<open>Routes\<close>

definition required_scope :: "str \<Rightarrow> str \<Rightarrow> str" where
  "required_scope path method =
    (if path \<in> {lit ''/health'', lit ''/ready''} \<or> starts_with (lit ''/ui'') path then lit ''public''
     else if path = lit ''/v1/ui/session'' then lit ''public''
     else if starts_with (lit ''/v1/keys'') path then lit ''operator''
     else if starts_with (lit ''/v1/audit'') path then lit ''operator''
     else if starts_with (lit ''/v1/identities'') path then lit ''operator''
     else if path = lit ''/v1/workspaces/provision'' then lit ''operator''
     else if starts_with (lit ''/v1/graph'') path then lit ''operator''
     else if starts_with (lit ''/v1/workspaces/'') path then
       (if ends_with (lit ''/seed'') path \<and> method = lit ''GET'' then lit ''read''
        else if ends_with (lit ''/reflect'') path \<and> method = lit ''POST'' then lit ''write''
        else lit ''operator'')
     else if starts_with (lit ''/v1/memory/'') path \<and> ends_with (lit ''/supersede'') path then lit ''operator''
     else if starts_with (lit ''/v1/memory/'') path \<and> ends_with (lit ''/neighbors'') path then lit ''operator''
     else if starts_with (lit ''/v1/memory/proposals'') path then
       (if path = lit ''/v1/memory/proposals'' \<and> method = lit ''POST'' then lit ''write'' else lit ''operator'')
     else if starts_with (lit ''/v1/conversations'') path then
       (if path = lit ''/v1/conversations/turns'' \<and> method = lit ''POST'' then lit ''write'' else lit ''operator'')
     else if path = lit ''/v1/checkpoints'' \<and> method = lit ''GET'' then lit ''operator''
     else if starts_with (lit ''/v1/checkpoints/'') path \<and> ends_with (lit ''/compact'') path then lit ''operator''
     else if list_ex (\<lambda>p. starts_with p path) [lit ''/docs'', lit ''/redoc'', lit ''/openapi.json'', lit ''/metrics''] then lit ''operator''
     else if list_ex (\<lambda>p. starts_with p path) [lit ''/v1/system'', lit ''/v1/settings''] then lit ''operator''
     else if ends_with (lit ''/recall'') path \<or> starts_with (lit ''/v1/context'') path then lit ''read''
     else if method \<in> {lit ''GET'', lit ''HEAD'', lit ''OPTIONS''} then lit ''read''
     else lit ''write'')"

definition route_groups :: "str list" where
  "route_groups = [lit ''audit'', lit ''checkpoints'', lit ''context'', lit ''conversations'', lit ''graph'', lit ''identities'',
     lit ''ingest'', lit ''keys'', lit ''memory'', lit ''settings'', lit ''system'', lit ''ui'', lit ''workspaces'']"

text \<open>\<open>^/v1/(a|b|...)(?:/|$)\<close>: the first alternative after which a slash, the end or a last newline follows.\<close>

definition segment_end :: "str \<Rightarrow> bool" where
  "segment_end rest \<longleftrightarrow> rest = [] \<or> rest = [10] \<or> starts_with [47] rest"

definition audit_route_family :: "str \<Rightarrow> str" where
  "audit_route_family path =
    (if path \<in> {lit ''/health'', lit ''/ready'', lit ''/metrics'', lit ''/docs'', lit ''/redoc'', lit ''/openapi.json''} then path
     else if path = lit ''/ui'' \<or> starts_with (lit ''/ui/'') path then lit ''/ui''
     else case find (\<lambda>g. starts_with (lit ''/v1/'' @ g) path \<and> segment_end (drop (length (lit ''/v1/'' @ g)) path)) route_groups of
            Some g \<Rightarrow> lit ''/v1/'' @ g | None \<Rightarrow> lit ''/other'')"

section \<open>Configuration\<close>

text \<open>\<open>dict.fromkeys\<close>: the first occurrences in order.\<close>

definition from_keys :: "'a list \<Rightarrow> 'a list" where
  "from_keys xs = rev (remdups (rev xs))"

definition worker_kind_ok :: "str \<Rightarrow> bool" where
  "worker_kind_ok s \<longleftrightarrow> (case s of [] \<Rightarrow> False
     | c # cs \<Rightarrow> 97 \<le> c \<and> c \<le> 122 \<and> length cs \<le> 63
         \<and> list_all (\<lambda>d. 97 \<le> d \<and> d \<le> 122 \<or> 48 \<le> d \<and> d \<le> 57 \<or> d = 45) cs)"

definition parse_required_workers :: "str option \<Rightarrow> str list res" where
  "parse_required_workers raw = (case given raw of
     None \<Rightarrow> Inr []
   | Some r \<Rightarrow>
       let workers = from_keys (map (\<lambda>v. py_lower (strip v)) (filter (\<lambda>v. \<not> blank v) (split_char 44 [] r))) in
       if list_all worker_kind_ok workers then Inr workers
       else Inl (ValueError (lit ''UAM_REQUIRED_WORKERS contains an invalid worker kind'')))"

definition parse_scopes :: "str \<Rightarrow> str list" where
  "parse_scopes raw = from_keys (map (\<lambda>s. py_lower (strip s)) (filter (\<lambda>s. \<not> blank s)
     (split_char 43 [] (replace_char 124 [43] raw))))"

definition parse_scoped_entry :: "str \<Rightarrow> (str \<times> str \<times> str list) option" where
  "parse_scoped_entry entry =
    (case split_char 58 [] (strip entry) of
       name # secret # first # others \<Rightarrow>
         let scopes = parse_scopes (join [58] (first # others)) in
         if \<not> blank name \<and> \<not> blank secret \<and> scopes \<noteq> [] then Some (strip name, strip secret, scopes) else None
     | _ \<Rightarrow> None)"

definition parse_scoped_api_keys :: "str option \<Rightarrow> (str \<times> str \<times> str list) list" where
  "parse_scoped_api_keys raw = (case given raw of
     None \<Rightarrow> [] | Some r \<Rightarrow> List.map_filter parse_scoped_entry (split_char 44 [] r))"

record principal_binding =
  bi_tenant_id :: uuid
  bi_workspace_id :: uuid
  bi_agent_id :: uuid

record api_env =
  av_loads :: "str \<Rightarrow> pyval option"
  av_dumps :: "metadata \<Rightarrow> str"
  av_hmac :: "str \<Rightarrow> str \<Rightarrow> str"
  av_sha :: "str \<Rightarrow> str"
  av_runtime :: runtime

definition binding_field :: "api_env \<Rightarrow> metadata \<Rightarrow> str \<Rightarrow> uuid res" where
  "binding_field env d k = (case dict_get d k of
     None \<Rightarrow> Inl (KeyError k) | Some v \<Rightarrow> parse_uuid (py_str (av_runtime env) v))"

definition parse_binding :: "api_env \<Rightarrow> str \<Rightarrow> pyval \<Rightarrow> (str \<times> principal_binding) res" where
  "parse_binding env name v =
    (case v of
       PDict d \<Rightarrow>
         if blank name then Inl (ValueError (lit ''each API principal binding must be a named JSON object''))
         else (case res_bind (binding_field env d (lit ''tenant_id'')) (\<lambda>t.
                 res_bind (binding_field env d (lit ''workspace_id'')) (\<lambda>w.
                 res_bind (binding_field env d (lit ''agent_id'')) (\<lambda>a.
                   Inr \<lparr>bi_tenant_id = t, bi_workspace_id = w, bi_agent_id = a\<rparr>))) of
                 Inl e \<Rightarrow> Inl (ValueError (lit ''binding requires tenant_id, workspace_id and agent_id UUIDs''))
               | Inr b \<Rightarrow> Inr (strip name, b))
     | _ \<Rightarrow> Inl (ValueError (lit ''each API principal binding must be a named JSON object'')))"

definition parse_principal_bindings :: "api_env \<Rightarrow> str option \<Rightarrow> (str, principal_binding) dict res" where
  "parse_principal_bindings env raw = (case given raw of
     None \<Rightarrow> Inr []
   | Some r \<Rightarrow>
       (case av_loads env r of
          None \<Rightarrow> Inl (ValueError (lit ''UAM_API_PRINCIPAL_BINDINGS_JSON must be valid JSON''))
        | Some (PDict d) \<Rightarrow> res_bind (res_map (\<lambda>(k, v). parse_binding env k v) d) (\<lambda>rows. Inr (dict_merge [] rows))
        | Some _ \<Rightarrow> Inl (ValueError (lit ''UAM_API_PRINCIPAL_BINDINGS_JSON must be a JSON object''))))"

section \<open>Base64\<close>

definition base64_char :: "int \<Rightarrow> int" where
  "base64_char v = (if v < 26 then 65 + v else if v < 52 then 71 + v else if v < 62 then v - 4 else if v = 62 then 45 else 95)"

fun base64url_encode :: "str \<Rightarrow> str" where
  "base64url_encode [] = []"
| "base64url_encode [a] = [base64_char (a div 4), base64_char (a mod 4 * 16)]"
| "base64url_encode [a, b] = [base64_char (a div 4), base64_char (a mod 4 * 16 + b div 16), base64_char (b mod 16 * 4)]"
| "base64url_encode (a # b # c # rest) =
    base64_char (a div 4) # base64_char (a mod 4 * 16 + b div 16) # base64_char (b mod 16 * 4 + c div 64)
      # base64_char (c mod 64) # base64url_encode rest"

text \<open>The translated alphabet accepts both spellings of 62 and 63; other characters are skipped.\<close>

definition base64_value :: "int \<Rightarrow> int option" where
  "base64_value c =
    (if 65 \<le> c \<and> c \<le> 90 then Some (c - 65) else if 97 \<le> c \<and> c \<le> 122 then Some (c - 71)
     else if 48 \<le> c \<and> c \<le> 57 then Some (c + 4) else if c \<in> {43, 45} then Some 62 else if c \<in> {47, 95} then Some 63 else None)"

text \<open>The scanner of \<open>binascii.a2b_base64\<close>: position in the quad, pads seen, bits left over.\<close>

fun base64_scan :: "nat \<Rightarrow> nat \<Rightarrow> int \<Rightarrow> str \<Rightarrow> str option" where
  "base64_scan quad pads left [] = (if quad = 0 then Some [] else None)"
| "base64_scan quad pads left (c # cs) =
    (if c = 61 then
       (if 2 \<le> quad \<and> 4 \<le> quad + Suc pads then Some []
        else base64_scan quad (if 2 \<le> quad then Suc pads else pads) left cs)
     else (case base64_value c of
         None \<Rightarrow> base64_scan quad pads left cs
       | Some v \<Rightarrow>
           if quad = 0 then base64_scan 1 0 v cs
           else if quad = 1 then map_option (\<lambda>r. (left * 4 + v div 16) # r) (base64_scan 2 0 (v mod 16) cs)
           else if quad = 2 then map_option (\<lambda>r. (left * 16 + v div 4) # r) (base64_scan 3 0 (v mod 4) cs)
           else map_option (\<lambda>r. (left * 64 + v) # r) (base64_scan 0 0 0 cs)))"

definition is_ascii :: "str \<Rightarrow> bool" where
  "is_ascii s \<longleftrightarrow> list_all (\<lambda>c. 0 \<le> c \<and> c < 128) s"

definition base64url_decode :: "str \<Rightarrow> str option" where
  "base64url_decode s = (if is_ascii s then base64_scan 0 0 0 (s @ replicate (nat ((- int (length s)) mod 4)) 61) else None)"

section \<open>Browser sessions\<close>

definition session_payload :: "principal \<Rightarrow> int \<Rightarrow> int \<Rightarrow> str \<Rightarrow> metadata" where
  "session_payload p now expires csrf =
    [(lit ''sub'', PStr (pr_name p)),
     (lit ''fp'', case pr_fingerprint p of None \<Rightarrow> PNone | Some f \<Rightarrow> PStr f),
     (lit ''iat'', PInt now), (lit ''exp'', PInt expires), (lit ''csrf'', PStr csrf)]"

text \<open>\<open>now\<close> is \<open>int(time.time())\<close>, \<open>csrf\<close> the fresh \<open>secrets.token_urlsafe(32)\<close>.\<close>

definition issue_ui_session :: "api_env \<Rightarrow> int \<Rightarrow> str \<Rightarrow> principal \<Rightarrow> str \<Rightarrow> int \<Rightarrow> str \<times> str \<times> int" where
  "issue_ui_session env now csrf p signing_key ttl_seconds =
    (let expires = now + ttl_seconds;
         encoded = base64url_encode (av_dumps env (session_payload p now expires csrf));
         signature = base64url_encode (av_hmac env signing_key encoded)
     in (encoded @ [46] @ signature, csrf, expires))"

definition text_field :: "metadata \<Rightarrow> str \<Rightarrow> bool" where
  "text_field d k = (case dict_get d k of Some (PStr _) \<Rightarrow> True | _ \<Rightarrow> False)"

definition verify_ui_session :: "api_env \<Rightarrow> int \<Rightarrow> str \<Rightarrow> str \<Rightarrow> metadata option" where
  "verify_ui_session env now token signing_key =
    (let encoded = takeWhile (\<lambda>c. c \<noteq> 46) token; signature = drop (Suc (length encoded)) token in
     if 46 \<notin> set token \<or> \<not> is_ascii encoded
       \<or> signature \<noteq> base64url_encode (av_hmac env signing_key encoded) then None
     else case base64url_decode encoded of
       None \<Rightarrow> None
     | Some bytes \<Rightarrow>
         (case av_loads env bytes of
            Some (PDict payload) \<Rightarrow>
              (case py_int (case dict_get payload (lit ''exp'') of None \<Rightarrow> PInt 0 | Some v \<Rightarrow> v) of
                 Inl e \<Rightarrow> None
               | Inr expires \<Rightarrow>
                   if expires \<le> now \<or> \<not> list_all (text_field payload) [lit ''sub'', lit ''fp'', lit ''csrf''] then None
                   else Some payload)
          | _ \<Rightarrow> None))"

section \<open>Reading base64 back\<close>

definition byte_string :: "str \<Rightarrow> bool" where
  "byte_string s \<longleftrightarrow> list_all (\<lambda>c. 0 \<le> c \<and> c < 256) s"

lemma base64_char_value:
  assumes "0 \<le> v" "v < 64"
  shows "base64_value (base64_char v) = Some v" "base64_char v \<noteq> 61" "base64_char v \<noteq> 46"
    "0 \<le> base64_char v \<and> base64_char v < 128"
  using assms by (auto simp: base64_char_def base64_value_def)

lemma pack:
  fixes x y n :: int
  assumes "0 \<le> y" "y < n"
  shows "(x * n + y) div n = x" "(x * n + y) mod n = y"
  using assms by simp_all

lemma octet_parts:
  fixes a :: int
  assumes "0 \<le> a" "a < 256"
  shows "0 \<le> a div 4 \<and> a div 4 < 64" "0 \<le> a mod 4 \<and> a mod 4 < 4" "0 \<le> a div 16 \<and> a div 16 < 16"
    "0 \<le> a mod 16 \<and> a mod 16 < 16" "0 \<le> a div 64 \<and> a div 64 < 4" "0 \<le> a mod 64 \<and> a mod 64 < 64"
  using assms by auto

lemma sextets:
  assumes a: "0 \<le> a" "a < 256" and b: "0 \<le> b" "b < 256" and c: "0 \<le> (c::int)" "c < 256"
  shows "0 \<le> a div 4" "a div 4 < 64" "0 \<le> a mod 4 * 16 + b div 16" "a mod 4 * 16 + b div 16 < 64"
    "0 \<le> b mod 16 * 4 + c div 64" "b mod 16 * 4 + c div 64 < 64" "0 \<le> c mod 64" "c mod 64 < 64"
    "a div 4 * 4 + (a mod 4 * 16 + b div 16) div 16 = a" "(a mod 4 * 16 + b div 16) mod 16 * 16 + (b mod 16 * 4 + c div 64) div 4 = b"
    "(b mod 16 * 4 + c div 64) mod 4 * 64 + c mod 64 = c"
proof -
  note A = octet_parts [OF a] and B = octet_parts [OF b] and C = octet_parts [OF c]
  show "0 \<le> a div 4" "a div 4 < 64" "0 \<le> c mod 64" "c mod 64 < 64" using A(1) C(6) by blast+
  show "0 \<le> a mod 4 * 16 + b div 16" "a mod 4 * 16 + b div 16 < 64" using A(2) B(3) by linarith+
  show "0 \<le> b mod 16 * 4 + c div 64" "b mod 16 * 4 + c div 64 < 64" using B(4) C(5) by linarith+
  have p: "(a mod 4 * 16 + b div 16) div 16 = a mod 4" "(a mod 4 * 16 + b div 16) mod 16 = b div 16"
    using pack [of "b div 16" 16 "a mod 4"] B(3) by blast+
  have q: "(b mod 16 * 4 + c div 64) div 4 = b mod 16" "(b mod 16 * 4 + c div 64) mod 4 = c div 64"
    using pack [of "c div 64" 4 "b mod 16"] C(5) by blast+
  show "a div 4 * 4 + (a mod 4 * 16 + b div 16) div 16 = a" unfolding p by simp
  show "(a mod 4 * 16 + b div 16) mod 16 * 16 + (b mod 16 * 4 + c div 64) div 4 = b" unfolding p q by simp
  show "(b mod 16 * 4 + c div 64) mod 4 * 64 + c mod 64 = c" unfolding q by simp
qed

lemma base64_scan_char:
  assumes "0 \<le> v" "v < 64"
  shows "base64_scan 0 p l (base64_char v # cs) = base64_scan (Suc 0) 0 v cs"
    "base64_scan (Suc 0) p l (base64_char v # cs) = map_option (\<lambda>r. (l * 4 + v div 16) # r) (base64_scan 2 0 (v mod 16) cs)"
    "base64_scan 2 p l (base64_char v # cs) = map_option (\<lambda>r. (l * 16 + v div 4) # r) (base64_scan 3 0 (v mod 4) cs)"
    "base64_scan 3 p l (base64_char v # cs) = map_option (\<lambda>r. (l * 64 + v) # r) (base64_scan 0 0 0 cs)"
  using base64_char_value(1,2) [OF assms] by simp_all

definition base64_pad :: "str \<Rightarrow> str" where
  "base64_pad s = replicate (nat ((- int (length s)) mod 4)) 61"

lemma base64_scan_encode: "byte_string s \<Longrightarrow> base64_scan 0 0 0 (base64url_encode s @ base64_pad (base64url_encode s)) = Some s"
proof (induction s rule: base64url_encode.induct)
  case 1
  show ?case by (simp add: base64_pad_def)
next
  case (2 a)
  then have a: "0 \<le> a" "a < 256" by (simp_all add: byte_string_def)
  have x: "0 \<le> a div 4" "a div 4 < 64" "0 \<le> a mod 4 * 16" "a mod 4 * 16 < 64"
    using octet_parts(1,2) [OF a] by linarith+
  have q: "(a mod 4 * 16) div 16 = a mod 4" by simp
  have pad: "base64_pad (base64url_encode [a]) = [61, 61]" by (simp add: base64_pad_def numeral_2_eq_2)
  have "base64_scan 2 0 l [61, 61] = Some []" for l by simp
  then have "base64_scan 0 0 0 (base64url_encode [a] @ base64_pad (base64url_encode [a])) = Some [a div 4 * 4 + a mod 4]"
    unfolding pad by (simp only: base64url_encode.simps append.simps base64_scan_char(1) [OF x(1,2)]
        base64_scan_char(2) [OF x(3,4)] q option.map)
  then show ?case by simp
next
  case (3 a b)
  then have a: "0 \<le> a" "a < 256" and b: "0 \<le> b" "b < 256" by (simp_all add: byte_string_def)
  have x: "0 \<le> a div 4" "a div 4 < 64" "0 \<le> a mod 4 * 16 + b div 16" "a mod 4 * 16 + b div 16 < 64"
    "0 \<le> b mod 16 * 4" "b mod 16 * 4 < 64"
    using octet_parts(1,2) [OF a] octet_parts(3,4) [OF b] by linarith+
  have q: "(a mod 4 * 16 + b div 16) div 16 = a mod 4" "(a mod 4 * 16 + b div 16) mod 16 = b div 16"
    "(b mod 16 * 4) div 4 = b mod 16"
    using pack [of "b div 16" 16 "a mod 4"] octet_parts(3) [OF b] by simp_all
  have pad: "base64_pad (base64url_encode [a, b]) = [61]" by (simp add: base64_pad_def)
  have "base64_scan 3 0 l [61] = Some []" for l by simp
  then have "base64_scan 0 0 0 (base64url_encode [a, b] @ base64_pad (base64url_encode [a, b]))
      = Some [a div 4 * 4 + a mod 4, b div 16 * 16 + b mod 16]"
    unfolding pad by (simp only: base64url_encode.simps append.simps base64_scan_char(1) [OF x(1,2)]
        base64_scan_char(2) [OF x(3,4)] base64_scan_char(3) [OF x(5,6)] q option.map)
  then show ?case by simp
next
  case (4 a b c rest)
  then have a: "0 \<le> a" "a < 256" "0 \<le> b" "b < 256" "0 \<le> c" "c < 256" and r: "byte_string rest"
    by (simp_all add: byte_string_def)
  note x = sextets [OF a]
  have "(- int (length (base64url_encode (a # b # c # rest)))) mod 4 = (- int (length (base64url_encode rest))) mod 4"
    by simp presburger
  then have "base64_pad (base64url_encode (a # b # c # rest)) = base64_pad (base64url_encode rest)"
    unfolding base64_pad_def by metis
  then show ?case
    by (simp only: base64url_encode.simps append.simps base64_scan_char(1) [OF x(1,2)] base64_scan_char(2) [OF x(3,4)]
        base64_scan_char(3) [OF x(5,6)] base64_scan_char(4) [OF x(7,8)] x(9,10,11) option.map 4(1) [OF r])
qed

lemma base64_chars: "byte_string s \<Longrightarrow> c' \<in> set (base64url_encode s) \<Longrightarrow> \<exists>v. 0 \<le> v \<and> v < 64 \<and> c' = base64_char v"
proof (induction s rule: base64url_encode.induct)
  case (2 a)
  then have a: "0 \<le> a" "a < 256" by (simp_all add: byte_string_def)
  have "0 \<le> a div 4" "a div 4 < 64" "0 \<le> a mod 4 * 16" "a mod 4 * 16 < 64"
    using octet_parts(1,2) [OF a] by linarith+
  moreover have "c' = base64_char (a div 4) \<or> c' = base64_char (a mod 4 * 16)" using 2(2) by simp
  ultimately show ?case by blast
next
  case (3 a b)
  then have a: "0 \<le> a" "a < 256" and b: "0 \<le> b" "b < 256" by (simp_all add: byte_string_def)
  have "0 \<le> a div 4" "a div 4 < 64" "0 \<le> a mod 4 * 16 + b div 16" "a mod 4 * 16 + b div 16 < 64"
    "0 \<le> b mod 16 * 4" "b mod 16 * 4 < 64"
    using octet_parts(1,2) [OF a] octet_parts(3,4) [OF b] by linarith+
  moreover have "c' = base64_char (a div 4) \<or> c' = base64_char (a mod 4 * 16 + b div 16) \<or> c' = base64_char (b mod 16 * 4)"
    using 3(2) by simp
  ultimately show ?case by blast
next
  case (4 a b c rest)
  then have h: "0 \<le> a" "a < 256" "0 \<le> b" "b < 256" "0 \<le> c" "c < 256" "byte_string rest"
    by (simp_all add: byte_string_def)
  note x = sextets [OF h(1-6)] and r = 4(1) [OF h(7)]
  from 4(3) have "c' = base64_char (a div 4) \<or> c' = base64_char (a mod 4 * 16 + b div 16)
      \<or> c' = base64_char (b mod 16 * 4 + c div 64) \<or> c' = base64_char (c mod 64) \<or> c' \<in> set (base64url_encode rest)" by simp
  with x r show ?case by blast
qed simp

lemma base64_text: "byte_string s \<Longrightarrow> is_ascii (base64url_encode s) \<and> 46 \<notin> set (base64url_encode s)"
  using base64_chars [of s] base64_char_value(3,4) by (fastforce simp: is_ascii_def list_all_iff)

lemma base64_roundtrip: "byte_string s \<Longrightarrow> base64url_decode (base64url_encode s) = Some s"
  using base64_scan_encode [of s] base64_text [of s] by (simp add: base64url_decode_def base64_pad_def)

section \<open>A session is accepted exactly while it lasts\<close>

lemma verify_signed:
  assumes "verify_ui_session env now token key = Some claims"
  shows "\<exists>encoded. token = encoded @ [46] @ base64url_encode (av_hmac env key encoded)"
proof -
  let ?e = "takeWhile (\<lambda>c. c \<noteq> 46) token"
  have dot: "46 \<in> set token" and sig: "drop (Suc (length ?e)) token = base64url_encode (av_hmac env key ?e)"
    using assms by (auto simp: verify_ui_session_def Let_def split: if_splits)
  have "dropWhile (\<lambda>c. c \<noteq> 46) token = 46 # drop (Suc (length ?e)) token"
  proof -
    have ne: "dropWhile (\<lambda>c. c \<noteq> 46) token \<noteq> []" using dot by (auto simp: dropWhile_eq_Nil_conv)
    have "hd (dropWhile (\<lambda>c. c \<noteq> 46) token) = 46" using hd_dropWhile [OF ne] by simp
    moreover have "tl (dropWhile (\<lambda>c. c \<noteq> 46) token) = drop (Suc (length ?e)) token"
      by (simp add: dropWhile_eq_drop drop_Suc tl_drop)
    ultimately show ?thesis using list.collapse [OF ne] by metis
  qed
  then have "token = ?e @ [46] @ drop (Suc (length ?e)) token"
    using takeWhile_dropWhile_id [of "\<lambda>c. c \<noteq> 46" token] by simp
  then show ?thesis using sig by auto
qed

text \<open>
  C33: A browser session is accepted exactly until it expires: the token issued for a principal with a
  fingerprint is verified under the same key to its claims while the clock is before its expiry and to
  nothing from then on; and under any key only a token is accepted that carries the HMAC of its payload.
\<close>

theorem session_roundtrip:
  assumes "pr_fingerprint p = Some f"
    and "byte_string (av_dumps env (session_payload p now (now + ttl) csrf))"
    and "byte_string (av_hmac env key (base64url_encode (av_dumps env (session_payload p now (now + ttl) csrf))))"
    and "av_loads env (av_dumps env (session_payload p now (now + ttl) csrf)) = Some (PDict d)"
    and "\<And>k. dict_get d k = dict_get (session_payload p now (now + ttl) csrf) k"
  shows "verify_ui_session env later (fst (issue_ui_session env now csrf p key ttl)) key
      = (if later < now + ttl then Some d else None)
    \<and> (verify_ui_session env later token key = Some claims \<longrightarrow>
        (\<exists>encoded. token = encoded @ [46] @ base64url_encode (av_hmac env key encoded)))"
proof -
  let ?b = "av_dumps env (session_payload p now (now + ttl) csrf)"
  let ?e = "base64url_encode ?b"
  have e: "is_ascii ?e" "46 \<notin> set ?e" using base64_text [OF assms(2)] by blast+
  then have tw: "takeWhile (\<lambda>c. c \<noteq> 46) (?e @ 46 # r) = ?e" for r by (subst takeWhile_append2) auto
  have fields: "dict_get d (lit ''exp'') = Some (PInt (now + ttl))" "list_all (text_field d) [lit ''sub'', lit ''fp'', lit ''csrf'']"
    using assms(1) unfolding text_field_def assms(5) by (simp_all add: session_payload_def lit_def)
  have "verify_ui_session env later (fst (issue_ui_session env now csrf p key ttl)) key
      = (if later < now + ttl then Some d else None)"
    using e fields base64_roundtrip [OF assms(2)] assms(4)
    by (simp add: issue_ui_session_def verify_ui_session_def Let_def tw)
  then show ?thesis using verify_signed by blast
qed

definition sample_principal :: principal where
  "sample_principal = \<lparr>pr_name = lit ''ops'', pr_scopes = [lit ''operator''], pr_fingerprint = Some (lit ''f''),
     pr_tenant_id = None, pr_workspace_id = None, pr_agent_id = None\<rparr>"

definition sample_session :: metadata where
  "sample_session = session_payload sample_principal 10 310 (lit ''x'')"

definition sample_api_env :: api_env where
  "sample_api_env = \<lparr>av_loads = (\<lambda>s. if s = lit ''{}'' then Some (PDict sample_session) else None), av_dumps = (\<lambda>d. lit ''{}''),
     av_hmac = (\<lambda>k m. take 3 (k @ m)), av_sha = (\<lambda>s. s), av_runtime = \<lparr>rt_repr = (\<lambda>_. []), rt_dict = (\<lambda>_. Inr [])\<rparr>\<rparr>"

theorem session_roundtrip_witness:
  "verify_ui_session sample_api_env 309 (fst (issue_ui_session sample_api_env 10 (lit ''x'') sample_principal (lit ''key'') 300)) (lit ''key'')
      = Some sample_session
   \<and> verify_ui_session sample_api_env 310 (fst (issue_ui_session sample_api_env 10 (lit ''x'') sample_principal (lit ''key'') 300)) (lit ''key'') = None"
proof -
  have f: "pr_fingerprint sample_principal = Some (lit ''f'')" by (simp add: sample_principal_def)
  have b: "byte_string (av_dumps sample_api_env (session_payload sample_principal 10 (10 + 300) (lit ''x'')))"
    "byte_string (av_hmac sample_api_env (lit ''key'') (base64url_encode
      (av_dumps sample_api_env (session_payload sample_principal 10 (10 + 300) (lit ''x'')))))"
    by code_simp+
  have l: "av_loads sample_api_env (av_dumps sample_api_env (session_payload sample_principal 10 (10 + 300) (lit ''x'')))
      = Some (PDict sample_session)" by code_simp
  have d: "dict_get sample_session k = dict_get (session_payload sample_principal 10 (10 + 300) (lit ''x'')) k" for k
    by (simp add: sample_session_def)
  show ?thesis
    using session_roundtrip [OF f b l d, of 309] session_roundtrip [OF f b l d, of 310] by simp
qed

end
