(* ===== verification/ApiGate.thy ===== *)
theory ApiGate
  imports Access
begin

text \<open>
  The middleware in front of every route and the browser-session endpoints (\<open>api/app.py\<close>): resolving a
  principal from a key or a session, refusing the revoked, the unscoped and the out-of-bounds, recording
  each refusal, and confining an agent's key to its tenant, workspace, agent and threads.
\<close>

section \<open>Configuration, requests and answers\<close>

record api_config =
  cf_key :: "str option"
  cf_keys :: "(str \<times> str \<times> str list) list"
  cf_bindings :: "(str, principal_binding) dict"
  cf_require :: bool
  cf_signing :: "str option"
  cf_ttl :: int
  cf_tenant :: uuid

record http_request =
  hr_path :: str
  hr_method :: str
  hr_authorization :: "str option"
  hr_content_type :: "str option"
  hr_csrf :: "str option"
  hr_cookie :: "str option"
  hr_query :: "(str, str) dict"
  hr_body :: str

definition header :: "str option \<Rightarrow> str" where
  "header v = (case v of None \<Rightarrow> [] | Some x \<Rightarrow> x)"

text \<open>HTTP methods are ASCII tokens.\<close>

definition upper_method :: "http_request \<Rightarrow> str" where
  "upper_method req = map (\<lambda>c. if 97 \<le> c \<and> c \<le> 122 then c - 32 else c) (hr_method req)"

definition safe_method :: "http_request \<Rightarrow> bool" where
  "safe_method req \<longleftrightarrow> upper_method req \<in> {lit ''GET'', lit ''HEAD'', lit ''OPTIONS''}"

datatype gate =
    Pass "principal option" "metadata option"
  | Refused int metadata str

definition detail :: "str \<Rightarrow> metadata" where
  "detail txt = [(lit ''detail'', PStr txt)]"

section \<open>Who is calling\<close>

text \<open>\<open>secrets.compare_digest\<close> of two strings: both must be ASCII.\<close>

definition compare_digest :: "str \<Rightarrow> str \<Rightarrow> bool res" where
  "compare_digest a b = (if is_ascii a \<and> is_ascii b then Inr (a = b)
     else Inl (TypeError (lit ''comparing strings with non-ASCII characters is not supported'')))"

definition server_principal :: "api_env \<Rightarrow> str \<Rightarrow> principal" where
  "server_principal env credential = \<lparr>pr_name = lit ''server'', pr_scopes = [lit ''admin''],
     pr_fingerprint = Some (av_sha env credential), pr_tenant_id = None, pr_workspace_id = None, pr_agent_id = None\<rparr>"

definition bound_principal ::
  "api_env \<Rightarrow> (str, principal_binding) dict \<Rightarrow> str \<Rightarrow> str list \<Rightarrow> str \<Rightarrow> principal"
where
  "bound_principal env bindings name scopes credential =
    (let b = dict_get bindings name in
     \<lparr>pr_name = name, pr_scopes = scopes, pr_fingerprint = Some (av_sha env credential),
      pr_tenant_id = map_option bi_tenant_id b, pr_workspace_id = map_option bi_workspace_id b,
      pr_agent_id = map_option bi_agent_id b\<rparr>)"

fun scoped_principal ::
  "api_env \<Rightarrow> (str, principal_binding) dict \<Rightarrow> str \<Rightarrow> (str \<times> str \<times> str list) list \<Rightarrow> principal option res"
where
  "scoped_principal env bindings credential [] = Inr None"
| "scoped_principal env bindings credential ((name, secret, scopes) # keys) =
    res_bind (compare_digest credential secret) (\<lambda>same.
      if same then Inr (Some (bound_principal env bindings name scopes credential))
      else scoped_principal env bindings credential keys)"

definition principal_for_credential :: "api_env \<Rightarrow> api_config \<Rightarrow> str \<Rightarrow> principal option res" where
  "principal_for_credential env cf credential =
    (case given (cf_key cf) of
       None \<Rightarrow> scoped_principal env (cf_bindings cf) credential (cf_keys cf)
     | Some key \<Rightarrow> res_bind (compare_digest credential key) (\<lambda>same.
         if same then Inr (Some (server_principal env credential))
         else scoped_principal env (cf_bindings cf) credential (cf_keys cf)))"

definition claim_text :: "api_env \<Rightarrow> metadata \<Rightarrow> str \<Rightarrow> str" where
  "claim_text env claims k = (case dict_get claims k of None \<Rightarrow> [] | Some v \<Rightarrow> py_str (av_runtime env) v)"

text \<open>The principal of a configured secret, if the session was issued for its fingerprint.\<close>

definition if_fingerprint :: "api_env \<Rightarrow> api_config \<Rightarrow> str \<Rightarrow> str \<Rightarrow> principal option res" where
  "if_fingerprint env cf fingerprint secret =
    res_bind (principal_for_credential env cf secret) (\<lambda>found. case found of
      None \<Rightarrow> Inr None
    | Some p \<Rightarrow> res_bind (compare_digest fingerprint (header (pr_fingerprint p))) (\<lambda>same.
        Inr (if same then Some p else None)))"

fun named_principal ::
  "api_env \<Rightarrow> api_config \<Rightarrow> str \<Rightarrow> str \<Rightarrow> (str \<times> str \<times> str list) list \<Rightarrow> principal option res"
where
  "named_principal env cf name fingerprint [] = Inr None"
| "named_principal env cf name fingerprint ((configured, secret, scopes) # keys) =
    (if configured \<noteq> name then named_principal env cf name fingerprint keys
     else res_bind (if_fingerprint env cf fingerprint secret) (\<lambda>found. case found of
       Some p \<Rightarrow> Inr (Some p) | None \<Rightarrow> named_principal env cf name fingerprint keys))"

definition principal_for_session_claims :: "api_env \<Rightarrow> api_config \<Rightarrow> metadata \<Rightarrow> principal option res" where
  "principal_for_session_claims env cf claims =
    (let name = claim_text env claims (lit ''sub''); fingerprint = claim_text env claims (lit ''fp'') in
     res_bind (case given (cf_key cf) of
         Some key \<Rightarrow> if name = lit ''server'' then if_fingerprint env cf fingerprint key else Inr None
       | None \<Rightarrow> Inr None) (\<lambda>server. case server of
       Some p \<Rightarrow> Inr (Some p) | None \<Rightarrow> named_principal env cf name fingerprint (cf_keys cf)))"

definition revoked :: "api_config \<Rightarrow> store \<Rightarrow> principal \<Rightarrow> bool" where
  "revoked cf s p = (case given (pr_fingerprint p) of
     None \<Rightarrow> False
   | Some f \<Rightarrow> (case get_api_key_by_fingerprint (cf_tenant cf) f s of
       None \<Rightarrow> False | Some r \<Rightarrow> ak_revoked_at r \<noteq> None))"

definition browser_session ::
  "api_env \<Rightarrow> api_config \<Rightarrow> datetime \<Rightarrow> http_request \<Rightarrow> store \<Rightarrow> (principal \<times> metadata) option res"
where
  "browser_session env cf now req s = (case given (cf_signing cf) of
     None \<Rightarrow> Inr None
   | Some key \<Rightarrow>
       (case verify_ui_session env (now div 1000000) (header (hr_cookie req)) key of
          None \<Rightarrow> Inr None
        | Some claims \<Rightarrow> res_bind (principal_for_session_claims env cf claims) (\<lambda>found. case found of
            None \<Rightarrow> Inr None
          | Some p \<Rightarrow> Inr (if revoked cf s p then None else Some (p, claims)))))"

section \<open>The boundary of an agent's key\<close>

definition default_server_id :: uuid where "default_server_id = 1"
definition default_project_id :: uuid where "default_project_id = 2"

definition uuid_argument :: "api_env \<Rightarrow> pyval option \<Rightarrow> uuid option" where
  "uuid_argument env value = (case value of
     None \<Rightarrow> None
   | Some v \<Rightarrow> if v = PNone \<or> v = PStr [] then None
       else (case parse_uuid (py_str (av_runtime env) v) of Inl e \<Rightarrow> None | Inr u \<Rightarrow> Some u))"

text \<open>The JSON object the checks look at; \<open>None\<close> when the body is not JSON, which ends the checks.\<close>

definition request_payload :: "api_env \<Rightarrow> http_request \<Rightarrow> metadata option" where
  "request_payload env req =
    (if \<not> safe_method req \<and> contains (lit ''json'') (py_lower (header (hr_content_type req))) then
       (case av_loads env (if hr_body req = [] then lit ''{}'' else hr_body req) of
          None \<Rightarrow> None | Some (PDict d) \<Rightarrow> Some d | Some _ \<Rightarrow> Some [])
     else Some [])"

definition supplied :: "metadata \<Rightarrow> http_request \<Rightarrow> str \<Rightarrow> pyval option" where
  "supplied payload req name = (case dict_get payload name of
     Some v \<Rightarrow> Some v | None \<Rightarrow> map_option PStr (dict_get (hr_query req) name))"

text \<open>\<open>re.match(prefix + r"([0-9a-fA-F-]{36})(?:/|$)", path)\<close>.\<close>

definition path_segment :: "str \<Rightarrow> str \<Rightarrow> str option" where
  "path_segment prefix path =
    (let rest = drop (length prefix) path; seg = take 36 rest in
     if starts_with prefix path \<and> length seg = 36 \<and> segment_end (drop 36 rest)
        \<and> list_all (\<lambda>c. 48 \<le> c \<and> c \<le> 57 \<or> 97 \<le> c \<and> c \<le> 102 \<or> 65 \<le> c \<and> c \<le> 70 \<or> c = 45) seg
     then Some seg else None)"

definition request_tenant :: "api_env \<Rightarrow> metadata \<Rightarrow> http_request \<Rightarrow> uuid" where
  "request_tenant env payload req = (case uuid_argument env (supplied payload req (lit ''tenant_id'')) of
     None \<Rightarrow> default_server_id | Some u \<Rightarrow> u)"

text \<open>\<open>None\<close>: the path holds 36 characters that are no UUID.\<close>

definition request_workspace :: "api_env \<Rightarrow> metadata \<Rightarrow> http_request \<Rightarrow> uuid option" where
  "request_workspace env payload req =
    (case path_segment (lit ''/v1/workspaces/'') (hr_path req) of
       Some seg \<Rightarrow> uuid_argument env (Some (PStr seg))
     | None \<Rightarrow> Some (case uuid_argument env (supplied payload req (lit ''workspace_id'')) of
         None \<Rightarrow> default_project_id | Some u \<Rightarrow> u))"

definition attributed_write :: "http_request \<Rightarrow> bool" where
  "attributed_write req \<longleftrightarrow> upper_method req = lit ''POST'' \<and>
    (hr_path req \<in> {lit ''/v1/memory/retain'', lit ''/v1/conversations/turns'', lit ''/v1/memory/proposals''}
     \<or> starts_with (lit ''/v1/ingest/'') (hr_path req))"

text \<open>The thread whose owner is checked: none, an unreadable one, or a thread.\<close>

definition request_thread :: "api_env \<Rightarrow> metadata \<Rightarrow> http_request \<Rightarrow> uuid option option" where
  "request_thread env payload req =
    (case path_segment (lit ''/v1/checkpoints/'') (hr_path req) of
       Some seg \<Rightarrow> Some (uuid_argument env (Some (PStr seg)))
     | None \<Rightarrow> map_option Some (uuid_argument env (supplied payload req (lit ''thread_id''))))"

definition bound_error ::
  "api_env \<Rightarrow> uuid \<Rightarrow> uuid \<Rightarrow> uuid \<Rightarrow> metadata \<Rightarrow> http_request \<Rightarrow> store \<Rightarrow> str option"
where
  "bound_error env t w a payload req s =
    (let agent = uuid_argument env (supplied payload req (lit ''agent_id'')) in
     if request_workspace env payload req = None then Some (lit ''workspace path contains an invalid UUID'')
     else if request_tenant env payload req \<noteq> t then Some (lit ''tenant_id is outside the API principal binding'')
     else if request_workspace env payload req \<noteq> Some w then Some (lit ''workspace_id is outside the API principal binding'')
     else if agent \<noteq> None \<and> agent \<noteq> Some a then Some (lit ''agent_id is outside the API principal binding'')
     else if attributed_write req \<and> agent = None then Some (lit ''agent_id is required for an agent-authenticated write'')
     else case request_thread env payload req of
       None \<Rightarrow> None
     | Some None \<Rightarrow> Some (lit ''checkpoint path contains an invalid thread UUID'')
     | Some (Some thread) \<Rightarrow>
         if thread_belongs_to_agent t w a thread s then None
         else Some (lit ''thread_id is not owned by the API principal''))"

definition agent_binding_error ::
  "api_env \<Rightarrow> bool \<Rightarrow> principal \<Rightarrow> http_request \<Rightarrow> store \<Rightarrow> str option"
where
  "agent_binding_error env require_binding p req s =
    (if lit ''agent'' \<notin> set (pr_scopes p) then None
     else case (pr_tenant_id p, pr_workspace_id p, pr_agent_id p) of
       (Some t, Some w, Some a) \<Rightarrow>
         (case request_payload env req of None \<Rightarrow> None | Some payload \<Rightarrow> bound_error env t w a payload req s)
     | _ \<Rightarrow> if require_binding then Some (lit ''agent API key has no identity binding'') else None)"

section \<open>Refusing\<close>

definition record_auth_denial ::
  "api_config \<Rightarrow> uuid \<Rightarrow> datetime \<Rightarrow> http_request \<Rightarrow> str \<Rightarrow> str \<Rightarrow> principal option \<Rightarrow> store \<Rightarrow> store"
where
  "record_auth_denial cf new_id now req reason required p s =
    (let family = audit_route_family (hr_path req) in
     snd (audit_record new_id now
       (case p of None \<Rightarrow> cf_tenant cf | Some q \<Rightarrow> (case pr_tenant_id q of None \<Rightarrow> cf_tenant cf | Some t \<Rightarrow> t))
       (case p of None \<Rightarrow> None | Some q \<Rightarrow> pr_workspace_id q) (lit ''auth.request.denied'')
       (case p of None \<Rightarrow> lit ''anonymous'' | Some q \<Rightarrow> pr_name q)
       (case p of None \<Rightarrow> lit ''unauthenticated'' | Some q \<Rightarrow> audit_actor_type q)
       (lit ''api_route'') (Some family) (lit ''denied'')
       (Some [(lit ''method'', PStr (upper_method req)), (lit ''route_family'', PStr family),
              (lit ''required_scope'', PStr required), (lit ''reason'', PStr reason)]) s))"

definition denied_response ::
  "api_config \<Rightarrow> uuid \<Rightarrow> datetime \<Rightarrow> http_request \<Rightarrow> int \<Rightarrow> metadata \<Rightarrow> str \<Rightarrow> str \<Rightarrow> principal option \<Rightarrow> store
    \<Rightarrow> gate res \<times> store"
where
  "denied_response cf new_id now req status answer reason required p s =
    (Inr (Refused status answer reason), record_auth_denial cf new_id now req reason required p s)"

section \<open>The middleware\<close>

definition split_authorization :: "str \<Rightarrow> str \<times> str" where
  "split_authorization a = (takeWhile (\<lambda>c. c \<noteq> 32) a, drop 1 (dropWhile (\<lambda>c. c \<noteq> 32) a))"

definition authenticate ::
  "api_env \<Rightarrow> api_config \<Rightarrow> datetime \<Rightarrow> http_request \<Rightarrow> store \<Rightarrow> (principal \<times> metadata option) option res"
where
  "authenticate env cf now req s =
    (let (scheme, credential) = split_authorization (header (hr_authorization req)) in
     if casefold scheme = lit ''bearer'' then
       res_bind (principal_for_credential env cf credential) (\<lambda>found. Inr (map_option (\<lambda>p. (p, None)) found))
     else res_bind (browser_session env cf now req s) (\<lambda>found. Inr (map_option (\<lambda>(p, claims). (p, Some claims)) found)))"

definition csrf_refused :: "api_env \<Rightarrow> http_request \<Rightarrow> metadata option \<Rightarrow> bool res" where
  "csrf_refused env req claims = (case claims of
     None \<Rightarrow> Inr False
   | Some c \<Rightarrow> if safe_method req then Inr False
       else res_bind (compare_digest (header (hr_csrf req)) (claim_text env c (lit ''csrf''))) (\<lambda>same. Inr (\<not> same)))"

definition admit_principal ::
  "api_env \<Rightarrow> api_config \<Rightarrow> uuid \<Rightarrow> datetime \<Rightarrow> http_request \<Rightarrow> str \<Rightarrow> principal \<Rightarrow> metadata option \<Rightarrow> store
    \<Rightarrow> gate res \<times> store"
where
  "admit_principal env cf new_id now req required p claims s =
    (let deny = (\<lambda>status answer reason. denied_response cf new_id now req status answer reason required (Some p) s) in
     if revoked cf s p then deny 401 (detail (lit ''API key has been revoked'')) (lit ''revoked_credential'')
     else if \<not> scope_allowed p required then
       deny 403 (detail (lit ''API key scope is insufficient'') @ [(lit ''required_scope'', PStr required)]) (lit ''insufficient_scope'')
     else case csrf_refused env req claims of
       Inl e \<Rightarrow> (Inl e, s)
     | Inr refused \<Rightarrow>
         if refused then deny 403 (detail (lit ''missing or invalid CSRF token'')) (lit ''csrf_validation_failed'')
         else (case agent_binding_error env (cf_require cf) p req s of
           Some message \<Rightarrow>
             deny 403 (detail message @ [(lit ''error'', PStr (lit ''identity_boundary_violation''))])
               (lit ''identity_boundary_violation'')
         | None \<Rightarrow>
             (case given (pr_fingerprint p) of
                None \<Rightarrow> (Inr (Pass (Some p) claims), s)
              | Some f \<Rightarrow>
                  (case touch_api_key (cf_tenant cf) f now s of
                     (Inl e, s1) \<Rightarrow> (Inl e, s1)
                   | (Inr _, s1) \<Rightarrow> (Inr (Pass (Some p) claims), s1)))))"

definition require_api_key ::
  "api_env \<Rightarrow> api_config \<Rightarrow> uuid \<Rightarrow> datetime \<Rightarrow> http_request \<Rightarrow> store \<Rightarrow> gate res \<times> store"
where
  "require_api_key env cf new_id now req s =
    (let required = required_scope (hr_path req) (upper_method req) in
     if required = lit ''public'' then (Inr (Pass None None), s)
     else if given (cf_key cf) = None \<and> cf_keys cf = [] then (Inr (Pass None None), s)
     else case authenticate env cf now req s of
       Inl e \<Rightarrow> (Inl e, s)
     | Inr None \<Rightarrow>
         denied_response cf new_id now req 401 (detail (lit ''invalid or missing API key''))
           (if given (hr_authorization req) \<noteq> None \<or> given (hr_cookie req) \<noteq> None
            then lit ''invalid_credential'' else lit ''missing_credential'') required None s
     | Inr (Some (p, claims)) \<Rightarrow> admit_principal env cf new_id now req required p claims s)"

section \<open>Browser sessions\<close>

datatype cookie = KeepCookie | SetCookie str | DropCookie

record http_answer =
  an_status :: int
  an_body :: metadata
  an_cookie :: cookie

definition http_failure :: "int \<Rightarrow> str \<Rightarrow> http_answer" where
  "http_failure status txt = \<lparr>an_status = status, an_body = detail txt, an_cookie = KeepCookie\<rparr>"

definition session_audit :: "api_config \<Rightarrow> uuid \<Rightarrow> datetime \<Rightarrow> str \<Rightarrow> principal \<Rightarrow> metadata option \<Rightarrow> store \<Rightarrow> audit_event res \<times> store" where
  "session_audit cf new_id now action p md s =
    audit_record new_id now (cf_tenant cf) None action (pr_name p) (audit_actor_type p) (lit ''ui_session'')
      (pr_fingerprint p) (lit ''succeeded'') md s"

definition auth_required :: "api_config \<Rightarrow> bool" where
  "auth_required cf \<longleftrightarrow> given (cf_key cf) \<noteq> None \<or> cf_keys cf \<noteq> []"

definition create_ui_session ::
  "api_env \<Rightarrow> api_config \<Rightarrow> uuid \<Rightarrow> datetime \<Rightarrow> str \<Rightarrow> str \<Rightarrow> http_request \<Rightarrow> store \<Rightarrow> http_answer res \<times> store"
where
  "create_ui_session env cf new_id now csrf api_key req s =
    (let deny = (\<lambda>status txt reason p. (Inr (http_failure status txt),
           record_auth_denial cf new_id now req reason (lit ''operator'') p s)) in
     if \<not> auth_required cf then
       (Inr \<lparr>an_status = 200, an_body = [(lit ''authenticated'', PBool True), (lit ''auth_required'', PBool False),
          (lit ''csrf_token'', PNone)], an_cookie = KeepCookie\<rparr>, s)
     else case given (cf_signing cf) of
       None \<Rightarrow> (Inr (http_failure 503 (lit ''browser sessions are not configured'')), s)
     | Some key \<Rightarrow>
         (case principal_for_credential env cf api_key of
            Inl e \<Rightarrow> (Inl e, s)
          | Inr None \<Rightarrow> deny 401 (lit ''invalid operator credential'') (lit ''invalid_credential'') None
          | Inr (Some p) \<Rightarrow>
              if revoked cf s p then deny 401 (lit ''invalid operator credential'') (lit ''revoked_credential'') (Some p)
              else if \<not> scope_allowed p (lit ''operator'') then
                deny 403 (lit ''operator scope is required'') (lit ''insufficient_scope'') (Some p)
              else (case issue_ui_session env (now div 1000000) csrf p key (cf_ttl cf) of (token, csrf_token, expires) \<Rightarrow>
                (case session_audit cf new_id now (lit ''ui.session.login'') p (Some [(lit ''expires_at'', PInt expires)]) s of
                   (Inl e, s1) \<Rightarrow> (Inl e, s1)
                 | (Inr _, s1) \<Rightarrow>
                     (Inr \<lparr>an_status = 200, an_body = [(lit ''authenticated'', PBool True), (lit ''auth_required'', PBool True),
                        (lit ''principal'', PStr (pr_name p)), (lit ''csrf_token'', PStr csrf_token),
                        (lit ''expires_at'', PInt expires)], an_cookie = SetCookie token\<rparr>, s1)))))"

definition claim :: "metadata \<Rightarrow> str \<Rightarrow> pyval res" where
  "claim claims k = (case dict_get claims k of None \<Rightarrow> Inl (KeyError k) | Some v \<Rightarrow> Inr v)"

definition get_ui_session :: "api_env \<Rightarrow> api_config \<Rightarrow> datetime \<Rightarrow> http_request \<Rightarrow> store \<Rightarrow> metadata res" where
  "get_ui_session env cf now req s =
    (let anonymous = [(lit ''authenticated'', PBool False), (lit ''auth_required'', PBool True)] in
     if \<not> auth_required cf then
       Inr [(lit ''authenticated'', PBool True), (lit ''auth_required'', PBool False),
            (lit ''principal'', PStr (lit ''local-dev'')), (lit ''csrf_token'', PNone)]
     else res_bind (browser_session env cf now req s) (\<lambda>session. case session of
       None \<Rightarrow> Inr anonymous
     | Some (p, claims) \<Rightarrow>
         if \<not> scope_allowed p (lit ''operator'') then Inr anonymous
         else res_bind (claim claims (lit ''csrf'')) (\<lambda>csrf. res_bind (claim claims (lit ''exp'')) (\<lambda>expires.
           Inr [(lit ''authenticated'', PBool True), (lit ''auth_required'', PBool True), (lit ''principal'', PStr (pr_name p)),
                (lit ''csrf_token'', csrf), (lit ''expires_at'', expires)]))))"

definition delete_ui_session ::
  "api_env \<Rightarrow> api_config \<Rightarrow> uuid \<Rightarrow> datetime \<Rightarrow> http_request \<Rightarrow> store \<Rightarrow> http_answer res \<times> store"
where
  "delete_ui_session env cf new_id now req s =
    (let gone = \<lparr>an_status = 200, an_body = [(lit ''authenticated'', PBool False)], an_cookie = DropCookie\<rparr> in
     case browser_session env cf now req s of
       Inl e \<Rightarrow> (Inl e, s)
     | Inr None \<Rightarrow> (Inr gone, s)
     | Inr (Some (p, claims)) \<Rightarrow>
         (case compare_digest (header (hr_csrf req)) (claim_text env claims (lit ''csrf'')) of
            Inl e \<Rightarrow> (Inl e, s)
          | Inr same \<Rightarrow>
              if \<not> same then (Inr (http_failure 403 (lit ''missing or invalid CSRF token'')),
                record_auth_denial cf new_id now req (lit ''csrf_validation_failed'') (lit ''operator'') (Some p) s)
              else (case session_audit cf new_id now (lit ''ui.session.logout'') p None s of
                      (Inl e, s1) \<Rightarrow> (Inl e, s1) | (Inr _, s1) \<Rightarrow> (Inr gone, s1))))"

section \<open>What the middleware lets through\<close>

lemma admit_passes:
  assumes "admit_principal env cf new_id now req required p claims s = (Inr (Pass q c), s')"
  shows "q = Some p" "c = claims" "\<not> revoked cf s p" "scope_allowed p required" "csrf_refused env req claims = Inr False"
    "agent_binding_error env (cf_require cf) p req s = None"
proof -
  have "q = Some p \<and> c = claims \<and> \<not> revoked cf s p \<and> scope_allowed p required \<and> csrf_refused env req claims = Inr False
      \<and> agent_binding_error env (cf_require cf) p req s = None"
  proof (cases "revoked cf s p \<or> \<not> scope_allowed p required")
    case True
    with assms show ?thesis by (auto simp: admit_principal_def denied_response_def Let_def split: if_splits)
  next
    case False
    show ?thesis
    proof (cases "csrf_refused env req claims")
      case (Inr b)
      with assms False show ?thesis
        by (cases b; cases "agent_binding_error env (cf_require cf) p req s"; cases "given (pr_fingerprint p)")
          (auto simp: admit_principal_def denied_response_def Let_def split: prod.splits sum.splits)
    qed (use assms False in \<open>simp add: admit_principal_def Let_def\<close>)
  qed
  then show "q = Some p" "c = claims" "\<not> revoked cf s p" "scope_allowed p required" "csrf_refused env req claims = Inr False"
    "agent_binding_error env (cf_require cf) p req s = None" by blast+
qed

lemma gate_passes:
  assumes "require_api_key env cf new_id now req s = (Inr (Pass q c), s')"
    and "required_scope (hr_path req) (upper_method req) \<noteq> lit ''public''" and "auth_required cf"
  obtains p where "q = Some p" "authenticate env cf now req s = Inr (Some (p, c))" "\<not> revoked cf s p"
    "scope_allowed p (required_scope (hr_path req) (upper_method req))" "csrf_refused env req c = Inr False"
    "agent_binding_error env (cf_require cf) p req s = None"
proof -
  have go: "require_api_key env cf new_id now req s =
    (case authenticate env cf now req s of
       Inl e \<Rightarrow> (Inl e, s)
     | Inr None \<Rightarrow>
         denied_response cf new_id now req 401 (detail (lit ''invalid or missing API key''))
           (if given (hr_authorization req) \<noteq> None \<or> given (hr_cookie req) \<noteq> None
            then lit ''invalid_credential'' else lit ''missing_credential'') (required_scope (hr_path req) (upper_method req)) None s
     | Inr (Some (p, claims)) \<Rightarrow> admit_principal env cf new_id now req (required_scope (hr_path req) (upper_method req)) p claims s)"
    using assms(2,3) by (auto simp: require_api_key_def auth_required_def Let_def)
  obtain p d where a: "authenticate env cf now req s = Inr (Some (p, d))"
    using assms(1) unfolding go denied_response_def by (auto split: sum.splits option.splits)
  then have "admit_principal env cf new_id now req (required_scope (hr_path req) (upper_method req)) p d s = (Inr (Pass q c), s')"
    using assms(1) unfolding go by simp
  from admit_passes [OF this] a show thesis using that by blast
qed

text \<open>How a principal was found.\<close>

lemma scoped_principal_Some:
  "scoped_principal env bindings credential keys = Inr (Some p) \<Longrightarrow>
    \<exists>name scopes. (name, credential, scopes) \<in> set keys \<and> p = bound_principal env bindings name scopes credential"
proof (induction keys)
  case (Cons k keys)
  obtain name secret scopes where k: "k = (name, secret, scopes)" by (cases k) auto
  from Cons.prems show ?case
    unfolding k by (auto simp: res_bind_Inr_iff compare_digest_def k split: if_splits dest: Cons.IH)
qed simp

text \<open>A principal of the configuration: the server key or a scoped key, with the binding of its name.\<close>

definition configured :: "api_env \<Rightarrow> api_config \<Rightarrow> str \<Rightarrow> principal \<Rightarrow> bool" where
  "configured env cf secret p \<longleftrightarrow> given (cf_key cf) = Some secret \<and> p = server_principal env secret
    \<or> (\<exists>name scopes. (name, secret, scopes) \<in> set (cf_keys cf) \<and> p = bound_principal env (cf_bindings cf) name scopes secret)"

lemma credential_configured:
  assumes "principal_for_credential env cf credential = Inr (Some p)"
  shows "configured env cf credential p"
proof (cases "given (cf_key cf)")
  case None
  with assms scoped_principal_Some [of env "cf_bindings cf" credential "cf_keys cf" p] show ?thesis
    by (simp add: principal_for_credential_def configured_def)
next
  case (Some key)
  with assms scoped_principal_Some [of env "cf_bindings cf" credential "cf_keys cf" p] show ?thesis
    by (auto simp: principal_for_credential_def configured_def res_bind_Inr_iff compare_digest_def split: if_splits)
qed

lemma if_fingerprint_Some:
  assumes "if_fingerprint env cf f secret = Inr (Some p)"
  shows "configured env cf secret p" "header (pr_fingerprint p) = f"
  using assms credential_configured
  by (auto simp: if_fingerprint_def res_bind_Inr_iff compare_digest_def split: option.splits if_splits)

lemma named_principal_Some:
  "named_principal env cf name f keys = Inr (Some p) \<Longrightarrow> \<exists>secret. configured env cf secret p \<and> header (pr_fingerprint p) = f"
proof (induction keys)
  case (Cons k keys)
  obtain n secret scopes where k: "k = (n, secret, scopes)" by (cases k) auto
  from Cons.prems show ?case
    unfolding k by (auto simp: res_bind_Inr_iff split: if_splits option.splits dest: Cons.IH if_fingerprint_Some)
qed simp

lemma session_configured:
  assumes "principal_for_session_claims env cf claims = Inr (Some p)"
  shows "\<exists>secret. configured env cf secret p \<and> header (pr_fingerprint p) = claim_text env claims (lit ''fp'')"
  using assms named_principal_Some if_fingerprint_Some
  by (fastforce simp: principal_for_session_claims_def Let_def res_bind_Inr_iff split: option.splits if_splits)

end
