(* ===== verification/ApiRules.thy ===== *)
theory ApiRules
  imports ApiGate
begin

text \<open>
  What the middleware guarantees and where it does not hold: who is let through, how far an agent's key
  reaches, what a refusal writes, and the requests that pass although the route rules mean to stop them.
\<close>

section \<open>Who is let through\<close>

text \<open>
  C6: With keys configured, a request to a protected route is let through only for a configured secret,
  presented as a bearer token or as the unexpired signed session of its fingerprint (with the session's
  CSRF token when it may change something), whose key is not revoked, whose scopes allow the route and
  whose binding the request respects.
\<close>

theorem gate_admits_only_authorized:
  assumes "require_api_key env cf new_id now req s = (Inr (Pass q c), s')"
    and "required_scope (hr_path req) (upper_method req) \<noteq> lit ''public''" and "auth_required cf"
  shows "\<exists>p secret. q = Some p \<and> configured env cf secret p \<and> \<not> revoked cf s p
    \<and> scope_allowed p (required_scope (hr_path req) (upper_method req))
    \<and> agent_binding_error env (cf_require cf) p req s = None
    \<and> (case c of
         None \<Rightarrow> split_authorization (header (hr_authorization req)) = (fst (split_authorization (header (hr_authorization req))), secret)
           \<and> casefold (fst (split_authorization (header (hr_authorization req)))) = lit ''bearer''
       | Some claims \<Rightarrow> (\<exists>key. given (cf_signing cf) = Some key
           \<and> verify_ui_session env (now div 1000000) (header (hr_cookie req)) key = Some claims)
         \<and> header (pr_fingerprint p) = claim_text env claims (lit ''fp'')
         \<and> (safe_method req \<or> header (hr_csrf req) = claim_text env claims (lit ''csrf'')))"
proof -
  obtain p where p: "q = Some p" "authenticate env cf now req s = Inr (Some (p, c))" "\<not> revoked cf s p"
    "scope_allowed p (required_scope (hr_path req) (upper_method req))" "csrf_refused env req c = Inr False"
    "agent_binding_error env (cf_require cf) p req s = None"
    by (rule gate_passes [OF assms])
  obtain scheme cred where auth: "split_authorization (header (hr_authorization req)) = (scheme, cred)" by fastforce
  show ?thesis
  proof (cases "casefold scheme = lit ''bearer''")
    case True
    then have "c = None" "principal_for_credential env cf cred = Inr (Some p)"
      using p(2) by (auto simp: authenticate_def auth res_bind_Inr_iff)
    with p credential_configured True auth show ?thesis by fastforce
  next
    case False
    then obtain claims where c: "c = Some claims" "browser_session env cf now req s = Inr (Some (p, claims))"
      using p(2) by (auto simp: authenticate_def auth res_bind_Inr_iff)
    then obtain key where key: "given (cf_signing cf) = Some key"
      "verify_ui_session env (now div 1000000) (header (hr_cookie req)) key = Some claims"
      "principal_for_session_claims env cf claims = Inr (Some p)"
      by (auto simp: browser_session_def res_bind_Inr_iff split: option.splits if_splits)
    obtain secret where secret: "configured env cf secret p" "header (pr_fingerprint p) = claim_text env claims (lit ''fp'')"
      using session_configured [OF key(3)] by blast
    have "safe_method req \<or> header (hr_csrf req) = claim_text env claims (lit ''csrf'')"
      using p(5) by (auto simp: csrf_refused_def c(1) compare_digest_def res_bind_Inr_iff split: if_splits)
    with p key secret c(1) show ?thesis by auto
  qed
qed

text \<open>
  C8: An agent's key stays inside its binding, as long as the middleware can read the body. A request of
  a bound agent key that is let through names, as the middleware reads it, the bound tenant and workspace
  and no other agent, names the agent when it writes attributed data, and names only threads the agent
  owns in that workspace. The one exception is a request that may change something and announces a JSON
  body that cannot be parsed: none of these checks is made for it.
\<close>

theorem agent_confined:
  assumes "require_api_key env cf new_id now req s = (Inr (Pass (Some p) c), s')"
    and "required_scope (hr_path req) (upper_method req) \<noteq> lit ''public''" and "auth_required cf"
    and "lit ''agent'' \<in> set (pr_scopes p)"
    and "cf_require cf \<or> (pr_tenant_id p \<noteq> None \<and> pr_workspace_id p \<noteq> None \<and> pr_agent_id p \<noteq> None)"
  shows "case request_payload env req of
      None \<Rightarrow> \<not> safe_method req \<and> contains (lit ''json'') (py_lower (header (hr_content_type req)))
        \<and> av_loads env (if hr_body req = [] then lit ''{}'' else hr_body req) = None
    | Some payload \<Rightarrow>
        pr_tenant_id p = Some (request_tenant env payload req)
        \<and> pr_workspace_id p = request_workspace env payload req \<and> pr_workspace_id p \<noteq> None
        \<and> uuid_argument env (supplied payload req (lit ''agent_id'')) \<in> (if attributed_write req then {} else {None}) \<union> {pr_agent_id p}
        \<and> (case request_thread env payload req of None \<Rightarrow> True | Some None \<Rightarrow> False
           | Some (Some thread) \<Rightarrow> \<exists>t w a. pr_tenant_id p = Some t \<and> pr_workspace_id p = Some w \<and> pr_agent_id p = Some a
               \<and> thread_belongs_to_agent t w a thread s)"
proof (cases "request_payload env req")
  case None
  then show ?thesis by (auto simp: request_payload_def split: if_splits option.splits pyval.splits)
next
  case (Some payload)
  have none: "agent_binding_error env (cf_require cf) p req s = None"
    using gate_passes [OF assms(1-3)] by blast
  then obtain t w a where b: "pr_tenant_id p = Some t" "pr_workspace_id p = Some w" "pr_agent_id p = Some a"
    using assms(4,5) by (auto simp: agent_binding_error_def split: option.splits if_splits)
  then have "bound_error env t w a payload req s = None"
    using none assms(4) Some by (simp add: agent_binding_error_def)
  then show ?thesis
    using b Some by (auto simp: bound_error_def Let_def split: if_splits option.splits)
qed

section \<open>What a refusal writes\<close>

lemma audit_record_frame:
  "(snd (audit_record i now t w action actor kind rt rid status md s))\<lparr>st_audit_events := st_audit_events s\<rparr> = s"
  "dict_get (st_audit_events s) k = Some e \<Longrightarrow>
    dict_get (st_audit_events (snd (audit_record i now t w action actor kind rt rid status md s))) k = Some e"
  by (auto simp: audit_record_def append_audit_event_def Let_def dict_setdefault_def split: sum.splits option.splits)

lemma audit_record_new:
  assumes "dict_get (st_audit_events s) i = None" and "\<not> blank action" "\<not> blank actor" "\<not> blank kind" "\<not> blank rt"
    and "status \<in> {lit ''succeeded'', lit ''failed'', lit ''denied''}"
  shows "dict_get (st_audit_events (snd (audit_record i now t w action actor kind rt rid status md s))) i
    = Some \<lparr>ae_id = i, ae_tenant_id = t, ae_workspace_id = w, ae_action = action, ae_actor = actor,
        ae_actor_type = kind, ae_resource_type = rt, ae_resource_id = rid, ae_status = status,
        ae_metadata = (case md of None \<Rightarrow> [] | Some d \<Rightarrow> d), ae_created_at = now\<rparr>"
  using assms by (simp add: audit_record_def audit_event_post_init_def append_audit_event_def Let_def dict_setdefault_def)

lemma refused_records:
  assumes "require_api_key env cf new_id now req s = (Inr (Refused status answer reason), s')"
  obtains p where "s' = record_auth_denial cf new_id now req reason (required_scope (hr_path req) (upper_method req)) p s"
    "\<forall>q. p = Some q \<longrightarrow> (\<exists>secret. configured env cf secret q)"
proof -
  let ?r = "required_scope (hr_path req) (upper_method req)"
  show thesis
  proof (cases "authenticate env cf now req s")
    case (Inl e)
    with assms show thesis by (simp add: require_api_key_def Let_def split: if_splits)
  next
    case (Inr found)
    show thesis
    proof (cases found)
      case None
      with assms Inr that [of None] show thesis by (auto simp: require_api_key_def Let_def denied_response_def split: if_splits)
    next
      case (Some pc)
      obtain p c where pc: "pc = (p, c)" by (cases pc)
      have "admit_principal env cf new_id now req ?r p c s = (Inr (Refused status answer reason), s')"
        using assms Inr Some pc by (auto simp: require_api_key_def Let_def split: if_splits)
      then have w: "s' = record_auth_denial cf new_id now req reason ?r (Some p) s"
        by (auto simp: admit_principal_def denied_response_def Let_def split: if_splits sum.splits option.splits prod.splits)
      have "\<exists>secret. configured env cf secret p"
        using Inr Some pc credential_configured session_configured
        by (fastforce simp: authenticate_def browser_session_def res_bind_Inr_iff split: prod.splits if_splits option.splits)
      with w show thesis by (intro that [of "Some p"]) auto
    qed
  qed
qed

text \<open>
  C25: A refusal changes nothing but the audit trail, where it drops no row; and with named keys and an
  unused identity it leaves one denied row that holds the route family, never the requested path.
\<close>

theorem refusal_only_audits:
  assumes "require_api_key env cf new_id now req s = (Inr (Refused status answer reason), s')"
    and "list_all (\<lambda>(name, secret, scopes). \<not> blank name) (cf_keys cf)"
    and "dict_get (st_audit_events s) new_id = None"
  shows "s'\<lparr>st_audit_events := st_audit_events s\<rparr> = s
    \<and> (\<forall>k e. dict_get (st_audit_events s) k = Some e \<longrightarrow> dict_get (st_audit_events s') k = Some e)
    \<and> (\<exists>e. dict_get (st_audit_events s') new_id = Some e \<and> ae_status e = lit ''denied''
        \<and> ae_resource_id e = Some (audit_route_family (hr_path req))
        \<and> ae_metadata e = [(lit ''method'', PStr (upper_method req)), (lit ''route_family'', PStr (audit_route_family (hr_path req))),
            (lit ''required_scope'', PStr (required_scope (hr_path req) (upper_method req))), (lit ''reason'', PStr reason)])"
proof -
  obtain p where s': "s' = record_auth_denial cf new_id now req reason (required_scope (hr_path req) (upper_method req)) p s"
    and p: "\<forall>q. p = Some q \<longrightarrow> (\<exists>secret. configured env cf secret q)" by (rule refused_records [OF assms(1)])
  have actor: "\<not> blank (case p of None \<Rightarrow> lit ''anonymous'' | Some q \<Rightarrow> pr_name q)"
  proof (cases p)
    case None
    have "\<not> blank (lit ''anonymous'')" by code_simp
    then show ?thesis using None by simp
  next
    case (Some q)
    have "\<not> blank (lit ''server'')" by code_simp
    then have "\<not> blank (pr_name q)"
      using p Some assms(2) by (auto simp: configured_def server_principal_def bound_principal_def Let_def list_all_iff)
    then show ?thesis using Some by simp
  qed
  have kind: "\<not> blank (case p of None \<Rightarrow> lit ''unauthenticated'' | Some q \<Rightarrow> audit_actor_type q)"
  proof -
    have "\<not> blank (lit ''unauthenticated'')" "\<not> blank (lit ''agent'')" "\<not> blank (lit ''operator'')" "\<not> blank (lit ''api_key'')"
      by code_simp+
    then show ?thesis by (auto simp: audit_actor_type_def split: option.splits)
  qed
  have texts: "\<not> blank (lit ''auth.request.denied'')" "\<not> blank (lit ''api_route'')" by code_simp+
  have "\<exists>e. dict_get (st_audit_events s') new_id = Some e \<and> ae_status e = lit ''denied''
        \<and> ae_resource_id e = Some (audit_route_family (hr_path req))
        \<and> ae_metadata e = [(lit ''method'', PStr (upper_method req)), (lit ''route_family'', PStr (audit_route_family (hr_path req))),
            (lit ''required_scope'', PStr (required_scope (hr_path req) (upper_method req))), (lit ''reason'', PStr reason)]"
    unfolding s' record_auth_denial_def Let_def
    by (subst audit_record_new [OF assms(3) texts(1) actor kind texts(2)]) simp_all
  moreover have "s'\<lparr>st_audit_events := st_audit_events s\<rparr> = s
      \<and> (\<forall>k e. dict_get (st_audit_events s) k = Some e \<longrightarrow> dict_get (st_audit_events s') k = Some e)"
    unfolding s' record_auth_denial_def Let_def
    by (intro conjI allI impI audit_record_frame)
  ultimately show ?thesis by blast
qed

section \<open>Requests that pass although the rules mean to stop them\<close>

text \<open>A bound agent key that works: resolved, not revoked, and its use can be recorded.\<close>

definition agent_key ::
  "api_env \<Rightarrow> api_config \<Rightarrow> datetime \<Rightarrow> store \<Rightarrow> str \<Rightarrow> principal \<Rightarrow> uuid \<Rightarrow> uuid \<Rightarrow> uuid \<Rightarrow> bool"
where
  "agent_key env cf now s credential p t w a \<longleftrightarrow>
    principal_for_credential env cf credential = Inr (Some p) \<and> \<not> revoked cf s p
    \<and> pr_scopes p = [lit ''agent''] \<and> pr_tenant_id p = Some t \<and> pr_workspace_id p = Some w \<and> pr_agent_id p = Some a
    \<and> \<not> isl (fst (touch_api_key (cf_tenant cf) (header (pr_fingerprint p)) now s))"

lemma uuid_argument_str: "uuid_argument env (Some (PStr (uuid_str u))) = Some u"
proof -
  have "uuid_str u \<noteq> []"
  proof
    assume "uuid_str u = []"
    with length_uuid_str [of u] show False by simp
  qed
  then show ?thesis by (simp add: uuid_argument_def parse_uuid_str)
qed

lemma upper_get: "hr_method req = lit ''GET'' \<Longrightarrow> upper_method req = lit ''GET''"
  by (simp add: upper_method_def lit_def)

lemma authenticate_bearer:
  assumes "hr_authorization req = Some (lit ''Bearer '' @ credential)"
  shows "authenticate env cf now req s
    = res_bind (principal_for_credential env cf credential) (\<lambda>found. Inr (map_option (\<lambda>p. (p, None)) found))"
proof -
  have "lit ''Bearer '' @ credential = lit ''Bearer'' @ 32 # credential" by (simp add: lit_def)
  moreover have "takeWhile (\<lambda>c. c \<noteq> 32) (lit ''Bearer'' @ 32 # r) = lit ''Bearer''"
    "dropWhile (\<lambda>c. c \<noteq> 32) (lit ''Bearer'' @ 32 # r) = 32 # r" for r by (simp_all add: lit_def)
  moreover have "casefold (lit ''Bearer'') = lit ''bearer''" by code_simp
  ultimately show ?thesis by (simp add: authenticate_def split_authorization_def header_def assms)
qed

lemma configured_auth: "principal_for_credential env cf credential = Inr (Some p) \<Longrightarrow> auth_required cf"
  using credential_configured [of env cf credential p] by (auto simp: configured_def auth_required_def)

lemma agent_scope: "pr_scopes p = [lit ''agent''] \<Longrightarrow> scope_allowed p (lit ''read'') \<and> scope_allowed p (lit ''write'')
  \<and> \<not> scope_allowed p (lit ''operator'')"
  by (simp add: scope_allowed_def has_scope_def lit_def)

text \<open>What the gate answers to an agent's bearer token is what the boundary says.\<close>

lemma agent_gate:
  assumes key: "agent_key env cf now s credential p t w a"
    and auth: "hr_authorization req = Some (lit ''Bearer '' @ credential)"
    and scope: "required_scope (hr_path req) (upper_method req) \<in> {lit ''read'', lit ''write''}"
  shows "fst (require_api_key env cf new_id now req s) = (case agent_binding_error env (cf_require cf) p req s of
      None \<Rightarrow> Inr (Pass (Some p) None)
    | Some message \<Rightarrow> Inr (Refused 403 (detail message @ [(lit ''error'', PStr (lit ''identity_boundary_violation''))])
        (lit ''identity_boundary_violation'')))"
proof -
  let ?r = "required_scope (hr_path req) (upper_method req)"
  have k: "principal_for_credential env cf credential = Inr (Some p)" "\<not> revoked cf s p" "pr_scopes p = [lit ''agent'']"
    "\<not> isl (fst (touch_api_key (cf_tenant cf) (header (pr_fingerprint p)) now s))"
    using key by (simp_all add: agent_key_def)
  have "?r \<noteq> lit ''public''" using scope by (auto simp: lit_def)
  then have "require_api_key env cf new_id now req s = admit_principal env cf new_id now req ?r p None s"
    using configured_auth [OF k(1)] by (auto simp: require_api_key_def auth_required_def authenticate_bearer [OF auth] k(1) Let_def)
  moreover have "scope_allowed p ?r" using scope agent_scope [OF k(3)] by auto
  moreover obtain y s1 where "touch_api_key (cf_tenant cf) (header (pr_fingerprint p)) now s = (Inr y, s1)"
  proof (cases "touch_api_key (cf_tenant cf) (header (pr_fingerprint p)) now s")
    case (Pair r s1)
    with k(4) that show thesis by (cases r) auto
  qed
  ultimately show ?thesis
    using k(2)
    by (auto simp: admit_principal_def csrf_refused_def denied_response_def Let_def header_def given_def
        split: option.splits if_splits)
qed

lemma agent_passes:
  assumes key: "agent_key env cf now s credential p t w a"
    and auth: "hr_authorization req = Some (lit ''Bearer '' @ credential)"
    and scope: "required_scope (hr_path req) (upper_method req) \<in> {lit ''read'', lit ''write''}"
    and payload: "request_payload env req = Some d" and bound: "bound_error env t w a d req s = None"
  shows "fst (require_api_key env cf new_id now req s) = Inr (Pass (Some p) None)"
proof -
  have "agent_binding_error env (cf_require cf) p req s = None"
    using key payload bound by (simp add: agent_binding_error_def agent_key_def)
  then show ?thesis by (simp add: agent_gate [OF key auth scope])
qed

text \<open>
  (unlisted): The boundary reads a workspace from the path only in its dashed spelling: a bound agent's GET of
  the session seed of any workspace of its tenant, with the 32 digits of the other workspace in the path
  and its own in the query, passes, although the path's segment is an accepted spelling of the other one.
\<close>

theorem undashed_path_escapes_binding:
  assumes "agent_key env cf now s credential p t w a"
    and "hr_authorization req = Some (lit ''Bearer '' @ credential)"
    and "hr_path req = lit ''/v1/workspaces/'' @ hex_digits 32 (uint other) @ lit ''/seed''" and "hr_method req = lit ''GET''"
    and "hr_query req = [(lit ''tenant_id'', uuid_str t), (lit ''workspace_id'', uuid_str w)]"
  shows "fst (require_api_key env cf new_id now req s) = Inr (Pass (Some p) None)
    \<and> parse_uuid (take 32 (drop (length (lit ''/v1/workspaces/'')) (hr_path req))) = Inr other"
proof -
  let ?h = "hex_digits 32 (uint other)"
  have up: "upper_method req = lit ''GET''" by (rule upper_get [OF assms(4)])
  have get: "lit ''GET'' \<in> {lit ''GET'', lit ''HEAD'', lit ''OPTIONS''}" by simp
  have payload: "request_payload env req = Some []" by (simp add: request_payload_def safe_method_def up)
  have scope: "required_scope (hr_path req) (upper_method req) = lit ''read''"
  proof -
    have e: "ends_with (lit ''/seed'') (hr_path req)"
      unfolding assms(3) by (simp add: ends_with_def starts_with_def lit_def)
    have "length (hr_path req) = 52" unfolding assms(3) by (simp add: lit_def)
    then have l: "hr_path req \<noteq> lit ''/v1/workspaces/provision''" "hr_path req \<noteq> lit ''/v1/ui/session''"
      "hr_path req \<noteq> lit ''/health''" "hr_path req \<noteq> lit ''/ready''" by (auto simp: lit_def)
    have p: "starts_with (lit ''/v1/workspaces/'') (hr_path req)" "\<not> starts_with (lit ''/ui'') (hr_path req)"
      "\<not> starts_with (lit ''/v1/keys'') (hr_path req)" "\<not> starts_with (lit ''/v1/audit'') (hr_path req)"
      "\<not> starts_with (lit ''/v1/identities'') (hr_path req)" "\<not> starts_with (lit ''/v1/graph'') (hr_path req)"
      unfolding assms(3) by (simp_all add: starts_with_def lit_def)
    show ?thesis using e l p by (simp add: required_scope_def up)
  qed
  have q: "supplied [] req (lit ''tenant_id'') = Some (PStr (uuid_str t))" "supplied [] req (lit ''workspace_id'') = Some (PStr (uuid_str w))"
    "supplied [] req (lit ''agent_id'') = None" "supplied [] req (lit ''thread_id'') = None"
    unfolding supplied_def assms(5) by (simp_all add: lit_def)
  have w: "path_segment (lit ''/v1/workspaces/'') (hr_path req) = None"
  proof -
    have "take 36 (drop (length (lit ''/v1/workspaces/'')) (hr_path req)) = ?h @ take 4 (lit ''/seed'')"
      unfolding assms(3) by simp
    moreover have "47 \<in> set (take 4 (lit ''/seed''))" by (simp add: lit_def)
    ultimately have "47 \<in> set (take 36 (drop (length (lit ''/v1/workspaces/'')) (hr_path req)))" by simp
    then show ?thesis by (auto simp: path_segment_def Let_def list_all_iff simp del: drop_drop take_drop intro!: bexI [of _ 47])
  qed
  have c: "path_segment (lit ''/v1/checkpoints/'') (hr_path req) = None"
    unfolding path_segment_def assms(3) by (simp add: starts_with_def lit_def)
  have wr: "\<not> attributed_write req" unfolding attributed_write_def up by (simp add: lit_def)
  have "bound_error env t w a [] req s = None"
    using q w c wr
    by (simp add: uuid_argument_str bound_error_def request_workspace_def request_tenant_def request_thread_def uuid_argument_def [of env None])
  then have "fst (require_api_key env cf new_id now req s) = Inr (Pass (Some p) None)"
    using agent_passes [OF assms(1,2) _ payload] scope by simp
  moreover have "take 32 (drop (length (lit ''/v1/workspaces/'')) (hr_path req)) = ?h"
    unfolding assms(3) by simp
  ultimately show ?thesis by (simp add: parse_uuid_hex)
qed

text \<open>
  C98: The paged list of checkpoints is not protected like the list: a bound agent's GET of
  \<open>/v1/checkpoints\<close> is refused for its scope, its GET of \<open>/v1/checkpoints/page\<close>, which returns the states
  of every thread of the workspace, passes.
\<close>

theorem checkpoint_page_open_to_agents:
  assumes "agent_key env cf now s credential p t w a"
    and "hr_authorization req = Some (lit ''Bearer '' @ credential)" and "hr_method req = lit ''GET''"
    and "hr_query req = [(lit ''tenant_id'', uuid_str t), (lit ''workspace_id'', uuid_str w)]"
  shows "(\<exists>answer. fst (require_api_key env cf new_id now (req\<lparr>hr_path := lit ''/v1/checkpoints''\<rparr>) s)
        = Inr (Refused 403 answer (lit ''insufficient_scope'')))
    \<and> fst (require_api_key env cf new_id now (req\<lparr>hr_path := lit ''/v1/checkpoints/page''\<rparr>) s) = Inr (Pass (Some p) None)"
proof
  let ?list = "req\<lparr>hr_path := lit ''/v1/checkpoints''\<rparr>" and ?page = "req\<lparr>hr_path := lit ''/v1/checkpoints/page''\<rparr>"
  have up: "upper_method ?list = lit ''GET''" "upper_method ?page = lit ''GET''"
    by (simp_all add: upper_get assms(3))
  have k: "principal_for_credential env cf credential = Inr (Some p)" "\<not> revoked cf s p" "pr_scopes p = [lit ''agent'']"
    using assms(1) by (simp_all add: agent_key_def)
  have scope: "required_scope (lit ''/v1/checkpoints'') (lit ''GET'') = lit ''operator''"
    "required_scope (lit ''/v1/checkpoints/page'') (lit ''GET'') = lit ''read''" "lit ''operator'' \<noteq> lit ''public''" by code_simp+
  have "authenticate env cf now ?list s = Inr (Some (p, None))"
    using authenticate_bearer [of ?list credential] assms(2) k(1) by simp
  then show "\<exists>answer. fst (require_api_key env cf new_id now ?list s) = Inr (Refused 403 answer (lit ''insufficient_scope''))"
    using configured_auth [OF k(1)] k(2) agent_scope [OF k(3)] scope(1,3)
    by (auto simp: require_api_key_def up auth_required_def admit_principal_def denied_response_def Let_def)
  have payload: "request_payload env ?page = Some []" by (simp add: request_payload_def safe_method_def up)
  have q: "supplied [] ?page (lit ''tenant_id'') = Some (PStr (uuid_str t))" "supplied [] ?page (lit ''workspace_id'') = Some (PStr (uuid_str w))"
    "supplied [] ?page (lit ''agent_id'') = None" "supplied [] ?page (lit ''thread_id'') = None"
    by (simp_all add: supplied_def assms(4)) (simp_all add: lit_def)
  have seg: "path_segment (lit ''/v1/workspaces/'') (lit ''/v1/checkpoints/page'') = None"
    "path_segment (lit ''/v1/checkpoints/'') (lit ''/v1/checkpoints/page'') = None" by code_simp+
  have wr: "\<not> attributed_write ?page" unfolding attributed_write_def up by (simp add: lit_def)
  have "bound_error env t w a [] ?page s = None"
    using q seg wr
    by (simp add: uuid_argument_str bound_error_def request_workspace_def request_tenant_def request_thread_def uuid_argument_def [of env None])
  then show "fst (require_api_key env cf new_id now ?page s) = Inr (Pass (Some p) None)"
    using agent_passes [OF assms(1) _ _ payload] assms(2) scope(2) up by simp
qed

text \<open>
  C98: A bearer token with a character outside ASCII is not refused but raises: the comparison of the
  secrets fails with \<open>TypeError\<close>, no principal is decided and no denial is recorded.
\<close>

theorem non_ascii_bearer_raises:
  assumes "auth_required cf" and "\<not> is_ascii credential"
    and "hr_authorization req = Some (lit ''Bearer '' @ credential)"
    and "required_scope (hr_path req) (upper_method req) \<noteq> lit ''public''"
  shows "\<exists>message. require_api_key env cf new_id now req s = (Inl (TypeError message), s)"
proof -
  have cmp: "\<exists>m. compare_digest credential x = Inl (TypeError m)" for x using assms(2) by (simp add: compare_digest_def)
  have "\<exists>m. principal_for_credential env cf credential = Inl (TypeError m)"
  proof (cases "given (cf_key cf)")
    case None
    then obtain k ks where "cf_keys cf = k # ks" using assms(1) by (cases "cf_keys cf") (auto simp: auth_required_def)
    moreover obtain n x sc where "k = (n, x, sc)" by (cases k) auto
    ultimately show ?thesis using None cmp [of x] by (auto simp: principal_for_credential_def)
  next
    case (Some key)
    then show ?thesis using cmp [of key] by (auto simp: principal_for_credential_def)
  qed
  then show ?thesis
    using assms(1,4) by (auto simp: require_api_key_def auth_required_def authenticate_bearer [OF assms(3)] Let_def)
qed

section \<open>Concrete requests\<close>

definition gate_config :: api_config where
  "gate_config = \<lparr>cf_key = None, cf_keys = [(lit ''bot'', lit ''s3'', [lit ''agent''])],
     cf_bindings = [(lit ''bot'', \<lparr>bi_tenant_id = 7, bi_workspace_id = 8, bi_agent_id = 9\<rparr>)], cf_require = True,
     cf_signing = None, cf_ttl = 300, cf_tenant = 7\<rparr>"

definition gate_request :: "str \<Rightarrow> str \<Rightarrow> http_request" where
  "gate_request path credential = \<lparr>hr_path = path, hr_method = lit ''GET'', hr_authorization = Some (lit ''Bearer '' @ credential),
     hr_content_type = None, hr_csrf = None, hr_cookie = None,
     hr_query = [(lit ''tenant_id'', uuid_str 7), (lit ''workspace_id'', uuid_str 8)], hr_body = []\<rparr>"

definition bot :: principal where
  "bot = bound_principal sample_api_env (cf_bindings gate_config) (lit ''bot'') [lit ''agent''] (lit ''s3'')"

lemma bot_key: "agent_key sample_api_env gate_config 0 empty_store (lit ''s3'') bot 7 8 9"
  by code_simp

lemma bot_requests:
  "hr_authorization (gate_request path credential) = Some (lit ''Bearer '' @ credential)"
  "hr_method (gate_request path credential) = lit ''GET''" "hr_path (gate_request path credential) = path"
  "hr_query (gate_request path credential) = [(lit ''tenant_id'', uuid_str 7), (lit ''workspace_id'', uuid_str 8)]"
  by (simp_all add: gate_request_def)

lemma bot_passes:
  "\<exists>s'. require_api_key sample_api_env gate_config 5 0 (gate_request (lit ''/v1/context'') (lit ''s3'')) empty_store
    = (Inr (Pass (Some bot) None), s')"
proof -
  have "fst (require_api_key sample_api_env gate_config 5 0 (gate_request (lit ''/v1/context'') (lit ''s3'')) empty_store)
    = Inr (Pass (Some bot) None)" by code_simp
  then show ?thesis by (metis prod.collapse)
qed

lemma gate_route:
  "required_scope (hr_path (gate_request (lit ''/v1/context'') c)) (upper_method (gate_request (lit ''/v1/context'') c))
    \<noteq> lit ''public''"
proof -
  have "required_scope (lit ''/v1/context'') (lit ''GET'') \<noteq> lit ''public''" by code_simp
  then show ?thesis by (simp add: bot_requests upper_get)
qed

theorem gate_admits_only_authorized_witness:
  "\<exists>p secret. configured sample_api_env gate_config secret p \<and> scope_allowed p (lit ''read'')"
proof -
  obtain s' where s': "require_api_key sample_api_env gate_config 5 0 (gate_request (lit ''/v1/context'') (lit ''s3'')) empty_store
    = (Inr (Pass (Some bot) None), s')" using bot_passes by blast
  have k: "auth_required gate_config" by code_simp
  have r: "required_scope (hr_path (gate_request (lit ''/v1/context'') c)) (upper_method (gate_request (lit ''/v1/context'') c))
    = lit ''read''" for c
  proof -
    have "required_scope (lit ''/v1/context'') (lit ''GET'') = lit ''read''" by code_simp
    then show ?thesis by (simp add: bot_requests upper_get)
  qed
  show ?thesis using gate_admits_only_authorized [OF s' gate_route k] unfolding r by blast
qed

theorem agent_confined_witness:
  "pr_tenant_id bot = Some (request_tenant sample_api_env [] (gate_request (lit ''/v1/context'') (lit ''s3'')))
    \<and> pr_workspace_id bot = request_workspace sample_api_env [] (gate_request (lit ''/v1/context'') (lit ''s3''))"
proof -
  obtain s' where s': "require_api_key sample_api_env gate_config 5 0 (gate_request (lit ''/v1/context'') (lit ''s3'')) empty_store
    = (Inr (Pass (Some bot) None), s')" using bot_passes by blast
  have k: "auth_required gate_config" "lit ''agent'' \<in> set (pr_scopes bot)" "cf_require gate_config"
    "request_payload sample_api_env (gate_request (lit ''/v1/context'') (lit ''s3'')) = Some []" by code_simp+
  show ?thesis using agent_confined [OF s' gate_route k(1,2)] k(3) unfolding k(4) by simp
qed

theorem refusal_only_audits_witness:
  "\<exists>e. dict_get (st_audit_events (snd (require_api_key sample_api_env gate_config 5 0
      (gate_request (lit ''/v1/keys'') (lit ''s3'')) empty_store))) 5 = Some e \<and> ae_status e = lit ''denied''
    \<and> ae_resource_id e = Some (audit_route_family (lit ''/v1/keys''))"
proof -
  let ?run = "require_api_key sample_api_env gate_config 5 0 (gate_request (lit ''/v1/keys'') (lit ''s3'')) empty_store"
  obtain answer where "fst ?run = Inr (Refused 403 answer (lit ''insufficient_scope''))"
  proof -
    have "(case fst ?run of Inr (Refused st answer reason) \<Rightarrow> st = 403 \<and> reason = lit ''insufficient_scope'' | _ \<Rightarrow> False)"
      by code_simp
    with that show thesis by (auto split: sum.splits gate.splits)
  qed
  then have r: "?run = (Inr (Refused 403 answer (lit ''insufficient_scope'')), snd ?run)" by (metis prod.collapse)
  have k: "list_all (\<lambda>(name, secret, scopes). \<not> blank name) (cf_keys gate_config)"
    "dict_get (st_audit_events empty_store) 5 = None" by code_simp+
  show ?thesis using refusal_only_audits [OF r k] unfolding bot_requests(3) by blast
qed

theorem undashed_path_escapes_binding_witness:
  "fst (require_api_key sample_api_env gate_config 5 0
      (gate_request (lit ''/v1/workspaces/'' @ hex_digits 32 (uint (13 :: uuid)) @ lit ''/seed'') (lit ''s3'')) empty_store)
    = Inr (Pass (Some bot) None) \<and> pr_workspace_id bot = Some 8"
proof -
  have "pr_workspace_id bot = Some 8" by code_simp
  then show ?thesis
    using undashed_path_escapes_binding [OF bot_key bot_requests(1,3,2,4), of 5] by blast
qed

theorem checkpoint_page_open_to_agents_witness:
  "fst (require_api_key sample_api_env gate_config 5 0
      ((gate_request [] (lit ''s3''))\<lparr>hr_path := lit ''/v1/checkpoints/page''\<rparr>) empty_store) = Inr (Pass (Some bot) None)"
  using checkpoint_page_open_to_agents [OF bot_key bot_requests(1,2,4), of 5] by blast

theorem non_ascii_bearer_raises_witness:
  "\<exists>message. require_api_key sample_api_env gate_config 5 0 (gate_request (lit ''/v1/context'') [233]) empty_store
    = (Inl (TypeError message), empty_store)"
proof -
  have k: "auth_required gate_config" "\<not> is_ascii [233]" by code_simp+
  show ?thesis by (rule non_ascii_bearer_raises [OF k bot_requests(1) gate_route])
qed

end
