(* ===== verification/ApiReplies.thy ===== *)
theory ApiReplies
  imports ApiGate Conflicts Checkpoints Conversations VectorIndex
begin

text \<open>
  What the route handlers of \<open>api/app.py\<close> answer: a status with a JSON value, or an \<open>HTTPException\<close>, and
  the \<open>except\<close> tables that turn a service's exception into one; an exception no table names leaves the
  handler. The second half renders the domain objects as JSON.
\<close>

section \<open>Answers\<close>

text \<open>The detail of an \<open>HTTPException\<close>: a fixed text, \<open>str(exc)\<close>, or the object of a revision conflict.\<close>

datatype http_detail = FixedText str | ErrorText pyerr | RevisionDetail str pyerr int "int option"

datatype reply = Reply int pyval | Failed int http_detail

text \<open>
  The exception classes a table names. A class that is not the program's own is known by its name, and
  these are the subclasses of the standard library and of the repository.
\<close>

definition is_value_error :: "pyerr \<Rightarrow> bool" where
  "is_value_error e = (case e of ValueError _ \<Rightarrow> True
     | DependencyFailure n \<Rightarrow> n \<in> {lit ''UnicodeDecodeError'', lit ''UnicodeEncodeError'', lit ''JSONDecodeError'', lit ''Error''}
     | _ \<Rightarrow> False)"

definition is_key_error :: "pyerr \<Rightarrow> bool" where
  "is_key_error e = (case e of KeyError _ \<Rightarrow> True | _ \<Rightarrow> False)"

definition is_runtime_error :: "pyerr \<Rightarrow> bool" where
  "is_runtime_error e = (case e of RuntimeError _ \<Rightarrow> True | DependencyFailure n \<Rightarrow> n = lit ''MemoryLLMError'' | _ \<Rightarrow> False)"

type_synonym except_table = "pyerr \<Rightarrow> (int \<times> http_detail) option"

definition unprocessable :: except_table where
  "unprocessable e = (if is_value_error e then Some (422, ErrorText e) else None)"

definition unavailable :: except_table where
  "unavailable e = (if is_runtime_error e then Some (503, ErrorText e) else None)"

definition not_found :: "str \<Rightarrow> except_table" where
  "not_found msg e = (if is_key_error e then Some (404, FixedText msg) else None)"

definition revision_conflict :: except_table where
  "revision_conflict e = (case e of
     MemoryRevisionConflictError i expected actual \<Rightarrow> Some (409, RevisionDetail (lit ''revision_conflict'') e expected actual)
   | StaleRevisionError i expected actual \<Rightarrow> Some (409, RevisionDetail (lit ''revision_conflict'') e expected actual)
   | _ \<Rightarrow> None)"

definition no_except :: except_table where "no_except e = None"

text \<open>The first clause that matches.\<close>

fun excepts :: "except_table list \<Rightarrow> except_table" where
  "excepts [] e = None"
| "excepts (t # ts) e = (case t e of None \<Rightarrow> excepts ts e | Some x \<Rightarrow> Some x)"

definition handling :: "except_table \<Rightarrow> ('a \<Rightarrow> 's \<Rightarrow> reply res \<times> 's) \<Rightarrow> 'a res \<times> 's \<Rightarrow> reply res \<times> 's" where
  "handling table render outcome = (case outcome of
     (Inr x, s) \<Rightarrow> render x s
   | (Inl e, s) \<Rightarrow> (case table e of Some (code, d) \<Rightarrow> (Inr (Failed code d), s) | None \<Rightarrow> (Inl e, s)))"

definition replying :: "int \<Rightarrow> ('a \<Rightarrow> pyval) \<Rightarrow> 'a \<Rightarrow> 's \<Rightarrow> reply res \<times> 's" where
  "replying status render x s = (Inr (Reply status (render x)), s)"

section \<open>Audit events of the handlers\<close>

record stamp =
  sp_audit_id :: uuid
  sp_audited_at :: datetime

definition actor_event ::
  "stamp \<Rightarrow> principal \<Rightarrow> uuid \<Rightarrow> uuid option \<Rightarrow> str \<Rightarrow> str \<Rightarrow> str option \<Rightarrow> metadata \<Rightarrow> audit_event res"
where
  "actor_event st p tenant workspace action resource_type resource_id md = audit_event_post_init
    \<lparr>ae_id = sp_audit_id st, ae_tenant_id = tenant, ae_workspace_id = workspace, ae_action = action,
     ae_actor = pr_name p, ae_actor_type = audit_actor_type p, ae_resource_type = resource_type,
     ae_resource_id = resource_id, ae_status = lit ''succeeded'', ae_metadata = md,
     ae_created_at = sp_audited_at st\<rparr>"

text \<open>A handler that builds its audit event before it calls the service.\<close>

definition with_event :: "audit_event res \<Rightarrow> (audit_event \<Rightarrow> 's \<Rightarrow> reply res \<times> 's) \<Rightarrow> 's \<Rightarrow> reply res \<times> 's" where
  "with_event event body s = (case event of Inl e \<Rightarrow> (Inl e, s) | Inr a \<Rightarrow> body a s)"

text \<open>\<open>record_audit\<close>: one row for a successful action, under the principal of the request.\<close>

definition record_action ::
  "stamp \<Rightarrow> principal \<Rightarrow> uuid \<Rightarrow> uuid option \<Rightarrow> str \<Rightarrow> str \<Rightarrow> str option \<Rightarrow> metadata \<Rightarrow> store
    \<Rightarrow> audit_event res \<times> store"
where
  "record_action st p tenant workspace action resource_type resource_id md s =
    audit_record (sp_audit_id st) (sp_audited_at st) tenant workspace action (pr_name p) (audit_actor_type p)
      resource_type resource_id (lit ''succeeded'') (Some md) s"

text \<open>A handler that records its action afterwards.\<close>

definition recording :: "(store \<Rightarrow> audit_event res \<times> store) \<Rightarrow> reply \<Rightarrow> store \<Rightarrow> reply res \<times> store" where
  "recording record_row answer s = (case record_row s of (Inl e, s1) \<Rightarrow> (Inl e, s1) | (Inr _, s1) \<Rightarrow> (Inr answer, s1))"

section \<open>JSON of the domain objects\<close>

definition json_id :: "uuid \<Rightarrow> pyval" where "json_id i = PStr (uuid_str i)"

definition json_id_or_none :: "uuid option \<Rightarrow> pyval" where
  "json_id_or_none i = (case i of None \<Rightarrow> PNone | Some u \<Rightarrow> json_id u)"

definition json_str_or_none :: "str option \<Rightarrow> pyval" where
  "json_str_or_none v = (case v of None \<Rightarrow> PNone | Some x \<Rightarrow> PStr x)"

definition json_time :: "datetime \<Rightarrow> pyval" where "json_time t = PStr (isoformat t)"

definition json_time_or_none :: "datetime option \<Rightarrow> pyval" where
  "json_time_or_none t = (case t of None \<Rightarrow> PNone | Some x \<Rightarrow> json_time x)"

definition json_count :: "'a list \<Rightarrow> pyval" where "json_count xs = PInt (int (length xs))"

definition checkpoint_response :: "checkpoint \<Rightarrow> pyval" where
  "checkpoint_response cp = PDict
    [(lit ''id'', json_id (cp_id cp)), (lit ''tenant_id'', json_id (cp_tenant_id cp)),
     (lit ''workspace_id'', json_id (cp_workspace_id cp)), (lit ''thread_id'', json_id (cp_thread_id cp)),
     (lit ''revision'', PInt (cp_revision cp)), (lit ''state'', PDict (cp_state cp)),
     (lit ''created_at'', json_time (cp_created_at cp))]"

definition audit_event_response :: "audit_event \<Rightarrow> pyval" where
  "audit_event_response e = PDict
    [(lit ''id'', json_id (ae_id e)), (lit ''tenant_id'', json_id (ae_tenant_id e)),
     (lit ''workspace_id'', json_id_or_none (ae_workspace_id e)), (lit ''action'', PStr (ae_action e)),
     (lit ''actor'', PStr (ae_actor e)), (lit ''actor_type'', PStr (ae_actor_type e)),
     (lit ''resource_type'', PStr (ae_resource_type e)), (lit ''resource_id'', json_str_or_none (ae_resource_id e)),
     (lit ''status'', PStr (ae_status e)), (lit ''metadata'', PDict (ae_metadata e)),
     (lit ''created_at'', json_time (ae_created_at e))]"

definition api_key_response :: "api_key_record \<Rightarrow> pyval" where
  "api_key_response r =
    (let f = ak_secret_fingerprint r in PDict
    [(lit ''id'', json_id (ak_id r)), (lit ''tenant_id'', json_id (ak_tenant_id r)), (lit ''name'', PStr (ak_name r)),
     (lit ''fingerprint'', PStr (take 12 f @ [8230] @ drop (length f - 6) f)),
     (lit ''scopes'', PList (map PStr (ak_scopes r))), (lit ''created_at'', json_time (ak_created_at r)),
     (lit ''last_used_at'', json_time_or_none (ak_last_used_at r)),
     (lit ''revoked_at'', json_time_or_none (ak_revoked_at r)), (lit ''revoked'', PBool (ak_revoked r)),
     (lit ''revoked_reason'', PStr (ak_revoked_reason r))])"

definition memory_write_response :: "retain_result \<Rightarrow> pyval" where
  "memory_write_response r = PDict
    [(lit ''id'', json_id (mi_id (rr_item r))), (lit ''created'', PBool (rr_created r)),
     (lit ''revision'', PInt (mi_revision (rr_item r))),
     (lit ''supersedes_id'', json_id_or_none (mi_supersedes_id (rr_item r))),
     (lit ''queued_event_ids'', PList (map json_id (rr_queued_event_ids r)))]"

definition message_response :: "conversation_message \<Rightarrow> pyval" where
  "message_response m = PDict
    [(lit ''role'', PStr (cm_role m)), (lit ''name'', json_str_or_none (cm_name m)),
     (lit ''content'', PStr (cm_content m)), (lit ''metadata'', PDict (cm_metadata m))]"

definition created_field :: "bool option \<Rightarrow> metadata" where
  "created_field created = (case created of None \<Rightarrow> [] | Some b \<Rightarrow> [(lit ''created'', PBool b)])"

definition conversation_turn_response :: "conversation_turn \<Rightarrow> bool option \<Rightarrow> metadata" where
  "conversation_turn_response t created =
    [(lit ''id'', json_id (ct_id t)), (lit ''tenant_id'', json_id (ct_tenant_id t)),
     (lit ''workspace_id'', json_id (ct_workspace_id t)), (lit ''thread_id'', json_id (ct_thread_id t)),
     (lit ''agent_id'', json_id_or_none (ct_agent_id t)), (lit ''namespace'', PStr (ct_namespace t)),
     (lit ''source_kind'', PStr (ct_source_kind t)),
     (lit ''retention_policy'', PStr (policy_value (ct_retention_policy t))),
     (lit ''metadata'', PDict (ct_metadata t)), (lit ''created_at'', json_time (ct_created_at t)),
     (lit ''expires_at'', json_time_or_none (ct_expires_at t)),
     (lit ''messages'', PList (map message_response (ct_messages t)))] @ created_field created"

fun proposal_status_value :: "memory_proposal_status \<Rightarrow> str" where
  "proposal_status_value POpen = lit ''open''"
| "proposal_status_value PNeedsReview = lit ''needs_review''"
| "proposal_status_value PAccepted = lit ''accepted''"
| "proposal_status_value PRejected = lit ''rejected''"

definition memory_proposal_response :: "memory_proposal \<Rightarrow> bool option \<Rightarrow> pyval" where
  "memory_proposal_response p created = PDict
    ([(lit ''id'', json_id (mp_id p)), (lit ''tenant_id'', json_id (mp_tenant_id p)),
     (lit ''workspace_id'', json_id (mp_workspace_id p)), (lit ''agent_id'', json_id_or_none (mp_agent_id p)),
     (lit ''thread_id'', json_id_or_none (mp_thread_id p)), (lit ''namespace'', PStr (mp_namespace p)),
     (lit ''requester'', PStr (mp_requester p)), (lit ''target'', PStr (target_value (mp_target p))),
     (lit ''proposal'', PStr (mp_proposal p)), (lit ''evidence'', PStr (mp_evidence p)),
     (lit ''confidence'', PFloat (mp_confidence p)), (lit ''importance'', PFloat (mp_importance p)),
     (lit ''status'', PStr (proposal_status_value (mp_status p))), (lit ''metadata'', PDict (mp_metadata p)),
     (lit ''created_at'', json_time (mp_created_at p)), (lit ''reviewed_at'', json_time_or_none (mp_reviewed_at p)),
     (lit ''reviewer'', json_str_or_none (mp_reviewer p)), (lit ''review_reason'', PStr (mp_review_reason p))]
     @ created_field created)"

definition memory_proposal_review_response :: "review_result \<Rightarrow> pyval" where
  "memory_proposal_review_response r = PDict
    [(lit ''proposal'', memory_proposal_response (rw_proposal r) None),
     (lit ''memory'', case rw_retained r of None \<Rightarrow> PNone | Some m \<Rightarrow> memory_write_response m)]"

fun review_status_value :: "conflict_review_status \<Rightarrow> str" where
  "review_status_value Unresolved = lit ''unresolved''"
| "review_status_value Accepted = lit ''accepted''"
| "review_status_value Overridden = lit ''overridden''"
| "review_status_value Dismissed = lit ''dismissed''"

definition conflict_decision_response :: "conflict_review_decision \<Rightarrow> pyval" where
  "conflict_decision_response d = PDict
    [(lit ''tenant_id'', json_id (cd_tenant_id d)), (lit ''workspace_id'', json_id (cd_workspace_id d)),
     (lit ''case_id'', json_id (cd_case_id d)), (lit ''status'', PStr (review_status_value (cd_status d))),
     (lit ''winner_value'', json_str_or_none (cd_winner_value d)), (lit ''reason'', PStr (cd_reason d)),
     (lit ''applied_memory_id'', json_id_or_none (cd_applied_memory_id d)),
     (lit ''updated_at'', json_time (cd_updated_at d))]"

definition candidate_response :: "conflict_candidate \<Rightarrow> pyval" where
  "candidate_response c = PDict
    [(lit ''value'', PStr (cc_value c)), (lit ''status'', PStr (cc_status c)),
     (lit ''evidence_ids'', PList (map json_id (cc_evidence_ids c))), (lit ''confidence'', PFloat (cc_confidence c)),
     (lit ''latest_created_at'', json_time (cc_latest_created_at c))]"

definition conflict_case_response :: "conflict_case \<Rightarrow> pyval" where
  "conflict_case_response c = PDict
    [(lit ''id'', json_id (cf_id c)), (lit ''tenant_id'', json_id (cf_tenant_id c)),
     (lit ''workspace_id'', json_id (cf_workspace_id c)), (lit ''subject'', PStr (cf_subject c)),
     (lit ''predicate'', PStr (cf_predicate c)), (lit ''review_status'', PStr (review_status_value (review_status c))),
     (lit ''suggested_winner_value'', PStr (cf_suggested_winner_value c)),
     (lit ''suggested_reason'', PStr (cf_suggested_reason c)),
     (lit ''review'', case cf_review c of None \<Rightarrow> PNone | Some d \<Rightarrow> conflict_decision_response d),
     (lit ''candidates'', PList (map candidate_response (cf_candidates c)))]"

fun edge_type_value :: "memory_edge_type \<Rightarrow> str" where
  "edge_type_value Supports = lit ''supports''"
| "edge_type_value Contradicts = lit ''contradicts''"
| "edge_type_value DerivedFrom = lit ''derived_from''"
| "edge_type_value SameEntity = lit ''same_entity''"
| "edge_type_value CausedBy = lit ''caused_by''"
| "edge_type_value OwnedByAgent = lit ''owned_by_agent''"
| "edge_type_value FromThread = lit ''from_thread''"
| "edge_type_value Supersedes = lit ''supersedes''"

definition graph_edge_response :: "memory_edge \<Rightarrow> pyval" where
  "graph_edge_response e = PDict
    [(lit ''id'', json_id (me_id e)), (lit ''tenant_id'', json_id (me_tenant_id e)),
     (lit ''workspace_id'', json_id (me_workspace_id e)), (lit ''src_id'', json_id (me_src_id e)),
     (lit ''dst_id'', json_id (me_dst_id e)), (lit ''edge_type'', PStr (edge_type_value (me_edge_type e))),
     (lit ''weight'', PFloat (me_weight e)), (lit ''provenance_item_id'', json_id_or_none (me_provenance_item_id e)),
     (lit ''created_at'', json_time (me_created_at e))]"

end
