(* ===== verification/ApiGateway.thy ===== *)
theory ApiGateway
  imports ApiReplies
begin

text \<open>
  The transcript and proposal routes of \<open>api/app.py\<close>: appending, listing, purging and curating turns, and
  submitting, listing, accepting and rejecting proposals. The listings ask the store for one row more
  than they return.
\<close>

section \<open>Pages\<close>

text \<open>The rows of a page, whether more follow, and the row the next page starts after.\<close>

definition page_rows :: "int \<Rightarrow> 'r list \<Rightarrow> 'r list \<times> bool \<times> 'r option" where
  "page_rows safe_limit found =
    (let has_next = safe_limit < int (length found); rows = py_take safe_limit found
     in (rows, has_next, if has_next \<and> rows \<noteq> [] then Some (last rows) else None))"

section \<open>Transcripts\<close>

record message_body =
  mb_role :: str
  mb_content :: str
  mb_name :: "str option"
  mb_metadata :: metadata

record turn_body =
  tb_tenant_id :: uuid
  tb_workspace_id :: uuid
  tb_thread_id :: uuid
  tb_namespace :: str
  tb_agent_id :: "uuid option"
  tb_source_kind :: str
  tb_retention_policy :: conversation_retention_policy
  tb_messages :: "message_body list"
  tb_metadata :: metadata
  tb_idempotency_key :: "str option"

definition body_message :: "message_body \<Rightarrow> conversation_message res" where
  "body_message m = conversation_message_post_init
    \<lparr>cm_role = mb_role m, cm_content = mb_content m, cm_name = mb_name m, cm_metadata = mb_metadata m\<rparr>"

definition append_turn_route ::
  "conversation_service \<Rightarrow> stamp \<Rightarrow> turn_fresh \<Rightarrow> principal \<Rightarrow> turn_body \<Rightarrow> store \<Rightarrow> reply res \<times> store"
where
  "append_turn_route svc st tf p b =
    with_event (actor_event st p (tb_tenant_id b) (Some (tb_workspace_id b)) (lit ''conversation.turn.append'')
        (lit ''conversation_turn'') None
        [(lit ''namespace'', PStr (tb_namespace b)), (lit ''retention_policy'', PStr (policy_value (tb_retention_policy b))),
         (lit ''message_count'', json_count (tb_messages b))])
      (\<lambda>a s. handling unprocessable
        (replying 201 (\<lambda>r. PDict (conversation_turn_response (ar_turn r) (Some (ar_created r))
           @ [(lit ''queued_event_ids'', PList (map json_id (ar_queued_event_ids r)))])))
        (case res_map body_message (tb_messages b) of
           Inl e \<Rightarrow> (Inl e, s)
         | Inr messages \<Rightarrow> append_turn_service svc tf
             \<lparr>ac_tenant_id = tb_tenant_id b, ac_workspace_id = tb_workspace_id b, ac_thread_id = tb_thread_id b,
              ac_messages = messages, ac_namespace = tb_namespace b, ac_agent_id = tb_agent_id b,
              ac_source_kind = tb_source_kind b, ac_retention_policy = tb_retention_policy b,
              ac_metadata = tb_metadata b, ac_idempotency_key = tb_idempotency_key b\<rparr> (Some a) s))"

definition list_turns_route ::
  "uuid \<Rightarrow> uuid \<Rightarrow> uuid option \<Rightarrow> str option \<Rightarrow> int \<Rightarrow> datetime option \<Rightarrow> uuid option \<Rightarrow> store \<Rightarrow> reply"
where
  "list_turns_route tenant_id workspace_id thread_id namespace limit before_created_at before_turn_id s =
    (let safe_limit = max 1 (min limit 200);
         (rows, has_next, cursor) = page_rows safe_limit
           (list_turns tenant_id workspace_id thread_id namespace before_created_at before_turn_id (safe_limit + 1) s)
     in Reply 200 (PDict
       [(lit ''tenant_id'', json_id tenant_id), (lit ''workspace_id'', json_id workspace_id), (lit ''count'', json_count rows),
        (lit ''limit'', PInt safe_limit), (lit ''has_more'', PBool has_next),
        (lit ''next_before_created_at'', json_time_or_none (map_option ct_created_at cursor)),
        (lit ''next_before_turn_id'', json_id_or_none (map_option ct_id cursor)),
        (lit ''turns'', PList (map (\<lambda>t. PDict (conversation_turn_response t None)) rows))]))"

definition purge_turns_route ::
  "stamp \<Rightarrow> datetime \<Rightarrow> principal \<Rightarrow> uuid \<Rightarrow> uuid \<Rightarrow> int \<Rightarrow> store \<Rightarrow> reply res \<times> store"
where
  "purge_turns_route st now p workspace_id tenant_id limit s =
    handling no_except
      (\<lambda>ids. recording
        (record_action st p tenant_id (Some workspace_id) (lit ''conversation.retention.purge_expired'')
          (lit ''conversation_turn'') None
          [(lit ''count'', json_count ids), (lit ''limit'', PInt (max 1 (min limit 5000)))])
        (Reply 200 (PDict [(lit ''tenant_id'', json_id tenant_id), (lit ''workspace_id'', json_id workspace_id),
           (lit ''purged_turn_ids'', PList (map json_id ids)), (lit ''count'', json_count ids)])))
      (purge_expired_service tenant_id workspace_id limit now s)"

record curate_body =
  ub_tenant_id :: uuid
  ub_layer :: memory_layer
  ub_kind :: str
  ub_labels :: "str list"
  ub_importance :: real
  ub_confidence :: real
  ub_auto_accept :: bool
  ub_idempotency_key :: "str option"

definition curated_reply :: "stamp \<Rightarrow> principal \<Rightarrow> uuid \<Rightarrow> uuid \<Rightarrow> curate_result \<Rightarrow> store \<Rightarrow> reply res \<times> store" where
  "curated_reply st p tenant_id turn_id r s =
    (case (cr_proposal r, cr_retained r) of
       (Some x, _) \<Rightarrow> (Inr (Reply 201 (memory_proposal_response (sr_proposal x) (Some (sr_created x)))), s)
     | (None, None) \<Rightarrow> (Inl (DependencyFailure (lit ''AssertionError'')), s)
     | (None, Some m) \<Rightarrow>
         recording
           (record_action st p tenant_id (Some (mi_workspace_id (rr_item m))) (lit ''conversation.curate'') (lit ''memory_item'')
             (Some (uuid_str (mi_id (rr_item m)))) [(lit ''turn_id'', json_id turn_id), (lit ''created'', PBool (rr_created m))])
           (Reply 201 (memory_write_response m)) s)"

definition curate_turn_route ::
  "curator \<Rightarrow> stamp \<Rightarrow> stamp \<Rightarrow> curate_fresh \<Rightarrow> principal \<Rightarrow> uuid \<Rightarrow> curate_body \<Rightarrow> store \<Rightarrow> reply res \<times> store"
where
  "curate_turn_route cg st st2 fr p turn_id b =
    with_event (actor_event st p (ub_tenant_id b) None (lit ''conversation.curate.propose'') (lit ''memory_proposal'') None
        [(lit ''turn_id'', json_id turn_id)])
      (\<lambda>a s. handling (excepts [not_found (lit ''conversation turn not found''), unprocessable, unavailable])
        (curated_reply st2 p (ub_tenant_id b) turn_id)
        (curate_turn cg fr \<lparr>cu_tenant_id = ub_tenant_id b, cu_turn_id = turn_id, cu_layer = ub_layer b, cu_kind = ub_kind b,
           cu_labels = ub_labels b, cu_importance = ub_importance b, cu_confidence = ub_confidence b,
           cu_auto_accept = ub_auto_accept b, cu_idempotency_key = ub_idempotency_key b\<rparr> (Some a) s))"

section \<open>Proposals\<close>

record proposal_body =
  pb_tenant_id :: uuid
  pb_workspace_id :: uuid
  pb_namespace :: str
  pb_requester :: str
  pb_proposal :: str
  pb_evidence :: str
  pb_target :: memory_proposal_target
  pb_agent_id :: "uuid option"
  pb_thread_id :: "uuid option"
  pb_confidence :: real
  pb_importance :: real
  pb_metadata :: metadata
  pb_idempotency_key :: "str option"

definition submit_proposal_route ::
  "runtime \<Rightarrow> reasoner option \<Rightarrow> privacy_guard \<Rightarrow> stamp \<Rightarrow> uuid \<Rightarrow> datetime \<Rightarrow> principal \<Rightarrow> proposal_body \<Rightarrow> store
    \<Rightarrow> reply res \<times> store"
where
  "submit_proposal_route rt llm g st new_id now p b =
    with_event (actor_event st p (pb_tenant_id b) (Some (pb_workspace_id b)) (lit ''proposal.submit'') (lit ''memory_proposal'') None
        [(lit ''namespace'', PStr (pb_namespace b)), (lit ''target'', PStr (target_value (pb_target b)))])
      (\<lambda>a s. handling unprocessable
        (replying 201 (\<lambda>r. memory_proposal_response (sr_proposal r) (Some (sr_created r))))
        (submit rt llm g new_id now \<lparr>sp_tenant_id = pb_tenant_id b, sp_workspace_id = pb_workspace_id b,
           sp_namespace = pb_namespace b, sp_requester = pb_requester b, sp_proposal = pb_proposal b,
           sp_evidence = pb_evidence b, sp_target = pb_target b, sp_agent_id = pb_agent_id b,
           sp_thread_id = pb_thread_id b, sp_confidence = pb_confidence b, sp_importance = pb_importance b,
           sp_metadata = pb_metadata b, sp_idempotency_key = pb_idempotency_key b\<rparr> (Some a) s))"

definition list_proposals_route ::
  "uuid \<Rightarrow> uuid \<Rightarrow> str option \<Rightarrow> memory_proposal_status option \<Rightarrow> int \<Rightarrow> datetime option \<Rightarrow> uuid option \<Rightarrow> store \<Rightarrow> reply"
where
  "list_proposals_route tenant_id workspace_id namespace status limit before_created_at before_proposal_id s =
    (if (before_created_at = None) \<noteq> (before_proposal_id = None) then
       Failed 422 (FixedText (lit ''before_created_at and before_proposal_id must be supplied together''))
     else
       let safe_limit = max 1 (min limit 200);
           (rows, has_next, cursor) = page_rows safe_limit
             (list_proposals tenant_id workspace_id namespace status before_created_at before_proposal_id (safe_limit + 1) s)
       in Reply 200 (PDict
         [(lit ''tenant_id'', json_id tenant_id), (lit ''workspace_id'', json_id workspace_id), (lit ''count'', json_count rows),
          (lit ''limit'', PInt safe_limit), (lit ''has_more'', PBool has_next),
          (lit ''next_before_created_at'', json_time_or_none (map_option mp_created_at cursor)),
          (lit ''next_before_proposal_id'', json_id_or_none (map_option mp_id cursor)),
          (lit ''proposals'', PList (map (\<lambda>x. memory_proposal_response x None) rows))]))"

record review_body =
  vb_tenant_id :: uuid
  vb_reviewer :: str
  vb_reason :: str
  vb_layer :: "memory_layer option"
  vb_kind :: "str option"
  vb_labels :: "str list"
  vb_idempotency_key :: "str option"

definition review_excepts :: except_table where
  "review_excepts = excepts [not_found (lit ''memory proposal not found''), unprocessable]"

definition accept_proposal_route ::
  "privacy_guard \<Rightarrow> stamp \<Rightarrow> fresh \<Rightarrow> datetime \<Rightarrow> principal \<Rightarrow> uuid \<Rightarrow> review_body \<Rightarrow> store \<Rightarrow> reply res \<times> store"
where
  "accept_proposal_route g st fr now p proposal_id b =
    with_event (actor_event st p (vb_tenant_id b) None (lit ''proposal.accept'') (lit ''memory_proposal'') None
        [(lit ''reviewer'', PStr (vb_reviewer b))])
      (\<lambda>a s. handling review_excepts (replying 201 memory_proposal_review_response)
        (accept g fr now \<lparr>rv_tenant_id = vb_tenant_id b, rv_proposal_id = proposal_id, rv_reviewer = vb_reviewer b,
           rv_reason = vb_reason b, rv_layer = vb_layer b, rv_kind = vb_kind b, rv_labels = vb_labels b,
           rv_idempotency_key = vb_idempotency_key b\<rparr> (Some a) s))"

definition reject_proposal_route ::
  "stamp \<Rightarrow> datetime \<Rightarrow> principal \<Rightarrow> uuid \<Rightarrow> review_body \<Rightarrow> store \<Rightarrow> reply res \<times> store"
where
  "reject_proposal_route st now p proposal_id b =
    with_event (actor_event st p (vb_tenant_id b) None (lit ''proposal.reject'') (lit ''memory_proposal'') None
        [(lit ''reviewer'', PStr (vb_reviewer b)), (lit ''reason'', PStr (vb_reason b))])
      (\<lambda>a s. handling review_excepts (replying 200 memory_proposal_review_response)
        (reject now \<lparr>rv_tenant_id = vb_tenant_id b, rv_proposal_id = proposal_id, rv_reviewer = vb_reviewer b,
           rv_reason = vb_reason b, rv_layer = None, rv_kind = None, rv_labels = [], rv_idempotency_key = None\<rparr> (Some a) s))"

end
