(* ===== verification/ApiOperator.thy ===== *)
theory ApiOperator
  imports ApiGateway VaultImport VaultHealth Embedding Retrieval
begin

text \<open>
  The operator routes of \<open>api/app.py\<close> and the checkpoint routes: audit export, API keys, identities,
  conflicts, graph, reindexing, the vault, and the readiness of the deployment. \<open>sync_configured_api_keys\<close>
  mirrors the configured keys into the registry when the server starts.
\<close>

section \<open>Audit export\<close>

definition list_audit_route ::
  "uuid \<Rightarrow> uuid option \<Rightarrow> str option \<Rightarrow> str option \<Rightarrow> int \<Rightarrow> datetime option \<Rightarrow> uuid option \<Rightarrow> store \<Rightarrow> reply"
where
  "list_audit_route tenant_id workspace_id action resource_type limit before_created_at before_event_id s =
    (let safe_limit = max 1 (min limit 500);
         (rows, has_next, cursor) = page_rows safe_limit
           (audit_list_events tenant_id workspace_id action resource_type None before_created_at before_event_id
             (safe_limit + 1) s)
     in Reply 200 (PDict
       [(lit ''tenant_id'', json_id tenant_id), (lit ''workspace_id'', json_id_or_none workspace_id),
        (lit ''count'', json_count rows), (lit ''limit'', PInt safe_limit), (lit ''has_more'', PBool has_next),
        (lit ''next_before_created_at'', json_time_or_none (map_option ae_created_at cursor)),
        (lit ''next_before_event_id'', json_id_or_none (map_option ae_id cursor)),
        (lit ''events'', PList (map audit_event_response rows))]))"

section \<open>Keys and identities\<close>

fun sync_keys ::
  "api_env \<Rightarrow> (nat \<Rightarrow> uuid) \<Rightarrow> nat \<Rightarrow> datetime \<Rightarrow> uuid \<Rightarrow> (str \<times> str \<times> str list) list \<Rightarrow> store \<Rightarrow> unit res \<times> store"
where
  "sync_keys env ids k now tenant [] s = (Inr (), s)"
| "sync_keys env ids k now tenant ((name, secret, scopes) # keys) s =
    (case ensure_configured_key (ids k) now tenant name (av_sha env secret) (sort scopes) s of
       (Inl e, s1) \<Rightarrow> (Inl e, s1)
     | (Inr _, s1) \<Rightarrow> sync_keys env ids (Suc k) now tenant keys s1)"

definition sync_configured_api_keys ::
  "api_env \<Rightarrow> api_config \<Rightarrow> (nat \<Rightarrow> uuid) \<Rightarrow> datetime \<Rightarrow> store \<Rightarrow> unit res \<times> store"
where
  "sync_configured_api_keys env cf ids now s =
    sync_keys env ids 0 now (cf_tenant cf)
      ((case given (cf_key cf) of None \<Rightarrow> [] | Some key \<Rightarrow> [(lit ''server'', key, [lit ''admin''])]) @ cf_keys cf) s"

definition list_api_keys_route :: "uuid \<Rightarrow> store \<Rightarrow> reply" where
  "list_api_keys_route tenant_id s =
    (let records = list_api_keys tenant_id s in Reply 200 (PDict
      [(lit ''tenant_id'', json_id tenant_id), (lit ''count'', json_count records),
       (lit ''keys'', PList (map api_key_response records))]))"

definition revoke_api_key_route ::
  "stamp \<Rightarrow> datetime \<Rightarrow> principal \<Rightarrow> uuid \<Rightarrow> uuid \<Rightarrow> str \<Rightarrow> store \<Rightarrow> reply res \<times> store"
where
  "revoke_api_key_route st now p key_id tenant_id reason s =
    handling (not_found (lit ''api key not found''))
      (\<lambda>r. recording
        (record_action st p tenant_id None (lit ''api_key.revoke'') (lit ''api_key'') (Some (uuid_str key_id))
          [(lit ''name'', PStr (ak_name r)), (lit ''reason'', PStr reason)])
        (Reply 200 (api_key_response r)))
      (revoke_api_key tenant_id key_id now reason s)"

definition err_text :: "pyerr \<Rightarrow> str" where
  "err_text e = (case e of ValueError t \<Rightarrow> t | KeyError t \<Rightarrow> t | RuntimeError t \<Rightarrow> t | TypeError t \<Rightarrow> t | _ \<Rightarrow> [])"

definition already_belongs :: except_table where
  "already_belongs e = (if is_value_error e
     then Some (if contains (lit ''already belongs'') (err_text e) then 409 else 400, ErrorText e) else None)"

definition agent_dict :: "agent_identity \<Rightarrow> pyval" where
  "agent_dict a = PDict [(lit ''id'', json_id (ai_id a)), (lit ''tenant_id'', json_id (ai_tenant_id a)),
     (lit ''workspace_id'', json_id (ai_workspace_id a)), (lit ''name'', PStr (ai_name a)), (lit ''role'', PStr (ai_role a)),
     (lit ''config'', PDict (ai_config a))]"

definition thread_dict :: "thread_identity \<Rightarrow> pyval" where
  "thread_dict t = PDict [(lit ''id'', json_id (ti_id t)), (lit ''tenant_id'', json_id (ti_tenant_id t)),
     (lit ''workspace_id'', json_id (ti_workspace_id t)), (lit ''owner_agent_id'', json_id_or_none (ti_owner_agent_id t)),
     (lit ''status'', PStr (ti_status t))]"

definition provision_identity_route ::
  "stamp \<Rightarrow> principal \<Rightarrow> provision_identity_command \<Rightarrow> store \<Rightarrow> reply res \<times> store"
where
  "provision_identity_route st p b s =
    handling already_belongs
      (\<lambda>(agent, thread). recording
        (record_action st p (pi_tenant_id b) (Some (pi_workspace_id b)) (lit ''identity.provision'') (lit ''agent_identity'')
          (Some (uuid_str (pi_agent_id b)))
          [(lit ''agent_name'', PStr (ai_name agent)), (lit ''agent_role'', PStr (ai_role agent)),
           (lit ''thread_id'', json_id_or_none (map_option ti_id thread)),
           (lit ''thread_status'', json_str_or_none (map_option ti_status thread))])
        (Reply 200 (PDict [(lit ''agent'', agent_dict agent),
           (lit ''thread'', case thread of None \<Rightarrow> PNone | Some t \<Rightarrow> thread_dict t)])))
      (provision_identity b s)"

definition provision_workspace_route ::
  "stamp \<Rightarrow> principal \<Rightarrow> provision_workspace_command \<Rightarrow> store \<Rightarrow> reply res \<times> store"
where
  "provision_workspace_route st p b s =
    handling already_belongs
      (\<lambda>w. recording
        (record_action st p (wi_tenant_id w) (Some (wi_id w)) (lit ''workspace.provision'') (lit ''workspace_identity'')
          (Some (uuid_str (wi_id w))) [(lit ''workspace_name'', PStr (wi_name w))])
        (Reply 200 (PDict [(lit ''workspace'', PDict [(lit ''id'', json_id (wi_id w)),
           (lit ''tenant_id'', json_id (wi_tenant_id w)), (lit ''name'', PStr (wi_name w))])])))
      (provision_workspace_identity b s)"

section \<open>Conflicts and graph\<close>

definition list_conflicts_route :: "(str \<Rightarrow> uuid) \<Rightarrow> uuid \<Rightarrow> uuid \<Rightarrow> bool \<Rightarrow> store \<Rightarrow> reply" where
  "list_conflicts_route uuid5 workspace_id tenant_id include_resolved s =
    (let cases = list_cases uuid5 tenant_id workspace_id include_resolved s in Reply 200 (PDict
      [(lit ''tenant_id'', json_id tenant_id), (lit ''workspace_id'', json_id workspace_id), (lit ''count'', json_count cases),
       (lit ''cases'', PList (map conflict_case_response cases))]))"

record decision_body =
  db_tenant_id :: uuid
  db_status :: conflict_review_status
  db_winner_value :: "str option"
  db_reason :: str

definition decide_conflict_route ::
  "(str \<Rightarrow> uuid) \<Rightarrow> stamp \<Rightarrow> (nat \<Rightarrow> fresh) \<Rightarrow> datetime \<Rightarrow> principal \<Rightarrow> uuid \<Rightarrow> uuid \<Rightarrow> decision_body \<Rightarrow> store
    \<Rightarrow> reply res \<times> store"
where
  "decide_conflict_route uuid5 st fr now p workspace_id case_id b =
    with_event (actor_event st p (db_tenant_id b) (Some workspace_id) (lit ''conflict.decide'') (lit ''conflict_case'')
        (Some (uuid_str case_id))
        [(lit ''requested_status'', PStr (review_status_value (db_status b))),
         (lit ''requested_winner_value'', json_str_or_none (db_winner_value b))])
      (\<lambda>a s. handling unprocessable (replying 200 conflict_decision_response)
        (decide uuid5 fr now (db_tenant_id b) workspace_id case_id (db_status b) (db_winner_value b) (db_reason b) (Some a) s))"

record edge_body =
  eb_tenant_id :: uuid
  eb_workspace_id :: uuid
  eb_src_id :: uuid
  eb_dst_id :: uuid
  eb_edge_type :: memory_edge_type
  eb_weight :: real
  eb_provenance_item_id :: "uuid option"

definition missing_key :: except_table where
  "missing_key e = (if is_key_error e then Some (404, ErrorText e) else None)"

definition create_edge_route ::
  "stamp \<Rightarrow> uuid \<Rightarrow> datetime \<Rightarrow> principal \<Rightarrow> edge_body \<Rightarrow> store \<Rightarrow> reply res \<times> store"
where
  "create_edge_route st new_id now p b =
    with_event (actor_event st p (eb_tenant_id b) (Some (eb_workspace_id b)) (lit ''graph.edge.create'') (lit ''memory_edge'') None
        [(lit ''src_id'', json_id (eb_src_id b)), (lit ''dst_id'', json_id (eb_dst_id b)),
         (lit ''edge_type'', PStr (edge_type_value (eb_edge_type b)))])
      (\<lambda>a s. handling (excepts [missing_key, unprocessable]) (replying 201 graph_edge_response)
        (graph_link new_id now (eb_tenant_id b) (eb_workspace_id b) (eb_src_id b) (eb_dst_id b) (eb_edge_type b) (eb_weight b)
          (eb_provenance_item_id b) (Some a) s))"

definition neighbors_route ::
  "uuid \<Rightarrow> uuid \<Rightarrow> uuid \<Rightarrow> memory_edge_type option \<Rightarrow> int \<Rightarrow> datetime option \<Rightarrow> uuid option \<Rightarrow> store \<Rightarrow> reply"
where
  "neighbors_route item_id workspace_id tenant_id edge_type limit after_created_at after_edge_id s =
    (if (after_created_at = None) \<noteq> (after_edge_id = None) then
       Failed 422 (FixedText (lit ''after_created_at and after_edge_id must be supplied together''))
     else
       let safe_limit = max 1 (min limit 500);
           (rows, has_next, cursor) = page_rows safe_limit
             (graph_neighbors tenant_id workspace_id item_id edge_type after_created_at after_edge_id (safe_limit + 1) s)
       in Reply 200 (PDict
         [(lit ''tenant_id'', json_id tenant_id), (lit ''workspace_id'', json_id workspace_id), (lit ''item_id'', json_id item_id),
          (lit ''count'', json_count rows), (lit ''limit'', PInt safe_limit), (lit ''has_more'', PBool has_next),
          (lit ''next_after_created_at'', json_time_or_none (map_option me_created_at cursor)),
          (lit ''next_after_edge_id'', json_id_or_none (map_option me_id cursor)),
          (lit ''edges'', PList (map graph_edge_response rows))]))"

section \<open>Reindexing\<close>

definition index_event ::
  "stamp \<Rightarrow> principal \<Rightarrow> uuid \<Rightarrow> uuid \<Rightarrow> str \<Rightarrow> str \<Rightarrow> metadata \<Rightarrow> store \<Rightarrow> audit_event res \<times> store"
where
  "index_event st p tenant_id workspace_id action status md s =
    audit_record (sp_audit_id st) (sp_audited_at st) tenant_id (Some workspace_id) action (pr_name p) (audit_actor_type p)
      (lit ''workspace_vector_index'') (Some (uuid_str workspace_id)) status (Some md) s"

text \<open>The intent is recorded first; a failed run is recorded if it can be, and its exception goes on.\<close>

definition reindex_route ::
  "'x sync_op \<Rightarrow> embedding_service \<Rightarrow> real \<Rightarrow> stamp \<Rightarrow> stamp \<Rightarrow> principal \<Rightarrow> uuid \<Rightarrow> uuid
    \<Rightarrow> (embedding_metrics \<times> 'x) \<times> store \<Rightarrow> reply res \<times> (embedding_metrics \<times> 'x) \<times> store"
where
  "reindex_route sync svc duration st st2 p workspace_id tenant_id xs =
    (case index_event st p tenant_id workspace_id (lit ''embedding.reindex.intent'') (lit ''succeeded'')
            [(lit ''model'', PStr (es_model_name svc))] (snd xs) of
       (Inl e, s1) \<Rightarrow> (Inl e, fst xs, s1)
     | (Inr intent, s1) \<Rightarrow>
         (case reindex_all sync svc duration tenant_id workspace_id s1 (fst xs) of
            (Inl e, x1) \<Rightarrow>
              (Inl e, x1, snd (index_event st2 p tenant_id workspace_id (lit ''embedding.reindex'') (lit ''failed'')
                 [(lit ''intent_event_id'', json_id (ae_id intent)), (lit ''error_type'', PStr (type_name e))] s1))
          | (Inr n, x1) \<Rightarrow>
              (case index_event st2 p tenant_id workspace_id (lit ''embedding.reindex'') (lit ''succeeded'')
                      [(lit ''intent_event_id'', json_id (ae_id intent)), (lit ''reindexed_count'', PInt (int n)),
                       (lit ''model'', PStr (es_model_name svc))] s1 of
                 (Inl e, s2) \<Rightarrow> (Inl e, x1, s2)
               | (Inr _, s2) \<Rightarrow> (Inr (Reply 202 (PDict [(lit ''reindexed_count'', PInt (int n))])), x1, s2))))"

end
