(* ===== verification/ApiVault.thy ===== *)
theory ApiVault
  imports ApiOperator
begin

text \<open>
  The vault, checkpoint and readiness routes of \<open>api/app.py\<close>. The vault routes record their action after
  the change; checkpoint writes pass their audit event to the store.
\<close>

section \<open>The vault\<close>

definition vault_note_dict :: "vault_file \<Rightarrow> pyval" where
  "vault_note_dict f = PDict [(lit ''path'', PStr (vf_path f)), (lit ''content'', PStr (vf_content f)),
     (lit ''editable_content'', PStr (editable_vault_content (vf_content f)))]"

definition export_vault_route :: "runtime \<Rightarrow> uuid \<Rightarrow> uuid \<Rightarrow> store \<Rightarrow> reply" where
  "export_vault_route rt workspace_id tenant_id s =
    (let files = export_vault rt tenant_id workspace_id s in Reply 200 (PDict
      [(lit ''tenant_id'', json_id tenant_id), (lit ''workspace_id'', json_id workspace_id), (lit ''file_count'', json_count files),
       (lit ''files'', PList (map vault_note_dict files))]))"

definition issue_dict :: "health_issue \<Rightarrow> pyval" where
  "issue_dict i = PDict
    [(lit ''severity'', PStr (hi_severity i)), (lit ''code'', PStr (hi_code i)), (lit ''message'', PStr (hi_message i)),
     (lit ''item_id'', json_id_or_none (hi_item_id i)), (lit ''edge_id'', json_id_or_none (hi_edge_id i)),
     (lit ''observation_id'', json_id_or_none (hi_observation_id i))]"

definition vault_health_route :: "uuid \<Rightarrow> uuid \<Rightarrow> store \<Rightarrow> reply" where
  "vault_health_route workspace_id tenant_id s =
    (let r = inspect tenant_id workspace_id s; number = (\<lambda>n. PInt (int n)) in Reply 200 (PDict
      [(lit ''tenant_id'', json_id (hr_tenant_id r)), (lit ''workspace_id'', json_id (hr_workspace_id r)),
       (lit ''healthy'', PBool (healthy r)), (lit ''memory_count'', number (hr_memory_count r)),
       (lit ''edge_count'', number (hr_edge_count r)), (lit ''observation_count'', number (hr_observation_count r)),
       (lit ''recallable_head_count'', number (hr_recallable_head_count r)),
       (lit ''unlinked_head_count'', number (hr_unlinked_head_count r)), (lit ''error_count'', number (error_count r)),
       (lit ''warning_count'', number (warning_count r)), (lit ''issues'', PList (map issue_dict (hr_issues r)))]))"

definition change_dict :: "vault_change \<Rightarrow> pyval" where
  "change_dict c = PDict
    [(lit ''path'', PStr (vc_path c)), (lit ''action'', PStr (vc_action c)), (lit ''item_id'', json_id_or_none (vc_item_id c)),
     (lit ''expected_revision'', case vc_expected_revision c of None \<Rightarrow> PNone | Some n \<Rightarrow> PInt n),
     (lit ''new_item_id'', json_id_or_none (vc_new_item_id c)), (lit ''message'', PStr (vc_message c))]"

definition import_vault_route ::
  "vault_env \<Rightarrow> privacy_guard option \<Rightarrow> stamp \<Rightarrow> (nat \<Rightarrow> fresh) \<Rightarrow> principal \<Rightarrow> uuid \<Rightarrow> uuid \<Rightarrow> bool \<Rightarrow> vault_file list
    \<Rightarrow> store \<Rightarrow> reply res \<times> store"
where
  "import_vault_route env retention st fr p workspace_id tenant_id dry_run files s =
    handling (excepts [unavailable, unprocessable])
      (\<lambda>changes. recording
        (record_action st p tenant_id (Some workspace_id)
          (if dry_run then lit ''vault.import.plan'' else lit ''vault.import.apply'') (lit ''vault'') None
          [(lit ''dry_run'', PBool dry_run), (lit ''file_count'', json_count files),
           (lit ''supersede_count'', PInt (int (supersede_count changes)))])
        (Reply 200 (PDict [(lit ''tenant_id'', json_id tenant_id), (lit ''workspace_id'', json_id workspace_id),
           (lit ''dry_run'', PBool dry_run), (lit ''supersede_count'', PInt (int (supersede_count changes))),
           (lit ''changes'', PList (map change_dict changes))])))
      (if dry_run then (Inr (plan_import env tenant_id workspace_id files s), s)
       else apply_import env retention fr tenant_id workspace_id files s)"

definition archive_vault_route ::
  "vault_env \<Rightarrow> privacy_guard option \<Rightarrow> stamp \<Rightarrow> fresh \<Rightarrow> principal \<Rightarrow> uuid \<Rightarrow> uuid \<Rightarrow> vault_file \<Rightarrow> store
    \<Rightarrow> reply res \<times> store"
where
  "archive_vault_route env retention st fr p workspace_id tenant_id file s =
    handling (excepts [unavailable, unprocessable])
      (\<lambda>change. recording
        (record_action st p tenant_id (Some workspace_id) (lit ''vault.archive'') (lit ''vault_file'') (Some (vf_path file))
          [(lit ''change_count'', PInt 1)])
        (Reply 200 (PDict [(lit ''tenant_id'', json_id tenant_id), (lit ''workspace_id'', json_id workspace_id),
           (lit ''dry_run'', PBool False), (lit ''changes'', PList [change_dict change])])))
      (archive_file env retention fr tenant_id workspace_id file s)"

record patch_body =
  hb_tenant_id :: uuid
  hb_expected_revision :: int
  hb_replace_body :: "str option"
  hb_replace_section :: "(str \<times> str) option"
  hb_confidence :: "real option"
  hb_idempotency_key :: "str option"

definition patch_table :: except_table where
  "patch_table = excepts [not_found (lit ''memory item not found''),
     \<lambda>e. (case e of MemoryRevisionConflictError _ _ _ \<Rightarrow> Some (409, ErrorText e) | _ \<Rightarrow> None), unavailable, unprocessable]"

definition patch_vault_route ::
  "vault_env \<Rightarrow> privacy_guard option \<Rightarrow> stamp \<Rightarrow> fresh \<Rightarrow> principal \<Rightarrow> uuid \<Rightarrow> uuid \<Rightarrow> patch_body \<Rightarrow> store
    \<Rightarrow> reply res \<times> store"
where
  "patch_vault_route env retention st fr p workspace_id item_id b s =
    handling patch_table
      (\<lambda>r. recording
        (record_action st p (hb_tenant_id b) (Some workspace_id) (lit ''vault.memory.patch'') (lit ''memory_item'')
          (Some (uuid_str (mi_id (vr_item r))))
          [(lit ''parent_item_id'', json_id item_id), (lit ''expected_revision'', PInt (hb_expected_revision b)),
           (lit ''revision'', PInt (mi_revision (vr_item r))), (lit ''changed'', PBool (vr_changed r)),
           (lit ''patch_kind'', PStr (if hb_replace_section b = None then lit ''body'' else lit ''section'')),
           (lit ''reindex_queued'', PBool (vr_queued_event_ids r \<noteq> []))])
        (Reply 200 (PDict [(lit ''tenant_id'', json_id (hb_tenant_id b)), (lit ''workspace_id'', json_id workspace_id),
           (lit ''item_id'', json_id (mi_id (vr_item r))), (lit ''supersedes_id'', json_id_or_none (mi_supersedes_id (vr_item r))),
           (lit ''revision'', PInt (mi_revision (vr_item r))), (lit ''changed'', PBool (vr_changed r)),
           (lit ''reindex_queued'', PBool (vr_queued_event_ids r \<noteq> [])),
           (lit ''queued_event_ids'', PList (map json_id (vr_queued_event_ids r)))])))
      (case vault_patch_post_init
          \<lparr>vp_tenant_id = hb_tenant_id b, vp_workspace_id = workspace_id, vp_item_id = item_id,
           vp_expected_revision = hb_expected_revision b, vp_replace_body = hb_replace_body b,
           vp_section_heading = map_option fst (hb_replace_section b),
           vp_section_content = map_option snd (hb_replace_section b), vp_confidence = hb_confidence b,
           vp_idempotency_key = hb_idempotency_key b\<rparr> of
         Inl e \<Rightarrow> (Inl e, s) | Inr c \<Rightarrow> patch_memory env retention fr c s)"

section \<open>Checkpoints\<close>

definition checkpoint_event ::
  "stamp \<Rightarrow> principal \<Rightarrow> uuid \<Rightarrow> uuid \<Rightarrow> str \<Rightarrow> str \<Rightarrow> str option \<Rightarrow> metadata \<Rightarrow> audit_event res"
where
  "checkpoint_event st p tenant_id workspace_id action resource_type resource_id md =
    actor_event st p tenant_id (Some workspace_id) action resource_type resource_id md"

definition save_checkpoint_route ::
  "stamp \<Rightarrow> uuid \<Rightarrow> datetime \<Rightarrow> principal \<Rightarrow> uuid \<Rightarrow> uuid \<Rightarrow> uuid \<Rightarrow> metadata \<Rightarrow> checkpoint_state
    \<Rightarrow> reply res \<times> checkpoint_state"
where
  "save_checkpoint_route st new_id now p tenant_id workspace_id thread_id state =
    with_event (checkpoint_event st p tenant_id workspace_id (lit ''checkpoint.save'') (lit ''checkpoint'') None
        [(lit ''thread_id'', json_id thread_id)])
      (\<lambda>a s. handling revision_conflict (replying 201 checkpoint_response)
        (service_save get_head save_if_head new_id now tenant_id workspace_id thread_id state (Some a) s))"

definition update_checkpoint_route ::
  "stamp \<Rightarrow> uuid \<Rightarrow> datetime \<Rightarrow> principal \<Rightarrow> uuid \<Rightarrow> uuid \<Rightarrow> uuid \<Rightarrow> metadata \<Rightarrow> int \<Rightarrow> checkpoint_state
    \<Rightarrow> reply res \<times> checkpoint_state"
where
  "update_checkpoint_route st new_id now p thread_id tenant_id workspace_id state expected_revision =
    with_event (checkpoint_event st p tenant_id workspace_id (lit ''checkpoint.update'') (lit ''checkpoint'') None
        [(lit ''thread_id'', json_id thread_id), (lit ''expected_revision'', PInt expected_revision)])
      (\<lambda>a s. handling revision_conflict (replying 200 checkpoint_response)
        (service_update get_head save_if_head new_id now tenant_id workspace_id thread_id state expected_revision (Some a) s))"

definition checkpoint_or_404 :: "str \<Rightarrow> checkpoint option \<Rightarrow> reply" where
  "checkpoint_or_404 msg cp = (case cp of None \<Rightarrow> Failed 404 (FixedText msg) | Some c \<Rightarrow> Reply 200 (checkpoint_response c))"

definition restore_checkpoint_route :: "uuid \<Rightarrow> uuid \<Rightarrow> checkpoint_state \<Rightarrow> reply" where
  "restore_checkpoint_route thread_id tenant_id s =
    checkpoint_or_404 (lit ''checkpoint not found'') (service_restore tenant_id thread_id s)"

definition restore_revision_route :: "uuid \<Rightarrow> int \<Rightarrow> uuid \<Rightarrow> checkpoint_state \<Rightarrow> reply" where
  "restore_revision_route thread_id revision tenant_id s =
    checkpoint_or_404 (lit ''checkpoint revision not found'') (service_restore_revision tenant_id thread_id revision s)"

definition list_checkpoints_route :: "uuid \<Rightarrow> uuid \<Rightarrow> checkpoint_state \<Rightarrow> reply" where
  "list_checkpoints_route workspace_id tenant_id s =
    Reply 200 (PList (map checkpoint_response (service_list tenant_id workspace_id None 0 s)))"

definition checkpoints_page_route :: "uuid \<Rightarrow> uuid \<Rightarrow> int \<Rightarrow> int \<Rightarrow> checkpoint_state \<Rightarrow> reply" where
  "checkpoints_page_route workspace_id tenant_id limit offset s =
    (let safe_limit = max 1 (min limit 500); safe_offset = max 0 offset;
         heads = service_list tenant_id workspace_id (Some (safe_limit + 1)) safe_offset s;
         has_next = safe_limit < int (length heads); rows = py_take safe_limit heads
     in Reply 200 (PDict
       [(lit ''checkpoints'', PList (map checkpoint_response rows)), (lit ''limit'', PInt safe_limit),
        (lit ''offset'', PInt safe_offset), (lit ''has_more'', PBool has_next),
        (lit ''next_offset'', if has_next then PInt (safe_offset + int (length rows)) else PNone)]))"

definition compact_checkpoint_route ::
  "stamp \<Rightarrow> principal \<Rightarrow> uuid \<Rightarrow> uuid \<Rightarrow> uuid \<Rightarrow> int \<Rightarrow> checkpoint_state \<Rightarrow> reply res \<times> checkpoint_state"
where
  "compact_checkpoint_route st p thread_id tenant_id workspace_id keep_last =
    with_event (checkpoint_event st p tenant_id workspace_id (lit ''checkpoint.compact'') (lit ''checkpoint_thread'')
        (Some (uuid_str thread_id)) [(lit ''keep_last'', PInt keep_last)])
      (\<lambda>a s. case service_compact tenant_id thread_id keep_last (Some a) s of
        (deleted, s1) \<Rightarrow> (Inr (Reply 200 (PDict [(lit ''deleted'', PInt deleted)])), s1))"

section \<open>Readiness\<close>

definition worker_snapshot :: "str list \<Rightarrow> int \<Rightarrow> uuid \<Rightarrow> datetime \<Rightarrow> store \<Rightarrow> worker_readiness" where
  "worker_snapshot required_workers ttl tenant now s =
    (if required_workers = [] then \<lparr>wr_required = [], wr_observed_at = 0\<rparr>
     else read_worker_readiness tenant required_workers ttl now s)"

definition worker_row_dict :: "worker_kind_readiness \<Rightarrow> pyval" where
  "worker_row_dict r = PDict [(lit ''kind'', PStr (wk_worker_kind r)),
     (lit ''status'', PStr (if wk_ready r then lit ''ready'' else lit ''not_ready'')),
     (lit ''fresh_instances'', PInt (int (wk_fresh_instances r))), (lit ''stale_instances'', PInt (int (wk_stale_instances r)))]"

definition worker_pipeline_dict :: "worker_readiness option \<Rightarrow> str list \<Rightarrow> pyval" where
  "worker_pipeline_dict snapshot required_workers =
    (let row = (\<lambda>status required n missing stale. PDict [(lit ''status'', PStr status), (lit ''required'', PList required),
         (lit ''ready_count'', PInt (int n)), (lit ''missing'', PList (map PStr missing)), (lit ''stale'', PList (map PStr stale))]) in
     if required_workers = [] then row (lit ''not_configured'') [] 0 [] []
     else case snapshot of
       None \<Rightarrow> row (lit ''unavailable'') (map PStr required_workers) 0 required_workers []
     | Some w \<Rightarrow> row (if wr_ready w then lit ''ready'' else lit ''not_ready'') (map worker_row_dict (wr_required w))
         (length (filter wk_ready (wr_required w))) (missing_kinds w) (stale_kinds w))"

definition source_row_dict :: "source_state \<Rightarrow> pyval" where
  "source_row_dict st = PDict [(lit ''status'', PStr (sh_status st)), (lit ''failures'', PInt (int (sh_failures st))),
     (lit ''error_type'', json_str_or_none (sh_error_type st))]"

text \<open>\<open>ping\<close> is the store's answer, \<open>None\<close> when it has none or raises; version and build are given.\<close>

definition readiness_route ::
  "bool option \<Rightarrow> str \<Rightarrow> pyval \<Rightarrow> str list \<Rightarrow> int \<Rightarrow> uuid \<Rightarrow> datetime \<Rightarrow> source_health \<Rightarrow> store \<Rightarrow> reply"
where
  "readiness_route ping version build required_workers ttl tenant now health s =
    (let canonical = (ping = Some True);
         snapshot = (if canonical then Some (worker_snapshot required_workers ttl tenant now s) else None);
         workers = (required_workers = [] \<or> (case snapshot of None \<Rightarrow> False | Some w \<Rightarrow> wr_ready w));
         ok = (canonical \<and> workers);
         degraded = list_ex (\<lambda>st. sh_status st = lit ''degraded'') (dict_values health)
     in Reply (if ok then 200 else 503) (PDict
       [(lit ''status'', PStr (if \<not> ok then lit ''not_ready'' else if degraded then lit ''degraded'' else lit ''ready'')),
        (lit ''version'', PStr version), (lit ''build'', build),
        (lit ''canonical_store'', PStr (if canonical then lit ''healthy'' else lit ''failed'')),
        (lit ''retrieval_sources'', PDict (map (\<lambda>(n, st). (n, source_row_dict st)) health)),
        (lit ''worker_pipeline'', worker_pipeline_dict snapshot required_workers)]))"

end
