(* ===== verification/ApiListing.thy ===== *)
theory ApiListing
  imports ApiVault
begin

text \<open>
  What the paged routes answer: a page of the newest rows, whether more follow, and a cursor whose page
  goes on where this one stopped. The audit export asks a service that clamps one row lower than the
  route does, so its largest page never says that more rows follow.
\<close>

definition reply_field :: "reply \<Rightarrow> str \<Rightarrow> pyval option" where
  "reply_field r k = (case r of Reply _ (PDict d) \<Rightarrow> dict_get d k | _ \<Rightarrow> None)"

lemma page_rows_take:
  assumes "1 \<le> n"
  shows "page_rows n (take (nat (n + 1)) rows) = (take (nat n) rows, n < int (length rows),
    if n < int (length rows) then Some (rows ! (nat n - 1)) else None)"
proof -
  have t: "py_take n (take (nat (n + 1)) rows) = take (nat n) rows" using assms by simp
  have m: "n < int (length (take (nat (n + 1)) rows)) \<longleftrightarrow> n < int (length rows)" using assms by auto
  have "last (take (nat n) rows) = rows ! (nat n - 1)" "take (nat n) rows \<noteq> []" if "n < int (length rows)"
  proof -
    have "length (take (nat n) rows) = nat n" "0 < nat n" using that assms by auto
    then show "take (nat n) rows \<noteq> []" by auto
    then show "last (take (nat n) rows) = rows ! (nat n - 1)"
      using \<open>length (take (nat n) rows) = nat n\<close> \<open>0 < nat n\<close> by (simp add: last_conv_nth)
  qed
  then show ?thesis using t m by (auto simp: page_rows_def Let_def)
qed

lemma page_rows_all: "int (length rows) \<le> n \<Longrightarrow> page_rows n rows = (rows, False, None)"
  by (simp add: page_rows_def Let_def)

context keyset_listing
begin

lemma route_first_page:
  "1 \<le> n \<Longrightarrow> page_rows n (page s q None (n + 1)) = (take (nat n) (full s q), n < int (length (full s q)),
    if n < int (length (full s q)) then Some (full s q ! (nat n - 1)) else None)"
  by (simp add: first_page page_rows_take)

lemma route_next_page:
  assumes "ok s" and "1 \<le> n" and "n < int (length (full s q))"
  shows "fst (page_rows n (page s q (Some (key (full s q ! (nat n - 1)))) (n + 1))) = take (nat n) (drop (nat n) (full s q))"
proof -
  have "Suc (nat n - 1) = nat n" "nat n - 1 < length (full s q)" using assms(2,3) by auto
  then show ?thesis
    using next_page [OF assms(1), of "n + 1" "nat n - 1" q] assms(2) by (simp add: page_rows_take)
qed

end

section \<open>Transcripts\<close>

definition turn_answer :: "conversation_turn list \<Rightarrow> pyval" where
  "turn_answer rows = PList (map (\<lambda>t. PDict (conversation_turn_response t None)) rows)"

lemma turn_route_fields:
  assumes "page_rows (max 1 (min limit 200)) (list_turns t w th ns c i (max 1 (min limit 200) + 1) s) = (rows, b, cursor)"
  shows "reply_field (list_turns_route t w th ns limit c i s) (lit ''turns'') = Some (turn_answer rows)"
    "reply_field (list_turns_route t w th ns limit c i s) (lit ''has_more'') = Some (PBool b)"
    "reply_field (list_turns_route t w th ns limit c i s) (lit ''next_before_created_at'')
      = Some (json_time_or_none (map_option ct_created_at cursor))"
    "reply_field (list_turns_route t w th ns limit c i s) (lit ''next_before_turn_id'')
      = Some (json_id_or_none (map_option ct_id cursor))"
  unfolding list_turns_route_def Let_def assms turn_answer_def reply_field_def by (simp_all add: lit_def)

text \<open>
  (unlisted): The transcript listing can be walked: it answers the newest turns up to the clamped limit, says
  that more follow exactly when some are left, and the page asked for with the cursor it gives holds the
  turns right after them.
\<close>

theorem turn_listing_walks:
  assumes "table_turns_ok s" and "n = max 1 (min limit 200)"
    and "full = sort_key_desc (\<lambda>turn. (ct_created_at turn, ct_id turn)) (turn_rows s (t, w, th, ns))"
    and "R = list_turns_route t w th ns limit None None s"
  shows "reply_field R (lit ''turns'') = Some (turn_answer (take (nat n) full))
    \<and> reply_field R (lit ''has_more'') = Some (PBool (n < int (length full)))
    \<and> (n < int (length full) \<longrightarrow> (let c = full ! (nat n - 1) in
         reply_field R (lit ''next_before_created_at'') = Some (json_time (ct_created_at c))
         \<and> reply_field R (lit ''next_before_turn_id'') = Some (json_id (ct_id c))
         \<and> reply_field (list_turns_route t w th ns limit (Some (ct_created_at c)) (Some (ct_id c)) s) (lit ''turns'')
             = Some (turn_answer (take (nat n) (drop (nat n) full)))))"
proof -
  let ?q = "(t, w, th, ns)"
  have n: "1 \<le> n" using assms(2) by simp
  have full: "turn_listing.full s ?q = full" by (simp add: turn_listing.full_def assms(3))
  have first: "page_rows (max 1 (min limit 200)) (list_turns t w th ns None None (max 1 (min limit 200) + 1) s)
      = (take (nat n) full, n < int (length full), if n < int (length full) then Some (full ! (nat n - 1)) else None)"
    using turn_listing.route_first_page [OF n, of s ?q] unfolding full by (simp add: turn_page_def assms(2))
  have after: "reply_field (list_turns_route t w th ns limit (Some (ct_created_at c)) (Some (ct_id c)) s) (lit ''turns'')
      = Some (turn_answer (take (nat n) (drop (nat n) full)))" if "n < int (length full)" "c = full ! (nat n - 1)" for c
  proof -
    obtain rows b cursor where p: "page_rows (max 1 (min limit 200))
        (list_turns t w th ns (Some (ct_created_at c)) (Some (ct_id c)) (max 1 (min limit 200) + 1) s) = (rows, b, cursor)"
      using prod_cases3 by blast
    have "rows = take (nat n) (drop (nat n) full)"
      using turn_listing.route_next_page [OF assms(1) n, of ?q] that p unfolding full by (simp add: turn_page_def assms(2))
    then show ?thesis using turn_route_fields(1) [OF p] by simp
  qed
  show ?thesis
    using turn_route_fields [OF first] after unfolding assms(4)
    by (auto simp: json_time_or_none_def json_id_or_none_def Let_def)
qed

section \<open>The audit export\<close>

definition audit_answer :: "audit_event list \<Rightarrow> pyval" where
  "audit_answer rows = PList (map audit_event_response rows)"

lemma audit_route_fields:
  assumes "page_rows (max 1 (min limit 500)) (audit_list_events t w a r None c i (max 1 (min limit 500) + 1) s) = (rows, b, cursor)"
  shows "reply_field (list_audit_route t w a r limit c i s) (lit ''events'') = Some (audit_answer rows)"
    "reply_field (list_audit_route t w a r limit c i s) (lit ''has_more'') = Some (PBool b)"
    "reply_field (list_audit_route t w a r limit c i s) (lit ''next_before_event_id'')
      = Some (json_id_or_none (map_option ae_id cursor))"
  unfolding list_audit_route_def Let_def assms audit_answer_def reply_field_def by (simp_all add: lit_def)

text \<open>
  C38: The audit export walks like the transcript listing only below its largest page. It answers the
  newest matching rows up to the clamped limit; but with a limit of 500 or more it says that nothing
  follows and gives no cursor, however many rows are left.
\<close>

theorem audit_export_stops_short:
  assumes "audit_ok s" and "n = max 1 (min limit 500)"
    and "full = sort_key_desc (\<lambda>e. (ae_created_at e, ae_id e)) (audit_rows s (t, w, a, r, None))"
    and "R = list_audit_route t w a r limit None None s"
  shows "reply_field R (lit ''events'') = Some (audit_answer (take (nat n) full))
    \<and> reply_field R (lit ''has_more'') = Some (PBool (limit < 500 \<and> n < int (length full)))
    \<and> (500 \<le> limit \<longrightarrow> reply_field R (lit ''next_before_event_id'') = Some PNone)
    \<and> (limit < 500 \<and> n < int (length full) \<longrightarrow> (let c = full ! (nat n - 1) in
         reply_field R (lit ''next_before_event_id'') = Some (json_id (ae_id c))
         \<and> reply_field (list_audit_route t w a r limit (Some (ae_created_at c)) (Some (ae_id c)) s) (lit ''events'')
             = Some (audit_answer (take (nat n) (drop (nat n) full)))))"
proof -
  let ?q = "(t, w, a, r, None)"
  have n: "1 \<le> n" using assms(2) by simp
  have full: "audit_listing.full s ?q = full" by (simp add: audit_listing.full_def assms(3))
  have ask: "audit_list_events t w a r None c i (max 1 (min limit 500) + 1) s
      = list_audit_events t w a r None c i (if limit < 500 then n + 1 else 500) s" for c i
    by (simp add: audit_list_events_def assms(2))
  show ?thesis
  proof (cases "limit < 500")
    case True
    have first: "page_rows (max 1 (min limit 500)) (audit_list_events t w a r None None None (max 1 (min limit 500) + 1) s)
        = (take (nat n) full, n < int (length full), if n < int (length full) then Some (full ! (nat n - 1)) else None)"
      using audit_listing.route_first_page [OF n, of s ?q] True unfolding full ask by (simp add: audit_page_def assms(2))
    have after: "reply_field (list_audit_route t w a r limit (Some (ae_created_at c)) (Some (ae_id c)) s) (lit ''events'')
        = Some (audit_answer (take (nat n) (drop (nat n) full)))" if "n < int (length full)" "c = full ! (nat n - 1)" for c
    proof -
      obtain rows b cursor where p: "page_rows (max 1 (min limit 500))
          (audit_list_events t w a r None (Some (ae_created_at c)) (Some (ae_id c)) (max 1 (min limit 500) + 1) s) = (rows, b, cursor)"
        using prod_cases3 by blast
      have "rows = take (nat n) (drop (nat n) full)"
        using audit_listing.route_next_page [OF assms(1) n, of ?q] that p True unfolding full ask
        by (simp add: audit_page_def assms(2))
      then show ?thesis using audit_route_fields(1) [OF p] by simp
    qed
    show ?thesis
      using audit_route_fields [OF first] after True unfolding assms(4) by (auto simp: json_id_or_none_def Let_def)
  next
    case False
    then have m: "n = 500" using assms(2) by simp
    have "list_audit_events t w a r None None None 500 s = take 500 full"
      using audit_listing.first_page [of 500 s ?q] unfolding full by (simp add: audit_page_def)
    then have first: "page_rows (max 1 (min limit 500)) (audit_list_events t w a r None None None (max 1 (min limit 500) + 1) s)
        = (take (nat n) full, False, None)"
      using False page_rows_all [of "take 500 full" 500] unfolding ask by (simp add: m)
    show ?thesis
      using audit_route_fields [OF first] False unfolding assms(4) by (auto simp: json_id_or_none_def)
  qed
qed

section \<open>Concrete pages\<close>

theorem turn_listing_walks_witness:
  "reply_field (list_turns_route 7 8 None None 1 None None two_turns) (lit ''has_more'') = Some (PBool True)
   \<and> reply_field (list_turns_route 7 8 None None 1 (Some 50) (Some 2) two_turns) (lit ''turns'')
      = Some (turn_answer [sample_turn 1 7 8 40 (Some 80)])"
proof -
  let ?full = "sort_key_desc (\<lambda>turn. (ct_created_at turn, ct_id turn)) (turn_rows two_turns (7, 8, None, None))"
  have full: "?full = [sample_turn 2 7 8 50 (Some 90), sample_turn 1 7 8 40 (Some 80)]" by code_simp
  have t: "table_turns_ok two_turns" by (rule turns_ok_table [OF two_turns_ok])
  have c: "ct_created_at (sample_turn 2 7 8 50 (Some 90)) = 50" "ct_id (sample_turn 2 7 8 50 (Some 90)) = 2"
    by (simp_all add: sample_turn_def)
  show ?thesis
    using turn_listing_walks [OF t refl refl refl, where limit = 1 and t = 7 and w = 8 and th = None and ns = None] unfolding full by (simp add: c)
qed

primrec many_audits :: "nat \<Rightarrow> store" where
  "many_audits 0 = empty_store"
| "many_audits (Suc k) = snd (append_audit_event (sample_audit (of_nat (Suc k)) 7 (int k)) (many_audits k))"

lemma many_audits_ok: "audit_ok (many_audits k)"
proof (induction k)
  case 0
  then show ?case by (simp add: audit_ok_def empty_store_def table_ok_def)
next
  case (Suc k)
  then show ?case by (simp add: audit_ok_append)
qed

lemma many_audits_rows:
  "k \<le> 1000 \<Longrightarrow> st_audit_events (many_audits k) = map (\<lambda>i. (of_nat (Suc i), sample_audit (of_nat (Suc i)) 7 (int i))) [0..<k]"
proof (induction k)
  case (Suc k)
  have ne: "of_nat (Suc k) \<noteq> (of_nat (Suc i) :: uuid)" if "i < k" for i
  proof
    assume "of_nat (Suc k) = (of_nat (Suc i) :: uuid)"
    then have "unat (of_nat (Suc k) :: uuid) = unat (of_nat (Suc i) :: uuid)" by simp
    moreover have "Suc k < 2 ^ 128" "Suc i < 2 ^ 128" using Suc.prems that by simp_all
    ultimately show False using that by (simp add: unat_of_nat del: of_nat_Suc)
  qed
  have rows: "st_audit_events (many_audits k) = map (\<lambda>i. (of_nat (Suc i), sample_audit (of_nat (Suc i)) 7 (int i))) [0..<k]"
    using Suc by simp
  have new: "of_nat (Suc k) \<notin> fst ` set (st_audit_events (many_audits k))"
  proof
    assume "of_nat (Suc k) \<in> fst ` set (st_audit_events (many_audits k))"
    then obtain i where "i < k" "of_nat (Suc k) = (of_nat (Suc i) :: uuid)" unfolding rows by auto
    with ne show False by blast
  qed
  then have none: "dict_get (st_audit_events (many_audits k)) (of_nat (Suc k)) = None"
    by (simp add: map_of_eq_None_iff del: of_nat_Suc)
  have id: "ae_id (sample_audit i t m) = i" for i t m by (simp add: sample_audit_def)
  have "st_audit_events (many_audits (Suc k))
      = st_audit_events (many_audits k) @ [(of_nat (Suc k), sample_audit (of_nat (Suc k)) 7 (int k))]"
    using none by (simp add: append_audit_event_def Let_def dict_setdefault_def id dict_set_new [OF new] del: of_nat_Suc)
  then show ?case using Suc by (simp del: of_nat_Suc)
qed (simp add: empty_store_def)

theorem audit_export_stops_short_witness:
  "reply_field (list_audit_route 7 None None None 500 None None (many_audits 501)) (lit ''has_more'') = Some (PBool False)
   \<and> length (audit_rows (many_audits 501) (7, None, None, None, None)) = 501"
proof -
  have m: "audit_matches 7 None None None None (sample_audit i 7 t)" for i t
    by (simp add: audit_matches_def sample_audit_def)
  have "audit_rows (many_audits 501) (7, None, None, None, None) = dict_values (st_audit_events (many_audits 501))"
    by (simp add: audit_rows_def many_audits_rows m o_def filter_map del: of_nat_Suc upt_Suc)
  then have "length (audit_rows (many_audits 501) (7, None, None, None, None)) = 501"
    by (simp add: many_audits_rows del: upt_Suc)
  moreover have "reply_field (list_audit_route 7 None None None 500 None None (many_audits 501)) (lit ''has_more'') = Some (PBool False)"
    using audit_export_stops_short [OF many_audits_ok [of 501] refl refl refl,
      where limit = 500 and t = 7 and w = None and a = None and r = None] by simp
  ultimately show ?thesis by blast
qed

end
