(* ===== verification/Replay.thy ===== *)
theory Replay
  imports EventEnvelope StoreAudit StoreItems
begin

text \<open>
  The explanation of a past recall (\<open>services/replay.py\<close>): the audit row of the recall is decoded
  defensively, field by field and within fixed bounds, and the selected memories are looked up again by
  identity, without their text.
\<close>

section \<open>Bounded readers\<close>

definition uuid_tuple :: "runtime \<Rightarrow> pyval \<Rightarrow> uuid list" where
  "uuid_tuple rt v = (case v of
     PList rows \<Rightarrow> List.map_filter (\<lambda>row. case parse_uuid (py_str rt row) of Inl e \<Rightarrow> None | Inr u \<Rightarrow> Some u) (take 1000 rows)
   | _ \<Rightarrow> [])"

definition bounded_text :: "pyval \<Rightarrow> str \<Rightarrow> str" where
  "bounded_text v default_text = (case v of PStr s \<Rightarrow> take 256 s | _ \<Rightarrow> default_text)"

definition text_tuple :: "pyval \<Rightarrow> str list" where
  "text_tuple v = (case v of PList rows \<Rightarrow> map (\<lambda>row. bounded_text row (lit ''unknown'')) (take 32 rows) | _ \<Rightarrow> [])"

definition bounded_int :: "pyval \<Rightarrow> nat" where
  "bounded_int v = (case py_int v of Inl e \<Rightarrow> 0 | Inr n \<Rightarrow> nat (max 0 (min n 1000000)))"

definition decode_freshness :: "pyval \<Rightarrow> index_freshness option" where
  "decode_freshness v = (case v of
     PDict d \<Rightarrow> (let field = (\<lambda>k. bounded_int (py_get d k)) in
       Some \<lparr>ix_active_memory_count = field (lit ''active_memory_count''),
             ix_stale_memory_count = field (lit ''stale_memory_count''),
             ix_unpublished_memory_count = field (lit ''unpublished_memory_count''),
             ix_processing_memory_count = field (lit ''processing_memory_count''),
             ix_dead_letter_memory_count = field (lit ''dead_letter_memory_count''),
             ix_missing_delivery_memory_count = field (lit ''missing_delivery_memory_count'')\<rparr>)
   | _ \<Rightarrow> None)"

text \<open>\<open>v in {...}\<close>: a list or a dictionary is unhashable.\<close>

definition in_texts :: "pyval \<Rightarrow> str list \<Rightarrow> bool res" where
  "in_texts v texts = (case v of
     PList _ \<Rightarrow> Inl (TypeError (lit ''unhashable type'')) | PDict _ \<Rightarrow> Inl (TypeError (lit ''unhashable type''))
   | PStr s \<Rightarrow> Inr (s \<in> set texts) | _ \<Rightarrow> Inr False)"

definition text_of :: "pyval \<Rightarrow> str" where
  "text_of v = (case v of PStr s \<Rightarrow> s | _ \<Rightarrow> [])"

text \<open>One row of the stored traversal: dropped, decoded, or an exception.\<close>

definition decode_step :: "nat \<Rightarrow> pyval \<Rightarrow> retrieval_trace_step option res" where
  "decode_step index row = (case row of
     PDict d \<Rightarrow>
       res_bind (in_texts (py_get d (lit ''stage'')) [lit ''source'', lit ''fusion'']) (\<lambda>staged.
       if \<not> staged then Inr None
       else res_bind (in_texts (py_get d (lit ''status'')) [lit ''succeeded'', lit ''degraded'']) (\<lambda>known.
       if \<not> known then Inr None
       else (let name = text_of (py_get d (lit ''name'')); error = text_of (py_get d (lit ''error_type'')) in
         if name = [] \<or> 64 < length name then Inr None
         else (case trace_step_post_init
             \<lparr>ts_sequence = int index, ts_stage = text_of (py_get d (lit ''stage'')), ts_name = name,
              ts_status = text_of (py_get d (lit ''status'')),
              ts_candidate_count = int (bounded_int (py_get d (lit ''candidate_count''))),
              ts_accepted_count = int (bounded_int (py_get d (lit ''accepted_count''))),
              ts_selected_count = int (bounded_int (py_get d (lit ''selected_count''))),
              ts_error_type = (if error = [] then None else Some (take 128 error))\<rparr> of
             Inl e \<Rightarrow> Inr None | Inr st \<Rightarrow> Inr (Some st)))))
   | _ \<Rightarrow> Inr None)"

fun decode_steps :: "nat \<Rightarrow> pyval list \<Rightarrow> retrieval_trace_step list res" where
  "decode_steps index [] = Inr []"
| "decode_steps index (row # rows) =
    res_bind (decode_step index row) (\<lambda>found. res_bind (decode_steps (Suc index) rows) (\<lambda>steps.
      Inr (case found of None \<Rightarrow> steps | Some st \<Rightarrow> st # steps)))"

definition retrieval_traversal :: "pyval \<Rightarrow> retrieval_trace_step list res" where
  "retrieval_traversal v = (case v of PList rows \<Rightarrow> decode_steps 1 (take 64 rows) | _ \<Rightarrow> Inr [])"

section \<open>The replay\<close>

record replay_reference =
  rf_item_id :: uuid
  rf_layer :: str
  rf_status :: str
  rf_revision :: int

record recall_replay =
  rp_audit_event :: audit_event
  rp_operation :: str
  rp_query_sha256 :: str
  rp_query_chars :: nat
  rp_candidate_count :: nat
  rp_sources_used :: "str list"
  rp_index_stale :: bool
  rp_index_freshness :: "index_freshness option"
  rp_context_budget_tokens :: nat
  rp_context_used_tokens :: nat
  rp_trace_ids :: "uuid list"
  rp_traversal :: "retrieval_trace_step list"
  rp_references :: "replay_reference list"

definition replay_reference_of :: "uuid \<Rightarrow> uuid \<Rightarrow> store \<Rightarrow> uuid \<Rightarrow> replay_reference option" where
  "replay_reference_of tenant_id workspace_id s item_id =
    (case get_item tenant_id item_id s of
       None \<Rightarrow> None
     | Some item \<Rightarrow> if mi_workspace_id item \<noteq> workspace_id then None
         else Some \<lparr>rf_item_id = mi_id item, rf_layer = layer_value (mi_layer item),
                    rf_status = status_value (mi_status item), rf_revision = mi_revision item\<rparr>)"

definition recall_event :: "uuid \<Rightarrow> uuid \<Rightarrow> uuid \<Rightarrow> store \<Rightarrow> audit_event res" where
  "recall_event tenant_id workspace_id event_id s =
    (case audit_get_event tenant_id event_id s of
       None \<Rightarrow> Inl (KeyError (lit ''recall replay not found''))
     | Some e \<Rightarrow>
         if ae_workspace_id e \<noteq> Some workspace_id then Inl (KeyError (lit ''recall replay not found''))
         else if ae_action e \<noteq> lit ''memory.recall'' \<or> ae_resource_type e \<noteq> lit ''memory_recall'' then
           Inl (ValueError (lit ''audit event is not a recall replay''))
         else Inr e)"

definition replay_get :: "runtime \<Rightarrow> uuid \<Rightarrow> uuid \<Rightarrow> uuid \<Rightarrow> store \<Rightarrow> recall_replay res" where
  "replay_get rt tenant_id workspace_id event_id s =
    res_bind (recall_event tenant_id workspace_id event_id s) (\<lambda>e.
      let field = py_get (ae_metadata e); trace_ids = uuid_tuple rt (field (lit ''trace_ids'')) in
      res_bind (retrieval_traversal (field (lit ''retrieval_traversal''))) (\<lambda>steps.
      Inr \<lparr>rp_audit_event = e, rp_operation = bounded_text (field (lit ''operation'')) (lit ''unknown''),
           rp_query_sha256 = bounded_text (field (lit ''query_sha256'')) [],
           rp_query_chars = bounded_int (field (lit ''query_chars'')),
           rp_candidate_count = bounded_int (field (lit ''candidate_count'')),
           rp_sources_used = text_tuple (field (lit ''sources_used'')),
           rp_index_stale = truthy (field (lit ''index_stale'')),
           rp_index_freshness = decode_freshness (field (lit ''index_freshness'')),
           rp_context_budget_tokens = bounded_int (field (lit ''context_budget_tokens'')),
           rp_context_used_tokens = bounded_int (field (lit ''context_used_tokens'')),
           rp_trace_ids = trace_ids, rp_traversal = steps,
           rp_references = List.map_filter (replay_reference_of tenant_id workspace_id s) trace_ids\<rparr>))"

end
