(* ===== verification/ApiMemory.thy ===== *)
theory ApiMemory
  imports ApiReplies Replay Context Ingestion Reflection
begin

text \<open>
  The routes agents use (\<open>api/app.py\<close>): retaining, recalling and superseding memories, listing them,
  ingesting text, reflecting, the session seed and the replay of a recall, transcripts and proposals. A
  body is the validated model of its request; identities and instants are arguments.
\<close>

section \<open>Memories\<close>

record retain_body =
  rb_tenant_id :: uuid
  rb_workspace_id :: uuid
  rb_layer :: memory_layer
  rb_scope :: memory_scope
  rb_kind :: str
  rb_text :: str
  rb_source_kind :: str
  rb_agent_id :: "uuid option"
  rb_thread_id :: "uuid option"
  rb_labels :: "str list"
  rb_importance :: real
  rb_confidence :: real
  rb_status :: memory_status
  rb_idempotency_key :: "str option"

definition retain_body_command :: "retain_body \<Rightarrow> retain_command" where
  "retain_body_command b = \<lparr>rc_tenant_id = rb_tenant_id b, rc_workspace_id = rb_workspace_id b, rc_layer = rb_layer b,
     rc_scope = rb_scope b, rc_kind = rb_kind b, rc_text = rb_text b,
     rc_provenance = \<lparr>pv_source_kind = rb_source_kind b, pv_origin_uri = None, pv_object_key = None,
       pv_checksum_sha256 = None, pv_quote = None, pv_extraction_version = lit ''manual-v1''\<rparr>,
     rc_agent_id = rb_agent_id b, rc_thread_id = rb_thread_id b, rc_labels = rb_labels b,
     rc_importance = rb_importance b, rc_confidence = rb_confidence b, rc_metadata = [], rc_status = rb_status b,
     rc_idempotency_key = rb_idempotency_key b\<rparr>"

definition retain_route ::
  "privacy_guard \<Rightarrow> stamp \<Rightarrow> fresh \<Rightarrow> principal \<Rightarrow> retain_body \<Rightarrow> store \<Rightarrow> reply res \<times> store"
where
  "retain_route g st fr p b =
    with_event (actor_event st p (rb_tenant_id b) (Some (rb_workspace_id b)) (lit ''memory.retain'') (lit ''memory_item'') None
        [(lit ''layer'', PStr (layer_value (rb_layer b))), (lit ''status'', PStr (status_value (rb_status b))),
         (lit ''source_kind'', PStr (rb_source_kind b))])
      (\<lambda>a s. handling unprocessable (replying 201 memory_write_response)
        (retain_service g fr (retain_body_command b) (Some a) s))"

record supersede_body =
  sb_tenant_id :: uuid
  sb_text :: str
  sb_expected_revision :: int
  sb_confidence :: "real option"
  sb_idempotency_key :: "str option"

definition supersede_route ::
  "privacy_guard \<Rightarrow> stamp \<Rightarrow> fresh \<Rightarrow> principal \<Rightarrow> uuid \<Rightarrow> supersede_body \<Rightarrow> store \<Rightarrow> reply res \<times> store"
where
  "supersede_route g st fr p item_id b =
    with_event (actor_event st p (sb_tenant_id b) None (lit ''memory.supersede'') (lit ''memory_item'') None
        [(lit ''supersedes_id'', json_id item_id), (lit ''expected_revision'', PInt (sb_expected_revision b))])
      (\<lambda>a s. handling (excepts [not_found (lit ''memory item not found''), revision_conflict, unprocessable])
        (replying 201 memory_write_response)
        (case supersede_command_post_init
            \<lparr>sm_tenant_id = sb_tenant_id b, sm_item_id = item_id, sm_replacement_text = sb_text b,
             sm_expected_revision = sb_expected_revision b, sm_confidence = sb_confidence b, sm_status = None,
             sm_idempotency_key = sb_idempotency_key b\<rparr> of
           Inl e \<Rightarrow> (Inl e, s) | Inr c \<Rightarrow> supersede_service g fr c (Some a) s))"

definition memory_row_response :: "memory_item \<Rightarrow> pyval" where
  "memory_row_response m = PDict
    [(lit ''id'', json_id (mi_id m)), (lit ''layer'', PStr (layer_value (mi_layer m))),
     (lit ''scope'', PStr (scope_value (mi_scope m))), (lit ''status'', PStr (status_value (mi_status m))),
     (lit ''kind'', PStr (mi_kind m)), (lit ''text'', PStr (mi_text m)), (lit ''labels'', PList (map PStr (mi_labels m))),
     (lit ''confidence'', PFloat (mi_confidence m)), (lit ''revision'', PInt (mi_revision m)),
     (lit ''supersedes_id'', json_id_or_none (mi_supersedes_id m)), (lit ''created_at'', json_time (mi_created_at m))]"

definition list_memories_route ::
  "uuid \<Rightarrow> uuid \<Rightarrow> memory_layer option \<Rightarrow> memory_status option \<Rightarrow> str option \<Rightarrow> int \<Rightarrow> int \<Rightarrow> store \<Rightarrow> reply"
where
  "list_memories_route workspace_id tenant_id layer status label limit offset s =
    (let safe_limit = max 1 (min limit 500); safe_offset = max 0 offset;
         found = list_items tenant_id workspace_id (case layer of None \<Rightarrow> [] | Some l \<Rightarrow> [l]) status label
           (Some (safe_limit + 1)) safe_offset s;
         has_next = safe_limit < int (length found); rows = py_take safe_limit found
     in Reply 200 (PDict
       [(lit ''tenant_id'', json_id tenant_id), (lit ''workspace_id'', json_id workspace_id), (lit ''count'', json_count rows),
        (lit ''limit'', PInt safe_limit), (lit ''offset'', PInt safe_offset), (lit ''has_more'', PBool has_next),
        (lit ''next_offset'', if has_next then PInt (safe_offset + int (length rows)) else PNone),
        (lit ''memories'', PList (map memory_row_response rows))]))"

record ingest_text_body =
  ib_tenant_id :: uuid
  ib_workspace_id :: uuid
  ib_text :: str
  ib_origin_uri :: str
  ib_agent_id :: "uuid option"
  ib_thread_id :: "uuid option"
  ib_labels :: "str list"
  ib_chunk_size_chars :: int
  ib_chunk_overlap_chars :: int

definition ingest_response :: "ingest_result \<Rightarrow> pyval" where
  "ingest_response r = PDict
    [(lit ''document_checksum'', PStr (ir_document_checksum r)), (lit ''memory_ids'', PList (map json_id (ir_memory_ids r))),
     (lit ''created_count'', PInt (int (ir_created_count r)))]"

text \<open>The defaults of \<open>IngestDocumentCommand\<close> stand for the fields the body does not have.\<close>

definition ingest_text_route ::
  "(str \<Rightarrow> str) \<Rightarrow> privacy_guard \<Rightarrow> (nat \<Rightarrow> fresh) \<Rightarrow> ingest_text_body \<Rightarrow> store \<Rightarrow> reply res \<times> store"
where
  "ingest_text_route sha256 g fr b s =
    handling unprocessable (replying 202 ingest_response)
      (case ingest_document_post_init
          \<lparr>id_tenant_id = ib_tenant_id b, id_workspace_id = ib_workspace_id b, id_text = ib_text b,
           id_origin_uri = ib_origin_uri b, id_agent_id = ib_agent_id b, id_thread_id = ib_thread_id b,
           id_labels = ib_labels b, id_chunk_size_chars = ib_chunk_size_chars b,
           id_chunk_overlap_chars = ib_chunk_overlap_chars b, id_document_checksum = None,
           id_source_kind = lit ''document'', id_extraction_version = lit ''text-chunker-v1''\<rparr> of
         Inl e \<Rightarrow> (Inl e, s) | Inr c \<Rightarrow> ingest_text sha256 g fr c s)"

definition reflect_route ::
  "(str \<Rightarrow> uuid) \<Rightarrow> (nat \<Rightarrow> reflection_fresh) \<Rightarrow> principal \<Rightarrow> uuid \<Rightarrow> uuid \<Rightarrow> store \<Rightarrow> reply res \<times> store"
where
  "reflect_route uuid5 fr p workspace_id tenant_id s =
    handling no_except (replying 202 (\<lambda>observations. PDict
        [(lit ''created'', json_count observations),
         (lit ''observation_ids'', PList (map (\<lambda>b. json_id (ob_id b)) observations))]))
      (reflect uuid5 fr tenant_id workspace_id (pr_name p) (audit_actor_type p) s)"

definition session_seed_route :: "uuid \<Rightarrow> uuid \<Rightarrow> int \<Rightarrow> store \<Rightarrow> reply" where
  "session_seed_route workspace_id tenant_id budget_tokens s =
    (let seed = build_seed tenant_id workspace_id budget_tokens s in Reply 200 (PDict
      [(lit ''tenant_id'', json_id tenant_id), (lit ''workspace_id'', json_id workspace_id),
       (lit ''budget_tokens'', PInt (sd_budget_tokens seed)), (lit ''used_tokens'', PInt (sd_used_tokens seed)),
       (lit ''trace_ids'', PList (map json_id (sd_trace_ids seed))), (lit ''markdown'', PStr (sd_markdown seed))]))"

section \<open>Recall and its replay\<close>

record recall_body =
  lb_tenant_id :: uuid
  lb_workspace_id :: uuid
  lb_query :: str
  lb_agent_id :: "uuid option"
  lb_thread_id :: "uuid option"
  lb_layers :: "memory_layer list"
  lb_labels :: "str list"
  lb_top_k :: int
  lb_minimum_score :: real
  lb_operation :: str
  lb_context_budget_tokens :: int
  lb_context_per_layer_limit :: int

definition recall_body_query :: "recall_body \<Rightarrow> recall_query" where
  "recall_body_query b = \<lparr>rq_tenant_id = lb_tenant_id b, rq_workspace_id = lb_workspace_id b, rq_text = lb_query b,
     rq_agent_id = lb_agent_id b, rq_thread_id = lb_thread_id b, rq_layers = lb_layers b, rq_labels = lb_labels b,
     rq_valid_at = None, rq_top_k = lb_top_k b, rq_minimum_score = lb_minimum_score b\<rparr>"

definition all_layers :: "memory_layer list" where
  "all_layers = [Working, Core, Episodic, Semantic, Procedural, Social, Reflection, Error]"

definition recall_recipe :: "recall_body \<Rightarrow> context_recipe" where
  "recall_recipe b = \<lparr>cr_operation = lb_operation b, cr_budget_tokens = lb_context_budget_tokens b,
     cr_layer_order = [Semantic, Reflection, Procedural, Episodic, Error, Social],
     cr_per_layer_limit = map (\<lambda>l. (l, lb_context_per_layer_limit b)) all_layers,
     cr_always_include = [Core, Working]\<rparr>"

definition step_dict :: "retrieval_trace_step \<Rightarrow> pyval" where
  "step_dict st = PDict
    [(lit ''sequence'', PInt (ts_sequence st)), (lit ''stage'', PStr (ts_stage st)), (lit ''name'', PStr (ts_name st)),
     (lit ''status'', PStr (ts_status st)), (lit ''candidate_count'', PInt (ts_candidate_count st)),
     (lit ''accepted_count'', PInt (ts_accepted_count st)), (lit ''selected_count'', PInt (ts_selected_count st)),
     (lit ''error_type'', json_str_or_none (ts_error_type st))]"

definition freshness_dict :: "index_freshness option \<Rightarrow> pyval" where
  "freshness_dict f = (case f of None \<Rightarrow> PNone | Some x \<Rightarrow> PDict
    [(lit ''active_memory_count'', PInt (int (ix_active_memory_count x))),
     (lit ''stale_memory_count'', PInt (int (ix_stale_memory_count x))),
     (lit ''unpublished_memory_count'', PInt (int (ix_unpublished_memory_count x))),
     (lit ''processing_memory_count'', PInt (int (ix_processing_memory_count x))),
     (lit ''dead_letter_memory_count'', PInt (int (ix_dead_letter_memory_count x))),
     (lit ''missing_delivery_memory_count'', PInt (int (ix_missing_delivery_memory_count x)))])"

definition recall_metadata :: "(str \<Rightarrow> str) \<Rightarrow> recall_body \<Rightarrow> recall_result \<Rightarrow> context_package \<Rightarrow> metadata" where
  "recall_metadata sha256 b result package =
    [(lit ''query_sha256'', PStr (sha256 (lb_query b))), (lit ''query_chars'', PInt (int (length (lb_query b)))),
     (lit ''operation'', PStr (take 256 (lb_operation b))), (lit ''candidate_count'', json_count (rs_candidates result)),
     (lit ''candidate_ids'', PList (map (\<lambda>row. json_id (mi_id (ca_item row))) (rs_candidates result))),
     (lit ''sources_used'', PList (map PStr (rs_sources_used result))),
     (lit ''retrieval_traversal'', PList (map step_dict (rs_traversal result))),
     (lit ''index_stale'', PBool (rs_index_stale result)),
     (lit ''index_freshness'', freshness_dict (rs_index_freshness result)),
     (lit ''context_budget_tokens'', PInt (cx_budget_tokens package)),
     (lit ''context_per_layer_limit'', PInt (lb_context_per_layer_limit b)),
     (lit ''context_used_tokens'', PInt (cx_used_tokens package)),
     (lit ''trace_ids'', PList (map json_id (cx_trace_ids package)))]"

definition result_row :: "candidate \<Rightarrow> pyval" where
  "result_row row = PDict
    [(lit ''id'', json_id (mi_id (ca_item row))), (lit ''text'', PStr (mi_text (ca_item row))),
     (lit ''layer'', PStr (layer_value (mi_layer (ca_item row)))), (lit ''status'', PStr (status_value (mi_status (ca_item row)))),
     (lit ''score'', PFloat (ca_final_score row)), (lit ''source'', PStr (ca_source row))]"

definition recall_response :: "audit_event \<Rightarrow> recall_result \<Rightarrow> context_package \<Rightarrow> pyval" where
  "recall_response e result package = PDict
    [(lit ''replay_id'', json_id (ae_id e)), (lit ''results'', PList (map result_row (rs_candidates result))),
     (lit ''sources_used'', PList (map PStr (rs_sources_used result))),
     (lit ''retrieval_traversal'', PList (map step_dict (rs_traversal result))),
     (lit ''index_stale'', PBool (rs_index_stale result)),
     (lit ''index_freshness'', freshness_dict (rs_index_freshness result)),
     (lit ''context'', PDict
       [(lit ''operation'', PStr (cx_operation package)), (lit ''used_tokens'', PInt (cx_used_tokens package)),
        (lit ''budget_tokens'', PInt (cx_budget_tokens package)), (lit ''markdown'', PStr (render_markdown package)),
        (lit ''trace_ids'', PList (map json_id (cx_trace_ids package)))])]"

definition recall_context ::
  "datetime \<Rightarrow> recall_body \<Rightarrow> retrieval_service \<Rightarrow> (recall_result \<times> context_package) res \<times> retrieval_service"
where
  "recall_context now b r =
    (case recall_query_post_init (recall_body_query b) of
       Inl e \<Rightarrow> (Inl e, r)
     | Inr q \<Rightarrow>
         (case recall now q r of
            (Inl e, r1) \<Rightarrow> (Inl e, r1)
          | (Inr result, r1) \<Rightarrow>
              (res_bind (context_recipe_post_init (recall_recipe b)) (\<lambda>recipe.
                 Inr (result, compile_context result recipe)), r1)))"

definition recall_route ::
  "(str \<Rightarrow> str) \<Rightarrow> stamp \<Rightarrow> datetime \<Rightarrow> principal \<Rightarrow> recall_body \<Rightarrow> retrieval_service \<times> store
    \<Rightarrow> reply res \<times> retrieval_service \<times> store"
where
  "recall_route sha256 st now p b rs =
    (case recall_context now b (fst rs) of
       (Inl e, r1) \<Rightarrow> (Inl e, r1, snd rs)
     | (Inr (result, package), r1) \<Rightarrow>
         (case record_action st p (lb_tenant_id b) (Some (lb_workspace_id b)) (lit ''memory.recall'') (lit ''memory_recall'') None
                 (recall_metadata sha256 b result package) (snd rs) of
            (Inl e, s1) \<Rightarrow> (Inl e, r1, s1)
          | (Inr event, s1) \<Rightarrow> (Inr (Reply 200 (recall_response event result package)), r1, s1)))"

definition reference_dict :: "replay_reference \<Rightarrow> pyval" where
  "reference_dict r = PDict [(lit ''id'', json_id (rf_item_id r)), (lit ''layer'', PStr (rf_layer r)),
     (lit ''status'', PStr (rf_status r)), (lit ''revision'', PInt (rf_revision r))]"

definition replay_response :: "uuid \<Rightarrow> recall_replay \<Rightarrow> pyval" where
  "replay_response workspace_id r =
    (let e = rp_audit_event r in PDict
    [(lit ''id'', json_id (ae_id e)), (lit ''tenant_id'', json_id (ae_tenant_id e)), (lit ''workspace_id'', json_id workspace_id),
     (lit ''created_at'', json_time (ae_created_at e)), (lit ''actor'', PStr (ae_actor e)),
     (lit ''actor_type'', PStr (ae_actor_type e)), (lit ''operation'', PStr (rp_operation r)),
     (lit ''query_sha256'', PStr (rp_query_sha256 r)), (lit ''query_chars'', PInt (int (rp_query_chars r))),
     (lit ''candidate_count'', PInt (int (rp_candidate_count r))), (lit ''sources_used'', PList (map PStr (rp_sources_used r))),
     (lit ''index_stale'', PBool (rp_index_stale r)), (lit ''index_freshness'', freshness_dict (rp_index_freshness r)),
     (lit ''context_budget_tokens'', PInt (int (rp_context_budget_tokens r))),
     (lit ''context_used_tokens'', PInt (int (rp_context_used_tokens r))),
     (lit ''trace_ids'', PList (map json_id (rp_trace_ids r))),
     (lit ''retrieval_traversal'', PList (map step_dict (rp_traversal r))),
     (lit ''references'', PList (map reference_dict (rp_references r)))])"

definition recall_replay_route :: "runtime \<Rightarrow> uuid \<Rightarrow> uuid \<Rightarrow> uuid \<Rightarrow> store \<Rightarrow> reply res \<times> store" where
  "recall_replay_route rt workspace_id audit_event_id tenant_id s =
    handling (excepts [not_found (lit ''recall replay not found''), unprocessable]) (replying 200 (replay_response workspace_id))
      (replay_get rt tenant_id workspace_id audit_event_id s, s)"

end
