(* ===== verification/ApiReplay.thy ===== *)
theory ApiReplay
  imports ApiListing ApiMemory ApiRules
begin

text \<open>
  A recall and its explanation: what the recall route records in the audit trail is what the replay
  route gives back later, within the bounds of the reader, and nothing of the query but its digest and
  its length.
\<close>

section \<open>Reading a traversal back\<close>

lemma bounded_int_PInt [simp]: "bounded_int (PInt n) = nat (max 0 (min n 1000000))"
  by (simp add: bounded_int_def)

lemma py_get_found: "dict_get d k = Some v \<Longrightarrow> py_get d k = v"
  by (simp add: py_get_def)

lemma decode_step_dict:
  assumes "valid_trace_step st" and "ts_sequence st = int index"
  shows "decode_step index (step_dict st) = Inr (Some st)"
proof -
  have v: "ts_stage st = lit ''source'' \<or> ts_stage st = lit ''fusion''" "ts_status st = lit ''succeeded'' \<or> ts_status st = lit ''degraded''"
    "ts_name st \<noteq> []" "length (ts_name st) \<le> 64" "trace_count_ok (ts_candidate_count st)"
    "trace_count_ok (ts_accepted_count st)" "trace_count_ok (ts_selected_count st)"
    using assms(1) by (auto simp: valid_trace_step_def)
  have e: "text_of (json_str_or_none (ts_error_type st)) = (case ts_error_type st of None \<Rightarrow> [] | Some x \<Rightarrow> x)"
    by (simp add: json_str_or_none_def text_of_def split: option.splits)
  have r: "(if (case ts_error_type st of None \<Rightarrow> [] | Some x \<Rightarrow> x) = [] then None
      else Some (take 128 (case ts_error_type st of None \<Rightarrow> [] | Some x \<Rightarrow> x))) = ts_error_type st"
    using assms(1) by (auto simp: valid_trace_step_def split: option.splits)
  have counts: "int (bounded_int (PInt n)) = n" if "trace_count_ok n" for n
    using that by (simp add: trace_count_ok_def)
  define d where "d = [(lit ''sequence'', PInt (ts_sequence st)), (lit ''stage'', PStr (ts_stage st)), (lit ''name'', PStr (ts_name st)),
     (lit ''status'', PStr (ts_status st)), (lit ''candidate_count'', PInt (ts_candidate_count st)),
     (lit ''accepted_count'', PInt (ts_accepted_count st)), (lit ''selected_count'', PInt (ts_selected_count st)),
     (lit ''error_type'', json_str_or_none (ts_error_type st))]"
  have g: "py_get d (lit ''stage'') = PStr (ts_stage st)" "py_get d (lit ''name'') = PStr (ts_name st)"
    "py_get d (lit ''status'') = PStr (ts_status st)" "py_get d (lit ''candidate_count'') = PInt (ts_candidate_count st)"
    "py_get d (lit ''accepted_count'') = PInt (ts_accepted_count st)" "py_get d (lit ''selected_count'') = PInt (ts_selected_count st)"
    "py_get d (lit ''error_type'') = json_str_or_none (ts_error_type st)"
    unfolding d_def py_get_def by (simp_all add: lit_def)
  have post: "trace_step_post_init
     \<lparr>ts_sequence = int index, ts_stage = ts_stage st, ts_name = ts_name st, ts_status = ts_status st,
      ts_candidate_count = ts_candidate_count st, ts_accepted_count = ts_accepted_count st,
      ts_selected_count = ts_selected_count st, ts_error_type = ts_error_type st\<rparr> = Inr st"
    unfolding assms(2) [symmetric] trace_step_post_init_Inr using assms(1) by (cases st) simp
  have "decode_step index (PDict d) = Inr (Some st)"
    unfolding decode_step_def pyval.case g e using v r post
    by (simp add: in_texts_def text_of_def counts del: bounded_int_PInt)
  then show ?thesis by (simp add: step_dict_def d_def)
qed

lemma decode_steps_dict:
  "\<forall>st \<in> set tr. valid_trace_step st \<Longrightarrow> map ts_sequence tr = map int [k..<k + length tr] \<Longrightarrow>
    decode_steps k (map step_dict tr) = Inr tr"
proof (induction tr arbitrary: k)
  case (Cons st tr)
  have "map ts_sequence (st # tr) = int k # map int [Suc k..<Suc k + length tr]"
    using Cons.prems(2) by (simp add: upt_rec)
  then have "ts_sequence st = int k" "map ts_sequence tr = map int [Suc k..<Suc k + length tr]" by simp_all
  with Cons show ?case by (simp add: decode_step_dict)
qed simp

lemma recall_trace:
  assumes "recall now q r = (Inr result, r1)"
  shows "trace_ok (rs_traversal result)" and "0 \<le> rq_top_k q \<Longrightarrow> length (rs_candidates result) \<le> nat (rq_top_k q)"
proof -
  obtain u g where g: "visit_sources (rt_required r) q (rt_sources r)
      \<lparr>ga_grouped = [], ga_used = [], ga_traversal = [], ga_health = rt_health r\<rparr> = (u, g)" by fastforce
  have ok: "groups_ok q (ga_grouped g) \<and> trace_ok (ga_traversal g)"
    by (rule visit_sources_ok [OF _ _ g]) (simp_all add: groups_ok_def trace_ok_def)
  obtain ranked tr where tr: "append_trace (fusion_step (length (ga_traversal g)) (length (ga_grouped g)) (length ranked)
      (length (py_take (rq_top_k q) ranked))) (ga_traversal g) = Inr tr"
    "result = \<lparr>rs_candidates = py_take (rq_top_k q) ranked, rs_sources_used = ga_used g,
       rs_index_stale = (case read_freshness (rt_staleness_check r) q of None \<Rightarrow> False | Some f \<Rightarrow> ix_stale f),
       rs_index_freshness = read_freshness (rt_staleness_check r) q, rs_traversal = tr\<rparr>"
    using assms g by (cases u) (auto simp: recall_def res_bind_Inr_iff Let_def)
  have "tr = ga_traversal g @ [fusion_step (length (ga_traversal g)) (length (ga_grouped g)) (length ranked)
      (length (py_take (rq_top_k q) ranked))]" "valid_trace_step (fusion_step (length (ga_traversal g)) (length (ga_grouped g))
      (length ranked) (length (py_take (rq_top_k q) ranked)))"
    using append_trace_Inr [OF tr(1)] by blast+
  with ok tr(2) show "trace_ok (rs_traversal result)" by (auto simp: trace_ok_def fusion_step_def)
  show "length (rs_candidates result) \<le> nat (rq_top_k q)" if "0 \<le> rq_top_k q"
    using tr(2) that by simp
qed

lemma retrieval_traversal_dict:
  assumes "trace_ok tr"
  shows "retrieval_traversal (PList (map step_dict tr)) = Inr tr"
proof -
  have seqs: "map ts_sequence tr = map int [1..<1 + length tr]" and v: "\<forall>st \<in> set tr. valid_trace_step st"
    using assms by (simp_all add: trace_ok_def)
  have "length tr \<le> 64"
  proof (cases tr rule: rev_cases)
    case (snoc xs x)
    have "ts_sequence x = map ts_sequence tr ! length xs" by (simp add: snoc nth_append)
    also have "\<dots> = map int [1..<1 + length tr] ! length xs" by (simp only: seqs)
    also have "\<dots> = int (length tr)" by (simp add: snoc del: upt_Suc)
    finally have "ts_sequence x = int (length tr)" .
    then show ?thesis using v snoc by (auto simp: valid_trace_step_def)
  qed simp
  then show ?thesis using decode_steps_dict [OF v seqs] by (simp add: retrieval_traversal_def)
qed

lemma uuid_tuple_ids: "uuid_tuple rt (PList (map json_id ids)) = take 1000 ids"
proof -
  have "List.map_filter (\<lambda>row. case parse_uuid (py_str rt row) of Inl e \<Rightarrow> None | Inr u \<Rightarrow> Some u) (map json_id xs) = xs" for xs
    by (induction xs) (simp_all add: json_id_def parse_uuid_str List.map_filter_def)
  then show ?thesis by (simp add: uuid_tuple_def take_map)
qed

text \<open>Counts above a million are cut.\<close>

definition cut_freshness :: "index_freshness \<Rightarrow> index_freshness" where
  "cut_freshness f = \<lparr>ix_active_memory_count = min 1000000 (ix_active_memory_count f),
     ix_stale_memory_count = min 1000000 (ix_stale_memory_count f),
     ix_unpublished_memory_count = min 1000000 (ix_unpublished_memory_count f),
     ix_processing_memory_count = min 1000000 (ix_processing_memory_count f),
     ix_dead_letter_memory_count = min 1000000 (ix_dead_letter_memory_count f),
     ix_missing_delivery_memory_count = min 1000000 (ix_missing_delivery_memory_count f)\<rparr>"

lemma decode_freshness_dict: "decode_freshness (freshness_dict f) = map_option cut_freshness f"
proof (cases f)
  case (Some x)
  define d where "d = [(lit ''active_memory_count'', PInt (int (ix_active_memory_count x))),
     (lit ''stale_memory_count'', PInt (int (ix_stale_memory_count x))),
     (lit ''unpublished_memory_count'', PInt (int (ix_unpublished_memory_count x))),
     (lit ''processing_memory_count'', PInt (int (ix_processing_memory_count x))),
     (lit ''dead_letter_memory_count'', PInt (int (ix_dead_letter_memory_count x))),
     (lit ''missing_delivery_memory_count'', PInt (int (ix_missing_delivery_memory_count x)))]"
  have g: "py_get d (lit ''active_memory_count'') = PInt (int (ix_active_memory_count x))"
    "py_get d (lit ''stale_memory_count'') = PInt (int (ix_stale_memory_count x))"
    "py_get d (lit ''unpublished_memory_count'') = PInt (int (ix_unpublished_memory_count x))"
    "py_get d (lit ''processing_memory_count'') = PInt (int (ix_processing_memory_count x))"
    "py_get d (lit ''dead_letter_memory_count'') = PInt (int (ix_dead_letter_memory_count x))"
    "py_get d (lit ''missing_delivery_memory_count'') = PInt (int (ix_missing_delivery_memory_count x))"
    unfolding d_def py_get_def by (simp_all add: lit_def)
  have n: "bounded_int (PInt (int k)) = min 1000000 k" for k by simp
  have "freshness_dict f = PDict d" by (simp add: Some freshness_dict_def d_def)
  then show ?thesis by (simp only: decode_freshness_def pyval.case Let_def g n cut_freshness_def Some option.map)
qed (simp add: freshness_dict_def decode_freshness_def)

section \<open>Replaying a recall\<close>

lemma record_action_new:
  assumes "record_action st p t w action rt rid md s = (Inr e, s1)" and "dict_get (st_audit_events s) (sp_audit_id st) = None"
  shows "e = \<lparr>ae_id = sp_audit_id st, ae_tenant_id = t, ae_workspace_id = w, ae_action = action, ae_actor = pr_name p,
      ae_actor_type = audit_actor_type p, ae_resource_type = rt, ae_resource_id = rid, ae_status = lit ''succeeded'',
      ae_metadata = md, ae_created_at = sp_audited_at st\<rparr>"
    and "s1 = s\<lparr>st_audit_events := dict_set (sp_audit_id st) e (st_audit_events s)\<rparr>"
  using assms
  by (auto simp: record_action_def audit_record_def append_audit_event_def Let_def dict_setdefault_def dict_index_def
      split: sum.splits dest!: audit_event_post_init_Inr)

lemma recall_context_Inr:
  assumes "recall_context now b r = (Inr (result, package), r1)"
  shows "recall now (recall_body_query b) r = (Inr result, r1)" and "1 \<le> lb_top_k b" and "lb_top_k b \<le> 1000"
    and "package = compile_context result (recall_recipe b)"
proof -
  have q: "recall_query_post_init (recall_body_query b) = Inr q \<Longrightarrow> q = recall_body_query b \<and> 1 \<le> lb_top_k b \<and> lb_top_k b \<le> 1000" for q
    by (auto simp: recall_query_post_init_def recall_body_query_def split: if_splits)
  show "recall now (recall_body_query b) r = (Inr result, r1)" "1 \<le> lb_top_k b" "lb_top_k b \<le> 1000"
    "package = compile_context result (recall_recipe b)"
    using assms q by (auto simp: recall_context_def res_bind_Inr_iff context_recipe_post_init_def split: sum.splits prod.splits if_splits)
qed

lemma recall_metadata_get:
  "py_get (recall_metadata sha b result package) (lit ''operation'') = PStr (take 256 (lb_operation b))"
  "py_get (recall_metadata sha b result package) (lit ''query_sha256'') = PStr (sha (lb_query b))"
  "py_get (recall_metadata sha b result package) (lit ''query_chars'') = PInt (int (length (lb_query b)))"
  "py_get (recall_metadata sha b result package) (lit ''candidate_count'') = json_count (rs_candidates result)"
  "py_get (recall_metadata sha b result package) (lit ''sources_used'') = PList (map PStr (rs_sources_used result))"
  "py_get (recall_metadata sha b result package) (lit ''index_stale'') = PBool (rs_index_stale result)"
  "py_get (recall_metadata sha b result package) (lit ''index_freshness'') = freshness_dict (rs_index_freshness result)"
  "py_get (recall_metadata sha b result package) (lit ''context_budget_tokens'') = PInt (cx_budget_tokens package)"
  "py_get (recall_metadata sha b result package) (lit ''context_used_tokens'') = PInt (cx_used_tokens package)"
  "py_get (recall_metadata sha b result package) (lit ''trace_ids'') = PList (map json_id (cx_trace_ids package))"
  "py_get (recall_metadata sha b result package) (lit ''retrieval_traversal'') = PList (map step_dict (rs_traversal result))"
  unfolding recall_metadata_def py_get_def by (simp_all add: lit_def)

lemma text_tuple_texts: "text_tuple (PList (map PStr xs)) = map (take 256) (take 32 xs)"
  by (simp add: text_tuple_def bounded_text_def take_map o_def)

lemma replayed_reference:
  assumes "x \<in> set (List.map_filter (replay_reference_of t w s) ids)"
  shows "\<exists>i m. i \<in> set ids \<and> get_item t i s = Some m \<and> mi_workspace_id m = w
    \<and> rf_item_id x = mi_id m \<and> rf_revision x = mi_revision m"
proof -
  obtain i where i: "i \<in> set ids" "replay_reference_of t w s i = Some x"
    using assms by (auto simp: List.map_filter_def)
  then show ?thesis by (auto simp: replay_reference_of_def split: option.splits if_splits)
qed

text \<open>
  C14: A recall can be explained afterwards: the replay of the identity a recall answered with reports its
  operation, candidate count, sources, traversal, freshness and selected memories as the recall used
  them, cut to the reader's bounds, and refers only to memories of that tenant and workspace; of the query
  it has the digest and the length.
\<close>

theorem recall_replayed:
  assumes "recall_route sha st now p b (r, s) = (Inr answer, r1, s1)"
    and "dict_get (st_audit_events s) (sp_audit_id st) = None" and "length (sha (lb_query b)) \<le> 256"
  shows "\<exists>result package rp. recall now (recall_body_query b) r = (Inr result, r1)
    \<and> package = compile_context result (recall_recipe b)
    \<and> reply_field answer (lit ''replay_id'') = Some (json_id (sp_audit_id st))
    \<and> replay_get rt (lb_tenant_id b) (lb_workspace_id b) (sp_audit_id st) s1 = Inr rp
    \<and> rp_operation rp = take 256 (lb_operation b) \<and> rp_candidate_count rp = length (rs_candidates result)
    \<and> rp_sources_used rp = map (take 256) (take 32 (rs_sources_used result)) \<and> rp_traversal rp = rs_traversal result
    \<and> rp_index_stale rp = rs_index_stale result \<and> rp_index_freshness rp = map_option cut_freshness (rs_index_freshness result)
    \<and> rp_trace_ids rp = take 1000 (cx_trace_ids package)
    \<and> rp_query_sha256 rp = sha (lb_query b) \<and> rp_query_chars rp = min 1000000 (length (lb_query b))
    \<and> (\<forall>x \<in> set (rp_references rp). \<exists>i m. i \<in> set (cx_trace_ids package) \<and> get_item (lb_tenant_id b) i s1 = Some m
         \<and> mi_workspace_id m = lb_workspace_id b \<and> rf_item_id x = mi_id m \<and> rf_revision x = mi_revision m)"
proof -
  let ?t = "lb_tenant_id b" and ?w = "lb_workspace_id b" and ?i = "sp_audit_id st"
  obtain result package where rc: "recall_context now b r = (Inr (result, package), r1)"
    using assms(1) by (auto simp: recall_route_def split: prod.splits sum.splits)
  define md where "md = recall_metadata sha b result package"
  obtain e where e: "record_action st p ?t (Some ?w) (lit ''memory.recall'') (lit ''memory_recall'') None md s = (Inr e, s1)"
    and answer: "answer = Reply 200 (recall_response e result package)"
    using assms(1) rc by (auto simp: recall_route_def md_def split: prod.splits sum.splits)
  note event = record_action_new [OF e assms(2)]
  note rec = recall_context_Inr [OF rc]
  have "audit_get_event ?t ?i s1 = Some e" using event by (simp add: audit_get_event_def get_audit_event_def)
  then have found: "recall_event ?t ?w ?i s1 = Inr e" using event(1) by (simp add: recall_event_def)
  have md: "ae_metadata e = md" using event(1) by simp
  have trace: "retrieval_traversal (PList (map step_dict (rs_traversal result))) = Inr (rs_traversal result)"
    by (rule retrieval_traversal_dict [OF recall_trace(1) [OF rec(1)]])
  have n: "bounded_int (PInt (int k)) = min 1000000 k" for k by simp
  have count: "length (rs_candidates result) \<le> 1000"
    using recall_trace(2) [OF rec(1)] rec(2,3) by (simp add: recall_body_query_def)
  let ?ids = "take 1000 (cx_trace_ids package)"
  have "replay_get rt ?t ?w ?i s1 = Inr \<lparr>rp_audit_event = e, rp_operation = take 256 (lb_operation b),
      rp_query_sha256 = sha (lb_query b), rp_query_chars = min 1000000 (length (lb_query b)),
      rp_candidate_count = length (rs_candidates result), rp_sources_used = map (take 256) (take 32 (rs_sources_used result)),
      rp_index_stale = rs_index_stale result, rp_index_freshness = map_option cut_freshness (rs_index_freshness result),
      rp_context_budget_tokens = bounded_int (PInt (cx_budget_tokens package)),
      rp_context_used_tokens = bounded_int (PInt (cx_used_tokens package)), rp_trace_ids = ?ids,
      rp_traversal = rs_traversal result, rp_references = List.map_filter (replay_reference_of ?t ?w s1) ?ids\<rparr>"
    unfolding replay_get_def found res_bind_simps md md_def Let_def recall_metadata_get trace uuid_tuple_ids
      text_tuple_texts decode_freshness_dict json_count_def n
    using assms(3) count by (simp add: bounded_text_def del: bounded_int_PInt)
  moreover have "\<exists>i m. i \<in> set (cx_trace_ids package) \<and> get_item ?t i s1 = Some m
         \<and> mi_workspace_id m = ?w \<and> rf_item_id x = mi_id m \<and> rf_revision x = mi_revision m"
    if "x \<in> set (List.map_filter (replay_reference_of ?t ?w s1) ?ids)" for x
    using that replayed_reference by (blast dest: in_set_takeD)
  moreover have "reply_field answer (lit ''replay_id'') = Some (json_id ?i)"
    unfolding answer recall_response_def reply_field_def using event(1) by (simp add: lit_def)
  ultimately show ?thesis
    using rec(1,4) by (intro exI [of _ result] exI [of _ package] exI conjI) (assumption | simp)+
qed

text \<open>A recall over one source, explained afterwards.\<close>

definition tea_recall :: recall_body where
  "tea_recall = \<lparr>lb_tenant_id = 7, lb_workspace_id = 8, lb_query = lit ''tea'', lb_agent_id = None,
     lb_thread_id = None, lb_layers = [], lb_labels = [], lb_top_k = 12, lb_minimum_score = 0,
     lb_operation = lit ''answer'', lb_context_budget_tokens = 2048, lb_context_per_layer_limit = 6\<rparr>"

lemma tea_recall_answers:
  obtains answer r1 s1 where
    "recall_route sha \<lparr>sp_audit_id = 5, sp_audited_at = 9\<rparr> 0 local_dev tea_recall
      (sample_retrieval [source_of (lit ''sql'') mixed_candidates], empty_store) = (Inr answer, r1, s1)"
proof -
  let ?q = "sample_query 7 8 (lit ''tea'')" and ?r = "sample_retrieval [source_of (lit ''sql'') mixed_candidates]"
  obtain u r' where call: "recall 0 ?q ?r = (u, r')" by fastforce
  moreover obtain res where u: "u = Inr res"
    using recall_returns [OF _ _ _ call]
    by (auto simp: sample_retrieval_def source_of_def volume_def mixed_candidates_def blocks_def fails_def)
  moreover have q: "recall_body_query tea_recall = ?q"
    by (simp add: recall_body_query_def tea_recall_def sample_query_def)
  moreover have "recall_query_post_init ?q = Inr ?q"
    by (simp add: recall_query_post_init_def sample_query_def blank_iff) (simp add: lit_def is_space_def)
  ultimately have rc: "recall_context 0 tea_recall ?r = (Inr (res, compile_context res (recall_recipe tea_recall)), r')"
    by (simp add: recall_context_def context_recipe_post_init_def recall_recipe_def) (simp add: tea_recall_def)
  have nb: "\<not> blank (lit ''memory.recall'')" "\<not> blank (lit ''memory_recall'')" "\<not> blank (pr_name local_dev)"
    "\<not> blank (audit_actor_type local_dev)" by code_simp+
  show thesis
    using that by (simp add: recall_route_def rc record_action_def audit_record_def audit_event_post_init_def nb append_audit_event_def Let_def
      dict_setdefault_def dict_index_def empty_store_def)
qed

theorem recall_replayed_witness:
  "\<exists>answer r1 s1 rp. recall_route (\<lambda>_. lit ''digest'') \<lparr>sp_audit_id = 5, sp_audited_at = 9\<rparr> 0 local_dev tea_recall
      (sample_retrieval [source_of (lit ''sql'') mixed_candidates], empty_store) = (Inr answer, r1, s1)
    \<and> replay_get (av_runtime sample_api_env) 7 8 5 s1 = Inr rp \<and> rp_query_chars rp = 3 \<and> rp_query_sha256 rp = lit ''digest''"
proof -
  let ?rs = "(sample_retrieval [source_of (lit ''sql'') mixed_candidates], empty_store)"
  obtain answer r1 s1 where c: "recall_route (\<lambda>_. lit ''digest'') \<lparr>sp_audit_id = 5, sp_audited_at = 9\<rparr> 0 local_dev tea_recall ?rs
      = (Inr answer, r1, s1)" by (rule tea_recall_answers)
  have ids: "lb_tenant_id tea_recall = 7" "lb_workspace_id tea_recall = 8" "length (lb_query tea_recall) = 3"
    by (simp_all add: tea_recall_def lit_def)
  have short: "length (lit ''digest'') \<le> 256" by (simp add: lit_def)
  have fresh: "dict_get (st_audit_events empty_store) (sp_audit_id \<lparr>sp_audit_id = 5, sp_audited_at = 9\<rparr>) = None"
    by (simp add: empty_store_def)
  show ?thesis
    using recall_replayed [OF c fresh short, of "av_runtime sample_api_env"] c ids by auto
qed

end
