(* ===== verification/ApiBoundary.thy ===== *)
theory ApiBoundary
  imports ApiReplay VaultRoundTrip
begin

text \<open>
  The middleware and the routes behind it, together: a revoked key is shut out of every later request, and
  the requests that the boundary of an agent's key lets through although the route reads another tenant,
  workspace or thread from them.
\<close>

section \<open>Revocation\<close>

text \<open>One row per fingerprint of a tenant.\<close>

definition registry_ok :: "store \<Rightarrow> bool" where
  "registry_ok s \<longleftrightarrow> api_keys_ok s \<and> (\<forall>i j r q. dict_get (st_api_keys s) i = Some r \<longrightarrow> dict_get (st_api_keys s) j = Some q \<longrightarrow>
    ak_tenant_id r = ak_tenant_id q \<longrightarrow> ak_secret_fingerprint r = ak_secret_fingerprint q \<longrightarrow> i = j)"

lemma no_fingerprint_hit:
  assumes "get_api_key_by_fingerprint t f s = None" and "dict_get (st_api_keys s) i = Some r"
  shows "\<not> (ak_tenant_id r = t \<and> ak_secret_fingerprint r = f)"
  using assms dict_get_values [OF assms(2)] by (auto simp: get_api_key_by_fingerprint_def find_None_iff)

lemma registry_write:
  assumes "registry_ok s" and "key_row_write s s'"
  shows "registry_ok s'"
  using assms(2) unfolding key_row_write_def
proof (elim disjE exE conjE)
  fix u
  assume w: "st_api_keys s' = dict_set (ak_id u) u (st_api_keys s)"
    and new: "dict_get (st_api_keys s) (ak_id u) = None"
      "get_api_key_by_fingerprint (ak_tenant_id u) (ak_secret_fingerprint u) s = None"
  have "api_keys_ok s'" using key_row_write_ok [OF _ assms(2)] assms(1) by (simp add: registry_ok_def)
  moreover have "\<not> (ak_tenant_id q = ak_tenant_id u \<and> ak_secret_fingerprint q = ak_secret_fingerprint u)"
    "\<not> (ak_tenant_id u = ak_tenant_id q \<and> ak_secret_fingerprint u = ak_secret_fingerprint q)"
    if "dict_get (st_api_keys s) j = Some q" for j q
    using no_fingerprint_hit [OF new(2) that] by auto
  ultimately show ?thesis
    using assms(1) unfolding registry_ok_def w by (auto split: if_splits)
next
  fix u r
  assume w: "st_api_keys s' = dict_set (ak_id u) u (st_api_keys s)" and r: "dict_get (st_api_keys s) (ak_id u) = Some r"
    and same: "ak_tenant_id u = ak_tenant_id r" "ak_secret_fingerprint u = ak_secret_fingerprint r"
  have "api_keys_ok s'" using key_row_write_ok [OF _ assms(2)] assms(1) by (simp add: registry_ok_def)
  then show ?thesis
    using assms(1) r same unfolding registry_ok_def w by (auto split: if_splits)
qed (use assms(1) in simp)

lemma registry_steps:
  assumes "api_key_step\<^sup>*\<^sup>* s s'" and "registry_ok s"
  shows "registry_ok s'"
  using assms
proof (induction rule: rtranclp_induct)
  case (step x y)
  then have "key_row_write x y" using api_key_step_write by (auto simp: registry_ok_def)
  with step show ?case using registry_write by blast
qed

lemma fingerprint_of_row:
  assumes "registry_ok s" and "dict_get (st_api_keys s) i = Some r"
  shows "get_api_key_by_fingerprint (ak_tenant_id r) (ak_secret_fingerprint r) s = Some r"
proof (cases "get_api_key_by_fingerprint (ak_tenant_id r) (ak_secret_fingerprint r) s")
  case None
  with no_fingerprint_hit assms(2) show ?thesis by blast
next
  case (Some q)
  have "api_keys_ok s" using assms(1) by (simp add: registry_ok_def)
  note hit = fingerprint_hit [OF this Some]
  then have "ak_id q = i" using assms unfolding registry_ok_def by metis
  with hit(1) assms(2) Some show ?thesis by simp
qed

text \<open>What a stored, revoked row does to a principal with its fingerprint.\<close>

lemma revoked_row:
  assumes "registry_ok s" and "dict_get (st_api_keys s) i = Some r" and "ak_revoked r"
    and "ak_tenant_id r = cf_tenant cf" and "given (pr_fingerprint p) = Some (ak_secret_fingerprint r)"
  shows "revoked cf s p"
  using fingerprint_of_row [OF assms(1,2)] assms(3-5) by (simp add: revoked_def ak_revoked_def)

lemma revoke_route_revokes:
  assumes "revoke_api_key_route st now p key_id t reason s = (Inr (Reply status v), s1)" and "api_keys_ok s"
  obtains s0 r where "api_key_step s s0" "st_api_keys s1 = st_api_keys s0" "dict_get (st_api_keys s) key_id = Some r"
    "ak_tenant_id r = t" "\<exists>u. dict_get (st_api_keys s0) key_id = Some u \<and> ak_revoked u
      \<and> ak_tenant_id u = t \<and> ak_secret_fingerprint u = ak_secret_fingerprint r"
proof -
  obtain u s0 where call: "revoke_api_key t key_id now reason s = (Inr u, s0)"
    using assms(1) by (cases "revoke_api_key t key_id now reason s")
      (auto simp: revoke_api_key_route_def handling_def not_found_def split: sum.splits if_splits)
  obtain r where r: "dict_get (st_api_keys s) key_id = Some r" "ak_tenant_id r = t"
    "api_key_post_init (r\<lparr>ak_revoked_at := Some now, ak_revoked_reason := reason\<rparr>) = Inr u"
    "s0 = s\<lparr>st_api_keys := dict_set key_id u (st_api_keys s)\<rparr>"
    using call by (auto simp: revoke_api_key_def split: option.splits if_splits sum.splits)
  have "st_api_keys s1 = st_api_keys s0"
    using assms(1) call audit_record_frame(1)
    by (auto simp: revoke_api_key_route_def handling_def recording_def record_action_def audit_record_def
        append_audit_event_def Let_def split: sum.splits prod.splits)
  moreover note k = api_key_post_init_keeps [OF r(3), simplified]
  have "\<exists>u. dict_get (st_api_keys s0) key_id = Some u \<and> ak_revoked u
      \<and> ak_tenant_id u = t \<and> ak_secret_fingerprint u = ak_secret_fingerprint r"
    using r k by (simp add: ak_revoked_def)
  ultimately show thesis using that [OF api_key_step.revoke [OF call] _ r(1,2)] by blast
qed

lemma registry_ok_cong: "st_api_keys s = st_api_keys s' \<Longrightarrow> registry_ok s = registry_ok s'"
  by (simp add: registry_ok_def api_keys_ok_def)

text \<open>
  C12: Revoking a key shuts it out: after the operator's route answered with the revoked record, whatever
  registry calls follow, no protected request passes as a principal with the key's fingerprint, by a bearer
  token or by a browser session signed before; presenting the secret is answered with 401.
\<close>

theorem revocation_shuts_out:
  assumes "api_key_step\<^sup>*\<^sup>* s0 s" and "st_api_keys s0 = []" and "dict_get (st_api_keys s) key_id = Some r"
    and "revoke_api_key_route st now p key_id (cf_tenant cf) reason s = (Inr (Reply status v), s1)"
    and "api_key_step\<^sup>*\<^sup>* s1 s2" and "auth_required cf"
    and "required_scope (hr_path req) (upper_method req) \<noteq> lit ''public''"
  shows "(\<forall>q c s3. require_api_key env cf new_id later req s2 = (Inr (Pass q c), s3) \<longrightarrow>
      (\<exists>q'. q = Some q' \<and> given (pr_fingerprint q') \<noteq> Some (ak_secret_fingerprint r)))
    \<and> (\<forall>credential q. hr_authorization req = Some (lit ''Bearer '' @ credential) \<longrightarrow>
      principal_for_credential env cf credential = Inr (Some q) \<longrightarrow>
      given (pr_fingerprint q) = Some (ak_secret_fingerprint r) \<longrightarrow>
      fst (require_api_key env cf new_id later req s2)
        = Inr (Refused 401 (detail (lit ''API key has been revoked'')) (lit ''revoked_credential'')))"
proof -
  have ok: "registry_ok s"
    by (rule registry_steps [OF assms(1)]) (simp add: registry_ok_def api_keys_ok_def table_ok_def assms(2))
  have tok: "api_keys_ok s" using ok by (simp add: registry_ok_def)
  obtain y u where y: "api_key_step s y" "st_api_keys s1 = st_api_keys y"
    and u: "dict_get (st_api_keys y) key_id = Some u" "ak_revoked u" "ak_tenant_id u = cf_tenant cf"
      "ak_secret_fingerprint u = ak_secret_fingerprint r"
    using revoke_route_revokes [OF assms(4) tok] assms(3) by (metis option.inject)
  have "registry_ok s1"
    using registry_steps [OF r_into_rtranclp [of api_key_step, OF y(1)] ok] registry_ok_cong [OF y(2)] by simp
  moreover obtain w where "dict_get (st_api_keys s2) key_id = Some w" "ak_revoked w" "ak_tenant_id w = cf_tenant cf"
      "ak_secret_fingerprint w = ak_secret_fingerprint r"
    using revocation_lasts [OF assms(5), of key_id u] u y(2) calculation by (auto simp: registry_ok_def)
  ultimately have out: "given (pr_fingerprint x) = Some (ak_secret_fingerprint r) \<Longrightarrow> revoked cf s2 x" for x
    using revoked_row registry_steps [OF assms(5)] by metis
  have "\<exists>q'. q = Some q' \<and> given (pr_fingerprint q') \<noteq> Some (ak_secret_fingerprint r)"
    if "require_api_key env cf new_id later req s2 = (Inr (Pass q c), s3)" for q c s3
    using gate_passes [OF that assms(7,6)] out by metis
  moreover have "fst (require_api_key env cf new_id later req s2)
        = Inr (Refused 401 (detail (lit ''API key has been revoked'')) (lit ''revoked_credential''))"
    if "hr_authorization req = Some (lit ''Bearer '' @ credential)"
      "principal_for_credential env cf credential = Inr (Some q)"
      "given (pr_fingerprint q) = Some (ak_secret_fingerprint r)" for credential q
    using assms(6,7) out [OF that(3)]
    by (auto simp: require_api_key_def auth_required_def authenticate_bearer [OF that(1)] that(2) admit_principal_def
        denied_response_def Let_def)
  ultimately show ?thesis by blast
qed

definition bot_store :: store where
  "bot_store = snd (ensure_configured_key 4 0 7 (lit ''bot'') (av_sha sample_api_env (lit ''s3'')) [lit ''agent''] empty_store)"

theorem revocation_shuts_out_witness:
  "\<exists>s1 r. dict_get (st_api_keys bot_store) 4 = Some r
    \<and> (\<exists>v. revoke_api_key_route \<lparr>sp_audit_id = 5, sp_audited_at = 9\<rparr> 20 local_dev 4 7 (lit ''leaked'') bot_store = (Inr (Reply 200 v), s1))
    \<and> fst (require_api_key sample_api_env gate_config 6 30 (gate_request (lit ''/v1/context'') (lit ''s3'')) s1)
      = Inr (Refused 401 (detail (lit ''API key has been revoked'')) (lit ''revoked_credential''))"
proof -
  let ?run = "revoke_api_key_route \<lparr>sp_audit_id = 5, sp_audited_at = 9\<rparr> 20 local_dev 4 7 (lit ''leaked'') bot_store"
  have "case fst ?run of Inr (Reply st v) \<Rightarrow> st = 200 | _ \<Rightarrow> False" by code_simp
  then obtain v s1 where run: "?run = (Inr (Reply 200 v), s1)"
    by (cases ?run) (auto split: sum.splits reply.splits)
  have "case dict_get (st_api_keys bot_store) 4 of None \<Rightarrow> False
    | Some r \<Rightarrow> given (pr_fingerprint bot) = Some (ak_secret_fingerprint r)" by code_simp
  then obtain r where r: "dict_get (st_api_keys bot_store) 4 = Some r" "given (pr_fingerprint bot) = Some (ak_secret_fingerprint r)"
    by (auto split: option.splits)
  have "dict_get (st_api_keys empty_store) 4 = None" by (simp add: empty_store_def)
  then have "api_key_step empty_store bot_store"
    unfolding bot_store_def by (rule api_key_step.ensure [OF _ prod.collapse [symmetric]])
  then have steps: "api_key_step\<^sup>*\<^sup>* empty_store bot_store" by blast
  have cf: "cf_tenant gate_config = 7" "auth_required gate_config" "st_api_keys empty_store = []" by code_simp+
  have key: "principal_for_credential sample_api_env gate_config (lit ''s3'') = Inr (Some bot)"
    using bot_key by (simp add: agent_key_def)
  show ?thesis
    using revocation_shuts_out [OF steps cf(3) r(1) run [folded cf(1)] rtranclp.rtrancl_refl cf(2) gate_route,
        of sample_api_env 6 30 "lit ''s3''"]
      bot_requests(1) key r run by blast
qed

section \<open>An agent's reflection in another tenant\<close>

text \<open>A request that passes changes nothing but the key's row.\<close>

lemma touch_frame: "\<exists>keys. snd (touch_api_key t f moment s) = s\<lparr>st_api_keys := keys\<rparr>"
proof -
  have "\<exists>keys. s = s\<lparr>st_api_keys := keys\<rparr>" by (rule exI [of _ "st_api_keys s"]) simp
  then show ?thesis by (auto simp: touch_api_key_def split: option.split sum.split)
qed

lemma admit_frame:
  assumes "fst (admit_principal env cf new_id now req required p claims s) = Inr (Pass q c)"
  shows "\<exists>keys. snd (admit_principal env cf new_id now req required p claims s) = s\<lparr>st_api_keys := keys\<rparr>"
proof -
  note facts = admit_passes [OF prod.collapse [symmetric, of "admit_principal env cf new_id now req required p claims s", unfolded assms]]
  have step: "admit_principal env cf new_id now req required p claims s =
      (case given (pr_fingerprint p) of None \<Rightarrow> (Inr (Pass (Some p) claims), s)
       | Some f \<Rightarrow> (case touch_api_key (cf_tenant cf) f now s of
           (Inl e, s1) \<Rightarrow> (Inl e, s1) | (Inr _, s1) \<Rightarrow> (Inr (Pass (Some p) claims), s1)))"
    unfolding admit_principal_def using facts by (simp add: Let_def)
  show ?thesis
  proof (cases "given (pr_fingerprint p)")
    case None
    then show ?thesis by (intro exI [of _ "st_api_keys s"]) (simp add: step)
  next
    case (Some f)
    with touch_frame [of "cf_tenant cf" f now s] show ?thesis
      unfolding step by (cases "touch_api_key (cf_tenant cf) f now s"; cases "fst (touch_api_key (cf_tenant cf) f now s)") simp_all
  qed
qed

lemma gate_pass_frame:
  assumes "fst (require_api_key env cf new_id now req s) = Inr (Pass q c)"
  shows "\<exists>keys. snd (require_api_key env cf new_id now req s) = s\<lparr>st_api_keys := keys\<rparr>"
proof (cases "required_scope (hr_path req) (upper_method req) = lit ''public'' \<or> \<not> auth_required cf")
  case True
  then show ?thesis
    by (intro exI [of _ "st_api_keys s"]) (auto simp: require_api_key_def auth_required_def Let_def)
next
  case False
  obtain p where p: "authenticate env cf now req s = Inr (Some (p, c))"
    using gate_passes [OF prod.collapse [symmetric, of "require_api_key env cf new_id now req s", unfolded assms]] False by blast
  then have "require_api_key env cf new_id now req s
      = admit_principal env cf new_id now req (required_scope (hr_path req) (upper_method req)) p c s"
    using False by (auto simp: require_api_key_def auth_required_def Let_def)
  with assms admit_frame show ?thesis by metis
qed

lemma reflect_path:
  fixes other :: uuid
  assumes "hr_path req = lit ''/v1/workspaces/'' @ hex_digits 32 (uint other) @ lit ''/reflect''" and "upper_method req = lit ''POST''"
  shows "required_scope (hr_path req) (upper_method req) = lit ''write''"
    and "path_segment (lit ''/v1/workspaces/'') (hr_path req) = None" and "path_segment (lit ''/v1/checkpoints/'') (hr_path req) = None"
    and "\<not> attributed_write req" and "parse_uuid (take 32 (drop (length (lit ''/v1/workspaces/'')) (hr_path req))) = Inr other"
proof -
  let ?h = "hex_digits 32 (uint other)"
  have e: "ends_with (lit ''/reflect'') (hr_path req)" "\<not> ends_with (lit ''/seed'') (hr_path req)"
    unfolding assms(1) by (simp_all add: ends_with_def starts_with_def lit_def)
  have "length (hr_path req) = 55" unfolding assms(1) by (simp add: lit_def)
  then have l: "hr_path req \<noteq> lit ''/v1/workspaces/provision''" "hr_path req \<noteq> lit ''/v1/ui/session''"
    "hr_path req \<noteq> lit ''/health''" "hr_path req \<noteq> lit ''/ready''"
    "hr_path req \<notin> {lit ''/v1/memory/retain'', lit ''/v1/conversations/turns'', lit ''/v1/memory/proposals''}" by (auto simp: lit_def)
  have p: "starts_with (lit ''/v1/workspaces/'') (hr_path req)" "\<not> starts_with (lit ''/ui'') (hr_path req)"
    "\<not> starts_with (lit ''/v1/keys'') (hr_path req)" "\<not> starts_with (lit ''/v1/audit'') (hr_path req)"
    "\<not> starts_with (lit ''/v1/identities'') (hr_path req)" "\<not> starts_with (lit ''/v1/graph'') (hr_path req)"
    "\<not> starts_with (lit ''/v1/ingest/'') (hr_path req)"
    unfolding assms(1) by (simp_all add: starts_with_def lit_def)
  show "required_scope (hr_path req) (upper_method req) = lit ''write''"
    using e l p by (simp add: required_scope_def assms(2))
  have "take 36 (drop (length (lit ''/v1/workspaces/'')) (hr_path req)) = ?h @ take 4 (lit ''/reflect'')"
    unfolding assms(1) by simp
  moreover have "47 \<in> set (take 4 (lit ''/reflect''))" by (simp add: lit_def)
  ultimately have "47 \<in> set (take 36 (drop (length (lit ''/v1/workspaces/'')) (hr_path req)))" by simp
  then show "path_segment (lit ''/v1/workspaces/'') (hr_path req) = None"
    by (auto simp: path_segment_def Let_def list_all_iff simp del: drop_drop take_drop intro!: bexI [of _ 47])
  show "path_segment (lit ''/v1/checkpoints/'') (hr_path req) = None"
    unfolding path_segment_def assms(1) by (simp add: starts_with_def lit_def)
  show "\<not> attributed_write req" unfolding attributed_write_def using l(5) p(7) by simp
  have "take 32 (drop (length (lit ''/v1/workspaces/'')) (hr_path req)) = ?h" unfolding assms(1) by simp
  then show "parse_uuid (take 32 (drop (length (lit ''/v1/workspaces/'')) (hr_path req))) = Inr other"
    by (simp add: parse_uuid_hex)
qed

text \<open>What a reflection reports as created is in the observation table.\<close>

definition created_stored :: "reflection_state \<Rightarrow> bool" where
  "created_stored st \<longleftrightarrow> (\<forall>b \<in> set (rl_created st). \<exists>i. dict_get (st_observations (rl_store st)) i = Some b)"

lemma reflect_row_stored:
  assumes "reflect_row uuid5 t w actor actor_type fr r st = (u, st1)" and "created_stored st"
  shows "created_stored st1"
  using assms(1)
proof (cases rule: reflect_row_cases)
  case (saved a b)
  let ?tbl = "st_observations (rl_store st)"
  have new: "dict_get (dict_setdefault (ob_id b) b ?tbl) (ob_id b)
      = Some (case dict_get ?tbl (ob_id b) of None \<Rightarrow> b | Some x \<Rightarrow> x)"
    by (simp add: dict_setdefault_get split: option.splits)
  have "dict_get (dict_setdefault (ob_id b) b ?tbl) i = Some x" if "dict_get ?tbl i = Some x" for i x
    using that by (auto simp: dict_setdefault_get split: option.splits)
  note keep = this
  have tbl: "st_observations (rl_store st1) = dict_setdefault (ob_id b) b ?tbl" by (simp add: saved(5))
  have "\<exists>i. dict_get (dict_setdefault (ob_id b) b ?tbl) i = Some x" if "x \<in> set (rl_created st1)" for x
  proof (cases "x \<in> set (rl_created st)")
    case True
    with assms(2) keep show ?thesis unfolding created_stored_def by blast
  next
    case False
    with that new saved(6) show ?thesis by (metis Un_iff empty_iff insert_iff list.set set_append)
  qed
  then show ?thesis unfolding created_stored_def tbl by blast
qed (use assms(2) in simp_all)

lemma reflect_rows_stored:
  "reflect_rows uuid5 t w actor actor_type fr k rs st = (u, st1) \<Longrightarrow> created_stored st \<Longrightarrow> created_stored st1"
proof (induction rs arbitrary: k st)
  case (Cons r rs)
  obtain v st2 where step: "reflect_row uuid5 t w actor actor_type (fr k) r st = (v, st2)" by fastforce
  have "created_stored st2" using reflect_row_stored [OF step Cons.prems(2)] .
  with Cons step show ?case by (cases v) auto
qed simp

lemma reflection_stored:
  assumes "reflect uuid5 fr t w actor actor_type s = (Inr created, s1)" and "b \<in> set created"
  shows "\<exists>i. dict_get (st_observations s1) i = Some b"
proof -
  obtain u st1 where run: "reflect_rows uuid5 t w actor actor_type fr 0 (considered t w s)
      \<lparr>rl_keys = existing_keys t w s, rl_created = [], rl_store = s\<rparr> = (u, st1)" by fastforce
  have "created_stored st1" using reflect_rows_stored [OF run] by (simp add: created_stored_def)
  with assms run show ?thesis by (cases u) (auto simp: reflect_def created_stored_def)
qed

lemma first_reflection_creates:
  assumes "reflect uuid5 fr t w actor actor_type s = (Inr created, s1)" and "st_observations s = []" and "considered t w s \<noteq> []"
    and "\<forall>x \<in> set (dict_values (st_items s)). \<not> blank (mi_text x)"
    and "inj_on (\<lambda>r. reflected_ids uuid5 t w (row_key r)) (set (considered t w s))" and "\<not> blank actor" and "\<not> blank actor_type"
  shows "created \<noteq> []"
proof -
  let ?rows = "considered t w s" and ?st = "\<lparr>rl_keys = existing_keys t w s, rl_created = [], rl_store = s\<rparr>"
  obtain u st1 where run: "reflect_rows uuid5 t w actor actor_type fr 0 ?rows ?st = (u, st1)" by fastforce
  have none: "existing_keys t w s = []"
    using assms(2) by (simp add: existing_keys_def list_observations_for_workspace_def list_observations_def)
  have start: "run_ok uuid5 t w (row_key ` set ?rows) ?st" using assms(2) by (simp add: run_ok_def ids_agree_def none)
  have inj: "inj_on (reflected_ids uuid5 t w) (row_key ` set ?rows)"
    using assms(5) by (intro inj_on_imageI) (simp add: comp_def)
  have "u = Inr ()" "\<forall>r \<in> set ?rows. rl_created st1 \<noteq> []"
    using reflect_rows_creates [OF start inj _ _ _ assms(6,7) run] row_observation_valid [OF assms(4)] none by fastforce+
  with assms(1,3) run show ?thesis by (cases ?rows) (auto simp: reflect_def)
qed

lemma upper_post: "hr_method req = lit ''POST'' \<Longrightarrow> upper_method req = lit ''POST''"
  by (simp add: upper_method_def lit_def)

lemma dashed_reflect_path:
  fixes other :: uuid
  assumes "hr_path req = lit ''/v1/workspaces/'' @ uuid_str other @ lit ''/reflect''" and "upper_method req = lit ''POST''"
  shows "required_scope (hr_path req) (upper_method req) = lit ''write''"
proof -
  have e: "ends_with (lit ''/reflect'') (hr_path req)" "\<not> ends_with (lit ''/seed'') (hr_path req)"
    unfolding assms(1) by (simp_all add: ends_with_def starts_with_def lit_def)
  have "length (hr_path req) = 59" unfolding assms(1) by (simp add: lit_def)
  then have l: "hr_path req \<noteq> lit ''/v1/workspaces/provision''" "hr_path req \<noteq> lit ''/v1/ui/session''"
    "hr_path req \<noteq> lit ''/health''" "hr_path req \<noteq> lit ''/ready''" by (auto simp: lit_def)
  have p: "starts_with (lit ''/v1/workspaces/'') (hr_path req)" "\<not> starts_with (lit ''/ui'') (hr_path req)"
    "\<not> starts_with (lit ''/v1/keys'') (hr_path req)" "\<not> starts_with (lit ''/v1/audit'') (hr_path req)"
    "\<not> starts_with (lit ''/v1/identities'') (hr_path req)" "\<not> starts_with (lit ''/v1/graph'') (hr_path req)"
    unfolding assms(1) by (simp_all add: starts_with_def lit_def)
  show ?thesis using e l p by (simp add: required_scope_def assms(2))
qed

text \<open>
  C40: A body that is no JSON switches the boundary off. A bound agent that asks for a reflection and
  names another tenant in the query, under its own or any other workspace in the path, with a body that
  announces JSON and cannot be parsed, passes the middleware; the same request without a body is refused
  for crossing the binding. The route of a reflection reads no body, so nothing stops it later.
\<close>

theorem malformed_body_unbound:
  assumes "agent_key env cf now s credential p t w a"
    and "hr_authorization req = Some (lit ''Bearer '' @ credential)" and "hr_method req = lit ''POST''"
    and "hr_path req = lit ''/v1/workspaces/'' @ uuid_str other @ lit ''/reflect''"
    and "hr_query req = [(lit ''tenant_id'', uuid_str t')]" and "t' \<noteq> t"
    and "hr_content_type req = Some (lit ''application/json'')" and "hr_body req \<noteq> []"
    and "av_loads env (hr_body req) = None" and "av_loads env (lit ''{}'') = Some (PDict [])"
  shows "fst (require_api_key env cf new_id now req s) = Inr (Pass (Some p) None)
    \<and> (\<exists>answer. fst (require_api_key env cf new_id now (req\<lparr>hr_body := []\<rparr>) s)
        = Inr (Refused 403 answer (lit ''identity_boundary_violation'')))"
proof -
  let ?req = "req\<lparr>hr_body := []\<rparr>"
  have up: "upper_method req = lit ''POST''" "upper_method ?req = lit ''POST''"
    by (rule upper_post; simp add: assms(3))+
  have scope: "required_scope (hr_path req) (upper_method req) = lit ''write''"
    "required_scope (hr_path ?req) (upper_method ?req) = lit ''write''"
    by (rule dashed_reflect_path; use assms(4) up in simp)+
  have "\<not> safe_method req" by (simp add: safe_method_def up) (simp add: lit_def)
  moreover have "\<not> safe_method ?req" by (simp add: safe_method_def up) (simp add: lit_def)
  moreover have "contains (lit ''json'') (py_lower (lit ''application/json''))" by code_simp
  ultimately have payload: "request_payload env req = None" "request_payload env ?req = Some []"
    using assms(7-10) by (simp_all add: request_payload_def header_def)
  have k: "lit ''agent'' \<in> set (pr_scopes p)" "pr_tenant_id p = Some t" "pr_workspace_id p = Some w" "pr_agent_id p = Some a"
    using assms(1) by (simp_all add: agent_key_def)
  have "supplied [] ?req (lit ''tenant_id'') = Some (PStr (uuid_str t'))" by (simp add: supplied_def assms(5))
  then have "request_tenant env [] ?req \<noteq> t" using assms(6) by (simp add: request_tenant_def uuid_argument_str)
  then have "bound_error env t w a [] ?req s \<noteq> None" by (auto simp: bound_error_def Let_def)
  then obtain message where "agent_binding_error env (cf_require cf) p ?req s = Some message"
    using k payload(2) by (auto simp: agent_binding_error_def)
  moreover have "agent_binding_error env (cf_require cf) p req s = None"
    using k payload(1) by (simp add: agent_binding_error_def)
  moreover have "hr_authorization ?req = Some (lit ''Bearer '' @ credential)" using assms(2) by simp
  ultimately show ?thesis
    using agent_gate [OF assms(1,2), of new_id] agent_gate [OF assms(1), of ?req new_id] scope by simp
qed

text \<open>
  C9: The boundary and the reflection route do not read the same tenant and workspace. A bound agent that
  names its own tenant and workspace in a JSON body, which the route does not read, and another tenant in
  the query and another workspace in the path, spelled as 32 digits without dashes, passes; and the
  reflection runs over the other tenant's memories and stores its observations under that tenant and workspace. (A dashed workspace
  in the path is compared with the binding.)
\<close>

theorem reflect_crosses_tenants:
  assumes "agent_key env cf now s credential p t w a" and "\<not> blank (pr_name p)"
    and "hr_authorization req = Some (lit ''Bearer '' @ credential)" and "hr_method req = lit ''POST''"
    and "hr_path req = lit ''/v1/workspaces/'' @ hex_digits 32 (uint other) @ lit ''/reflect''"
    and "hr_query req = [(lit ''tenant_id'', uuid_str t')]"
    and "hr_content_type req = Some (lit ''application/json'')" and "hr_body req \<noteq> []"
    and "av_loads env (hr_body req) = Some (PDict [(lit ''tenant_id'', PStr (uuid_str t)), (lit ''workspace_id'', PStr (uuid_str w))])"
    and "items_ok s" and "dict_ok (st_observations s)" and "\<forall>x \<in> set (dict_values (st_items s)). \<not> blank (mi_text x)"
    and "inj_on (\<lambda>r. reflected_ids uuid5 t' other (row_key r)) (set (considered t' other s))"
    and "ids_agree uuid5 t' other (row_key ` set (considered t' other s)) s"
  shows "fst (require_api_key env cf new_id now req s) = Inr (Pass (Some p) None)
    \<and> parse_uuid (take 32 (drop (length (lit ''/v1/workspaces/'')) (hr_path req))) = Inr other
    \<and> (\<exists>created s2. reflect_route uuid5 fr p other t' (snd (require_api_key env cf new_id now req s))
          = (Inr (Reply 202 (PDict [(lit ''created'', json_count created),
              (lit ''observation_ids'', PList (map (\<lambda>b. json_id (ob_id b)) created))])), s2)
        \<and> (\<forall>b \<in> set created. grounded t' other s b \<and> (\<exists>i. dict_get (st_observations s2) i = Some b))
        \<and> (considered t' other s \<noteq> [] \<and> st_observations s = [] \<longrightarrow> created \<noteq> []))"
proof -
  have up: "upper_method req = lit ''POST''" by (rule upper_post [OF assms(4)])
  note path = reflect_path [OF assms(5) up]
  let ?d = "[(lit ''tenant_id'', PStr (uuid_str t)), (lit ''workspace_id'', PStr (uuid_str w))]"
  have "\<not> safe_method req" by (simp add: safe_method_def up) (simp add: lit_def)
  moreover have "contains (lit ''json'') (py_lower (lit ''application/json''))" by code_simp
  ultimately have payload: "request_payload env req = Some ?d"
    using assms(7-9) by (simp add: request_payload_def header_def)
  have q: "supplied ?d req (lit ''tenant_id'') = Some (PStr (uuid_str t))" "supplied ?d req (lit ''workspace_id'') = Some (PStr (uuid_str w))"
    "supplied ?d req (lit ''agent_id'') = None" "supplied ?d req (lit ''thread_id'') = None"
    unfolding supplied_def assms(6) by (simp_all add: lit_def)
  have "bound_error env t w a ?d req s = None"
    using q path
    by (simp add: uuid_argument_str bound_error_def request_workspace_def request_tenant_def request_thread_def uuid_argument_def [of env None])
  then have pass: "fst (require_api_key env cf new_id now req s) = Inr (Pass (Some p) None)"
    using agent_passes [OF assms(1,3) _ payload] path(1) by simp
  then obtain keys where s1: "snd (require_api_key env cf new_id now req s) = s\<lparr>st_api_keys := keys\<rparr>"
    using gate_pass_frame by blast
  have ty: "audit_actor_type p = lit ''agent''" using assms(1) by (simp add: audit_actor_type_def agent_key_def)
  define s1 where "s1 = s\<lparr>st_api_keys := keys\<rparr>"
  have items: "st_items s1 = st_items s" "st_observations s1 = st_observations s" "st_idempotency s1 = st_idempotency s"
    by (simp_all add: s1_def)
  have cons: "considered t' other s1 = considered t' other s" by (rule considered_cong [OF items(1)])
  have iok: "items_ok s1" using assms(10) by (simp only: items_ok_def items)
  have agree: "ids_agree uuid5 t' other (row_key ` set (considered t' other s1)) s1"
    using assms(14) by (simp only: ids_agree_def items cons)
  have gr: "grounded t' other s1 b = grounded t' other s b" for b by (simp only: grounded_def get_item_def items)
  have agent: "\<not> blank (lit ''agent'')" by code_simp
  obtain created s2 where run: "reflect uuid5 fr t' other (pr_name p) (lit ''agent'') s1 = (Inr created, s2)"
    and made: "\<forall>b \<in> set created. grounded t' other s1 b"
    using reflection_grounded_and_idempotent [of s1 uuid5 t' other "pr_name p" "lit ''agent''" fr] iok assms(11-13) agree agent assms(2)
    unfolding items cons by blast
  have some: "considered t' other s \<noteq> [] \<and> st_observations s = [] \<longrightarrow> created \<noteq> []"
    using first_reflection_creates [OF run] assms(2,12,13) agent unfolding items cons by blast
  have "reflect_route uuid5 fr p other t' s1 = (Inr (Reply 202 (PDict [(lit ''created'', json_count created),
              (lit ''observation_ids'', PList (map (\<lambda>b. json_id (ob_id b)) created))])), s2)"
    by (simp add: reflect_route_def ty run handling_def replying_def)
  then show ?thesis
    using pass path(5) made some reflection_stored [OF run] unfolding s1 gr s1_def [symmetric] by blast
qed

text \<open>The bot of tenant 70 reflects in tenant 7, where two memories about tea and milk disagree.\<close>

definition shadow_body :: metadata where
  "shadow_body = [(lit ''tenant_id'', PStr (uuid_str 70)), (lit ''workspace_id'', PStr (uuid_str 80))]"

definition shadow_text :: str where
  "shadow_text = [123, 34] @ lit ''tenant_id'' @ [34, 58, 34] @ uuid_str 70 @ [34, 44, 34] @ lit ''workspace_id''
     @ [34, 58, 34] @ uuid_str 80 @ [34, 125]"

definition shadow_env :: api_env where
  "shadow_env = sample_api_env\<lparr>av_loads := (\<lambda>txt. if txt = shadow_text then Some (PDict shadow_body) else None)\<rparr>"

definition shadow_config :: api_config where
  "shadow_config = gate_config\<lparr>cf_bindings := [(lit ''bot'', \<lparr>bi_tenant_id = 70, bi_workspace_id = 80, bi_agent_id = 9\<rparr>)],
     cf_tenant := 70\<rparr>"

definition shadow_bot :: principal where
  "shadow_bot = bound_principal shadow_env (cf_bindings shadow_config) (lit ''bot'') [lit ''agent''] (lit ''s3'')"

definition shadow_request :: http_request where
  "shadow_request = \<lparr>hr_path = lit ''/v1/workspaces/'' @ hex_digits 32 (uint (8 :: uuid)) @ lit ''/reflect'', hr_method = lit ''POST'',
     hr_authorization = Some (lit ''Bearer '' @ lit ''s3''), hr_content_type = Some (lit ''application/json''),
     hr_csrf = None, hr_cookie = None, hr_query = [(lit ''tenant_id'', uuid_str 7)], hr_body = shadow_text\<rparr>"

lemma shadow_key: "agent_key shadow_env shadow_config 0 resolved_store (lit ''s3'') shadow_bot 70 80 9"
  by code_simp

theorem reflect_crosses_tenants_witness:
  "\<exists>created s2. reflect_route sample_uuid5 sample_reflection_fresh shadow_bot 8 7
      (snd (require_api_key shadow_env shadow_config 5 0 shadow_request resolved_store))
    = (Inr (Reply 202 (PDict [(lit ''created'', json_count created),
        (lit ''observation_ids'', PList (map (\<lambda>b. json_id (ob_id b)) created))])), s2)
    \<and> created \<noteq> [] \<and> (\<forall>b \<in> set created. grounded 7 8 resolved_store b)"
proof -
  have f: "\<not> blank (pr_name shadow_bot)" by code_simp
  have b: "hr_body shadow_request \<noteq> []" by (simp add: shadow_request_def shadow_text_def)
  have l: "av_loads shadow_env (hr_body shadow_request)
    = Some (PDict [(lit ''tenant_id'', PStr (uuid_str 70)), (lit ''workspace_id'', PStr (uuid_str 80))])"
    by (simp add: shadow_env_def shadow_request_def shadow_body_def)
  have d: "dict_ok (st_observations resolved_store)" by (simp add: resolved_observations)
  have r: "hr_authorization shadow_request = Some (lit ''Bearer '' @ lit ''s3'')" "hr_method shadow_request = lit ''POST''"
    "hr_path shadow_request = lit ''/v1/workspaces/'' @ hex_digits 32 (uint (8 :: uuid)) @ lit ''/reflect''"
    "hr_query shadow_request = [(lit ''tenant_id'', uuid_str 7)]" "hr_content_type shadow_request = Some (lit ''application/json'')"
    by (simp_all add: shadow_request_def)
  have "length (considered 7 8 resolved_store) = 2" by code_simp
  then have some: "considered 7 8 resolved_store \<noteq> [] \<and> st_observations resolved_store = []"
    using resolved_observations by auto
  show ?thesis
    using reflect_crosses_tenants [OF shadow_key f r b l resolved_items_ok d resolved_texts resolved_ids resolved_agree,
        of 5 sample_reflection_fresh] some by blast
qed

definition broken_request :: http_request where
  "broken_request = shadow_request\<lparr>hr_path := lit ''/v1/workspaces/'' @ uuid_str 8 @ lit ''/reflect'', hr_body := [123]\<rparr>"

definition strict_env :: api_env where
  "strict_env = shadow_env\<lparr>av_loads := (\<lambda>body. if body = lit ''{}'' then Some (PDict []) else None)\<rparr>"

theorem malformed_body_unbound_witness:
  "fst (require_api_key strict_env shadow_config 5 0 broken_request resolved_store) = Inr (Pass (Some shadow_bot) None)
    \<and> pr_tenant_id shadow_bot = Some 70 \<and> hr_query broken_request = [(lit ''tenant_id'', uuid_str 7)]"
proof -
  have key: "agent_key strict_env shadow_config 0 resolved_store (lit ''s3'') shadow_bot 70 80 9" by code_simp
  have r: "hr_authorization broken_request = Some (lit ''Bearer '' @ lit ''s3'')" "hr_method broken_request = lit ''POST''"
    "hr_path broken_request = lit ''/v1/workspaces/'' @ uuid_str 8 @ lit ''/reflect''"
    "hr_query broken_request = [(lit ''tenant_id'', uuid_str 7)]" "(7 :: uuid) \<noteq> 70"
    "hr_content_type broken_request = Some (lit ''application/json'')" "hr_body broken_request \<noteq> []"
    by (simp_all add: broken_request_def shadow_request_def)
  have l: "av_loads strict_env (hr_body broken_request) = None" "av_loads strict_env (lit ''{}'') = Some (PDict [])"
    by (simp_all add: strict_env_def broken_request_def lit_def)
  have "pr_tenant_id shadow_bot = Some 70" by code_simp
  then show ?thesis using malformed_body_unbound [OF key r l, of 5] r(4) by simp
qed

end
