(* ===== verification/Spec2Isabelle.thy ===== *)
theory Spec2Isabelle
  imports StoreProposals StoreAudit StoreRegistry StoreGraph Checkpoints Context Ingestion Retrieval Consumer Conflicts
    Conversations EventEnvelope Reflection VaultHealth System VectorIndex Embedding VaultImport VaultRoundTrip
    ApiRules ApiBoundary
begin

text \<open>
  Verification library of the memory plane (\<open>src/src/memory_plane\<close>, Python).

  What the program is. The memory plane keeps long-term memory for agents. A client retains memories,
  stores conversation turns or proposes facts through the HTTP interface; the services validate and
  redact them, the ledger stores them as append-only revisions together with one outbox row per change,
  a relay moves the outbox rows to the transport, workers consume them at least once (embedding among
  them), and recall gathers candidates from the ledger and the vector index, ranks them and compiles a
  context within a token budget. Reviewers accept or reject proposals and decide conflicts; reflection
  derives observations; maintenance purges expired transcripts.

  How the theories follow the code (each theory names its source files at its head):
  \<^item> \<open>Prelude\<close>, \<open>Text\<close>, \<open>Regex\<close>, \<open>DateTime\<close>, \<open>PyValues\<close>: the Python the code computes with, that is results
    and exceptions, insertion-ordered dictionaries, slices, stable sorts, strings, the regular-expression
    matcher, ISO timestamps, and the conversions applied to values of unknown type.
  \<^item> \<open>Domain\<close>, \<open>Contracts\<close>: the dataclasses and enumerations of \<open>domain/\<close> and \<open>contracts/\<close>; a constructor is
    its \<open>_post_init\<close>, which returns the object or the \<open>ValueError\<close>. \<open>Samples\<close> holds small objects for the
    witnesses.
  \<^item> \<open>Store\<close>, \<open>StoreItems\<close>, \<open>StoreTurns\<close>, \<open>StoreProposals\<close>, \<open>StoreGraph\<close>, \<open>StoreAudit\<close>, \<open>StoreRegistry\<close>,
    \<open>Checkpoints\<close>: \<open>adapters/in_memory.py\<close> table by table, and the thin services over it (graph, audit,
    API keys, identities, checkpoints, heartbeats). The record \<open>store\<close> has one field per attribute of
    \<open>InMemoryMemoryStore\<close>; a method takes and returns it.
  \<^item> \<open>Privacy\<close>, \<open>Retention\<close>, \<open>Ingestion\<close>: the privacy guard, the write path, and the chunker over it.
  \<^item> \<open>ProposalService\<close>, \<open>Conversations\<close>: the gateway that submits, classifies, accepts and rejects
    proposals, and the curator that turns transcripts into proposals or, when asked, memories.
  \<^item> \<open>BeliefSlots\<close>, \<open>Conflicts\<close>, \<open>Reflection\<close>: slots and values of semantic memories, the conflict inbox
    with its resolutions, and the derived observations.
  \<^item> \<open>Retrieval\<close>, \<open>Context\<close>, \<open>VectorIndex\<close>, \<open>Embedding\<close>: recall over any candidate sources, the context
    compiler and the session seed, the vector index with its payload codec, and the embedding service.
  \<^item> \<open>Outbox\<close>, \<open>Consumer\<close>, \<open>EventEnvelope\<close>: the lease statements of \<open>adapters/postgres.py\<close>, the relay,
    the idempotent consumer and the pull worker, and the JSON envelope between them.
  \<^item> \<open>VaultNotes\<close>, \<open>VaultText\<close>, \<open>Vault\<close>, \<open>VaultImport\<close>,
    \<open>VaultRoundTrip\<close>: the Markdown vault of \<open>services/vault.py\<close>: notes and
    their frontmatter, the cleaning of edited text, the export, the import of edits as revisions, the
    archiving and the targeted patch. \<open>VaultHealth\<close>: the consistency report.
  \<^item> \<open>PyStrings\<close>, \<open>Access\<close>, \<open>ApiGate\<close>, \<open>ApiRules\<close>: the access control of \<open>api/app.py\<close>: string methods,
    principals, the scope of each route, configured keys and bindings, signed browser sessions over
    base64, the middleware that admits or refuses a request, and what it guarantees.
  \<^item> \<open>ApiReplies\<close>, \<open>ApiMemory\<close>, \<open>ApiGateway\<close>, \<open>ApiOperator\<close>, \<open>ApiVault\<close>: the route handlers of
    \<open>api/app.py\<close> over the services: their audit events, exception tables and JSON answers. \<open>Replay\<close> is
    \<open>services/replay.py\<close>. \<open>ApiListing\<close>, \<open>ApiReplay\<close>, \<open>ApiBoundary\<close>: what the handlers guarantee
    together with the store and the middleware (pages that can be walked, recalls that can be explained,
    revoked keys that stay out) and the requests for which they do not (a workspace in the path without
    dashes, a body that announces JSON and is none).
  \<^item> \<open>System\<close>: the operations as one step relation on the store and the rejections in flight.

  How state and operations correspond. A method is a function from its arguments and the store to a
  result and the new store; a raised exception is \<open>Inl\<close> with the store it leaves
  behind. What the code takes from outside is an argument: identities (\<open>uuid4\<close>) and
  clock readings are fields of a \<open>fresh\<close> record, \<open>uuid5\<close>,
  \<open>sha256\<close>, \<open>blake2b\<close>, \<open>json.dumps\<close>, \<open>repr\<close>,
  language models, embedding providers, sinks, handlers and the Qdrant client are function
  parameters. One reading of the clock stands for the readings inside one call. A method that runs
  under the store's lock is one atomic step, and so is one SQL statement; a rejection, which reads
  and writes under separate locks, is two, and the relay's statements may be interleaved with other
  workers'; row-level security is a filter on the tenant and the encryption of outbox payloads is
  transparent. UUIDs are 128-bit words, instants are integers in microseconds, floats are reals (no
  rounding, no NaN unless a value of unknown type is converted), strings are lists of code points
  whose letter tables cover Latin-1 and Cyrillic.

  Interfaces. The port of each client is a locale, interpreted on the model's own definitions:
  \<open>keyset_listing\<close> (cursor pages; turns, proposals, audit), \<open>idempotent_append\<close> (items, turns, proposals),
  \<open>checkpoint_port\<close>, \<open>outbox_port\<close> (the relay's repository) and \<open>vector_port\<close> (the embedding service's
  index).

  What the lemmas show, by group. Invariants: \<open>ledger_ok\<close> (rows under their identities,
  idempotency keys of the right tenant, unforked revision chains), \<open>turns_ok\<close>,
  \<open>gateway_inv\<close> (every accepted proposal names its memory), \<open>outbox_ok\<close>,
  history and registry invariants, each kept by every operation of its component;
  \<open>System\<close> puts them together for any sequence of operations, rejections that write
  late included. Case rules (\<open>..._cases\<close>) give each operation's outcomes, errors
  included. Functional theorems say what each branch returns and changes; safety theorems say what
  no caller can obtain (another tenant's rows, a second lease, a second acceptance, an unredacted
  finding); equivalences compare an optimised or incremental routine with its reference (reindex,
  vault report); round trips cover the event envelope, the index payload, the vault notes, the
  browser sessions and the replay of a recall. Theorems of kind error exhibit behaviour that the
  findings of the manifest describe.

  Termination and bounds. Loops are structural recursion or have a measure: the descendant chase by the
  rows above the head, the summary reduction by the number of parts, the chunker by the rest of the
  text, the matcher of \<open>Regex\<close> by the characters left. No fuel is used; nothing is proved only under the
  assumption that a loop returns.

  Not modelled, and why: the request parsing, the security headers, the pages, the document upload,
  the model settings, the system status and the metrics text of \<open>api/app.py\<close> (FastAPI and pydantic over the
  operations modelled here, host telemetry, files), \<open>bootstrap.py\<close>, \<open>config\<close>, the \<open>main\<close> modules of the
  workers, their logging and metrics servers (process wiring and I/O), the rest of
  \<open>adapters/postgres.py\<close> (SQL that implements the store operations modelled from
  \<open>adapters/in_memory.py\<close>), the HTTP calls of \<open>adapters/llm.py\<close>, \<open>adapters/embeddings.py\<close> and
  \<open>adapters/qdrant.py\<close> (services outside the repository), PDF and Markdown extraction, the writing of
  the vault to a directory, the protocol classes of \<open>ports/\<close>, and the scripts, SDK, integrations,
  migrations and web assets around the package.
\<close>

end
